(* ===== verification/Prelude.thy ===== *)
theory Prelude
  imports Main "HOL-Library.AList" "HOL-Library.Sublist" "HOL-Library.Char_ord"
    "HOL-Library.List_Lexorder"
begin

text \<open>
  Shared vocabulary of the development: Python strings, dictionaries, decimal numerals and
  the list operations the components use, with the lemmas about them.

  A Python \<^verbatim>\<open>str\<close> is a \<^typ>\<open>string\<close>: the bytes of its UTF-8 encoding. On ASCII text
  this is the list of its characters, and \<^verbatim>\<open>len(s.encode("utf-8"))\<close> is \<open>length\<close> always; the
  case and whitespace predicates below are those of Python on ASCII and leave other bytes
  alone. Byte order on UTF-8 is code point order, so \<open>sort\<close> is Python's \<^verbatim>\<open>sorted\<close>.

  A Python \<^verbatim>\<open>dict\<close> with string keys is an association list in insertion order:
  \<open>map_of d k\<close> is \<^verbatim>\<open>d.get(k)\<close>, \<open>AList.update k v d\<close> is \<^verbatim>\<open>d[k] = v\<close> (in place when the key
  is there, at the end otherwise) and \<open>AList.delete k d\<close> is \<^verbatim>\<open>d.pop(k, None)\<close>.
\<close>

named_theorems py_defs "definitions of the Python string operations"
named_theorems inv_intros "preservation lemmas of the invariants"

section \<open>Exceptions and results\<close>

datatype pyexc =
    ValueError
  | TypeError
  | OverflowError
  | KeyError
  | AttributeError
  | IndexError
  | OSError
  | AssertionError

type_synonym 'a result = "pyexc + 'a"

fun the_ok :: "'e + 'a \<Rightarrow> 'a option" where
  "the_ok (Inl _) = None"
| "the_ok (Inr x) = Some x"

definition is_ok :: "'e + 'a \<Rightarrow> bool" where
  "is_ok r = (case r of Inl _ \<Rightarrow> False | Inr _ \<Rightarrow> True)"

lemma is_ok_simps [simp]: "is_ok (Inr x)" "\<not> is_ok (Inl e)"
  by (simp_all add: is_ok_def)

section \<open>Characters\<close>

abbreviation ord_of :: "char \<Rightarrow> nat" where
  "ord_of c \<equiv> of_char c"

definition py_isspace :: "char \<Rightarrow> bool" where
  "py_isspace c = (let n = ord_of c in (9 \<le> n \<and> n \<le> 13) \<or> (28 \<le> n \<and> n \<le> 32))"

definition py_isdigit :: "char \<Rightarrow> bool" where
  "py_isdigit c = (let n = ord_of c in 48 \<le> n \<and> n \<le> 57)"

definition py_isupper :: "char \<Rightarrow> bool" where
  "py_isupper c = (let n = ord_of c in 65 \<le> n \<and> n \<le> 90)"

definition py_islower :: "char \<Rightarrow> bool" where
  "py_islower c = (let n = ord_of c in 97 \<le> n \<and> n \<le> 122)"

definition py_isalpha :: "char \<Rightarrow> bool" where
  "py_isalpha c = (py_isupper c \<or> py_islower c)"

definition lower_char :: "char \<Rightarrow> char" where
  "lower_char c = (if py_isupper c then char_of (ord_of c + 32) else c)"

text \<open>The character classes computed on the bits of the byte.\<close>

lemma py_isupper_code [code]:
  "py_isupper (Char b0 b1 b2 b3 b4 b5 b6 b7) =
     (\<not> b7 \<and> b6 \<and> \<not> b5 \<and> (b4 \<or> b3 \<or> b2 \<or> b1 \<or> b0) \<and> (b4 \<and> b3 \<longrightarrow> \<not> b2 \<and> \<not> (b1 \<and> b0)))"
  by (cases b0; cases b1; cases b2; cases b3; cases b4; cases b5; cases b6; cases b7)
    (simp_all add: py_isupper_def Let_def)

lemma py_islower_code [code]:
  "py_islower (Char b0 b1 b2 b3 b4 b5 b6 b7) =
     (\<not> b7 \<and> b6 \<and> b5 \<and> (b4 \<or> b3 \<or> b2 \<or> b1 \<or> b0) \<and> (b4 \<and> b3 \<longrightarrow> \<not> b2 \<and> \<not> (b1 \<and> b0)))"
  by (cases b0; cases b1; cases b2; cases b3; cases b4; cases b5; cases b6; cases b7)
    (simp_all add: py_islower_def Let_def)

lemma py_isdigit_code [code]:
  "py_isdigit (Char b0 b1 b2 b3 b4 b5 b6 b7) =
     (\<not> b7 \<and> \<not> b6 \<and> b5 \<and> b4 \<and> (b3 \<longrightarrow> \<not> b2 \<and> \<not> b1))"
  by (cases b0; cases b1; cases b2; cases b3; cases b4; cases b5; cases b6; cases b7)
    (simp_all add: py_isdigit_def Let_def)

lemma py_isspace_code [code]:
  "py_isspace (Char b0 b1 b2 b3 b4 b5 b6 b7) =
     (\<not> b7 \<and> \<not> b6 \<and>
      (\<not> b5 \<and> \<not> b4 \<and> b3 \<and> (b2 \<or> b1 \<or> b0) \<and> \<not> (b2 \<and> b1) \<or>
       \<not> b5 \<and> b4 \<and> b3 \<and> b2 \<or>
       b5 \<and> \<not> b4 \<and> \<not> b3 \<and> \<not> b2 \<and> \<not> b1 \<and> \<not> b0))"
  by (cases b0; cases b1; cases b2; cases b3; cases b4; cases b5; cases b6; cases b7)
    (simp_all add: py_isspace_def Let_def)

lemma lower_char_code [code]:
  "lower_char (Char b0 b1 b2 b3 b4 b5 b6 b7) =
     (if py_isupper (Char b0 b1 b2 b3 b4 b5 b6 b7) then Char b0 b1 b2 b3 b4 True b6 b7
      else Char b0 b1 b2 b3 b4 b5 b6 b7)"
  by (cases b0; cases b1; cases b2; cases b3; cases b4; cases b5; cases b6; cases b7)
    (simp_all add: lower_char_def py_isupper_def Let_def char_of_def bit_0)

section \<open>Strings\<close>

definition py_lower :: "string \<Rightarrow> string" where
  "py_lower s = map lower_char s"

definition py_lstrip :: "string \<Rightarrow> string" where
  "py_lstrip s = dropWhile py_isspace s"

definition py_rstrip :: "string \<Rightarrow> string" where
  "py_rstrip s = rev (dropWhile py_isspace (rev s))"

definition py_strip :: "string \<Rightarrow> string" where
  "py_strip s = py_rstrip (py_lstrip s)"

definition strip_chars :: "string \<Rightarrow> string \<Rightarrow> string" where
  "strip_chars cs s =
     rev (dropWhile (\<lambda>c. c \<in> set cs) (rev (dropWhile (\<lambda>c. c \<in> set cs) s)))"

definition rstrip_chars :: "string \<Rightarrow> string \<Rightarrow> string" where
  "rstrip_chars cs s = rev (dropWhile (\<lambda>c. c \<in> set cs) (rev s))"

text \<open>\<^verbatim>\<open>s.split()\<close>: the maximal runs without whitespace.\<close>

fun words_acc :: "string \<Rightarrow> string \<Rightarrow> string list" where
  "words_acc acc [] = (if acc = [] then [] else [rev acc])"
| "words_acc acc (c # s) =
     (if py_isspace c then (if acc = [] then words_acc [] s else rev acc # words_acc [] s)
      else words_acc (c # acc) s)"

definition py_words :: "string \<Rightarrow> string list" where
  "py_words s = words_acc [] s"

text \<open>\<^verbatim>\<open>s.split(c)\<close> for a one-character separator; never empty.\<close>

fun split_char :: "char \<Rightarrow> string \<Rightarrow> string list" where
  "split_char c [] = [[]]"
| "split_char c (x # s) =
     (if x = c then [] # split_char c s
      else (case split_char c s of [] \<Rightarrow> [[x]] | w # ws \<Rightarrow> (x # w) # ws))"

text \<open>\<^verbatim>\<open>sep in s\<close>, \<^verbatim>\<open>s.partition(sep)\<close> and \<^verbatim>\<open>s.count(sep)\<close>.\<close>

fun py_contains :: "string \<Rightarrow> string \<Rightarrow> bool" where
  "py_contains p [] = (p = [])"
| "py_contains p (c # s) = (prefix p (c # s) \<or> py_contains p s)"

fun partition_at :: "string \<Rightarrow> string \<Rightarrow> (string \<times> string) option" where
  "partition_at sep [] = (if sep = [] then Some ([], []) else None)"
| "partition_at sep (c # s) =
     (if prefix sep (c # s) then Some ([], drop (length sep) (c # s))
      else map_option (\<lambda>(a, b). (c # a, b)) (partition_at sep s))"

fun py_join :: "string \<Rightarrow> string list \<Rightarrow> string" where
  "py_join sep [] = []"
| "py_join sep [x] = x"
| "py_join sep (x # y # xs) = x @ sep @ py_join sep (y # xs)"

definition nl :: string where
  "nl = [CHR 0x0A]"

text \<open>The bytes of the characters U+2026 and U+2014.\<close>

definition ellipsis :: string where
  "ellipsis = [CHR 0xE2, CHR 0x80, CHR 0xA6]"

definition em_dash :: string where
  "em_dash = [CHR 0xE2, CHR 0x80, CHR 0x94]"

section \<open>Decimal numerals\<close>

definition digit_char :: "nat \<Rightarrow> char" where
  "digit_char d = char_of (48 + d)"

fun show_nat :: "nat \<Rightarrow> string" where
  "show_nat n = (if n < 10 then [digit_char n] else show_nat (n div 10) @ [digit_char (n mod 10)])"

declare show_nat.simps [simp del]

definition show_int :: "int \<Rightarrow> string" where
  "show_int i = (if i < 0 then CHR ''-'' # show_nat (nat (- i)) else show_nat (nat i))"

text \<open>\<^verbatim>\<open>f"{index:03d}"\<close>.\<close>

definition pad3 :: "nat \<Rightarrow> string" where
  "pad3 n = (let s = show_nat n in replicate (3 - length s) (CHR ''0'') @ s)"

definition digit_val :: "char \<Rightarrow> nat" where
  "digit_val c = ord_of c - 48"

definition digits_val :: "string \<Rightarrow> nat" where
  "digits_val s = foldl (\<lambda>n c. 10 * n + digit_val c) 0 s"

section \<open>Lists\<close>

text \<open>\<^verbatim>\<open>list(dict.fromkeys(xs))\<close>: the first occurrences, in order.\<close>

definition dedup :: "'a list \<Rightarrow> 'a list" where
  "dedup xs = rev (remdups (rev xs))"

text \<open>\<^verbatim>\<open>sorted(set(xs))\<close>.\<close>

definition sorted_set :: "'a::linorder list \<Rightarrow> 'a list" where
  "sorted_set xs = sort (remdups xs)"

text \<open>\<^verbatim>\<open>xs[-n:]\<close> for a positive \<open>n\<close>.\<close>

definition last_n :: "nat \<Rightarrow> 'a list \<Rightarrow> 'a list" where
  "last_n n xs = drop (length xs - n) xs"

lemma set_dedup [simp]: "set (dedup xs) = set xs"
  by (simp add: dedup_def)

lemma distinct_dedup [simp]: "distinct (dedup xs)"
  by (simp add: dedup_def)

lemma length_dedup_le: "length (dedup xs) \<le> length xs"
  by (simp add: dedup_def) (metis length_remdups_leq length_rev)

lemma dedup_Nil [simp]: "dedup [] = []"
  by (simp add: dedup_def)

lemma set_sorted_set [simp]: "set (sorted_set xs) = set xs"
  by (simp add: sorted_set_def)

lemma sorted_sorted_set [simp]: "sorted (sorted_set xs)"
  by (simp add: sorted_set_def)

lemma distinct_sorted_set [simp]: "distinct (sorted_set xs)"
  by (simp add: sorted_set_def)

lemma length_last_n [simp]: "length (last_n n xs) = min n (length xs)"
  by (simp add: last_n_def)

lemma set_last_n_subset: "set (last_n n xs) \<subseteq> set xs"
  by (auto simp: last_n_def dest: in_set_dropD)

lemma last_n_snoc: "0 < n \<Longrightarrow> last_n n (xs @ [x]) = last_n (n - 1) xs @ [x]"
  by (cases n) (auto simp: last_n_def)

lemma sorted_set_cong: "set xs = set ys \<Longrightarrow> sorted_set xs = sorted_set ys"
  by (simp add: sorted_set_def sorted_distinct_set_unique)

section \<open>Facts about strings and numerals\<close>

lemma show_nat_nonempty [simp]: "show_nat n \<noteq> []"
  by (subst show_nat.simps) simp

lemma ord_digit_char: "d < 10 \<Longrightarrow> ord_of (digit_char d) = 48 + d"
  by (simp add: digit_char_def)

lemma digit_val_digit_char [simp]: "d < 10 \<Longrightarrow> digit_val (digit_char d) = d"
  by (simp add: digit_val_def ord_digit_char)

lemma isdigit_digit_char [simp]: "d < 10 \<Longrightarrow> py_isdigit (digit_char d)"
  by (simp add: py_isdigit_def ord_digit_char Let_def)

lemma show_nat_digits: "c \<in> set (show_nat n) \<Longrightarrow> py_isdigit c"
proof (induction n rule: show_nat.induct)
  case (1 n)
  then show ?case
    by (cases "n < 10") (auto simp: show_nat.simps [of n])
qed

lemma digits_val_snoc: "digits_val (s @ [c]) = 10 * digits_val s + digit_val c"
  by (simp add: digits_val_def)

lemma digits_val_show_nat [simp]: "digits_val (show_nat n) = n"
proof (induction n rule: show_nat.induct)
  case (1 n)
  then show ?case
    by (cases "n < 10") (auto simp: show_nat.simps [of n] digits_val_snoc digits_val_def)
qed

lemma show_nat_inj: "show_nat m = show_nat n \<Longrightarrow> m = n"
  by (metis digits_val_show_nat)

lemma digit_char_inj: "d < 10 \<Longrightarrow> e < 10 \<Longrightarrow> digit_char d = digit_char e \<Longrightarrow> d = e"
  by (metis digit_val_digit_char)

text \<open>A numeral of two or more digits has no leading zero.\<close>

lemma show_nat_hd_zero: "hd (show_nat n) = CHR ''0'' \<Longrightarrow> n = 0"
proof (induction n rule: show_nat.induct)
  case (1 n)
  show ?case
  proof (cases "n < 10")
    case True
    have z: "digit_char 0 = CHR ''0''" by code_simp
    from True "1.prems" have "digit_char n = digit_char 0"
      unfolding z by (simp add: show_nat.simps [of n])
    with True show ?thesis using digit_char_inj [of n 0] by simp
  next
    case False
    then have "hd (show_nat (n div 10)) = CHR ''0''"
      using "1.prems" by (simp add: show_nat.simps [of n])
    with False "1.IH" have "n div 10 = 0" by simp
    with False show ?thesis by simp
  qed
qed

lemma pad3_val: "digits_val (replicate k (CHR ''0'') @ s) = digits_val s"
  by (induction k) (auto simp: digits_val_def digit_val_def)

lemma pad3_inj: "pad3 m = pad3 n \<Longrightarrow> m = n"
  unfolding pad3_def Let_def by (metis digits_val_show_nat pad3_val)

lemma pad3_nonempty [simp]: "pad3 n \<noteq> []"
  by (simp add: pad3_def Let_def)

lemma py_contains_self [simp]: "py_contains s s"
  by (cases s) auto

lemma py_contains_appendI: "py_contains p s \<Longrightarrow> py_contains p (a @ s)"
  by (induction a) auto

lemma py_contains_append_right: "py_contains p s \<Longrightarrow> py_contains p (s @ b)"
proof (induction s)
  case Nil
  then show ?case by (cases b) auto
next
  case (Cons c s)
  have "prefix p (c # s) \<Longrightarrow> prefix p ((c # s) @ b)" by (rule prefix_prefix)
  with Cons show ?case by auto
qed

lemma py_contains_infix: "py_contains p (a @ p @ b)"
  by (intro py_contains_appendI py_contains_append_right) simp

lemma py_strip_Nil [simp]: "py_strip [] = []"
  by (simp add: py_strip_def py_lstrip_def py_rstrip_def)

lemma length_py_strip: "length (py_strip s) \<le> length s"
  unfolding py_strip_def py_rstrip_def py_lstrip_def
  by (metis length_dropWhile_le length_rev order_trans)

lemma py_rstrip_idem [simp]: "py_rstrip (py_rstrip s) = py_rstrip s"
  by (simp add: py_rstrip_def)

lemma py_strip_idem [simp]: "py_strip (py_strip s) = py_strip s"
proof (cases "py_strip s")
  case Nil
  then show ?thesis by simp
next
  case (Cons c t)
  obtain k where k: "py_lstrip s = py_strip s @ k"
    unfolding py_strip_def py_rstrip_def
    by (metis rev_append rev_rev_ident takeWhile_dropWhile_id)
  have "py_lstrip s \<noteq> []" using k Cons by simp
  then have "\<not> py_isspace (hd (py_lstrip s))"
    unfolding py_lstrip_def by (rule hd_dropWhile)
  then have "\<not> py_isspace c" using k Cons by simp
  then have "py_lstrip (py_strip s) = py_strip s"
    using Cons by (simp add: py_lstrip_def)
  then show ?thesis by (metis py_rstrip_idem py_strip_def)
qed

section \<open>Criterion identifiers\<close>

text \<open>
  \<^verbatim>\<open>f"criterion-{index:03d}"\<close> and the list of identifiers of a contract with \<open>n\<close>
  criteria; \<^verbatim>\<open>services/completion.py\<close>, \<^verbatim>\<open>verification.py\<close> and \<^verbatim>\<open>contract.py\<close> all build
  them the same way.
\<close>

definition criterion_id :: "nat \<Rightarrow> string" where
  "criterion_id i = ''criterion-'' @ pad3 i"

definition criterion_ids_upto :: "nat \<Rightarrow> string list" where
  "criterion_ids_upto n = map criterion_id [1..<n + 1]"

lemma criterion_id_inj: "criterion_id m = criterion_id n \<Longrightarrow> m = n"
  by (simp add: criterion_id_def pad3_inj)

lemma set_criterion_ids_upto: "set (criterion_ids_upto n) = criterion_id ` {1..n}"
  by (auto simp: criterion_ids_upto_def)

lemma distinct_criterion_ids_upto [simp]: "distinct (criterion_ids_upto n)"
  by (auto simp: criterion_ids_upto_def distinct_map inj_on_def dest: criterion_id_inj)

lemma length_criterion_ids_upto [simp]: "length (criterion_ids_upto n) = n"
  by (simp add: criterion_ids_upto_def)

end
