(* ===== verification/Py_Json.thy ===== *)
theory Py_Json
  imports Prelude "HOL-Library.Multiset"
begin

text \<open>
  JSON values as Python sees them (\<^verbatim>\<open>json.loads\<close>, \<^verbatim>\<open>json.dumps\<close>), with the conversions
  the code applies to untrusted values: truthiness, \<^verbatim>\<open>str(x)\<close>, \<^verbatim>\<open>int(x)\<close> and \<^verbatim>\<open>float(x)\<close> with
  the exceptions they raise.

  A float is a decimal \<open>FDec m e\<close>, the number \<open>m * 10 ^ e\<close>, or an infinity or NaN: the
  rounding to binary64 is not modelled, the overflow to infinity is. The parser takes a fuel
  argument; \<open>json_loads\<close> gives it twice the length of the text, which the round trip
  theorem shows to be enough for every serialised value.
\<close>

section \<open>Values\<close>

datatype pyfloat = FDec int int | FInf | FNegInf | FNan

datatype json =
    JNull
  | JBool bool
  | JInt int
  | JFloat pyfloat
  | JStr string
  | JArr "json list"
  | JObj "(string \<times> json) list"

type_synonym jdict = "(string \<times> json) list"

fun truthy :: "json \<Rightarrow> bool" where
  "truthy JNull = False"
| "truthy (JBool b) = b"
| "truthy (JInt i) = (i \<noteq> 0)"
| "truthy (JFloat (FDec m e)) = (m \<noteq> 0)"
| "truthy (JFloat _) = True"
| "truthy (JStr s) = (s \<noteq> [])"
| "truthy (JArr xs) = (xs \<noteq> [])"
| "truthy (JObj d) = (d \<noteq> [])"

fun is_dict :: "json \<Rightarrow> bool" where
  "is_dict (JObj _) = True"
| "is_dict _ = False"

text \<open>\<^verbatim>\<open>d.get(k)\<close> and \<^verbatim>\<open>d.get(k, default)\<close>; a missing key reads as \<open>JNull\<close>, as \<^verbatim>\<open>None\<close> does.\<close>

definition dget :: "jdict \<Rightarrow> string \<Rightarrow> json" where
  "dget d k = (case map_of d k of None \<Rightarrow> JNull | Some v \<Rightarrow> v)"

definition dget_or :: "jdict \<Rightarrow> string \<Rightarrow> json \<Rightarrow> json" where
  "dget_or d k dflt = (case map_of d k of None \<Rightarrow> dflt | Some v \<Rightarrow> v)"

text \<open>\<^verbatim>\<open>a or b\<close>.\<close>

definition or_json :: "json \<Rightarrow> json \<Rightarrow> json" where
  "or_json a b = (if truthy a then a else b)"

definition dset :: "string \<Rightarrow> json \<Rightarrow> jdict \<Rightarrow> jdict" where
  "dset k v d = AList.update k v d"

definition dpop :: "string \<Rightarrow> jdict \<Rightarrow> jdict" where
  "dpop k d = AList.delete k d"

definition json_strs :: "string list \<Rightarrow> json" where
  "json_strs xs = JArr (map JStr xs)"

definition str_or_null :: "string option \<Rightarrow> json" where
  "str_or_null x = (case x of None \<Rightarrow> JNull | Some s \<Rightarrow> JStr s)"

section \<open>Floats\<close>

function norm_dec :: "int \<Rightarrow> int \<Rightarrow> pyfloat" where
  "norm_dec m e =
     (if m = 0 then FDec 0 0
      else if m mod 10 = 0 then norm_dec (m div 10) (e + 1)
      else FDec m e)"
  by pat_completeness auto
termination
proof (relation "measure (\<lambda>(m, e). nat \<bar>m\<bar>)")
  fix m e :: int
  assume "m \<noteq> 0" and "m mod 10 = 0"
  then obtain k where "m = 10 * k" by (metis mod_0_imp_dvd dvd_def)
  with \<open>m \<noteq> 0\<close> show "((m div 10, e + 1), (m, e)) \<in> measure (\<lambda>(m, e). nat \<bar>m\<bar>)"
    by (auto simp: abs_if)
qed auto

declare norm_dec.simps [simp del]

text \<open>The magnitudes that round to infinity in binary64.\<close>

lemma norm_dec_finite: "\<exists>a b. norm_dec m e = FDec a b"
  by (induction m e rule: norm_dec.induct) (subst norm_dec.simps, simp del: norm_dec.simps)

definition float_limit :: int where
  "float_limit = 2 ^ 1024 - 2 ^ 970"

definition dec_overflows :: "int \<Rightarrow> int \<Rightarrow> bool" where
  "dec_overflows m e =
     (if 0 \<le> e then float_limit \<le> \<bar>m\<bar> * 10 ^ nat e
      else float_limit * 10 ^ nat (- e) \<le> \<bar>m\<bar>)"

definition mk_float :: "int \<Rightarrow> int \<Rightarrow> pyfloat" where
  "mk_float m e =
     (if dec_overflows m e then (if m < 0 then FNegInf else FInf) else norm_dec m e)"

text \<open>\<^verbatim>\<open>int(x)\<close> on a float truncates; infinities and NaN raise.\<close>

definition trunc_dec :: "int \<Rightarrow> int \<Rightarrow> int" where
  "trunc_dec m e = (if 0 \<le> e then m * 10 ^ nat e else sgn m * (\<bar>m\<bar> div 10 ^ nat (- e)))"

fun int_of_float :: "pyfloat \<Rightarrow> int result" where
  "int_of_float (FDec m e) = Inr (trunc_dec m e)"
| "int_of_float FNan = Inl ValueError"
| "int_of_float _ = Inl OverflowError"

definition float_repr_digits :: "string \<Rightarrow> int \<Rightarrow> string" where
  "float_repr_digits ds decpt =
     (let n = int (length ds) in
      if -4 < decpt \<and> decpt \<le> 16 then
        (if decpt \<le> 0 then ''0.'' @ replicate (nat (- decpt)) (CHR ''0'') @ ds
         else if n \<le> decpt then ds @ replicate (nat (decpt - n)) (CHR ''0'') @ ''.0''
         else take (nat decpt) ds @ ''.'' @ drop (nat decpt) ds)
      else
        take 1 ds @ (if n = 1 then [] else ''.'' @ drop 1 ds) @ ''e'' @
        (if decpt - 1 < 0 then ''-'' else ''+'') @
        (let es = show_nat (nat \<bar>decpt - 1\<bar>) in if length es < 2 then CHR ''0'' # es else es))"

fun float_repr :: "pyfloat \<Rightarrow> string" where
  "float_repr (FDec m e) =
     (if m = 0 then ''0.0''
      else (if m < 0 then ''-'' else []) @
        (let ds = show_nat (nat \<bar>m\<bar>) in float_repr_digits ds (int (length ds) + e)))"
| "float_repr FInf = ''inf''"
| "float_repr FNegInf = ''-inf''"
| "float_repr FNan = ''nan''"

section \<open>Numerals in strings\<close>

text \<open>A digit string with single underscores between digits, as \<^verbatim>\<open>int("1_000")\<close> accepts.\<close>

fun digits_us :: "string \<Rightarrow> bool" where
  "digits_us [] = False"
| "digits_us [c] = py_isdigit c"
| "digits_us (c # d # s) =
     (py_isdigit c \<and> (if d = CHR ''_'' then digits_us s else digits_us (d # s)))"

definition drop_us :: "string \<Rightarrow> string" where
  "drop_us s = [c \<leftarrow> s. c \<noteq> CHR ''_'']"

fun split_sign :: "string \<Rightarrow> bool \<times> string" where
  "split_sign (c # s) =
     (if c = CHR ''-'' then (True, s) else if c = CHR ''+'' then (False, s) else (False, c # s))"
| "split_sign [] = (False, [])"

definition signed :: "bool \<Rightarrow> int \<Rightarrow> int" where
  "signed neg i = (if neg then - i else i)"

definition int_of_string :: "string \<Rightarrow> int result" where
  "int_of_string s =
     (let (neg, ds) = split_sign (py_strip s)
      in if digits_us ds then Inr (signed neg (int (digits_val (drop_us ds)))) else Inl ValueError)"

text \<open>\<^verbatim>\<open>float(s)\<close>: an optional sign, then a decimal with optional exponent, or inf or nan.\<close>

definition parse_exponent :: "string \<Rightarrow> int option" where
  "parse_exponent s =
     (case s of
        [] \<Rightarrow> Some 0
      | c # t \<Rightarrow>
          if c = CHR ''e'' \<or> c = CHR ''E'' then
            (let (neg, ds) = split_sign t
             in if digits_us ds then Some (signed neg (int (digits_val (drop_us ds)))) else None)
          else None)"

definition not_exp :: "char \<Rightarrow> bool" where
  "not_exp c = (c \<noteq> CHR ''e'' \<and> c \<noteq> CHR ''E'')"

definition parse_decimal :: "bool \<Rightarrow> string \<Rightarrow> pyfloat option" where
  "parse_decimal neg s =
     (let mant = takeWhile not_exp s; ex = dropWhile not_exp s;
          ip = takeWhile (\<lambda>c. c \<noteq> CHR ''.'') mant; rest = drop (length ip + 1) mant
      in if (ip = [] \<or> digits_us ip) \<and> (rest = [] \<or> digits_us rest) \<and> (ip \<noteq> [] \<or> rest \<noteq> [])
         then map_option
           (\<lambda>x. let fp = drop_us rest in
              mk_float (signed neg (int (digits_val (drop_us ip @ fp)))) (x - int (length fp)))
           (parse_exponent ex)
         else None)"

definition float_of_string :: "string \<Rightarrow> pyfloat result" where
  "float_of_string s =
     (let (neg, t) = split_sign (py_strip s); l = py_lower t
      in if l = ''inf'' \<or> l = ''infinity'' then Inr (if neg then FNegInf else FInf)
         else if l = ''nan'' then Inr FNan
         else (case parse_decimal neg t of None \<Rightarrow> Inl ValueError | Some x \<Rightarrow> Inr x))"

fun py_float :: "json \<Rightarrow> pyfloat result" where
  "py_float (JFloat x) = Inr x"
| "py_float (JInt i) = (if dec_overflows i 0 then Inl OverflowError else Inr (norm_dec i 0))"
| "py_float (JBool b) = Inr (FDec (if b then 1 else 0) 0)"
| "py_float (JStr s) = float_of_string s"
| "py_float _ = Inl TypeError"

fun py_int :: "json \<Rightarrow> int result" where
  "py_int (JInt i) = Inr i"
| "py_int (JBool b) = Inr (if b then 1 else 0)"
| "py_int (JFloat x) = int_of_float x"
| "py_int (JStr s) = int_of_string s"
| "py_int _ = Inl TypeError"

section \<open>\<^verbatim>\<open>str(x)\<close>\<close>

definition hex_char :: "nat \<Rightarrow> char" where
  "hex_char d = (if d < 10 then char_of (48 + d) else char_of (87 + d))"

definition hex2 :: "nat \<Rightarrow> string" where
  "hex2 n = [hex_char (n div 16 mod 16), hex_char (n mod 16)]"

definition hex4 :: "nat \<Rightarrow> string" where
  "hex4 n = hex2 (n div 256) @ hex2 (n mod 256)"

abbreviation quote_ch :: char where "quote_ch \<equiv> CHR 0x22"
abbreviation apos_ch :: char where "apos_ch \<equiv> CHR 0x27"
abbreviation bslash_ch :: char where "bslash_ch \<equiv> CHR 0x5C"

definition repr_char :: "char \<Rightarrow> char \<Rightarrow> string" where
  "repr_char q c =
     (if c = q \<or> c = bslash_ch then [bslash_ch, c]
      else if c = CHR 0x0A then bslash_ch # ''n''
      else if c = CHR 0x0D then bslash_ch # ''r''
      else if c = CHR 0x09 then bslash_ch # ''t''
      else if ord_of c < 32 \<or> ord_of c = 127 then bslash_ch # CHR ''x'' # hex2 (ord_of c)
      else [c])"

definition str_repr :: "string \<Rightarrow> string" where
  "str_repr s =
     (let q = (if apos_ch \<in> set s \<and> quote_ch \<notin> set s then quote_ch else apos_ch)
      in q # concat (map (repr_char q) s) @ [q])"

fun py_repr :: "json \<Rightarrow> string" where
  "py_repr JNull = ''None''"
| "py_repr (JBool b) = (if b then ''True'' else ''False'')"
| "py_repr (JInt i) = show_int i"
| "py_repr (JFloat x) = float_repr x"
| "py_repr (JStr s) = str_repr s"
| "py_repr (JArr xs) = ''['' @ py_join '', '' (map py_repr xs) @ '']''"
| "py_repr (JObj d) = ''{'' @ py_join '', '' (map (\<lambda>(k, v). str_repr k @ '': '' @ py_repr v) d) @ ''}''"

definition py_str :: "json \<Rightarrow> string" where
  "py_str j = (case j of JStr s \<Rightarrow> s | _ \<Rightarrow> py_repr j)"

section \<open>Serialisation\<close>

text \<open>Characters inside a JSON string, with \<^verbatim>\<open>ensure_ascii=False\<close>.\<close>

definition esc_char :: "char \<Rightarrow> string" where
  "esc_char c =
     (if c = quote_ch then [bslash_ch, quote_ch]
      else if c = bslash_ch then [bslash_ch, bslash_ch]
      else if c = CHR 0x0A then bslash_ch # ''n''
      else if c = CHR 0x0D then bslash_ch # ''r''
      else if c = CHR 0x09 then bslash_ch # ''t''
      else if c = CHR 0x08 then bslash_ch # ''b''
      else if c = CHR 0x0C then bslash_ch # ''f''
      else if ord_of c < 32 then bslash_ch # CHR ''u'' # hex4 (ord_of c)
      else [c])"

definition esc_str :: "string \<Rightarrow> string" where
  "esc_str s = concat (map esc_char s)"

definition quoted :: "string \<Rightarrow> string" where
  "quoted s = quote_ch # esc_str s @ [quote_ch]"

fun float_json :: "pyfloat \<Rightarrow> string" where
  "float_json FInf = ''Infinity''"
| "float_json FNegInf = ''-Infinity''"
| "float_json FNan = ''NaN''"
| "float_json x = float_repr x"

text \<open>\<^verbatim>\<open>json.dumps(v, separators=(",", ":"), ensure_ascii=False)\<close>, and the key sorting of
  \<^verbatim>\<open>sort_keys=True\<close> as a step of its own.\<close>

fun dumps :: "json \<Rightarrow> string" where
  "dumps JNull = ''null''"
| "dumps (JBool b) = (if b then ''true'' else ''false'')"
| "dumps (JInt i) = show_int i"
| "dumps (JFloat x) = float_json x"
| "dumps (JStr s) = quoted s"
| "dumps (JArr xs) = CHR ''['' # py_join '','' (map dumps xs) @ '']''"
| "dumps (JObj d) = CHR ''{'' # py_join '','' (map (\<lambda>(k, v). quoted k @ CHR '':'' # dumps v) d) @ ''}''"

fun sort_keys :: "json \<Rightarrow> json" where
  "sort_keys (JArr xs) = JArr (map sort_keys xs)"
| "sort_keys (JObj d) = JObj (sort_key fst (map (\<lambda>(k, v). (k, sort_keys v)) d))"
| "sort_keys j = j"

definition canonical :: "json \<Rightarrow> string" where
  "canonical j = dumps (sort_keys j)"

text \<open>\<^verbatim>\<open>ensure_ascii=True\<close>, the default: code points from 127 on are written as \<^verbatim>\<open>\u\<close> escapes,
  those beyond the basic plane as surrogate pairs. Such bytes only occur inside strings.\<close>

definition sequence_tail :: "nat \<Rightarrow> nat" where
  "sequence_tail n = (if n < 192 then 0 else if n < 224 then 1 else if n < 240 then 2 else 3)"

definition code_point :: "string \<Rightarrow> nat" where
  "code_point bs =
     (let k = length bs; n = ord_of (hd bs)
      in foldl (\<lambda>a b. 64 * a + ord_of b mod 64)
           (if k = 1 then n else if k = 2 then n mod 32 else if k = 3 then n mod 16 else n mod 8) (tl bs))"

definition u_escape :: "nat \<Rightarrow> string" where
  "u_escape n =
     (if n < 65536 then bslash_ch # CHR ''u'' # hex4 n
      else (let m = n - 65536
            in bslash_ch # CHR ''u'' # hex4 (55296 + m div 1024) @
               bslash_ch # CHR ''u'' # hex4 (56320 + m mod 1024)))"

function ascii_text :: "string \<Rightarrow> string" where
  "ascii_text [] = []"
| "ascii_text (c # s) =
     (if ord_of c < 127 then c # ascii_text s
      else (let k = sequence_tail (ord_of c)
            in u_escape (code_point (c # take k s)) @ ascii_text (drop k s)))"
  by pat_completeness auto
termination by (relation "measure length") auto

lemma ascii_text_id: "list_all (\<lambda>c. ord_of c < 127) s \<Longrightarrow> ascii_text s = s"
  by (induction s) auto

definition canonical_ascii :: "json \<Rightarrow> string" where
  "canonical_ascii j = ascii_text (canonical j)"

text \<open>\<^verbatim>\<open>json.dumps(v, indent=2, ensure_ascii=False)\<close>.\<close>

definition indent :: "nat \<Rightarrow> string" where
  "indent n = nl @ replicate (2 * n) (CHR '' '')"

fun pretty :: "nat \<Rightarrow> json \<Rightarrow> string" where
  "pretty l (JArr xs) =
     (if xs = [] then ''[]''
      else CHR ''['' # indent (l + 1) @
           py_join (CHR '','' # indent (l + 1)) (map (pretty (l + 1)) xs) @ indent l @ '']'')"
| "pretty l (JObj d) =
     (if d = [] then ''{}''
      else CHR ''{'' # indent (l + 1) @
           py_join (CHR '','' # indent (l + 1))
             (map (\<lambda>(k, v). quoted k @ '': '' @ pretty (l + 1) v) d) @ indent l @ ''}'')"
| "pretty l j = dumps j"

section \<open>Parsing\<close>

definition json_ws :: "char \<Rightarrow> bool" where
  "json_ws c = (c \<in> {CHR '' '', CHR 0x09, CHR 0x0A, CHR 0x0D})"

definition skip_ws :: "string \<Rightarrow> string" where
  "skip_ws s = dropWhile json_ws s"

definition hex_val :: "char \<Rightarrow> nat option" where
  "hex_val c =
     (let n = ord_of c in
      if 48 \<le> n \<and> n \<le> 57 then Some (n - 48)
      else if 97 \<le> n \<and> n \<le> 102 then Some (n - 87)
      else if 65 \<le> n \<and> n \<le> 70 then Some (n - 55)
      else None)"

fun parse_hex4 :: "string \<Rightarrow> (nat \<times> string) option" where
  "parse_hex4 (a # b # c # d # s) =
     (case (hex_val a, hex_val b, hex_val c, hex_val d) of
        (Some w, Some x, Some y, Some z) \<Rightarrow> Some (((w * 16 + x) * 16 + y) * 16 + z, s)
      | _ \<Rightarrow> None)"
| "parse_hex4 _ = None"

text \<open>UTF-8 encoding of a code point (lone surrogates take three bytes).\<close>

definition utf8 :: "nat \<Rightarrow> string" where
  "utf8 n =
     (if n < 128 then [char_of n]
      else if n < 2048 then [char_of (192 + n div 64), char_of (128 + n mod 64)]
      else if n < 65536 then
        [char_of (224 + n div 4096), char_of (128 + n div 64 mod 64), char_of (128 + n mod 64)]
      else
        [char_of (240 + n div 262144), char_of (128 + n div 4096 mod 64),
         char_of (128 + n div 64 mod 64), char_of (128 + n mod 64)])"

definition parse_unicode :: "string \<Rightarrow> (string \<times> string) option" where
  "parse_unicode s =
     (case parse_hex4 s of
        None \<Rightarrow> None
      | Some (hi, r) \<Rightarrow>
          if 55296 \<le> hi \<and> hi \<le> 56319 \<and> prefix (bslash_ch # ''u'') r then
            (case parse_hex4 (drop 2 r) of
               None \<Rightarrow> None
             | Some (lo, r') \<Rightarrow>
                 if 56320 \<le> lo \<and> lo \<le> 57343
                 then Some (utf8 (65536 + (hi - 55296) * 1024 + (lo - 56320)), r')
                 else Some (utf8 hi, r))
          else Some (utf8 hi, r))"

definition simple_escape :: "char \<Rightarrow> char option" where
  "simple_escape c =
     (if c \<in> {quote_ch, bslash_ch, CHR ''/''} then Some c
      else if c = CHR ''b'' then Some (CHR 0x08)
      else if c = CHR ''f'' then Some (CHR 0x0C)
      else if c = CHR ''n'' then Some (CHR 0x0A)
      else if c = CHR ''r'' then Some (CHR 0x0D)
      else if c = CHR ''t'' then Some (CHR 0x09)
      else None)"

fun parse_escape :: "string \<Rightarrow> (string \<times> string) option" where
  "parse_escape [] = None"
| "parse_escape (c # s) =
     (if c = CHR ''u'' then parse_unicode s
      else (case simple_escape c of None \<Rightarrow> None | Some x \<Rightarrow> Some ([x], s)))"

lemma parse_hex4_length: "parse_hex4 s = Some (n, r) \<Longrightarrow> length r < length s"
  by (induction s rule: parse_hex4.induct) (auto split: option.splits)

lemma parse_unicode_length: "parse_unicode s = Some (t, r) \<Longrightarrow> length r < length s"
  by (auto simp: parse_unicode_def split: option.splits if_splits dest!: parse_hex4_length)

lemma parse_escape_length: "parse_escape s = Some (t, r) \<Longrightarrow> length r < length s"
  by (cases s) (auto split: if_splits option.splits dest!: parse_unicode_length)

function parse_str :: "string \<Rightarrow> (string \<times> string) option" where
  "parse_str [] = None"
| "parse_str (c # s) =
     (if c = quote_ch then Some ([], s)
      else if c = bslash_ch then
        (case parse_escape s of
           None \<Rightarrow> None
         | Some (t, r) \<Rightarrow> map_option (\<lambda>(u, q). (t @ u, q)) (parse_str r))
      else if ord_of c < 32 then None
      else map_option (\<lambda>(u, q). (c # u, q)) (parse_str s))"
  by pat_completeness auto
termination
  by (relation "measure length") (auto dest!: parse_escape_length)

definition parse_frac :: "string \<Rightarrow> string \<times> string" where
  "parse_frac s =
     (case s of
        c # d # t \<Rightarrow>
          if c = CHR ''.'' \<and> py_isdigit d
          then (takeWhile py_isdigit (d # t), dropWhile py_isdigit (d # t)) else ([], s)
      | _ \<Rightarrow> ([], s))"

definition parse_exp :: "string \<Rightarrow> int option \<times> string" where
  "parse_exp s =
     (case s of
        [] \<Rightarrow> (None, s)
      | c # t \<Rightarrow>
          if c = CHR ''e'' \<or> c = CHR ''E'' then
            (let (neg, u) = split_sign t; ds = takeWhile py_isdigit u
             in if ds = [] then (None, s)
                else (Some (signed neg (int (digits_val ds))), dropWhile py_isdigit u))
          else (None, s))"

definition parse_intpart :: "string \<Rightarrow> (string \<times> string) option" where
  "parse_intpart s =
     (case s of
        [] \<Rightarrow> None
      | c # t \<Rightarrow>
          if c = CHR ''0'' then Some ([c], t)
          else if py_isdigit c then Some (takeWhile py_isdigit s, dropWhile py_isdigit s)
          else None)"

definition parse_number :: "string \<Rightarrow> (json \<times> string) option" where
  "parse_number s =
     (let (neg, s1) = (case s of c # t \<Rightarrow> if c = CHR ''-'' then (True, t) else (False, s)
                               | [] \<Rightarrow> (False, []))
      in case parse_intpart s1 of
           None \<Rightarrow> None
         | Some (ip, s2) \<Rightarrow>
             (let (fp, s3) = parse_frac s2; (ex, s4) = parse_exp s3
              in if fp = [] \<and> ex = None
                 then Some (JInt (signed neg (int (digits_val ip))), s4)
                 else Some (JFloat (mk_float (signed neg (int (digits_val (ip @ fp))))
                        ((case ex of None \<Rightarrow> 0 | Some x \<Rightarrow> x) - int (length fp))), s4)))"

definition strip_lit :: "string \<Rightarrow> string \<Rightarrow> string option" where
  "strip_lit p s = (if prefix p s then Some (drop (length p) s) else None)"

definition parse_atom :: "string \<Rightarrow> (json \<times> string) option" where
  "parse_atom s =
     (case strip_lit ''null'' s of Some r \<Rightarrow> Some (JNull, r) | None \<Rightarrow>
      case strip_lit ''true'' s of Some r \<Rightarrow> Some (JBool True, r) | None \<Rightarrow>
      case strip_lit ''false'' s of Some r \<Rightarrow> Some (JBool False, r) | None \<Rightarrow>
      case strip_lit ''NaN'' s of Some r \<Rightarrow> Some (JFloat FNan, r) | None \<Rightarrow>
      case strip_lit ''Infinity'' s of Some r \<Rightarrow> Some (JFloat FInf, r) | None \<Rightarrow>
      case strip_lit ''-Infinity'' s of Some r \<Rightarrow> Some (JFloat FNegInf, r) | None \<Rightarrow>
      parse_number s)"

definition dict_of_pairs :: "(string \<times> json) list \<Rightarrow> jdict" where
  "dict_of_pairs kvs = foldl (\<lambda>d (k, v). AList.update k v d) [] kvs"

fun parse_value :: "nat \<Rightarrow> string \<Rightarrow> (json \<times> string) option"
and parse_elems :: "nat \<Rightarrow> string \<Rightarrow> (json list \<times> string) option"
and parse_members :: "nat \<Rightarrow> string \<Rightarrow> ((string \<times> json) list \<times> string) option" where
  "parse_value 0 s = None"
| "parse_value (Suc f) s =
     (case s of
        [] \<Rightarrow> None
      | c # t \<Rightarrow>
          if c = quote_ch then map_option (\<lambda>(x, r). (JStr x, r)) (parse_str t)
          else if c = CHR ''{'' then
            (case strip_lit ''}'' (skip_ws t) of
               Some r \<Rightarrow> Some (JObj [], r)
             | None \<Rightarrow> map_option (\<lambda>(d, r). (JObj (dict_of_pairs d), r)) (parse_members f (skip_ws t)))
          else if c = CHR ''['' then
            (case strip_lit '']'' (skip_ws t) of
               Some r \<Rightarrow> Some (JArr [], r)
             | None \<Rightarrow> map_option (\<lambda>(xs, r). (JArr xs, r)) (parse_elems f (skip_ws t)))
          else parse_atom s)"
| "parse_elems 0 s = None"
| "parse_elems (Suc f) s =
     (case parse_value f s of
        None \<Rightarrow> None
      | Some (v, r) \<Rightarrow>
          (case skip_ws r of
             [] \<Rightarrow> None
           | c # q \<Rightarrow>
               if c = CHR '']'' then Some ([v], q)
               else if c = CHR '','' then map_option (\<lambda>(vs, u). (v # vs, u)) (parse_elems f (skip_ws q))
               else None))"
| "parse_members 0 s = None"
| "parse_members (Suc f) s =
     (case strip_lit [quote_ch] s of
        None \<Rightarrow> None
      | Some t \<Rightarrow>
          (case parse_str t of
             None \<Rightarrow> None
           | Some (k, r) \<Rightarrow>
               (case strip_lit '':'' (skip_ws r) of
                  None \<Rightarrow> None
                | Some q \<Rightarrow>
                    (case parse_value f (skip_ws q) of
                       None \<Rightarrow> None
                     | Some (v, r2) \<Rightarrow>
                         (case skip_ws r2 of
                            [] \<Rightarrow> None
                          | c # u \<Rightarrow>
                              if c = CHR ''}'' then Some ([(k, v)], u)
                              else if c = CHR '','' then
                                map_option (\<lambda>(d, z). ((k, v) # d, z)) (parse_members f (skip_ws u))
                              else None)))))"

definition json_loads :: "string \<Rightarrow> json option" where
  "json_loads s =
     (case parse_value (2 * length s) (skip_ws s) of
        None \<Rightarrow> None
      | Some (v, r) \<Rightarrow> if skip_ws r = [] then Some v else None)"

section \<open>The serialiser and the parser agree\<close>

text \<open>
  The values on which the round trip is stated: no floats (their decimal text is not rounded
  here) and no duplicate keys, which a Python dictionary cannot hold.
\<close>

fun wf_json :: "json \<Rightarrow> bool" where
  "wf_json (JFloat _) = False"
| "wf_json (JArr xs) = list_all wf_json xs"
| "wf_json (JObj d) = (distinct (map fst d) \<and> list_all (\<lambda>(k, v). wf_json v) d)"
| "wf_json _ = True"

lemma hex_val_hex_char: "d < 16 \<Longrightarrow> hex_val (hex_char d) = Some d"
  by (auto simp: hex_val_def hex_char_def Let_def)

lemma nibbles: "x < 256 \<Longrightarrow> x div 16 mod 16 * 16 + x mod 16 = (x::nat)"
proof -
  assume "x < 256"
  then have "x div 16 mod 16 = x div 16" by simp
  then show ?thesis by (simp add: mult.commute)
qed

lemma parse_hex4_hex4:
  assumes "n < 65536"
  shows "parse_hex4 (hex4 n @ s) = Some (n, s)"
proof -
  have "n div 256 div 16 mod 16 < 16" "n div 256 mod 16 < 16"
    "n mod 256 div 16 mod 16 < 16" "n mod 256 mod 16 < 16" by simp_all
  moreover have "((n div 256 div 16 mod 16 * 16 + n div 256 mod 16) * 16 + n mod 256 div 16 mod 16) * 16
      + n mod 256 mod 16 = n"
  proof -
    have a: "n div 256 div 16 mod 16 * 16 + n div 256 mod 16 = n div 256"
      using assms by (intro nibbles) simp
    have b: "n mod 256 div 16 mod 16 * 16 + n mod 256 mod 16 = n mod 256"
      by (intro nibbles) simp
    have "(n div 256 * 16 + n mod 256 div 16 mod 16) * 16 + n mod 256 mod 16
        = n div 256 * 256 + (n mod 256 div 16 mod 16 * 16 + n mod 256 mod 16)"
      by simp
    also have "\<dots> = n" unfolding b by simp
    finally show ?thesis unfolding a .
  qed
  ultimately show ?thesis
    by (simp add: hex4_def hex2_def hex_val_hex_char del: mod_mod_trivial)
qed

lemma parse_control_escape:
  assumes "ord_of c < 32"
  shows "parse_escape (CHR ''u'' # hex4 (ord_of c) @ s) = Some ([c], s)"
proof -
  have "parse_unicode (hex4 (ord_of c) @ s) = Some (utf8 (ord_of c), s)"
    using assms by (simp add: parse_unicode_def parse_hex4_hex4)
  moreover have "utf8 (ord_of c) = [c]"
    using assms by (simp add: utf8_def)
  ultimately show ?thesis by simp
qed

lemma parse_str_esc_char: "parse_str (esc_char c @ s) = map_option (\<lambda>(u, q). (c # u, q)) (parse_str s)"
proof -
  consider "c = quote_ch" | "c = bslash_ch" | "c = CHR 0x0A" | "c = CHR 0x0D" | "c = CHR 0x09"
    | "c = CHR 0x08" | "c = CHR 0x0C"
    | "c \<notin> {quote_ch, bslash_ch, CHR 0x0A, CHR 0x0D, CHR 0x09, CHR 0x08, CHR 0x0C}" "ord_of c < 32"
    | "c \<notin> {quote_ch, bslash_ch, CHR 0x0A, CHR 0x0D, CHR 0x09, CHR 0x08, CHR 0x0C}" "\<not> ord_of c < 32"
    by blast
  then show ?thesis
  proof cases
    case 8
    then have "esc_char c = bslash_ch # CHR ''u'' # hex4 (ord_of c)" by (simp add: esc_char_def)
    with 8 show ?thesis by (simp add: parse_control_escape del: parse_escape.simps)
  next
    case 9
    then have "esc_char c = [c]" by (simp add: esc_char_def)
    with 9 show ?thesis by simp
  qed (simp_all add: esc_char_def simple_escape_def)
qed

lemma parse_str_esc_str [simp]: "parse_str (esc_str k @ quote_ch # r) = Some (k, r)"
  unfolding esc_str_def by (induction k) (simp_all add: parse_str_esc_char)

text \<open>The characters that may follow a value.\<close>

definition delim_first :: "string \<Rightarrow> bool" where
  "delim_first r = (r = [] \<or> hd r \<in> {CHR '','', CHR '']'', CHR ''}''})"

lemma takeWhile_digits_show_nat:
  assumes "delim_first r"
  shows "takeWhile py_isdigit (show_nat n @ r) = show_nat n"
    and "dropWhile py_isdigit (show_nat n @ r) = r"
proof -
  have "\<forall>c \<in> set (show_nat n). py_isdigit c" by (auto dest: show_nat_digits)
  moreover have "takeWhile py_isdigit r = []"
    using assms by (cases r) (auto simp: delim_first_def py_isdigit_def)
  moreover have "dropWhile py_isdigit r = r"
    using assms by (cases r) (auto simp: delim_first_def py_isdigit_def)
  ultimately show "takeWhile py_isdigit (show_nat n @ r) = show_nat n"
    "dropWhile py_isdigit (show_nat n @ r) = r"
    by (simp_all add: takeWhile_append dropWhile_append)
qed

lemma parse_intpart_show_nat:
  assumes "delim_first r"
  shows "parse_intpart (show_nat n @ r) = Some (show_nat n, r)"
proof (cases "show_nat n")
  case Nil
  then show ?thesis by simp
next
  case (Cons c t)
  then have "py_isdigit c" using show_nat_digits [of c n] by simp
  show ?thesis
  proof (cases "c = CHR ''0''")
    case True
    with Cons have "n = 0" using show_nat_hd_zero [of n] by simp
    moreover have "show_nat 0 = [c]" using True by (simp add: show_nat.simps digit_char_def) code_simp
    ultimately show ?thesis using True by (simp add: parse_intpart_def)
  next
    case False
    with Cons \<open>py_isdigit c\<close> show ?thesis
      using takeWhile_digits_show_nat [OF assms, of n] by (simp add: parse_intpart_def)
  qed
qed

lemma parse_tail_delim: "delim_first r \<Longrightarrow> parse_frac r = ([], r) \<and> parse_exp r = (None, r)"
  by (cases r; cases "tl r") (auto simp: delim_first_def parse_frac_def parse_exp_def)

lemma show_int_first: "\<exists>c t. show_int i = c # t \<and> (c = CHR ''-'' \<or> py_isdigit c)"
proof -
  obtain c t where "show_nat (nat i) = c # t" "py_isdigit c"
    using show_nat_digits [of _ "nat i"] by (cases "show_nat (nat i)") auto
  then show ?thesis by (auto simp: show_int_def)
qed

lemma parse_number_show_int:
  assumes "delim_first r"
  shows "parse_number (show_int i @ r) = Some (JInt i, r)"
proof (cases "i < 0")
  case True
  then show ?thesis
    using parse_intpart_show_nat [OF assms, of "nat (- i)"] parse_tail_delim [OF assms]
    by (simp add: parse_number_def show_int_def signed_def)
next
  case False
  obtain c t where ct: "show_nat (nat i) = c # t" "py_isdigit c"
    using show_nat_digits [of _ "nat i"] by (cases "show_nat (nat i)") auto
  then have "c \<noteq> CHR ''-''" by (auto simp: py_isdigit_def)
  moreover have "digits_val (c # t) = nat i"
    using ct(1) digits_val_show_nat [of "nat i"] by simp
  ultimately show ?thesis
    using False ct parse_intpart_show_nat [OF assms, of "nat i"] parse_tail_delim [OF assms]
    by (simp add: parse_number_def show_int_def signed_def)
qed

lemma parse_atom_show_int:
  assumes "delim_first r"
  shows "parse_atom (show_int i @ r) = Some (JInt i, r)"
proof -
  obtain c t where ct: "show_int i = c # t" "c = CHR ''-'' \<or> py_isdigit c"
    using show_int_first by blast
  have "\<not> prefix ''-Infinity'' (show_int i @ r)"
  proof (cases "i < 0")
    case True
    obtain d u where d: "show_nat (nat (- i)) = d # u" "py_isdigit d"
      using show_nat_digits [of _ "nat (- i)"] by (cases "show_nat (nat (- i))") auto
    then have "d \<noteq> CHR ''I''" by (auto simp: py_isdigit_def)
    with True d show ?thesis by (simp add: show_int_def)
  next
    case False
    then obtain d u where d: "show_int i = d # u" "py_isdigit d"
      using show_nat_digits [of _ "nat i"] by (cases "show_nat (nat i)") (auto simp: show_int_def)
    then have "d \<noteq> CHR ''-''" by (auto simp: py_isdigit_def)
    with d show ?thesis by simp
  qed
  then have "strip_lit ''-Infinity'' (show_int i @ r) = None"
    by (simp add: strip_lit_def)
  moreover have "strip_lit (x # p) (show_int i @ r) = None" if "x \<in> set ''ntfNI''" for x p
    using that ct by (auto simp: strip_lit_def py_isdigit_def)
  ultimately show ?thesis
    by (simp add: parse_atom_def parse_number_show_int [OF assms])
qed

text \<open>The first character of a serialised value is not whitespace and closes nothing.\<close>

lemma dumps_first:
  "wf_json v \<Longrightarrow> \<exists>c t. dumps v = c # t \<and> \<not> json_ws c \<and> c \<noteq> CHR '']'' \<and> c \<noteq> CHR ''}''"
proof (cases v)
  case (JInt i)
  then show ?thesis
    using show_int_first [of i] by (auto simp: json_ws_def py_isdigit_def)
qed (auto simp: json_ws_def quoted_def)

lemma skip_ws_dumps [simp]: "wf_json v \<Longrightarrow> skip_ws (dumps v @ r) = dumps v @ r"
  using dumps_first [of v] by (auto simp: skip_ws_def)

lemma skip_ws_nonws [simp]: "\<not> json_ws c \<Longrightarrow> skip_ws (c # r) = c # r"
  by (simp add: skip_ws_def)

lemma json_ws_punct [simp]:
  "\<not> json_ws CHR '',''" "\<not> json_ws CHR '']''" "\<not> json_ws CHR ''}''" "\<not> json_ws CHR '':''"
  "\<not> json_ws quote_ch"
  by (simp_all add: json_ws_def)

lemma delim_first_punct [simp]:
  "delim_first []" "delim_first (CHR '','' # r)" "delim_first (CHR '']'' # r)"
  "delim_first (CHR ''}'' # r)"
  by (simp_all add: delim_first_def)

lemma parse_atom_lits:
  "parse_atom (''null'' @ r) = Some (JNull, r)"
  "parse_atom (''true'' @ r) = Some (JBool True, r)"
  "parse_atom (''false'' @ r) = Some (JBool False, r)"
  by (simp_all add: parse_atom_def strip_lit_def)

lemma dict_of_pairs_distinct:
  assumes "distinct (map fst d)"
  shows "dict_of_pairs d = d"
proof -
  have step: "foldl (\<lambda>d (k, v). AList.update k v d) acc d = acc @ d"
    if "distinct (map fst (acc @ d))" for acc
    using that
  proof (induction d arbitrary: acc)
    case Nil
    then show ?case by simp
  next
    case (Cons kv d)
    obtain k v where kv: "kv = (k, v)" by force
    have "AList.update k v acc = acc @ [(k, v)]"
      using Cons.prems kv by (induction acc) auto
    moreover have "distinct (map fst ((acc @ [(k, v)]) @ d))"
      using Cons.prems kv by simp
    ultimately show ?case using Cons.IH kv by simp
  qed
  from step [of "[]"] assms show ?thesis by (simp add: dict_of_pairs_def)
qed

text \<open>
  The three parsers read back what \<open>dumps\<close> wrote, given fuel at least twice the length of the
  text; the statement for lists and members follows from the one for their elements.
\<close>

definition reads :: "json \<Rightarrow> bool" where
  "reads v = (\<forall>f r. 2 * length (dumps v) \<le> f \<longrightarrow> delim_first r \<longrightarrow>
     parse_value f (dumps v @ r) = Some (v, r))"

definition elems_text :: "json list \<Rightarrow> string" where
  "elems_text vs = py_join '','' (map dumps vs)"

definition member_text :: "string \<times> json \<Rightarrow> string" where
  "member_text = (\<lambda>(k, v). quoted k @ CHR '':'' # dumps v)"

definition members_text :: "(string \<times> json) list \<Rightarrow> string" where
  "members_text d = py_join '','' (map member_text d)"

lemma readsD: "reads v \<Longrightarrow> 2 * length (dumps v) \<le> f \<Longrightarrow> delim_first r \<Longrightarrow>
    parse_value f (dumps v @ r) = Some (v, r)"
  by (simp add: reads_def)

lemma elems_text_simps:
  "elems_text [v] = dumps v"
  "elems_text (v # w # vs) = dumps v @ CHR '','' # elems_text (w # vs)"
  by (simp_all add: elems_text_def)

lemma members_text_simps:
  "members_text [m] = member_text m"
  "members_text (m # n # d) = member_text m @ CHR '','' # members_text (n # d)"
  by (simp_all add: members_text_def)

lemma elems_text_first:
  "vs \<noteq> [] \<Longrightarrow> list_all wf_json vs \<Longrightarrow>
     \<exists>c t. elems_text vs = c # t \<and> \<not> json_ws c \<and> c \<noteq> CHR '']'' \<and> c \<noteq> CHR ''}''"
  using dumps_first by (cases vs rule: remdups_adj.cases) (fastforce simp: elems_text_simps)+

lemma parse_elems_text:
  assumes "vs \<noteq> []" "list_all wf_json vs" "\<forall>v \<in> set vs. reads v"
    and "2 * length (elems_text vs) + 1 \<le> f"
  shows "parse_elems f (elems_text vs @ CHR '']'' # r) = Some (vs, r)"
  using assms
proof (induction vs arbitrary: f)
  case Nil
  then show ?case by simp
next
  case (Cons v vs)
  then obtain g where f: "f = Suc g" by (cases f) auto
  show ?case
  proof (cases vs)
    case Nil
    with Cons.prems f have "parse_value g (dumps v @ CHR '']'' # r) = Some (v, CHR '']'' # r)"
      by (intro readsD) (auto simp: elems_text_simps)
    with Nil f show ?thesis by (simp add: elems_text_simps)
  next
    case (Cons w ws)
    then have eq: "elems_text (v # vs) = dumps v @ CHR '','' # elems_text vs"
      by (simp add: elems_text_simps)
    have v: "parse_value g (dumps v @ CHR '','' # elems_text vs @ CHR '']'' # r)
        = Some (v, CHR '','' # elems_text vs @ CHR '']'' # r)"
      using Cons.prems f eq by (intro readsD) auto
    have "parse_elems g (elems_text vs @ CHR '']'' # r) = Some (vs, r)"
      using Cons.prems f eq Cons by (intro Cons.IH) auto
    moreover have "skip_ws (elems_text vs @ CHR '']'' # r) = elems_text vs @ CHR '']'' # r"
      using elems_text_first [of vs] Cons.prems Cons by auto
    ultimately show ?thesis using f eq v by simp
  qed
qed

lemma member_text_first: "\<exists>t. member_text m = quote_ch # t"
  by (cases m) (simp add: member_text_def quoted_def)

lemma members_text_first: "d \<noteq> [] \<Longrightarrow> \<exists>t. members_text d = quote_ch # t"
  by (cases d rule: remdups_adj.cases)
    (auto simp: members_text_simps member_text_def quoted_def split: prod.splits)

lemma parse_members_text:
  assumes "d \<noteq> []" "\<forall>(k, v) \<in> set d. wf_json v \<and> reads v"
    and "2 * length (members_text d) + 1 \<le> f"
  shows "parse_members f (members_text d @ CHR ''}'' # r) = Some (d, r)"
  using assms
proof (induction d arbitrary: f)
  case Nil
  then show ?case by simp
next
  case (Cons m d)
  obtain k v where m: "m = (k, v)" by force
  then have wf: "wf_json v" "reads v" using Cons.prems by auto
  obtain g where f: "f = Suc g" using Cons.prems by (cases f) auto
  show ?case
  proof (cases d)
    case Nil
    with Cons.prems f m have "parse_value g (dumps v @ CHR ''}'' # r) = Some (v, CHR ''}'' # r)"
      by (intro readsD) (auto simp: members_text_simps member_text_def wf)
    with Nil f m wf show ?thesis
      by (simp add: members_text_simps member_text_def quoted_def strip_lit_def)
  next
    case (Cons n e)
    then have eq: "members_text (m # d) = member_text m @ CHR '','' # members_text d"
      by (simp add: members_text_simps)
    have v: "parse_value g (dumps v @ CHR '','' # members_text d @ CHR ''}'' # r)
        = Some (v, CHR '','' # members_text d @ CHR ''}'' # r)"
      using Cons.prems f eq m by (intro readsD) (auto simp: member_text_def wf)
    have "parse_members g (members_text d @ CHR ''}'' # r) = Some (d, r)"
      using Cons.prems f eq Cons by (intro Cons.IH) auto
    moreover have "skip_ws (members_text d @ CHR ''}'' # r) = members_text d @ CHR ''}'' # r"
      using members_text_first [of d] Cons by auto
    ultimately show ?thesis
      using f eq v m wf by (simp add: member_text_def quoted_def strip_lit_def)
  qed
qed

lemma parse_value_atom:
  assumes "0 < f" "s = c # t" "c \<notin> {quote_ch, CHR ''{'', CHR ''[''}" 
  shows "parse_value f s = parse_atom s"
  using assms by (cases f) auto

lemma wf_json_reads: "wf_json v \<Longrightarrow> reads v"
proof (induction v)
  case JNull
  show ?case
    unfolding reads_def by (auto simp: parse_value_atom parse_atom_lits [simplified])
next
  case (JBool b)
  show ?case
    unfolding reads_def by (cases b) (auto simp: parse_value_atom parse_atom_lits [simplified])
next
  case (JInt i)
  obtain c t where ct: "show_int i = c # t" "c = CHR ''-'' \<or> py_isdigit c"
    using show_int_first by blast
  show ?case
    unfolding reads_def
  proof (intro allI impI)
    fix f r
    assume f: "2 * length (dumps (JInt i)) \<le> f" and r: "delim_first r"
    have "0 < f" using f ct by simp
    moreover have "c \<notin> {quote_ch, CHR ''{'', CHR ''[''}"
      using ct(2) by (auto simp: py_isdigit_def)
    ultimately have "parse_value f (show_int i @ r) = parse_atom (show_int i @ r)"
      using ct by (intro parse_value_atom) auto
    then show "parse_value f (dumps (JInt i) @ r) = Some (JInt i, r)"
      using parse_atom_show_int [OF r] by simp
  qed
next
  case (JFloat x)
  then show ?case by simp
next
  case (JStr s)
  show ?case
    unfolding reads_def
  proof (intro allI impI)
    fix f r
    assume "2 * length (dumps (JStr s)) \<le> f"
    then obtain g where "f = Suc g" by (cases f) (auto simp: quoted_def)
    then show "parse_value f (dumps (JStr s) @ r) = Some (JStr s, r)"
      by (simp add: quoted_def)
  qed
next
  case (JArr vs)
  show ?case
    unfolding reads_def
  proof (intro allI impI)
    fix f r
    assume f: "2 * length (dumps (JArr vs)) \<le> f"
    then obtain g where g: "f = Suc g" by (cases f) auto
    show "parse_value f (dumps (JArr vs) @ r) = Some (JArr vs, r)"
    proof (cases "vs = []")
      case True
      with g show ?thesis by (simp add: strip_lit_def)
    next
      case False
      have wf: "list_all wf_json vs" "\<forall>v \<in> set vs. reads v"
        using JArr by (auto simp: list_all_iff)
      obtain c t where ct: "elems_text vs = c # t" "\<not> json_ws c" "c \<noteq> CHR '']''"
        using elems_text_first [OF False wf(1)] by blast
      have "parse_elems g (elems_text vs @ CHR '']'' # r) = Some (vs, r)"
        using f g by (intro parse_elems_text [OF False wf]) (simp add: elems_text_def)
      with g ct show ?thesis by (simp add: strip_lit_def flip: elems_text_def)
    qed
  qed
next
  case (JObj d)
  show ?case
    unfolding reads_def
  proof (intro allI impI)
    fix f r
    assume f: "2 * length (dumps (JObj d)) \<le> f"
    then obtain g where g: "f = Suc g" by (cases f) auto
    have dtext: "dumps (JObj d) = CHR ''{'' # members_text d @ ''}''"
      by (simp add: members_text_def member_text_def)
    show "parse_value f (dumps (JObj d) @ r) = Some (JObj d, r)"
    proof (cases "d = []")
      case True
      with g show ?thesis by (simp add: strip_lit_def)
    next
      case False
      have wf: "\<forall>(k, v) \<in> set d. wf_json v \<and> reads v"
        using JObj by (fastforce simp: list_all_iff)
      obtain t where t: "members_text d = quote_ch # t"
        using members_text_first [OF False] by blast
      have "parse_members g (members_text d @ CHR ''}'' # r) = Some (d, r)"
        using f g dtext by (intro parse_members_text [OF False wf]) simp
      moreover have "dict_of_pairs d = d"
        using JObj.prems by (simp add: dict_of_pairs_distinct)
      ultimately show ?thesis using g t dtext by (simp add: strip_lit_def)
    qed
  qed
qed

lemma json_loads_dumps:
  assumes "wf_json v"
  shows "json_loads (dumps v) = Some v"
proof -
  have "parse_value (2 * length (dumps v)) (dumps v @ []) = Some (v, [])"
    using wf_json_reads [OF assms] by (intro readsD) auto
  moreover have "skip_ws (dumps v) = dumps v"
    using skip_ws_dumps [OF assms, of "[]"] by simp
  ultimately show ?thesis by (simp add: json_loads_def skip_ws_def)
qed

lemma dumps_inj: "wf_json v \<Longrightarrow> wf_json w \<Longrightarrow> dumps v = dumps w \<Longrightarrow> v = w"
  by (metis json_loads_dumps option.inject)

text \<open>Sorting the keys keeps a value well formed and, on sorted values, changes nothing.\<close>

lemma wf_json_sort_keys: "wf_json v \<Longrightarrow> wf_json (sort_keys v)"
proof (induction v)
  case (JArr vs)
  then show ?case by (auto simp: list_all_iff)
next
  case (JObj d)
  have "map fst (map (\<lambda>(k, v). (k, sort_keys v)) d) = map fst d" by auto
  then have "distinct (map fst (map (\<lambda>(k, v). (k, sort_keys v)) d))"
    using JObj.prems by (metis wf_json.simps(3))
  moreover have "mset (map fst (sort_key fst (map (\<lambda>(k, v). (k, sort_keys v)) d)))
      = mset (map fst (map (\<lambda>(k, v). (k, sort_keys v)) d))"
    by (simp only: mset_map mset_sort)
  ultimately have "distinct (map fst (sort_key fst (map (\<lambda>(k, v). (k, sort_keys v)) d)))"
    by (metis mset_eq_imp_distinct_iff)
  moreover have "list_all (\<lambda>(k, v). wf_json v) (sort_key fst (map (\<lambda>(k, v). (k, sort_keys v)) d))"
    using JObj by (fastforce simp: list_all_iff)
  ultimately show ?case by simp
qed auto

lemma canonical_inj:
  "wf_json v \<Longrightarrow> wf_json w \<Longrightarrow> canonical v = canonical w \<Longrightarrow> sort_keys v = sort_keys w"
  unfolding canonical_def by (intro dumps_inj wf_json_sort_keys)

text \<open>Values that agree after key sorting hold the same members under each key.\<close>

lemma map_of_sort_key_fst:
  fixes d :: "('k :: linorder \<times> 'v) list"
  assumes "distinct (map fst d)"
  shows "map_of (sort_key fst d) = map_of d"
proof (rule map_of_eqI)
  have "mset (map fst (sort_key fst d)) = mset (map fst d)" by (simp only: mset_map mset_sort)
  then have "distinct (map fst (sort_key fst d))"
    using assms by (metis mset_eq_imp_distinct_iff)
  then show "\<forall>k \<in> set (map fst (sort_key fst d)). map_of (sort_key fst d) k = map_of d k"
    using assms by (auto simp: map_of_is_SomeI)
qed auto

lemma map_of_map_sort_keys:
  "map_of (map (\<lambda>(k, v). (k, sort_keys v)) d) k = map_option sort_keys (map_of d k)"
  by (induction d) auto

lemma sort_keys_members:
  assumes "sort_keys (JObj d) = sort_keys (JObj e)" "distinct (map fst d)" "distinct (map fst e)"
  shows "map_option sort_keys (map_of d k) = map_option sort_keys (map_of e k)"
proof -
  have f: "map fst (map (\<lambda>(k, v). (k, sort_keys v)) xs) = map fst xs" for xs :: jdict
    by auto
  have "map_of (map (\<lambda>(k, v). (k, sort_keys v)) d) = map_of (map (\<lambda>(k, v). (k, sort_keys v)) e)"
    using assms map_of_sort_key_fst [of "map (\<lambda>(k, v). (k, sort_keys v)) d"]
      map_of_sort_key_fst [of "map (\<lambda>(k, v). (k, sort_keys v)) e"]
    by (simp only: f sort_keys.simps json.inject)
  then show ?thesis by (metis map_of_map_sort_keys)
qed

end
