(* ===== verification/Regex.thy ===== *)
theory Regex
  imports Prelude
begin

text \<open>
  The regular expressions of Python's \<^verbatim>\<open>re\<close> that the program uses: greedy and lazy
  repetition, groups with back references, anchors, word boundaries and lookaround, matched
  by backtracking in the order of \<^verbatim>\<open>re\<close>, so that the first match found is the one Python
  returns. Characters are ASCII: \<^verbatim>\<open>\w\<close>, \<^verbatim>\<open>\s\<close> and \<^verbatim>\<open>\d\<close> are the ASCII classes and
  \<^verbatim>\<open>IGNORECASE\<close> folds ASCII letters.
\<close>

datatype regex =
    Eps
  | Chr "char \<Rightarrow> bool"
  | Cat regex regex
  | Alt regex regex
  | Star regex
  | LazyStar regex
  | Group nat regex
  | Backref nat
  | Bol
  | MBol
  | Eol
  | WordB
  | Ahead regex
  | NotAhead regex
  | NotBehind "char \<Rightarrow> bool"

text \<open>A matcher state: the text consumed (reversed), the text ahead and the groups.\<close>

datatype rstate = RS (consumed: string) (ahead: string) (groups: "(nat \<times> string) list")

definition word_char :: "char \<Rightarrow> bool" where
  "word_char c = (py_isalpha c \<or> py_isdigit c \<or> c = CHR ''_'')"

definition at_boundary :: "rstate \<Rightarrow> bool" where
  "at_boundary st =
     (let prior = (case consumed st of [] \<Rightarrow> False | c # _ \<Rightarrow> word_char c);
          after = (case ahead st of [] \<Rightarrow> False | c # _ \<Rightarrow> word_char c)
      in prior \<noteq> after)"

text \<open>
  Repetition of a matcher. Every further iteration must consume a character, so the length
  of the text ahead bounds the iterations.
\<close>

fun star_iter ::
  "nat \<Rightarrow> (rstate \<Rightarrow> (rstate \<Rightarrow> rstate option) \<Rightarrow> rstate option) \<Rightarrow>
     rstate \<Rightarrow> (rstate \<Rightarrow> rstate option) \<Rightarrow> rstate option" where
  "star_iter 0 m st k = k st"
| "star_iter (Suc n) m st k =
     (case m st (\<lambda>st'. if length (ahead st') < length (ahead st) then star_iter n m st' k else None) of
        None \<Rightarrow> k st
      | Some r \<Rightarrow> Some r)"

fun lazy_iter ::
  "nat \<Rightarrow> (rstate \<Rightarrow> (rstate \<Rightarrow> rstate option) \<Rightarrow> rstate option) \<Rightarrow>
     rstate \<Rightarrow> (rstate \<Rightarrow> rstate option) \<Rightarrow> rstate option" where
  "lazy_iter 0 m st k = k st"
| "lazy_iter (Suc n) m st k =
     (case k st of
        None \<Rightarrow>
          m st (\<lambda>st'. if length (ahead st') < length (ahead st) then lazy_iter n m st' k else None)
      | Some r \<Rightarrow> Some r)"

fun rx :: "regex \<Rightarrow> rstate \<Rightarrow> (rstate \<Rightarrow> rstate option) \<Rightarrow> rstate option" where
  "rx Eps st k = k st"
| "rx (Chr P) st k =
     (case ahead st of
        [] \<Rightarrow> None
      | c # a' \<Rightarrow> if P c then k (RS (c # consumed st) a' (groups st)) else None)"
| "rx (Cat r s) st k = rx r st (\<lambda>st'. rx s st' k)"
| "rx (Alt r s) st k = (case rx r st k of None \<Rightarrow> rx s st k | Some x \<Rightarrow> Some x)"
| "rx (Star r) st k = star_iter (length (ahead st)) (rx r) st k"
| "rx (LazyStar r) st k = lazy_iter (length (ahead st)) (rx r) st k"
| "rx (Group n r) st k =
     rx r st (\<lambda>u. k (RS (consumed u) (ahead u)
       ((n, take (length (ahead st) - length (ahead u)) (ahead st)) # groups u)))"
| "rx (Backref n) st k =
     (case map_of (groups st) n of
        None \<Rightarrow> None
      | Some w \<Rightarrow>
          if prefix w (ahead st)
          then k (RS (rev w @ consumed st) (drop (length w) (ahead st)) (groups st)) else None)"
| "rx Bol st k = (if consumed st = [] then k st else None)"
| "rx MBol st k =
     (case consumed st of [] \<Rightarrow> k st | c # _ \<Rightarrow> if c = CHR 0x0A then k st else None)"
| "rx Eol st k = (if ahead st = [] \<or> ahead st = nl then k st else None)"
| "rx WordB st k = (if at_boundary st then k st else None)"
| "rx (Ahead r) st k = (case rx r st Some of None \<Rightarrow> None | Some _ \<Rightarrow> k st)"
| "rx (NotAhead r) st k = (case rx r st Some of None \<Rightarrow> k st | Some _ \<Rightarrow> None)"
| "rx (NotBehind P) st k =
     (case consumed st of [] \<Rightarrow> k st | c # _ \<Rightarrow> if P c then None else k st)"

text \<open>
  The same equations with named continuations: evaluation unfolds a continuation only when
  it is applied to a state.
\<close>

definition star_k where
  "star_k n m st k st' =
     (if length (ahead st') < length (ahead st) then star_iter n m st' k else None)"

definition lazy_k where
  "lazy_k n m st k st' =
     (if length (ahead st') < length (ahead st) then lazy_iter n m st' k else None)"

definition cat_k :: "regex \<Rightarrow> (rstate \<Rightarrow> rstate option) \<Rightarrow> rstate \<Rightarrow> rstate option" where
  "cat_k s k st = rx s st k"

definition group_k :: "nat \<Rightarrow> rstate \<Rightarrow> (rstate \<Rightarrow> rstate option) \<Rightarrow> rstate \<Rightarrow> rstate option" where
  "group_k n st k u =
     k (RS (consumed u) (ahead u)
       ((n, take (length (ahead st) - length (ahead u)) (ahead st)) # groups u))"

declare star_iter.simps [code del] lazy_iter.simps [code del] rx.simps [code del]

lemma star_iter_code [code]:
  "star_iter 0 m st k = k st"
  "star_iter (Suc n) m st k = (case m st (star_k n m st k) of None \<Rightarrow> k st | Some r \<Rightarrow> Some r)"
  by (simp_all add: star_k_def [abs_def] split: option.splits)

lemma lazy_iter_code [code]:
  "lazy_iter 0 m st k = k st"
  "lazy_iter (Suc n) m st k = (case k st of None \<Rightarrow> m st (lazy_k n m st k) | Some r \<Rightarrow> Some r)"
  by (simp_all add: lazy_k_def [abs_def] split: option.splits)

lemma rx_Cat_k: "rx (Cat r s) st k = rx r st (cat_k s k)"
  by (simp add: cat_k_def [abs_def])

lemma rx_Group_k: "rx (Group n r) st k = rx r st (group_k n st k)"
  by (simp add: group_k_def [abs_def])

lemmas rx_code [code] =
  rx.simps(1,2) rx_Cat_k rx.simps(4-6) rx_Group_k rx.simps(8-15)

section \<open>The entry points of \<^verbatim>\<open>re\<close>\<close>

definition start_state :: "string \<Rightarrow> rstate" where
  "start_state s = RS [] s []"

text \<open>\<^verbatim>\<open>pattern.match\<close>, \<^verbatim>\<open>fullmatch\<close> and \<^verbatim>\<open>search\<close>; a match is the text before it, the
  matched text and the final state.\<close>

definition re_match :: "regex \<Rightarrow> string \<Rightarrow> rstate option" where
  "re_match r s = rx r (start_state s) Some"

definition re_fullmatch :: "regex \<Rightarrow> string \<Rightarrow> bool" where
  "re_fullmatch r s = (rx r (start_state s) (\<lambda>st. if ahead st = [] then Some st else None) \<noteq> None)"

fun search_from :: "regex \<Rightarrow> string \<Rightarrow> string \<Rightarrow> (string \<times> rstate) option" where
  "search_from r b [] = (case rx r (RS b [] []) Some of None \<Rightarrow> None | Some st \<Rightarrow> Some (b, st))"
| "search_from r b (c # a) =
     (case rx r (RS b (c # a) []) Some of
        None \<Rightarrow> search_from r (c # b) a
      | Some st \<Rightarrow> Some (b, st))"

definition re_search :: "regex \<Rightarrow> string \<Rightarrow> bool" where
  "re_search r s = (search_from r [] s \<noteq> None)"

definition matched_text :: "string \<times> rstate \<Rightarrow> string" where
  "matched_text m = rev (take (length (consumed (snd m)) - length (fst m)) (consumed (snd m)))"

definition group_text :: "nat \<Rightarrow> rstate \<Rightarrow> string option" where
  "group_text n st = map_of (groups st) n"

text \<open>
  \<^verbatim>\<open>finditer\<close> for patterns that match no empty text, each match with its groups and the
  text after it; \<^verbatim>\<open>sub\<close> replaces each of them. The fuel is the length of the text.
\<close>

fun find_all :: "nat \<Rightarrow> regex \<Rightarrow> string \<Rightarrow> string \<Rightarrow> (string \<times> rstate) list" where
  "find_all 0 r b a = []"
| "find_all (Suc n) r b a =
     (case search_from r b a of
        None \<Rightarrow> []
      | Some (b0, st) \<Rightarrow>
          if length (ahead st) < length a then (b0, st) # find_all n r (consumed st) (ahead st) else [])"

definition re_finditer :: "regex \<Rightarrow> string \<Rightarrow> (string \<times> rstate) list" where
  "re_finditer r s = find_all (length s) r [] s"

fun sub_from :: "nat \<Rightarrow> regex \<Rightarrow> (string \<times> rstate \<Rightarrow> string) \<Rightarrow> string \<Rightarrow> string \<Rightarrow> string" where
  "sub_from 0 r f b a = a"
| "sub_from (Suc n) r f b a =
     (case search_from r b a of
        None \<Rightarrow> a
      | Some (b0, st) \<Rightarrow>
          if length (ahead st) < length a
          then take (length b0 - length b) a @ f (b0, st) @ sub_from n r f (consumed st) (ahead st)
          else a)"

definition re_sub :: "regex \<Rightarrow> string \<Rightarrow> string \<Rightarrow> string" where
  "re_sub r repl s = sub_from (length s) r (\<lambda>_. repl) [] s"

section \<open>Building patterns\<close>

fun lit :: "string \<Rightarrow> regex" where
  "lit [] = Eps"
| "lit (c # s) = Cat (Chr (\<lambda>x. x = c)) (lit s)"

text \<open>\<^verbatim>\<open>IGNORECASE\<close>: a literal and a class that fold ASCII letters.\<close>

fun ilit :: "string \<Rightarrow> regex" where
  "ilit [] = Eps"
| "ilit (c # s) = Cat (Chr (\<lambda>x. lower_char x = lower_char c)) (ilit s)"

fun seqs :: "regex list \<Rightarrow> regex" where
  "seqs [] = Eps"
| "seqs [r] = r"
| "seqs (r # s # rs) = Cat r (seqs (s # rs))"

fun alts :: "regex list \<Rightarrow> regex" where
  "alts [] = NotAhead Eps"
| "alts [r] = r"
| "alts (r # s # rs) = Alt r (alts (s # rs))"

definition opt :: "regex \<Rightarrow> regex" where
  "opt r = Alt r Eps"

definition plus :: "regex \<Rightarrow> regex" where
  "plus r = Cat r (Star r)"

fun times :: "nat \<Rightarrow> regex \<Rightarrow> regex" where
  "times 0 r = Eps"
| "times (Suc n) r = Cat r (times n r)"

definition at_least :: "nat \<Rightarrow> regex \<Rightarrow> regex" where
  "at_least n r = Cat (times n r) (Star r)"

fun at_most :: "nat \<Rightarrow> regex \<Rightarrow> regex" where
  "at_most 0 r = Eps"
| "at_most (Suc n) r = Alt (Cat r (at_most n r)) Eps"

abbreviation space :: regex where "space \<equiv> Chr py_isspace"
abbreviation digit :: regex where "digit \<equiv> Chr py_isdigit"
abbreviation wordc :: regex where "wordc \<equiv> Chr word_char"

definition chars :: "string \<Rightarrow> regex" where
  "chars cs = Chr (\<lambda>c. c \<in> set cs)"

definition none_of :: "string \<Rightarrow> regex" where
  "none_of cs = Chr (\<lambda>c. c \<notin> set cs)"

text \<open>\<^verbatim>\<open>\b(a|b|...)\b\<close> with \<^verbatim>\<open>IGNORECASE\<close>.\<close>

definition words_of :: "string list \<Rightarrow> regex" where
  "words_of ws = seqs [WordB, alts (map ilit ws), WordB]"

section \<open>What a match is\<close>

text \<open>
  The declarative reading of a pattern: which states it can end in. The matcher finds a
  match exactly when there is one, whatever the continuation, so backtracking never misses
  one and the bound on the iterations is enough.
\<close>

inductive derives :: "regex \<Rightarrow> rstate \<Rightarrow> rstate \<Rightarrow> bool" where
  d_eps: "derives Eps st st"
| d_chr: "ahead st = c # a \<Longrightarrow> P c \<Longrightarrow>
    derives (Chr P) st (RS (c # consumed st) a (groups st))"
| d_cat: "derives r st u \<Longrightarrow> derives s u v \<Longrightarrow> derives (Cat r s) st v"
| d_alt1: "derives r st u \<Longrightarrow> derives (Alt r s) st u"
| d_alt2: "derives s st u \<Longrightarrow> derives (Alt r s) st u"
| d_star0: "derives (Star r) st st"
| d_star: "derives r st u \<Longrightarrow> length (ahead u) < length (ahead st) \<Longrightarrow>
    derives (Star r) u v \<Longrightarrow> derives (Star r) st v"
| d_lazy0: "derives (LazyStar r) st st"
| d_lazy: "derives r st u \<Longrightarrow> length (ahead u) < length (ahead st) \<Longrightarrow>
    derives (LazyStar r) u v \<Longrightarrow> derives (LazyStar r) st v"
| d_group: "derives r st u \<Longrightarrow>
    derives (Group n r) st (RS (consumed u) (ahead u)
      ((n, take (length (ahead st) - length (ahead u)) (ahead st)) # groups u))"
| d_backref: "map_of (groups st) n = Some w \<Longrightarrow> ahead st = w @ a \<Longrightarrow>
    derives (Backref n) st (RS (rev w @ consumed st) a (groups st))"
| d_bol: "consumed st = [] \<Longrightarrow> derives Bol st st"
| d_mbol: "(case consumed st of [] \<Rightarrow> True | c # b \<Rightarrow> c = CHR 0x0A) \<Longrightarrow> derives MBol st st"
| d_eol: "ahead st = [] \<or> ahead st = nl \<Longrightarrow> derives Eol st st"
| d_wordb: "at_boundary st \<Longrightarrow> derives WordB st st"
| d_ahead: "derives r st u \<Longrightarrow> derives (Ahead r) st st"
| d_not_ahead: "rx r st Some = None \<Longrightarrow> derives (NotAhead r) st st"
| d_not_behind: "(case consumed st of [] \<Rightarrow> True | c # b \<Rightarrow> \<not> P c) \<Longrightarrow> derives (NotBehind P) st st"

inductive_cases derives_StarE: "derives (Star r) st u"
inductive_cases derives_LazyE: "derives (LazyStar r) st u"
inductive_cases derives_CatE: "derives (Cat r s) st u"
inductive_cases derives_ChrE: "derives (Chr P) st u"
inductive_cases derives_AltE: "derives (Alt r s) st u"

definition faithful ::
  "(rstate \<Rightarrow> (rstate \<Rightarrow> rstate option) \<Rightarrow> rstate option) \<Rightarrow> regex \<Rightarrow> bool" where
  "faithful m r \<longleftrightarrow>
     (\<forall>st k. (\<forall>x. m st k = Some x \<longrightarrow> (\<exists>u. derives r st u \<and> k u = Some x)) \<and>
             (\<forall>u. derives r st u \<longrightarrow> k u \<noteq> None \<longrightarrow> m st k \<noteq> None))"

lemma faithfulI:
  assumes "\<And>st k x. m st k = Some x \<Longrightarrow> \<exists>u. derives r st u \<and> k u = Some x"
    "\<And>st k u. derives r st u \<Longrightarrow> k u \<noteq> None \<Longrightarrow> m st k \<noteq> None"
  shows "faithful m r"
  unfolding faithful_def
  by (intro allI conjI impI) (rule assms(1), assumption, rule assms(2), assumption+)

lemma faithful_sound: "faithful m r \<Longrightarrow> m st k = Some x \<Longrightarrow> \<exists>u. derives r st u \<and> k u = Some x"
  unfolding faithful_def by blast

lemma faithful_complete: "faithful m r \<Longrightarrow> derives r st u \<Longrightarrow> k u \<noteq> None \<Longrightarrow> m st k \<noteq> None"
  unfolding faithful_def by blast

lemma star_iter_sound:
  assumes "faithful m r" "star_iter n m st k = Some x"
  shows "\<exists>u. derives (Star r) st u \<and> k u = Some x"
  using assms(2)
proof (induction n arbitrary: st)
  case 0
  then show ?case by (auto intro: d_star0)
next
  case (Suc n)
  let ?k = "\<lambda>st'. if length (ahead st') < length (ahead st) then star_iter n m st' k else None"
  show ?case
  proof (cases "m st ?k")
    case None
    with Suc.prems show ?thesis by (auto intro: d_star0)
  next
    case (Some y)
    with Suc.prems have "m st ?k = Some x" by simp
    from faithful_sound [OF assms(1) this] obtain u where "derives r st u" "?k u = Some x" by blast
    moreover from this obtain v where "derives (Star r) u v" "k v = Some x"
      using Suc.IH [of u] by (auto split: if_splits)
    ultimately show ?thesis by (meson d_star option.distinct(1))
  qed
qed

lemma star_iter_complete:
  assumes "faithful m r" "derives (Star r) st u" "k u \<noteq> None" "length (ahead st) \<le> n"
  shows "star_iter n m st k \<noteq> None"
  using assms(2-4)
proof (induction n arbitrary: st)
  case 0
  then show ?case by (auto elim: derives_StarE)
next
  case (Suc n)
  let ?k = "\<lambda>st'. if length (ahead st') < length (ahead st) then star_iter n m st' k else None"
  from Suc.prems(1) show ?case
  proof (rule derives_StarE)
    assume "u = st"
    with Suc.prems(2) show ?thesis by (auto split: option.splits)
  next
    fix v
    assume v: "derives r st v" "length (ahead v) < length (ahead st)" "derives (Star r) v u"
    have "star_iter n m v k \<noteq> None" using v Suc.prems by (intro Suc.IH) auto
    with v(2) have "m st ?k \<noteq> None" by (intro faithful_complete [OF assms(1) v(1)]) simp
    then show ?thesis by (auto split: option.splits)
  qed
qed

lemma lazy_iter_sound:
  assumes "faithful m r" "lazy_iter n m st k = Some x"
  shows "\<exists>u. derives (LazyStar r) st u \<and> k u = Some x"
  using assms(2)
proof (induction n arbitrary: st)
  case 0
  then show ?case by (auto intro: d_lazy0)
next
  case (Suc n)
  let ?k = "\<lambda>st'. if length (ahead st') < length (ahead st) then lazy_iter n m st' k else None"
  show ?case
  proof (cases "k st")
    case None
    with Suc.prems have "m st ?k = Some x" by simp
    from faithful_sound [OF assms(1) this] obtain u where "derives r st u" "?k u = Some x" by blast
    moreover from this obtain v where "derives (LazyStar r) u v" "k v = Some x"
      using Suc.IH [of u] by (auto split: if_splits)
    ultimately show ?thesis by (meson d_lazy option.distinct(1))
  next
    case (Some y)
    with Suc.prems show ?thesis by (auto intro: d_lazy0)
  qed
qed

lemma lazy_iter_complete:
  assumes "faithful m r" "derives (LazyStar r) st u" "k u \<noteq> None" "length (ahead st) \<le> n"
  shows "lazy_iter n m st k \<noteq> None"
  using assms(2-4)
proof (induction n arbitrary: st)
  case 0
  then show ?case by (auto elim: derives_LazyE)
next
  case (Suc n)
  let ?k = "\<lambda>st'. if length (ahead st') < length (ahead st) then lazy_iter n m st' k else None"
  from Suc.prems(1) show ?case
  proof (rule derives_LazyE)
    assume "u = st"
    with Suc.prems(2) show ?thesis by (auto split: option.splits)
  next
    fix v
    assume v: "derives r st v" "length (ahead v) < length (ahead st)" "derives (LazyStar r) v u"
    have "lazy_iter n m v k \<noteq> None" using v Suc.prems by (intro Suc.IH) auto
    with v(2) have "m st ?k \<noteq> None" by (intro faithful_complete [OF assms(1) v(1)]) simp
    then show ?thesis by (auto split: option.splits)
  qed
qed

lemma rx_faithful: "faithful (rx r) r"
proof (induction r)
  case (Cat r s)
  show ?case
  proof (rule faithfulI)
    fix st x and k :: "rstate \<Rightarrow> rstate option"
    assume "rx (Cat r s) st k = Some x"
    then show "\<exists>u. derives (Cat r s) st u \<and> k u = Some x"
      using faithful_sound [OF Cat.IH(1)] faithful_sound [OF Cat.IH(2)] by (fastforce intro: d_cat)
  next
    fix st u and k :: "rstate \<Rightarrow> rstate option"
    assume "derives (Cat r s) st u" "k u \<noteq> None"
    then obtain v where v: "derives r st v" "derives s v u" by (auto elim: derives_CatE)
    have "rx s v k \<noteq> None" by (rule faithful_complete [OF Cat.IH(2) v(2)]) fact
    then have "rx r st (\<lambda>st'. rx s st' k) \<noteq> None" by (rule faithful_complete [OF Cat.IH(1) v(1)])
    then show "rx (Cat r s) st k \<noteq> None" by simp
  qed
next
  case (Alt r s)
  show ?case
  proof (rule faithfulI)
    fix st x and k :: "rstate \<Rightarrow> rstate option"
    assume "rx (Alt r s) st k = Some x"
    then show "\<exists>u. derives (Alt r s) st u \<and> k u = Some x"
      using faithful_sound [OF Alt.IH(1)] faithful_sound [OF Alt.IH(2)]
      by (fastforce split: option.splits intro: d_alt1 d_alt2)
  next
    fix st u and k :: "rstate \<Rightarrow> rstate option"
    assume "derives (Alt r s) st u" "k u \<noteq> None"
    then show "rx (Alt r s) st k \<noteq> None"
      using faithful_complete [OF Alt.IH(1), of st u k] faithful_complete [OF Alt.IH(2), of st u k]
      by (auto elim: derives_AltE split: option.splits)
  qed
next
  case (Star r)
  show ?case
    by (rule faithfulI, unfold rx.simps, erule star_iter_sound [OF Star.IH])
      (erule (1) star_iter_complete [OF Star.IH], simp)
next
  case (LazyStar r)
  show ?case
    by (rule faithfulI, unfold rx.simps, erule lazy_iter_sound [OF LazyStar.IH])
      (erule (1) lazy_iter_complete [OF LazyStar.IH], simp)
next
  case (Group n r)
  show ?case
  proof (rule faithfulI)
    fix st x and k :: "rstate \<Rightarrow> rstate option"
    assume "rx (Group n r) st k = Some x"
    then show "\<exists>u. derives (Group n r) st u \<and> k u = Some x"
      by (fastforce dest!: faithful_sound [OF Group.IH] intro: d_group)
  next
    fix st u and k :: "rstate \<Rightarrow> rstate option"
    assume "derives (Group n r) st u" "k u \<noteq> None"
    then obtain v where v: "derives r st v"
      "k (RS (consumed v) (ahead v)
         ((n, take (length (ahead st) - length (ahead v)) (ahead st)) # groups v)) \<noteq> None"
      by cases auto
    show "rx (Group n r) st k \<noteq> None"
      unfolding rx.simps by (rule faithful_complete [OF Group.IH v(1)]) (rule v(2))
  qed
next
  case (Ahead r)
  show ?case
  proof (rule faithfulI)
    fix st x and k :: "rstate \<Rightarrow> rstate option"
    assume "rx (Ahead r) st k = Some x"
    then show "\<exists>u. derives (Ahead r) st u \<and> k u = Some x"
      by (fastforce dest!: faithful_sound [OF Ahead.IH] split: option.splits intro: d_ahead)
  next
    fix st u and k :: "rstate \<Rightarrow> rstate option"
    assume "derives (Ahead r) st u" "k u \<noteq> None"
    then show "rx (Ahead r) st k \<noteq> None"
      by cases (use faithful_complete [OF Ahead.IH, of st _ Some] in \<open>fastforce split: option.splits\<close>)
  qed
next
  case (Chr P)
  show ?case
    by (rule faithfulI) (auto split: list.splits if_splits intro: d_chr elim: derives.cases)
next
  case (Backref n)
  show ?case
    by (rule faithfulI)
      (auto split: option.splits if_splits intro: d_backref elim: derives.cases simp: prefix_def)
qed (rule faithfulI; fastforce split: option.splits list.splits if_splits
      intro: derives.intros elim: derives.cases)+

lemma rx_complete: "derives r st u \<Longrightarrow> rx r st Some \<noteq> None"
  by (rule faithful_complete [OF rx_faithful]) auto

lemma rx_sound: "rx r st Some = Some u \<Longrightarrow> derives r st u"
  using faithful_sound [OF rx_faithful, of r st Some u] by auto

lemma search_from_iff:
  "search_from r b a \<noteq> None \<longleftrightarrow> (\<exists>p q u. a = p @ q \<and> derives r (RS (rev p @ b) q []) u)"
proof (induction r b a rule: search_from.induct)
  case (1 r b)
  then show ?case using rx_complete rx_sound by (fastforce split: option.splits)
next
  case (2 r b c a)
  show ?case
  proof (cases "rx r (RS b (c # a) []) Some")
    case None
    then have no: "\<not> derives r (RS b (c # a) []) u" for u using rx_complete [of r "(RS b (c # a) [])" u] by auto
    have "(\<exists>p q u. c # a = p @ q \<and> derives r (RS (rev p @ b) q []) u) \<longleftrightarrow>
        (\<exists>p q u. a = p @ q \<and> derives r (RS (rev p @ c # b) q []) u)"
      (is "?L \<longleftrightarrow> ?R")
    proof
      assume ?L
      then obtain p q u where pq: "c # a = p @ q" "derives r (RS (rev p @ b) q []) u" by blast
      with no show ?R by (cases p) auto
    next
      assume ?R
      then obtain p q u where "a = p @ q" "derives r (RS (rev p @ c # b) q []) u" by blast
      then show ?L by (intro exI [of _ "c # p"] exI [of _ q] exI [of _ u]) simp
    qed
    with 2 None show ?thesis by simp
  next
    case (Some st)
    then have "derives r (RS (rev [] @ b) (c # a) []) st" by (simp add: rx_sound)
    then have "\<exists>p q u. c # a = p @ q \<and> derives r (RS (rev p @ b) q []) u" by fastforce
    with Some show ?thesis by simp
  qed
qed

lemma re_search_iff:
  "re_search r s \<longleftrightarrow> (\<exists>p q u. s = p @ q \<and> derives r (RS (rev p) q []) u)"
  unfolding re_search_def search_from_iff by simp

end
