(* ===== verification/Tool_Base.thy ===== *)
theory Tool_Base
  imports Regex
begin

text \<open>
  \<^verbatim>\<open>tools/base.py\<close> and the pure part of \<^verbatim>\<open>tools/shell.py\<close>: tool results, tool errors, the
  result of a finished or killed command, and the detection of test runs that ran nothing.
  The process itself is the argument \<open>proc\<close> of \<open>run_command\<close>: it fails to start, or it
  returns the captured output and the exit code, or neither when it was killed on timeout.
\<close>

datatype tool_status = OkStatus | ErrorStatus | BlockedStatus

fun tool_status_value :: "tool_status \<Rightarrow> string" where
  "tool_status_value OkStatus = ''ok''"
| "tool_status_value ErrorStatus = ''error''"
| "tool_status_value BlockedStatus = ''blocked''"

definition tool_status_of :: "string \<Rightarrow> tool_status option" where
  "tool_status_of v =
     find (\<lambda>st. tool_status_value st = v) [OkStatus, ErrorStatus, BlockedStatus]"

record tool_result =
  observation :: string
  result_status :: tool_status

record tool_error =
  te_message :: string
  te_blocked :: bool

abbreviation tool_ok :: "string \<Rightarrow> tool_result" where
  "tool_ok obs \<equiv> \<lparr>observation = obs, result_status = OkStatus\<rparr>"

section \<open>Test suites that are empty\<close>

definition separator :: regex where
  "separator = Chr (\<lambda>c. py_isspace c \<or> c \<in> set '';&|'')"

definition ran_zero_tests :: regex where
  "ran_zero_tests = seqs [MBol, ilit ''Ran 0 test'', opt (ilit ''s''), WordB]"

definition test_runner :: regex where
  "test_runner =
     Alt
       (seqs [Alt Bol separator,
              alts (map ilit [''pytest'', ''py.test'', ''vitest'', ''jest'', ''mocha'']),
              Alt separator Eol])
       (seqs [alts (map ilit [''npm'', ''pnpm'', ''yarn'', ''bun'']), plus space,
              opt (Cat (ilit ''run'') (plus space)), ilit ''test'', Alt separator Eol])"

definition empty_report :: regex where
  "empty_report =
     words_of [''no tests ran'', ''collected 0 items'', ''no tests found'',
       ''no test files found'', ''0 passing'']"

definition empty_test_suite_reason :: "string \<Rightarrow> string \<Rightarrow> string option" where
  "empty_test_suite_reason command obs =
     (if re_search ran_zero_tests obs then Some ''the test runner executed zero tests''
      else if re_search test_runner command \<and> re_search empty_report obs
      then Some ''the test runner reported an empty test suite''
      else None)"

section \<open>The result of a command\<close>

definition show_opt_int :: "int option \<Rightarrow> string" where
  "show_opt_int code = (case code of None \<Rightarrow> ''None'' | Some n \<Rightarrow> show_int n)"

definition format_result :: "string option \<Rightarrow> int option \<Rightarrow> nat \<Rightarrow> nat \<Rightarrow> tool_result" where
  "format_result raw code timeout_seconds output_limit =
     (case raw of
        None \<Rightarrow>
          \<lparr>observation = ''Command timed out after '' @ show_nat timeout_seconds @ ''s and was killed.'',
           result_status = ErrorStatus\<rparr>
      | Some text \<Rightarrow>
          (let output =
             (if output_limit < length text
              then take output_limit text @ nl @ ''... [truncated, '' @ show_nat (length text) @ '' chars total]''
              else text)
           in \<lparr>observation = ''exit code '' @ show_opt_int code @ nl @
                 (if output = [] then ''(no output)'' else output),
               result_status = (if code = Some 0 then OkStatus else ErrorStatus)\<rparr>))"

definition invalid_test_run :: string where
  "invalid_test_run =
     nl @ ''[INVALID TEST RUN: zero tests were executed. This is not evidence that the '' @
     ''source file was truncated. For unittest discovery, put TestCase classes in a '' @
     ''test_*.py file; for other runners, add a discoverable test file.]''"

definition run_command ::
  "(string \<Rightarrow> string + (string option \<times> int option)) \<Rightarrow> nat \<Rightarrow> nat \<Rightarrow> string \<Rightarrow> tool_result" where
  "run_command proc timeout_seconds output_limit command =
     (case proc command of
        Inl exc \<Rightarrow>
          \<lparr>observation = ''Failed to start command: '' @ exc, result_status = ErrorStatus\<rparr>
      | Inr (raw, code) \<Rightarrow>
          (let r = format_result raw code timeout_seconds output_limit
           in case empty_test_suite_reason command (observation r) of
                None \<Rightarrow> r
              | Some _ \<Rightarrow>
                  \<lparr>observation = observation r @ invalid_test_run, result_status = ErrorStatus\<rparr>))"

text \<open>\<^verbatim>\<open>re.match(r"exit code (-?\d+)", out)\<close>: the code a command observation starts with.\<close>

definition leading_exit_code :: "string \<Rightarrow> int option" where
  "leading_exit_code out =
     (if prefix ''exit code '' out then
        (let rest = drop 10 out;
             neg = (case rest of [] \<Rightarrow> False | c # _ \<Rightarrow> c = CHR ''-'');
             ds = takeWhile py_isdigit (if neg then tl rest else rest)
         in if ds = [] then None
            else Some (if neg then - int (digits_val ds) else int (digits_val ds)))
      else None)"

section \<open>Facts\<close>

lemma tool_status_of_value [simp]: "tool_status_of (tool_status_value st) = Some st"
  by (cases st) (simp_all add: tool_status_of_def)

lemma tool_status_value_inj [simp]: "tool_status_value a = tool_status_value b \<longleftrightarrow> a = b"
  by (cases a; cases b) simp_all

lemma takeWhile_digits_nat:
  "takeWhile py_isdigit (show_nat n @ c # rest) =
     (if py_isdigit c then show_nat n @ c # takeWhile py_isdigit rest else show_nat n)"
proof -
  have "\<forall>d \<in> set (show_nat n). py_isdigit d" using show_nat_digits by blast
  then show ?thesis by (simp add: takeWhile_append2)
qed

lemma hd_show_nat_digit: "py_isdigit (hd (show_nat n))"
  using show_nat_digits [of "hd (show_nat n)" n] by (simp del: show_nat.simps)

lemma leading_exit_code_int:
  assumes "\<not> py_isdigit c"
  shows "leading_exit_code (''exit code '' @ show_int n @ c # rest) = Some n"
proof -
  have minus: "\<not> py_isdigit (CHR ''-'')" by (simp add: py_isdigit_def)
  have neq: "hd (show_nat m) \<noteq> CHR ''-''" for m
    using hd_show_nat_digit [of m] minus by metis
  obtain d ds where dd: "show_nat (nat n) = d # ds" by (cases "show_nat (nat n)") auto
  then have d: "d \<noteq> CHR ''-''" using neq [of "nat n"] by simp
  show ?thesis
    using assms d dd takeWhile_digits_nat [of "nat n" c rest] takeWhile_digits_nat [of "nat (- n)" c rest]
      digits_val_show_nat [of "nat n"]
    by (auto simp: leading_exit_code_def show_int_def Let_def)
qed

section \<open>Properties\<close>

text \<open>
  The exit code read back from a command's observation is the code of the process,
  also when the output is empty or truncated, and a command is a success only with code 0
  and a run that executed at least one test.
\<close>

theorem command_result_roundtrip:
  assumes "proc command = Inr (Some text, Some n)"
  shows "leading_exit_code (observation (run_command proc t lim command)) = Some n \<and>
    (result_status (run_command proc t lim command) = OkStatus \<longleftrightarrow>
       n = 0 \<and> empty_test_suite_reason command (observation (format_result (Some text) (Some n) t lim)) = None)"
proof -
  have "\<not> py_isdigit (CHR 0x0A)" by (simp add: py_isdigit_def)
  from leading_exit_code_int [OF this] show ?thesis
    using assms
    by (auto simp: run_command_def format_result_def Let_def show_opt_int_def nl_def
        split: option.splits)
qed

theorem command_result_roundtrip_witness:
  "leading_exit_code (observation (run_command (\<lambda>_. Inr (Some [], Some (- 15))) 60 4000 ''make'')) =
     Some (- 15)"
  using command_result_roundtrip [of "\<lambda>_. Inr (Some [], Some (- 15))" "''make''"] by simp

end
