(* ===== verification/Checks.thy ===== *)
theory Checks
  imports Py_Json Tool_Base
begin

text \<open>
  \<^verbatim>\<open>services/verification.py\<close>: machine checks re-run on a fresh copy of the workspace. The
  copy and the executor of check number \<open>i\<close> are the \<open>i\<close>-th environment: what running a
  command in it returns, whether a path is a file, and what reading a file gives (\<open>Inl\<close> is
  the text of the exception raised). Every check gets an environment of its own, as every
  check gets its own copy.
\<close>

section \<open>Check results\<close>

record check_result =
  cr_kind :: string
  cr_target :: string
  cr_passed :: bool
  cr_evidence :: string
  cr_check_id :: string
  cr_criterion_ids :: "string list"
  cr_definition :: "jdict option"
  cr_source :: string
  cr_baseline :: "bool option"
  cr_gating :: bool

record check_env =
  ce_run :: "string \<Rightarrow> tool_result"
  ce_is_file :: "string \<Rightarrow> string + bool"
  ce_read :: "string \<Rightarrow> string + string"

section \<open>One check\<close>

definition check_id_of :: "jdict \<Rightarrow> nat \<Rightarrow> string" where
  "check_id_of check index =
     take 80 (py_str (or_json (dget check ''id'') (JStr (''check-'' @ pad3 index))))"

definition criterion_ids_of :: "jdict \<Rightarrow> string list" where
  "criterion_ids_of check =
     (case dget check ''criterion_ids'' of
        JArr vs \<Rightarrow> map (\<lambda>v. take 80 (py_str v)) (filter (\<lambda>v. py_strip (py_str v) \<noteq> []) vs)
      | _ \<Rightarrow> [])"

definition make_result :: "jdict \<Rightarrow> nat \<Rightarrow> string \<Rightarrow> bool \<Rightarrow> string \<Rightarrow> check_result" where
  "make_result check index target passed evidence =
     (let kind = py_strip (py_str (dget_or check ''kind'' (JStr [])))
      in \<lparr>cr_kind = (if kind = [] then ''unknown'' else kind),
          cr_target = target, cr_passed = passed, cr_evidence = evidence,
          cr_check_id = check_id_of check index,
          cr_criterion_ids = criterion_ids_of check,
          cr_definition = Some (filter (\<lambda>(k, v). k \<notin> {''passed'', ''evidence''}) check),
          cr_source = take 40 (py_str (or_json (dget check ''source'') (JStr ''agent''))),
          cr_baseline = None,
          cr_gating = (dget check ''gating'' \<noteq> JBool False)\<rparr>)"

text \<open>\<^verbatim>\<open>int(expect_exit)\<close>, 0 on \<^verbatim>\<open>TypeError\<close> and \<^verbatim>\<open>ValueError\<close>; other exceptions propagate.\<close>

definition want_exit :: "json \<Rightarrow> int result" where
  "want_exit expected =
     (case py_int expected of
        Inr n \<Rightarrow> Inr n
      | Inl e \<Rightarrow> if e = TypeError \<or> e = ValueError then Inr 0 else Inl e)"

definition exit_matches :: "json \<Rightarrow> int option \<Rightarrow> bool result" where
  "exit_matches expected code =
     (if expected = JStr ''nonzero'' then Inr (case code of None \<Rightarrow> False | Some n \<Rightarrow> n \<noteq> 0)
      else (case want_exit expected of Inl e \<Rightarrow> Inl e | Inr n \<Rightarrow> Inr (code = Some n)))"

definition stdout_matches :: "json \<Rightarrow> string \<Rightarrow> bool" where
  "stdout_matches expected out = (expected = JNull \<or> py_contains (py_str expected) out)"

definition command_evidence :: "string option \<Rightarrow> string \<Rightarrow> string" where
  "command_evidence empty_suite out =
     (case empty_suite of
        None \<Rightarrow> take 300 out
      | Some reason \<Rightarrow> take 300 (take 220 out @ nl @ ''rejected: '' @ reason))"

definition run_command_check :: "jdict \<Rightarrow> check_env \<Rightarrow> nat \<Rightarrow> string \<Rightarrow> check_result result" where
  "run_command_check check env index command =
     (let r = ce_run env command;
          out = observation r;
          code = leading_exit_code out
      in case exit_matches (dget_or check ''expect_exit'' (JInt 0)) code of
           Inl e \<Rightarrow> Inl e
         | Inr exit_ok \<Rightarrow>
             (let empty_suite = empty_test_suite_reason command out;
                  passed = (exit_ok \<and> stdout_matches (dget check ''expect_stdout'') out \<and>
                            empty_suite = None \<and> result_status r \<noteq> BlockedStatus)
              in Inr (make_result check index command passed (command_evidence empty_suite out))))"

definition run_one :: "jdict \<Rightarrow> check_env \<Rightarrow> nat \<Rightarrow> check_result result" where
  "run_one check env index =
     (let kind = py_strip (py_str (dget_or check ''kind'' (JStr []))) in
      if kind = ''command'' then
        (let command = py_strip (py_str (dget_or check ''command'' (JStr [])))
         in if command = [] then Inr (make_result check index [] False ''no command given'')
            else run_command_check check env index command)
      else if kind = ''file_exists'' then
        (let path = py_strip (py_str (dget_or check ''path'' (JStr [])))
         in case ce_is_file env path of
              Inl exc \<Rightarrow> Inr (make_result check index path False (take 200 exc))
            | Inr found \<Rightarrow>
                Inr (make_result check index path found (if found then ''found'' else ''missing'')))
      else if kind = ''file_contains'' then
        (let path = py_strip (py_str (dget_or check ''path'' (JStr [])));
             needle = py_str (dget_or check ''text'' (JStr []))
         in case ce_read env path of
              Inl exc \<Rightarrow> Inr (make_result check index path False (take 200 exc))
            | Inr content \<Rightarrow>
                (let passed = py_contains needle content
                 in Inr (make_result check index path passed
                      (if passed then ''contains text'' else ''text not found''))))
      else Inr (make_result check index [] False (''unknown check kind: '' @ str_repr kind)))"

section \<open>All checks\<close>

definition infer_criteria :: "bool \<Rightarrow> nat \<Rightarrow> nat \<Rightarrow> nat \<Rightarrow> jdict \<Rightarrow> jdict" where
  "infer_criteria infer criterion_count n_checks index check =
     (if infer \<and> \<not> truthy (dget check ''criterion_ids'') then
        (if criterion_count = 1 then dset ''criterion_ids'' (json_strs [''criterion-001'']) check
         else if n_checks = criterion_count
         then dset ''criterion_ids'' (json_strs [criterion_id index]) check
         else check)
      else check)"

fun run_from ::
  "bool \<Rightarrow> nat \<Rightarrow> nat \<Rightarrow> (nat \<Rightarrow> check_env) \<Rightarrow> nat \<Rightarrow> jdict list \<Rightarrow> check_result list result" where
  "run_from infer n n_checks env index [] = Inr []"
| "run_from infer n n_checks env index (check # checks) =
     (case run_one (infer_criteria infer n n_checks index check) (env index) index of
        Inl e \<Rightarrow> Inl e
      | Inr r \<Rightarrow>
          (case run_from infer n n_checks env (index + 1) checks of
             Inl e \<Rightarrow> Inl e
           | Inr rs \<Rightarrow> Inr (r # rs)))"

definition run_checks ::
  "bool \<Rightarrow> nat \<Rightarrow> (nat \<Rightarrow> check_env) \<Rightarrow> jdict list \<Rightarrow> check_result list result" where
  "run_checks infer criterion_count env checks =
     run_from infer criterion_count (length checks) env 1 checks"

definition pass_mark :: "bool \<Rightarrow> string" where
  "pass_mark b = (if b then ''PASS'' else ''FAIL'')"

definition summary_line :: "check_result \<Rightarrow> string" where
  "summary_line r =
     ''['' @ pass_mark (cr_passed r) @ ''] '' @ cr_source r @ '' '' @ cr_kind r @ '' '' @
     cr_target r @ '': '' @ cr_evidence r @
     (case cr_baseline r of None \<Rightarrow> [] | Some b \<Rightarrow> ''; baseline='' @ pass_mark b) @
     (if cr_gating r then [] else ''; supplementary'')"

definition checks_summary :: "check_result list \<Rightarrow> string" where
  "checks_summary results =
     (if results = [] then ''(no machine checks were provided)''
      else py_join nl (map summary_line results))"

definition as_dict :: "check_result \<Rightarrow> jdict" where
  "as_dict r =
     [(''kind'', JStr (cr_kind r)), (''target'', JStr (cr_target r)),
      (''passed'', JBool (cr_passed r)), (''evidence'', JStr (cr_evidence r)),
      (''check_id'', JStr (cr_check_id r)), (''criterion_ids'', json_strs (cr_criterion_ids r)),
      (''definition'', case cr_definition r of None \<Rightarrow> JNull | Some d \<Rightarrow> JObj d),
      (''source'', JStr (cr_source r)),
      (''baseline_passed'', case cr_baseline r of None \<Rightarrow> JNull | Some b \<Rightarrow> JBool b),
      (''gating'', JBool (cr_gating r))]"

definition execution_coverage_complete :: "check_result list \<Rightarrow> nat \<Rightarrow> bool" where
  "execution_coverage_complete results criterion_count =
     (if results = [] \<or> criterion_count = 0 then False
      else set (criterion_ids_upto criterion_count) \<subseteq>
           set (concat (map cr_criterion_ids (filter cr_passed results))))"

section \<open>Facts\<close>

lemma make_result_simps [simp]:
  "cr_passed (make_result check i target passed ev) = passed"
  "cr_target (make_result check i target passed ev) = target"
  "cr_evidence (make_result check i target passed ev) = ev"
  "cr_criterion_ids (make_result check i target passed ev) = criterion_ids_of check"
  "cr_check_id (make_result check i target passed ev) = check_id_of check i"
  "cr_baseline (make_result check i target passed ev) = None"
  "cr_gating (make_result check i target passed ev) = (dget check ''gating'' \<noteq> JBool False)"
  by (simp_all add: make_result_def Let_def)

lemma run_from_map:
  "run_from infer n n_checks env index checks = Inr rs \<longleftrightarrow>
     length rs = length checks \<and>
     (\<forall>i < length checks.
        run_one (infer_criteria infer n n_checks (index + i) (checks ! i)) (env (index + i)) (index + i)
          = Inr (rs ! i))"
proof (induction checks arbitrary: index rs)
  case Nil
  then show ?case by auto
next
  case (Cons check checks)
  show ?case
  proof (cases rs)
    case Nil
    then show ?thesis by (auto split: sum.splits)
  next
    case (Cons r rs')
    have "(\<forall>i < length (check # checks).
        run_one (infer_criteria infer n n_checks (index + i) ((check # checks) ! i)) (env (index + i)) (index + i)
          = Inr ((r # rs') ! i)) \<longleftrightarrow>
      run_one (infer_criteria infer n n_checks index check) (env index) index = Inr r \<and>
      (\<forall>i < length checks.
        run_one (infer_criteria infer n n_checks (index + 1 + i) (checks ! i)) (env (index + 1 + i)) (index + 1 + i)
          = Inr (rs' ! i))"
      by (auto simp: nth_Cons less_Suc_eq_0_disj split: nat.splits)
    then show ?thesis
      using Cons.IH [of "index + 1" rs'] Cons by (auto split: sum.splits)
  qed
qed

lemma exit_matches_error:
  "exit_matches expected code = Inl e \<longleftrightarrow>
     expected \<in> {JFloat FInf, JFloat FNegInf} \<and> e = OverflowError"
proof (cases expected)
  case (JFloat x)
  then show ?thesis by (cases x) (auto simp: exit_matches_def want_exit_def)
next
  case (JStr s)
  then show ?thesis
    by (auto simp: exit_matches_def want_exit_def int_of_string_def Let_def split: prod.splits if_splits)
qed (auto simp: exit_matches_def want_exit_def)

definition check_kind :: "jdict \<Rightarrow> string" where
  "check_kind check = py_strip (py_str (dget_or check ''kind'' (JStr [])))"

definition check_arg :: "jdict \<Rightarrow> string \<Rightarrow> string" where
  "check_arg check k = py_strip (py_str (dget_or check k (JStr [])))"

lemmas run_one_unfold = run_one_def [folded check_kind_def check_arg_def]

section \<open>Properties\<close>

text \<open>
  A check that passes proves what it says: a command check ran its command in its own
  environment, was not blocked, exited as expected (never without an exit code), printed
  the expected text and was not an empty test run; a file check found the file or the text.
\<close>

theorem passed_check_proves:
  assumes "run_one check env i = Inr r" "cr_passed r"
  shows
    "check_kind check = ''command'' \<and> cr_target r = check_arg check ''command'' \<and>
       cr_target r \<noteq> [] \<and>
       (let res = ce_run env (cr_target r); code = leading_exit_code (observation res) in
          exit_matches (dget_or check ''expect_exit'' (JInt 0)) code = Inr True \<and>
          code \<noteq> None \<and>
          stdout_matches (dget check ''expect_stdout'') (observation res) \<and>
          empty_test_suite_reason (cr_target r) (observation res) = None \<and>
          result_status res \<noteq> BlockedStatus) \<or>
     check_kind check = ''file_exists'' \<and> ce_is_file env (check_arg check ''path'') = Inr True \<or>
     check_kind check = ''file_contains'' \<and>
       (\<exists>content. ce_read env (check_arg check ''path'') = Inr content \<and>
          py_contains (py_str (dget_or check ''text'' (JStr []))) content)"
proof -
  have code: "code \<noteq> None" if "exit_matches expected code = Inr True" for expected code
    using that by (auto simp: exit_matches_def split: if_splits option.splits sum.splits)
  show ?thesis
  proof (cases "check_kind check = ''command''")
    case True
    then show ?thesis
      using assms code
      by (auto simp: run_one_unfold run_command_check_def Let_def split: if_splits sum.splits)
  next
    case False
    then show ?thesis
      using assms by (auto simp: run_one_unfold Let_def split: if_splits sum.splits)
  qed
qed

definition sample_env :: check_env where
  "sample_env =
     \<lparr>ce_run = (\<lambda>c. if c = ''pytest -q'' then tool_ok (''exit code 0'' @ nl @ ''3 passed'')
        else \<lparr>observation = ''exit code 2'' @ nl, result_status = ErrorStatus\<rparr>),
      ce_is_file = (\<lambda>p. Inr (p = ''fib.py'')), ce_read = (\<lambda>p. Inr ''x = 1'')\<rparr>"

definition sample_check :: jdict where
  "sample_check =
     [(''kind'', JStr ''command''), (''command'', JStr '' pytest -q ''),
      (''expect_stdout'', JStr ''passed''), (''criterion_ids'', json_strs [''criterion-001''])]"

lemma sample_check_run:
  "map_option cr_passed (the_ok (run_one sample_check sample_env 1)) = Some True"
  by code_simp

theorem passed_check_proves_witness:
  "\<exists>r. run_one sample_check sample_env 1 = Inr r \<and> cr_passed r \<and> cr_target r = ''pytest -q''"
proof -
  obtain r where r: "run_one sample_check sample_env 1 = Inr r" "cr_passed r"
    using sample_check_run by (cases "run_one sample_check sample_env 1") auto
  have k: "check_kind sample_check = ''command''" "check_arg sample_check ''command'' = ''pytest -q''"
    by code_simp+
  from passed_check_proves [OF r] r k show ?thesis by auto
qed

text \<open>
  Re-running checks raises in exactly one case: a command check whose expected exit code
  is an infinite number. Every other definition, however malformed, becomes a result.
\<close>

theorem run_one_raises_iff:
  "run_one check env i = Inl e \<longleftrightarrow>
     check_kind check = ''command'' \<and> check_arg check ''command'' \<noteq> [] \<and>
     dget_or check ''expect_exit'' (JInt 0) \<in> {JFloat FInf, JFloat FNegInf} \<and> e = OverflowError"
proof (cases "check_kind check = ''command'' \<and> check_arg check ''command'' \<noteq> []")
  case True
  let ?x = "exit_matches (dget_or check ''expect_exit'' (JInt 0))
    (leading_exit_code (observation (ce_run env (check_arg check ''command''))))"
  have "run_one check env i = Inl e \<longleftrightarrow> ?x = Inl e"
    using True by (auto simp: run_one_unfold run_command_check_def Let_def split: sum.splits)
  then show ?thesis using True by (simp add: exit_matches_error)
next
  case False
  then show ?thesis by (auto simp: run_one_unfold Let_def split: sum.splits if_splits)
qed

text \<open>
  Verification isolates the checks: there is one result per check, in order, and the
  result of a check depends on that check and on its own copy of the workspace alone.
\<close>

theorem run_checks_isolated:
  assumes "run_checks infer n env checks = Inr rs"
  shows "length rs = length checks \<and>
    (\<forall>i < length checks. \<forall>env'. env' (i + 1) = env (i + 1) \<longrightarrow>
       run_one (infer_criteria infer n (length checks) (i + 1) (checks ! i)) (env' (i + 1)) (i + 1)
         = Inr (rs ! i))"
  using assms unfolding run_checks_def run_from_map by (auto simp: add.commute)

definition sample_checks :: "jdict list" where
  "sample_checks = [sample_check, [(''kind'', JStr ''file_exists''), (''path'', JStr ''fib.py'')]]"

lemma sample_checks_run:
  "map_option (map cr_passed) (the_ok (run_checks True 2 (\<lambda>_. sample_env) sample_checks)) = Some [True, True]"
  by code_simp

theorem run_checks_isolated_witness:
  "\<exists>rs. run_checks True 2 (\<lambda>_. sample_env) sample_checks = Inr rs \<and> length rs = 2 \<and>
     run_one (infer_criteria True 2 2 2 (sample_checks ! 1)) sample_env 2 = Inr (rs ! 1)"
proof -
  obtain rs where rs: "run_checks True 2 (\<lambda>_. sample_env) sample_checks = Inr rs"
    using sample_checks_run by (cases "run_checks True 2 (\<lambda>_. sample_env) sample_checks") auto
  have l: "length sample_checks = 2" by (simp add: sample_checks_def)
  have "length rs = 2" "run_one (infer_criteria True 2 2 (1 + 1) (sample_checks ! 1)) sample_env (1 + 1) = Inr (rs ! 1)"
    using run_checks_isolated [OF rs, THEN conjunct2, rule_format, of 1 "\<lambda>_. sample_env"]
      run_checks_isolated [OF rs, THEN conjunct1] l by simp_all
  with rs show ?thesis by (simp add: numeral_2_eq_2)
qed

text \<open>
  Execution coverage is complete exactly when there is at least one criterion and every
  criterion of the contract has a check that passed and names it.
\<close>

theorem coverage_iff:
  "execution_coverage_complete results n \<longleftrightarrow>
     0 < n \<and>
     (\<forall>i. 1 \<le> i \<and> i \<le> n \<longrightarrow>
        (\<exists>r \<in> set results. cr_passed r \<and> criterion_id i \<in> set (cr_criterion_ids r)))"
proof
  assume "execution_coverage_complete results n"
  then show "0 < n \<and> (\<forall>i. 1 \<le> i \<and> i \<le> n \<longrightarrow>
        (\<exists>r \<in> set results. cr_passed r \<and> criterion_id i \<in> set (cr_criterion_ids r)))"
    by (fastforce simp: execution_coverage_complete_def set_criterion_ids_upto split: if_splits)
next
  assume r: "0 < n \<and> (\<forall>i. 1 \<le> i \<and> i \<le> n \<longrightarrow>
        (\<exists>r \<in> set results. cr_passed r \<and> criterion_id i \<in> set (cr_criterion_ids r)))"
  then have "results \<noteq> []" by fastforce
  with r show "execution_coverage_complete results n"
    by (fastforce simp: execution_coverage_complete_def set_criterion_ids_upto)
qed

theorem coverage_iff_witness:
  "execution_coverage_complete
     [\<lparr>cr_kind = ''command'', cr_target = ''make'', cr_passed = True, cr_evidence = [],
       cr_check_id = ''check-001'', cr_criterion_ids = [''criterion-001''], cr_definition = None,
       cr_source = ''agent'', cr_baseline = None, cr_gating = True\<rparr>] 1"
proof -
  have "i = 1" if "1 \<le> i \<and> i \<le> (1 :: nat)" for i using that by simp
  moreover have "criterion_id 1 = ''criterion-001''" by code_simp
  ultimately show ?thesis unfolding coverage_iff by fastforce
qed

end
