(* ===== verification/Completion.thy ===== *)
theory Completion
  imports Checks
begin

text \<open>
  \<^verbatim>\<open>services/completion.py\<close>: the checks a repository brings with it, the merge of required
  and proposed checks, baselines, and the gates a completion must pass. A check is a JSON
  object. The project tree is the record \<open>project_tree\<close>: the text of a regular file
  (\<open>None\<close> when there is none), the directories, and whether a file matches
  \<^verbatim>\<open>test_*.py\<close> at the root.
\<close>

section \<open>Checks a project brings\<close>

record project_tree =
  pt_file :: "string \<Rightarrow> string option"
  pt_is_dir :: "string \<Rightarrow> bool"
  pt_has_test_glob :: bool

definition is_file :: "project_tree \<Rightarrow> string \<Rightarrow> bool" where
  "is_file root name = (pt_file root name \<noteq> None)"

definition javascript_runner :: "project_tree \<Rightarrow> string" where
  "javascript_runner root =
     (if is_file root ''pnpm-lock.yaml'' then ''pnpm run''
      else if is_file root ''yarn.lock'' then ''yarn run''
      else if is_file root ''bun.lock'' \<or> is_file root ''bun.lockb'' then ''bun run''
      else ''npm run'')"

definition command_check :: "string \<Rightarrow> string \<Rightarrow> jdict" where
  "command_check check_id command =
     [(''id'', JStr check_id), (''kind'', JStr ''command''), (''command'', JStr command),
      (''expect_exit'', JInt 0), (''source'', JStr ''system'')]"

text \<open>\<^verbatim>\<open>json.loads(text).get("scripts", {})\<close>, \<^verbatim>\<open>{}\<close> when it raises.\<close>

definition package_scripts :: "string \<Rightarrow> json" where
  "package_scripts source =
     (case json_loads source of
        Some (JObj d) \<Rightarrow> dget_or d ''scripts'' (JObj [])
      | _ \<Rightarrow> JObj [])"

definition script_names :: "string list" where
  "script_names = [''lint'', ''typecheck'', ''test'', ''build'']"

definition script_checks :: "project_tree \<Rightarrow> json \<Rightarrow> jdict list" where
  "script_checks root scripts =
     (case scripts of
        JObj d \<Rightarrow>
          concat (map (\<lambda>name.
            (case dget d name of
               JStr _ \<Rightarrow>
                 [command_check (''system-js-'' @ name) (javascript_runner root @ '' '' @ name)]
             | _ \<Rightarrow> [])) script_names)
      | _ \<Rightarrow> [])"

definition discover_project_checks :: "project_tree \<Rightarrow> jdict list" where
  "discover_project_checks root =
     (let js = (case pt_file root ''package.json'' of
                  None \<Rightarrow> []
                | Some t \<Rightarrow> script_checks root (package_scripts t));
          py = (case pt_file root ''pyproject.toml'' of None \<Rightarrow> [] | Some t \<Rightarrow> t);
          tests = (pt_is_dir root ''tests'' \<or> pt_has_test_glob root)
      in js
         @ (if tests then [command_check ''system-python-test'' ''python3 -m pytest -q''] else [])
         @ (if py_contains ''[tool.ruff'' py then [command_check ''system-python-lint'' ''ruff check .''] else [])
         @ (if py_contains ''[tool.mypy'' py then [command_check ''system-python-types'' ''mypy .''] else []))"

section \<open>Merging required and proposed checks\<close>

definition check_source :: "jdict \<Rightarrow> string" where
  "check_source check = py_str (or_json (dget check ''source'') (JStr ''agent''))"

definition key_excluded :: "string list" where
  "key_excluded =
     [''baseline_passed'', ''criterion_ids'', ''definition'', ''evidence'', ''id'', ''passed'', ''source'']"

definition key_definition :: "jdict \<Rightarrow> jdict" where
  "key_definition check =
     (let d = filter (\<lambda>(k, v). k \<notin> set key_excluded) check
      in case dget d ''command'' of
           JStr c \<Rightarrow> dset ''command'' (JStr (py_join '' '' (py_words c))) d
         | _ \<Rightarrow> d)"

definition check_key :: "jdict \<Rightarrow> string \<times> string" where
  "check_key check =
     (py_str (dget_or check ''kind'' (JStr [])), canonical (JObj (key_definition check)))"

text \<open>\<^verbatim>\<open>for value in item.get("criterion_ids", [])\<close>: lists, strings and dictionaries iterate,
  anything else raises \<^verbatim>\<open>TypeError\<close>.\<close>

fun iter_json :: "json \<Rightarrow> json list result" where
  "iter_json (JArr vs) = Inr vs"
| "iter_json (JStr s) = Inr (map (\<lambda>c. JStr [c]) s)"
| "iter_json (JObj d) = Inr (map (\<lambda>(k, v). JStr k) d)"
| "iter_json _ = Inl TypeError"

definition listed_criteria :: "jdict \<Rightarrow> string list result" where
  "listed_criteria check =
     (case iter_json (dget_or check ''criterion_ids'' (JArr [])) of
        Inl e \<Rightarrow> Inl e
      | Inr vs \<Rightarrow> Inr (filter (\<lambda>s. py_strip s \<noteq> []) (map py_str vs)))"

definition prepared :: "nat \<Rightarrow> jdict \<Rightarrow> jdict" where
  "prepared criterion_count raw =
     (let check = dset ''source'' (JStr (check_source raw)) raw
      in if check_source raw = ''contract'' \<and> \<not> truthy (dget check ''criterion_ids'')
         then dset ''criterion_ids'' (json_strs (criterion_ids_upto criterion_count)) check
         else check)"

definition merge_into :: "jdict \<Rightarrow> jdict \<Rightarrow> jdict result" where
  "merge_into existing check =
     (case listed_criteria existing of
        Inl e \<Rightarrow> Inl e
      | Inr xs \<Rightarrow>
          (case listed_criteria check of
             Inl e \<Rightarrow> Inl e
           | Inr ys \<Rightarrow>
               (let merged = dset ''criterion_ids'' (json_strs (sorted_set (xs @ ys))) existing
                in if dget merged ''source'' = JStr ''agent'' \<and> dget check ''source'' \<noteq> JStr ''agent''
                   then Inr (dset ''id'' (dget_or check ''id'' (dget merged ''id''))
                          (dset ''source'' (dget check ''source'') merged))
                   else Inr merged)))"

type_synonym merged_checks = "((string \<times> string) \<times> jdict) list"

fun merge_checks :: "nat \<Rightarrow> merged_checks \<Rightarrow> jdict list \<Rightarrow> merged_checks result" where
  "merge_checks n merged [] = Inr merged"
| "merge_checks n merged (raw # raws) =
     (let check = prepared n raw; key = check_key check
      in case map_of merged key of
           None \<Rightarrow> merge_checks n (merged @ [(key, check)]) raws
         | Some existing \<Rightarrow>
             (case merge_into existing check of
                Inl e \<Rightarrow> Inl e
              | Inr m \<Rightarrow> merge_checks n (AList.update key m merged) raws))"

definition merge_completion_checks :: "jdict list \<Rightarrow> jdict list \<Rightarrow> nat \<Rightarrow> jdict list result" where
  "merge_completion_checks required proposed criterion_count =
     (case merge_checks criterion_count [] (required @ proposed) of
        Inl e \<Rightarrow> Inl e
      | Inr merged \<Rightarrow> Inr (map snd merged))"

section \<open>Coverage, baselines and gates\<close>

text \<open>\<^verbatim>\<open>str(criterion) for criterion in check.get("criterion_ids", [])\<close>.\<close>

fun declared_ids :: "jdict list \<Rightarrow> string list result" where
  "declared_ids [] = Inr []"
| "declared_ids (check # checks) =
     (if dget check ''source'' \<noteq> JStr ''contract'' then declared_ids checks
      else
        (case iter_json (dget_or check ''criterion_ids'' (JArr [])) of
           Inl e \<Rightarrow> Inl e
         | Inr vs \<Rightarrow>
             (case declared_ids checks of
                Inl e \<Rightarrow> Inl e
              | Inr ids \<Rightarrow> Inr (map py_str vs @ ids))))"

definition declared_contract_coverage_complete :: "jdict list \<Rightarrow> int \<Rightarrow> bool result" where
  "declared_contract_coverage_complete checks criterion_count =
     (if criterion_count \<le> 0 then Inr False
      else
        (case declared_ids checks of
           Inl e \<Rightarrow> Inl e
         | Inr ids \<Rightarrow> Inr (set (criterion_ids_upto (nat criterion_count)) \<subseteq> set ids)))"

definition baseline_map :: "jdict list \<Rightarrow> (string \<times> bool) list" where
  "baseline_map baseline =
     fold (\<lambda>item m. AList.update (py_str (dget item ''check_id'')) (truthy (dget item ''passed'')) m)
       baseline []"

definition attach_baseline :: "check_result list \<Rightarrow> jdict list \<Rightarrow> check_result list" where
  "attach_baseline results baseline =
     map (\<lambda>r. r\<lparr>cr_baseline := map_of (baseline_map baseline) (cr_check_id r)\<rparr>) results"

fun completion_gates_pass :: "check_result list \<Rightarrow> bool" where
  "completion_gates_pass [] = True"
| "completion_gates_pass (r # rs) =
     (if \<not> cr_gating r then completion_gates_pass rs
      else if cr_passed r then completion_gates_pass rs
      else if cr_source r = ''system'' \<and> cr_baseline r = Some False then completion_gates_pass rs
      else False)"

definition contract_results :: "check_result list \<Rightarrow> check_result list" where
  "contract_results results = filter (\<lambda>r. cr_source r = ''contract'') results"

definition relax :: "check_result \<Rightarrow> check_result" where
  "relax r =
     (if cr_source r \<noteq> ''agent'' then r
      else r\<lparr>cr_gating := False,
             cr_definition := map_option (dset ''gating'' (JBool False)) (cr_definition r)\<rparr>)"

text \<open>The results afterwards and the returned flag.\<close>

definition mark_supplementary_agent_checks ::
  "check_result list \<Rightarrow> nat \<Rightarrow> check_result list \<times> bool" where
  "mark_supplementary_agent_checks results criterion_count =
     (let contract = contract_results results;
          authoritative =
            (contract \<noteq> [] \<and> completion_gates_pass contract \<and>
             execution_coverage_complete contract criterion_count)
      in if authoritative then (map relax results, True) else (results, False))"

definition regressions :: "check_result list \<Rightarrow> check_result list" where
  "regressions results =
     filter (\<lambda>r. cr_source r = ''system'' \<and> cr_baseline r = Some True \<and> \<not> cr_passed r) results"

section \<open>Facts about merging\<close>

lemma dget_dset [simp]: "dget (dset k v d) k' = (if k' = k then v else dget d k')"
  by (simp add: dget_def dset_def update_conv')

lemma dget_or_dset [simp]: "dget_or (dset k v d) k' x = (if k' = k then v else dget_or d k' x)"
  by (simp add: dget_or_def dset_def update_conv')

lemma filter_update_excluded:
  "\<not> P k \<Longrightarrow> filter (\<lambda>(k, v). P k) (AList.update k v d) = filter (\<lambda>(k, v). P k) d"
  by (induction d) auto

lemma check_key_dset [simp]:
  "k \<in> set key_excluded \<Longrightarrow> check_key (dset k v d) = check_key d"
proof -
  assume k: "k \<in> set key_excluded"
  then have "k \<noteq> ''kind''" by (auto simp: key_excluded_def)
  moreover have "filter (\<lambda>(k, v). k \<notin> set key_excluded) (dset k v d) =
      filter (\<lambda>(k, v). k \<notin> set key_excluded) d"
    unfolding dset_def using k by (intro filter_update_excluded) simp
  ultimately show ?thesis by (simp add: check_key_def key_definition_def)
qed

lemma excluded_members [simp]:
  "''criterion_ids'' \<in> set key_excluded" "''source'' \<in> set key_excluded" "''id'' \<in> set key_excluded"
  by (simp_all add: key_excluded_def)

lemma check_key_prepared [simp]: "check_key (prepared n raw) = check_key raw"
  by (simp add: prepared_def Let_def)

lemma source_prepared [simp]: "dget (prepared n raw) ''source'' = JStr (check_source raw)"
  by (simp add: prepared_def Let_def)

lemma listed_criteria_strs [simp]:
  "listed_criteria (dset ''criterion_ids'' (json_strs xs) d) = Inr (filter (\<lambda>s. py_strip s \<noteq> []) xs)"
  by (simp add: listed_criteria_def json_strs_def comp_def py_str_def)

lemma listed_criteria_other [simp]:
  "k \<noteq> ''criterion_ids'' \<Longrightarrow> listed_criteria (dset k v d) = listed_criteria d"
  by (simp add: listed_criteria_def)

text \<open>A merged check covers a check it was built from.\<close>

definition covers :: "jdict \<Rightarrow> jdict \<Rightarrow> bool" where
  "covers m c \<longleftrightarrow>
     check_key m = check_key c \<and>
     (dget c ''source'' \<noteq> JStr ''agent'' \<longrightarrow> dget m ''source'' \<noteq> JStr ''agent'') \<and>
     (\<forall>xs. listed_criteria c = Inr xs \<longrightarrow> (\<exists>ys. listed_criteria m = Inr ys \<and> set xs \<subseteq> set ys))"

lemma covers_refl [simp]: "covers c c"
  by (simp add: covers_def)

lemma covers_trans: "covers a b \<Longrightarrow> covers b c \<Longrightarrow> covers a c"
  unfolding covers_def by (simp, blast)

lemma listed_nonblank: "listed_criteria c = Inr xs \<Longrightarrow> s \<in> set xs \<Longrightarrow> py_strip s \<noteq> []"
  by (auto simp: listed_criteria_def split: sum.splits)

lemma merge_into_covers:
  assumes "merge_into e c = Inr m" "check_key e = check_key c"
  shows "covers m e \<and> covers m c"
proof -
  obtain xs ys where l: "listed_criteria e = Inr xs" "listed_criteria c = Inr ys"
    using assms by (auto simp: merge_into_def split: sum.splits)
  let ?m = "dset ''criterion_ids'' (json_strs (sorted_set (xs @ ys))) e"
  have m: "m = (if dget e ''source'' = JStr ''agent'' \<and> dget c ''source'' \<noteq> JStr ''agent''
      then dset ''id'' (dget_or c ''id'' (dget e ''id'')) (dset ''source'' (dget c ''source'') ?m)
      else ?m)"
    using assms l by (auto simp: merge_into_def Let_def split: if_splits)
  have "listed_criteria m = Inr (filter (\<lambda>s. py_strip s \<noteq> []) (sorted_set (xs @ ys)))"
    unfolding m by simp
  moreover have "set (filter (\<lambda>s. py_strip s \<noteq> []) (sorted_set (xs @ ys))) = set xs \<union> set ys"
    using listed_nonblank [OF l(1)] listed_nonblank [OF l(2)] by auto
  moreover have "check_key m = check_key e" unfolding m by simp
  ultimately show ?thesis
    using assms(2) l unfolding covers_def by (auto simp: m)
qed

definition merged_ok :: "merged_checks \<Rightarrow> bool" where
  "merged_ok merged \<longleftrightarrow>
     distinct (map fst merged) \<and> (\<forall>(k, m) \<in> set merged. check_key m = k)"

lemma merged_ok_lookup: "merged_ok merged \<Longrightarrow> map_of merged k = Some m \<Longrightarrow> check_key m = k"
  by (auto simp: merged_ok_def dest: map_of_SomeD)

lemma merged_ok_update:
  assumes "merged_ok merged" "check_key m = k"
  shows "merged_ok (AList.update k m merged)"
proof -
  have d: "distinct (map fst merged)" using assms(1) by (simp add: merged_ok_def)
  then have d': "distinct (map fst (AList.update k m merged))" by (rule distinct_update)
  have "check_key m' = k'" if "(k', m') \<in> set (AList.update k m merged)" for k' m'
  proof -
    have "map_of (AList.update k m merged) k' = Some m'" using that d' by simp
    then show ?thesis
      using assms merged_ok_lookup [OF assms(1)] by (auto simp: update_conv' split: if_splits)
  qed
  with d' show ?thesis by (auto simp: merged_ok_def)
qed

lemma merge_checks_covers:
  assumes "merge_checks n merged raws = Inr out" "merged_ok merged"
  shows "merged_ok out \<and>
    fst ` set out = fst ` set merged \<union> check_key ` set raws \<and>
    (\<forall>k m. map_of merged k = Some m \<longrightarrow> (\<exists>m'. map_of out k = Some m' \<and> covers m' m)) \<and>
    (\<forall>r \<in> set raws. \<exists>m'. map_of out (check_key r) = Some m' \<and> covers m' (prepared n r))"
  using assms
proof (induction raws arbitrary: merged)
  case Nil
  then show ?case by auto
next
  case (Cons raw raws)
  let ?c = "prepared n raw" and ?k = "check_key raw"
  show ?case
  proof (cases "map_of merged ?k")
    case None
    let ?merged = "merged @ [(?k, ?c)]"
    have "merge_checks n ?merged raws = Inr out" using Cons.prems(1) None by (simp add: Let_def)
    moreover have "merged_ok ?merged"
      using Cons.prems(2) None by (auto simp: merged_ok_def map_of_eq_None_iff)
    ultimately have IH: "merged_ok out"
        "fst ` set out = fst ` set ?merged \<union> check_key ` set raws"
        "\<And>k m. map_of ?merged k = Some m \<Longrightarrow> \<exists>m'. map_of out k = Some m' \<and> covers m' m"
        "\<forall>r \<in> set raws. \<exists>m'. map_of out (check_key r) = Some m' \<and> covers m' (prepared n r)"
      using Cons.IH by blast+
    have "\<exists>m'. map_of out ?k = Some m' \<and> covers m' ?c"
      using None by (intro IH(3)) (simp add: map_add_def)
    moreover have "\<exists>m'. map_of out k = Some m' \<and> covers m' m" if "map_of merged k = Some m" for k m
      using that by (intro IH(3)) (auto simp: map_add_def None split: option.splits)
    ultimately show ?thesis using IH(1,2,4) by auto
  next
    case (Some e)
    then have e: "check_key e = check_key ?c" using merged_ok_lookup [OF Cons.prems(2)] by simp
    obtain m where m: "merge_into e ?c = Inr m"
      and rest: "merge_checks n (AList.update ?k m merged) raws = Inr out"
      using Cons.prems(1) Some by (auto simp: Let_def split: sum.splits)
    from merge_into_covers [OF m e] have cov: "covers m e" "covers m ?c" by auto
    then have key: "check_key m = ?k" by (simp add: covers_def)
    have ok: "merged_ok (AList.update ?k m merged)"
      using Cons.prems(2) key by (rule merged_ok_update)
    from Cons.IH [OF rest ok] have IH: "merged_ok out"
        "fst ` set out = fst ` set (AList.update ?k m merged) \<union> check_key ` set raws"
        "\<And>k m'. map_of (AList.update ?k m merged) k = Some m' \<Longrightarrow>
           \<exists>m''. map_of out k = Some m'' \<and> covers m'' m'"
        "\<forall>r \<in> set raws. \<exists>m'. map_of out (check_key r) = Some m' \<and> covers m' (prepared n r)"
      by blast+
    obtain m'' where m'': "map_of out ?k = Some m''" "covers m'' m"
      using IH(3) [of ?k m] by (auto simp: update_conv')
    have "?k \<in> fst ` set merged" using Some by (metis map_of_eq_None_iff option.distinct(1))
    with IH(2) have "fst ` set out = fst ` set merged \<union> check_key ` set (raw # raws)"
      by (auto simp: dom_update)
    moreover have "\<exists>m'. map_of out k = Some m' \<and> covers m' m0" if "map_of merged k = Some m0" for k m0
    proof (cases "k = ?k")
      case True
      then show ?thesis using that Some m'' cov covers_trans by auto
    next
      case False
      then show ?thesis using IH(3) [of k m0] that by (simp add: update_conv')
    qed
    moreover have "covers m'' ?c" using m''(2) cov(2) by (rule covers_trans)
    ultimately show ?thesis using IH(1,4) m''(1) by auto
  qed
qed

section \<open>Facts about the gates\<close>

lemma completion_gates_iff:
  "completion_gates_pass rs \<longleftrightarrow>
     (\<forall>r \<in> set rs. cr_gating r \<longrightarrow> cr_passed r \<or> cr_source r = ''system'' \<and> cr_baseline r = Some False)"
  by (induction rs) auto

lemma relax_simps [simp]:
  "cr_passed (relax r) = cr_passed r" "cr_source (relax r) = cr_source r"
  "cr_criterion_ids (relax r) = cr_criterion_ids r" "cr_baseline (relax r) = cr_baseline r"
  "cr_check_id (relax r) = cr_check_id r"
  by (simp_all add: relax_def)

lemma relax_gating: "cr_gating (relax r) = (cr_gating r \<and> cr_source r \<noteq> ''agent'')"
  by (simp add: relax_def)

lemma contract_results_relax [simp]: "contract_results (map relax rs) = contract_results rs"
  by (induction rs) (auto simp: contract_results_def relax_def)

section \<open>Properties\<close>

text \<open>
  Merging the required and the proposed checks keeps one check per definition and drops
  none: every input has a merged check with the same definition, that lists every criterion
  the input lists, and that is not the agent's own when the input was not; so an agent that
  proposes a copy of a required check cannot take it over.
\<close>

theorem merge_keeps_requirements:
  assumes "merge_completion_checks required proposed n = Inr ms"
  shows "distinct (map check_key ms) \<and>
    set (map check_key ms) = set (map check_key (required @ proposed)) \<and>
    (\<forall>raw \<in> set (required @ proposed). \<exists>m \<in> set ms. covers m (prepared n raw))"
proof -
  obtain out where out: "merge_checks n [] (required @ proposed) = Inr out" "ms = map snd out"
    using assms by (auto simp: merge_completion_checks_def split: sum.splits)
  have "merged_ok []" by (simp add: merged_ok_def)
  note cov = merge_checks_covers [OF out(1) this]
  then have ok: "distinct (map fst out)" "\<And>k m. (k, m) \<in> set out \<Longrightarrow> check_key m = k"
    by (auto simp: merged_ok_def)
  have keys: "map check_key ms = map fst out"
    unfolding out(2) using ok(2) by auto
  have "\<exists>m \<in> set ms. covers m (prepared n raw)" if "raw \<in> set (required @ proposed)" for raw
  proof -
    obtain m where "map_of out (check_key raw) = Some m" "covers m (prepared n raw)"
      using cov \<open>raw \<in> set (required @ proposed)\<close> by blast
    then show ?thesis unfolding out(2) by (force dest: map_of_SomeD)
  qed
  moreover have "set (map check_key ms) = set (map check_key (required @ proposed))"
    unfolding keys using cov by (simp add: image_Un)
  ultimately show ?thesis using ok(1) keys by simp
qed

definition required_sample :: jdict where
  "required_sample =
     [(''id'', JStr ''c1''), (''kind'', JStr ''command''), (''command'', JStr ''make  test''),
      (''source'', JStr ''contract'')]"

definition proposed_sample :: jdict where
  "proposed_sample =
     [(''kind'', JStr ''command''), (''command'', JStr ''make test''),
      (''criterion_ids'', json_strs [''criterion-002''])]"

definition merged_sample :: jdict where
  "merged_sample =
     [(''id'', JStr ''c1''), (''kind'', JStr ''command''), (''command'', JStr ''make  test''),
      (''source'', JStr ''contract''),
      (''criterion_ids'', json_strs [''criterion-001'', ''criterion-002''])]"

lemma merge_sample:
  "merge_completion_checks [required_sample] [proposed_sample] 2 = Inr [merged_sample]"
  by code_simp

theorem merge_keeps_requirements_witness:
  "covers merged_sample (prepared 2 proposed_sample) \<and> covers merged_sample (prepared 2 required_sample)"
  using merge_keeps_requirements [OF merge_sample] by simp

text \<open>
  The completion gates hold exactly when every gating result passed or is a project
  check that already failed before the task started; a check that regressed never passes them.
\<close>

theorem gates_exact:
  "(completion_gates_pass results \<longleftrightarrow>
      (\<forall>r \<in> set results. cr_gating r \<longrightarrow>
         cr_passed r \<or> cr_source r = ''system'' \<and> cr_baseline r = Some False)) \<and>
   (completion_gates_pass results \<longrightarrow> (\<forall>r \<in> set (regressions results). \<not> cr_gating r))"
  by (auto simp: completion_gates_iff regressions_def)

theorem gates_exact_witness:
  "\<not> cr_gating (make_result [(''gating'', JBool False)] 1 [] False []
       \<lparr>cr_source := ''system'', cr_baseline := Some True\<rparr>)"
  using gates_exact [of "[make_result [(''gating'', JBool False)] 1 [] False []
       \<lparr>cr_source := ''system'', cr_baseline := Some True\<rparr>]"]
  by (simp add: regressions_def dget_def)

text \<open>
  Marking agent checks as supplementary relaxes nothing but failing agent checks, and
  only when the contract's own checks pass and cover every criterion: afterwards the gates
  depend on the contract and project checks alone.
\<close>

theorem supplementary_sound:
  "case mark_supplementary_agent_checks results n of (results', authoritative) \<Rightarrow>
     (authoritative \<longrightarrow>
        completion_gates_pass (contract_results results') \<and>
        execution_coverage_complete (contract_results results') n \<and>
        (completion_gates_pass results' \<longleftrightarrow>
           completion_gates_pass (filter (\<lambda>r. cr_source r \<noteq> ''agent'') results))) \<and>
     (\<not> authoritative \<longrightarrow> results' = results) \<and>
     map cr_passed results' = map cr_passed results \<and>
     map cr_source results' = map cr_source results"
  by (auto simp: mark_supplementary_agent_checks_def Let_def completion_gates_iff relax_gating comp_def)

theorem supplementary_sound_witness:
  "case mark_supplementary_agent_checks
       [make_result [(''source'', JStr ''contract''), (''criterion_ids'', json_strs [''criterion-001''])] 1 [] True [],
        make_result [] 2 [] False []] 1 of (results', authoritative) \<Rightarrow>
     authoritative \<and> completion_gates_pass results'"
proof -
  let ?rs = "[make_result [(''source'', JStr ''contract''), (''criterion_ids'', json_strs [''criterion-001''])] 1 [] True [],
        make_result [] 2 [] False []]"
  have a: "snd (mark_supplementary_agent_checks ?rs 1)" by code_simp
  have g: "completion_gates_pass (filter (\<lambda>r. cr_source r \<noteq> ''agent'') ?rs)" by code_simp
  obtain rs' au where m: "mark_supplementary_agent_checks ?rs 1 = (rs', au)" by force
  show ?thesis
    using supplementary_sound [where results = ?rs and n = 1] a g unfolding m by simp
qed

end
