(* ===== verification/Sha256.thy ===== *)
theory Sha256
  imports Prelude "HOL-Library.Word"
begin

unbundle bit_operations_syntax

text \<open>
  \<^verbatim>\<open>hashlib.sha256(data).hexdigest()\<close> on byte strings: padding, message schedule, the 64
  rounds of the compression function on 32-bit words and the hexadecimal digest. The ledger,
  the contract, the receipt and the change sets address their content with it.
\<close>

type_synonym u32 = "32 word"

definition rotr32 :: "nat \<Rightarrow> u32 \<Rightarrow> u32" where
  "rotr32 n w = drop_bit n w OR push_bit (32 - n) w"

text \<open>
  The round constants and the initial state are the first 32 bits of the fractional parts of
  the cube and square roots of the first primes; \<open>int_root\<close> finds an integer root bit by bit.
\<close>

definition first_primes :: "nat list" where
  "first_primes = filter (\<lambda>p. 1 < p \<and> list_all (\<lambda>d. p mod d \<noteq> 0) [2..<p]) [0..<312]"

definition int_root :: "nat \<Rightarrow> nat \<Rightarrow> nat" where
  "int_root k n = foldl (\<lambda>r b. if (r + 2 ^ b) ^ k \<le> n then r + 2 ^ b else r) 0 (rev [0..<40])"

definition root_fraction :: "nat \<Rightarrow> nat \<Rightarrow> u32" where
  "root_fraction k p = word_of_nat (int_root k (p * 2 ^ (32 * k)))"

definition round_consts :: "u32 list" where
  "round_consts = map (root_fraction 3) first_primes"

type_synonym hstate = "u32 \<times> u32 \<times> u32 \<times> u32 \<times> u32 \<times> u32 \<times> u32 \<times> u32"

definition initial_hash :: hstate where
  "initial_hash =
     (root_fraction 2 2, root_fraction 2 3, root_fraction 2 5, root_fraction 2 7,
      root_fraction 2 11, root_fraction 2 13, root_fraction 2 17, root_fraction 2 19)"

text \<open>Big-endian words of a block, and the padding to whole blocks of 64 bytes.\<close>

definition byte_word :: "char \<Rightarrow> u32" where
  "byte_word c = word_of_nat (ord_of c)"

fun be_words :: "string \<Rightarrow> u32 list" where
  "be_words (a # b # c # d # s) =
     (push_bit 24 (byte_word a) OR push_bit 16 (byte_word b) OR push_bit 8 (byte_word c)
       OR byte_word d) # be_words s"
| "be_words _ = []"

definition be_bytes64 :: "nat \<Rightarrow> string" where
  "be_bytes64 n = map (\<lambda>i. char_of (n div 256 ^ (7 - i))) [0..<8]"

definition sha_pad :: "string \<Rightarrow> string" where
  "sha_pad s =
     (let k = (119 - length s mod 64) mod 64
      in s @ [CHR 0x80] @ replicate k (CHR 0x00) @ be_bytes64 (8 * length s))"

text \<open>The message schedule, kept newest first while it grows to 64 words.\<close>

fun extend_schedule :: "nat \<Rightarrow> u32 list \<Rightarrow> u32 list" where
  "extend_schedule 0 ws = ws"
| "extend_schedule (Suc n) ws =
     (let w2 = ws ! 1; w7 = ws ! 6; w15 = ws ! 14; w16 = ws ! 15;
          s0 = rotr32 7 w15 XOR rotr32 18 w15 XOR drop_bit 3 w15;
          s1 = rotr32 17 w2 XOR rotr32 19 w2 XOR drop_bit 10 w2
      in extend_schedule n ((w16 + s0 + w7 + s1) # ws))"

definition sha_round :: "hstate \<Rightarrow> u32 \<times> u32 \<Rightarrow> hstate" where
  "sha_round st kw =
     (case st of (a, b, c, d, e, f, g, h) \<Rightarrow>
       (let s1 = rotr32 6 e XOR rotr32 11 e XOR rotr32 25 e;
            ch = (e AND f) XOR (NOT e AND g);
            t1 = h + s1 + ch + fst kw + snd kw;
            s0 = rotr32 2 a XOR rotr32 13 a XOR rotr32 22 a;
            maj = (a AND b) XOR (a AND c) XOR (b AND c)
        in (t1 + (s0 + maj), a, b, c, d + t1, e, f, g)))"

definition add_state :: "hstate \<Rightarrow> hstate \<Rightarrow> hstate" where
  "add_state x y =
     (case x of (a, b, c, d, e, f, g, h) \<Rightarrow> case y of (a', b', c', d', e', f', g', h') \<Rightarrow>
       (a + a', b + b', c + c', d + d', e + e', f + f', g + g', h + h'))"

definition compress_block :: "hstate \<Rightarrow> string \<Rightarrow> hstate" where
  "compress_block st blk =
     add_state st
       (foldl sha_round st (zip round_consts (rev (extend_schedule 48 (rev (be_words blk))))))"

function sha_blocks :: "hstate \<Rightarrow> string \<Rightarrow> hstate" where
  "sha_blocks st s =
     (if s = [] then st else sha_blocks (compress_block st (take 64 s)) (drop 64 s))"
  by pat_completeness auto
termination
  by (relation "measure (\<lambda>(st, s). length s)") auto

declare sha_blocks.simps [simp del]

definition hex_digit_of :: "nat \<Rightarrow> char" where
  "hex_digit_of d = (if d < 10 then char_of (48 + d) else char_of (87 + d))"

definition hex_word :: "u32 \<Rightarrow> string" where
  "hex_word w = map (\<lambda>i. hex_digit_of (unat w div 16 ^ (7 - i) mod 16)) [0..<8]"

definition hex_state :: "hstate \<Rightarrow> string" where
  "hex_state st =
     (case st of (a, b, c, d, e, f, g, h) \<Rightarrow> concat (map hex_word [a, b, c, d, e, f, g, h]))"

definition sha256_hex :: "string \<Rightarrow> string" where
  "sha256_hex s = hex_state (sha_blocks initial_hash (sha_pad s))"

lemma length_hex_word [simp]: "length (hex_word w) = 8"
  by (simp add: hex_word_def)

lemma length_sha256_hex [simp]: "length (sha256_hex s) = 64"
  by (simp add: sha256_hex_def hex_state_def split: prod.splits)

lemma sha256_hex_nonempty [simp]: "sha256_hex s \<noteq> []"
  using length_sha256_hex [of s] by (metis list.size(3) zero_neq_numeral)

lemma hex_digit_ord: "d < 16 \<Longrightarrow> ord_of (hex_digit_of d) \<le> 102"
  by (simp add: hex_digit_of_def)

lemma sha256_hex_ord: "c \<in> set (sha256_hex s) \<Longrightarrow> ord_of c \<le> 102"
  by (auto simp: sha256_hex_def hex_state_def hex_word_def hex_digit_ord split: prod.splits)

end
