(* ===== verification/Config.thy ===== *)
theory Config
  imports Prelude
begin

text \<open>
  \<^verbatim>\<open>core/config.py\<close>: the settings the other components read, with their defaults, the bounds
  the fields declare, the parsers of list-valued settings and the production gate
  \<^verbatim>\<open>validate_production_security\<close>. Key files are read through \<open>read_text\<close> (\<open>None\<close> is
  \<^verbatim>\<open>OSError\<close>) and PEM keys through \<open>load_private\<close>, the loader of the \<^verbatim>\<open>cryptography\<close>
  package: \<open>None\<close> when it raises, otherwise whether the key is Ed25519.
\<close>

section \<open>The settings\<close>

record settings =
  environment :: string
  service_name :: string
  version :: string
  loop_revision :: string
  secret_key :: string
  api_token :: "string option"
  auth_required :: bool
  execution_mode :: string
  agent_max_concurrent_runs :: int
  worker_stale_task_seconds :: int
  worker_visibility_timeout_seconds :: int
  worker_max_attempts :: int
  worker_queue_max_length :: int
  agent_max_steps_default :: int
  agent_max_steps_cap :: int
  agent_redact_secrets :: bool
  loop_token_budget_default :: int
  loop_token_budget_cap :: int
  agent_workspaces_root :: string
  loop_local_projects_root :: "string option"
  loop_changeset_preview_bytes :: int
  agent_receipt_signing_key :: "string option"
  agent_receipt_signing_key_file :: "string option"
  agent_authority_signing_key :: "string option"
  agent_authority_signing_key_file :: "string option"
  agent_authority_token_ttl_seconds :: int
  agent_max_upload_bytes :: int
  agent_max_workspace_bytes :: int
  agent_approval_mode :: string
  agent_acceptance_score :: int
  agent_max_finish_retries :: int
  agent_stuck_threshold :: int
  agent_max_spawn_depth :: int
  agent_repeated_action_limit :: int
  agent_exploration_branch_cap :: int
  agent_verification_token_reserve :: int
  telegram_allowed_chat_ids :: "string option"
  slack_allowed_channels :: "string option"
  agent_browser_enabled :: bool
  agent_allow_host_providers :: bool
  agent_sibyl_enabled :: bool
  agent_argus_enabled :: bool
  agent_provider_gateway_url :: "string option"
  agent_browser_gateway_url :: "string option"
  agent_email_gateway_url :: "string option"
  agent_calendar_gateway_url :: "string option"
  agent_vision_gateway_url :: "string option"
  agent_email_egress_hosts :: string
  agent_calendar_egress_hosts :: string
  agent_vision_egress_hosts :: string
  agent_egress_proxy_url :: "string option"
  agent_egress_proxy_audit_url :: "string option"
  agent_require_egress_hosts :: bool
  agent_sandbox :: string
  agent_sandbox_backend :: string
  agent_sandbox_image :: string
  agent_sandbox_image_digest :: "string option"

definition default_settings :: settings where
  "default_settings =
     \<lparr>environment = ''development'', service_name = ''api'',
      version = ''0.1.0'', loop_revision = ''unknown'',
      secret_key = ''change-me-in-production-use-openssl-rand-hex-32'',
      api_token = None, auth_required = False, execution_mode = ''inline'',
      agent_max_concurrent_runs = 8, worker_stale_task_seconds = 900,
      worker_visibility_timeout_seconds = 900, worker_max_attempts = 3,
      worker_queue_max_length = 100000, agent_max_steps_default = 12, agent_max_steps_cap = 40,
      agent_redact_secrets = True, loop_token_budget_default = 60000,
      loop_token_budget_cap = 200000, agent_workspaces_root = ''./workspaces'', loop_local_projects_root = None,
      loop_changeset_preview_bytes = 200000,
      agent_receipt_signing_key = None, agent_receipt_signing_key_file = None,
      agent_authority_signing_key = None, agent_authority_signing_key_file = None,
      agent_authority_token_ttl_seconds = 300, agent_max_upload_bytes = 10000000,
      agent_max_workspace_bytes = 100000000, agent_approval_mode = ''auto'',
      agent_acceptance_score = 70, agent_max_finish_retries = 2, agent_stuck_threshold = 4,
      agent_max_spawn_depth = 2, agent_repeated_action_limit = 2,
      agent_exploration_branch_cap = 8, agent_verification_token_reserve = 6000,
      telegram_allowed_chat_ids = None, slack_allowed_channels = None,
      agent_browser_enabled = True, agent_allow_host_providers = True, agent_sibyl_enabled = False,
      agent_argus_enabled = False, agent_provider_gateway_url = None,
      agent_browser_gateway_url = None, agent_email_gateway_url = None,
      agent_calendar_gateway_url = None, agent_vision_gateway_url = None,
      agent_email_egress_hosts = [], agent_calendar_egress_hosts = [],
      agent_vision_egress_hosts = ''generativelanguage.googleapis.com'',
      agent_egress_proxy_url = None, agent_egress_proxy_audit_url = None,
      agent_require_egress_hosts = True, agent_sandbox = ''preferred'',
      agent_sandbox_backend = ''auto'', agent_sandbox_image = ''loop-sandbox:latest'',
      agent_sandbox_image_digest = None\<rparr>"

text \<open>The bounds and literals the field declarations make pydantic check.\<close>

definition hex_lower :: "char \<Rightarrow> bool" where
  "hex_lower c = (py_isdigit c \<or> (let n = ord_of c in 97 \<le> n \<and> n \<le> 102))"

definition digest_ok :: "string \<Rightarrow> bool" where
  "digest_ok d =
     (prefix ''sha256:'' d \<and> length (drop 7 d) = 64 \<and> list_all hex_lower (drop 7 d))"

definition fields_ok :: "settings \<Rightarrow> bool" where
  "fields_ok c =
     (environment c \<in> {''development'', ''staging'', ''production''} \<and>
      execution_mode c \<in> {''inline'', ''worker''} \<and>
      1 \<le> agent_max_concurrent_runs c \<and> agent_max_concurrent_runs c \<le> 256 \<and>
      60 \<le> worker_stale_task_seconds c \<and> 30 \<le> worker_visibility_timeout_seconds c \<and>
      1 \<le> worker_max_attempts c \<and> worker_max_attempts c \<le> 20 \<and>
      1000 \<le> worker_queue_max_length c \<and>
      10000 \<le> loop_changeset_preview_bytes c \<and> loop_changeset_preview_bytes c \<le> 5000000 \<and>
      30 \<le> agent_authority_token_ttl_seconds c \<and> agent_authority_token_ttl_seconds c \<le> 900 \<and>
      1024 \<le> agent_max_upload_bytes c \<and> agent_max_upload_bytes c \<le> 1000000000 \<and>
      1024 \<le> agent_max_workspace_bytes c \<and> agent_max_workspace_bytes c \<le> 10000000000 \<and>
      agent_approval_mode c \<in> {''auto'', ''manual''} \<and>
      1 \<le> agent_repeated_action_limit c \<and> agent_repeated_action_limit c \<le> 10 \<and>
      1 \<le> agent_exploration_branch_cap c \<and> agent_exploration_branch_cap c \<le> 20 \<and>
      500 \<le> agent_verification_token_reserve c \<and>
      agent_sandbox c \<in> {''required'', ''preferred'', ''off'', ''auto'', ''container'', ''inline''} \<and>
      (case agent_sandbox_image_digest c of None \<Rightarrow> True | Some d \<Rightarrow> digest_ok d))"

text \<open>\<^verbatim>\<open>bool(x)\<close> of an optional string.\<close>

definition nonempty_opt :: "string option \<Rightarrow> bool" where
  "nonempty_opt x = (case x of None \<Rightarrow> False | Some s \<Rightarrow> s \<noteq> [])"

section \<open>Keys and lists\<close>

text \<open>\<^verbatim>\<open>receipt_signing_key_pem\<close> and \<^verbatim>\<open>authority_signing_key_pem\<close>: inline, else from the file.\<close>

definition key_pem ::
  "(string \<Rightarrow> string option) \<Rightarrow> string option \<Rightarrow> string option \<Rightarrow> string option" where
  "key_pem read_text inline file =
     (if nonempty_opt inline then inline
      else if nonempty_opt file then read_text (the file)
      else None)"

definition receipt_signing_key_pem :: "(string \<Rightarrow> string option) \<Rightarrow> settings \<Rightarrow> string option" where
  "receipt_signing_key_pem read_text c =
     key_pem read_text (agent_receipt_signing_key c) (agent_receipt_signing_key_file c)"

definition authority_signing_key_pem :: "(string \<Rightarrow> string option) \<Rightarrow> settings \<Rightarrow> string option" where
  "authority_signing_key_pem read_text c =
     key_pem read_text (agent_authority_signing_key c) (agent_authority_signing_key_file c)"

text \<open>\<^verbatim>\<open>{c.strip() for c in raw.split(",") if c.strip()}\<close>.\<close>

definition comma_set :: "string \<Rightarrow> string set" where
  "comma_set raw = set (filter (\<lambda>s. s \<noteq> []) (map py_strip (split_char (CHR '','') raw)))"

definition telegram_allowlist :: "settings \<Rightarrow> string set" where
  "telegram_allowlist c =
     comma_set (case telegram_allowed_chat_ids c of None \<Rightarrow> [] | Some s \<Rightarrow> s)"

definition slack_allowlist :: "settings \<Rightarrow> string set" where
  "slack_allowlist c = comma_set (case slack_allowed_channels c of None \<Rightarrow> [] | Some s \<Rightarrow> s)"

section \<open>The production gate\<close>

definition is_production :: "settings \<Rightarrow> bool" where
  "is_production c = (environment c = ''production'')"

datatype config_error =
    AuthRequired
  | BadSecretKey
  | SandboxRequired
  | DigestRequired
  | HostProviders
  | HostMcp
  | LegacyGateway
  | EmailGateway
  | CalendarGateway
  | VisionGateway
  | BrowserGateway
  | EgressProxy
  | AuthorityKeyMissing
  | AuthorityKeyInvalid
  | ReceiptKeyMissing
  | ReceiptKeyInvalid
  | ReceiptKeyNotEd25519

text \<open>The checks in the order of the source; the first that fails is raised.\<close>

definition validate_production_security ::
  "(string \<Rightarrow> string option) \<Rightarrow> (string \<Rightarrow> bool option) \<Rightarrow> settings \<Rightarrow> config_error + settings" where
  "validate_production_security read_text load_private c =
     (if \<not> is_production c then Inr c
      else if \<not> auth_required c then Inl AuthRequired
      else if length (secret_key c) < 32 \<or> py_contains ''change_me'' (py_lower (secret_key c))
      then Inl BadSecretKey
      else if agent_sandbox c \<notin> {''required'', ''container''} then Inl SandboxRequired
      else if \<not> nonempty_opt (agent_sandbox_image_digest c) then Inl DigestRequired
      else if agent_allow_host_providers c then Inl HostProviders
      else if agent_sibyl_enabled c \<or> agent_argus_enabled c then Inl HostMcp
      else if nonempty_opt (agent_provider_gateway_url c) then Inl LegacyGateway
      else if \<not> nonempty_opt (agent_email_gateway_url c) \<or>
              py_strip (agent_email_egress_hosts c) = [] then Inl EmailGateway
      else if \<not> nonempty_opt (agent_calendar_gateway_url c) \<or>
              py_strip (agent_calendar_egress_hosts c) = [] then Inl CalendarGateway
      else if \<not> nonempty_opt (agent_vision_gateway_url c) \<or>
              py_strip (agent_vision_egress_hosts c) = [] then Inl VisionGateway
      else if \<not> nonempty_opt (agent_browser_gateway_url c) then Inl BrowserGateway
      else if \<not> nonempty_opt (agent_egress_proxy_url c) \<or>
              \<not> nonempty_opt (agent_egress_proxy_audit_url c) then Inl EgressProxy
      else if service_name c = ''worker'' \<and>
              \<not> nonempty_opt (authority_signing_key_pem read_text c) then Inl AuthorityKeyMissing
      else if service_name c = ''worker'' \<and>
              load_private (the (authority_signing_key_pem read_text c)) \<noteq> Some True
      then Inl AuthorityKeyInvalid
      else if \<not> nonempty_opt (receipt_signing_key_pem read_text c) then Inl ReceiptKeyMissing
      else
        (case load_private (the (receipt_signing_key_pem read_text c)) of
           None \<Rightarrow> Inl ReceiptKeyInvalid
         | Some ed25519 \<Rightarrow> if ed25519 then Inr c else Inl ReceiptKeyNotEd25519))"

section \<open>Properties\<close>

text \<open>
  C31. A production configuration that passes the gate requires authentication, isolates
  commands in an immutable sandbox image, runs no provider on the host, routes egress
  through the proxy, and signs receipts (and, in the worker, authority) with Ed25519 keys;
  the gate never changes the settings.
\<close>

theorem production_gate_sound:
  assumes "validate_production_security read_text load_private c = Inr c'" "is_production c"
  shows "c' = c \<and> auth_required c \<and> 32 \<le> length (secret_key c) \<and>
    agent_sandbox c \<in> {''required'', ''container''} \<and>
    nonempty_opt (agent_sandbox_image_digest c) \<and>
    \<not> agent_allow_host_providers c \<and> \<not> agent_sibyl_enabled c \<and> \<not> agent_argus_enabled c \<and>
    nonempty_opt (agent_egress_proxy_url c) \<and> nonempty_opt (agent_egress_proxy_audit_url c) \<and>
    (\<exists>pem. receipt_signing_key_pem read_text c = Some pem \<and> load_private pem = Some True) \<and>
    (service_name c = ''worker'' \<longrightarrow>
       (\<exists>pem. authority_signing_key_pem read_text c = Some pem \<and> load_private pem = Some True))"
  using assms unfolding validate_production_security_def
  by (simp split: if_splits option.splits) (auto simp: nonempty_opt_def split: option.splits)

definition hardened :: "settings \<Rightarrow> settings" where
  "hardened c =
     c\<lparr>environment := ''production'', auth_required := True, agent_sandbox := ''required'',
       agent_sandbox_image_digest := Some ''sha256:d'', agent_allow_host_providers := False,
       agent_browser_gateway_url := Some ''b'', agent_email_gateway_url := Some ''e'',
       agent_calendar_gateway_url := Some ''c'', agent_vision_gateway_url := Some ''v'',
       agent_email_egress_hosts := ''smtp.example.com'',
       agent_calendar_egress_hosts := ''dav.example.com'',
       agent_egress_proxy_url := Some ''p'', agent_egress_proxy_audit_url := Some ''a'',
       agent_receipt_signing_key := Some ''pem''\<rparr>"

lemma hardened_passes:
  "validate_production_security (\<lambda>_. None) (\<lambda>_. Some True) (hardened default_settings) =
     Inr (hardened default_settings)"
  by code_simp

theorem production_gate_sound_witness:
  "is_production (hardened default_settings) \<and> auth_required (hardened default_settings)"
  using production_gate_sound [OF hardened_passes] by (simp add: hardened_def is_production_def)

text \<open>
  The placeholder secret that the settings ship with is accepted in production: it is
  spelled with hyphens and the gate looks for an underscore, so no configuration is ever
  rejected for keeping the default secret.
\<close>

theorem placeholder_secret_accepted:
  assumes "secret_key c = secret_key default_settings"
  shows "validate_production_security read_text load_private c \<noteq> Inl BadSecretKey"
proof -
  have "\<not> (length (secret_key default_settings) < 32 \<or>
      py_contains ''change_me'' (py_lower (secret_key default_settings)))"
    by code_simp
  with assms show ?thesis
    unfolding validate_production_security_def by (simp split: option.splits)
qed

theorem placeholder_secret_accepted_witness:
  "is_production (hardened default_settings) \<and>
   validate_production_security (\<lambda>_. None) (\<lambda>_. Some True) (hardened default_settings)
     \<noteq> Inl BadSecretKey"
  using placeholder_secret_accepted [of "hardened default_settings"]
  by (simp add: hardened_def is_production_def)

end
