(* ===== verification/Transition.thy ===== *)
theory Transition
  imports Prelude
begin

text \<open>
  Deterministic, guarded state machines. Many components of the program are an operation on
  a stored record that either refuses (raises) or returns the updated record: the loop
  policy, the step ledger, the change set, the worker. \<open>exec\<close> runs a sequence of such
  operations. The locale \<open>invariant_machine\<close> states what every component owes (an accepted
  operation keeps its invariant) and \<open>guarded_machine\<close> adds final states and a counter of the
  accepted operations; both give what a client may rely on for whole runs.
\<close>

fun exec :: "('s \<Rightarrow> 'l \<Rightarrow> 's option) \<Rightarrow> 's \<Rightarrow> 'l list \<Rightarrow> 's option" where
  "exec step s [] = Some s"
| "exec step s (l # ls) = (case step s l of None \<Rightarrow> None | Some t \<Rightarrow> exec step t ls)"

lemma exec_append:
  "exec step s (xs @ ys) = (case exec step s xs of None \<Rightarrow> None | Some t \<Rightarrow> exec step t ys)"
  by (induction xs arbitrary: s) (auto split: option.splits)

lemma exec_snoc:
  "exec step s (xs @ [x]) = (case exec step s xs of None \<Rightarrow> None | Some t \<Rightarrow> step t x)"
  by (simp add: exec_append split: option.splits)

lemma exec_ConsE:
  assumes "exec step s (l # ls) = Some t"
  obtains u where "step s l = Some u" "exec step u ls = Some t"
  using assms by (auto split: option.splits)

text \<open>The states a run passes through, the first one included.\<close>

fun trail :: "('s \<Rightarrow> 'l \<Rightarrow> 's option) \<Rightarrow> 's \<Rightarrow> 'l list \<Rightarrow> 's list" where
  "trail step s [] = [s]"
| "trail step s (l # ls) =
     s # (case step s l of None \<Rightarrow> [] | Some t \<Rightarrow> trail step t ls)"

inductive reaches :: "('s \<Rightarrow> 'l \<Rightarrow> 's option) \<Rightarrow> 's \<Rightarrow> 's \<Rightarrow> bool"
  for step :: "'s \<Rightarrow> 'l \<Rightarrow> 's option" where
  reaches_refl: "reaches step s s"
| reaches_step: "reaches step s t \<Longrightarrow> step t l = Some u \<Longrightarrow> reaches step s u"

lemma exec_reaches: "exec step s ls = Some t \<Longrightarrow> reaches step s t"
proof (induction ls arbitrary: t rule: rev_induct)
  case Nil
  then show ?case by (simp add: reaches_refl)
next
  case (snoc l ls)
  then show ?case
    by (auto simp: exec_snoc split: option.splits intro: reaches_step)
qed

lemma reaches_exec: "reaches step s t \<Longrightarrow> \<exists>ls. exec step s ls = Some t"
proof (induction rule: reaches.induct)
  case (reaches_refl s)
  show ?case by (rule exI [of _ "[]"]) simp
next
  case (reaches_step s t l u)
  then obtain ls where "exec step s ls = Some t" by blast
  with reaches_step have "exec step s (ls @ [l]) = Some u" by (simp add: exec_snoc)
  then show ?case by blast
qed

lemma reaches_iff_exec: "reaches step s t \<longleftrightarrow> (\<exists>ls. exec step s ls = Some t)"
  using exec_reaches reaches_exec by metis

locale invariant_machine =
  fixes step :: "'s \<Rightarrow> 'l \<Rightarrow> 's option"
    and inv :: "'s \<Rightarrow> bool"
  assumes step_inv: "inv s \<Longrightarrow> step s l = Some t \<Longrightarrow> inv t"
begin

lemma run_inv: "inv s \<Longrightarrow> exec step s ls = Some t \<Longrightarrow> inv t"
  by (induction ls arbitrary: s) (auto split: option.splits intro: step_inv)

lemma trail_inv: "inv s \<Longrightarrow> u \<in> set (trail step s ls) \<Longrightarrow> inv u"
  by (induction ls arbitrary: s) (auto split: option.splits dest: step_inv [OF _ sym])

lemma reaches_inv: "reaches step s t \<Longrightarrow> inv s \<Longrightarrow> inv t"
  by (induction rule: reaches.induct) (auto intro: step_inv)

end

locale guarded_machine = invariant_machine step inv
  for step :: "'s \<Rightarrow> 'l \<Rightarrow> 's option" and inv :: "'s \<Rightarrow> bool" +
  fixes final :: "'s \<Rightarrow> bool"
    and clock :: "'s \<Rightarrow> int"
  assumes final_stuck: "final s \<Longrightarrow> step s l = None"
    and step_clock: "step s l = Some t \<Longrightarrow> clock t = clock s + 1"
begin

lemma run_clock: "exec step s ls = Some t \<Longrightarrow> clock t = clock s + int (length ls)"
  by (induction ls arbitrary: s) (auto split: option.splits dest: step_clock)

lemma final_absorbs: "final s \<Longrightarrow> exec step s ls = Some t \<Longrightarrow> ls = [] \<and> t = s"
  by (cases ls) (auto simp: final_stuck)

lemma final_only_last:
  assumes "exec step s ls = Some t" "k < length ls" "exec step s (take k ls) = Some u"
  shows "\<not> final u"
proof
  assume "final u"
  have "exec step s (take k ls @ drop k ls) = Some t" using assms(1) by simp
  then have "exec step u (drop k ls) = Some t"
    using assms(3) by (simp only: exec_append option.case)
  with \<open>final u\<close> have "drop k ls = []" using final_absorbs by blast
  with assms(2) show False by simp
qed

end

end
