(* ===== verification/Progress.thy ===== *)
theory Progress
  imports Py_Json Sha256 Tool_Base Config Transition
begin

text \<open>
  \<^verbatim>\<open>services/progress.py\<close>: the bounded rendering of the step history, the signatures that
  make two actions count as the same, and the guard that detects a run without progress.
  \<^verbatim>\<open>shlex.split\<close> and \<^verbatim>\<open>Path(p).name\<close> of the standard library are modelled here.
\<close>

section \<open>Text\<close>

text \<open>\<^verbatim>\<open>re.sub(r"\s+", " ", s)\<close>.\<close>

fun collapse_ws :: "bool \<Rightarrow> string \<Rightarrow> string" where
  "collapse_ws in_ws [] = []"
| "collapse_ws in_ws (c # s) =
     (if py_isspace c then (if in_ws then collapse_ws True s else CHR '' '' # collapse_ws True s)
      else c # collapse_ws False s)"

definition normalise :: "json \<Rightarrow> nat \<Rightarrow> string" where
  "normalise v limit = take limit (py_lower (py_strip (collapse_ws False (py_str v))))"

definition compact :: "json \<Rightarrow> nat \<Rightarrow> string" where
  "compact v limit = take limit (py_strip (collapse_ws False (py_str v)))"

section \<open>\<^verbatim>\<open>shlex.split\<close> and \<^verbatim>\<open>Path.name\<close>\<close>

datatype shlex_mode =
    Blank
  | InWord
  | Quoted char
  | Escaped shlex_mode

definition shlex_blank :: "char \<Rightarrow> bool" where
  "shlex_blank c = (c = CHR '' '' \<or> c = CHR 0x09 \<or> c = CHR 0x0D \<or> c = CHR 0x0A)"

definition is_quote :: "char \<Rightarrow> bool" where
  "is_quote c = (c = CHR 0x22 \<or> c = CHR 0x27)"

text \<open>The POSIX state machine; \<open>None\<close> is the \<^verbatim>\<open>ValueError\<close> of an open quote or escape.
  The flag remembers that the current word had a quote, so that an empty one is kept.\<close>

fun shlex_run :: "shlex_mode \<Rightarrow> string \<Rightarrow> bool \<Rightarrow> string \<Rightarrow> string list option" where
  "shlex_run Blank acc q [] = Some []"
| "shlex_run InWord acc q [] = Some (if acc = [] \<and> \<not> q then [] else [rev acc])"
| "shlex_run (Quoted c) acc q [] = None"
| "shlex_run (Escaped m) acc q [] = None"
| "shlex_run Blank acc q (c # s) =
     (if shlex_blank c then shlex_run Blank [] False s
      else if c = CHR 0x5C then shlex_run (Escaped InWord) [] False s
      else if is_quote c then shlex_run (Quoted c) [] True s
      else shlex_run InWord [c] False s)"
| "shlex_run InWord acc q (c # s) =
     (if shlex_blank c then
        (if acc = [] \<and> \<not> q then shlex_run Blank [] False s
         else map_option ((#) (rev acc)) (shlex_run Blank [] False s))
      else if is_quote c then shlex_run (Quoted c) acc True s
      else if c = CHR 0x5C then shlex_run (Escaped InWord) acc q s
      else shlex_run InWord (c # acc) q s)"
| "shlex_run (Quoted d) acc q (c # s) =
     (if c = d then shlex_run InWord acc True s
      else if c = CHR 0x5C \<and> d = CHR 0x22 then shlex_run (Escaped (Quoted d)) acc True s
      else shlex_run (Quoted d) (c # acc) True s)"
| "shlex_run (Escaped m) acc q (c # s) =
     (case m of
        Quoted d \<Rightarrow>
          shlex_run m (if c \<noteq> CHR 0x5C \<and> c \<noteq> d then c # CHR 0x5C # acc else c # acc) q s
      | _ \<Rightarrow> shlex_run InWord (c # acc) q s)"

definition shlex_split :: "string \<Rightarrow> string list option" where
  "shlex_split s = shlex_run Blank [] False s"

definition path_parts :: "string \<Rightarrow> string list" where
  "path_parts p = filter (\<lambda>x. x \<noteq> [] \<and> x \<noteq> ''.'') (split_char (CHR ''/'') p)"

definition path_name :: "string \<Rightarrow> string" where
  "path_name p = (if path_parts p = [] then [] else last (path_parts p))"

section \<open>History entries\<close>

record history_entry =
  he_number :: int
  he_thought :: string
  he_tool :: string
  he_args :: jdict
  he_observation :: string
  he_status :: tool_status

definition entry_limit :: "history_entry \<Rightarrow> nat" where
  "entry_limit e =
     (if he_tool e = ''read_file'' \<or> prefix ''sibyl_'' (he_tool e) \<or>
         prefix ''argus_'' (he_tool e) \<or> prefix ''browser_'' (he_tool e)
      then 1600 else 600)"

definition render_entry :: "nat option \<Rightarrow> history_entry \<Rightarrow> string" where
  "render_entry observation_limit e =
     (let preview = py_join '', ''
            (map (\<lambda>(k, v). k @ ''='' @ str_repr (take 60 (py_str v))) (he_args e));
          lim = (case observation_limit of None \<Rightarrow> entry_limit e | Some n \<Rightarrow> n);
          obs = (if length (he_observation e) \<le> lim then he_observation e
                 else take lim (he_observation e) @ '' '' @ ellipsis @
                        ''[observation preview truncated]'')
      in ''Step '' @ show_int (he_number e) @ '' ['' @ he_tool e @ ''] ('' @
         tool_status_value (he_status e) @ ''): '' @ he_thought e @ nl @
         ''  args: '' @ preview @ nl @ ''  -> [DATA] '' @ obs)"

section \<open>Action signatures\<close>

definition mutation_tools :: "string list" where
  "mutation_tools = [''write_file'', ''edit_file'']"

definition sig_join :: "string list \<Rightarrow> string" where
  "sig_join parts = py_join '':'' parts"

definition command_signature :: "string \<Rightarrow> nat \<Rightarrow> string \<times> bool" where
  "command_signature command revision =
     (let parts = (case shlex_split command of None \<Rightarrow> py_words command | Some ps \<Rightarrow> ps)
      in if parts = [] then (sig_join [''command'', show_nat revision, ''(empty)''], False)
         else
           (let executable = py_lower (path_name (hd parts));
                values = filter (\<lambda>p. \<not> prefix ''-'' p) (tl parts);
                norm = (\<lambda>s. normalise (JStr s) 160)
            in if executable \<in> {''cat'', ''head'', ''tail'', ''wc'', ''sed''} \<and> values \<noteq> []
               then (sig_join [''inspect'', show_nat revision, norm (last values)], True)
               else if executable \<in> {''grep'', ''rg''}
               then (sig_join [''search'', show_nat revision,
                       norm (if values = [] then [] else hd values),
                       norm (if 1 < length values then last values else ''.'')], True)
               else if executable \<in> {''find'', ''ls''}
               then (sig_join [''explore'', show_nat revision, executable,
                       norm (py_join '' '' values)], True)
               else (sig_join [''command'', show_nat revision, normalise (JStr command) 240], False)))"

text \<open>\<^verbatim>\<open>next((args[k] for k in keys if args.get(k)), default)\<close>.\<close>

fun first_truthy :: "jdict \<Rightarrow> string list \<Rightarrow> json \<Rightarrow> json" where
  "first_truthy args [] dflt = dflt"
| "first_truthy args (k # ks) dflt =
     (if truthy (dget args k) then dget args k else first_truthy args ks dflt)"

definition action_signature :: "string \<Rightarrow> jdict \<Rightarrow> nat \<Rightarrow> string \<times> bool" where
  "action_signature tool args revision =
     (let rev_s = show_nat revision in
      if tool \<in> set mutation_tools then
        (let path = normalise (dget_or args ''path'' (JStr [])) 160;
             payload = py_str (dget_or args ''content'' (dget_or args ''new'' (JStr [])))
         in (sig_join [''mutate'', path, take 12 (sha256_hex payload)], False))
      else if tool = ''read_file'' then
        (sig_join [''inspect'', rev_s, normalise (dget_or args ''path'' (JStr [])) 160], True)
      else if tool = ''run_command'' then
        command_signature (py_str (dget_or args ''command'' (JStr []))) revision
      else if prefix ''browser_'' tool then
        (let target = first_truthy args [''url'', ''query'', ''ref'', ''selector'', ''text''] (JObj args)
         in (sig_join [''browser'', rev_s, tool, normalise target 240],
             py_contains ''navigate'' tool \<or> py_contains ''search'' tool \<or> py_contains ''snapshot'' tool))
      else if prefix ''sibyl_'' tool then
        (sig_join [''research'', rev_s, tool,
           normalise (or_json (dget args ''query'') (or_json (dget args ''url'') (JObj args))) 240], True)
      else if tool \<in> {''read_inbox'', ''list_events'', ''see_image''} then
        (sig_join [''inspect'', rev_s, tool, normalise (JObj args) 240], True)
      else (sig_join [tool, rev_s, normalise (JObj args) 240], False))"

section \<open>Compacted history\<close>

record digest_state =
  ds_touched :: "string list"
  ds_outcomes :: "string list"
  ds_failures :: "string list"
  ds_attempts :: "(string \<times> nat) list"
  ds_revision :: nat

definition count_of :: "(string \<times> nat) list \<Rightarrow> string \<Rightarrow> nat" where
  "count_of m k = (case map_of m k of None \<Rightarrow> 0 | Some n \<Rightarrow> n)"

definition bump :: "string \<Rightarrow> (string \<times> nat) list \<Rightarrow> (string \<times> nat) list" where
  "bump k m = AList.update k (count_of m k + 1) m"

definition digest_entry :: "history_entry \<Rightarrow> digest_state \<Rightarrow> digest_state" where
  "digest_entry e st =
     (let (sig, exploratory) = action_signature (he_tool e) (he_args e) (ds_revision st);
          target = or_json (dget (he_args e) ''path'')
                     (or_json (dget (he_args e) ''command'') (dget (he_args e) ''url''));
          compact_target = compact target 120;
          mutating = (he_tool e \<in> set mutation_tools);
          outcome = compact (JStr (he_observation e)) 180;
          line = ''step '' @ show_int (he_number e) @ '' '' @ he_tool e @ ''('' @ compact target 80 @
                 ''): [DATA] '' @ (if outcome = [] then ''no output'' else outcome);
          ok = (he_status e = OkStatus);
          shown = (he_tool e \<in> {''ask_user'', ''finish'', ''run_command'', ''spawn''} \<or> exploratory)
      in \<lparr>ds_touched =
            (if mutating \<and> compact_target \<noteq> [] \<and> compact_target \<notin> set (ds_touched st)
             then ds_touched st @ [compact_target] else ds_touched st),
          ds_outcomes = (if ok \<and> shown then ds_outcomes st @ [line] else ds_outcomes st),
          ds_failures = (if ok then ds_failures st else ds_failures st @ [line]),
          ds_attempts = bump (takeWhile (\<lambda>c. c \<noteq> CHR '':'') sig) (ds_attempts st),
          ds_revision = (if mutating \<and> ok then ds_revision st + 1 else ds_revision st)\<rparr>)"

definition empty_digest :: digest_state where
  "empty_digest =
     \<lparr>ds_touched = [], ds_outcomes = [], ds_failures = [], ds_attempts = [], ds_revision = 0\<rparr>"

definition bullet :: "string \<Rightarrow> string" where
  "bullet line = ''- '' @ line"

definition compact_history :: "history_entry list \<Rightarrow> string" where
  "compact_history entries =
     (let st = fold digest_entry entries empty_digest
      in py_join nl
        ([''[COMPACTED EARLIER STATE '' @ em_dash @ '' do not retry failed branches without new evidence]'']
         @ (if ds_touched st = [] then []
            else [''[DATA] Artifacts touched: '' @ py_join '', '' (take 12 (ds_touched st))])
         @ (if ds_outcomes st = [] then []
            else [''Evidence/results:'' @ nl @ py_join nl (map bullet (last_n 8 (ds_outcomes st)))])
         @ (if ds_failures st = [] then []
            else [''Failed/blocked branches:'' @ nl @ py_join nl (map bullet (last_n 8 (ds_failures st)))])
         @ [''[DATA] Action mix: '' @
              py_join '', '' (map (\<lambda>(k, n). k @ ''='' @ show_nat n) (ds_attempts st))]))"

section \<open>The progress guard\<close>

record guard =
  g_revision :: nat
  g_counts :: "(string \<times> nat) list"
  g_evidence :: "string set"
  g_exploration :: "string set"
  g_unchecked :: "string set"
  g_no_progress :: nat

definition new_guard :: guard where
  "new_guard =
     \<lparr>g_revision = 0, g_counts = [], g_evidence = {}, g_exploration = {}, g_unchecked = {},
      g_no_progress = 0\<rparr>"

definition repeat_limit :: "settings \<Rightarrow> string \<Rightarrow> string \<Rightarrow> int" where
  "repeat_limit c tool sig =
     (if prefix ''sibyl_'' tool \<or> prefix ''inspect:'' sig then 1 else agent_repeated_action_limit c)"

definition repeated_message :: "string \<Rightarrow> nat \<Rightarrow> string" where
  "repeated_message sig n =
     ''Blocked: semantically equivalent action '' @ [apos_ch] @ sig @ [apos_ch] @ '' already ran '' @
     show_nat n @ '' times in the current workspace state. '' @
     ''Use the evidence already collected, change the workspace, or take a different branch.''"

definition branch_message :: "int \<Rightarrow> string" where
  "branch_message n =
     ''Blocked: exploration branch cap ('' @ show_int n @ '') '' @
     ''reached without changing the workspace. Implement from the evidence, run a '' @
     ''verification, ask the user if genuinely blocked, or finish.''"

definition preflight :: "settings \<Rightarrow> guard \<Rightarrow> string \<Rightarrow> jdict \<Rightarrow> string option" where
  "preflight c g tool args =
     (let (sig, exploratory) = action_signature tool args (g_revision g);
          n = count_of (g_counts g) sig
      in if tool \<notin> set mutation_tools \<and> repeat_limit c tool sig \<le> int n
         then Some (repeated_message sig n)
         else if exploratory \<and> sig \<notin> g_exploration g \<and>
                 agent_exploration_branch_cap c \<le> int (card (g_exploration g))
         then Some (branch_message (agent_exploration_branch_cap c))
         else None)"

definition inspect_signature :: "nat \<Rightarrow> string \<Rightarrow> string" where
  "inspect_signature revision path = sig_join [''inspect'', show_nat revision, path]"

text \<open>\<^verbatim>\<open>permit_diagnostic_reinspection\<close> for a path, or for all unchecked paths.\<close>

definition permit_paths :: "string set \<Rightarrow> guard \<Rightarrow> guard" where
  "permit_paths paths g =
     (let sigs = inspect_signature (g_revision g) ` (paths - {[]})
      in g\<lparr>g_counts := filter (\<lambda>(k, n). k \<notin> sigs) (g_counts g),
           g_exploration := g_exploration g - sigs\<rparr>)"

definition permit_reinspection :: "string option \<Rightarrow> guard \<Rightarrow> guard" where
  "permit_reinspection path g =
     permit_paths
       (case path of
          None \<Rightarrow> g_unchecked g
        | Some p \<Rightarrow> if p = [] then g_unchecked g else {normalise (JStr p) 160}) g"

definition evidence_key :: "nat \<Rightarrow> string \<Rightarrow> string" where
  "evidence_key revision obs =
     show_nat revision @ '':'' @ sha256_hex (normalise (JStr obs) 2000)"

definition count_action :: "string \<Rightarrow> bool \<Rightarrow> guard \<Rightarrow> guard" where
  "count_action sig exploratory g =
     g\<lparr>g_counts := bump sig (g_counts g),
       g_exploration := (if exploratory then insert sig (g_exploration g) else g_exploration g)\<rparr>"

definition new_revision :: "string \<Rightarrow> jdict \<Rightarrow> guard \<Rightarrow> guard" where
  "new_revision tool args g =
     (let g1 = g\<lparr>g_revision := g_revision g + 1, g_exploration := {}\<rparr>
      in if tool \<in> set mutation_tools then
           (let path = normalise (dget_or args ''path'' (JStr [])) 160
            in g1\<lparr>g_unchecked := (if path = [] then g_unchecked g else insert path (g_unchecked g)),
                  g_counts := AList.update (inspect_signature (g_revision g1) path) 1 (g_counts g1)\<rparr>)
         else g1)"

definition observe_progress ::
  "guard \<Rightarrow> string \<Rightarrow> jdict \<Rightarrow> string \<Rightarrow> tool_status \<Rightarrow> bool \<Rightarrow> bool \<Rightarrow> bool \<Rightarrow> guard \<times> bool" where
  "observe_progress g tool args obs st force changed seen =
     (if st = OkStatus \<and> (tool \<in> set mutation_tools \<or> changed) then
        (new_revision tool args g, (\<not> seen \<or> changed) \<and> \<not> force)
      else if st = OkStatus \<or> tool = ''run_command'' \<and> st = ErrorStatus then
        (let key = evidence_key (g_revision g) obs
         in (g\<lparr>g_evidence := insert key (g_evidence g)\<rparr>, key \<notin> g_evidence g \<and> \<not> force))
      else (g, False))"

definition after_status :: "string \<Rightarrow> jdict \<Rightarrow> tool_status \<Rightarrow> guard \<Rightarrow> guard" where
  "after_status tool args st g =
     (if tool = ''run_command'' then
        (if st = ErrorStatus then permit_reinspection None g
         else if st = OkStatus then g\<lparr>g_unchecked := {}\<rparr>
         else g)
      else if tool \<in> set mutation_tools \<and> st = ErrorStatus
      then permit_reinspection (Some (py_str (dget_or args ''path'' (JStr [])))) g
      else g)"

definition observe ::
  "guard \<Rightarrow> string \<Rightarrow> jdict \<Rightarrow> string \<Rightarrow> tool_status \<Rightarrow> bool \<Rightarrow> bool \<Rightarrow> guard \<times> bool" where
  "observe g tool args obs st force changed =
     (let (sig, exploratory) = action_signature tool args (g_revision g);
          seen = (0 < count_of (g_counts g) sig);
          g1 = count_action sig exploratory g;
          (g2, progress) = observe_progress g1 tool args obs st force changed seen;
          g3 = after_status tool args st g2
      in (g3\<lparr>g_no_progress := (if progress then 0 else g_no_progress g3 + 1)\<rparr>, progress))"

definition guard_of_history :: "history_entry list \<Rightarrow> guard" where
  "guard_of_history entries =
     foldl (\<lambda>g e. fst (observe g (he_tool e) (he_args e) (he_observation e) (he_status e) False False))
       new_guard entries"

definition guard_state :: "settings \<Rightarrow> guard \<Rightarrow> int \<Rightarrow> string" where
  "guard_state c g reserve =
     ''workspace revision='' @ show_nat (g_revision g) @ ''; exploration branches='' @
     show_nat (card (g_exploration g)) @ ''/'' @ show_int (agent_exploration_branch_cap c) @
     ''; consecutive no-progress actions='' @ show_nat (g_no_progress g) @ ''/'' @
     show_int (agent_stuck_threshold c) @ ''; verification reserve='' @ show_int reserve @ '' tokens''"

section \<open>Guarded runs\<close>

text \<open>An action the preflight lets through, then its observation.\<close>

record action =
  ac_tool :: string
  ac_args :: jdict
  ac_obs :: string
  ac_status :: tool_status
  ac_force :: bool
  ac_changed :: bool

definition guarded_step :: "settings \<Rightarrow> guard \<Rightarrow> action \<Rightarrow> guard option" where
  "guarded_step c g a =
     (case preflight c g (ac_tool a) (ac_args a) of
        Some _ \<Rightarrow> None
      | None \<Rightarrow>
          Some (fst (observe g (ac_tool a) (ac_args a) (ac_obs a) (ac_status a) (ac_force a)
            (ac_changed a))))"

definition within_cap :: "settings \<Rightarrow> guard \<Rightarrow> bool" where
  "within_cap c g =
     (finite (g_exploration g) \<and> int (card (g_exploration g)) \<le> agent_exploration_branch_cap c)"

lemma permit_paths_simps [simp]:
  "g_revision (permit_paths ps g) = g_revision g"
  "g_evidence (permit_paths ps g) = g_evidence g"
  "g_unchecked (permit_paths ps g) = g_unchecked g"
  "g_no_progress (permit_paths ps g) = g_no_progress g"
  by (simp_all add: permit_paths_def Let_def)

lemma permit_paths_exploration: "g_exploration (permit_paths ps g) \<subseteq> g_exploration g"
  by (auto simp: permit_paths_def Let_def)

lemma after_status_exploration: "g_exploration (after_status tool args st g) \<subseteq> g_exploration g"
  using permit_paths_exploration by (auto simp: after_status_def permit_reinspection_def)

lemma after_status_simps [simp]:
  "g_revision (after_status tool args st g) = g_revision g"
  "g_no_progress (after_status tool args st g) = g_no_progress g"
  by (simp_all add: after_status_def permit_reinspection_def)

lemma new_revision_simps [simp]:
  "g_revision (new_revision tool args g) = g_revision g + 1"
  "g_exploration (new_revision tool args g) = {}"
  "g_no_progress (new_revision tool args g) = g_no_progress g"
  by (simp_all add: new_revision_def Let_def)

lemma count_action_simps [simp]:
  "g_revision (count_action sig ex g) = g_revision g"
  "g_no_progress (count_action sig ex g) = g_no_progress g"
  "g_evidence (count_action sig ex g) = g_evidence g"
  "g_exploration (count_action sig ex g) =
     (if ex then insert sig (g_exploration g) else g_exploration g)"
  by (simp_all add: count_action_def)

lemma observe_unfold:
  "observe g tool args obs st force changed =
     (let sig = fst (action_signature tool args (g_revision g));
          ex = snd (action_signature tool args (g_revision g));
          op = observe_progress (count_action sig ex g) tool args obs st force changed
                 (0 < count_of (g_counts g) sig);
          g3 = after_status tool args st (fst op)
      in (g3\<lparr>g_no_progress := (if snd op then 0 else g_no_progress g3 + 1)\<rparr>, snd op))"
  by (simp add: observe_def Let_def split: prod.splits)

lemma observe_progress_simps:
  "g_no_progress (fst (observe_progress g tool args obs st force changed seen)) = g_no_progress g"
  "g_revision (fst (observe_progress g tool args obs st force changed seen)) =
     (if st = OkStatus \<and> (tool \<in> set mutation_tools \<or> changed) then g_revision g + 1 else g_revision g)"
  "g_exploration (fst (observe_progress g tool args obs st force changed seen)) =
     (if st = OkStatus \<and> (tool \<in> set mutation_tools \<or> changed) then {} else g_exploration g)"
  by (simp_all add: observe_progress_def Let_def)

lemma observe_exploration:
  "g_exploration (fst (observe g tool args obs st force changed)) \<subseteq>
     (if snd (action_signature tool args (g_revision g))
      then insert (fst (action_signature tool args (g_revision g))) (g_exploration g)
      else g_exploration g)"
proof -
  let ?a = "action_signature tool args (g_revision g)"
  let ?op = "observe_progress (count_action (fst ?a) (snd ?a) g) tool args obs st force changed
     (0 < count_of (g_counts g) (fst ?a))"
  have "g_exploration (fst (observe g tool args obs st force changed)) =
      g_exploration (after_status tool args st (fst ?op))"
    by (simp add: observe_unfold Let_def)
  also have "\<dots> \<subseteq> g_exploration (fst ?op)" by (rule after_status_exploration)
  also have "\<dots> \<subseteq> g_exploration (count_action (fst ?a) (snd ?a) g)"
    by (simp add: observe_progress_simps)
  finally show ?thesis by simp
qed

lemma guarded_step_within_cap:
  assumes "within_cap c g" "guarded_step c g a = Some g'"
  shows "within_cap c g'"
proof -
  let ?a = "action_signature (ac_tool a) (ac_args a) (g_revision g)"
  have pre: "preflight c g (ac_tool a) (ac_args a) = None"
    and g': "g' = fst (observe g (ac_tool a) (ac_args a) (ac_obs a) (ac_status a) (ac_force a) (ac_changed a))"
    using assms(2) by (auto simp: guarded_step_def split: option.splits)
  let ?E = "if snd ?a then insert (fst ?a) (g_exploration g) else g_exploration g"
  have sub: "g_exploration g' \<subseteq> ?E" unfolding g' by (rule observe_exploration)
  have fin: "finite ?E" using assms(1) by (simp add: within_cap_def)
  have "int (card ?E) \<le> agent_exploration_branch_cap c"
    using assms(1) pre
    by (auto simp: within_cap_def preflight_def Let_def card_insert_if split: prod.splits if_splits)
  moreover have "card (g_exploration g') \<le> card ?E" using sub fin by (rule card_mono [rotated])
  ultimately show ?thesis using finite_subset [OF sub fin] by (simp add: within_cap_def)
qed

interpretation gd: invariant_machine "guarded_step c" "within_cap c" for c
  by unfold_locales (rule guarded_step_within_cap)

section \<open>Properties\<close>

text \<open>
  In a run in which every action passed the preflight, the exploration branches open in
  one workspace state never exceed the configured cap.
\<close>

theorem exploration_capped:
  assumes "0 \<le> agent_exploration_branch_cap c" "exec (guarded_step c) new_guard acts = Some g"
  shows "int (card (g_exploration g)) \<le> agent_exploration_branch_cap c"
proof -
  have "within_cap c new_guard" using assms(1) by (simp add: within_cap_def new_guard_def)
  from gd.run_inv [OF this assms(2)] show ?thesis by (simp add: within_cap_def)
qed

definition sample_action :: action where
  "sample_action =
     \<lparr>ac_tool = ''read_file'', ac_args = [(''path'', JStr ''a.py'')], ac_obs = ''x'',
      ac_status = OkStatus, ac_force = False, ac_changed = False\<rparr>"

lemma sample_signature:
  "action_signature ''read_file'' [(''path'', JStr ''a.py'')] 0 = (''inspect:0:a.py'', True)"
  by code_simp

lemma sample_preflight: "preflight default_settings new_guard ''read_file'' [(''path'', JStr ''a.py'')] = None"
  by (simp add: preflight_def new_guard_def sample_signature default_settings_def count_of_def
      repeat_limit_def)

theorem exploration_capped_witness:
  "\<exists>g. exec (guarded_step default_settings) new_guard [sample_action] = Some g \<and>
     int (card (g_exploration g)) \<le> 8"
proof -
  obtain g where g: "exec (guarded_step default_settings) new_guard [sample_action] = Some g"
    by (auto simp: guarded_step_def sample_action_def sample_preflight)
  from exploration_capped [OF _ this] g show ?thesis by (simp add: default_settings_def)
qed

text \<open>
  The guard counts honestly: an observation resets the no-progress counter exactly when
  it reports progress and otherwise adds one; it never reports progress on a blocked action,
  on a failed one other than a command, or on evidence already seen in this workspace state;
  and the workspace revision advances exactly on a successful mutation.
\<close>

theorem observe_counts:
  "case observe g tool args obs st force changed of (g', progress) \<Rightarrow>
     g_no_progress g' = (if progress then 0 else g_no_progress g + 1) \<and>
     g_revision g' = (if st = OkStatus \<and> (tool \<in> set mutation_tools \<or> changed)
                      then g_revision g + 1 else g_revision g) \<and>
     (progress \<longrightarrow> \<not> force \<and> st \<noteq> BlockedStatus \<and> (st = ErrorStatus \<longrightarrow> tool = ''run_command'')) \<and>
     (progress \<and> tool \<notin> set mutation_tools \<and> \<not> changed \<longrightarrow>
        evidence_key (g_revision g) obs \<notin> g_evidence g)"
proof -
  have "snd (observe_progress g1 tool args obs st force changed seen) \<Longrightarrow>
      \<not> force \<and> st \<noteq> BlockedStatus \<and> (st = ErrorStatus \<longrightarrow> tool = ''run_command'') \<and>
      (tool \<notin> set mutation_tools \<and> \<not> changed \<longrightarrow>
         evidence_key (g_revision g1) obs \<notin> g_evidence g1)" for g1 seen
    by (cases st) (auto simp: observe_progress_def Let_def split: if_splits)
  note claim = this
  define sig ex where "sig = fst (action_signature tool args (g_revision g))"
    and "ex = snd (action_signature tool args (g_revision g))"
  define op where "op = observe_progress (count_action sig ex g) tool args obs st force changed
    (0 < count_of (g_counts g) sig)"
  have o: "observe g tool args obs st force changed =
      ((after_status tool args st (fst op))
         \<lparr>g_no_progress := (if snd op then 0 else g_no_progress (fst op) + 1)\<rparr>, snd op)"
    by (simp add: observe_unfold Let_def op_def sig_def ex_def)
  have "g_no_progress (fst op) = g_no_progress g"
    "g_revision (fst op) = (if st = OkStatus \<and> (tool \<in> set mutation_tools \<or> changed)
       then g_revision g + 1 else g_revision g)"
    by (simp_all add: op_def observe_progress_simps)
  then show ?thesis
    using claim [of "count_action sig ex g" "0 < count_of (g_counts g) sig", folded op_def]
    unfolding o by simp
qed

theorem observe_counts_witness:
  "g_no_progress (fst (observe new_guard ''run_command'' [] ''exit code 1'' BlockedStatus False False)) = 1"
  using observe_counts [where g = new_guard and tool = "''run_command''" and args = "[]" and
      obs = "''exit code 1''" and st = BlockedStatus and force = False and changed = False]
  by (auto simp: new_guard_def split: prod.splits)

end
