(* ===== verification/Loop_Services.thy ===== *)
theory Loop_Services
  imports Completion Progress
begin

text \<open>
  \<^verbatim>\<open>services/loop/\<close>: the policies the agent loop consults. They split the token budget,
  render the planner's history, read one decision out of a model reply, bound delegation,
  route an action and turn a verdict with its evidence into one acceptance decision.
\<close>

section \<open>Token allocation (\<^verbatim>\<open>context.py\<close>)\<close>

record context_budget =
  cb_total :: int
  cb_used :: int
  cb_reserve :: int

definition allocate_budget :: "int \<Rightarrow> int \<Rightarrow> int \<Rightarrow> context_budget" where
  "allocate_budget total_tokens used reserve_cap =
     \<lparr>cb_total = total_tokens, cb_used = used,
      cb_reserve = min reserve_cap (min (max 250 (total_tokens div 5)) (max 0 (total_tokens div 2)))\<rparr>"

definition cb_remaining :: "context_budget \<Rightarrow> int" where
  "cb_remaining b = max 0 (cb_total b - cb_used b)"

definition cb_planning :: "context_budget \<Rightarrow> int" where
  "cb_planning b = max 0 (cb_remaining b - cb_reserve b)"

definition verification_after :: "context_budget \<Rightarrow> int \<Rightarrow> int" where
  "verification_after b planning_tokens = max 0 (cb_remaining b - planning_tokens)"

definition delegation_after :: "context_budget \<Rightarrow> int \<Rightarrow> int" where
  "delegation_after b planning_tokens = max 0 (cb_remaining b - planning_tokens)"

section \<open>The planner's history\<close>

definition render_latest :: "history_entry \<Rightarrow> string" where
  "render_latest e =
     render_entry (if he_tool e \<in> {''run_command'', ''read_file''} then Some 2400 else None) e"

definition render_recent :: "history_entry list \<Rightarrow> string list" where
  "render_recent entries =
     (if entries = [] then []
      else map (render_entry None) (butlast entries) @ [render_latest (last entries)])"

definition render_window :: "nat \<Rightarrow> history_entry list \<Rightarrow> string" where
  "render_window recent_steps entries =
     (if length entries \<le> recent_steps then
        (let s = py_join nl (render_recent entries)
         in if s = [] then ''(nothing yet)'' else s)
      else
        compact_history (take (length entries - recent_steps) entries) @ nl @ nl @
        ''[RECENT STEPS]'' @ nl @ py_join nl (render_recent (last_n recent_steps entries)))"

section \<open>Reading a decision (\<^verbatim>\<open>decisions.py\<close>)\<close>

record scan =
  sc_spans :: "string list"
  sc_depth :: nat
  sc_buffer :: string
  sc_in_string :: bool
  sc_escaped :: bool

text \<open>One character of \<^verbatim>\<open>_balanced_json_objects\<close>. The buffer is the text from the open
  outermost brace, reversed.\<close>

definition scan_char :: "char \<Rightarrow> scan \<Rightarrow> scan" where
  "scan_char c s0 =
     (let s = (if 0 < sc_depth s0 then s0\<lparr>sc_buffer := c # sc_buffer s0\<rparr> else s0)
      in if sc_in_string s then
           (if sc_escaped s then s\<lparr>sc_escaped := False\<rparr>
            else if c = bslash_ch then s\<lparr>sc_escaped := True\<rparr>
            else if c = quote_ch then s\<lparr>sc_in_string := False\<rparr>
            else s)
         else if c = quote_ch then s\<lparr>sc_in_string := True\<rparr>
         else if c = CHR ''{'' then
           (if sc_depth s = 0 then s\<lparr>sc_buffer := [c], sc_depth := 1\<rparr>
            else s\<lparr>sc_depth := sc_depth s + 1\<rparr>)
         else if c = CHR ''}'' \<and> 0 < sc_depth s then
           (if sc_depth s = 1
            then s\<lparr>sc_depth := 0, sc_spans := sc_spans s @ [rev (sc_buffer s)], sc_buffer := []\<rparr>
            else s\<lparr>sc_depth := sc_depth s - 1\<rparr>)
         else s)"

definition scan_start :: scan where
  "scan_start =
     \<lparr>sc_spans = [], sc_depth = 0, sc_buffer = [], sc_in_string = False, sc_escaped = False\<rparr>"

definition balanced_json_objects :: "string \<Rightarrow> string list" where
  "balanced_json_objects s = sc_spans (fold scan_char s scan_start)"

fun first_object :: "string list \<Rightarrow> json" where
  "first_object [] = JNull"
| "first_object (s # spans) =
     (case json_loads s of
        Some (JObj d) \<Rightarrow> JObj d
      | _ \<Rightarrow> first_object spans)"

definition fence :: regex where
  "fence = Cat (lit ''```'') (opt (lit ''json''))"

definition extract_json :: "string \<Rightarrow> json" where
  "extract_json reply =
     (let cleaned = py_strip (re_sub fence [] reply)
      in case json_loads cleaned of
           Some v \<Rightarrow> v
         | None \<Rightarrow> first_object (rev (balanced_json_objects cleaned)))"

record decision =
  de_thought :: string
  de_tool :: "string option"
  de_args :: jdict

definition parse_decision :: "string \<Rightarrow> string set \<Rightarrow> string set \<Rightarrow> decision" where
  "parse_decision content valid_tools dynamic_tools =
     (case extract_json content of
        JObj payload \<Rightarrow>
          (let thought = py_strip (py_str (dget_or payload ''thought'' (JStr [])));
               args = (case dget payload ''args'' of JObj d \<Rightarrow> d | _ \<Rightarrow> [])
           in case dget payload ''tool'' of
                JStr tool \<Rightarrow>
                  (if tool \<in> valid_tools \<union> dynamic_tools
                   then \<lparr>de_thought = thought, de_tool = Some tool, de_args = args\<rparr>
                   else \<lparr>de_thought = thought, de_tool = None, de_args = []\<rparr>)
              | _ \<Rightarrow> \<lparr>de_thought = thought, de_tool = None, de_args = []\<rparr>)
      | _ \<Rightarrow> \<lparr>de_thought = [], de_tool = None, de_args = []\<rparr>)"

section \<open>Bounding delegation (\<^verbatim>\<open>delegation.py\<close>)\<close>

definition as_int :: "json \<Rightarrow> int \<Rightarrow> int result" where
  "as_int v dflt =
     (case v of
        JNull \<Rightarrow> Inr dflt
      | JArr _ \<Rightarrow> Inr dflt
      | JObj _ \<Rightarrow> Inr dflt
      | _ \<Rightarrow>
          (case py_int v of
             Inr n \<Rightarrow> Inr n
           | Inl e \<Rightarrow> if e = TypeError \<or> e = ValueError then Inr dflt else Inl e))"

record delegation_policy =
  dp_minimum_budget :: int
  dp_default_steps :: int
  dp_max_steps :: int

record allocation =
  al_token_budget :: int
  al_max_steps :: int

definition allocate_child ::
  "delegation_policy \<Rightarrow> jdict \<Rightarrow> int \<Rightarrow> allocation option result" where
  "allocate_child p args remaining =
     (if remaining < dp_minimum_budget p then Inr None
      else
        (case as_int (dget args ''token_budget'') remaining of
           Inl e \<Rightarrow> Inl e
         | Inr tokens \<Rightarrow>
             (case as_int (dget args ''max_steps'') (dp_default_steps p) of
                Inl e \<Rightarrow> Inl e
              | Inr steps \<Rightarrow>
                  Inr (Some \<lparr>al_token_budget = max 1 (min tokens remaining),
                             al_max_steps = max 1 (min steps (dp_max_steps p))\<rparr>))))"

section \<open>Routing an action (\<^verbatim>\<open>dispatch.py\<close>)\<close>

datatype dispatch_route =
    Invalid string
  | Blocked string
  | Approval string
  | Execute

definition invalid_message :: "string list \<Rightarrow> string" where
  "invalid_message valid_tools =
     ''Could not parse a valid action. Respond with one JSON object using a valid tool: '' @
     py_repr (json_strs (sort valid_tools)) @ ''.''"

definition rewrite_message :: "string option \<Rightarrow> nat \<Rightarrow> string" where
  "rewrite_message path n =
     ''Blocked: you have written '' @ [apos_ch] @ (case path of None \<Rightarrow> ''None'' | Some p \<Rightarrow> p) @
     [apos_ch] @ '' '' @ show_nat n @ '' times without running it. '' @
     ''Writing it again is not allowed '' @ em_dash @ '' run it with '' @
     ''run_command, call finish with checks, or take a different action.''"

definition route ::
  "string option \<Rightarrow> string list \<Rightarrow> string option \<Rightarrow> nat \<Rightarrow> string option \<Rightarrow> string option \<Rightarrow>
     dispatch_route" where
  "route tool valid_tools guard_block repeated_write_count approval_reason last_write_path =
     (case tool of
        None \<Rightarrow> Invalid (invalid_message valid_tools)
      | Some t \<Rightarrow>
          if nonempty_opt guard_block then Blocked (the guard_block)
          else if t \<in> {''write_file'', ''edit_file''} \<and> 3 \<le> repeated_write_count
          then Blocked (rewrite_message last_write_path repeated_write_count)
          else (case approval_reason of Some r \<Rightarrow> Approval r | None \<Rightarrow> Execute))"

section \<open>Accepting a completion (\<^verbatim>\<open>verification.py\<close>)\<close>

definition clamp_score :: "int \<Rightarrow> int" where
  "clamp_score n = max 0 (min 100 n)"

definition score_of :: "json \<Rightarrow> int result" where
  "score_of v =
     (case (case py_float v of Inl e \<Rightarrow> Inl e | Inr x \<Rightarrow> int_of_float x) of
        Inr n \<Rightarrow> Inr (clamp_score n)
      | Inl e \<Rightarrow> if e = TypeError \<or> e = ValueError then Inr 0 else Inl e)"

record verification_decision =
  vd_accepted :: bool
  vd_score :: int
  vd_missing :: "string list"
  vd_verified_by :: string
  vd_coverage :: bool
  vd_gates :: bool

definition substantiated :: "json \<Rightarrow> bool" where
  "substantiated v =
     (case v of
        JBool b \<Rightarrow> b
      | JStr s \<Rightarrow> py_lower (py_strip s) \<in> {''true'', ''yes'', ''1''}
      | _ \<Rightarrow> False)"

text \<open>The verdict read from the verifier's reply: score, missing items, met, substantiated.\<close>

definition read_verdict :: "json \<Rightarrow> (int \<times> string list \<times> bool \<times> bool) result" where
  "read_verdict payload =
     (case payload of
        JObj d \<Rightarrow>
          (case score_of (dget d ''score'') of
             Inl e \<Rightarrow> Inl e
           | Inr score \<Rightarrow>
               Inr (score,
                    (case or_json (dget d ''missing'') (JArr []) of
                       JArr vs \<Rightarrow> map py_str vs
                     | _ \<Rightarrow> []),
                    truthy (dget d ''met''),
                    substantiated (dget_or d ''checks_substantiate'' (JBool True))))
      | _ \<Rightarrow> Inr (0, [''verifier returned no verdict''], False, True))"

definition strict_missing :: "check_result list \<Rightarrow> bool \<Rightarrow> bool \<Rightarrow> bool \<Rightarrow> string list" where
  "strict_missing results coverage gates supported =
     (if coverage then [] else [''Every success criterion needs a mapped execution check.''])
     @ (if gates then [] else [''A required check failed or a project quality gate regressed.''])
     @ (if results \<noteq> [] \<and> \<not> supported
        then [''The proposed checks do not substantiate the task goal.''] else [])"

definition evaluate_verdict ::
  "json \<Rightarrow> check_result list \<Rightarrow> nat \<Rightarrow> int \<Rightarrow> bool \<Rightarrow> bool \<Rightarrow> verification_decision result" where
  "evaluate_verdict payload results criterion_count acceptance_score strict authoritative =
     (case read_verdict payload of
        Inl e \<Rightarrow> Inl e
      | Inr (score, missing, met, substantiates) \<Rightarrow>
          (let gates = completion_gates_pass results;
               coverage = execution_coverage_complete results criterion_count;
               supported = (substantiates \<or> authoritative);
               execution_ready = (results \<noteq> [] \<and> coverage \<and> gates \<and> supported);
               accepted = (met \<and> acceptance_score \<le> score \<and> gates);
               rejected = (strict \<and> \<not> execution_ready)
           in Inr \<lparr>vd_accepted = (accepted \<and> \<not> rejected),
                   vd_score = score,
                   vd_missing =
                     missing @ (if rejected then strict_missing results coverage gates supported else [])
                     @ map (\<lambda>r. ''Regression in '' @ cr_target r @ ''.'') (regressions results),
                   vd_verified_by = (if execution_ready then ''execution'' else ''judgment''),
                   vd_coverage = coverage, vd_gates = gates\<rparr>))"

section \<open>Facts\<close>

lemma clamp_score_bounds: "0 \<le> clamp_score n \<and> clamp_score n \<le> 100"
  by (simp add: clamp_score_def)

lemma score_of_bounds: "score_of v = Inr n \<Longrightarrow> 0 \<le> n \<and> n \<le> 100"
  by (auto simp: score_of_def clamp_score_bounds split: sum.splits if_splits)

lemma as_int_infinite: "as_int (JFloat FInf) d = Inl OverflowError"
  by (simp add: as_int_def)

lemma re_sub_absent: "\<not> re_search r s \<Longrightarrow> re_sub r t s = s"
proof -
  assume "\<not> re_search r s"
  then have "search_from r [] s = None" unfolding re_search_def by blast
  then show ?thesis by (cases "length s") (auto simp: re_sub_def)
qed

lemma derives_lit: "derives (lit w) st u \<Longrightarrow> prefix w (ahead st)"
proof (induction w arbitrary: st u)
  case (Cons c w)
  then show ?case by (fastforce elim!: derives_CatE derives_ChrE)
qed simp

lemma py_contains_iff: "py_contains w s \<longleftrightarrow> (\<exists>p q. s = p @ w @ q)"
proof
  assume "py_contains w s"
  then show "\<exists>p q. s = p @ w @ q"
  proof (induction s)
    case Nil
    then show ?case by simp
  next
    case (Cons c s)
    then consider "prefix w (c # s)" | "py_contains w s" by auto
    then show ?case
    proof cases
      case 1
      then obtain q where "c # s = w @ q" by (auto simp: prefix_def)
      then show ?thesis by (intro exI [of _ "[]"] exI [of _ q]) simp
    next
      case 2
      then obtain p q where "s = p @ w @ q" using Cons.IH by blast
      then show ?thesis by (intro exI [of _ "c # p"] exI [of _ q]) simp
    qed
  qed
next
  assume "\<exists>p q. s = p @ w @ q"
  then show "py_contains w s" by (auto intro: py_contains_infix)
qed

lemma no_fence: "\<not> py_contains ''```'' s \<Longrightarrow> \<not> re_search fence s"
proof
  assume no: "\<not> py_contains ''```'' s" and "re_search fence s"
  then obtain p q u where s: "s = p @ q" "derives fence (RS (rev p) q []) u"
    by (auto simp: re_search_iff)
  then obtain v where "derives (lit ''```'') (RS (rev p) q []) v"
    by (auto simp: fence_def simp del: lit.simps elim!: derives_CatE)
  then have "prefix ''```'' (ahead (RS (rev p) q []))" by (rule derives_lit)
  then obtain r where "q = ''```'' @ r" by (auto simp: prefix_def)
  with s no show False by (auto simp: py_contains_iff)
qed

lemma dumps_obj_ends: "\<exists>m. dumps (JObj d) = CHR ''{'' # m @ ''}''"
  by simp

lemma py_strip_braces: "py_strip (CHR ''{'' # m @ ''}'') = CHR ''{'' # m @ ''}''"
  by (simp add: py_strip_def py_lstrip_def py_rstrip_def py_isspace_def)

section \<open>Properties\<close>

text \<open>
  C15. Strict acceptance is earned by evidence: a strict task is accepted only when at least
  one check ran, every criterion has a passing check, the gates hold, the checks are
  substantiated by the verifier or by the locked contract, and the verifier met the goal
  with the required score.
\<close>

theorem strict_acceptance_sound:
  assumes "evaluate_verdict payload results n acc True authoritative = Inr d" "vd_accepted d"
  shows "results \<noteq> [] \<and> execution_coverage_complete results n \<and> completion_gates_pass results \<and>
    vd_verified_by d = ''execution'' \<and> acc \<le> vd_score d \<and>
    (\<exists>payload_dict. payload = JObj payload_dict \<and> truthy (dget payload_dict ''met'') \<and>
       (authoritative \<or> substantiated (dget_or payload_dict ''checks_substantiate'' (JBool True))))"
  using assms
  by (auto simp: evaluate_verdict_def read_verdict_def Let_def split: sum.splits json.splits)

definition passing_result :: check_result where
  "passing_result =
     make_result [(''criterion_ids'', json_strs [''criterion-001''])] 1 ''make test'' True ''exit code 0''"

definition met_payload :: json where
  "met_payload = JObj [(''met'', JBool True), (''score'', JInt 90)]"

lemma met_verdict:
  "map_option vd_accepted (the_ok (evaluate_verdict met_payload [passing_result] 1 70 True False)) =
     Some True"
  by code_simp

theorem strict_acceptance_sound_witness:
  "\<exists>d. evaluate_verdict met_payload [passing_result] 1 70 True False = Inr d \<and> vd_accepted d \<and>
     70 \<le> vd_score d"
proof -
  obtain d where d: "evaluate_verdict met_payload [passing_result] 1 70 True False = Inr d"
    "vd_accepted d"
    using met_verdict by (cases "evaluate_verdict met_payload [passing_result] 1 70 True False") auto
  from strict_acceptance_sound [OF d] d show ?thesis by blast
qed

text \<open>
  A verdict whose score is an infinite number (\<^verbatim>\<open>Infinity\<close> is valid for
  \<^verbatim>\<open>json.loads\<close>, a literal such as \<^verbatim>\<open>1e999\<close> overflows to it) raises instead of scoring 0; no other verdict
  raises, except an integer too large for a float.
\<close>

definition infinite_score :: "json \<Rightarrow> bool" where
  "infinite_score v =
     (case v of
        JFloat x \<Rightarrow> x = FInf \<or> x = FNegInf
      | JStr s \<Rightarrow> float_of_string s = Inr FInf \<or> float_of_string s = Inr FNegInf
      | JInt i \<Rightarrow> dec_overflows i 0
      | _ \<Rightarrow> False)"

lemma int_of_float_Inl:
  "int_of_float x = Inl e \<longleftrightarrow>
     x = FNan \<and> e = ValueError \<or> (x = FInf \<or> x = FNegInf) \<and> e = OverflowError"
  by (cases x) auto

lemma float_of_string_Inl: "float_of_string s = Inl e \<Longrightarrow> e = ValueError"
  by (auto simp: float_of_string_def Let_def split: prod.splits option.splits if_splits)

lemma score_of_raises: "score_of v = Inl e \<longleftrightarrow> infinite_score v \<and> e = OverflowError"
proof (cases v)
  case (JInt i)
  obtain a b where "norm_dec i 0 = FDec a b" using norm_dec_finite by blast
  with JInt show ?thesis by (auto simp: score_of_def infinite_score_def)
next
  case (JFloat x)
  then show ?thesis by (cases x) (auto simp: score_of_def infinite_score_def)
next
  case (JStr s)
  show ?thesis
  proof (cases "float_of_string s")
    case (Inl e')
    with JStr float_of_string_Inl [OF Inl] show ?thesis
      by (auto simp: score_of_def infinite_score_def)
  next
    case (Inr x)
    with JStr show ?thesis by (cases x) (auto simp: score_of_def infinite_score_def)
  qed
qed (auto simp: score_of_def infinite_score_def)

theorem infinite_score_raises:
  "(evaluate_verdict payload results n acc strict au = Inl e \<longleftrightarrow>
      (\<exists>d. payload = JObj d \<and> infinite_score (dget d ''score'')) \<and> e = OverflowError) \<and>
   json_loads ''Infinity'' = Some (JFloat FInf) \<and> infinite_score (JFloat FInf)"
proof -
  have "json_loads ''Infinity'' = Some (JFloat FInf)" by code_simp
  moreover have "evaluate_verdict payload results n acc strict au = Inl e \<longleftrightarrow>
      read_verdict payload = Inl e"
    by (auto simp: evaluate_verdict_def Let_def split: sum.splits prod.splits)
  moreover have "read_verdict payload = Inl e \<longleftrightarrow>
      (\<exists>d. payload = JObj d \<and> score_of (dget d ''score'') = Inl e)"
    by (auto simp: read_verdict_def split: json.splits sum.splits)
  ultimately show ?thesis by (auto simp: score_of_raises infinite_score_def)
qed

text \<open>
  A child's allocation never exceeds what the parent has left nor the step cap, and is
  refused below the minimum budget; the requested numbers cannot widen it.
\<close>

theorem delegation_bounded:
  assumes "allocate_child p args remaining = Inr (Some a)" "1 \<le> dp_minimum_budget p"
  shows "dp_minimum_budget p \<le> remaining \<and>
    1 \<le> al_token_budget a \<and> al_token_budget a \<le> remaining \<and>
    1 \<le> al_max_steps a \<and> al_max_steps a \<le> max 1 (dp_max_steps p)"
  using assms by (auto simp: allocate_child_def split: if_splits sum.splits)

theorem delegation_bounded_witness:
  "\<exists>a. allocate_child \<lparr>dp_minimum_budget = 1000, dp_default_steps = 12, dp_max_steps = 40\<rparr>
         [(''token_budget'', JInt 999999), (''max_steps'', JInt (- 3))] 5000 = Inr (Some a) \<and>
       al_token_budget a \<le> 5000 \<and> 1 \<le> al_max_steps a"
proof -
  let ?p = "\<lparr>dp_minimum_budget = 1000, dp_default_steps = 12, dp_max_steps = 40\<rparr>"
  have "allocate_child ?p [(''token_budget'', JInt 999999), (''max_steps'', JInt (- 3))] 5000 =
      Inr (Some \<lparr>al_token_budget = 5000, al_max_steps = 1\<rparr>)"
    by (simp add: allocate_child_def as_int_def dget_def)
  from delegation_bounded [OF this] this show ?thesis by auto
qed

text \<open>
  Planning never eats the verification reserve: what planning may use plus the reserve
  fits in what is left whenever planning may use anything, the reserve is at most half of
  the budget, and whatever planning spends within its share leaves the reserve for the
  verifier.
\<close>

theorem planning_leaves_reserve:
  assumes "0 \<le> reserve_cap" "b = allocate_budget total_tokens used reserve_cap"
  shows "0 \<le> cb_reserve b \<and> 2 * cb_reserve b \<le> max 0 total_tokens \<and>
    (0 < cb_planning b \<longrightarrow> cb_planning b + cb_reserve b = total_tokens - used) \<and>
    (0 < cb_planning b \<and> spent \<le> cb_planning b \<longrightarrow> cb_reserve b \<le> verification_after b spent)"
  using assms
  by (auto simp: allocate_budget_def cb_planning_def cb_remaining_def verification_after_def max_def
      min_def)

theorem planning_leaves_reserve_witness:
  "verification_after (allocate_budget 10000 2000 6000) 6000 \<ge> 2000"
proof -
  let ?b = "allocate_budget 10000 2000 6000"
  have v: "cb_planning ?b = 6000" "cb_reserve ?b = 2000" by code_simp+
  show ?thesis using planning_leaves_reserve [OF _ refl, of 6000 10000 2000 6000] v by simp
qed

text \<open>
  A reply that is one JSON object is read back as that object, a decision never names a
  tool outside the offered ones, and without a tool it carries no arguments.
\<close>

theorem decisions_read_back:
  "(wf_json (JObj d) \<and> \<not> py_contains ''```'' (dumps (JObj d)) \<longrightarrow>
      extract_json (dumps (JObj d)) = JObj d) \<and>
   (de_tool (parse_decision reply valid dynamic) \<in> insert None (Some ` (valid \<union> dynamic))) \<and>
   (de_tool (parse_decision reply valid dynamic) = None \<longrightarrow>
      de_args (parse_decision reply valid dynamic) = [])"
proof (intro conjI impI)
  assume a: "wf_json (JObj d) \<and> \<not> py_contains ''```'' (dumps (JObj d))"
  then have "re_sub fence [] (dumps (JObj d)) = dumps (JObj d)"
    by (intro re_sub_absent no_fence) simp
  moreover have "py_strip (dumps (JObj d)) = dumps (JObj d)"
    using dumps_obj_ends [of d] py_strip_braces by metis
  moreover have "json_loads (dumps (JObj d)) = Some (JObj d)"
    using a by (intro json_loads_dumps) simp
  ultimately show "extract_json (dumps (JObj d)) = JObj d"
    by (simp add: extract_json_def del: dumps.simps)
qed (auto simp: parse_decision_def Let_def split: json.splits)

theorem decisions_read_back_witness:
  "extract_json (dumps (JObj [(''tool'', JStr ''finish''), (''args'', JObj [])])) =
     JObj [(''tool'', JStr ''finish''), (''args'', JObj [])]"
proof -
  have "\<not> py_contains ''```'' (dumps (JObj [(''tool'', JStr ''finish''), (''args'', JObj [])]))"
    by code_simp
  then show ?thesis
    using decisions_read_back [of "[(''tool'', JStr ''finish''), (''args'', JObj [])]" "[]" "{}" "{}"]
    by simp
qed

end
