(* ===== verification/Loop_Policy.thy ===== *)
theory Loop_Policy
  imports Transition
begin

text \<open>
  \<^verbatim>\<open>domain/task.py\<close> and \<^verbatim>\<open>domain/loop.py\<close>: the task lifecycle, the loop states and events,
  the table of allowed transitions and \<^verbatim>\<open>LoopTransitionPolicy.apply\<close>, the only code that
  moves a task. The record \<open>loop_target\<close> holds the five attributes of the protocol
  \<^verbatim>\<open>TransitionTarget\<close>; the task record extends it, so every operation is polymorphic in the
  rest of the task.
\<close>

section \<open>The enumerations\<close>

datatype task_status =
    Pending
  | Running
  | AwaitingInputStatus
  | CompletedStatus
  | StoppedStatus
  | CancelledStatus
  | FailedStatus

fun status_value :: "task_status \<Rightarrow> string" where
  "status_value Pending = ''pending''"
| "status_value Running = ''running''"
| "status_value AwaitingInputStatus = ''awaiting_input''"
| "status_value CompletedStatus = ''completed''"
| "status_value StoppedStatus = ''stopped''"
| "status_value CancelledStatus = ''cancelled''"
| "status_value FailedStatus = ''failed''"

datatype stop_reason =
    GoalAchieved
  | MaxSteps
  | BudgetExhausted
  | Stuck
  | CancelledByUser
  | ErrorStop

fun stop_value :: "stop_reason \<Rightarrow> string" where
  "stop_value GoalAchieved = ''goal_achieved''"
| "stop_value MaxSteps = ''max_steps''"
| "stop_value BudgetExhausted = ''budget_exhausted''"
| "stop_value Stuck = ''stuck''"
| "stop_value CancelledByUser = ''cancelled''"
| "stop_value ErrorStop = ''error''"

datatype loop_state =
    Queued
  | Preparing
  | Understanding
  | Planning
  | Acting
  | Verifying
  | AwaitingInput
  | AwaitingApproval
  | Completed
  | Stopped
  | Cancelled
  | Failed

fun state_value :: "loop_state \<Rightarrow> string" where
  "state_value Queued = ''queued''"
| "state_value Preparing = ''preparing''"
| "state_value Understanding = ''understanding''"
| "state_value Planning = ''planning''"
| "state_value Acting = ''acting''"
| "state_value Verifying = ''verifying''"
| "state_value AwaitingInput = ''awaiting_input''"
| "state_value AwaitingApproval = ''awaiting_approval''"
| "state_value Completed = ''completed''"
| "state_value Stopped = ''stopped''"
| "state_value Cancelled = ''cancelled''"
| "state_value Failed = ''failed''"

datatype loop_event =
    Claim
  | Recover
  | ContractRequired
  | ContractReady
  | RubricRequired
  | PreparationCompleted
  | RubricReady
  | ActionSelected
  | ActionRecorded
  | VerificationRequested
  | VerificationRejected
  | VerificationAccepted
  | InputRequired
  | ApprovalRequired
  | UserResponded
  | LimitReached
  | Cancel
  | Fail

fun event_value :: "loop_event \<Rightarrow> string" where
  "event_value Claim = ''claim''"
| "event_value Recover = ''recover''"
| "event_value ContractRequired = ''contract_required''"
| "event_value ContractReady = ''contract_ready''"
| "event_value RubricRequired = ''rubric_required''"
| "event_value PreparationCompleted = ''preparation_completed''"
| "event_value RubricReady = ''rubric_ready''"
| "event_value ActionSelected = ''action_selected''"
| "event_value ActionRecorded = ''action_recorded''"
| "event_value VerificationRequested = ''verification_requested''"
| "event_value VerificationRejected = ''verification_rejected''"
| "event_value VerificationAccepted = ''verification_accepted''"
| "event_value InputRequired = ''input_required''"
| "event_value ApprovalRequired = ''approval_required''"
| "event_value UserResponded = ''user_responded''"
| "event_value LimitReached = ''limit_reached''"
| "event_value Cancel = ''cancel''"
| "event_value Fail = ''fail''"

text \<open>The finite enumerations are instances of \<open>enum\<close>, so that tables over them compute.\<close>

instantiation loop_state :: enum
begin

definition enum_loop_state :: "loop_state list" where
  "enum_loop_state = [Queued, Preparing, Understanding, Planning, Acting, Verifying,
     AwaitingInput, AwaitingApproval, Completed, Stopped, Cancelled, Failed]"

definition enum_all_loop_state :: "(loop_state \<Rightarrow> bool) \<Rightarrow> bool" where
  "enum_all_loop_state P = list_all P enum_class.enum"

definition enum_ex_loop_state :: "(loop_state \<Rightarrow> bool) \<Rightarrow> bool" where
  "enum_ex_loop_state P = list_ex P enum_class.enum"

instance
proof
  show u: "(UNIV :: loop_state set) = set enum_class.enum"
    unfolding enum_loop_state_def by (auto intro: loop_state.exhaust)
  show "distinct (enum_class.enum :: loop_state list)"
    by (simp add: enum_loop_state_def)
  show "enum_class.enum_all P = Ball UNIV P" for P :: "loop_state \<Rightarrow> bool"
    by (simp add: enum_all_loop_state_def list_all_iff u)
  show "enum_class.enum_ex P = Bex UNIV P" for P :: "loop_state \<Rightarrow> bool"
    by (simp add: enum_ex_loop_state_def list_ex_iff u)
qed

end

instantiation loop_event :: enum
begin

definition enum_loop_event :: "loop_event list" where
  "enum_loop_event = [Claim, Recover, ContractRequired, ContractReady, RubricRequired,
     PreparationCompleted, RubricReady, ActionSelected, ActionRecorded, VerificationRequested,
     VerificationRejected, VerificationAccepted, InputRequired, ApprovalRequired,
     UserResponded, LimitReached, Cancel, Fail]"

definition enum_all_loop_event :: "(loop_event \<Rightarrow> bool) \<Rightarrow> bool" where
  "enum_all_loop_event P = list_all P enum_class.enum"

definition enum_ex_loop_event :: "(loop_event \<Rightarrow> bool) \<Rightarrow> bool" where
  "enum_ex_loop_event P = list_ex P enum_class.enum"

instance
proof
  show u: "(UNIV :: loop_event set) = set enum_class.enum"
    unfolding enum_loop_event_def by (auto intro: loop_event.exhaust)
  show "distinct (enum_class.enum :: loop_event list)"
    by (simp add: enum_loop_event_def)
  show "enum_class.enum_all P = Ball UNIV P" for P :: "loop_event \<Rightarrow> bool"
    by (simp add: enum_all_loop_event_def list_all_iff u)
  show "enum_class.enum_ex P = Bex UNIV P" for P :: "loop_event \<Rightarrow> bool"
    by (simp add: enum_ex_loop_event_def list_ex_iff u)
qed

end

section \<open>The transition table\<close>

text \<open>\<^verbatim>\<open>LoopState(value)\<close>: the member with that value, or \<^verbatim>\<open>ValueError\<close>.\<close>

definition loop_state_of :: "string \<Rightarrow> loop_state option" where
  "loop_state_of v = find (\<lambda>st. state_value st = v) enum_class.enum"

definition working :: "loop_state list" where
  "working = [Preparing, Understanding, Planning, Acting, Verifying]"

definition active :: "loop_state list" where
  "active = Queued # working @ [AwaitingInput, AwaitingApproval]"

type_synonym rule_table = "((loop_state \<times> loop_event) \<times> loop_state) list"

definition base_rules :: rule_table where
  "base_rules =
    [((Queued, Claim), Preparing),
     ((Preparing, ContractRequired), Understanding),
     ((Understanding, ContractReady), Planning),
     ((Preparing, RubricRequired), Understanding),
     ((Preparing, PreparationCompleted), Planning),
     ((Understanding, RubricReady), Planning),
     ((Planning, ActionSelected), Acting),
     ((Acting, ActionRecorded), Planning),
     ((Planning, VerificationRequested), Verifying),
     ((Verifying, VerificationRejected), Planning),
     ((Verifying, VerificationAccepted), Completed),
     ((Preparing, InputRequired), AwaitingInput),
     ((Understanding, InputRequired), AwaitingInput),
     ((Acting, InputRequired), AwaitingInput),
     ((Acting, ApprovalRequired), AwaitingApproval),
     ((AwaitingInput, UserResponded), Queued),
     ((AwaitingApproval, UserResponded), Queued)]"

text \<open>The two loops that add the rules of every working and of every active state.\<close>

definition add_working :: "loop_state \<Rightarrow> rule_table \<Rightarrow> rule_table" where
  "add_working st rs =
     AList.update (st, LimitReached) Stopped (AList.update (st, Recover) Preparing rs)"

definition add_active :: "loop_state \<Rightarrow> rule_table \<Rightarrow> rule_table" where
  "add_active st rs =
     AList.update (st, Fail) Failed (AList.update (st, Cancel) Cancelled rs)"

definition rules :: rule_table where
  "rules = fold add_active active (fold add_working working base_rules)"

definition rule :: "loop_state \<Rightarrow> loop_event \<Rightarrow> loop_state option" where
  "rule st ev = map_of rules (st, ev)"

fun status_of :: "loop_state \<Rightarrow> task_status" where
  "status_of Queued = Pending"
| "status_of Preparing = Running"
| "status_of Understanding = Running"
| "status_of Planning = Running"
| "status_of Acting = Running"
| "status_of Verifying = Running"
| "status_of AwaitingInput = AwaitingInputStatus"
| "status_of AwaitingApproval = AwaitingInputStatus"
| "status_of Completed = CompletedStatus"
| "status_of Stopped = StoppedStatus"
| "status_of Cancelled = CancelledStatus"
| "status_of Failed = FailedStatus"

definition claimable_states :: "loop_state list" where
  "claimable_states = Queued # working"

definition allowed_events :: "loop_state \<Rightarrow> loop_event list" where
  "allowed_events st = map (\<lambda>r. snd (fst r)) (filter (\<lambda>r. fst (fst r) = st) rules)"

section \<open>Applying an event\<close>

record loop_target =
  loop_state :: string
  transition_reason :: "string option"
  transition_sequence :: int
  status :: string
  stop_reason :: "string option"

record transition =
  t_sequence :: int
  t_source :: loop_state
  t_target :: loop_state
  t_event :: loop_event
  t_reason :: string

datatype loop_error =
    UnknownLoopState string
  | NotAllowed loop_event loop_state
  | UnboundedLimit
  | MissingStopReason

definition bounded_reason :: "stop_reason option \<Rightarrow> bool" where
  "bounded_reason r = (r \<in> {Some MaxSteps, Some BudgetExhausted, Some Stuck})"

definition or_default :: "string \<Rightarrow> string \<Rightarrow> string" where
  "or_default s d = (if s = [] then d else s)"

fun final_reason :: "loop_state \<Rightarrow> stop_reason option \<Rightarrow> loop_error + stop_reason option" where
  "final_reason Completed sr = Inr (Some GoalAchieved)"
| "final_reason Stopped sr = (case sr of None \<Rightarrow> Inl MissingStopReason | Some r \<Rightarrow> Inr (Some r))"
| "final_reason Cancelled sr = Inr (Some CancelledByUser)"
| "final_reason Failed sr = Inr (Some ErrorStop)"
| "final_reason _ sr = Inr None"

definition apply_event ::
  "'a loop_target_scheme \<Rightarrow> loop_event \<Rightarrow> string \<Rightarrow> stop_reason option \<Rightarrow>
     loop_error + ('a loop_target_scheme \<times> transition)" where
  "apply_event t ev reason sr =
     (case loop_state_of (loop_state t) of
        None \<Rightarrow> Inl (UnknownLoopState (loop_state t))
      | Some src \<Rightarrow>
          (case rule src ev of
             None \<Rightarrow> Inl (NotAllowed ev src)
           | Some tgt \<Rightarrow>
               if ev = LimitReached \<and> \<not> bounded_reason sr then Inl UnboundedLimit
               else
                 (case final_reason tgt sr of
                    Inl e \<Rightarrow> Inl e
                  | Inr fr \<Rightarrow>
                      (let r = or_default (py_strip reason) (event_value ev);
                           n = transition_sequence t + 1
                       in Inr (t\<lparr>loop_state := state_value tgt,
                                 transition_reason := Some r,
                                 transition_sequence := n,
                                 status := status_value (status_of tgt),
                                 stop_reason := map_option stop_value fr\<rparr>,
                               \<lparr>t_sequence = n, t_source = src, t_target = tgt,
                                t_event = ev, t_reason = r\<rparr>)))))"

text \<open>The operation as a step that is refused (\<open>None\<close>) when \<^verbatim>\<open>apply\<close> raises.\<close>

type_synonym loop_input = "loop_event \<times> string \<times> stop_reason option"

definition loop_step :: "'a loop_target_scheme \<Rightarrow> loop_input \<Rightarrow> 'a loop_target_scheme option" where
  "loop_step t i =
     (case i of (ev, reason, sr) \<Rightarrow> map_option fst (the_ok (apply_event t ev reason sr)))"

section \<open>Facts about the table\<close>

lemma loop_state_of_value [simp]: "loop_state_of (state_value st) = Some st"
  by (cases st) (simp_all add: loop_state_of_def enum_loop_state_def)

lemma loop_state_of_SomeD: "loop_state_of v = Some st \<Longrightarrow> v = state_value st"
  unfolding loop_state_of_def by (auto simp: find_Some_iff)

lemma state_value_inj [simp]: "state_value a = state_value b \<longleftrightarrow> a = b"
  by (metis loop_state_of_value option.inject)

lemma status_value_inj [simp]: "status_value a = status_value b \<longleftrightarrow> a = b"
  by (cases a; cases b) simp_all

lemma stop_value_inj [simp]: "stop_value a = stop_value b \<longleftrightarrow> a = b"
  by (cases a; cases b) simp_all

declare state_value.simps [simp del] status_value.simps [simp del] stop_value.simps [simp del]

lemma event_value_nonempty [simp]: "event_value ev \<noteq> []"
  by (cases ev) simp_all

text \<open>The table written out as a function; every later case analysis runs over it.\<close>

definition rule_spec :: "loop_state \<Rightarrow> loop_event \<Rightarrow> loop_state option" where
  "rule_spec st ev =
     (if ev = Cancel \<and> st \<in> set active then Some Cancelled
      else if ev = Fail \<and> st \<in> set active then Some Failed
      else if ev = Recover \<and> st \<in> set working then Some Preparing
      else if ev = LimitReached \<and> st \<in> set working then Some Stopped
      else map_of base_rules (st, ev))"

lemma map_of_fold_add_working:
  "map_of (fold add_working sts rs) (st, ev) =
     (if ev = LimitReached \<and> st \<in> set sts then Some Stopped
      else if ev = Recover \<and> st \<in> set sts then Some Preparing
      else map_of rs (st, ev))"
  by (induction sts arbitrary: rs) (auto simp: add_working_def update_conv')

lemma map_of_fold_add_active:
  "map_of (fold add_active sts rs) (st, ev) =
     (if ev = Fail \<and> st \<in> set sts then Some Failed
      else if ev = Cancel \<and> st \<in> set sts then Some Cancelled
      else map_of rs (st, ev))"
  by (induction sts arbitrary: rs) (auto simp: add_active_def update_conv')

lemma rule_eq_spec: "rule st ev = rule_spec st ev"
  by (auto simp: rule_def rules_def rule_spec_def map_of_fold_add_active map_of_fold_add_working)

definition terminal :: "loop_state \<Rightarrow> bool" where
  "terminal st = (st \<in> {Completed, Stopped, Cancelled, Failed})"

lemma distinct_base_rules: "distinct (map fst base_rules)"
  by (simp add: base_rules_def)

lemma base_rules_events:
  "((st, ev), t) \<in> set base_rules \<Longrightarrow> ev \<notin> {Cancel, Fail, Recover, LimitReached}"
  by (auto simp: base_rules_def)

lemma rule_iff:
  "rule st ev = Some t \<longleftrightarrow>
     (ev = Cancel \<and> st \<in> set active \<and> t = Cancelled) \<or>
     (ev = Fail \<and> st \<in> set active \<and> t = Failed) \<or>
     (ev = Recover \<and> st \<in> set working \<and> t = Preparing) \<or>
     (ev = LimitReached \<and> st \<in> set working \<and> t = Stopped) \<or>
     ((st, ev), t) \<in> set base_rules"
proof -
  have "map_of base_rules (st, ev) = Some t \<longleftrightarrow> ((st, ev), t) \<in> set base_rules"
    by (rule map_of_eq_Some_iff [OF distinct_base_rules])
  then show ?thesis
    unfolding rule_eq_spec rule_spec_def using base_rules_events [of st ev t] by auto
qed

lemmas table = active_def working_def base_rules_def

lemma terminal_iff: "terminal st \<longleftrightarrow> st \<notin> set active"
  by (cases st) (simp_all add: terminal_def active_def working_def)

lemma rule_terminal: "terminal st \<Longrightarrow> rule st ev = None"
  unfolding not_Some_eq [symmetric] rule_iff by (auto simp: terminal_def table)

lemma rule_into_completed:
  "rule st ev = Some Completed \<longleftrightarrow> st = Verifying \<and> ev = VerificationAccepted"
  unfolding rule_iff by (auto simp: table)

lemma rule_into_verifying:
  "rule st ev = Some Verifying \<longleftrightarrow> st = Planning \<and> ev = VerificationRequested"
  unfolding rule_iff by (auto simp: table)

lemma rule_into_stopped:
  "rule st ev = Some Stopped \<longleftrightarrow> ev = LimitReached \<and> st \<in> set working"
  unfolding rule_iff by (auto simp: table)

lemma rule_into_awaiting_approval:
  "rule st ev = Some AwaitingApproval \<longleftrightarrow> st = Acting \<and> ev = ApprovalRequired"
  unfolding rule_iff by (auto simp: table)

lemma rule_into_queued:
  "rule st ev = Some Queued \<longleftrightarrow> ev = UserResponded \<and> (st = AwaitingInput \<or> st = AwaitingApproval)"
  unfolding rule_iff by (auto simp: table)

lemma rule_limit: "rule st LimitReached = (if st \<in> set working then Some Stopped else None)"
  unfolding rule_eq_spec rule_spec_def by (auto simp: base_rules_def)

section \<open>What an application of an event does\<close>

definition moved ::
  "'a loop_target_scheme \<Rightarrow> loop_state \<Rightarrow> string \<Rightarrow> stop_reason option \<Rightarrow> 'a loop_target_scheme" where
  "moved t tgt r fr =
     t\<lparr>loop_state := state_value tgt, transition_reason := Some r,
       transition_sequence := transition_sequence t + 1,
       status := status_value (status_of tgt), stop_reason := map_option stop_value fr\<rparr>"

lemma moved_simps [simp]:
  "loop_state (moved t tgt r fr) = state_value tgt"
  "transition_reason (moved t tgt r fr) = Some r"
  "transition_sequence (moved t tgt r fr) = transition_sequence t + 1"
  "status (moved t tgt r fr) = status_value (status_of tgt)"
  "stop_reason (moved t tgt r fr) = map_option stop_value fr"
  "loop_target.more (moved t tgt r fr) = loop_target.more t"
  by (simp_all add: moved_def)

definition reason_text :: "string \<Rightarrow> loop_event \<Rightarrow> string" where
  "reason_text reason ev = or_default (py_strip reason) (event_value ev)"

lemma reason_text_nonempty [simp]: "reason_text reason ev \<noteq> []"
  by (simp add: reason_text_def or_default_def)

definition reason_of :: "loop_state \<Rightarrow> stop_reason option \<Rightarrow> stop_reason option" where
  "reason_of tgt sr =
     (if tgt = Completed then Some GoalAchieved
      else if tgt = Stopped then sr
      else if tgt = Cancelled then Some CancelledByUser
      else if tgt = Failed then Some ErrorStop
      else None)"

lemma final_reason_ok:
  "tgt = Stopped \<longrightarrow> sr \<noteq> None \<Longrightarrow> final_reason tgt sr = Inr (reason_of tgt sr)"
  by (cases tgt) (auto simp: reason_of_def)

lemma apply_event_ok_iff:
  "apply_event t ev reason sr = Inr (t', tr) \<longleftrightarrow>
     (\<exists>src tgt. loop_state t = state_value src \<and> rule src ev = Some tgt \<and>
        (ev = LimitReached \<longrightarrow> bounded_reason sr) \<and>
        t' = moved t tgt (reason_text reason ev) (reason_of tgt sr) \<and>
        tr = \<lparr>t_sequence = transition_sequence t + 1, t_source = src, t_target = tgt,
              t_event = ev, t_reason = reason_text reason ev\<rparr>)"
  (is "?L \<longleftrightarrow> ?R")
proof
  assume ?R
  then obtain src tgt where *: "loop_state t = state_value src" "rule src ev = Some tgt"
    "ev = LimitReached \<longrightarrow> bounded_reason sr"
    "t' = moved t tgt (reason_text reason ev) (reason_of tgt sr)"
    "tr = \<lparr>t_sequence = transition_sequence t + 1, t_source = src, t_target = tgt,
           t_event = ev, t_reason = reason_text reason ev\<rparr>" by blast
  have "tgt = Stopped \<longrightarrow> sr \<noteq> None"
    using *(2,3) rule_into_stopped [of src ev] by (auto simp: bounded_reason_def)
  from final_reason_ok [OF this] * show ?L
    by (auto simp: apply_event_def Let_def moved_def reason_text_def)
next
  assume L: ?L
  then obtain src where src: "loop_state_of (loop_state t) = Some src"
    by (auto simp: apply_event_def split: option.splits)
  then obtain tgt where tgt: "rule src ev = Some tgt"
    using L by (auto simp: apply_event_def split: option.splits)
  have b: "ev = LimitReached \<longrightarrow> bounded_reason sr"
    using L src tgt by (auto simp: apply_event_def split: if_splits)
  have "tgt = Stopped \<longrightarrow> sr \<noteq> None"
    using tgt b rule_into_stopped [of src ev] by (auto simp: bounded_reason_def)
  from final_reason_ok [OF this] L src tgt b show ?R
    by (auto simp: apply_event_def Let_def moved_def reason_text_def dest: loop_state_of_SomeD)
qed

lemma apply_event_refused:
  "apply_event t ev reason sr = Inl e \<longleftrightarrow>
     (case loop_state_of (loop_state t) of
        None \<Rightarrow> e = UnknownLoopState (loop_state t)
      | Some src \<Rightarrow>
          if rule src ev = None then e = NotAllowed ev src
          else ev = LimitReached \<and> \<not> bounded_reason sr \<and> e = UnboundedLimit)"
proof (cases "loop_state_of (loop_state t)")
  case None
  then show ?thesis by (auto simp: apply_event_def)
next
  case (Some src)
  show ?thesis
  proof (cases "rule src ev")
    case None
    then show ?thesis using Some by (auto simp: apply_event_def)
  next
    case tgt: (Some tgt)
    have "ev = LimitReached \<longrightarrow> bounded_reason sr \<Longrightarrow> tgt = Stopped \<longrightarrow> sr \<noteq> None"
      using tgt rule_into_stopped [of src ev] by (auto simp: bounded_reason_def)
    then show ?thesis
      using Some tgt final_reason_ok [of tgt sr] by (auto simp: apply_event_def Let_def)
  qed
qed

lemma loop_step_iff:
  "loop_step t (ev, reason, sr) = Some t' \<longleftrightarrow>
     (\<exists>src tgt. loop_state t = state_value src \<and> rule src ev = Some tgt \<and>
        (ev = LimitReached \<longrightarrow> bounded_reason sr) \<and>
        t' = moved t tgt (reason_text reason ev) (reason_of tgt sr))"
proof -
  have "loop_step t (ev, reason, sr) = Some t' \<longleftrightarrow> (\<exists>tr. apply_event t ev reason sr = Inr (t', tr))"
    unfolding loop_step_def
    by (cases "apply_event t ev reason sr") auto
  then show ?thesis unfolding apply_event_ok_iff by blast
qed

section \<open>Whole runs\<close>

text \<open>A task is coherent when its status and stop reason are those of its loop state.\<close>

definition stop_ok :: "loop_state \<Rightarrow> string option \<Rightarrow> bool" where
  "stop_ok st r =
     (if st = Completed then r = Some (stop_value GoalAchieved)
      else if st = Stopped then r \<in> Some ` stop_value ` {MaxSteps, BudgetExhausted, Stuck}
      else if st = Cancelled then r = Some (stop_value CancelledByUser)
      else if st = Failed then r = Some (stop_value ErrorStop)
      else r = None)"

definition coherent :: "'a loop_target_scheme \<Rightarrow> bool" where
  "coherent t =
     (case loop_state_of (loop_state t) of
        None \<Rightarrow> False
      | Some st \<Rightarrow> status t = status_value (status_of st) \<and> stop_ok st (stop_reason t))"

definition finished :: "'a loop_target_scheme \<Rightarrow> bool" where
  "finished t = (case loop_state_of (loop_state t) of None \<Rightarrow> False | Some st \<Rightarrow> terminal st)"

lemma stop_ok_reason_of:
  "tgt = Stopped \<longrightarrow> bounded_reason sr \<Longrightarrow> stop_ok tgt (map_option stop_value (reason_of tgt sr))"
  by (auto simp: stop_ok_def reason_of_def bounded_reason_def)

lemma coherent_moved [inv_intros]:
  "tgt = Stopped \<longrightarrow> bounded_reason sr \<Longrightarrow> coherent (moved t tgt r (reason_of tgt sr))"
  by (simp add: coherent_def stop_ok_reason_of)

interpretation lp: guarded_machine
  "loop_step :: 'a loop_target_scheme \<Rightarrow> loop_input \<Rightarrow> 'a loop_target_scheme option"
  coherent finished transition_sequence
proof
  fix s t :: "'a loop_target_scheme" and l :: loop_input
  obtain ev reason sr where l: "l = (ev, reason, sr)" by (cases l)
  show "coherent t" if "coherent s" "loop_step s l = Some t"
    using that unfolding l loop_step_iff by (auto simp: rule_into_stopped intro!: inv_intros)
  show "transition_sequence t = transition_sequence s + 1" if "loop_step s l = Some t"
    using that unfolding l loop_step_iff by auto
  show "loop_step s l = None" if "finished s"
    using that unfolding l finished_def
    by (auto simp: loop_step_def apply_event_def rule_terminal split: option.splits)
qed

lemma exec_last_loop_step:
  assumes "exec loop_step t ls = Some t'" "loop_state t' = state_value tgt"
    "loop_state t \<noteq> state_value tgt"
  obtains ks ev reason sr u src where
    "ls = ks @ [(ev, reason, sr)]" "exec loop_step t ks = Some u"
    "loop_state u = state_value src" "rule src ev = Some tgt"
proof (cases ls rule: rev_cases)
  case Nil
  with assms show thesis by simp
next
  case (snoc ks l)
  obtain ev reason sr where l: "l = (ev, reason, sr)" by (cases l)
  from assms(1) obtain u where u: "exec loop_step t ks = Some u" "loop_step u l = Some t'"
    unfolding snoc exec_snoc by (auto split: option.splits)
  from u(2) assms(2) obtain src where "loop_state u = state_value src" "rule src ev = Some tgt"
    unfolding l loop_step_iff by auto
  with snoc l u(1) show thesis by (intro that) auto
qed

text \<open>The shortest schedule of events that completes a task from each active state.\<close>

definition plain :: "loop_event \<Rightarrow> loop_input" where
  "plain ev = (ev, [], None)"

definition path_from_planning :: "loop_event list" where
  "path_from_planning = [VerificationRequested, VerificationAccepted]"

fun completion_path :: "loop_state \<Rightarrow> loop_event list" where
  "completion_path Queued = [Claim, PreparationCompleted] @ path_from_planning"
| "completion_path Preparing = PreparationCompleted # path_from_planning"
| "completion_path Understanding = ContractReady # path_from_planning"
| "completion_path Planning = path_from_planning"
| "completion_path Acting = ActionRecorded # path_from_planning"
| "completion_path Verifying = [VerificationAccepted]"
| "completion_path AwaitingInput = [UserResponded, Claim, PreparationCompleted] @ path_from_planning"
| "completion_path AwaitingApproval = [UserResponded, Claim, PreparationCompleted] @ path_from_planning"
| "completion_path _ = []"

fun rule_run :: "loop_state \<Rightarrow> loop_event list \<Rightarrow> loop_state option" where
  "rule_run st [] = Some st"
| "rule_run st (ev # evs) = (case rule st ev of None \<Rightarrow> None | Some tgt \<Rightarrow> rule_run tgt evs)"

lemma rule_run_exec:
  assumes "loop_state t = state_value st" "rule_run st evs = Some tgt" "LimitReached \<notin> set evs"
  shows "\<exists>t'. exec loop_step t (map plain evs) = Some t' \<and> loop_state t' = state_value tgt"
  using assms
proof (induction evs arbitrary: t st)
  case Nil
  then show ?case by auto
next
  case (Cons ev evs)
  then obtain mid where mid: "rule st ev = Some mid" "rule_run mid evs = Some tgt"
    by (auto split: option.splits)
  define u where "u = moved t mid (reason_text [] ev) (reason_of mid None)"
  have "loop_step t (plain ev) = Some u"
    unfolding plain_def loop_step_iff u_def using Cons.prems mid by auto
  moreover have "\<exists>t'. exec loop_step u (map plain evs) = Some t' \<and> loop_state t' = state_value tgt"
    using Cons.prems mid by (intro Cons.IH [of u mid]) (auto simp: u_def)
  ultimately show ?case by simp
qed

lemma completion_path_run: "\<not> terminal st \<Longrightarrow> rule_run st (completion_path st) = Some Completed"
  by (cases st)
    (simp_all add: terminal_def path_from_planning_def rule_eq_spec rule_spec_def table)

section \<open>Properties\<close>

text \<open>
  \<^verbatim>\<open>LoopTransitionPolicy.apply\<close> on every branch: it raises exactly on an unknown state, on
  an event the table does not allow from the current state, and on a limit event without a
  bounded stop reason; otherwise the task moves to the table's target with the status
  projected from it, the sequence advanced by one, a non-empty reason and the stop reason of
  the target, everything else of the task unchanged. The \<^verbatim>\<open>assert\<close> never fires.
\<close>

theorem apply_event_total:
  "case apply_event t ev reason sr of
     Inl e \<Rightarrow>
       (\<forall>st. loop_state t \<noteq> state_value st) \<and> e = UnknownLoopState (loop_state t) \<or>
       (\<exists>src. loop_state t = state_value src \<and>
          (rule src ev = None \<and> e = NotAllowed ev src \<or>
           src \<in> set working \<and> ev = LimitReached \<and> \<not> bounded_reason sr \<and> e = UnboundedLimit))
   | Inr (t', tr) \<Rightarrow>
       (\<exists>src tgt. loop_state t = state_value src \<and> rule src ev = Some tgt \<and>
          loop_state t' = state_value tgt \<and> status t' = status_value (status_of tgt) \<and>
          transition_sequence t' = transition_sequence t + 1 \<and>
          (\<exists>r. transition_reason t' = Some r \<and> r \<noteq> [] \<and> t_reason tr = r) \<and>
          stop_ok tgt (stop_reason t') \<and>
          loop_target.more t' = loop_target.more t \<and>
          t_source tr = src \<and> t_target tr = tgt \<and> t_event tr = ev \<and>
          t_sequence tr = transition_sequence t')"
proof (cases "apply_event t ev reason sr")
  case (Inl e)
  show ?thesis
    unfolding Inl sum.case using Inl [unfolded apply_event_refused]
    by (auto simp: rule_limit split: option.splits if_splits dest: loop_state_of_SomeD)
next
  case (Inr p)
  obtain t' tr where p: "p = (t', tr)" by (cases p)
  from Inr p obtain src tgt where *: "loop_state t = state_value src" "rule src ev = Some tgt"
    "ev = LimitReached \<longrightarrow> bounded_reason sr"
    "t' = moved t tgt (reason_text reason ev) (reason_of tgt sr)"
    "tr = \<lparr>t_sequence = transition_sequence t + 1, t_source = src, t_target = tgt,
           t_event = ev, t_reason = reason_text reason ev\<rparr>"
    by (auto simp: apply_event_ok_iff)
  have "stop_ok tgt (stop_reason t')"
    using * by (auto simp: rule_into_stopped intro!: stop_ok_reason_of)
  then show ?thesis
    unfolding Inr p sum.case prod.case using *(1,2)
    by (intro exI [of _ src] exI [of _ tgt]) (simp add: *(4,5))
qed

text \<open>
  Along every sequence of accepted transitions from a coherent task, the status and the
  stop reason stay the ones of the loop state (a stop reason is present exactly in the
  terminal states, a bounded one in the stopped state), the sequence number counts the
  transitions, and no transition is accepted after a terminal state.
\<close>

theorem loop_runs_coherent:
  assumes "coherent t" "exec loop_step t ls = Some t'"
  shows "coherent t' \<and> transition_sequence t' = transition_sequence t + int (length ls) \<and>
    (stop_reason t' \<noteq> None \<longleftrightarrow> finished t') \<and> (finished t \<longrightarrow> ls = [] \<and> t' = t)"
proof -
  have c: "coherent t'" using assms by (rule lp.run_inv)
  then have "stop_reason t' \<noteq> None \<longleftrightarrow> finished t'"
    by (auto simp: coherent_def finished_def stop_ok_def terminal_def split: option.splits if_splits)
  with c assms show ?thesis
    using lp.run_clock lp.final_absorbs by blast
qed

definition fresh_target :: loop_target where
  "fresh_target =
     \<lparr>loop_state = state_value Queued, transition_reason = None, transition_sequence = 0,
      status = status_value Pending, stop_reason = None\<rparr>"

lemma coherent_fresh [simp]: "coherent fresh_target"
  by (simp add: coherent_def fresh_target_def stop_ok_def)

lemma fresh_claim: "exec loop_step fresh_target [plain Claim] =
  Some (moved fresh_target Preparing ''claim'' None)"
proof -
  have "loop_step fresh_target (plain Claim) = Some (moved fresh_target Preparing ''claim'' None)"
    unfolding plain_def loop_step_iff
    by (auto simp: fresh_target_def rule_eq_spec rule_spec_def table reason_text_def
        or_default_def reason_of_def)
  then show ?thesis by simp
qed

theorem loop_runs_coherent_witness:
  "coherent (moved fresh_target Preparing ''claim'' None) \<and>
   transition_sequence (moved fresh_target Preparing ''claim'' None) = 1"
  using loop_runs_coherent [OF coherent_fresh fresh_claim]
  by (simp add: fresh_target_def)

text \<open>
  C29. A task completes only through verification: every sequence of accepted transitions
  that takes a task from a state other than verifying or completed into the completed state
  ends with a verification request followed at once by its acceptance.
\<close>

theorem completed_only_verified:
  assumes "exec loop_step t ls = Some t'" "loop_state t' = state_value Completed"
    "loop_state t \<notin> {state_value Verifying, state_value Completed}"
  shows "\<exists>ks r1 s1 r2 s2. ls = ks @ [(VerificationRequested, r1, s1), (VerificationAccepted, r2, s2)]"
proof -
  obtain ks ev reason sr u src where 1: "ls = ks @ [(ev, reason, sr)]"
    "exec loop_step t ks = Some u" "loop_state u = state_value src" "rule src ev = Some Completed"
    by (rule exec_last_loop_step [OF assms(1,2)]) (use assms(3) in auto)
  then have 2: "src = Verifying" "ev = VerificationAccepted" by (auto simp: rule_into_completed)
  obtain js ev' reason' sr' v src' where 3: "ks = js @ [(ev', reason', sr')]"
    "rule src' ev' = Some Verifying"
    by (rule exec_last_loop_step [OF 1(2) 1(3) [unfolded 2(1)]]) (use assms(3) in auto)
  with 1 2 show ?thesis by (auto simp: rule_into_verifying)
qed

theorem completed_only_verified_witness:
  "\<exists>t'. exec loop_step fresh_target (map plain (completion_path Queued)) = Some t' \<and>
     (\<exists>ks r1 s1 r2 s2. map plain (completion_path Queued) =
        ks @ [(VerificationRequested, r1, s1), (VerificationAccepted, r2, s2)])"
proof -
  have "loop_state fresh_target = state_value Queued" by (simp add: fresh_target_def)
  from rule_run_exec [OF this completion_path_run]
  obtain t' where t': "exec loop_step fresh_target (map plain (completion_path Queued)) = Some t'"
    "loop_state t' = state_value Completed"
    by (auto simp: terminal_def path_from_planning_def)
  show ?thesis
    using completed_only_verified [OF t'] t'(1) by (auto simp: fresh_target_def)
qed

text \<open>
  No active state is a dead end: from each of them a schedule of at most five events
  the policy accepts completes the task, and a cancellation and a failure are accepted at
  once; the claimable states are exactly those a worker may claim or recover.
\<close>

theorem active_states_live:
  assumes "loop_state t = state_value st" "\<not> terminal st"
  shows "(\<exists>t'. exec loop_step t (map plain (completion_path st)) = Some t' \<and>
            loop_state t' = state_value Completed) \<and>
         length (completion_path st) \<le> 5 \<and>
         rule st Cancel = Some Cancelled \<and> rule st Fail = Some Failed \<and>
         (st \<in> set claimable_states \<longleftrightarrow> rule st Claim \<noteq> None \<or> rule st Recover \<noteq> None)"
proof (intro conjI)
  show "\<exists>t'. exec loop_step t (map plain (completion_path st)) = Some t' \<and>
          loop_state t' = state_value Completed"
    using assms by (intro rule_run_exec [OF assms(1) completion_path_run])
      (cases st; simp add: path_from_planning_def)+
  show "length (completion_path st) \<le> 5" by (cases st) (simp_all add: path_from_planning_def)
  show "rule st Cancel = Some Cancelled" "rule st Fail = Some Failed"
    using assms(2) by (auto simp: rule_iff terminal_iff)
  show "st \<in> set claimable_states \<longleftrightarrow> rule st Claim \<noteq> None \<or> rule st Recover \<noteq> None"
    by (cases st) (simp_all add: rule_eq_spec rule_spec_def table claimable_states_def)
qed

theorem active_states_live_witness:
  "\<exists>t'. exec loop_step fresh_target (map plain (completion_path Queued)) = Some t' \<and>
     loop_state t' = state_value Completed"
  using active_states_live [of fresh_target Queued]
  by (simp add: fresh_target_def terminal_def)

end
