(* ===== verification/Ledger.thy ===== *)
theory Ledger
  imports Py_Json Sha256 Transition
begin

text \<open>
  \<^verbatim>\<open>services/ledger.py\<close> and the step row of \<^verbatim>\<open>db/models/step.py\<close>: the hash chain over the
  steps of a task, anchored at a genesis derived from the task id, and its verification.
  SHA-256 is the function of theory \<open>Sha256\<close>; nothing is assumed about it. What tampering
  costs is stated as a collision among the texts the two chains hash, which are listed.
\<close>

section \<open>Hash chains\<close>

text \<open>
  The interface: a digest, an origin text and a link from the previous digest and the next
  content to the text that is hashed. The provider owes that a linked text determines the
  digest and the content (up to the normal form \<open>canon\<close>) and differs from the origin.
\<close>

definition chain_head :: "('t \<Rightarrow> 'h) \<Rightarrow> ('h \<Rightarrow> 'c \<Rightarrow> 't) \<Rightarrow> 't \<Rightarrow> 'c list \<Rightarrow> 'h" where
  "chain_head digest link origin cs = foldl (\<lambda>h c. digest (link h c)) (digest origin) cs"

fun link_texts :: "('t \<Rightarrow> 'h) \<Rightarrow> ('h \<Rightarrow> 'c \<Rightarrow> 't) \<Rightarrow> 'h \<Rightarrow> 'c list \<Rightarrow> 't list" where
  "link_texts digest link h [] = []"
| "link_texts digest link h (c # cs) = link h c # link_texts digest link (digest (link h c)) cs"

definition chain_texts :: "('t \<Rightarrow> 'h) \<Rightarrow> ('h \<Rightarrow> 'c \<Rightarrow> 't) \<Rightarrow> 't \<Rightarrow> 'c list \<Rightarrow> 't list" where
  "chain_texts digest link origin cs = origin # link_texts digest link (digest origin) cs"

lemma chain_head_Nil [simp]: "chain_head digest link origin [] = digest origin"
  by (simp add: chain_head_def)

lemma chain_head_snoc [simp]:
  "chain_head digest link origin (cs @ [c]) = digest (link (chain_head digest link origin cs) c)"
  by (simp add: chain_head_def)

lemma link_texts_append:
  "link_texts digest link h (cs @ ds) =
     link_texts digest link h cs @
     link_texts digest link (foldl (\<lambda>h c. digest (link h c)) h cs) ds"
  by (induction cs arbitrary: h) auto

lemma chain_texts_snoc [simp]:
  "chain_texts digest link origin (cs @ [c]) =
     chain_texts digest link origin cs @ [link (chain_head digest link origin cs) c]"
  by (simp add: chain_texts_def link_texts_append chain_head_def)

lemma origin_in_texts [simp]: "origin \<in> set (chain_texts digest link origin cs)"
  by (simp add: chain_texts_def)

definition collides :: "('t \<Rightarrow> 'h) \<Rightarrow> 't list \<Rightarrow> 't list \<Rightarrow> bool" where
  "collides digest ts us = list_ex (\<lambda>t. list_ex (\<lambda>u. t \<noteq> u \<and> digest t = digest u) us) ts"

lemma collidesI: "t \<in> set ts \<Longrightarrow> u \<in> set us \<Longrightarrow> t \<noteq> u \<Longrightarrow> digest t = digest u \<Longrightarrow> collides digest ts us"
  by (auto simp: collides_def list_ex_iff)

lemma collides_mono:
  "collides digest ts us \<Longrightarrow> set ts \<subseteq> set ts' \<Longrightarrow> set us \<subseteq> set us' \<Longrightarrow> collides digest ts' us'"
  by (auto simp: collides_def list_ex_iff)

locale hash_chain =
  fixes digest :: "'t \<Rightarrow> 'h"
    and link :: "'h \<Rightarrow> 'c \<Rightarrow> 't"
    and origin :: 't
    and ok :: "'c \<Rightarrow> bool"
    and canon :: "'c \<Rightarrow> 'n"
  assumes link_inj: "ok c \<Longrightarrow> ok d \<Longrightarrow> link (digest a) c = link (digest b) d \<Longrightarrow>
      digest a = digest b \<and> canon c = canon d"
    and link_not_origin: "link (digest a) c \<noteq> origin"
begin

lemma head_is_digest: "\<exists>t. chain_head digest link origin cs = digest t"
  by (cases cs rule: rev_cases) auto

lemma last_text_hashed:
  "chain_head digest link origin cs = digest (last (chain_texts digest link origin cs))"
proof (cases cs rule: rev_cases)
  case Nil
  then show ?thesis by (simp add: chain_texts_def)
qed simp

lemma last_text_in: "last (chain_texts digest link origin cs) \<in> set (chain_texts digest link origin cs)"
  by (simp add: chain_texts_def)

text \<open>Equal heads: the same contents in the same order, or a collision that can be shown.\<close>

lemma heads_equal:
  assumes "\<forall>c \<in> set cs. ok c" "\<forall>d \<in> set ds. ok d"
    "chain_head digest link origin cs = chain_head digest link origin ds"
  shows "map canon cs = map canon ds \<or>
    collides digest (chain_texts digest link origin cs) (chain_texts digest link origin ds)"
  using assms
proof (induction cs arbitrary: ds rule: rev_induct)
  case Nil
  show ?case
  proof (cases ds rule: rev_cases)
    case (snoc ds' d)
    obtain a where a: "chain_head digest link origin ds' = digest a" using head_is_digest by blast
    have "collides digest (chain_texts digest link origin []) (chain_texts digest link origin ds)"
      using Nil.prems(3) link_not_origin [of a d] unfolding snoc
      by (intro collidesI [of origin _ "link (digest a) d"]) (auto simp: a)
    then show ?thesis ..
  qed simp
next
  case (snoc c cs)
  obtain a where a: "chain_head digest link origin cs = digest a" using head_is_digest by blast
  show ?case
  proof (cases ds rule: rev_cases)
    case Nil
    have "collides digest (chain_texts digest link origin (cs @ [c])) (chain_texts digest link origin ds)"
      using snoc.prems(3) link_not_origin [of a c] unfolding Nil
      by (intro collidesI [of "link (digest a) c" _ origin]) (auto simp: a)
    then show ?thesis ..
  next
    case (snoc ds' d)
    obtain b where b: "chain_head digest link origin ds' = digest b" using head_is_digest by blast
    show ?thesis
    proof (cases "link (digest a) c = link (digest b) d")
      case True
      then have eq: "digest a = digest b" "canon c = canon d"
        using link_inj snoc.prems(1,2) snoc by auto
      then have "map canon cs = map canon ds' \<or>
          collides digest (chain_texts digest link origin cs) (chain_texts digest link origin ds')"
        using snoc.prems(1,2) snoc a b by (intro snoc.IH) auto
      then show ?thesis
      proof
        assume "map canon cs = map canon ds'"
        with eq snoc show ?thesis by simp
      next
        assume "collides digest (chain_texts digest link origin cs) (chain_texts digest link origin ds')"
        then have "collides digest (chain_texts digest link origin (cs @ [c]))
            (chain_texts digest link origin ds)"
          unfolding snoc by (rule collides_mono) auto
        then show ?thesis ..
      qed
    next
      case False
      have "collides digest (chain_texts digest link origin (cs @ [c])) (chain_texts digest link origin ds)"
        using snoc.prems(3) False unfolding snoc
        by (intro collidesI [of "link (digest a) c" _ "link (digest b) d"]) (auto simp: a b)
      then show ?thesis ..
    qed
  qed
qed

end

section \<open>The step hash\<close>

record step =
  st_number :: int
  st_thought :: string
  st_tool :: string
  st_tool_args :: jdict
  st_observation :: string
  st_status :: string
  st_tokens :: int
  st_prev_hash :: "string option"
  st_hash :: string

definition genesis_prefix :: string where
  "genesis_prefix = ''loop-ledger-genesis:''"

definition genesis_text :: "string \<Rightarrow> string" where
  "genesis_text task_id = genesis_prefix @ task_id"

definition genesis_hash :: "string \<Rightarrow> string" where
  "genesis_hash task_id = sha256_hex (genesis_text task_id)"

definition step_fields ::
  "int \<Rightarrow> string \<Rightarrow> jdict \<Rightarrow> string \<Rightarrow> string \<Rightarrow> int \<Rightarrow> string \<Rightarrow> json" where
  "step_fields number tool tool_args observation status tokens thought =
     (let core =
        [(''n'', JInt number), (''tool'', JStr tool), (''args'', JObj tool_args),
         (''obs'', JStr observation), (''status'', JStr status), (''tokens'', JInt tokens)]
      in JObj (if thought \<noteq> [] then dset ''thought'' (JStr thought) core else core))"

definition link_text :: "string \<Rightarrow> json \<Rightarrow> string" where
  "link_text prev body = prev @ canonical body"

definition step_hash ::
  "string \<Rightarrow> int \<Rightarrow> string \<Rightarrow> jdict \<Rightarrow> string \<Rightarrow> string \<Rightarrow> int \<Rightarrow> string \<Rightarrow> string" where
  "step_hash prev number tool tool_args observation status tokens thought =
     sha256_hex (link_text prev (step_fields number tool tool_args observation status tokens thought))"

definition expected_hash :: "string \<Rightarrow> step \<Rightarrow> string" where
  "expected_hash prev s =
     step_hash prev (st_number s) (st_tool s) (st_tool_args s) (st_observation s) (st_status s)
       (st_tokens s) (st_thought s)"

definition legacy_hash :: "string \<Rightarrow> step \<Rightarrow> string" where
  "legacy_hash prev s =
     step_hash prev (st_number s) (st_tool s) (st_tool_args s) (st_observation s) (st_status s)
       (st_tokens s) []"

fun verify_from :: "string \<Rightarrow> step list \<Rightarrow> bool \<times> int option" where
  "verify_from prev [] = (True, None)"
| "verify_from prev (s # steps) =
     (if st_prev_hash s \<noteq> Some prev then (False, Some (st_number s))
      else if st_hash s \<noteq> expected_hash prev s \<and> st_hash s \<noteq> legacy_hash prev s
      then (False, Some (st_number s))
      else verify_from (st_hash s) steps)"

definition verify_chain :: "string \<Rightarrow> step list \<Rightarrow> bool \<times> int option" where
  "verify_chain task_id steps = verify_from (genesis_hash task_id) steps"

text \<open>\<^verbatim>\<open>steps[-1].hash if steps else genesis_hash(task_id)\<close>: the head a receipt records.\<close>

definition ledger_head :: "string \<Rightarrow> step list \<Rightarrow> string" where
  "ledger_head task_id steps = (if steps = [] then genesis_hash task_id else st_hash (last steps))"

section \<open>Chains as they are built and checked\<close>

definition link_ok :: "string \<Rightarrow> step \<Rightarrow> bool" where
  "link_ok prev s =
     (st_prev_hash s = Some prev \<and> (st_hash s = expected_hash prev s \<or> st_hash s = legacy_hash prev s))"

fun links_ok :: "string \<Rightarrow> step list \<Rightarrow> bool" where
  "links_ok prev [] = True"
| "links_ok prev (s # steps) = (link_ok prev s \<and> links_ok (st_hash s) steps)"

definition head_from :: "string \<Rightarrow> step list \<Rightarrow> string" where
  "head_from prev steps = foldl (\<lambda>h s. st_hash s) prev steps"

lemma head_from_simps [simp]:
  "head_from prev [] = prev"
  "head_from prev (s # steps) = head_from (st_hash s) steps"
  "head_from prev (steps @ [s]) = st_hash s"
  by (simp_all add: head_from_def)

lemma ledger_head_eq: "ledger_head task_id steps = head_from (genesis_hash task_id) steps"
  by (cases steps rule: rev_cases) (simp_all add: ledger_head_def)

lemma verify_from_ok: "verify_from prev steps = (True, None) \<longleftrightarrow> links_ok prev steps"
  by (induction prev steps rule: verify_from.induct) (auto simp: link_ok_def)

lemma verify_from_fst: "fst (verify_from prev steps) \<longleftrightarrow> links_ok prev steps"
  by (induction prev steps rule: verify_from.induct) (auto simp: link_ok_def)

lemma links_ok_append:
  "links_ok prev (xs @ ys) \<longleftrightarrow> links_ok prev xs \<and> links_ok (head_from prev xs) ys"
  by (induction xs arbitrary: prev) auto

lemma verify_from_broken:
  "verify_from prev steps = (False, Some n) \<longleftrightarrow>
     (\<exists>xs s ys. steps = xs @ s # ys \<and> links_ok prev xs \<and> \<not> link_ok (head_from prev xs) s \<and>
        st_number s = n)"
proof (induction prev steps rule: verify_from.induct)
  case (2 prev s steps)
  show ?case
  proof (cases "link_ok prev s")
    case True
    then have "verify_from prev (s # steps) = verify_from (st_hash s) steps"
      by (auto simp: link_ok_def)
    moreover have "(\<exists>xs s' ys. s # steps = xs @ s' # ys \<and> links_ok prev xs \<and>
        \<not> link_ok (head_from prev xs) s' \<and> st_number s' = n) \<longleftrightarrow>
      (\<exists>xs s' ys. steps = xs @ s' # ys \<and> links_ok (st_hash s) xs \<and>
        \<not> link_ok (head_from (st_hash s) xs) s' \<and> st_number s' = n)" (is "?L \<longleftrightarrow> ?R")
    proof
      assume ?L
      then obtain xs s' ys where *: "s # steps = xs @ s' # ys" "links_ok prev xs"
        "\<not> link_ok (head_from prev xs) s'" "st_number s' = n" by blast
      with True obtain zs where "xs = s # zs" by (cases xs) auto
      with * show ?R by auto
    next
      assume ?R
      then obtain xs s' ys where *: "steps = xs @ s' # ys" "links_ok (st_hash s) xs"
        "\<not> link_ok (head_from (st_hash s) xs) s'" "st_number s' = n" by blast
      with True show ?L by (intro exI [of _ "s # xs"] exI [of _ s'] exI [of _ ys]) auto
    qed
    ultimately show ?thesis
      using "2" True by (auto simp: link_ok_def)
  next
    case False
    then have "verify_from prev (s # steps) = (False, Some (st_number s))"
      by (auto simp: link_ok_def)
    moreover have "s # steps = xs @ s' # ys \<Longrightarrow> links_ok prev xs \<Longrightarrow> xs = []" for xs s' ys
      using False by (cases xs) auto
    ultimately show ?thesis using False by force
  qed
qed simp

section \<open>What the head of a chain vouches for\<close>

definition args_wf :: "step \<Rightarrow> bool" where
  "args_wf s = wf_json (JObj (st_tool_args s))"

definition sealed_thought :: "string \<Rightarrow> step \<Rightarrow> string" where
  "sealed_thought prev s = (if st_hash s = expected_hash prev s then st_thought s else [])"

definition sealed_fields :: "string \<Rightarrow> step \<Rightarrow> json" where
  "sealed_fields prev s =
     step_fields (st_number s) (st_tool s) (st_tool_args s) (st_observation s) (st_status s)
       (st_tokens s) (sealed_thought prev s)"

fun sealed_from :: "string \<Rightarrow> step list \<Rightarrow> json list" where
  "sealed_from prev [] = []"
| "sealed_from prev (s # steps) = sealed_fields prev s # sealed_from (st_hash s) steps"

definition ledger_texts :: "string \<Rightarrow> step list \<Rightarrow> string list" where
  "ledger_texts task_id steps =
     chain_texts sha256_hex link_text (genesis_text task_id) (sealed_from (genesis_hash task_id) steps)"

text \<open>Two steps say the same: everything the hash covers is equal, dictionaries up to the
  order of their keys.\<close>

definition same_record :: "step \<Rightarrow> step \<Rightarrow> bool" where
  "same_record s s' =
     (st_number s = st_number s' \<and> st_tool s = st_tool s' \<and>
      canonical (JObj (st_tool_args s)) = canonical (JObj (st_tool_args s')) \<and>
      st_observation s = st_observation s' \<and> st_status s = st_status s' \<and>
      st_tokens s = st_tokens s')"

lemma wf_step_fields: "wf_json (JObj args) \<Longrightarrow> wf_json (step_fields n t args obs st tk th)"
  by (auto simp: step_fields_def Let_def dset_def)

lemma step_fields_obj:
  "\<exists>d. step_fields n t args obs st tk th = JObj d \<and> distinct (map fst d) \<and>
     map_of d ''n'' = Some (JInt n) \<and> map_of d ''tool'' = Some (JStr t) \<and>
     map_of d ''args'' = Some (JObj args) \<and> map_of d ''obs'' = Some (JStr obs) \<and>
     map_of d ''status'' = Some (JStr st) \<and> map_of d ''tokens'' = Some (JInt tk) \<and>
     map_of d ''thought'' = (if th = [] then None else Some (JStr th))"
  by (auto simp: step_fields_def Let_def dset_def)

lemma step_fields_inj:
  assumes "sort_keys (step_fields n t args obs st tk th) =
      sort_keys (step_fields n' t' args' obs' st' tk' th')"
  shows "n = n' \<and> t = t' \<and> sort_keys (JObj args) = sort_keys (JObj args') \<and> obs = obs' \<and>
    st = st' \<and> tk = tk' \<and> th = th'"
proof -
  obtain d where d: "step_fields n t args obs st tk th = JObj d" "distinct (map fst d)"
    "map_of d ''n'' = Some (JInt n)" "map_of d ''tool'' = Some (JStr t)"
    "map_of d ''args'' = Some (JObj args)" "map_of d ''obs'' = Some (JStr obs)"
    "map_of d ''status'' = Some (JStr st)" "map_of d ''tokens'' = Some (JInt tk)"
    "map_of d ''thought'' = (if th = [] then None else Some (JStr th))"
    using step_fields_obj [of n t args obs st tk th] by blast
  obtain e where e: "step_fields n' t' args' obs' st' tk' th' = JObj e" "distinct (map fst e)"
    "map_of e ''n'' = Some (JInt n')" "map_of e ''tool'' = Some (JStr t')"
    "map_of e ''args'' = Some (JObj args')" "map_of e ''obs'' = Some (JStr obs')"
    "map_of e ''status'' = Some (JStr st')" "map_of e ''tokens'' = Some (JInt tk')"
    "map_of e ''thought'' = (if th' = [] then None else Some (JStr th'))"
    using step_fields_obj [of n' t' args' obs' st' tk' th'] by blast
  have "map_option sort_keys (map_of d k) = map_option sort_keys (map_of e k)" for k
    using assms d(1,2) e(1,2) by (intro sort_keys_members) simp_all
  note m = this
  show ?thesis
    using m [of "''n''"] m [of "''tool''"] m [of "''args''"] m [of "''obs''"] m [of "''status''"]
      m [of "''tokens''"] m [of "''thought''"]
    by (simp add: d(3-9) e(3-9) del: sort_keys.simps(2) split: if_splits)
qed

interpretation lg: hash_chain sha256_hex link_text "genesis_text task_id" wf_json sort_keys
  for task_id
proof
  fix c d :: json and a b :: string
  show "sha256_hex a = sha256_hex b \<and> sort_keys c = sort_keys d"
    if "wf_json c" "wf_json d" "link_text (sha256_hex a) c = link_text (sha256_hex b) d"
    using that canonical_inj [OF that(1,2)] by (simp add: link_text_def)
next
  fix a :: string and c :: json
  have "hd (link_text (sha256_hex a) c) = hd (sha256_hex a)"
    by (simp add: link_text_def hd_append)
  moreover have "ord_of (hd (sha256_hex a)) \<le> 102" by (rule sha256_hex_ord [of _ a]) simp
  moreover have "ord_of (hd (genesis_text task_id)) = 108"
    by (simp add: genesis_text_def genesis_prefix_def)
  ultimately show "link_text (sha256_hex a) c \<noteq> genesis_text task_id" by force
qed

lemma link_ok_hash: "link_ok prev s \<Longrightarrow> st_hash s = sha256_hex (link_text prev (sealed_fields prev s))"
  by (auto simp: link_ok_def sealed_fields_def sealed_thought_def expected_hash_def legacy_hash_def
      step_hash_def)

lemma head_from_sealed:
  "links_ok prev steps \<Longrightarrow>
     head_from prev steps = foldl (\<lambda>h c. sha256_hex (link_text h c)) prev (sealed_from prev steps)"
  by (induction steps arbitrary: prev) (auto simp: link_ok_hash [symmetric])

lemma ledger_head_chain:
  "fst (verify_chain task_id steps) \<Longrightarrow>
     ledger_head task_id steps =
       chain_head sha256_hex link_text (genesis_text task_id) (sealed_from (genesis_hash task_id) steps)"
  by (simp add: verify_chain_def verify_from_fst ledger_head_eq head_from_sealed chain_head_def
      genesis_hash_def)

lemma sealed_from_wf: "\<forall>s \<in> set steps. args_wf s \<Longrightarrow> c \<in> set (sealed_from prev steps) \<Longrightarrow> wf_json c"
  by (induction steps arbitrary: prev) (auto simp: args_wf_def sealed_fields_def wf_step_fields)

lemma sealed_fields_same:
  "sort_keys (sealed_fields p s) = sort_keys (sealed_fields q s') \<Longrightarrow>
     same_record s s' \<and> sealed_thought p s = sealed_thought q s'"
  unfolding sealed_fields_def same_record_def canonical_def
  by (drule step_fields_inj) (simp del: sort_keys.simps)

lemma sealed_from_same:
  "map sort_keys (sealed_from p xs) = map sort_keys (sealed_from q ys) \<Longrightarrow> list_all2 same_record xs ys"
proof (induction xs arbitrary: p q ys)
  case Nil
  then show ?case by (cases ys) auto
next
  case (Cons x xs)
  then obtain y ys' where ys: "ys = y # ys'" by (cases ys) auto
  with Cons show ?case by (auto dest: sealed_fields_same)
qed

section \<open>The operations on the ledger of a task\<close>

text \<open>
  \<^verbatim>\<open>_record_step\<close> of the agent appends a step sealed against the last hash;
  \<^verbatim>\<open>TaskService.respond\<close> rewrites the observation of the last step and seals it again.
\<close>

definition new_step ::
  "string \<Rightarrow> int \<Rightarrow> string \<Rightarrow> string \<Rightarrow> jdict \<Rightarrow> string \<Rightarrow> string \<Rightarrow> int \<Rightarrow> step" where
  "new_step prev number thought tool args observation status tokens =
     \<lparr>st_number = number, st_thought = thought, st_tool = tool, st_tool_args = args,
      st_observation = observation, st_status = status, st_tokens = tokens,
      st_prev_hash = Some prev,
      st_hash = step_hash prev number tool args observation status tokens thought\<rparr>"

definition reseal :: "step \<Rightarrow> step" where
  "reseal s =
     s\<lparr>st_hash := expected_hash (case st_prev_hash s of None \<Rightarrow> [] | Some p \<Rightarrow> p) s\<rparr>"

definition amend_last :: "string \<Rightarrow> step list \<Rightarrow> step list" where
  "amend_last observation steps =
     (if steps = [] then [] else butlast steps @ [reseal (last steps\<lparr>st_observation := observation\<rparr>)])"

lemma expected_hash_upd [simp]: "expected_hash p (s\<lparr>st_hash := h\<rparr>) = expected_hash p s"
  by (simp add: expected_hash_def)

lemma link_ok_new_step: "link_ok prev (new_step prev n th tool args obs st tk)"
  by (simp add: link_ok_def new_step_def expected_hash_def)

lemma link_ok_reseal: "st_prev_hash s = Some prev \<Longrightarrow> link_ok prev (reseal s)"
  by (simp add: link_ok_def reseal_def)

lemma link_ok_prev: "link_ok prev s \<Longrightarrow> st_prev_hash s = Some prev"
  by (simp add: link_ok_def)

lemma verify_chain_snoc:
  "fst (verify_chain task_id (xs @ [s])) \<longleftrightarrow>
     fst (verify_chain task_id xs) \<and> link_ok (ledger_head task_id xs) s"
  by (simp add: verify_chain_def verify_from_fst links_ok_append ledger_head_eq)

lemma verify_chain_append_step:
  "fst (verify_chain task_id xs) \<Longrightarrow>
     fst (verify_chain task_id (xs @ [new_step (ledger_head task_id xs) n th tool args obs st tk]))"
  by (simp add: verify_chain_snoc link_ok_new_step)

lemma verify_chain_amend_last:
  "fst (verify_chain task_id xs) \<Longrightarrow> fst (verify_chain task_id (amend_last obs xs))"
  by (cases xs rule: rev_cases)
    (auto simp: amend_last_def verify_chain_snoc dest: link_ok_prev intro!: link_ok_reseal)

lemma length_amend_last [simp]: "length (amend_last obs xs) = length xs"
  by (cases xs rule: rev_cases) (simp_all add: amend_last_def)

datatype ledger_op =
    Record int string string jdict string string int
  | Amend string

fun ledger_step :: "string \<Rightarrow> step list \<Rightarrow> ledger_op \<Rightarrow> step list option" where
  "ledger_step task_id steps (Record n th tool args obs st tk) =
     Some (steps @ [new_step (ledger_head task_id steps) n th tool args obs st tk])"
| "ledger_step task_id steps (Amend obs) =
     (if steps = [] then None else Some (amend_last obs steps))"

interpretation lo: invariant_machine "ledger_step task_id" "\<lambda>steps. fst (verify_chain task_id steps)"
  for task_id
proof
  fix s t l
  show "fst (verify_chain task_id t)"
    if "fst (verify_chain task_id s)" "ledger_step task_id s l = Some t"
    using that by (cases l) (auto simp: verify_chain_append_step verify_chain_amend_last split: if_splits)
qed

section \<open>Properties\<close>

text \<open>The samples the witnesses use.\<close>

definition sample_ops :: "ledger_op list" where
  "sample_ops =
     [Record 1 ''plan'' ''ask_user'' [(''question'', JStr ''which'')] ''waiting'' ''ok'' 7,
      Amend ''answered'',
      Record 2 [] ''finish'' [] ''done'' ''ok'' 5]"

definition sample_chain :: "string \<Rightarrow> step list" where
  "sample_chain task_id =
     (let s1 = reseal (new_step (genesis_hash task_id) 1 ''plan'' ''ask_user''
                 [(''question'', JStr ''which'')] ''waiting'' ''ok'' 7\<lparr>st_observation := ''answered''\<rparr>)
      in [s1, new_step (st_hash s1) 2 [] ''finish'' [] ''done'' ''ok'' 5])"

lemma sample_exec: "exec (ledger_step task_id) [] sample_ops = Some (sample_chain task_id)"
  by (simp add: sample_ops_def sample_chain_def Let_def amend_last_def ledger_head_def)

lemma verify_chain_Nil: "fst (verify_chain task_id [])"
  by (simp add: verify_chain_def)

text \<open>
  \<^verbatim>\<open>verify_chain\<close> accepts exactly the chains in which every step is linked to the one
  before it (the first to the genesis), and otherwise reports the number of the first step
  whose link is broken.
\<close>

theorem verify_chain_reports_first_break:
  "(verify_chain task_id steps = (True, None) \<longleftrightarrow> links_ok (genesis_hash task_id) steps) \<and>
   (verify_chain task_id steps = (False, Some n) \<longleftrightarrow>
      (\<exists>xs s ys. steps = xs @ s # ys \<and> verify_chain task_id xs = (True, None) \<and>
         \<not> link_ok (ledger_head task_id xs) s \<and> st_number s = n))"
  by (simp add: verify_chain_def verify_from_ok verify_from_broken ledger_head_eq)

text \<open>
  C28. Whatever sequence of recorded steps and recorded answers a task goes through, its
  ledger verifies from the genesis.
\<close>

theorem recorded_ledger_verifies:
  assumes "exec (ledger_step task_id) [] ops = Some steps"
  shows "verify_chain task_id steps = (True, None)"
  using lo.run_inv [OF verify_chain_Nil assms]
  by (simp add: verify_chain_def verify_from_fst verify_from_ok)

theorem recorded_ledger_verifies_witness:
  "verify_chain ''t'' (sample_chain ''t'') = (True, None) \<and> length (sample_chain ''t'') = 2"
  using recorded_ledger_verifies [OF sample_exec, of "''t''"] by (simp add: sample_chain_def Let_def)


definition two_keys :: "bool \<Rightarrow> step list" where
  "two_keys swap =
     [new_step (genesis_hash ''t'') 1 ''go'' ''run_command''
        (if swap then [(''b'', JInt 2), (''a'', JInt 1)] else [(''a'', JInt 1), (''b'', JInt 2)])
        ''out'' ''ok'' 7]"

lemma two_keys_canonical:
  "canonical (step_fields 1 ''run_command'' [(''b'', JInt 2), (''a'', JInt 1)] ''out'' ''ok'' 7 ''go'') =
   canonical (step_fields 1 ''run_command'' [(''a'', JInt 1), (''b'', JInt 2)] ''out'' ''ok'' 7 ''go'')"
  by code_simp


text \<open>
  A thought added to a step that was sealed without one is not detected: the fallback to
  the hash without the thought accepts any thought text.
\<close>

definition set_thought :: "string \<Rightarrow> step \<Rightarrow> step" where
  "set_thought th s = s\<lparr>st_thought := th\<rparr>"

lemma link_ok_set_thought: "link_ok p s \<Longrightarrow> st_thought s = [] \<Longrightarrow> link_ok p (set_thought th s)"
  by (auto simp: link_ok_def set_thought_def expected_hash_def legacy_hash_def)

theorem thought_added_undetected:
  assumes "fst (verify_chain task_id (xs @ s # ys))" "st_thought s = []"
  shows "fst (verify_chain task_id (xs @ set_thought th s # ys)) \<and>
    ledger_head task_id (xs @ set_thought th s # ys) = ledger_head task_id (xs @ s # ys)"
  using assms link_ok_set_thought
  by (auto simp: verify_chain_def verify_from_fst ledger_head_eq links_ok_append head_from_def
      set_thought_def)

theorem thought_added_undetected_witness:
  "fst (verify_chain ''t'' ([hd (sample_chain ''t'')] @ [set_thought ''x'' (last (sample_chain ''t''))]))"
proof -
  have e: "[hd (sample_chain ''t'')] @ last (sample_chain ''t'') # [] = sample_chain ''t''"
    by (simp add: sample_chain_def Let_def)
  have "fst (verify_chain ''t'' ([hd (sample_chain ''t'')] @ last (sample_chain ''t'') # []))"
    unfolding e by (rule lo.run_inv [OF verify_chain_Nil sample_exec])
  from thought_added_undetected [OF this, of "''x''"] show ?thesis
    by (simp add: sample_chain_def Let_def new_step_def)
qed

end
