(* ===== verification/Capability_Model.thy ===== *)
theory Capability_Model
  imports Prelude
begin

text \<open>
  \<^verbatim>\<open>domain/capability.py\<close> and \<^verbatim>\<open>tools/envelope.py\<close>: the typed authority of a task, the
  capabilities each tool needs, the legacy toggles, and the envelope that the tool dispatch
  consults. Python \<^verbatim>\<open>frozenset\<close>s are HOL sets; every set is finite and given by a list, so
  the definitions compute.
\<close>

section \<open>Capabilities\<close>

datatype capability =
    FsRead
  | FsWrite
  | Exec
  | NetShell
  | NetBrowser
  | EmailRead
  | EmailSend
  | CalendarRead
  | CalendarWrite
  | Vision
  | ResearchRead
  | QaBrowser
  | MemoryRead
  | MemoryWrite
  | TaskSpawn

fun capability_value :: "capability \<Rightarrow> string" where
  "capability_value FsRead = ''fs.read''"
| "capability_value FsWrite = ''fs.write''"
| "capability_value Exec = ''exec''"
| "capability_value NetShell = ''net.shell''"
| "capability_value NetBrowser = ''net.browser''"
| "capability_value EmailRead = ''email.read''"
| "capability_value EmailSend = ''email.send''"
| "capability_value CalendarRead = ''calendar.read''"
| "capability_value CalendarWrite = ''calendar.write''"
| "capability_value Vision = ''vision''"
| "capability_value ResearchRead = ''research.read''"
| "capability_value QaBrowser = ''qa.browser''"
| "capability_value MemoryRead = ''memory.read''"
| "capability_value MemoryWrite = ''memory.write''"
| "capability_value TaskSpawn = ''task.spawn''"

definition all_capabilities :: "capability list" where
  "all_capabilities = [FsRead, FsWrite, Exec, NetShell, NetBrowser, EmailRead, EmailSend,
     CalendarRead, CalendarWrite, Vision, ResearchRead, QaBrowser, MemoryRead, MemoryWrite,
     TaskSpawn]"

definition capability_of :: "string \<Rightarrow> capability option" where
  "capability_of v = find (\<lambda>c. capability_value c = v) all_capabilities"

definition control_tools :: "string list" where
  "control_tools = [''finish'', ''ask_user'']"

definition tool_capabilities :: "(string \<times> capability set) list" where
  "tool_capabilities =
    [(''read_file'', {FsRead}),
     (''write_file'', {FsWrite}),
     (''edit_file'', {FsRead, FsWrite}),
     (''run_command'', {Exec}),
     (''remember'', {MemoryWrite}),
     (''spawn'', {TaskSpawn}),
     (''read_inbox'', {EmailRead}),
     (''send_email'', {EmailSend}),
     (''list_events'', {CalendarRead}),
     (''create_event'', {CalendarWrite}),
     (''see_image'', {Vision, FsRead})]"

definition executor_tool_capabilities :: "(string \<times> capability) list" where
  "executor_tool_capabilities =
    [(''read_file'', FsRead), (''write_file'', FsWrite), (''edit_file'', FsWrite),
     (''run_command'', Exec)]"

definition executor_tools :: "string list" where
  "executor_tools = map fst executor_tool_capabilities"

definition legacy_default_capabilities :: "capability set" where
  "legacy_default_capabilities = {FsRead, FsWrite, Exec, MemoryRead, MemoryWrite, TaskSpawn}"

text \<open>\<^verbatim>\<open>parse_capabilities\<close>: an unknown value raises \<^verbatim>\<open>ValueError\<close>.\<close>

fun parse_capabilities :: "string list \<Rightarrow> capability set result" where
  "parse_capabilities [] = Inr {}"
| "parse_capabilities (v # vs) =
     (case capability_of v of
        None \<Rightarrow> Inl ValueError
      | Some c \<Rightarrow>
          (case parse_capabilities vs of Inl e \<Rightarrow> Inl e | Inr cs \<Rightarrow> Inr (insert c cs)))"

definition tool_needs :: "string \<Rightarrow> capability set" where
  "tool_needs tool = (case map_of tool_capabilities tool of None \<Rightarrow> {} | Some cs \<Rightarrow> cs)"

definition legacy_capabilities ::
  "string list option \<Rightarrow> bool \<Rightarrow> bool \<Rightarrow> bool \<Rightarrow> bool \<Rightarrow> bool \<Rightarrow> capability set" where
  "legacy_capabilities tools allow_egress use_browser use_email use_calendar use_vision =
     (case tools of
        None \<Rightarrow> legacy_default_capabilities
      | Some ts \<Rightarrow> \<Union> (set (map tool_needs ts)) \<union> {MemoryRead, MemoryWrite})
     \<union> (if allow_egress then {NetShell} else {})
     \<union> (if use_browser then {NetBrowser} else {})
     \<union> (if use_email then {EmailRead, EmailSend} else {})
     \<union> (if use_calendar then {CalendarRead, CalendarWrite} else {})
     \<union> (if use_vision then {Vision, FsRead} else {})"

definition sorted_capabilities :: "capability set \<Rightarrow> string list" where
  "sorted_capabilities cs = sort (map capability_value (filter (\<lambda>c. c \<in> cs) all_capabilities))"

section \<open>The envelope\<close>

record envelope =
  capabilities :: "capability set"
  egress_hosts :: "string set"
  legacy_allowed_tools :: "string set option"

definition full_envelope :: envelope where
  "full_envelope =
     \<lparr>capabilities = set all_capabilities, egress_hosts = {}, legacy_allowed_tools = None\<rparr>"

text \<open>\<^verbatim>\<open>host.strip().lower().rstrip(".")\<close>.\<close>

definition clean_host :: "string \<Rightarrow> string" where
  "clean_host host = rstrip_chars ''.'' (py_lower (py_strip host))"

definition clean_hosts :: "string list option \<Rightarrow> string set" where
  "clean_hosts hosts =
     (case hosts of
        None \<Rightarrow> {}
      | Some hs \<Rightarrow> set (map clean_host (filter (\<lambda>h. py_strip h \<noteq> []) hs)))"

definition from_capabilities :: "capability set \<Rightarrow> string list option \<Rightarrow> envelope" where
  "from_capabilities cs hosts =
     \<lparr>capabilities = cs, egress_hosts = clean_hosts hosts, legacy_allowed_tools = None\<rparr>"

definition from_capability_values ::
  "string list \<Rightarrow> string list option \<Rightarrow> envelope result" where
  "from_capability_values vs hosts =
     (case parse_capabilities vs of Inl e \<Rightarrow> Inl e | Inr cs \<Rightarrow> Inr (from_capabilities cs hosts))"

definition from_tools :: "string list option \<Rightarrow> bool \<Rightarrow> string list option \<Rightarrow> envelope" where
  "from_tools tools egress hosts =
     (from_capabilities (legacy_capabilities tools egress False False False False) hosts)
       \<lparr>legacy_allowed_tools :=
          (case tools of
             None \<Rightarrow> None
           | Some ts \<Rightarrow> Some (set (filter (\<lambda>t. t \<in> set executor_tools) ts)))\<rparr>"

definition permits :: "envelope \<Rightarrow> string \<Rightarrow> capability option \<Rightarrow> bool" where
  "permits env tool provider =
     (if tool \<in> set control_tools then True
      else if tool \<in> set executor_tools \<and>
              (case legacy_allowed_tools env of None \<Rightarrow> False | Some ts \<Rightarrow> tool \<notin> ts)
      then False
      else
        (case (case map_of tool_capabilities tool of
                 None \<Rightarrow> (case provider of None \<Rightarrow> None | Some c \<Rightarrow> Some {c})
               | Some cs \<Rightarrow> Some cs) of
           None \<Rightarrow> False
         | Some needed \<Rightarrow> needed \<subseteq> capabilities env))"

definition allowed_tools :: "envelope \<Rightarrow> string list" where
  "allowed_tools env = filter (\<lambda>t. permits env t None) executor_tools"

definition egress_allowed :: "envelope \<Rightarrow> bool" where
  "egress_allowed env = (NetShell \<in> capabilities env)"

definition permits_capability :: "envelope \<Rightarrow> capability \<Rightarrow> bool" where
  "permits_capability env c = (c \<in> capabilities env)"

definition host_matches :: "string \<Rightarrow> string \<Rightarrow> bool" where
  "host_matches host allowed = (host = allowed \<or> suffix (CHR ''.'' # allowed) host)"

definition egress_host_allowed :: "envelope \<Rightarrow> string \<Rightarrow> bool" where
  "egress_host_allowed env host =
     (if \<not> egress_allowed env then False
      else if egress_hosts env = {} then False
      else (\<exists>a \<in> egress_hosts env. host_matches (clean_host host) a))"

definition restricted_executor_tools :: "envelope \<Rightarrow> string list option" where
  "restricted_executor_tools env =
     (let allowed = sort (allowed_tools env)
      in if set allowed = set executor_tools then None else Some allowed)"

section \<open>Facts\<close>

lemma in_all_capabilities [simp]: "c \<in> set all_capabilities"
  by (cases c) (simp_all add: all_capabilities_def)

lemma capability_of_value [simp]: "capability_of (capability_value c) = Some c"
  by (cases c) (simp_all add: capability_of_def all_capabilities_def)

lemma capability_of_SomeD: "capability_of v = Some c \<Longrightarrow> v = capability_value c"
  by (auto simp: capability_of_def find_Some_iff)

lemma capability_value_inj [simp]: "capability_value a = capability_value b \<longleftrightarrow> a = b"
  by (metis capability_of_value option.inject)

lemma parse_capabilities_ok:
  "parse_capabilities vs = Inr cs \<Longrightarrow> cs = {c. capability_value c \<in> set vs}"
  by (induction vs arbitrary: cs)
    (auto split: option.splits sum.splits dest: capability_of_SomeD)

lemma parse_capabilities_fails:
  "(\<exists>e. parse_capabilities vs = Inl e) \<longleftrightarrow> (\<exists>v \<in> set vs. v \<notin> range capability_value)"
  by (induction vs) (auto split: option.splits sum.splits dest: capability_of_SomeD)

lemma set_sorted_capabilities: "set (sorted_capabilities cs) = capability_value ` cs"
  by (auto simp: sorted_capabilities_def)

lemma parse_map_values: "parse_capabilities (map capability_value cs) = Inr (set cs)"
  by (induction cs) auto

lemma parse_sorted: "parse_capabilities (sorted_capabilities cs) = Inr cs"
proof (cases "parse_capabilities (sorted_capabilities cs)")
  case (Inl e)
  then have "\<exists>v \<in> set (sorted_capabilities cs). v \<notin> range capability_value"
    using parse_capabilities_fails by blast
  then show ?thesis by (auto simp: set_sorted_capabilities)
next
  case (Inr ds)
  then show ?thesis by (auto dest!: parse_capabilities_ok simp: set_sorted_capabilities)
qed

lemma executor_tools_simps [simp]:
  "set executor_tools = {''read_file'', ''write_file'', ''edit_file'', ''run_command''}"
  by (auto simp: executor_tools_def executor_tool_capabilities_def)

declare executor_tools_simps [simp del]

lemma permits_executor:
  assumes "t \<in> set executor_tools"
  shows "permits env t None \<longleftrightarrow>
    (case legacy_allowed_tools env of None \<Rightarrow> True | Some ts \<Rightarrow> t \<in> ts) \<and>
    tool_needs t \<subseteq> capabilities env"
proof -
  have "map_of tool_capabilities t = Some (tool_needs t)" "t \<notin> set control_tools"
    using assms unfolding executor_tools_simps
    by (auto simp: tool_capabilities_def tool_needs_def control_tools_def)
  then show ?thesis using assms by (simp add: permits_def split: option.splits)
qed

lemma from_tools_simps [simp]:
  "capabilities (from_tools tools egress hosts) =
     legacy_capabilities tools egress False False False False"
  "egress_hosts (from_tools tools egress hosts) = clean_hosts hosts"
  "legacy_allowed_tools (from_tools tools egress hosts) =
     map_option (\<lambda>ts. set (filter (\<lambda>t. t \<in> set executor_tools) ts)) tools"
  by (auto simp: from_tools_def from_capabilities_def split: option.splits)

lemma permits_mono:
  "permits env tool p \<Longrightarrow> capabilities env \<subseteq> capabilities env' \<Longrightarrow>
     legacy_allowed_tools env' = legacy_allowed_tools env \<Longrightarrow> permits env' tool p"
  by (auto simp: permits_def split: if_splits option.splits)

lemma permits_needs:
  "permits env tool None \<Longrightarrow> tool \<notin> set control_tools \<Longrightarrow>
     map_of tool_capabilities tool \<noteq> None \<and> tool_needs tool \<subseteq> capabilities env"
  by (auto simp: permits_def tool_needs_def split: if_splits option.splits)

section \<open>Properties\<close>

text \<open>
  An executor tool is permitted by the envelope built from a task's tool list exactly
  when the list names it (or there is no list): the capabilities one listed tool brings
  never let through another executor tool, although \<^verbatim>\<open>edit_file\<close> brings those of
  \<^verbatim>\<open>read_file\<close> and \<^verbatim>\<open>write_file\<close>. The tool list written back is the same restriction.
\<close>

theorem from_tools_exact:
  "(\<forall>t \<in> set executor_tools. permits (from_tools tools egress hosts) t None \<longleftrightarrow>
      (case tools of None \<Rightarrow> True | Some ts \<Rightarrow> t \<in> set ts)) \<and>
   restricted_executor_tools (from_tools tools egress hosts) =
     (case tools of
        None \<Rightarrow> None
      | Some ts \<Rightarrow>
          if set executor_tools \<subseteq> set ts then None
          else Some (sort (filter (\<lambda>t. t \<in> set ts) executor_tools)))"
proof -
  have p: "permits (from_tools tools egress hosts) t None \<longleftrightarrow>
      (case tools of None \<Rightarrow> True | Some ts \<Rightarrow> t \<in> set ts)" if t: "t \<in> set executor_tools" for t
  proof (cases tools)
    case None
    have "tool_needs t \<subseteq> legacy_default_capabilities"
      using t unfolding executor_tools_simps
      by (auto simp: tool_needs_def tool_capabilities_def legacy_default_capabilities_def)
    then show ?thesis using None by (auto simp: permits_executor [OF t] legacy_capabilities_def)
  next
    case (Some ts)
    then show ?thesis using t by (auto simp: permits_executor [OF t] legacy_capabilities_def)
  qed
  moreover have "allowed_tools (from_tools tools egress hosts) =
      filter (\<lambda>t. case tools of None \<Rightarrow> True | Some ts \<Rightarrow> t \<in> set ts) executor_tools"
    unfolding allowed_tools_def using p by (intro filter_cong) auto
  ultimately show ?thesis
    by (auto simp: restricted_executor_tools_def Let_def split: option.splits)
qed

theorem from_tools_exact_witness:
  "permits (from_tools (Some [''read_file'']) True None) ''read_file'' None \<and>
   \<not> permits (from_tools (Some [''read_file'']) True None) ''write_file'' None"
  using from_tools_exact [of "Some [''read_file'']" True None] by (simp add: executor_tools_simps)

text \<open>
  A host is reachable only with the shell network capability, and only when it is an
  allowed host or a subdomain of one cut at a label boundary; widening the capabilities or
  the hosts never removes a permission.
\<close>

theorem egress_host_sound:
  assumes "egress_host_allowed env host"
  shows "NetShell \<in> capabilities env \<and>
    (\<exists>a \<in> egress_hosts env. clean_host host = a \<or> (\<exists>sub. clean_host host = sub @ ''.'' @ a)) \<and>
    (\<forall>env'. capabilities env \<subseteq> capabilities env' \<and> egress_hosts env \<subseteq> egress_hosts env' \<longrightarrow>
       egress_host_allowed env' host)"
  using assms
  by (auto simp: egress_host_allowed_def egress_allowed_def host_matches_def suffix_def
      split: if_splits)

definition sample_envelope :: envelope where
  "sample_envelope = from_tools (Some [''run_command'']) True (Some ['' Example.com. ''])"

theorem egress_host_sound_witness:
  "egress_host_allowed sample_envelope ''api.example.com'' \<and>
   \<not> egress_host_allowed sample_envelope ''badexample.com'' \<and>
   NetShell \<in> capabilities sample_envelope"
proof -
  have "egress_host_allowed sample_envelope ''api.example.com'' \<and>
      \<not> egress_host_allowed sample_envelope ''badexample.com''"
    by code_simp
  then show ?thesis using egress_host_sound [of sample_envelope "''api.example.com''"] by blast
qed

text \<open>
  Capabilities survive being written to the task row: parsing the sorted values gives
  back the same set, and parsing fails exactly on an unknown value.
\<close>

theorem capabilities_roundtrip:
  "parse_capabilities (sorted_capabilities cs) = Inr cs \<and>
   ((\<exists>e. parse_capabilities vs = Inl e) \<longleftrightarrow> (\<exists>v \<in> set vs. v \<notin> range capability_value))"
  by (simp add: parse_sorted parse_capabilities_fails)

end
