(* ===== verification/Task_Model.thy ===== *)
theory Task_Model
  imports Loop_Policy Ledger Capability_Model Config
begin

text \<open>
  \<^verbatim>\<open>db/models/task.py\<close>: the task row, as the record \<open>task\<close> that extends the five attributes
  of \<open>loop_target\<close>. Optional columns are \<open>option\<close>, JSON columns are \<open>jdict\<close> or lists,
  identifiers are the text of the UUID. \<open>fresh_task\<close> is a row with the column defaults; the
  services update the columns they name.
\<close>

section \<open>The task row\<close>

record task = loop_target +
  task_id :: string
  goal :: string
  owner_id :: string
  project_id :: string
  rubric :: "string list"
  criteria_source :: string
  verification_mode :: string
  required_checks :: "jdict list"
  baseline_checks :: "jdict list"
  contract_draft :: "jdict option"
  contract_hash :: "string option"
  contract_status :: string
  pending_question :: "string option"
  authority_schema :: string
  requested_capabilities :: "string list option"
  resolved_capabilities :: "string list"
  allowed_tool_names :: "string list option"
  allow_egress :: bool
  task_egress_hosts :: "string list option"
  require_approval :: bool
  use_browser :: bool
  use_email :: bool
  use_calendar :: bool
  use_vision :: bool
  skill :: "string option"
  parent_id :: "string option"
  task_depth :: int
  product_session_id :: "string option"
  product_revision :: "int option"
  previous_revision_id :: "string option"
  superseded_by_id :: "string option"
  feedback_kind :: "string option"
  feedback_delta :: "string option"
  product_specification :: "jdict option"
  specification_hash_of :: "string option"
  chat_id :: "string option"
  pending_action :: "jdict option"
  operation_journal :: "jdict option"
  idempotency_key :: "string option"
  attempt :: int
  max_steps :: int
  token_budget :: int
  run_summary :: "string option"
  verification_score :: int
  verified_by :: "string option"
  executor_models :: "jdict list"
  verifier_model :: "jdict option"
  receipt_hash :: "string option"
  receipt_schema :: "string option"
  authority_audit :: "jdict list"
  sandbox :: "string option"
  steps_used :: int
  tokens_used :: int
  workspace_path :: "string option"
  project_source_path :: "string option"
  project_relative_path :: "string option"
  project_base_commit :: "string option"
  project_base_branch :: "string option"
  change_state :: "string option"
  applied_patch_sha256 :: "string option"
  run_error :: "string option"

text \<open>The row a constructor call leaves when it sets no column: the defaults of the columns.\<close>

definition fresh_task :: "string \<Rightarrow> task" where
  "fresh_task i =
     \<lparr>loop_state = state_value Queued, transition_reason = None, transition_sequence = 0,
      status = status_value Pending, stop_reason = None,
      task_id = i, goal = [], owner_id = ''local'', project_id = ''default'', rubric = [],
      criteria_source = ''generated'', verification_mode = ''judgment'', required_checks = [],
      baseline_checks = [], contract_draft = None, contract_hash = None,
      contract_status = ''not_required'', pending_question = None,
      authority_schema = ''loop.capabilities/v1'', requested_capabilities = None, resolved_capabilities = [], allowed_tool_names = None,
      allow_egress = False, task_egress_hosts = None, require_approval = False,
      use_browser = False, use_email = False, use_calendar = False, use_vision = False,
      skill = None, parent_id = None, task_depth = 0, product_session_id = None,
      product_revision = None, previous_revision_id = None, superseded_by_id = None,
      feedback_kind = None, feedback_delta = None, product_specification = None,
      specification_hash_of = None, chat_id = None, pending_action = None,
      operation_journal = None, idempotency_key = None, attempt = 1, max_steps = 0,
      token_budget = 0, run_summary = None, verification_score = 0, verified_by = None,
      executor_models = [], verifier_model = None, receipt_hash = None, receipt_schema = None,
      authority_audit = [], sandbox = None, steps_used = 0, tokens_used = 0,
      workspace_path = None, project_source_path = None, project_relative_path = None,
      project_base_commit = None, project_base_branch = None, change_state = None,
      applied_patch_sha256 = None, run_error = None\<rparr>"

lemma fresh_task_simps [simp]:
  "task_id (fresh_task i) = i"
  "loop_state (fresh_task i) = state_value Queued"
  "status (fresh_task i) = status_value Pending"
  "stop_reason (fresh_task i) = None"
  "transition_sequence (fresh_task i) = 0"
  by (simp_all add: fresh_task_def)

section \<open>Status groups\<close>

text \<open>The statuses the services list as finished, and as still to be cancelled.\<close>

definition finished_statuses :: "string list" where
  "finished_statuses =
     map status_value [CompletedStatus, StoppedStatus, FailedStatus, CancelledStatus]"

definition active_statuses :: "string list" where
  "active_statuses = map status_value [Pending, Running, AwaitingInputStatus]"

lemma status_groups:
  "coherent t \<Longrightarrow> status t \<in> set finished_statuses \<longleftrightarrow> finished t"
  "coherent t \<Longrightarrow> status t \<in> set active_statuses \<longleftrightarrow> \<not> finished t"
proof -
  assume "coherent t"
  then obtain st where st: "loop_state_of (loop_state t) = Some st"
    "status t = status_value (status_of st)"
    by (auto simp: coherent_def split: option.splits)
  then show "status t \<in> set finished_statuses \<longleftrightarrow> finished t"
    "status t \<in> set active_statuses \<longleftrightarrow> \<not> finished t"
    by (cases st; simp add: finished_statuses_def active_statuses_def finished_def terminal_def)+
qed

end
