(* ===== verification/Paths.thy ===== *)
theory Paths
  imports Prelude "HOL-Library.Product_Lexorder"
begin

text \<open>
  POSIX paths as \<^verbatim>\<open>pathlib\<close> treats them: parts, parents, \<^verbatim>\<open>root / relative\<close>, the test
  \<^verbatim>\<open>root in path.parents\<close>, \<^verbatim>\<open>relative_to\<close>, and the order in which \<^verbatim>\<open>os.walk\<close> with sorted names
  lists files. Absolute paths are resolved: no empty, \<^verbatim>\<open>.\<close> or \<^verbatim>\<open>..\<close> part.
\<close>

definition dir_prefix :: "string \<Rightarrow> string" where
  "dir_prefix root = (if root = ''/'' then root else root @ ''/'')"

definition below :: "string \<Rightarrow> string \<Rightarrow> bool" where
  "below root path = (path \<noteq> root \<and> prefix (dir_prefix root) path)"

definition relative_to :: "string \<Rightarrow> string \<Rightarrow> string" where
  "relative_to root path =
     (if path = root then ''.'' else drop (length (dir_prefix root)) path)"

definition join_path :: "string \<Rightarrow> string \<Rightarrow> string" where
  "join_path root rel = (if prefix ''/'' rel then rel else dir_prefix root @ rel)"

definition path_parent :: "string \<Rightarrow> string" where
  "path_parent p =
     (let q = rev (drop 1 (dropWhile (\<lambda>c. c \<noteq> CHR ''/'') (rev p))) in if q = [] then ''/'' else q)"

text \<open>\<^verbatim>\<open>Path(p).parts\<close> without the root: empty and \<^verbatim>\<open>.\<close> parts are dropped, \<^verbatim>\<open>..\<close> stays.\<close>

definition path_parts :: "string \<Rightarrow> string list" where
  "path_parts p = filter (\<lambda>x. x \<noteq> [] \<and> x \<noteq> ''.'') (split_char (CHR ''/'') p)"

definition path_basename :: "string \<Rightarrow> string" where
  "path_basename p = (case rev (path_parts p) of [] \<Rightarrow> [] | x # _ \<Rightarrow> x)"

text \<open>The directories above an absolute path, the nearest first.\<close>

definition path_parents :: "string \<Rightarrow> string list" where
  "path_parents p =
     (let ps = path_parts p
      in map (\<lambda>n. CHR ''/'' # py_join ''/'' (take n ps)) (rev [0..<length ps]))"

text \<open>Within a directory \<^verbatim>\<open>os.walk\<close> yields its files before it enters its subdirectories.\<close>

definition walk_key :: "string \<Rightarrow> (nat \<times> string) list" where
  "walk_key p =
     (let ps = path_parts p
      in map (\<lambda>d. (1, d)) (butlast ps) @ (if ps = [] then [] else [(0, last ps)]))"

text \<open>\<^verbatim>\<open>Path.resolve()\<close> where no symbolic link is involved.\<close>

fun resolve_parts :: "string list \<Rightarrow> string list \<Rightarrow> string list" where
  "resolve_parts acc [] = rev acc"
| "resolve_parts acc (x # xs) =
     (if x = ''..'' then resolve_parts (drop 1 acc) xs else resolve_parts (x # acc) xs)"

definition lexical_real :: "string \<Rightarrow> string" where
  "lexical_real p = CHR ''/'' # py_join ''/'' (resolve_parts [] (path_parts p))"

lemma below_not_self [simp]: "\<not> below root root"
  by (simp add: below_def)

lemma join_relative_to: "below root p \<Longrightarrow> join_path root (relative_to root p) = p \<or> prefix ''/'' (relative_to root p)"
  by (auto simp: below_def relative_to_def join_path_def elim!: prefixE)

end
