(* ===== verification/Workspace.thy ===== *)
theory Workspace
  imports Paths Tool_Base Py_Json Sha256 "HOL-Library.List_Lexorder" "HOL-Library.Product_Lexorder"
begin

text \<open>
  \<^verbatim>\<open>tools/workspace.py\<close>: the directory a task works in. The files are those below the root, by
  absolute path; \<open>ws_real\<close> is \<^verbatim>\<open>Path.resolve\<close> on the current file system, symbolic links
  included. Operations refuse with \<open>WsTool\<close> (\<^verbatim>\<open>ToolError\<close>) or fail with \<open>WsOs\<close>
  (\<^verbatim>\<open>OSError\<close>). Sizes are bytes; the character counts of the code agree on ASCII text.
\<close>

record workspace =
  ws_root :: string
  ws_files :: "(string \<times> string) list"
  ws_dirs :: "string list"
  ws_real :: "string \<Rightarrow> string"

datatype ws_exc = WsTool tool_error | WsOs

definition ws_blocked :: "string \<Rightarrow> ws_exc" where
  "ws_blocked m = WsTool \<lparr>te_message = m, te_blocked = True\<rparr>"

definition ws_error :: "string \<Rightarrow> ws_exc" where
  "ws_error m = WsTool \<lparr>te_message = m, te_blocked = False\<rparr>"

definition max_file_bytes :: nat where
  "max_file_bytes = 1000000"

definition ignored_workspace_dirs :: "string list" where
  "ignored_workspace_dirs =
     [''.git'', ''.next'', ''.turbo'', ''.venv'', ''__pycache__'', ''node_modules'', ''venv'']"

section \<open>Strings\<close>

text \<open>\<^verbatim>\<open>str.splitlines()\<close>, \<^verbatim>\<open>str.count\<close> and \<^verbatim>\<open>str.replace(old, new, 1)\<close>.\<close>

definition line_break :: "char \<Rightarrow> bool" where
  "line_break c = (let n = ord_of c in (10 \<le> n \<and> n \<le> 13) \<or> (28 \<le> n \<and> n \<le> 30))"

fun splitlines_acc :: "string \<Rightarrow> string \<Rightarrow> string list" where
  "splitlines_acc acc [] = (if acc = [] then [] else [rev acc])"
| "splitlines_acc acc (c # s) =
     (if c = CHR 0x0D \<and> take 1 s = nl then rev acc # splitlines_acc [] (drop 1 s)
      else if line_break c then rev acc # splitlines_acc [] s
      else splitlines_acc (c # acc) s)"

definition py_splitlines :: "string \<Rightarrow> string list" where
  "py_splitlines s = splitlines_acc [] s"

lemma partition_at_length: "partition_at p s = Some (a, b) \<Longrightarrow> length b + length p \<le> length s"
proof (induction s arbitrary: a b)
  case Nil
  then show ?case by (auto split: if_splits)
next
  case (Cons c s)
  show ?case
  proof (cases "prefix p (c # s)")
    case True
    then have "length p \<le> length (c # s)" by (rule prefix_length_le)
    with Cons.prems True show ?thesis by auto
  next
    case False
    with Cons.prems Cons.IH show ?thesis by fastforce
  qed
qed

function occurrences :: "string \<Rightarrow> string \<Rightarrow> nat" where
  "occurrences p s =
     (if p = [] then length s + 1
      else (case partition_at p s of None \<Rightarrow> 0 | Some (a, b) \<Rightarrow> 1 + occurrences p b))"
  by pat_completeness auto
termination
proof (relation "measure (\<lambda>(p, s). length s)", simp)
  fix p s :: string and ab a b
  assume "p \<noteq> []" "partition_at p s = Some ab" "(a, b) = ab"
  then show "((p, b), p, s) \<in> measure (\<lambda>(p, s). length s)"
    using partition_at_length [of p s a b] by (cases p) auto
qed

declare occurrences.simps [simp del]

definition replace_first :: "string \<Rightarrow> string \<Rightarrow> string \<Rightarrow> string" where
  "replace_first old new s =
     (case partition_at old s of None \<Rightarrow> s | Some (a, b) \<Rightarrow> a @ new @ b)"

definition preview_note :: string where
  "preview_note = nl @ ellipsis @ '' [preview truncated; the write completed with the full content]''"

definition preview :: "string \<Rightarrow> string" where
  "preview content =
     (let snippet = py_join nl (take 20 (py_splitlines content));
          truncated = length snippet > 1000 \<or> snippet \<noteq> rstrip_chars nl content
      in take 1000 snippet @ (if truncated then preview_note else []))"

section \<open>Paths\<close>

definition ws_resolve :: "workspace \<Rightarrow> string \<Rightarrow> ws_exc + string" where
  "ws_resolve ws relative =
     (if relative = [] \<or> py_strip relative \<in> {''.'', ''/''}
      then Inl (ws_blocked ''A file path is required'')
      else if prefix ''/'' relative
      then Inl (ws_blocked ''Absolute paths are not allowed; use a path inside the workspace'')
      else if ''.git'' \<in> set (path_parts relative)
      then Inl (ws_blocked ''Git internals are not part of the task workspace'')
      else
        (let target = ws_real ws (join_path (ws_root ws) relative)
         in if target \<noteq> ws_root ws \<and> \<not> below (ws_root ws) target
            then Inl (ws_blocked (''Path '' @ str_repr relative @ '' escapes the workspace''))
            else Inr target))"

definition ws_is_file :: "workspace \<Rightarrow> string \<Rightarrow> bool" where
  "ws_is_file ws p = (map_of (ws_files ws) p \<noteq> None)"

definition ws_is_dir :: "workspace \<Rightarrow> string \<Rightarrow> bool" where
  "ws_is_dir ws p = (p = ws_root ws \<or> p \<in> set (ws_dirs ws))"

section \<open>Reading and writing\<close>

definition store_file :: "workspace \<Rightarrow> string \<Rightarrow> string \<Rightarrow> workspace" where
  "store_file ws target content = ws\<lparr>ws_files := AList.update target content (ws_files ws)\<rparr>"

definition make_parents :: "workspace \<Rightarrow> string \<Rightarrow> workspace" where
  "make_parents ws target =
     ws\<lparr>ws_dirs := ws_dirs ws @ filter (\<lambda>d. d \<notin> set (ws_dirs ws)) (path_parents target)\<rparr>"

definition blocked_by_file :: "workspace \<Rightarrow> string \<Rightarrow> bool" where
  "blocked_by_file ws target = list_ex (ws_is_file ws) (path_parents target)"

definition ws_write :: "workspace \<Rightarrow> string \<Rightarrow> string \<Rightarrow> (ws_exc + string) \<times> workspace" where
  "ws_write ws relative content =
     (if length content > max_file_bytes then (Inl (ws_blocked ''File too large to write''), ws)
      else
        (case ws_resolve ws relative of
           Inl e \<Rightarrow> (Inl e, ws)
         | Inr target \<Rightarrow>
             if blocked_by_file ws target then (Inl WsOs, ws)
             else if ws_is_dir ws target then (Inl WsOs, make_parents ws target)
             else (Inr (''Wrote '' @ show_nat (length content) @ '' chars to '' @ relative @
                        ''. Contents:'' @ nl @ preview content),
                   store_file (make_parents ws target) target content)))"

definition ws_edit :: "workspace \<Rightarrow> string \<Rightarrow> string \<Rightarrow> string \<Rightarrow> (ws_exc + string) \<times> workspace" where
  "ws_edit ws relative old new =
     (case ws_resolve ws relative of
        Inl e \<Rightarrow> (Inl e, ws)
      | Inr target \<Rightarrow>
          (case map_of (ws_files ws) target of
             None \<Rightarrow> (Inl (ws_error (''No such file: '' @ relative)), ws)
           | Some content \<Rightarrow>
               (let n = occurrences old content;
                    updated = replace_first old new content
                in if n = 0
                   then (Inl (ws_error (''The text to replace was not found in '' @ relative)), ws)
                   else if n > 1
                   then (Inl (ws_error (''The text to replace appears '' @ show_nat n @ '' times in '' @
                     relative @ ''; make it unique (include more surrounding context)'')), ws)
                   else if length updated > max_file_bytes
                   then (Inl (ws_blocked ''Edit would make the file too large''), ws)
                   else (Inr (''Edited '' @ relative @ '' (replaced 1 occurrence). Contents now:'' @
                          nl @ preview updated), store_file ws target updated))))"

definition read_note :: "nat \<Rightarrow> string" where
  "read_note n =
     nl @ ''... [preview truncated; the file is unchanged and has '' @ show_nat n @ '' chars total]''"

definition limited :: "nat \<Rightarrow> string \<Rightarrow> string" where
  "limited limit content =
     (if length content > limit then take limit content @ read_note (length content) else content)"

definition ws_read :: "workspace \<Rightarrow> string \<Rightarrow> nat \<Rightarrow> ws_exc + string" where
  "ws_read ws relative limit =
     (case ws_resolve ws relative of
        Inl e \<Rightarrow> Inl e
      | Inr target \<Rightarrow>
          (case map_of (ws_files ws) target of
             None \<Rightarrow> Inl (ws_error (''No such file: '' @ relative))
           | Some content \<Rightarrow> Inr (limited limit content)))"

section \<open>Listings\<close>

definition visible :: "string \<Rightarrow> bool" where
  "visible rel =
     (let ps = path_parts rel
      in ps \<noteq> [] \<and> last ps \<noteq> ''.git'' \<and>
         list_all (\<lambda>d. d \<notin> set ignored_workspace_dirs) (butlast ps))"

definition list_files :: "nat \<Rightarrow> workspace \<Rightarrow> (string \<times> nat) list" where
  "list_files max_entries ws =
     take (max 1 max_entries)
       (sort_key (\<lambda>f. walk_key (fst f))
         (filter (\<lambda>f. visible (fst f))
           (map (\<lambda>(p, c). (relative_to (ws_root ws) p, length c)) (ws_files ws))))"

text \<open>\<^verbatim>\<open>state_marker\<close> hashes the listing with the modification times, which the file system keeps;
  \<open>mtime\<close> gives them by relative path.\<close>

definition state_marker :: "(string \<Rightarrow> int) \<Rightarrow> workspace \<Rightarrow> string" where
  "state_marker mtime ws =
     sha256_hex (concat (map (\<lambda>(rel, n). rel @ [CHR 0x00] @ show_nat n @ [CHR 0x00] @
       show_int (mtime rel) @ nl) (list_files 500 ws)))"

definition visible_dir :: "string \<Rightarrow> bool" where
  "visible_dir rel = (path_parts rel \<noteq> [] \<and> list_all (\<lambda>d. d \<notin> set ignored_workspace_dirs) (path_parts rel))"

text \<open>A directory is listed, before the files, where \<^verbatim>\<open>os.walk\<close> visits its parent.\<close>

definition tree_key :: "string \<times> nat option \<Rightarrow> string list \<times> nat \<times> string" where
  "tree_key entry =
     (let ps = path_parts (fst entry)
      in (butlast ps, if snd entry = None then 0 else 1, last ps))"

definition tree_line :: "string \<times> nat option \<Rightarrow> string" where
  "tree_line entry =
     (case snd entry of None \<Rightarrow> fst entry @ ''/'' | Some n \<Rightarrow> fst entry @ '' ('' @ show_nat n @ ''b)'')"

definition ws_tree :: "nat \<Rightarrow> workspace \<Rightarrow> string" where
  "ws_tree max_entries ws =
     (let dirs = filter visible_dir (map (relative_to (ws_root ws)) (filter (below (ws_root ws)) (ws_dirs ws)));
          files = filter (\<lambda>f. visible (fst f))
            (map (\<lambda>(p, c). (relative_to (ws_root ws) p, Some (length c))) (ws_files ws));
          entries = map tree_line (sort_key tree_key (map (\<lambda>d. (d, None)) dirs @ files))
      in if entries = [] then ''(empty)''
         else if max_entries \<le> length entries
         then py_join nl (take max_entries entries @ [''... [more]''])
         else py_join nl entries)"

fun digest_blocks :: "workspace \<Rightarrow> nat \<Rightarrow> nat \<Rightarrow> nat \<Rightarrow> (string \<times> nat) list \<Rightarrow> string list \<Rightarrow> nat \<Rightarrow> string list" where
  "digest_blocks ws max_files per_file budget [] out used = out"
| "digest_blocks ws max_files per_file budget ((rel, sz) # fs) out used =
     (if length out \<ge> max_files \<or> used \<ge> budget then out
      else if sz > 200000
      then digest_blocks ws max_files per_file budget fs
             (out @ [''### '' @ rel @ '' ('' @ show_nat sz @ ''b) '' @ em_dash @ '' skipped (too large to show)'']) used
      else
        (case ws_read ws rel per_file of
           Inl e \<Rightarrow> digest_blocks ws max_files per_file budget fs out used
         | Inr content \<Rightarrow>
             if CHR 0x00 \<in> set content
             then digest_blocks ws max_files per_file budget fs
                    (out @ [''### '' @ rel @ '' ('' @ show_nat sz @ ''b) '' @ em_dash @ '' skipped (binary)'']) used
             else
               (let block = ''### '' @ rel @ nl @ content
                in digest_blocks ws max_files per_file budget fs (out @ [block]) (used + length block))))"

definition contents_digest :: "workspace \<Rightarrow> string" where
  "contents_digest ws =
     (let out = digest_blocks ws 10 2000 8000 (list_files 500 ws) [] 0
      in if out = [] then ''(no readable files)'' else py_join (nl @ nl) out)"

section \<open>Confinement\<close>

lemma ws_resolve_ok:
  "ws_resolve ws relative = Inr target \<Longrightarrow>
     (target = ws_root ws \<or> below (ws_root ws) target) \<and> \<not> prefix ''/'' relative \<and>
     ''.git'' \<notin> set (path_parts relative) \<and>
     target = ws_real ws (join_path (ws_root ws) relative)"
  by (auto simp: ws_resolve_def Let_def split: if_splits)

lemma store_file_lookup [simp]:
  "map_of (ws_files (store_file ws target c)) p =
     (if p = target then Some c else map_of (ws_files ws) p)"
  by (simp add: store_file_def update_conv')

lemma make_parents_simps [simp]:
  "ws_files (make_parents ws target) = ws_files ws"
  "ws_root (make_parents ws target) = ws_root ws"
  "ws_real (make_parents ws target) = ws_real ws"
  by (simp_all add: make_parents_def)

lemma store_file_simps [simp]:
  "ws_root (store_file ws target c) = ws_root ws"
  "ws_real (store_file ws target c) = ws_real ws"
  "ws_dirs (store_file ws target c) = ws_dirs ws"
  by (simp_all add: store_file_def)

lemma ws_write_effect:
  assumes "ws_write ws relative content = (r, ws')"
  shows "(\<exists>m target. r = Inr m \<and> ws_resolve ws relative = Inr target \<and> target \<noteq> ws_root ws \<and>
            length content \<le> max_file_bytes \<and>
            map_of (ws_files ws') = (map_of (ws_files ws))(target \<mapsto> content)) \<or>
         (\<exists>e. r = Inl e \<and> map_of (ws_files ws') = map_of (ws_files ws))"
proof (cases "ws_resolve ws relative")
  case (Inr target)
  then show ?thesis
    using assms by (auto simp: ws_write_def ws_is_dir_def Let_def fun_eq_iff split: if_splits)
next
  case (Inl e)
  then have "\<exists>x. r = Inl x \<and> ws' = ws"
    using assms by (cases "length content > max_file_bytes") (auto simp: ws_write_def Inl)
  then show ?thesis by auto
qed

lemma partition_at_Nil: "partition_at [] s = Some ([], s)"
  by (cases s) auto

lemma partition_at_eq: "partition_at p s = Some (a, b) \<Longrightarrow> s = a @ p @ b"
proof (induction s arbitrary: a b)
  case (Cons c s)
  show ?case
  proof (cases "prefix p (c # s)")
    case True
    with Cons.prems show ?thesis by (auto elim: prefixE)
  next
    case False
    with Cons show ?thesis by auto
  qed
qed (auto split: if_splits)

lemma partition_at_None: "partition_at p s = None \<longleftrightarrow> \<not> py_contains p s"
  by (induction s) auto

lemma occurrences_zero: "occurrences p s = 0 \<longleftrightarrow> \<not> py_contains p s"
proof (cases "p = []")
  case True
  then show ?thesis by (cases s) (simp_all add: occurrences.simps)
next
  case False
  then show ?thesis
    by (simp add: occurrences.simps [of p s] partition_at_None [symmetric] split: option.split)
qed

lemma ws_edit_effect:
  assumes "ws_edit ws relative old new = (r, ws')"
  shows "(\<exists>m target content. r = Inr m \<and> ws_resolve ws relative = Inr target \<and>
            map_of (ws_files ws) target = Some content \<and> occurrences old content = 1 \<and>
            length (replace_first old new content) \<le> max_file_bytes \<and>
            map_of (ws_files ws') = (map_of (ws_files ws))(target \<mapsto> replace_first old new content)) \<or>
         (\<exists>e. r = Inl e \<and> ws' = ws)"
proof (cases "ws_resolve ws relative")
  case (Inr target)
  then show ?thesis
    using assms by (auto simp: ws_edit_def Let_def fun_eq_iff split: if_splits option.splits)
next
  case (Inl e)
  then have "r = Inl e \<and> ws' = ws" using assms by (simp add: ws_edit_def)
  then show ?thesis by simp
qed


definition sample_ws :: workspace where
  "sample_ws = \<lparr>ws_root = ''/w'', ws_files = [(''/w/a.txt'', ''one'')], ws_dirs = [],
     ws_real = lexical_real\<rparr>"


end
