(* ===== verification/Effects.thy ===== *)
theory Effects
  imports Prelude
begin

text \<open>
  Operations that read and change the outside world: an action takes the world to an
  exception or a value and the next world. \<open>bindE\<close> sequences, \<open>catchE\<close> is \<^verbatim>\<open>try/except\<close> and
  \<open>finallyE\<close> is \<^verbatim>\<open>try/finally\<close>; the world a failing action leaves is kept, as in the code.
  The exceptions are those of \<^verbatim>\<open>exceptions.py\<close> and the ones the services let through.
\<close>

datatype svc_exc =
    NotFoundError string
  | ConflictError string
  | ValidationError string
  | GitCommandError string
  | OsFailure string
  | SubprocessError string
  | ToolErrorRaised string
  | LLMError string
  | IntegrityError
  | LoopError
  | PyRaise pyexc

text \<open>\<^verbatim>\<open>str(exc)\<close> where a message quotes it.\<close>

fun exc_text :: "svc_exc \<Rightarrow> string" where
  "exc_text (NotFoundError m) = m"
| "exc_text (ConflictError m) = m"
| "exc_text (ValidationError m) = m"
| "exc_text (GitCommandError m) = m"
| "exc_text (OsFailure m) = m"
| "exc_text (SubprocessError m) = m"
| "exc_text (ToolErrorRaised m) = m"
| "exc_text (LLMError m) = m"
| "exc_text _ = []"

type_synonym ('w, 'a) act = "'w \<Rightarrow> (svc_exc + 'a) \<times> 'w"

definition ret :: "'a \<Rightarrow> ('w, 'a) act" where
  "ret a w = (Inr a, w)"

definition raise :: "svc_exc \<Rightarrow> ('w, 'a) act" where
  "raise e w = (Inl e, w)"

definition bindE :: "('w, 'a) act \<Rightarrow> ('a \<Rightarrow> ('w, 'b) act) \<Rightarrow> ('w, 'b) act" where
  "bindE m f w = (case m w of (Inl e, w') \<Rightarrow> (Inl e, w') | (Inr a, w') \<Rightarrow> f a w')"

definition thenE :: "('w, 'a) act \<Rightarrow> ('w, 'b) act \<Rightarrow> ('w, 'b) act" where
  "thenE m n = bindE m (\<lambda>_. n)"

definition catchE :: "('w, 'a) act \<Rightarrow> (svc_exc \<Rightarrow> ('w, 'a) act) \<Rightarrow> ('w, 'a) act" where
  "catchE m h w = (case m w of (Inl e, w') \<Rightarrow> h e w' | (Inr a, w') \<Rightarrow> (Inr a, w'))"

definition finallyE :: "('w, 'a) act \<Rightarrow> ('w \<Rightarrow> 'w) \<Rightarrow> ('w, 'a) act" where
  "finallyE m g w = (case m w of (r, w') \<Rightarrow> (r, g w'))"

definition whenE :: "bool \<Rightarrow> svc_exc \<Rightarrow> ('w, unit) act" where
  "whenE b e = (if b then raise e else ret ())"

definition gets :: "('w \<Rightarrow> 'a) \<Rightarrow> ('w, 'a) act" where
  "gets f w = (Inr (f w), w)"

definition modify :: "('w \<Rightarrow> 'w) \<Rightarrow> ('w, unit) act" where
  "modify f w = (Inr (), f w)"

definition liftR :: "svc_exc + 'a \<Rightarrow> ('w, 'a) act" where
  "liftR r w = (r, w)"

named_theorems effect_defs "the effect operations unfolded"

lemmas [effect_defs] = ret_def raise_def bindE_def thenE_def catchE_def finallyE_def
  whenE_def gets_def modify_def liftR_def

text \<open>Statements in a row.\<close>

fun seqE :: "('w, unit) act list \<Rightarrow> ('w, unit) act" where
  "seqE [] = ret ()"
| "seqE (m # ms) = thenE m (seqE ms)"

definition whenM :: "bool \<Rightarrow> ('w, unit) act \<Rightarrow> ('w, unit) act" where
  "whenM b m = (if b then m else ret ())"

lemma bindE_Inr [simp]:
  "bindE m f w = (Inr b, v) \<longleftrightarrow> (\<exists>a u. m w = (Inr a, u) \<and> f a u = (Inr b, v))"
  by (auto simp: bindE_def split: prod.splits sum.splits)

lemma bindE_Inl:
  "bindE m f w = (Inl e, v) \<longleftrightarrow>
     m w = (Inl e, v) \<or> (\<exists>a u. m w = (Inr a, u) \<and> f a u = (Inl e, v))"
  by (auto simp: bindE_def split: prod.splits sum.splits)

lemma thenE_Inr [simp]:
  "thenE m n w = (Inr b, v) \<longleftrightarrow> (\<exists>a u. m w = (Inr a, u) \<and> n u = (Inr b, v))"
  by (simp add: thenE_def)

lemma whenE_Inr [simp]: "whenE b e w = (Inr x, v) \<longleftrightarrow> \<not> b \<and> v = w"
  by (auto simp: whenE_def ret_def raise_def)

lemma gets_Inr [simp]: "gets f w = (Inr x, v) \<longleftrightarrow> x = f w \<and> v = w"
  by (auto simp: gets_def)

lemma ret_Inr [simp]: "ret a w = (Inr x, v) \<longleftrightarrow> x = a \<and> v = w"
  by (auto simp: ret_def)

lemma raise_Inr [simp]: "raise e w \<noteq> (Inr x, v)"
  by (simp add: raise_def)

lemma modify_Inr [simp]: "modify f w = (Inr x, v) \<longleftrightarrow> v = f w"
  by (auto simp: modify_def)

lemma liftR_Inr [simp]: "liftR r w = (Inr x, v) \<longleftrightarrow> r = Inr x \<and> v = w"
  by (auto simp: liftR_def)

lemma catchE_raise_Inr:
  "(\<And>e u. h e u = (raise (g e) (k e u) :: (svc_exc + 'a) \<times> 'w)) \<Longrightarrow>
     catchE m h w = (Inr x, v) \<longleftrightarrow> m w = (Inr x, v)"
  by (auto simp: catchE_def raise_def split: prod.splits sum.splits)

lemma finallyE_Inr [simp]:
  "finallyE m g w = (Inr x, v) \<longleftrightarrow> (\<exists>u. m w = (Inr x, u) \<and> v = g u)"
  by (auto simp: finallyE_def split: prod.splits)

end
