(* ===== verification/Change_Set.thy ===== *)
theory Change_Set
  imports Effects Paths Sha256 Py_Json Config
begin

text \<open>
  \<^verbatim>\<open>services/changeset.py\<close>: the Git operations behind local projects. \<^verbatim>\<open>subprocess.run\<close> and the
  file system are the operations \<open>host_ops\<close> on an outside world; git itself is not modelled,
  what a theorem needs of it is a hypothesis on \<open>ho_run\<close>. The files of the metadata directory
  and the source locks are only touched by this module and are part of the state \<open>host\<close>.
  Byte strings are strings; decoding keeps them.
\<close>

section \<open>The host\<close>

datatype proc_outcome = Exited int string string | ProcOsError string | ProcTimeout string

record 'w host_ops =
  ho_run :: "'w \<Rightarrow> string list \<Rightarrow> (string \<times> string) list \<Rightarrow> string option \<Rightarrow> proc_outcome \<times> 'w"
  ho_environ :: "(string \<times> string) list"
  ho_resolve_strict :: "'w \<Rightarrow> string \<Rightarrow> string option"
  ho_resolve :: "'w \<Rightarrow> string \<Rightarrow> string"
  ho_is_dir :: "'w \<Rightarrow> string \<Rightarrow> bool"
  ho_exists :: "'w \<Rightarrow> string \<Rightarrow> bool"
  ho_nonempty :: "'w \<Rightarrow> string \<Rightarrow> bool"
  ho_rmdir :: "string \<Rightarrow> 'w \<Rightarrow> 'w"
  ho_mkdirs :: "string \<Rightarrow> 'w \<Rightarrow> 'w"
  ho_rmtree :: "string \<Rightarrow> 'w \<Rightarrow> 'w"
  ho_temp_index :: "'w \<Rightarrow> string"

record 'w host =
  outside :: 'w
  metadata :: "string \<Rightarrow> string option"
  held_locks :: "string list"

definition on_outside :: "('w \<Rightarrow> 'w) \<Rightarrow> ('w, 'm) host_scheme \<Rightarrow> ('w, 'm) host_scheme" where
  "on_outside f h = h\<lparr>outside := f (outside h)\<rparr>"

record project_binding =
  pb_source :: string
  pb_relative_path :: string
  pb_base_commit :: string
  pb_branch :: "string option"

record file_change =
  fc_path :: string
  fc_status :: string
  fc_additions :: "int option"
  fc_deletions :: "int option"
  fc_previous_path :: "string option"

record snapshot =
  sn_patch :: string
  sn_patch_sha256 :: string
  sn_files :: "file_change list"
  sn_diff :: string
  sn_diff_truncated :: bool

section \<open>Running git\<close>

definition receipt_paths :: "string list" where
  "receipt_paths = [''receipt.json'', ''RECEIPT.md'']"

definition git_environment ::
  "(string \<times> string) list \<Rightarrow> (string \<times> string) list \<Rightarrow> (string \<times> string) list" where
  "git_environment environ extra =
     fold (\<lambda>(k, v). AList.update k v) extra
       (AList.update ''GIT_TERMINAL_PROMPT'' ''0''
         (AList.update ''GIT_CONFIG_GLOBAL'' ''/dev/null''
           (AList.update ''GIT_CONFIG_NOSYSTEM'' ''1'' environ)))"

definition git_prefix :: "string list" where
  "git_prefix = [''git'', ''-c'', ''core.hooksPath=/dev/null'', ''-c'', ''core.fsmonitor=false'']"

definition git_argv :: "string \<Rightarrow> string list \<Rightarrow> string list" where
  "git_argv repo args = git_prefix @ [''-C'', repo] @ args"

definition run_proc ::
  "'w host_ops \<Rightarrow> string list \<Rightarrow> (string \<times> string) list \<Rightarrow> string option \<Rightarrow>
     (('w, 'm) host_scheme, proc_outcome) act" where
  "run_proc ops argv extra input h =
     (case ho_run ops (outside h) argv (git_environment (ho_environ ops) extra) input of
        (r, u) \<Rightarrow> (Inr r, h\<lparr>outside := u\<rparr>))"

definition git ::
  "'w host_ops \<Rightarrow> string \<Rightarrow> string list \<Rightarrow> string option \<Rightarrow> (string \<times> string) list \<Rightarrow>
     (('w, 'm) host_scheme, string) act" where
  "git ops repo args input extra =
     bindE (run_proc ops (git_argv repo args) extra input)
       (\<lambda>r. case r of
              Exited code out err \<Rightarrow>
                if code \<noteq> 0
                then raise (GitCommandError
                  (if py_strip err = [] then ''git '' @ py_join '' '' args @ '' failed''
                   else py_strip err))
                else ret out
            | ProcOsError m \<Rightarrow> raise (OsFailure m)
            | ProcTimeout m \<Rightarrow> raise (SubprocessError m))"

definition git_line :: "'w host_ops \<Rightarrow> string \<Rightarrow> string list \<Rightarrow> (('w, 'm) host_scheme, string) act" where
  "git_line ops repo args = bindE (git ops repo args None []) (\<lambda>out. ret (py_strip out))"

section \<open>Sources\<close>

definition projects_root :: "'w host_ops \<Rightarrow> settings \<Rightarrow> (('w, 'm) host_scheme, string) act" where
  "projects_root ops c =
     (if \<not> nonempty_opt (loop_local_projects_root c)
      then raise (ValidationError
        ''Local project tasks are disabled; set LOOP_LOCAL_PROJECTS_ROOT first.'')
      else bindE (gets (\<lambda>h. ho_resolve_strict ops (outside h) (the (loop_local_projects_root c))))
        (\<lambda>r. case r of
               None \<Rightarrow> raise (ValidationError ''LOOP_LOCAL_PROJECTS_ROOT does not exist.'')
             | Some root \<Rightarrow>
                 bindE (gets (\<lambda>h. ho_is_dir ops (outside h) root))
                   (\<lambda>d. if d then ret root
                        else raise (ValidationError ''LOOP_LOCAL_PROJECTS_ROOT must be a directory.''))))"

definition allowed_source :: "'w host_ops \<Rightarrow> settings \<Rightarrow> string \<Rightarrow> (('w, 'm) host_scheme, string \<times> string) act" where
  "allowed_source ops c source =
     bindE (projects_root ops c)
       (\<lambda>root. bindE (gets (\<lambda>h. ho_resolve_strict ops (outside h) source))
          (\<lambda>r. case r of
                 None \<Rightarrow> raise (ValidationError ''The requested local project does not exist.'')
               | Some resolved \<Rightarrow>
                   if resolved \<noteq> root \<and> \<not> below root resolved
                   then raise (ValidationError
                     ''The requested project escapes LOOP_LOCAL_PROJECTS_ROOT.'')
                   else ret (root, resolved)))"

definition status_args :: "string list" where
  "status_args = [''status'', ''--porcelain=v1'', ''--untracked-files=all'']"

definition dirty_source_message :: string where
  "dirty_source_message = ''The source project has uncommitted changes. Commit or stash them before starting an isolated task.''"

definition prepare_project ::
  "'w host_ops \<Rightarrow> settings \<Rightarrow> string \<Rightarrow> (('w, 'm) host_scheme, project_binding) act" where
  "prepare_project ops c relative_path =
     (if prefix ''/'' relative_path
      then raise (ValidationError ''project_path must be relative to LOOP_LOCAL_PROJECTS_ROOT.'')
      else
        bindE (bindE (projects_root ops c) (\<lambda>root. allowed_source ops c (join_path root relative_path)))
          (\<lambda>(root, source).
             bindE (catchE
                 (bindE (git_line ops source [''rev-parse'', ''--show-toplevel''])
                    (\<lambda>out. gets (\<lambda>h. ho_resolve ops (outside h) out)))
                 (\<lambda>e. case e of
                    GitCommandError m \<Rightarrow> raise (ValidationError ''The requested project is not a Git repository.'')
                  | OsFailure m \<Rightarrow> raise (ValidationError ''The requested project is not a Git repository.'')
                  | _ \<Rightarrow> raise e))
               (\<lambda>top.
                  thenE (whenE (top \<noteq> source)
                     (ValidationError ''project_path must identify the Git repository root.''))
                   (bindE (git ops source status_args None [])
                     (\<lambda>dirty.
                        thenE (whenE (dirty \<noteq> []) (ConflictError dirty_source_message))
                         (bindE (git_line ops source [''rev-parse'', ''HEAD''])
                           (\<lambda>base.
                              bindE (git_line ops source [''branch'', ''--show-current''])
                                (\<lambda>branch.
                                   ret \<lparr>pb_source = source,
                                        pb_relative_path = relative_to root source,
                                        pb_base_commit = base,
                                        pb_branch = (if branch = [] then None else Some branch)\<rparr>))))))))"

text \<open>Cloning: the isolated checkout of a task, detached at the base commit.\<close>

definition git_clone :: "'w host_ops \<Rightarrow> string \<Rightarrow> string \<Rightarrow> (('w, 'm) host_scheme, unit) act" where
  "git_clone ops source destination =
     bindE (run_proc ops
         (git_prefix @ [''clone'', ''--quiet'', ''--no-local'', ''--no-checkout'', source, destination]) [] None)
       (\<lambda>r. case r of
              Exited code out err \<Rightarrow>
                if code \<noteq> 0 then raise (GitCommandError (py_strip err)) else ret ()
            | ProcOsError m \<Rightarrow> raise (OsFailure m)
            | ProcTimeout m \<Rightarrow> raise (SubprocessError m))"

fun caught_by_clone :: "svc_exc \<Rightarrow> bool" where
  "caught_by_clone (GitCommandError m) = True"
| "caught_by_clone (OsFailure m) = True"
| "caught_by_clone (SubprocessError m) = True"
| "caught_by_clone _ = False"

definition clone_project ::
  "'w host_ops \<Rightarrow> project_binding \<Rightarrow> string \<Rightarrow> (('w, 'm) host_scheme, unit) act" where
  "clone_project ops b dest =
     bindE (gets (\<lambda>h. ho_resolve ops (outside h) dest))
       (\<lambda>d. bindE (gets (\<lambda>h. (ho_exists ops (outside h) d, ho_nonempty ops (outside h) d)))
          (\<lambda>(ex, filled).
             thenE (whenE (ex \<and> filled) (ConflictError
                 ''The isolated project workspace already exists and is not empty.''))
              (thenE (modify (on_outside (\<lambda>u. if ex then ho_rmdir ops d u else u)))
                (thenE (modify (on_outside (ho_mkdirs ops (path_parent d))))
                  (catchE
                    (thenE (git_clone ops (pb_source b) d)
                      (thenE (git ops d [''checkout'', ''--quiet'', ''--detach'', pb_base_commit b] None [])
                        (thenE (git ops d [''remote'', ''remove'', ''origin''] None []) (ret ()))))
                    (\<lambda>e. if caught_by_clone e
                      then thenE (modify (on_outside (ho_rmtree ops d)))
                            (raise (ConflictError
                              (''Could not create the isolated Git checkout: '' @ exc_text e)))
                      else raise e))))))"

section \<open>Snapshots\<close>

abbreviation nul_ch :: char where "nul_ch \<equiv> CHR 0x00"
abbreviation tab_ch :: char where "tab_ch \<equiv> CHR 0x09"

text \<open>\<^verbatim>\<open>_parse_name_status\<close>: an index past the end is \<^verbatim>\<open>IndexError\<close>.\<close>

fun name_status_from :: "string list \<Rightarrow> (string \<times> string \<times> string option) list result" where
  "name_status_from [] = Inr []"
| "name_status_from [_] = Inl IndexError"
| "name_status_from (st # p # ts) =
     (if take 1 st \<in> {''R'', ''C''}
      then (case ts of
              [] \<Rightarrow> Inl IndexError
            | q # us \<Rightarrow>
                (case name_status_from us of
                   Inl e \<Rightarrow> Inl e | Inr rows \<Rightarrow> Inr ((st, q, Some p) # rows)))
      else (case name_status_from ts of
              Inl e \<Rightarrow> Inl e | Inr rows \<Rightarrow> Inr ((st, p, None) # rows)))"

definition parse_name_status :: "string \<Rightarrow> (string \<times> string \<times> string option) list result" where
  "parse_name_status raw = name_status_from (filter (\<lambda>t. t \<noteq> []) (split_char nul_ch raw))"

text \<open>\<^verbatim>\<open>token.split(b"\t", 2)\<close>, when it has three parts.\<close>

definition split_tabs :: "string \<Rightarrow> (string \<times> string \<times> string) option" where
  "split_tabs t =
     (case partition_at [tab_ch] t of
        None \<Rightarrow> None
      | Some (a, r) \<Rightarrow> map_option (\<lambda>(b, p). (a, b, p)) (partition_at [tab_ch] r))"

definition parse_count :: "string \<Rightarrow> int option result" where
  "parse_count raw =
     (if raw = ''-'' then Inr None
      else (case int_of_string raw of Inl e \<Rightarrow> Inl e | Inr n \<Rightarrow> Inr (Some n)))"

type_synonym stats = "(string \<times> (int option \<times> int option)) list"

definition add_stat :: "stats \<Rightarrow> string \<Rightarrow> string \<Rightarrow> string \<Rightarrow> stats result" where
  "add_stat acc path a d =
     (case parse_count a of
        Inl e \<Rightarrow> Inl e
      | Inr x \<Rightarrow> (case parse_count d of Inl e \<Rightarrow> Inl e | Inr y \<Rightarrow> Inr (AList.update path (x, y) acc)))"

function numstat_from :: "string list \<Rightarrow> stats \<Rightarrow> stats result" where
  "numstat_from [] acc = Inr acc"
| "numstat_from (t # ts) acc =
     (case split_tabs t of
        None \<Rightarrow> numstat_from ts acc
      | Some (a, d, p) \<Rightarrow>
          if p \<noteq> []
          then (case add_stat acc p a d of Inl e \<Rightarrow> Inl e | Inr acc' \<Rightarrow> numstat_from ts acc')
          else if length ts < 2 then Inr acc
          else (case add_stat acc (ts ! 1) a d of
                  Inl e \<Rightarrow> Inl e | Inr acc' \<Rightarrow> numstat_from (drop 2 ts) acc'))"
  by pat_completeness auto
termination by (relation "measure (\<lambda>(ts, acc). length ts)") auto

definition parse_numstat :: "string \<Rightarrow> stats result" where
  "parse_numstat raw = numstat_from (split_char nul_ch raw) []"

definition index_args :: "string list" where
  "index_args = [''add'', ''-A'', ''--'', ''.''] @ map (\<lambda>p. '':(exclude)'' @ p) receipt_paths"

definition temporary_index ::
  "'w host_ops \<Rightarrow> string \<Rightarrow> string \<Rightarrow> (('w, 'm) host_scheme, (string \<times> string) list) act" where
  "temporary_index ops repo base =
     bindE (gets (\<lambda>h. [(''GIT_INDEX_FILE'', ho_temp_index ops (outside h))]))
       (\<lambda>env. thenE (git ops repo [''read-tree'', base] None env)
                (thenE (git ops repo index_args None env) (ret env)))"

definition patch_args :: "string \<Rightarrow> string list" where
  "patch_args base = [''diff'', ''--cached'', ''--binary'', ''--full-index'', ''--no-ext-diff'', ''--find-renames'', base]"

definition name_status_args :: "string \<Rightarrow> string list" where
  "name_status_args base = [''diff'', ''--cached'', ''--name-status'', ''-z'', ''--find-renames'', base]"

definition numstat_args :: "string \<Rightarrow> string list" where
  "numstat_args base = [''diff'', ''--cached'', ''--numstat'', ''-z'', ''--find-renames'', base]"

definition preview_args :: "string \<Rightarrow> string list" where
  "preview_args base = [''diff'', ''--cached'', ''--no-color'', ''--no-ext-diff'', ''--find-renames'', base]"

definition truncate_preview :: "int \<Rightarrow> string \<Rightarrow> string \<times> bool" where
  "truncate_preview limit raw =
     (if int (length raw) > limit
      then (take (nat limit) raw @ nl @ ''... [diff preview truncated]'', True)
      else (raw, False))"

definition make_snapshot ::
  "settings \<Rightarrow> string \<Rightarrow> string \<Rightarrow> string \<Rightarrow> string \<Rightarrow> snapshot result" where
  "make_snapshot c patch raw_status raw_stats preview_raw =
     (case parse_numstat raw_stats of
        Inl e \<Rightarrow> Inl e
      | Inr stats \<Rightarrow>
          (case parse_name_status raw_status of
             Inl e \<Rightarrow> Inl e
           | Inr rows \<Rightarrow>
               (let files = map (\<lambda>(st, path, previous).
                      (let s = (case map_of stats path of None \<Rightarrow> (None, None) | Some s \<Rightarrow> s)
                       in \<lparr>fc_path = path, fc_status = st, fc_additions = fst s,
                           fc_deletions = snd s, fc_previous_path = previous\<rparr>)) rows;
                    p = truncate_preview (loop_changeset_preview_bytes c) preview_raw
                in Inr \<lparr>sn_patch = patch, sn_patch_sha256 = sha256_hex patch, sn_files = files,
                        sn_diff = fst p, sn_diff_truncated = snd p\<rparr>)))"

definition inspect_changes ::
  "'w host_ops \<Rightarrow> settings \<Rightarrow> string \<Rightarrow> string \<Rightarrow> (('w, 'm) host_scheme, snapshot) act" where
  "inspect_changes ops c repo base =
     bindE (catchE
         (bindE (temporary_index ops repo base)
           (\<lambda>env. bindE (git ops repo (patch_args base) None env)
             (\<lambda>patch. bindE (git ops repo (name_status_args base) None env)
               (\<lambda>raw_status. bindE (git ops repo (numstat_args base) None env)
                 (\<lambda>raw_stats. bindE (git ops repo (preview_args base) None env)
                   (\<lambda>preview. ret (patch, raw_status, raw_stats, preview)))))))
         (\<lambda>e. case e of
            GitCommandError m \<Rightarrow> raise (ConflictError (''Could not inspect the isolated Git checkout: '' @ m))
          | _ \<Rightarrow> raise e))
       (\<lambda>(patch, raw_status, raw_stats, preview).
          liftR (case make_snapshot c patch raw_status raw_stats preview of
                   Inl e \<Rightarrow> Inl (PyRaise e) | Inr s \<Rightarrow> Inr s))"

text \<open>A revision starts from a clone that must reproduce the verified patch.\<close>

definition clone_project_revision ::
  "'w host_ops \<Rightarrow> settings \<Rightarrow> project_binding \<Rightarrow> string \<Rightarrow> string \<Rightarrow> (('w, 'm) host_scheme, unit) act" where
  "clone_project_revision ops c b dest patch =
     thenE (clone_project ops b dest)
       (catchE
         (thenE (git ops dest [''apply'', ''--binary'', ''--check''] (Some patch) [])
           (thenE (git ops dest [''apply'', ''--binary''] (Some patch) [])
             (bindE (inspect_changes ops c dest (pb_base_commit b))
               (\<lambda>seeded. whenE (sn_patch_sha256 seeded \<noteq> sha256_hex patch) (ConflictError
                  ''The revision workspace did not reproduce the verified patch.'')))))
         (\<lambda>e. case e of
            ConflictError m \<Rightarrow> thenE (modify (on_outside (ho_rmtree ops dest))) (raise e)
          | GitCommandError m \<Rightarrow> thenE (modify (on_outside (ho_rmtree ops dest)))
              (raise (ConflictError (''Could not seed the product revision workspace: '' @ m)))
          | OsFailure m \<Rightarrow> thenE (modify (on_outside (ho_rmtree ops dest)))
              (raise (ConflictError (''Could not seed the product revision workspace: '' @ m)))
          | _ \<Rightarrow> raise e))"

section \<open>Applying a patch to the source\<close>

definition moved_source_message :: string where
  "moved_source_message = ''The source project moved to a different commit; this change set cannot be applied safely.''"

definition dirty_apply_message :: string where
  "dirty_apply_message = ''The source project has uncommitted changes; Apply refuses to overwrite them.''"

definition verify_source ::
  "'w host_ops \<Rightarrow> settings \<Rightarrow> string \<Rightarrow> string \<Rightarrow> bool \<Rightarrow> (('w, 'm) host_scheme, string) act" where
  "verify_source ops c source_path base require_clean =
     bindE (allowed_source ops c source_path)
       (\<lambda>(root, source).
          catchE
            (bindE (git_line ops source [''rev-parse'', ''HEAD''])
              (\<lambda>current.
                 thenE (whenE (current \<noteq> base) (ConflictError moved_source_message))
                  (thenE
                    (if require_clean
                     then bindE (git ops source status_args None [])
                            (\<lambda>out. whenE (out \<noteq> []) (ConflictError dirty_apply_message))
                     else ret ())
                    (ret source))))
            (\<lambda>e. case e of
               GitCommandError m \<Rightarrow> raise (ConflictError (''Could not verify the source project: '' @ m))
             | _ \<Rightarrow> raise e))"

definition apply_args :: "bool \<Rightarrow> string list" where
  "apply_args reverse = [''apply'', ''--binary''] @ (if reverse then [''--reverse''] else [])"

definition apply_patch ::
  "'w host_ops \<Rightarrow> settings \<Rightarrow> string \<Rightarrow> string \<Rightarrow> string \<Rightarrow> bool \<Rightarrow> bool \<Rightarrow> (('w, 'm) host_scheme, unit) act" where
  "apply_patch ops c source_path base patch reverse allow_dirty =
     bindE (verify_source ops c source_path base (\<not> reverse \<and> \<not> allow_dirty))
       (\<lambda>source.
          catchE
            (thenE (git ops source (apply_args reverse @ [''--check'']) (Some patch) [])
              (thenE (git ops source (apply_args reverse) (Some patch) []) (ret ())))
            (\<lambda>e. case e of
               GitCommandError m \<Rightarrow> raise (ConflictError
                 ((if reverse then ''Undo'' else ''Apply'') @ '' could not be completed without conflicts: '' @ m))
             | _ \<Rightarrow> raise e))"

section \<open>Locks and patch records\<close>

definition lock_name :: "'w host_ops \<Rightarrow> 'w \<Rightarrow> string \<Rightarrow> string" where
  "lock_name ops u source_path =
     ''source-'' @ sha256_hex (ho_resolve ops u source_path) @ ''.filelock''"

definition acquire_source_lock :: "'w host_ops \<Rightarrow> string \<Rightarrow> (('w, 'm) host_scheme, string) act" where
  "acquire_source_lock ops source_path h =
     (let name = lock_name ops (outside h) source_path
      in if name \<in> set (held_locks h)
         then (Inl (ConflictError ''Another change-set operation is in progress for this project.''), h)
         else (Inr name, h\<lparr>held_locks := name # held_locks h\<rparr>))"

definition release_source_lock :: "string \<Rightarrow> ('w, 'm) host_scheme \<Rightarrow> ('w, 'm) host_scheme" where
  "release_source_lock name h = h\<lparr>held_locks := remove1 name (held_locks h)\<rparr>"

definition patch_path :: "string \<Rightarrow> string" where
  "patch_path i = i @ ''.patch''"

definition save_patch :: "string \<Rightarrow> string \<Rightarrow> ('w, 'm) host_scheme \<Rightarrow> ('w, 'm) host_scheme" where
  "save_patch i patch h = h\<lparr>metadata := (metadata h)(patch_path i \<mapsto> patch)\<rparr>"

definition load_patch :: "string \<Rightarrow> string \<Rightarrow> (('w, 'm) host_scheme, string) act" where
  "load_patch i expected h =
     (case metadata h (patch_path i) of
        None \<Rightarrow> (Inl (ConflictError ''The applied patch record is missing; Undo was refused.''), h)
      | Some patch \<Rightarrow>
          if sha256_hex patch \<noteq> expected
          then (Inl (ConflictError
            ''The applied patch record failed its integrity check; Undo was refused.''), h)
          else (Inr patch, h))"

definition delete_patch :: "string \<Rightarrow> ('w, 'm) host_scheme \<Rightarrow> ('w, 'm) host_scheme" where
  "delete_patch i h = h\<lparr>metadata := (metadata h)(patch_path i := None)\<rparr>"

end
