(* ===== verification/Json_Marker.thy ===== *)
theory Json_Marker
  imports Py_Json
begin

text \<open>
  What the JSON parser does with a text that was cut and marked: where a newline is followed
  by a full stop no JSON text goes on, so a parse never gets past such a marker. A reader that
  truncates a file and appends a note starting with \<open>\n.\<close> therefore never yields JSON.
\<close>

definition marked :: "string \<Rightarrow> string \<Rightarrow> bool" where
  "marked m s = (\<exists>u. s = u @ CHR 0x0A # CHR ''.'' # m)"

lemma marked_Nil [simp]: "\<not> marked m []"
  by (simp add: marked_def)

lemma marked_Cons: "marked m (c # s) \<longleftrightarrow> marked m s \<or> (c = CHR 0x0A \<and> s = CHR ''.'' # m)"
  unfolding marked_def by (auto simp: Cons_eq_append_conv)

lemma marked_tail: "marked m (c # s) \<Longrightarrow> c \<noteq> CHR 0x0A \<Longrightarrow> marked m s"
  by (simp add: marked_Cons)

lemma marked_drop:
  "marked m s \<Longrightarrow> prefix p s \<Longrightarrow> CHR 0x0A \<notin> set p \<Longrightarrow> marked m (drop (length p) s)"
proof (induction p arbitrary: s)
  case (Cons a p)
  then obtain t where s: "s = a # t" "prefix p t" by (cases s) auto
  with Cons.prems have "marked m t" by (auto simp: marked_Cons)
  from Cons.IH [OF this s(2)] Cons.prems(3) s show ?case by simp
qed simp

lemma marked_dropWhile:
  "marked m s \<Longrightarrow> \<not> P (CHR 0x0A) \<Longrightarrow> marked m (dropWhile P s)"
  by (induction s) (auto simp: marked_Cons)

lemma digit_not_newline [simp]: "\<not> py_isdigit (CHR 0x0A)"
  by code_simp

lemma marked_strip_lit:
  "strip_lit p s = Some r \<Longrightarrow> marked m s \<Longrightarrow> CHR 0x0A \<notin> set p \<Longrightarrow> marked m r"
  by (auto simp: strip_lit_def marked_drop split: if_splits)

text \<open>Skipping whitespace stays before the marker or stops at its full stop.\<close>

lemma marked_skip_ws: "marked m s \<Longrightarrow> marked m (skip_ws s) \<or> skip_ws s = CHR ''.'' # m"
  unfolding skip_ws_def
  by (induction s) (auto simp: marked_Cons json_ws_def)

lemma hex_val_newline [simp]: "hex_val (CHR 0x0A) = None"
  by code_simp

lemma marked_hex4: "parse_hex4 s = Some (n, r) \<Longrightarrow> marked m s \<Longrightarrow> marked m r"
  by (induction s rule: parse_hex4.induct) (auto simp: marked_Cons split: option.splits)

lemma marked_unicode: "parse_unicode s = Some (t, r) \<Longrightarrow> marked m s \<Longrightarrow> marked m r"
proof -
  assume u: "parse_unicode s = Some (t, r)" and s: "marked m s"
  then obtain hi q where q: "parse_hex4 s = Some (hi, q)"
    by (auto simp: parse_unicode_def split: option.splits)
  have mq: "marked m q" using marked_hex4 [OF q s] .
  have "prefix (bslash_ch # ''u'') q \<Longrightarrow> marked m (drop 2 q)"
    using marked_drop [OF mq, of "bslash_ch # ''u''"] by (simp add: numeral_2_eq_2)
  with u q mq show ?thesis
    by (auto simp: parse_unicode_def split: option.splits if_splits dest: marked_hex4)
qed

lemma marked_escape: "parse_escape s = Some (t, r) \<Longrightarrow> marked m s \<Longrightarrow> marked m r"
  by (cases s)
    (auto simp: marked_Cons simple_escape_def split: if_splits dest: marked_unicode)

lemma marked_str: "parse_str s = Some (t, r) \<Longrightarrow> marked m s \<Longrightarrow> marked m r"
proof (induction s arbitrary: t rule: parse_str.induct)
  case (2 c s)
  consider "c = quote_ch" | "c = bslash_ch" | "c \<noteq> quote_ch" "c \<noteq> bslash_ch" by blast
  then show ?case
  proof cases
    case 1
    with 2(3,4) show ?thesis by (simp add: marked_Cons)
  next
    case 2: 2
    with "2.prems" obtain e q where e: "parse_escape s = Some (e, q)"
      by (auto split: option.splits)
    have "marked m q" using marked_escape [OF e] 2 "2.prems"(2) by (simp add: marked_Cons)
    with 2 e "2.prems" "2.IH"(1) show ?thesis by fastforce
  next
    case 3
    with "2.prems" have "c \<noteq> CHR 0x0A" by (auto split: if_splits)
    with 3 "2.prems" "2.IH"(2) show ?thesis by (auto simp: marked_Cons split: if_splits)
  qed
qed simp



lemma marked_frac: "marked m s \<Longrightarrow> marked m (snd (parse_frac s))"
proof (cases s)
  case (Cons c t)
  assume s: "marked m s"
  show ?thesis
  proof (cases t)
    case Nil
    with s Cons show ?thesis by (simp add: parse_frac_def)
  next
    case t: (Cons d u)
    have "c = CHR ''.'' \<Longrightarrow> marked m (dropWhile py_isdigit t)"
      using s Cons by (intro marked_dropWhile) (auto simp: marked_Cons)
    with s Cons t show ?thesis by (auto simp: parse_frac_def)
  qed
qed simp

lemma marked_sign: "marked m s \<Longrightarrow> marked m (snd (split_sign s))"
  by (cases s rule: split_sign.cases) (auto simp: marked_Cons)

lemma marked_exp: "marked m s \<Longrightarrow> marked m (snd (parse_exp s))"
proof (cases s)
  case (Cons c t)
  assume s: "marked m s"
  have "c = CHR ''e'' \<or> c = CHR ''E'' \<Longrightarrow> marked m (dropWhile py_isdigit (snd (split_sign t)))"
    using s Cons by (intro marked_dropWhile marked_sign) (auto simp: marked_Cons)
  with s Cons show ?thesis by (auto simp: parse_exp_def Let_def split: prod.splits)
qed simp

lemma marked_intpart: "parse_intpart s = Some (ip, r) \<Longrightarrow> marked m s \<Longrightarrow> marked m r"
  by (cases s)
    (auto simp: parse_intpart_def marked_Cons split: if_splits intro: marked_dropWhile)

lemma marked_number: "parse_number s = Some (v, r) \<Longrightarrow> marked m s \<Longrightarrow> marked m r"
proof -
  assume n: "parse_number s = Some (v, r)" and s: "marked m s"
  define s1 where "s1 = (case s of c # t \<Rightarrow> if c = CHR ''-'' then t else s | [] \<Rightarrow> [])"
  have m1: "marked m s1" using s by (cases s) (auto simp: s1_def marked_Cons)
  from n obtain ip s2 where ip: "parse_intpart s1 = Some (ip, s2)"
    by (cases s) (auto simp: parse_number_def s1_def split: option.splits if_splits prod.splits)
  from n ip have "r = snd (parse_exp (snd (parse_frac s2)))"
    by (cases s) (auto simp: parse_number_def s1_def Let_def split: option.splits if_splits prod.splits)
  with marked_exp [OF marked_frac [OF marked_intpart [OF ip m1]]] show ?thesis by simp
qed

lemma marked_atom: "parse_atom s = Some (v, r) \<Longrightarrow> marked m s \<Longrightarrow> marked m r"
  unfolding parse_atom_def
  by (auto split: option.splits elim!: marked_strip_lit marked_number)

lemma dot_fails [simp]:
  "parse_value f (CHR ''.'' # m) = None"
  "parse_elems f (CHR ''.'' # m) = None"
  "parse_members f (CHR ''.'' # m) = None"
proof -
  have a: "parse_atom (CHR ''.'' # m) = None"
    by (simp add: parse_atom_def strip_lit_def parse_number_def parse_intpart_def py_isdigit_code)
  show v: "parse_value f (CHR ''.'' # m) = None" for f by (cases f) (simp_all add: a)
  show "parse_elems f (CHR ''.'' # m) = None" by (cases f) (simp_all add: v)
  show "parse_members f (CHR ''.'' # m) = None" by (cases f) (simp_all add: strip_lit_def)
qed

lemma marked_lit_ws:
  "strip_lit [c] (skip_ws s) = Some r \<Longrightarrow> marked m s \<Longrightarrow> c \<noteq> CHR ''.'' \<Longrightarrow> c \<noteq> CHR 0x0A \<Longrightarrow> marked m r"
  by (drule marked_skip_ws [of m s]) (auto simp: strip_lit_def split: if_splits dest: marked_drop [of m _ "[c]"])

lemma marked_Cons_ws:
  "skip_ws s = c # q \<Longrightarrow> marked m s \<Longrightarrow> c \<noteq> CHR ''.'' \<Longrightarrow> c \<noteq> CHR 0x0A \<Longrightarrow> marked m q"
  by (drule marked_skip_ws [of m s]) (auto simp: marked_Cons)

lemma marked_value:
  "parse_value f s = Some (v, r) \<Longrightarrow> marked m s \<Longrightarrow> marked m r"
  "parse_elems f s = Some (vs, r) \<Longrightarrow> marked m s \<Longrightarrow> marked m r"
  "parse_members f s = Some (d, r) \<Longrightarrow> marked m s \<Longrightarrow> marked m r"
proof (induction f s and f s and f s arbitrary: v r and vs r and d r rule: parse_value_parse_elems_parse_members.induct)
  case (2 f s)
  then obtain c t where s: "s = c # t" by (cases s) auto
  consider "c = quote_ch" | "c = CHR ''{''" | "c = CHR ''[''"
    | "c \<notin> {quote_ch, CHR ''{'', CHR ''[''}" by blast
  then show ?case
  proof cases
    case 1
    with 2 s show ?thesis by (auto simp: marked_Cons dest: marked_str)
  next
    case 2: 2
    with "2.prems" s have t: "marked m t" by (simp add: marked_Cons)
    show ?thesis
    proof (cases "strip_lit ''}'' (skip_ws t)")
      case None
      with "2.prems" 2 s obtain d' where d': "parse_members f (skip_ws t) = Some (d', r)" by auto
      have c: "c \<noteq> quote_ch" using 2 by simp
      from marked_skip_ws [OF t] show ?thesis
      proof
        assume "marked m (skip_ws t)"
        from "2.IH"(1) [OF s c 2 None d' this] show ?thesis .
      qed (use d' in simp)
    next
      case (Some q)
      then show ?thesis using "2.prems" 2 s marked_lit_ws [OF Some t] by simp
    qed
  next
    case 3
    with "2.prems" s have t: "marked m t" by (simp add: marked_Cons)
    show ?thesis
    proof (cases "strip_lit '']'' (skip_ws t)")
      case None
      with "2.prems" 3 s obtain vs' where vs': "parse_elems f (skip_ws t) = Some (vs', r)" by auto
      have c: "c \<noteq> quote_ch" "c \<noteq> CHR ''{''" using 3 by simp_all
      from marked_skip_ws [OF t] show ?thesis
      proof
        assume "marked m (skip_ws t)"
        from "2.IH"(2) [OF s c 3 None vs' this] show ?thesis .
      qed (use vs' in simp)
    next
      case (Some q)
      then show ?thesis using "2.prems" 3 s marked_lit_ws [OF Some t] by simp
    qed
  next
    case 4
    with "2.prems" s show ?thesis by (auto dest: marked_atom)
  qed
next
  case (4 f s)
  then obtain w q where w: "parse_value f s = Some (w, q)" by (auto split: option.splits)
  have q: "marked m q" using "4.IH"(1) [OF w "4.prems"(2)] .
  obtain c u where u: "skip_ws q = c # u" using "4.prems" w by (auto split: list.splits)
  show ?case
  proof (cases "c = CHR '']''")
    case True
    then show ?thesis using "4.prems" w u marked_Cons_ws [OF u q] by simp
  next
    case False
    then have c: "c = CHR '',''" using "4.prems" w u by (auto split: if_splits)
    have mu: "marked m u" using marked_Cons_ws [OF u q] c by simp
    from c "4.prems" w u obtain vs' where vs': "parse_elems f (skip_ws u) = Some (vs', r)"
      by auto
    from marked_skip_ws [OF mu] show ?thesis
    proof
      assume "marked m (skip_ws u)"
      moreover have "c \<noteq> CHR '']''" using c by simp
      ultimately show ?thesis using "4.IH"(2) [OF w refl u _ c vs'] by blast
    next
      assume "skip_ws u = CHR ''.'' # m"
      with vs' show ?thesis by simp
    qed
  qed
next
  case (6 f s)
  then obtain t where t: "strip_lit [quote_ch] s = Some t" by (auto split: option.splits)
  then have mt: "marked m t" using "6.prems"(2) marked_strip_lit by fastforce
  from "6.prems" t obtain k q where k: "parse_str t = Some (k, q)" by (auto split: option.splits)
  have mq: "marked m q" using marked_str [OF k mt] .
  from "6.prems" t k obtain q2 where q2: "strip_lit '':'' (skip_ws q) = Some q2"
    by (auto split: option.splits)
  have m2: "marked m q2" using marked_lit_ws [OF q2 mq] by simp
  from "6.prems" t k q2 obtain w q3 where w: "parse_value f (skip_ws q2) = Some (w, q3)"
    by (auto split: option.splits)
  have m3: "marked m q3"
    using marked_skip_ws [OF m2] "6.IH"(1) [OF t k refl q2 w] w by auto
  obtain c u where u: "skip_ws q3 = c # u" using "6.prems" t k q2 w by (auto split: list.splits)
  show ?case
  proof (cases "c = CHR ''}''")
    case True
    then show ?thesis using "6.prems" t k q2 w u marked_Cons_ws [OF u m3] by simp
  next
    case False
    then have c: "c = CHR '',''" using "6.prems" t k q2 w u by (auto split: if_splits)
    have mu: "marked m u" using marked_Cons_ws [OF u m3] c by simp
    from c "6.prems" t k q2 w u obtain d' where d': "parse_members f (skip_ws u) = Some (d', r)"
      by auto
    from marked_skip_ws [OF mu] show ?thesis
    proof
      assume "marked m (skip_ws u)"
      then show ?thesis using "6.IH"(2) t k q2 w u c d' by auto
    next
      assume "skip_ws u = CHR ''.'' # m"
      with d' show ?thesis by simp
    qed
  qed
qed simp_all

theorem marked_not_json: "marked m s \<Longrightarrow> json_loads s = None"
proof -
  assume s: "marked m s"
  show ?thesis
  proof (cases "parse_value (2 * length s) (skip_ws s)")
    case None
    then show ?thesis by (simp add: json_loads_def)
  next
    case (Some p)
    obtain v r where p: "p = (v, r)" by (cases p)
    have "marked m r" using marked_skip_ws [OF s] marked_value(1) Some p by fastforce
    then have "skip_ws r \<noteq> []" using marked_skip_ws [of m r] by auto
    then show ?thesis using Some p by (simp add: json_loads_def)
  qed
qed

end
