(* ===== verification/Receipt.thy ===== *)
theory Receipt
  imports Task_Model Workspace Completion Change_Set Json_Marker
begin

text \<open>
  \<^verbatim>\<open>services/receipt.py\<close>: the content-addressed record of a task, written into the workspace as
  \<^verbatim>\<open>receipt.json\<close> and \<^verbatim>\<open>RECEIPT.md\<close>, and its layered verification. Ed25519 and PEM parsing
  are the operations of \<open>crypto\<close>; the clock, the platform and the Python version are
  \<open>run_info\<close>. Isinstance tests on columns that have their declared type are dropped.
\<close>

record ('k, 'p) crypto =
  load_private :: "string \<Rightarrow> 'k option"
  load_public :: "string \<Rightarrow> 'p option"
  public_of :: "'k \<Rightarrow> 'p"
  public_raw :: "'p \<Rightarrow> string"
  sign_with :: "'k \<Rightarrow> string \<Rightarrow> string"
  verify_with :: "'p \<Rightarrow> string \<Rightarrow> string \<Rightarrow> bool"

record run_info =
  ri_now :: string
  ri_python :: string
  ri_implementation :: string
  ri_platform :: string

definition receipt_json :: string where "receipt_json = ''receipt.json''"
definition receipt_md :: string where "receipt_md = ''RECEIPT.md''"
definition receipt_schema_name :: string where "receipt_schema_name = ''loop.receipt/v1''"

definition non_body_keys :: "string list" where
  "non_body_keys = [''receipt_hash'', ''signature'']"

section \<open>Hexadecimal text\<close>

definition to_hex :: "string \<Rightarrow> string" where
  "to_hex s = concat (map (\<lambda>c. hex2 (ord_of c)) s)"

definition hex_digit :: "char \<Rightarrow> nat option" where
  "hex_digit c =
     (let n = ord_of c
      in if 48 \<le> n \<and> n \<le> 57 then Some (n - 48)
         else if 97 \<le> n \<and> n \<le> 102 then Some (n - 87)
         else if 65 \<le> n \<and> n \<le> 70 then Some (n - 55) else None)"

text \<open>\<^verbatim>\<open>bytes.fromhex\<close>: pairs of digits, with spaces allowed between the pairs.\<close>

fun from_hex :: "string \<Rightarrow> string option" where
  "from_hex [] = Some []"
| "from_hex [c] = (if py_isspace c then Some [] else None)"
| "from_hex (a # b # s) =
     (if py_isspace a then from_hex (b # s)
      else
        (case (hex_digit a, hex_digit b) of
           (Some x, Some y) \<Rightarrow> map_option (\<lambda>r. char_of (16 * x + y) # r) (from_hex s)
         | _ \<Rightarrow> None))"

section \<open>Keys and hashes\<close>

definition signing_key ::
  "('k, 'p) crypto \<Rightarrow> (string \<Rightarrow> string option) \<Rightarrow> settings \<Rightarrow> 'k option" where
  "signing_key cr read_text c =
     (let pem = receipt_signing_key_pem read_text c
      in if \<not> nonempty_opt pem then None else load_private cr (the pem))"

definition verify_key ::
  "('k, 'p) crypto \<Rightarrow> (string \<Rightarrow> string option) \<Rightarrow> settings \<Rightarrow> 'p option" where
  "verify_key cr read_text c = map_option (public_of cr) (signing_key cr read_text c)"

definition signing_key_id :: "('k, 'p) crypto \<Rightarrow> 'k \<Rightarrow> string" where
  "signing_key_id cr k = ''ed25519:'' @ take 24 (sha256_hex (public_raw cr (public_of cr k)))"

definition canonical_hash :: "jdict \<Rightarrow> string" where
  "canonical_hash body = sha256_hex (canonical_ascii (JObj body))"

definition body_of :: "jdict \<Rightarrow> jdict" where
  "body_of receipt = filter (\<lambda>(k, v). k \<notin> set non_body_keys) receipt"

section \<open>The manifest\<close>

definition stat_size :: "workspace \<Rightarrow> string \<Rightarrow> ws_exc + nat" where
  "stat_size ws rel =
     (case ws_resolve ws rel of
        Inl e \<Rightarrow> Inl e
      | Inr p \<Rightarrow> (case map_of (ws_files ws) p of None \<Rightarrow> Inl WsOs | Some c \<Rightarrow> Inr (length c)))"

definition file_digest :: "workspace \<Rightarrow> string \<Rightarrow> ws_exc + string" where
  "file_digest ws rel =
     (case ws_resolve ws rel of
        Inl e \<Rightarrow> Inl e
      | Inr p \<Rightarrow> (case map_of (ws_files ws) p of None \<Rightarrow> Inl WsOs | Some c \<Rightarrow> Inr (sha256_hex c)))"

fun sized :: "workspace \<Rightarrow> string list \<Rightarrow> ws_exc + (string \<times> nat) list" where
  "sized ws [] = Inr []"
| "sized ws (p # ps) =
     (case stat_size ws p of
        Inl e \<Rightarrow> Inl e
      | Inr n \<Rightarrow> (case sized ws ps of Inl e \<Rightarrow> Inl e | Inr r \<Rightarrow> Inr ((p, n) # r)))"

fun manifest_of :: "workspace \<Rightarrow> (string \<times> nat) list \<Rightarrow> ws_exc + json list" where
  "manifest_of ws [] = Inr []"
| "manifest_of ws ((rel, sz) # fs) =
     (if rel \<in> {receipt_json, receipt_md} then manifest_of ws fs
      else
        (case file_digest ws rel of
           Inl e \<Rightarrow> Inl e
         | Inr d \<Rightarrow>
             (case manifest_of ws fs of
                Inl e \<Rightarrow> Inl e
              | Inr r \<Rightarrow>
                  Inr (JObj [(''path'', JStr rel), (''size'', JInt (int sz)), (''sha256'', JStr d)] # r))))"

definition file_manifest :: "workspace \<Rightarrow> string list option \<Rightarrow> ws_exc + json list" where
  "file_manifest ws include_paths =
     (case include_paths of
        None \<Rightarrow> manifest_of ws (list_files 500 ws)
      | Some ps \<Rightarrow> (case sized ws ps of Inl e \<Rightarrow> Inl e | Inr fs \<Rightarrow> manifest_of ws fs))"

section \<open>The body\<close>

definition bool_opt :: "string option \<Rightarrow> json" where
  "bool_opt x = JBool (nonempty_opt x)"

definition dict_or_null :: "jdict option \<Rightarrow> json" where
  "dict_or_null d = (case d of None \<Rightarrow> JNull | Some d \<Rightarrow> JObj d)"

definition int_or_null :: "int option \<Rightarrow> json" where
  "int_or_null x = (case x of None \<Rightarrow> JNull | Some i \<Rightarrow> JInt i)"

definition strs_or_null :: "string list option \<Rightarrow> json" where
  "strs_or_null x = (case x of None \<Rightarrow> JNull | Some ss \<Rightarrow> json_strs ss)"

definition criteria_json :: "string list \<Rightarrow> json" where
  "criteria_json rb =
     JArr (map (\<lambda>(i, c). JObj [(''id'', JStr (criterion_id i)), (''text'', JStr c)])
       (zip [1..<length rb + 1] rb))"

definition covered_criteria :: "check_result list \<Rightarrow> string list" where
  "covered_criteria results = sorted_set (concat (map cr_criterion_ids results))"

definition change_json :: "file_change \<Rightarrow> json" where
  "change_json fc =
     JObj [(''path'', JStr (fc_path fc)), (''previous_path'', str_or_null (fc_previous_path fc)),
       (''status'', JStr (fc_status fc)), (''additions'', int_or_null (fc_additions fc)),
       (''deletions'', int_or_null (fc_deletions fc))]"

definition change_set_json :: "string \<Rightarrow> snapshot \<Rightarrow> json" where
  "change_set_json base sn =
     JObj [(''schema'', JStr ''loop.changeset/v1''), (''base_commit'', JStr base),
       (''patch_sha256'', JStr (sn_patch_sha256 sn)), (''files'', JArr (map change_json (sn_files sn)))]"

definition is_project :: "task \<Rightarrow> bool" where
  "is_project t = nonempty_opt (project_base_commit t)"

text \<open>\<^verbatim>\<open>workspace.resolve(path).is_file()\<close> raises when the path is refused.\<close>

fun manifest_paths :: "workspace \<Rightarrow> file_change list \<Rightarrow> ws_exc + string list" where
  "manifest_paths ws [] = Inr []"
| "manifest_paths ws (fc # fcs) =
     (if take 1 (fc_status fc) = ''D'' then manifest_paths ws fcs
      else
        (case ws_resolve ws (fc_path fc) of
           Inl e \<Rightarrow> Inl e
         | Inr p \<Rightarrow>
             (case manifest_paths ws fcs of
                Inl e \<Rightarrow> Inl e
              | Inr r \<Rightarrow> Inr (if ws_is_file ws p then fc_path fc # r else r))))"

definition isolation_of :: "task \<Rightarrow> string" where
  "isolation_of t = (if nonempty_opt (sandbox t) then the (sandbox t) else ''inline'')"

definition contract_json :: "task \<Rightarrow> json" where
  "contract_json t =
     JObj [(''criteria_source'', JStr (criteria_source t)),
       (''verification_mode'', JStr (verification_mode t)),
       (''required_checks'', JArr (map JObj (required_checks t))),
       (''status'', JStr (contract_status t)), (''hash'', str_or_null (contract_hash t)),
       (''draft'', dict_or_null (contract_draft t))]"

definition checks_passed_json :: "task \<Rightarrow> check_result list \<Rightarrow> json" where
  "checks_passed_json t results =
     (if results \<noteq> [] then JBool (completion_gates_pass results)
      else if required_checks t \<noteq> [] then JBool False else JNull)"

definition coverage_json :: "task \<Rightarrow> check_result list \<Rightarrow> string \<Rightarrow> json" where
  "coverage_json t results verified =
     JObj [(''rubric_criteria'', JInt (int (length (rubric t)))),
       (''checks'', JInt (int (length results))),
       (''execution_backed'', JBool (verified = ''execution'')),
       (''covered_criteria'', json_strs (covered_criteria results))]"

definition enforcement_json :: "settings \<Rightarrow> json" where
  "enforcement_json c =
     JObj [(''provider_gateway'', JBool (nonempty_opt (agent_provider_gateway_url c) \<or>
             nonempty_opt (agent_email_gateway_url c) \<or> nonempty_opt (agent_calendar_gateway_url c) \<or>
             nonempty_opt (agent_vision_gateway_url c))),
       (''browser_gateway'', bool_opt (agent_browser_gateway_url c)),
       (''email_gateway'', bool_opt (agent_email_gateway_url c)),
       (''calendar_gateway'', bool_opt (agent_calendar_gateway_url c)),
       (''vision_gateway'', bool_opt (agent_vision_gateway_url c)),
       (''egress_proxy'', bool_opt (agent_egress_proxy_url c))]"

definition authority_json :: "settings \<Rightarrow> task \<Rightarrow> json" where
  "authority_json c t =
     JObj [(''schema'', JStr (authority_schema t)),
       (''requested'', strs_or_null (requested_capabilities t)),
       (''resolved'', json_strs (resolved_capabilities t)),
       (''egress_hosts'', json_strs (case task_egress_hosts t of None \<Rightarrow> [] | Some hs \<Rightarrow> hs)),
       (''audit'', JArr (map JObj (authority_audit t))), (''enforcement'', enforcement_json c)]"

definition provenance_json :: "settings \<Rightarrow> run_info \<Rightarrow> task \<Rightarrow> json" where
  "provenance_json c ri t =
     JObj [(''producer'', JObj [(''name'', JStr ''loop-agent''), (''version'', JStr (version c))]),
       (''revision'', JStr (loop_revision c)),
       (''runtime'', JObj [(''python'', JStr (ri_python ri)),
          (''implementation'', JStr (ri_implementation ri)), (''platform'', JStr (ri_platform ri))]),
       (''model'', if executor_models t = [] then JNull else JObj (last (executor_models t))),
       (''executor_models'', JArr (map JObj (executor_models t))),
       (''verifier'', dict_or_null (verifier_model t)),
       (''sandbox'', JObj [(''mode'', JStr (isolation_of t)),
          (''image'', if sandbox t \<in> {Some ''container'', Some ''kubernetes''}
             then JStr (agent_sandbox_image c) else JNull),
          (''image_digest'', str_or_null (agent_sandbox_image_digest c))])]"

definition revision_json :: "task \<Rightarrow> jdict" where
  "revision_json t =
     (case (product_session_id t, product_revision t, product_specification t) of
        (Some sid, Some rv, Some spec) \<Rightarrow>
          if rv = 0 then []
          else [(''product_revision'', JObj [(''session_id'', JStr sid), (''revision'', JInt rv),
            (''previous_task_id'', str_or_null (previous_revision_id t)),
            (''feedback_kind'', str_or_null (feedback_kind t)),
            (''feedback_delta'', str_or_null (feedback_delta t)),
            (''specification'', JObj spec),
            (''specification_hash'', str_or_null (specification_hash_of t))])]
      | _ \<Rightarrow> [])"

definition receipt_body ::
  "settings \<Rightarrow> run_info \<Rightarrow> task \<Rightarrow> check_result list \<Rightarrow> int \<Rightarrow> string \<Rightarrow> string \<Rightarrow> json list \<Rightarrow>
     json option \<Rightarrow> jdict" where
  "receipt_body c ri t results score verified head files change_set =
     [(''schema'', JStr receipt_schema_name), (''issued_at'', JStr (ri_now ri)),
      (''task_id'', JStr (task_id t)), (''attempt'', JInt (attempt t)), (''goal'', JStr (goal t)),
      (''summary'', str_or_null (run_summary t)), (''rubric'', json_strs (rubric t)),
      (''criteria'', criteria_json (rubric t)), (''contract'', contract_json t),
      (''verified_by'', JStr verified), (''isolation'', JStr (isolation_of t)),
      (''score'', JInt score), (''checks'', JArr (map (\<lambda>r. JObj (as_dict r)) results)),
      (''baseline_checks'', JArr (map JObj (baseline_checks t))),
      (''checks_passed'', checks_passed_json t results),
      (''coverage'', coverage_json t results verified),
      (''steps_used'', JInt (steps_used t)), (''tokens_used'', JInt (tokens_used t)),
      (''ledger_head'', JStr head), (''files'', JArr files),
      (''authority'', authority_json c t), (''provenance'', provenance_json c ri t)] @
     (case change_set of None \<Rightarrow> [] | Some cs \<Rightarrow> [(''change_set'', cs)]) @
     revision_json t"

section \<open>The rendered receipt\<close>

definition md_get :: "jdict \<Rightarrow> string \<Rightarrow> string" where
  "md_get d k = py_str (dget d k)"

fun dict_in :: "json \<Rightarrow> jdict" where
  "dict_in (JObj d) = d"
| "dict_in _ = []"

fun list_in :: "json \<Rightarrow> json list" where
  "list_in (JArr xs) = xs"
| "list_in _ = []"

definition verified_note :: "string \<Rightarrow> string" where
  "verified_note v =
     (if v = ''judgment'' then '' '' @ em_dash @ '' _not re-executed; graded by judgment_''
      else if v = ''unverified''
      then '' '' @ em_dash @ '' _not verified; the task stopped before an accepted result_''
      else [])"

definition coverage_line :: "jdict \<Rightarrow> string" where
  "coverage_line cov =
     ''- **Coverage:** '' @ py_str (dget_or cov ''checks'' (JInt 0)) @ '' machine check(s) for '' @
     py_str (dget_or cov ''rubric_criteria'' (JInt 0)) @ '' criteria '' @ em_dash @ '' '' @
     (if truthy (dget cov ''execution_backed'') then ''execution-backed'' else ''judgment'')"

definition header_lines :: "jdict \<Rightarrow> string list" where
  "header_lines r =
     [''# Task Receipt'', [],
      ''- **Schema:** `'' @ py_str (dget_or r ''schema'' (JStr ''legacy'')) @ ''`'',
      ''- **Verified by:** '' @ md_get r ''verified_by'' @ verified_note (md_get r ''verified_by''),
      ''- **Isolation:** '' @ py_str (dget_or r ''isolation'' (JStr ''inline'')) @
        (if dget r ''isolation'' = JStr ''container''
         then '' '' @ em_dash @ '' _commands jailed in an ephemeral container_'' else []),
      ''- **Score:** '' @ md_get r ''score'' @ ''/100'',
      coverage_line (dict_in (dget r ''coverage'')),
      ''- **Steps:** '' @ md_get r ''steps_used'' @ '' '' @ [CHR 0xC2, CHR 0xB7] @ '' **Tokens:** '' @
        md_get r ''tokens_used'',
      ''- **Ledger head:** `'' @ md_get r ''ledger_head'' @ ''`'',
      ''- **Authority:** '' @ or_default
        (py_join '', '' (map py_str (list_in (dget (dict_in (dget r ''authority'')) ''resolved'')))) ''none'',
      ''- **Receipt hash:** `'' @ md_get r ''receipt_hash'' @ ''`'' @
        (if truthy (dget r ''signature'') then '' '' @ em_dash @ '' _ed25519-signed_''
         else '' '' @ em_dash @ '' _unsigned (tamper-evident, not tamper-proof)_''),
      [], ''## Goal'', md_get r ''goal'', []]"

definition check_line :: "jdict \<Rightarrow> string" where
  "check_line c =
     ''- ['' @ (if truthy (dget c ''passed'') then ''PASS'' else ''FAIL'') @ ''] `'' @
     py_str (dget_or c ''source'' (JStr ''agent'')) @ '':'' @ md_get c ''kind'' @ ''` '' @
     md_get c ''target'' @ '' '' @ em_dash @ '' '' @ md_get c ''evidence'' @
     (if dget c ''baseline_passed'' = JBool True then '' '' @ em_dash @ '' baseline PASS''
      else if dget c ''baseline_passed'' = JBool False
      then '' '' @ em_dash @ '' baseline FAIL (pre-existing)'' else [])"

definition file_line :: "jdict \<Rightarrow> string" where
  "file_line f =
     ''- `'' @ md_get f ''path'' @ ''` ('' @ md_get f ''size'' @ '' b) sha256 `'' @
     take 16 (md_get f ''sha256'') @ ellipsis @ ''`''"

definition render_markdown :: "jdict \<Rightarrow> string" where
  "render_markdown r =
     (let rb = list_in (dget r ''rubric'');
          cs = list_in (dget r ''checks'');
          fs = list_in (dget r ''files'')
      in py_join nl
        (header_lines r @
         (if rb = [] then [] else ''## Success criteria'' # map (\<lambda>c. ''- '' @ py_str c) rb @ [[]]) @
         (if cs = [] then []
          else ''## Checks (re-run on a fresh copy of the workspace)'' #
            map (\<lambda>c. check_line (dict_in c)) cs @ [[]]) @
         (if fs = [] then [] else ''## Output files'' # map (\<lambda>f. file_line (dict_in f)) fs @ [[]])))"

section \<open>Building\<close>

text \<open>The body is hashed, the hash goes first, the signature last.\<close>

definition seal_receipt :: "('k, 'p) crypto \<Rightarrow> 'k option \<Rightarrow> jdict \<Rightarrow> string \<times> jdict" where
  "seal_receipt cr signer body0 =
     (let body = (case signer of None \<Rightarrow> body0
                  | Some k \<Rightarrow> dset ''signature_key_id'' (JStr (signing_key_id cr k)) body0);
          h = canonical_hash body;
          receipt = (''receipt_hash'', JStr h) # body
      in (h, case signer of None \<Rightarrow> receipt
             | Some k \<Rightarrow> dset ''signature'' (JStr (to_hex (sign_with cr k h))) receipt))"

definition write_receipt :: "jdict \<Rightarrow> workspace \<Rightarrow> (ws_exc + unit) \<times> workspace" where
  "write_receipt receipt ws =
     (case ws_write ws receipt_json (pretty 0 (JObj receipt)) of
        (Inl e, ws1) \<Rightarrow> (Inl e, ws1)
      | (Inr m, ws1) \<Rightarrow>
          (case ws_write ws1 receipt_md (render_markdown receipt) of
             (Inl e, ws2) \<Rightarrow> (Inl e, ws2) | (Inr m, ws2) \<Rightarrow> (Inr (), ws2)))"

definition build_receipt ::
  "('k, 'p) crypto \<Rightarrow> 'k option \<Rightarrow> settings \<Rightarrow> run_info \<Rightarrow> snapshot option \<Rightarrow> task \<Rightarrow>
     check_result list \<Rightarrow> int \<Rightarrow> string \<Rightarrow> string \<Rightarrow> workspace \<Rightarrow>
     (ws_exc + string \<times> jdict) \<times> workspace" where
  "build_receipt cr signer c ri sn t results score verified head ws =
     (let paths = (case sn of None \<Rightarrow> Inr None
            | Some s \<Rightarrow> (case manifest_paths ws (sn_files s) of Inl e \<Rightarrow> Inl e | Inr ps \<Rightarrow> Inr (Some ps)));
          change_set = map_option (\<lambda>s. change_set_json (the (project_base_commit t)) s) sn
      in case paths of
           Inl e \<Rightarrow> (Inl e, ws)
         | Inr ps \<Rightarrow>
             (case file_manifest ws ps of
                Inl e \<Rightarrow> (Inl e, ws)
              | Inr files \<Rightarrow>
                  (let sealed = seal_receipt cr signer
                         (receipt_body c ri t results score verified head files change_set)
                   in case write_receipt (snd sealed) ws of
                        (Inl e, ws') \<Rightarrow> (Inl e, ws') | (Inr u, ws') \<Rightarrow> (Inr sealed, ws'))))"

text \<open>\<^verbatim>\<open>refresh_receipt_authority\<close> reads the file back with the default limit of \<open>read\<close>.\<close>

definition refresh_sealed :: "('k, 'p) crypto \<Rightarrow> 'k option \<Rightarrow> jdict list \<Rightarrow> jdict \<Rightarrow> string \<times> jdict" where
  "refresh_sealed cr signer audit receipt =
     (let auth = dset ''audit'' (JArr (map JObj audit)) (dict_in (dget receipt ''authority''));
          r1 = dset ''authority'' (JObj auth) receipt;
          r2 = (case signer of None \<Rightarrow> dpop ''signature_key_id'' r1
                | Some k \<Rightarrow> dset ''signature_key_id'' (JStr (signing_key_id cr k)) r1);
          h = canonical_hash (body_of r2);
          r3 = dset ''receipt_hash'' (JStr h) r2
      in (h, case signer of None \<Rightarrow> dpop ''signature'' r3
             | Some k \<Rightarrow> dset ''signature'' (JStr (to_hex (sign_with cr k h))) r3))"

definition refresh_receipt_authority ::
  "('k, 'p) crypto \<Rightarrow> 'k option \<Rightarrow> jdict list \<Rightarrow> workspace \<Rightarrow> (ws_exc + pyexc + string) \<times> workspace" where
  "refresh_receipt_authority cr signer audit ws =
     (case ws_read ws receipt_json 6000 of
        Inl e \<Rightarrow> (Inl e, ws)
      | Inr s \<Rightarrow>
          (case json_loads s of
             Some (JObj receipt) \<Rightarrow>
               (if \<not> is_dict (dget receipt ''authority'') then (Inr (Inl ValueError), ws)
                else
                  (let sealed = refresh_sealed cr signer audit receipt
                   in case write_receipt (snd sealed) ws of
                        (Inl e, ws') \<Rightarrow> (Inl e, ws') | (Inr u, ws') \<Rightarrow> (Inr (Inr (fst sealed)), ws')))
           | _ \<Rightarrow> (Inr (Inl ValueError), ws)))"

section \<open>Verification\<close>

definition verify_receipt :: "jdict \<Rightarrow> bool \<times> string" where
  "verify_receipt receipt =
     (let recomputed = canonical_hash (body_of receipt)
      in (JStr recomputed = dget receipt ''receipt_hash'', recomputed))"

datatype signature_state = Unsigned | Valid | Invalid | Unverifiable

definition check_signature ::
  "('k, 'p) crypto \<Rightarrow> 'p option \<Rightarrow> string option \<Rightarrow> jdict \<Rightarrow> signature_state" where
  "check_signature cr server_key public_key_pem receipt =
     (let s = dget receipt ''signature''
      in if \<not> truthy s then Unsigned
         else
           (case s of
              JStr hex \<Rightarrow>
                (let vk = (if nonempty_opt public_key_pem then load_public cr (the public_key_pem)
                           else server_key)
                 in case vk of
                      None \<Rightarrow> Unverifiable
                    | Some k \<Rightarrow>
                        (case from_hex hex of
                           None \<Rightarrow> Invalid
                         | Some bytes \<Rightarrow>
                             if verify_with cr k bytes
                                  (py_str (dget_or receipt ''receipt_hash'' (JStr [])))
                             then Valid else Invalid))
            | _ \<Rightarrow> Invalid))"

definition file_mismatch :: "workspace \<Rightarrow> json \<Rightarrow> (string \<times> string) option" where
  "file_mismatch ws f =
     (case f of
        JObj d \<Rightarrow>
          (case dget d ''path'' of
             JStr path \<Rightarrow>
               (case file_digest ws path of
                  Inl e \<Rightarrow> Some (path, ''missing'')
                | Inr actual \<Rightarrow>
                    if JStr actual \<noteq> dget d ''sha256'' then Some (path, ''modified'') else None)
           | p \<Rightarrow> Some (py_str p, ''malformed''))
      | _ \<Rightarrow> Some (py_str f, ''malformed''))"

definition file_mismatches :: "workspace \<Rightarrow> jdict \<Rightarrow> (string \<times> string) list" where
  "file_mismatches ws receipt =
     List.map_filter (file_mismatch ws) (list_in (dget receipt ''files''))"

record receipt_report =
  rr_hash_ok :: bool
  rr_recomputed_hash :: string
  rr_signature :: signature_state
  rr_anchor_ok :: "bool option"
  rr_files_ok :: "bool option"
  rr_mismatches :: "(string \<times> string) list"
  rr_valid :: bool
  rr_authentic :: bool
  rr_assurance :: string

definition verify_receipt_full ::
  "('k, 'p) crypto \<Rightarrow> 'p option \<Rightarrow> jdict \<Rightarrow> workspace option \<Rightarrow> string option \<Rightarrow> string option \<Rightarrow>
     receipt_report" where
  "verify_receipt_full cr server_key receipt ws db_anchor public_key_pem =
     (let v = verify_receipt receipt;
          sig = check_signature cr server_key public_key_pem receipt;
          anchor_ok = map_option (\<lambda>a. JStr a = dget receipt ''receipt_hash'') db_anchor;
          mismatches = (case ws of None \<Rightarrow> [] | Some w \<Rightarrow> file_mismatches w receipt);
          files_ok = map_option (\<lambda>w. mismatches = []) ws;
          valid = (fst v \<and> sig \<noteq> Invalid \<and> anchor_ok \<noteq> Some False \<and> files_ok \<noteq> Some False);
          authentic = (valid \<and> sig = Valid)
      in \<lparr>rr_hash_ok = fst v, rr_recomputed_hash = snd v, rr_signature = sig,
          rr_anchor_ok = anchor_ok, rr_files_ok = files_ok, rr_mismatches = mismatches,
          rr_valid = valid, rr_authentic = authentic,
          rr_assurance = (if authentic then ''authentic'' else if valid then ''integrity'' else ''invalid'')\<rparr>)"

section \<open>Facts\<close>

declare state_value.simps [simp del]

lemma body_of_Cons [simp]:
  "body_of ((k, v) # d) = (if k \<in> set non_body_keys then body_of d else (k, v) # body_of d)"
  by (simp add: body_of_def)

lemma body_of_dset_out: "k \<in> set non_body_keys \<Longrightarrow> body_of (dset k v d) = body_of d"
  by (induction d) (auto simp: dset_def body_of_def)

definition plain_body :: "jdict \<Rightarrow> bool" where
  "plain_body d = (\<forall>k \<in> fst ` set d. k \<notin> set non_body_keys)"

lemma body_of_plain: "plain_body d \<Longrightarrow> body_of d = d"
  by (force simp: plain_body_def body_of_def filter_id_conv)

lemma plain_body_dset: "plain_body d \<Longrightarrow> k \<notin> set non_body_keys \<Longrightarrow> plain_body (dset k v d)"
  by (auto simp: plain_body_def dset_def dom_update)

lemma plain_receipt_body: "plain_body (receipt_body c ri t results score verified head files cs)"
  by (auto simp: plain_body_def receipt_body_def non_body_keys_def revision_json_def
      split: option.splits)

lemma dget_files: "dget (receipt_body c ri t results score verified head files cs) ''files'' = JArr files"
  by (simp add: receipt_body_def dget_def)

text \<open>A sealed receipt carries the hash of its body, and the body's other entries.\<close>

definition sealed_body :: "('k, 'p) crypto \<Rightarrow> 'k option \<Rightarrow> jdict \<Rightarrow> jdict" where
  "sealed_body cr signer body =
     (case signer of None \<Rightarrow> body
      | Some k \<Rightarrow> dset ''signature_key_id'' (JStr (signing_key_id cr k)) body)"

lemma seal_receipt_parts:
  assumes "plain_body body" "seal_receipt cr signer body = (h, r)"
  shows "h = canonical_hash (sealed_body cr signer body)"
    "body_of r = sealed_body cr signer body"
    "dget r ''receipt_hash'' = JStr h"
    "dget r ''signature'' =
       (case signer of None \<Rightarrow> JNull | Some k \<Rightarrow> JStr (to_hex (sign_with cr k h)))"
    "dget r ''files'' = dget body ''files''"
proof -
  have p: "plain_body (sealed_body cr signer body)"
    using assms(1)
    by (auto simp: sealed_body_def non_body_keys_def intro: plain_body_dset split: option.split)
  then have sig: "dget (sealed_body cr signer body) ''signature'' = JNull"
    by (auto simp: plain_body_def non_body_keys_def dget_def split: option.split dest!: map_of_SomeD)
  show h: "h = canonical_hash (sealed_body cr signer body)"
    using assms(2) by (cases signer) (auto simp: seal_receipt_def sealed_body_def Let_def)
  have r: "r = (case signer of None \<Rightarrow> (''receipt_hash'', JStr h) # sealed_body cr signer body
      | Some k \<Rightarrow> dset ''signature'' (JStr (to_hex (sign_with cr k h)))
          ((''receipt_hash'', JStr h) # sealed_body cr signer body))"
    using assms(2) by (cases signer) (auto simp: seal_receipt_def sealed_body_def Let_def)
  show "body_of r = sealed_body cr signer body"
    using p unfolding r by (cases signer) (simp_all add: body_of_dset_out body_of_plain non_body_keys_def)
  show "dget r ''receipt_hash'' = JStr h"
    unfolding r by (cases signer) (simp_all, simp_all add: dget_def)
  show "dget r ''signature'' =
      (case signer of None \<Rightarrow> JNull | Some k \<Rightarrow> JStr (to_hex (sign_with cr k h)))"
    using sig unfolding r by (cases signer) (simp_all, simp_all add: dget_def)
  show "dget r ''files'' = dget body ''files''"
    unfolding r by (cases signer) (simp_all add: sealed_body_def,
      simp_all add: dget_def dset_def update_conv')
qed

lemma hex_digit_hex_char: "d < 16 \<Longrightarrow> hex_digit (hex_char d) = Some d"
  by (simp add: hex_digit_def hex_char_def Let_def)

lemma hex_char_not_space: "d < 16 \<Longrightarrow> \<not> py_isspace (hex_char d)"
  by (simp add: hex_char_def py_isspace_def Let_def)

lemma from_hex_to_hex [simp]: "from_hex (to_hex s) = Some s"
proof (induction s)
  case (Cons c s)
  have "ord_of c < 256" by simp
  then have "16 * (ord_of c div 16 mod 16) + ord_of c mod 16 = ord_of c"
    using nibbles [of "ord_of c"] by (simp add: mult.commute)
  then show ?case
    using Cons by (simp add: to_hex_def hex2_def hex_digit_hex_char hex_char_not_space)
qed (simp add: to_hex_def)

lemma file_digest_files:
  "ws_root ws' = ws_root ws \<Longrightarrow> ws_real ws' = ws_real ws \<Longrightarrow>
   (\<And>p. ws_resolve ws rel = Inr p \<Longrightarrow> map_of (ws_files ws') p = map_of (ws_files ws) p) \<Longrightarrow>
   file_digest ws' rel = file_digest ws rel"
  by (auto simp: file_digest_def ws_resolve_def Let_def split: sum.splits)

lemma manifest_of_entries:
  "manifest_of ws fs = Inr files \<Longrightarrow> f \<in> set files \<Longrightarrow>
     \<exists>rel sz d. f = JObj [(''path'', JStr rel), (''size'', JInt (int sz)), (''sha256'', JStr d)] \<and>
       (rel, sz) \<in> set fs \<and> rel \<notin> {receipt_json, receipt_md} \<and> file_digest ws rel = Inr d"
proof (induction ws fs arbitrary: files rule: manifest_of.induct)
  case (2 ws rel sz fs)
  show ?case
  proof (cases "rel \<in> {receipt_json, receipt_md}")
    case True
    with 2 show ?thesis by fastforce
  next
    case False
    with "2.prems" obtain d r where "file_digest ws rel = Inr d" "manifest_of ws fs = Inr r"
      "files = JObj [(''path'', JStr rel), (''size'', JInt (int sz)), (''sha256'', JStr d)] # r"
      by (auto split: sum.splits)
    with 2 False show ?thesis by (cases "f \<in> set r") fastforce+
  qed
qed simp

lemma file_manifest_entries:
  "file_manifest ws paths = Inr files \<Longrightarrow> f \<in> set files \<Longrightarrow>
     \<exists>rel sz d. f = JObj [(''path'', JStr rel), (''size'', JInt (int sz)), (''sha256'', JStr d)] \<and>
       rel \<notin> {receipt_json, receipt_md} \<and> file_digest ws rel = Inr d"
  unfolding file_manifest_def
  by (auto split: option.splits sum.splits dest!: manifest_of_entries)

lemma ws_write_ok:
  assumes "ws_write ws relative content = (Inr m, ws')"
  obtains target where "ws_resolve ws relative = Inr target"
    "map_of (ws_files ws') = (map_of (ws_files ws))(target \<mapsto> content)"
    "ws_root ws' = ws_root ws" "ws_real ws' = ws_real ws"
  using assms by (auto simp: ws_write_def fun_eq_iff split: if_splits sum.splits)

lemma ws_resolve_cong:
  "ws_root ws' = ws_root ws \<Longrightarrow> ws_real ws' = ws_real ws \<Longrightarrow> ws_resolve ws' rel = ws_resolve ws rel"
  by (simp add: ws_resolve_def)

text \<open>No file of the manifest is an alias (a symbolic link) of the two receipt files.\<close>

definition unaliased :: "workspace \<Rightarrow> string \<Rightarrow> bool" where
  "unaliased ws rel =
     (ws_resolve ws rel \<noteq> ws_resolve ws receipt_json \<and> ws_resolve ws rel \<noteq> ws_resolve ws receipt_md)"

lemma write_receipt_keeps:
  assumes "write_receipt receipt ws = (Inr u, ws')" "unaliased ws rel"
  shows "file_digest ws' rel = file_digest ws rel"
proof -
  from assms(1) obtain m1 m2 ws1 where
    w1: "ws_write ws receipt_json (pretty 0 (JObj receipt)) = (Inr m1, ws1)" and
    w2: "ws_write ws1 receipt_md (render_markdown receipt) = (Inr m2, ws')"
    by (auto simp: write_receipt_def split: prod.splits sum.splits)
  from ws_write_ok [OF w1] obtain t1 where t1: "ws_resolve ws receipt_json = Inr t1"
    "map_of (ws_files ws1) = (map_of (ws_files ws))(t1 \<mapsto> pretty 0 (JObj receipt))"
    "ws_root ws1 = ws_root ws" "ws_real ws1 = ws_real ws" .
  from ws_write_ok [OF w2] obtain t2 where t2: "ws_resolve ws1 receipt_md = Inr t2"
    "map_of (ws_files ws') = (map_of (ws_files ws1))(t2 \<mapsto> render_markdown receipt)"
    "ws_root ws' = ws_root ws1" "ws_real ws' = ws_real ws1" .
  show ?thesis
    using t1 t2 assms(2) ws_resolve_cong [OF t1(3,4)]
    by (intro file_digest_files) (auto simp: unaliased_def)
qed

lemma build_receipt_parts:
  assumes "build_receipt cr signer c ri sn t results score verified head ws = (Inr (h, r), ws')"
  obtains paths files cs where "file_manifest ws paths = Inr files"
    "seal_receipt cr signer (receipt_body c ri t results score verified head files cs) = (h, r)"
    "write_receipt r ws = (Inr (), ws')"
  using assms by (auto simp: build_receipt_def Let_def split: sum.splits prod.splits)

definition ed25519_ok :: "('k, 'p) crypto \<Rightarrow> bool" where
  "ed25519_ok cr =
     (\<forall>k m. length (sign_with cr k m) = 64 \<and> verify_with cr (public_of cr k) (sign_with cr k m) m)"

lemma to_hex_eq_Nil [simp]: "to_hex s = [] \<longleftrightarrow> s = []"
  by (cases s) (auto simp: to_hex_def hex2_def)

lemma dget_or_dget: "dget d k = v \<Longrightarrow> v \<noteq> JNull \<Longrightarrow> dget_or d k x = v"
  by (auto simp: dget_def dget_or_def split: option.splits)

text \<open>
  C32. A receipt verifies where it was built: against the workspace it was written into and the
  hash that goes to the database, every layer passes, and the receipt is authentic exactly
  when the server signs.
\<close>

theorem built_receipt_verifies:
  assumes "build_receipt cr signer c ri sn t results score verified head ws = (Inr (h, r), ws')"
    and "ed25519_ok cr"
    and "\<forall>rel d. file_digest ws rel = Inr d \<and> rel \<notin> {receipt_json, receipt_md} \<longrightarrow> unaliased ws rel"
  shows "let rep = verify_receipt_full cr (map_option (public_of cr) signer) r (Some ws') (Some h) None
    in rr_valid rep \<and> rr_hash_ok rep \<and> rr_recomputed_hash rep = h \<and> rr_mismatches rep = [] \<and>
       rr_signature rep = (if signer = None then Unsigned else Valid) \<and>
       (rr_authentic rep \<longleftrightarrow> signer \<noteq> None)"
proof -
  from build_receipt_parts [OF assms(1)] obtain paths files cs where
    files: "file_manifest ws paths = Inr files" and
    sealed: "seal_receipt cr signer (receipt_body c ri t results score verified head files cs) = (h, r)" and
    written: "write_receipt r ws = (Inr (), ws')" .
  note parts = seal_receipt_parts [OF plain_receipt_body sealed]
  have "file_mismatch ws' f = None" if f: "f \<in> set files" for f
    using file_manifest_entries [OF files f] assms(3) write_receipt_keeps [OF written]
    by (auto simp: file_mismatch_def dget_def)
  then have m: "file_mismatches ws' r = []"
    by (simp add: file_mismatches_def parts(5) dget_files map_filter_def filter_empty_conv)
  have v: "verify_receipt r = (True, h)"
    using parts(1,2,3) by (simp add: verify_receipt_def)
  have s: "check_signature cr (map_option (public_of cr) signer) None r =
      (if signer = None then Unsigned else Valid)"
  proof (cases signer)
    case None
    then show ?thesis using parts(4) by (simp add: check_signature_def)
  next
    case (Some k)
    have "length (sign_with cr k h) = 64" "verify_with cr (public_of cr k) (sign_with cr k h) h"
      using assms(2) by (auto simp: ed25519_ok_def)
    moreover from this have "sign_with cr k h \<noteq> []" by auto
    ultimately show ?thesis
      using Some parts(4) dget_or_dget [OF parts(3)]
      by (simp add: check_signature_def nonempty_opt_def py_str_def)
  qed
  show ?thesis by (auto simp: verify_receipt_full_def Let_def m v s parts(3))
qed

definition demo_crypto :: "(unit, unit) crypto" where
  "demo_crypto = \<lparr>load_private = (\<lambda>_. Some ()), load_public = (\<lambda>_. Some ()), public_of = (\<lambda>_. ()),
     public_raw = (\<lambda>_. []), sign_with = (\<lambda>_ _. replicate 64 (CHR ''s'')),
     verify_with = (\<lambda>_ _ _. True)\<rparr>"

definition demo_info :: run_info where
  "demo_info = \<lparr>ri_now = ''2025-01-01'', ri_python = ''3.12'', ri_implementation = ''CPython'',
     ri_platform = ''linux''\<rparr>"

definition empty_ws :: workspace where
  "empty_ws = \<lparr>ws_root = ''/w'', ws_files = [], ws_dirs = [], ws_real = lexical_real\<rparr>"

text \<open>A bound on the length of the written text, computed on the shape of the value.\<close>

fun weight :: "nat \<Rightarrow> json \<Rightarrow> nat" where
  "weight l (JStr s) = 6 * length s + 2"
| "weight l (JArr xs) = 4 * l + 6 + sum_list (map (\<lambda>x. weight (l + 1) x + 2 * l + 4) xs)"
| "weight l (JObj d) =
     4 * l + 6 + sum_list (map (\<lambda>(k, v). 6 * length k + 4 + weight (l + 1) v + 2 * l + 4) d)"
| "weight l j = length (dumps j)"

lemma length_esc_char: "length (esc_char c) \<le> 6"
  by (simp add: esc_char_def hex4_def hex2_def)

lemma length_quoted: "length (quoted s) \<le> 6 * length s + 2"
proof -
  have "length (esc_str s) \<le> 6 * length s"
  proof (induction s)
    case (Cons c s)
    then show ?case using length_esc_char [of c] by (simp add: esc_str_def)
  qed (simp add: esc_str_def)
  then show ?thesis by (simp add: quoted_def)
qed

lemma length_py_join_le: "length (py_join sep xs) \<le> sum_list (map (\<lambda>x. length x + length sep) xs)"
  by (induction sep xs rule: py_join.induct) auto

lemma length_indent [simp]: "length (indent n) = 2 * n + 1"
  by (simp add: indent_def nl_def)

lemma length_py_join_map:
  "(\<And>x. x \<in> set xs \<Longrightarrow> length (f x) + length sep \<le> g x) \<Longrightarrow>
     length (py_join sep (map f xs)) \<le> sum_list (map g xs)"
  by (rule order_trans [OF length_py_join_le]) (auto simp: comp_def intro!: sum_list_mono)

lemma length_pretty: "length (pretty l j) \<le> weight l j"
proof (induction l j rule: pretty.induct)
  case (1 l xs)
  have "length (py_join (CHR '','' # indent (l + 1)) (map (pretty (l + 1)) xs)) \<le>
      sum_list (map (\<lambda>x. weight (l + 1) x + 2 * l + 4) xs)"
    using 1 by (intro length_py_join_map) (cases "xs = []"; fastforce)
  then show ?case by simp
next
  case (2 l d)
  let ?f = "\<lambda>(k, v). quoted k @ '': '' @ pretty (l + 1) v"
  have "length (?f m) + length (CHR '','' # indent (l + 1)) \<le>
      (case m of (k, v) \<Rightarrow> 6 * length k + 4 + weight (l + 1) v + 2 * l + 4)" if "m \<in> set d" for m
  proof -
    obtain k v where m: "m = (k, v)" by (cases m)
    have "length (pretty (l + 1) v) \<le> weight (l + 1) v" using 2 that m by fastforce
    then show ?thesis using length_quoted [of k] m by simp
  qed
  then have "length (py_join (CHR '','' # indent (l + 1)) (map ?f d)) \<le>
      sum_list (map (\<lambda>(k, v). 6 * length k + 4 + weight (l + 1) v + 2 * l + 4) d)"
    by (rule length_py_join_map)
  then show ?case by simp
qed (use length_quoted in simp_all)

lemma length_to_hex [simp]: "length (to_hex s) = 2 * length s"
  by (induction s) (simp_all add: to_hex_def hex2_def)

lemma demo_numerals: "show_int 80 = ''80''" "show_int 1 = ''1''" "show_int 0 = ''0''"
  by code_simp+

lemmas demo_receipt = receipt_body_def demo_numerals fresh_task_def demo_info_def default_settings_def
  receipt_schema_name_def str_or_null_def json_strs_def criteria_json_def contract_json_def
  isolation_of_def nonempty_opt_def checks_passed_json_def coverage_json_def covered_criteria_def
  authority_json_def strs_or_null_def enforcement_json_def bool_opt_def provenance_json_def
  dict_or_null_def revision_json_def sorted_set_def

theorem built_receipt_verifies_witness:
  "\<exists>h r ws'. build_receipt demo_crypto (Some ()) default_settings demo_info None (fresh_task ''t'') []
       80 ''judgment'' ''head'' empty_ws = (Inr (h, r), ws') \<and>
     rr_authentic (verify_receipt_full demo_crypto (Some ()) r (Some ws') (Some h) None)"
proof -
  let ?body = "receipt_body default_settings demo_info (fresh_task ''t'') [] 80 ''judgment'' ''head'' [] None"
  obtain h r where s: "seal_receipt demo_crypto (Some ()) ?body = (h, r)" by fastforce
  have h: "length h = 64"
    using seal_receipt_parts(1) [OF plain_receipt_body s] by (simp add: canonical_hash_def)
  have r: "r = dset ''signature'' (JStr (to_hex (replicate 64 (CHR ''s'')))) ((''receipt_hash'', JStr h) #
      dset ''signature_key_id'' (JStr (signing_key_id demo_crypto ())) ?body)"
    using s by (auto simp: seal_receipt_def Let_def demo_crypto_def)
  have k: "length (signing_key_id demo_crypto ()) = 32" by (simp add: signing_key_id_def)
  have "weight 0 (JObj r) \<le> 1000000"
    unfolding r by (simp add: demo_receipt dset_def h k)
  then have w1: "length (pretty 0 (JObj r)) \<le> max_file_bytes"
    using length_pretty [of 0 "JObj r"] by (simp add: max_file_bytes_def)
  have g: "dget r ''verified_by'' = JStr ''judgment''" "dget r ''isolation'' = JStr ''inline''"
    "dget r ''score'' = JInt 80" "dget r ''steps_used'' = JInt 0" "dget r ''tokens_used'' = JInt 0"
    "dget r ''ledger_head'' = JStr ''head''" "dget r ''receipt_hash'' = JStr h"
    "dget r ''goal'' = JStr []" "dget r ''rubric'' = JArr []" "dget r ''checks'' = JArr []"
    "dget r ''files'' = JArr []"
    "dget r ''authority'' = authority_json default_settings (fresh_task ''t'')"
    "dget r ''coverage'' = coverage_json (fresh_task ''t'') [] ''judgment''"
    unfolding r
    by (simp_all, simp_all add: dget_def dset_def update_conv' receipt_body_def
        isolation_of_def nonempty_opt_def fresh_task_def json_strs_def)
  have a: "dget (dict_in (dget r ''authority'')) ''resolved'' = JArr []"
    unfolding g by (simp add: authority_json_def dget_def fresh_task_def json_strs_def)
  have cl: "length (coverage_line (dict_in (dget r ''coverage''))) \<le> 200"
    unfolding g by (simp add: coverage_line_def coverage_json_def dget_def dget_or_def py_str_def
        demo_numerals fresh_task_def em_dash_def)
  have sc: "length (py_str (dget_or r ''schema'' (JStr ''legacy''))) \<le> 20"
    "length (py_str (dget_or r ''isolation'' (JStr ''inline''))) \<le> 20"
    unfolding r by (simp_all add: dget_or_def dset_def update_conv' receipt_body_def
        receipt_schema_name_def py_str_def isolation_of_def nonempty_opt_def fresh_task_def)
  have ps: "py_str (JStr x) = x" "py_str (JInt i) = show_int i" for x i by (simp_all add: py_str_def)
  have "length (render_markdown r) \<le> sum_list (map (\<lambda>x. length x + length nl) (header_lines r))"
    using length_py_join_le [of nl "header_lines r"] by (simp add: render_markdown_def g Let_def)
  also have "\<dots> \<le> 2000"
    using cl sc h a unfolding g
    by (simp add: header_lines_def md_get_def g verified_note_def ps demo_numerals
        em_dash_def nl_def or_default_def)
  finally have w2: "length (render_markdown r) \<le> max_file_bytes" by (simp add: max_file_bytes_def)
  have files: "file_manifest empty_ws None = Inr []"
    by (simp add: file_manifest_def list_files_def empty_ws_def)
  define ws1 where "ws1 = snd (ws_write empty_ws receipt_json (pretty 0 (JObj r)))"
  define ws2 where "ws2 = snd (ws_write ws1 receipt_md (render_markdown r))"
  have t: "ws_resolve empty_ws receipt_json = Inr ''/w/receipt.json''"
    "ws_resolve empty_ws receipt_md = Inr ''/w/RECEIPT.md''" by code_simp+
  have ps: "path_parents ''/w/receipt.json'' = [''/w'', ''/'']"
    "path_parents ''/w/RECEIPT.md'' = [''/w'', ''/'']" by code_simp+
  have e1: "\<exists>m. ws_write empty_ws receipt_json (pretty 0 (JObj r)) = (Inr m, ws1)"
    using w1 t(1) ps(1) by (simp add: ws1_def ws_write_def blocked_by_file_def ws_is_file_def
        ws_is_dir_def empty_ws_def)
  moreover have ws1: "ws1 = \<lparr>ws_root = ''/w'', ws_files = [(''/w/receipt.json'', pretty 0 (JObj r))],
      ws_dirs = [''/w'', ''/''], ws_real = lexical_real\<rparr>"
    using w1 t(1) ps(1) by (simp add: ws1_def ws_write_def blocked_by_file_def ws_is_file_def
        ws_is_dir_def empty_ws_def store_file_def make_parents_def)
  moreover have "\<exists>m. ws_write ws1 receipt_md (render_markdown r) = (Inr m, ws2)"
    using w2 t(2) ps(2) ws_resolve_cong [of ws1 empty_ws receipt_md]
    by (simp add: ws2_def ws_write_def blocked_by_file_def ws_is_file_def ws_is_dir_def ws1 empty_ws_def)
  ultimately have "write_receipt r empty_ws = (Inr (), ws2)"
    unfolding write_receipt_def by auto
  then have b: "build_receipt demo_crypto (Some ()) default_settings demo_info None (fresh_task ''t'') []
      80 ''judgment'' ''head'' empty_ws = (Inr (h, r), ws2)"
    by (simp add: build_receipt_def Let_def files s)
  have c: "ed25519_ok demo_crypto" by (simp add: ed25519_ok_def demo_crypto_def)
  have u: "\<forall>rel d. file_digest empty_ws rel = Inr d \<and> rel \<notin> {receipt_json, receipt_md} \<longrightarrow> unaliased empty_ws rel"
    by (auto simp: file_digest_def empty_ws_def split: sum.splits)
  show ?thesis
    using b built_receipt_verifies [OF b c u] by (auto simp: Let_def demo_crypto_def)
qed

text \<open>
  A receipt that passes every layer against the recorded hash states what was recorded:
  its body has the entries of the body that was sealed, up to the order of keys, unless the two
  bodies are a SHA-256 collision; and every file it lists has the digest it gives.
\<close>

theorem receipt_tamper_evident:
  assumes "seal_receipt cr signer body = (h, r0)" "plain_body body"
    and "rr_valid (verify_receipt_full cr key r (Some ws) (Some h) pem)"
    and "wf_json (JObj (body_of r))" "wf_json (JObj (body_of r0))"
    and "list_all (\<lambda>c. ord_of c < 127) (canonical (JObj (body_of r)) @ canonical (JObj (body_of r0)))"
  shows "(sort_keys (JObj (body_of r)) = sort_keys (JObj (body_of r0)) \<or>
      (canonical (JObj (body_of r)) \<noteq> canonical (JObj (body_of r0)) \<and>
       sha256_hex (canonical (JObj (body_of r))) = sha256_hex (canonical (JObj (body_of r0))))) \<and>
    (\<forall>f \<in> set (list_in (dget r ''files'')). \<exists>d path digest.
       f = JObj d \<and> dget d ''path'' = JStr path \<and> dget d ''sha256'' = JStr digest \<and>
       file_digest ws path = Inr digest)"
proof
  have v: "JStr (canonical_hash (body_of r)) = dget r ''receipt_hash''"
    "JStr h = dget r ''receipt_hash''" "file_mismatches ws r = []"
    using assms(3) by (auto simp: verify_receipt_full_def verify_receipt_def Let_def)
  have "canonical_hash (body_of r0) = h"
    using seal_receipt_parts(1,2) [OF assms(2,1)] by simp
  with v(1,2) have "canonical_hash (body_of r) = canonical_hash (body_of r0)"
    by (metis json.inject(4))
  then have "sha256_hex (canonical (JObj (body_of r))) = sha256_hex (canonical (JObj (body_of r0)))"
    using assms(6) by (simp add: canonical_hash_def canonical_ascii_def ascii_text_id)
  then show "sort_keys (JObj (body_of r)) = sort_keys (JObj (body_of r0)) \<or>
      (canonical (JObj (body_of r)) \<noteq> canonical (JObj (body_of r0)) \<and>
       sha256_hex (canonical (JObj (body_of r))) = sha256_hex (canonical (JObj (body_of r0))))"
    using canonical_inj [OF assms(4,5)] by blast
  show "\<forall>f \<in> set (list_in (dget r ''files'')). \<exists>d path digest.
       f = JObj d \<and> dget d ''path'' = JStr path \<and> dget d ''sha256'' = JStr digest \<and>
       file_digest ws path = Inr digest"
  proof
    fix f assume "f \<in> set (list_in (dget r ''files''))"
    then have "file_mismatch ws f = None"
      using v(3) by (cases "file_mismatch ws f")
        (auto simp: file_mismatches_def map_filter_def filter_empty_conv)
    then show "\<exists>d path digest. f = JObj d \<and> dget d ''path'' = JStr path \<and>
        dget d ''sha256'' = JStr digest \<and> file_digest ws path = Inr digest"
      by (auto simp: file_mismatch_def split: json.splits sum.splits if_splits)
  qed
qed

theorem receipt_tamper_evident_witness:
  "let r0 = snd (seal_receipt demo_crypto None [(''goal'', JStr ''g''), (''files'', JArr [])]);
       r = [(''files'', JArr []), (''goal'', JStr ''g''), (''receipt_hash'', dget r0 ''receipt_hash'')]
   in sort_keys (JObj (body_of r)) = sort_keys (JObj (body_of r0)) \<or>
      (canonical (JObj (body_of r)) \<noteq> canonical (JObj (body_of r0)) \<and>
       sha256_hex (canonical (JObj (body_of r))) = sha256_hex (canonical (JObj (body_of r0))))"
proof -
  let ?b = "[(''goal'', JStr ''g''), (''files'', JArr [])]"
  let ?c = "[(''files'', JArr []), (''goal'', JStr ''g'')]"
  let ?h = "canonical_hash ?b"
  let ?orig = "(''receipt_hash'', JStr ?h) # ?b"
  let ?r = "[(''files'', JArr []), (''goal'', JStr ''g''), (''receipt_hash'', JStr ?h)]"
  have s: "seal_receipt demo_crypto None ?b = (?h, ?orig)" by (simp add: seal_receipt_def Let_def)
  have p: "plain_body ?b" by (simp add: plain_body_def non_body_keys_def)
  have b: "body_of ?orig = ?b" "body_of ?r = ?c" by (simp_all add: body_of_def non_body_keys_def)
  have e: "canonical (JObj ?c) = canonical (JObj ?b)" by code_simp
  have v: "rr_valid (verify_receipt_full demo_crypto None ?r (Some empty_ws) (Some ?h) None)"
    using b(2) e by (simp add: verify_receipt_full_def verify_receipt_def Let_def check_signature_def
        file_mismatches_def map_filter_def dget_def canonical_hash_def canonical_ascii_def)
  have a: "list_all (\<lambda>c. ord_of c < 127) (canonical (JObj ?c) @ canonical (JObj ?b))" by code_simp
  have h: "dget ?orig ''receipt_hash'' = JStr ?h" by (simp add: dget_def)
  have w: "wf_json (JObj ?c)" "wf_json (JObj ?b)" by simp_all
  show ?thesis
    using conjunct1 [OF receipt_tamper_evident [OF s p v, unfolded b, OF w a]]
    unfolding s Let_def snd_conv h b .
qed

lemma limited_marked: "length s > limit \<Longrightarrow> \<exists>m. marked m (limited limit s)"
  by (auto simp: limited_def read_note_def nl_def marked_def)

text \<open>
  Refreshing the authority record of a receipt reads the file with the default limit of
  \<^verbatim>\<open>Workspace.read\<close>: whenever the stored text is longer than 6000 characters the read is cut
  and marked, it is no JSON, and the refresh raises \<^verbatim>\<open>ValueError\<close> without changing a file, so
  the receipt keeps the audit it had.
\<close>

theorem long_receipts_never_refresh:
  assumes "ws_resolve ws receipt_json = Inr p" "map_of (ws_files ws) p = Some s" "length s > 6000"
  shows "refresh_receipt_authority cr signer audit ws = (Inr (Inl ValueError), ws)"
proof -
  obtain m where "marked m (limited 6000 s)" using limited_marked assms(3) by blast
  then have "json_loads (limited 6000 s) = None" by (rule marked_not_json)
  then show ?thesis using assms(1,2) by (simp add: refresh_receipt_authority_def ws_read_def)
qed

definition long_ws :: workspace where
  "long_ws = \<lparr>ws_root = ''/w'', ws_files = [(''/w/receipt.json'', replicate 6001 (CHR ''x''))],
     ws_dirs = [], ws_real = lexical_real\<rparr>"

theorem long_receipts_never_refresh_witness:
  "refresh_receipt_authority demo_crypto None [] long_ws = (Inr (Inl ValueError), long_ws)"
proof (rule long_receipts_never_refresh)
  show "ws_resolve long_ws receipt_json = Inr ''/w/receipt.json''"
    by code_simp
  show "map_of (ws_files long_ws) ''/w/receipt.json'' = Some (replicate 6001 (CHR ''x''))"
    by (simp add: long_ws_def)
  show "length (replicate 6001 (CHR ''x'')) > 6000" unfolding length_replicate by simp
qed

end
