(* ===== verification/Product_Session.thy ===== *)
theory Product_Session
  imports Task_Model Completion
begin

text \<open>
  \<^verbatim>\<open>services/product_session.py\<close>: the canonical specification of a product delivery, how a
  revision extends it and the instruction and criteria a revision task is given.
\<close>

definition specification_schema :: string where
  "specification_schema = ''loop.product-specification/v1''"

datatype feedback = ImplementationFix | ProductDecision

fun feedback_value :: "feedback \<Rightarrow> string" where
  "feedback_value ImplementationFix = ''implementation_fix''"
| "feedback_value ProductDecision = ''product_decision''"

definition initial_specification :: "string \<Rightarrow> string list \<Rightarrow> jdict" where
  "initial_specification g criteria =
     [(''schema'', JStr specification_schema), (''original_goal'', JStr (py_strip g)),
      (''required_acceptance_criteria'', json_strs criteria), (''feedback_history'', JArr []),
      (''previous_contract_hash'', JNull), (''previous_receipt_hash'', JNull)]"

definition prior_specification :: "task \<Rightarrow> jdict" where
  "prior_specification t = (case product_specification t of None \<Rightarrow> [] | Some d \<Rightarrow> d)"

definition prior_goal :: "task \<Rightarrow> string" where
  "prior_goal t =
     py_strip (py_str (or_json (dget (prior_specification t) ''original_goal'') (JStr (goal t))))"

text \<open>\<^verbatim>\<open>previous.product_revision or 1\<close>.\<close>

definition revision_number :: "task \<Rightarrow> int" where
  "revision_number t = (case product_revision t of None \<Rightarrow> 1 | Some n \<Rightarrow> if n = 0 then 1 else n)"

definition feedback_delta_of :: "task \<Rightarrow> string \<Rightarrow> feedback \<Rightarrow> json" where
  "feedback_delta_of t fb kind =
     JObj [(''revision'', JInt (revision_number t + 1)), (''kind'', JStr (feedback_value kind)),
       (''feedback'', JStr (py_strip fb)), (''previous_task_id'', JStr (task_id t))]"

definition contract_text :: "task \<Rightarrow> string" where
  "contract_text t = (case contract_hash t of None \<Rightarrow> ''None'' | Some h \<Rightarrow> h)"

fun required_for :: "task \<Rightarrow> string \<Rightarrow> feedback \<Rightarrow> string list" where
  "required_for t fb ProductDecision = [''Product decision: '' @ py_strip fb]"
| "required_for t fb ImplementationFix =
     [''The previous verified acceptance contract remains satisfied without regression (contract '' @
        contract_text t @ '').'',
      ''Regression requirement: '' @ py_strip fb]"

definition revised_specification :: "task \<Rightarrow> string \<Rightarrow> feedback \<Rightarrow> jdict result" where
  "revised_specification t fb kind =
     (case iter_json (dget_or (prior_specification t) ''feedback_history'' (JArr [])) of
        Inl e \<Rightarrow> Inl e
      | Inr items \<Rightarrow>
          Inr [(''schema'', JStr specification_schema), (''original_goal'', JStr (prior_goal t)),
            (''required_acceptance_criteria'', json_strs (required_for t fb kind)),
            (''feedback_history'', JArr (filter is_dict items @ [feedback_delta_of t fb kind])),
            (''previous_contract_hash'', str_or_null (contract_hash t)),
            (''previous_receipt_hash'', str_or_null (receipt_hash t))])"

definition specification_hash :: "jdict \<Rightarrow> string" where
  "specification_hash spec = sha256_hex (canonical (JObj spec))"

definition stripped_items :: "jdict \<Rightarrow> string list result" where
  "stripped_items spec =
     (case iter_json (dget_or spec ''required_acceptance_criteria'' (JArr [])) of
        Inl e \<Rightarrow> Inl e
      | Inr items \<Rightarrow> Inr (filter (\<lambda>s. s \<noteq> []) (map (\<lambda>j. py_strip (py_str j)) items)))"

definition revision_goal :: "jdict \<Rightarrow> string \<Rightarrow> feedback \<Rightarrow> string result" where
  "revision_goal spec fb kind =
     (case stripped_items spec of
        Inl e \<Rightarrow> Inl e
      | Inr required \<Rightarrow>
          Inr (''Continue the prior verified delivery with this '' @
            (if kind = ImplementationFix then ''implementation correction'' else ''product decision'') @
            ''.'' @ nl @ nl @ ''Original product instruction:'' @ nl @
            py_strip (py_str (or_json (dget spec ''original_goal'') (JStr []))) @ nl @ nl @
            ''Feedback delta:'' @ nl @ py_strip fb @ nl @ nl @
            ''Non-negotiable acceptance criteria for this revision:'' @ nl @
            py_join nl (map (\<lambda>s. ''- '' @ s) required)))"

definition required_revision_criteria :: "task \<Rightarrow> string list result" where
  "required_revision_criteria t =
     (case product_specification t of
        None \<Rightarrow> Inr []
      | Some spec \<Rightarrow>
          if (case product_revision t of None \<Rightarrow> 0 | Some n \<Rightarrow> n) \<le> 1 then Inr []
          else (case stripped_items spec of Inl e \<Rightarrow> Inl e | Inr xs \<Rightarrow> Inr (take 12 xs)))"

section \<open>The lineage\<close>

definition history_of :: "jdict \<Rightarrow> json list" where
  "history_of spec = (case dget spec ''feedback_history'' of JArr xs \<Rightarrow> xs | _ \<Rightarrow> [])"

text \<open>A specification as this module writes it.\<close>

definition canonical_specification :: "jdict \<Rightarrow> bool" where
  "canonical_specification spec =
     (\<exists>xs rs. dget spec ''feedback_history'' = JArr xs \<and> list_all is_dict xs \<and>
        dget spec ''required_acceptance_criteria'' = json_strs rs \<and> rs \<noteq> [] \<and>
        (\<exists>g. dget spec ''original_goal'' = JStr g \<and> py_strip g = g))"

lemma dget_or_def_some: "dget_or d k dflt = (if map_of d k = None then dflt else dget d k)"
  by (auto simp: dget_or_def dget_def split: option.splits)

lemma required_for_nonempty [simp]: "required_for t fb kind \<noteq> []"
  by (cases kind) auto

lemma iter_history:
  "dget d ''feedback_history'' = JArr xs \<Longrightarrow>
     iter_json (dget_or d ''feedback_history'' (JArr [])) = Inr xs"
  by (auto simp: dget_or_def_some dget_def)

end
