(* ===== verification/Task_Store.thy ===== *)
theory Task_Store
  imports Task_Model
begin

text \<open>
  \<^verbatim>\<open>repositories/task.py\<close> and the recovery query of \<^verbatim>\<open>services/runner.py\<close>: the tasks table as a
  list of rows in creation order, with distinct identifiers, and the queries and conditional
  updates on it. An update that matches no row leaves the table alone.
\<close>

section \<open>Rows\<close>

definition find_task :: "task list \<Rightarrow> string \<Rightarrow> task option" where
  "find_task rows i = find (\<lambda>t. task_id t = i) rows"

definition put_task :: "task \<Rightarrow> task list \<Rightarrow> task list" where
  "put_task t rows = map (\<lambda>r. if task_id r = task_id t then t else r) rows"

definition distinct_ids :: "task list \<Rightarrow> bool" where
  "distinct_ids rows = distinct (map task_id rows)"

definition is_root :: "task \<Rightarrow> bool" where
  "is_root t = (parent_id t = None \<and> (product_session_id t = None \<or> superseded_by_id t = None))"

text \<open>\<^verbatim>\<open>order_by(created_at.desc()).limit(limit).offset(offset)\<close>.\<close>

definition page :: "nat \<Rightarrow> nat \<Rightarrow> task list \<Rightarrow> task list" where
  "page lim offset rows = take lim (drop offset (rev rows))"

definition owned :: "string \<Rightarrow> task list \<Rightarrow> task list" where
  "owned owner rows = filter (\<lambda>t. owner_id t = owner) rows"

definition list_roots :: "task list \<Rightarrow> nat \<Rightarrow> nat \<Rightarrow> string option \<Rightarrow> task list" where
  "list_roots rows lim offset owner =
     page lim offset
       (filter is_root (case owner of None \<Rightarrow> rows | Some w \<Rightarrow> owned w rows))"

definition count_roots :: "task list \<Rightarrow> string option \<Rightarrow> nat" where
  "count_roots rows owner =
     length (filter is_root (case owner of None \<Rightarrow> rows | Some w \<Rightarrow> owned w rows))"

definition list_for_owner :: "task list \<Rightarrow> string \<Rightarrow> nat \<Rightarrow> nat \<Rightarrow> task list" where
  "list_for_owner rows owner lim offset = page lim offset (owned owner rows)"

definition count_for_owner :: "task list \<Rightarrow> string \<Rightarrow> nat" where
  "count_for_owner rows owner = length (owned owner rows)"

definition get_by_idempotency_key :: "task list \<Rightarrow> string \<Rightarrow> string \<Rightarrow> task option" where
  "get_by_idempotency_key rows key owner =
     find (\<lambda>t. idempotency_key t = Some key \<and> owner_id t = owner) rows"

definition list_children :: "task list \<Rightarrow> string \<Rightarrow> task list" where
  "list_children rows parent = filter (\<lambda>t. parent_id t = Some parent) rows"

definition list_revisions :: "task list \<Rightarrow> string \<Rightarrow> task list" where
  "list_revisions rows session =
     sort_key (\<lambda>t. case product_revision t of None \<Rightarrow> 0 | Some n \<Rightarrow> n)
       (filter (\<lambda>t. product_session_id t = Some session) rows)"

definition recent_for_chat :: "task list \<Rightarrow> string \<Rightarrow> string \<Rightarrow> string \<Rightarrow> nat \<Rightarrow> task list" where
  "recent_for_chat rows chat excluded owner lim =
     take lim (rev (filter (\<lambda>t. chat_id t = Some chat \<and> owner_id t = owner \<and> task_id t \<noteq> excluded) rows))"

section \<open>Descendants\<close>

definition in_frontier :: "string list \<Rightarrow> task \<Rightarrow> bool" where
  "in_frontier frontier t = (case parent_id t of None \<Rightarrow> False | Some p \<Rightarrow> p \<in> set frontier)"

definition fresh_children :: "task list \<Rightarrow> string list \<Rightarrow> string list \<Rightarrow> task list" where
  "fresh_children rows frontier seen =
     filter (\<lambda>t. task_id t \<notin> set seen) (filter (in_frontier frontier) rows)"

text \<open>The loop ends: each round either sees a row for the first time or finds no new frontier.\<close>

definition unseen :: "task list \<Rightarrow> string list \<Rightarrow> nat" where
  "unseen rows seen = card (task_id ` set rows - set seen)"

lemma unseen_decreases:
  assumes "t \<in> set (fresh_children rows frontier seen)"
  shows "unseen rows (seen @ map task_id (fresh_children rows frontier seen)) < unseen rows seen"
  unfolding unseen_def
proof (rule psubset_card_mono)
  show "task_id ` set rows - set (seen @ map task_id (fresh_children rows frontier seen)) \<subset>
      task_id ` set rows - set seen"
    using assms by (auto simp: fresh_children_def)
qed simp

function descend :: "task list \<Rightarrow> string list \<Rightarrow> string list \<Rightarrow> task list" where
  "descend rows frontier seen =
     (if frontier = [] then []
      else
        (let new = fresh_children rows frontier seen;
             ids = map task_id new
         in new @ descend rows ids (seen @ ids)))"
  by pat_completeness auto

termination
proof (relation "measures [\<lambda>(rows, fr, seen). unseen rows seen, \<lambda>(rows, fr, seen). length fr]", simp)
  fix rows :: "task list" and frontier seen :: "string list" and new ids
  assume "frontier \<noteq> []" and n: "new = fresh_children rows frontier seen" and i: "ids = map task_id new"
  then show "((rows, ids, seen @ ids), rows, frontier, seen)
      \<in> measures [\<lambda>(rows, fr, seen). unseen rows seen, \<lambda>(rows, fr, seen). length fr]"
    using unseen_decreases [OF list.set_sel(1), of rows frontier seen]
    by (cases "fresh_children rows frontier seen = []") auto
qed

declare descend.simps [simp del]

definition list_descendants :: "task list \<Rightarrow> string \<Rightarrow> task list" where
  "list_descendants rows i = descend rows [i] [i]"

section \<open>Claiming and recovering\<close>

text \<open>\<^verbatim>\<open>claim_pending\<close>: one conditional update, so a row is claimed once.\<close>

definition claimable :: "task \<Rightarrow> bool" where
  "claimable t =
     (status t = ''pending'' \<and> loop_state t \<in> set (map state_value claimable_states))"

definition claimed :: "task \<Rightarrow> task" where
  "claimed t =
     t\<lparr>status := ''running'', loop_state := state_value Preparing,
       transition_reason := Some (if loop_state t = state_value Queued then ''worker_claimed_task''
         else ''worker_recovered_interrupted_task''),
       transition_sequence := transition_sequence t + 1, stop_reason := None\<rparr>"

definition claim_pending :: "task list \<Rightarrow> string \<Rightarrow> task option \<times> task list" where
  "claim_pending rows i =
     (case find_task rows i of
        None \<Rightarrow> (None, rows)
      | Some t \<Rightarrow>
          if claimable t then (Some (claimed t), put_task (claimed t) rows) else (None, rows))"

definition active_child :: "task list \<Rightarrow> task \<Rightarrow> bool" where
  "active_child rows t =
     list_ex (\<lambda>u. parent_id u = Some (task_id t) \<and> status u \<in> {''running'', ''pending'', ''awaiting_input''}) rows"

text \<open>\<open>stale\<close> is the comparison of \<^verbatim>\<open>updated_at\<close> with the cutoff, by the clock of the database.\<close>

definition interrupted :: "task list \<Rightarrow> int \<Rightarrow> (task \<Rightarrow> bool) \<Rightarrow> task \<Rightarrow> bool" where
  "interrupted rows stale_seconds stale t =
     (status t = ''running'' \<and> (stale_seconds > 0 \<longrightarrow> \<not> active_child rows t \<and> stale t))"

definition requeued :: "task \<Rightarrow> task" where
  "requeued t =
     t\<lparr>status := ''pending'', loop_state := state_value Queued,
       transition_reason := Some ''worker_requeued_interrupted_task'',
       transition_sequence := transition_sequence t + 1, stop_reason := None,
       run_error := Some (''Interrupted '' @ em_dash @ '' recovered by the durable worker queue.''),
       attempt := attempt t + 1\<rparr>"

definition failed_over :: "task \<Rightarrow> task" where
  "failed_over t =
     t\<lparr>status := ''failed'', loop_state := state_value Failed,
       transition_reason := Some ''runner_interrupted_task'',
       transition_sequence := transition_sequence t + 1, stop_reason := Some (stop_value ErrorStop),
       run_error := Some (''Interrupted '' @ em_dash @ '' the runner crashed or restarted mid-run.'')\<rparr>"

definition reconcile_row :: "task list \<Rightarrow> int \<Rightarrow> bool \<Rightarrow> (task \<Rightarrow> bool) \<Rightarrow> task \<Rightarrow> task" where
  "reconcile_row rows stale_seconds requeue stale t =
     (if interrupted rows stale_seconds stale t then if requeue then requeued t else failed_over t else t)"

definition reconcile_interrupted_tasks ::
  "task list \<Rightarrow> int \<Rightarrow> bool \<Rightarrow> (task \<Rightarrow> bool) \<Rightarrow> nat \<times> task list" where
  "reconcile_interrupted_tasks rows stale_seconds requeue stale =
     (length (filter (interrupted rows stale_seconds stale) rows),
      map (reconcile_row rows stale_seconds requeue stale) rows)"

definition task_cancelled :: "task list \<Rightarrow> string \<Rightarrow> bool" where
  "task_cancelled rows i =
     (case find_task rows i of None \<Rightarrow> False | Some t \<Rightarrow> status t = ''cancelled'')"

section \<open>Facts about rows\<close>

declare state_value.simps [simp del] status_value.simps [simp del]

lemma find_task_SomeD: "find_task rows i = Some t \<Longrightarrow> t \<in> set rows \<and> task_id t = i"
  by (auto simp: find_task_def find_Some_iff in_set_conv_nth)

lemma set_put_task:
  "set (put_task t rows) \<subseteq> insert t (set rows)"
  by (auto simp: put_task_def)

lemma map_id_put_task [simp]: "map task_id (put_task t rows) = map task_id rows"
  by (simp add: put_task_def)

lemma distinct_ids_put [simp]: "distinct_ids (put_task t rows) = distinct_ids rows"
  by (simp add: distinct_ids_def)

lemma find_put_task:
  "find_task (put_task t rows) i =
     (if i = task_id t then map_option (\<lambda>_. t) (find_task rows i) else find_task rows i)"
  by (induction rows) (auto simp: find_task_def put_task_def)

section \<open>What the descendants are\<close>

definition child_of :: "task list \<Rightarrow> (string \<times> string) set" where
  "child_of rows = {(p, i). \<exists>t \<in> set rows. task_id t = i \<and> parent_id t = Some p}"

lemma fresh_children_ids:
  assumes "distinct_ids rows"
  shows "task_id ` set (fresh_children rows frontier seen) = child_of rows `` set frontier - set seen"
  by (auto simp: fresh_children_def in_frontier_def child_of_def image_iff split: option.splits)

lemma descend_ids:
  assumes "distinct_ids rows" "set frontier \<subseteq> set seen"
    and "child_of rows `` (set seen - set frontier) \<subseteq> set seen"
  shows "task_id ` set (descend rows frontier seen) = (child_of rows)\<^sup>* `` set seen - set seen"
  using assms
proof (induction rows frontier seen rule: descend.induct)
  case (1 rows frontier seen)
  show ?case
  proof (cases "frontier = []")
    case True
    then have "child_of rows `` set seen \<subseteq> set seen" using "1.prems" by simp
    then have "(child_of rows)\<^sup>* `` set seen = set seen" by (rule Image_closed_trancl)
    with True show ?thesis by (simp add: descend.simps)
  next
    case False
    let ?new = "fresh_children rows frontier seen"
    let ?F = "task_id ` set ?new"
    have F: "?F = child_of rows `` set frontier - set seen"
      using fresh_children_ids [OF "1.prems"(1)] .
    let ?D = "task_id ` set (descend rows (map task_id ?new) (seen @ map task_id ?new))"
    let ?R = "(child_of rows)\<^sup>* `` set seen"
    let ?ids = "map task_id ?new"
    have S: "set ?ids = ?F" "set (seen @ ?ids) = set seen \<union> ?F" by simp_all
    have c: "set ?ids \<subseteq> set (seen @ ?ids)" by simp
    have "child_of rows `` (set seen \<union> ?F - ?F) \<subseteq> set seen \<union> ?F"
      using F "1.prems"(3) by blast
    then have d: "child_of rows `` (set (seen @ ?ids) - set ?ids) \<subseteq> set (seen @ ?ids)"
      unfolding S .
    from "1.IH" [OF False refl refl "1.prems"(1) c d]
    have "?D = (child_of rows)\<^sup>* `` (set seen \<union> ?F) - (set seen \<union> ?F)"
      unfolding S .
    moreover have "(child_of rows)\<^sup>* `` (set seen \<union> ?F) = ?R"
      unfolding F using "1.prems"(2) by (auto intro: converse_rtrancl_into_rtrancl)
    moreover have "?F \<subseteq> ?R - set seen"
      unfolding F using "1.prems"(2) by auto
    ultimately have "?F \<union> ?D = ?R - set seen" by blast
    then show ?thesis
      using False by (subst descend.simps) (simp add: Let_def image_Un)
  qed
qed

lemma descend_subset: "set (descend rows frontier seen) \<subseteq> set rows"
proof (induction rows frontier seen rule: descend.induct)
  case (1 rows frontier seen)
  then show ?case
    by (subst descend.simps) (auto simp: Let_def fresh_children_def)
qed

lemma list_descendants_ids:
  assumes "distinct_ids rows"
  shows "task_id ` set (list_descendants rows i) = (child_of rows)\<^sup>+ `` {i} - {i}"
proof -
  have "task_id ` set (list_descendants rows i) = (child_of rows)\<^sup>* `` {i} - {i}"
    unfolding list_descendants_def using descend_ids [OF assms, of "[i]" "[i]"] by simp
  also have "\<dots> = (child_of rows)\<^sup>+ `` {i} - {i}"
    by (auto simp: rtrancl_eq_or_trancl)
  finally show ?thesis .
qed

lemma list_descendants_subset: "set (list_descendants rows i) \<subseteq> set rows"
  by (simp add: list_descendants_def descend_subset)


definition family :: "task list" where
  "family = [fresh_task ''a'', (fresh_task ''b'')\<lparr>parent_id := Some ''a''\<rparr>,
     (fresh_task ''c'')\<lparr>parent_id := Some ''b''\<rparr>, fresh_task ''d'']"


section \<open>Claims and recovery keep the policy\<close>

lemma status_literals:
  "''pending'' = status_value Pending" "''running'' = status_value Running"
  "''failed'' = status_value FailedStatus" "''cancelled'' = status_value CancelledStatus"
  "''awaiting_input'' = status_value AwaitingInputStatus"
  by (simp_all add: status_value.simps)

lemma coherent_cases:
  assumes "coherent t"
  obtains st where "loop_state t = state_value st" "status t = status_value (status_of st)"
    "stop_ok st (stop_reason t)"
  using assms by (auto simp: coherent_def split: option.splits dest: loop_state_of_SomeD)

lemma pending_queued: "coherent t \<Longrightarrow> status t = status_value Pending \<longleftrightarrow> loop_state t = state_value Queued"
proof (elim coherent_cases)
  fix st assume "loop_state t = state_value st" "status t = status_value (status_of st)"
  then show ?thesis by (cases st) simp_all
qed

lemma running_working: "coherent t \<Longrightarrow> status t = status_value Running \<longleftrightarrow> loop_state t \<in> state_value ` set working"
proof (elim coherent_cases)
  fix st assume "loop_state t = state_value st" "status t = status_value (status_of st)"
  then show ?thesis by (cases st) (auto simp: working_def)
qed

lemma claim_reason: "reason_text ''worker_claimed_task'' Claim = ''worker_claimed_task''"
  by code_simp

lemma rule_claim: "rule st Claim = (if st = Queued then Some Preparing else None)"
  by (simp add: rule_eq_spec rule_spec_def base_rules_def)

lemma claimable_iff: "coherent t \<Longrightarrow> claimable t \<longleftrightarrow> loop_state t = state_value Queued"
  unfolding claimable_def status_literals by (auto simp: pending_queued claimable_states_def)

lemma loop_step_claim:
  assumes "coherent t"
  shows "loop_step t (Claim, ''worker_claimed_task'', None) =
    (if claimable t then Some (claimed t) else None)"
proof (cases "claimable t")
  case True
  then have "loop_state t = state_value Queued" using claimable_iff [OF assms] by simp
  then have "loop_step t (Claim, ''worker_claimed_task'', None) =
      Some (moved t Preparing ''worker_claimed_task'' None)"
    unfolding loop_step_iff by (auto simp: rule_claim claim_reason reason_of_def)
  also have "moved t Preparing ''worker_claimed_task'' None = claimed t"
    using \<open>loop_state t = _\<close> by (simp add: moved_def claimed_def status_literals)
  finally show ?thesis using True by simp
next
  case False
  have "loop_step t (Claim, ''worker_claimed_task'', None) \<noteq> Some t'" for t'
    using False claimable_iff [OF assms] unfolding loop_step_iff by (auto simp: rule_claim split: if_splits)
  then show ?thesis using False by (cases "loop_step t (Claim, ''worker_claimed_task'', None)") auto
qed

lemma claimed_simps [simp]:
  "task_id (claimed t) = task_id t" "coherent (claimed t)" "\<not> claimable (claimed t)"
  by (simp_all add: claimed_def coherent_def stop_ok_def claimable_def status_literals)



lemma requeued_simps [simp]:
  "task_id (requeued t) = task_id t" "coherent (requeued t)" "claimable (requeued t)"
  by (simp_all add: requeued_def coherent_def stop_ok_def claimable_def status_literals
      claimable_states_def)

lemma failed_over_simps [simp]:
  "task_id (failed_over t) = task_id t" "coherent (failed_over t)" "finished (failed_over t)"
  by (simp_all add: failed_over_def coherent_def stop_ok_def status_literals finished_def terminal_def)

text \<open>
  C35. Recovery after a crash touches running tasks only, and in worker mode only those that
  are stale and have no live child. A requeued task can be claimed again, a failed one is
  final, every row stays coherent, and the reported count is the number of rows changed.
\<close>

theorem recovery_sound:
  assumes "reconcile_interrupted_tasks rows secs requeue stale = (n, rows')"
    and "\<forall>t \<in> set rows. coherent t"
  shows "(\<forall>t \<in> set rows'. coherent t) \<and> map task_id rows' = map task_id rows \<and>
    n = length (filter (\<lambda>(t, t'). t \<noteq> t') (zip rows rows')) \<and>
    (\<forall>(t, t') \<in> set (zip rows rows').
       if interrupted rows secs stale t
       then status t = status_value Running \<and> (secs > 0 \<longrightarrow> stale t \<and> \<not> active_child rows t) \<and>
            (if requeue then claimable t' \<and> attempt t' = attempt t + 1 else finished t')
       else t' = t)"
proof (intro conjI)
  let ?f = "reconcile_row rows secs requeue stale"
  have rows': "rows' = map ?f rows" and n: "n = length (filter (interrupted rows secs stale) rows)"
    using assms(1) by (auto simp: reconcile_interrupted_tasks_def)
  have z: "zip rows rows' = map (\<lambda>t. (t, ?f t)) rows"
    by (simp add: rows' zip_map2 zip_same_conv_map)
  have moves: "?f t \<noteq> t \<longleftrightarrow> interrupted rows secs stale t" for t
  proof -
    have "transition_sequence (requeued t) \<noteq> transition_sequence t"
      "transition_sequence (failed_over t) \<noteq> transition_sequence t"
      by (simp_all add: requeued_def failed_over_def)
    then show ?thesis by (auto simp: reconcile_row_def)
  qed
  show "\<forall>t \<in> set rows'. coherent t"
    using assms(2) by (auto simp: rows' reconcile_row_def)
  show "map task_id rows' = map task_id rows"
    by (simp add: rows' comp_def reconcile_row_def if_distrib)
  have "t \<noteq> ?f t \<longleftrightarrow> interrupted rows secs stale t" for t using moves [of t] by metis
  then show "n = length (filter (\<lambda>(t, t'). t \<noteq> t') (zip rows rows'))"
    by (simp add: n z filter_map comp_def)
  show "\<forall>(t, t') \<in> set (zip rows rows').
       if interrupted rows secs stale t
       then status t = status_value Running \<and> (secs > 0 \<longrightarrow> stale t \<and> \<not> active_child rows t) \<and>
            (if requeue then claimable t' \<and> attempt t' = attempt t + 1 else finished t')
       else t' = t"
    unfolding z by (auto simp: reconcile_row_def interrupted_def status_literals requeued_def
        claimable_def claimable_states_def)
qed

theorem recovery_sound_witness:
  "let rows = map claimed family;
       rows' = snd (reconcile_interrupted_tasks rows 900 True (\<lambda>_. True))
   in (\<forall>t \<in> set rows'. coherent t) \<and> map status rows' = map status_value [Running, Running, Pending, Pending]"
proof -
  let ?rows = "map claimed family"
  have c: "\<forall>t \<in> set ?rows. coherent t" by simp
  have "map status (snd (reconcile_interrupted_tasks ?rows 900 True (\<lambda>_. True))) =
      map status_value [Running, Running, Pending, Pending]" by code_simp
  then show ?thesis
    using recovery_sound [OF prod.collapse [symmetric] c, of 900 True "\<lambda>_. True"] by simp
qed

end
