(* ===== verification/Redaction.thy ===== *)
theory Redaction
  imports Regex
begin

text \<open>
  \<^verbatim>\<open>core/redaction.py\<close>: the masking of secrets in tool output before it is recorded or shown to
  a model. The patterns are those of the code in theory \<open>Regex\<close>; character counts are bytes,
  which agree on ASCII text.
\<close>

definition redacted :: string where
  "redacted = ''[REDACTED]''"

definition alnum :: "char \<Rightarrow> bool" where
  "alnum c = (py_isalpha c \<or> py_isdigit c)"

definition alnum_or :: "string \<Rightarrow> regex" where
  "alnum_or cs = Chr (\<lambda>c. alnum c \<or> c \<in> set cs)"

definition any_char :: regex where
  "any_char = Chr (\<lambda>_. True)"

definition pem_title :: regex where
  "pem_title = Star (Chr (\<lambda>c. py_isupper c \<or> py_isdigit c \<or> c = CHR '' ''))"

definition pem_pattern :: regex where
  "pem_pattern =
     seqs [lit ''-----BEGIN '', pem_title, lit ''PRIVATE KEY-----'', LazyStar any_char,
           lit ''-----END '', pem_title, lit ''PRIVATE KEY-----'']"

definition token_patterns :: "regex list" where
  "token_patterns =
     [seqs [WordB, lit ''sk-ant-'', at_least 20 (alnum_or ''_-'')],
      seqs [WordB, lit ''sk-'', at_least 20 (alnum_or ''_-'')],
      seqs [WordB, lit ''gh'', chars ''posru'', lit ''_'', at_least 20 (alnum_or [])],
      seqs [WordB, lit ''xox'', chars ''baprs'', lit ''-'', at_least 10 (alnum_or ''-'')],
      seqs [WordB, lit ''AKIA'', times 16 (Chr (\<lambda>c. py_isdigit c \<or> py_isupper c)), WordB],
      seqs [WordB, lit ''AIza'', at_least 30 (alnum_or ''_-'')],
      seqs [WordB, ilit ''bearer'', plus space, at_least 20 (alnum_or ''._-'')]]"

definition quotes :: string where
  "quotes = [CHR 0x27, CHR 0x22]"

definition key_run :: regex where
  "key_run = at_most 60 (Chr (\<lambda>c. word_char c \<or> c \<in> set ''.-''))"

definition compound :: "string \<Rightarrow> regex" where
  "compound w = seqs [ilit w, opt (chars ''_-''), ilit ''key'']"

definition secret_word :: regex where
  "secret_word =
     alts [ilit ''secret'', ilit ''token'', ilit ''password'', ilit ''passwd'',
           compound ''api'', compound ''access'', compound ''private'', ilit ''auth'']"

definition assign_pattern :: regex where
  "assign_pattern =
     seqs [Group 1 (seqs [opt (chars quotes), key_run, NotBehind py_isalpha, secret_word,
                          NotAhead (Chr py_isalpha), key_run, opt (chars quotes)]),
           Group 2 (seqs [Star space, chars ''=:'', Star space]),
           Alt (seqs [Group 3 (chars quotes), at_least 4 (none_of quotes), chars quotes])
               (at_least 6 (Chr (\<lambda>c. \<not> py_isspace c \<and> c \<notin> set quotes)))]"

definition max_redact :: nat where
  "max_redact = 200000"

definition group_or_empty :: "nat \<Rightarrow> string \<times> rstate \<Rightarrow> string" where
  "group_or_empty n m = (case group_text n (snd m) of None \<Rightarrow> [] | Some w \<Rightarrow> w)"

definition mask_assignment :: "string \<times> rstate \<Rightarrow> string" where
  "mask_assignment m =
     (let quote = group_or_empty 3 m
      in group_or_empty 1 m @ group_or_empty 2 m @ quote @ redacted @ quote)"

definition re_sub_with :: "regex \<Rightarrow> (string \<times> rstate \<Rightarrow> string) \<Rightarrow> string \<Rightarrow> string" where
  "re_sub_with r f s = sub_from (length s) r f [] s"

definition redact_secrets :: "string \<Rightarrow> string" where
  "redact_secrets s =
     (if s = [] then s
      else
        (let out = fold (\<lambda>pattern t. re_sub pattern redacted t) token_patterns
                     (re_sub pem_pattern ''[REDACTED PRIVATE KEY]'' s)
         in if length out \<le> max_redact then re_sub_with assign_pattern mask_assignment out
            else out))"

end
