(* ===== verification/Hosts.thy ===== *)
theory Hosts
  imports Regex
begin

text \<open>
  Host names and addresses: what the code uses of \<^verbatim>\<open>urllib.parse.urlsplit\<close> and of
  \<^verbatim>\<open>ipaddress.ip_address\<close>.
\<close>

section \<open>Addresses\<close>

datatype ip = V4 nat | V6 nat string

definition octet :: "string \<Rightarrow> nat option" where
  "octet s =
     (if s = [] \<or> \<not> list_all py_isdigit s \<or> 3 < length s \<or> (s \<noteq> ''0'' \<and> prefix ''0'' s) \<or> 255 < digits_val s
      then None else Some (digits_val s))"

fun all_some :: "'a option list \<Rightarrow> 'a list option" where
  "all_some [] = Some []"
| "all_some (None # xs) = None"
| "all_some (Some x # xs) = map_option ((#) x) (all_some xs)"

definition parse_ipv4 :: "string \<Rightarrow> nat option" where
  "parse_ipv4 s =
     (let parts = split_char (CHR ''.'') s in
      if length parts \<noteq> 4 then None
      else map_option (foldl (\<lambda>n x. 256 * n + x) 0) (all_some (map octet parts)))"

definition hex_val :: "char \<Rightarrow> nat option" where
  "hex_val c =
     (if py_isdigit c then Some (digit_val c)
      else if lower_char c \<in> set ''abcdef'' then Some (ord_of (lower_char c) - 87) else None)"

definition hextet :: "string \<Rightarrow> nat option" where
  "hextet s =
     (if s = [] \<or> 4 < length s then None
      else map_option (foldl (\<lambda>n x. 16 * n + x) 0) (all_some (map hex_val s)))"

definition groups_val :: "nat list \<Rightarrow> nat" where
  "groups_val gs = foldl (\<lambda>n x. 65536 * n + x) 0 gs"

definition ipv6_part :: "string \<Rightarrow> nat option option" where
  "ipv6_part p = (if p = [] then Some None else map_option Some (hextet p))"

text \<open>The groups of an IPv6 address; a dotted quad at its close counts as two groups.\<close>

definition ipv6_parts :: "string \<Rightarrow> nat option list option" where
  "ipv6_parts s =
     (let parts = split_char (CHR '':'') s;
          final = last parts
      in if length parts < 3 then None
         else if CHR ''.'' \<in> set final then
           (case (parse_ipv4 final, all_some (map ipv6_part (butlast parts))) of
              (Some n, Some gs) \<Rightarrow> Some (gs @ [Some (n div 65536), Some (n mod 65536)])
            | _ \<Rightarrow> None)
         else all_some (map ipv6_part parts))"

definition middle_gaps :: "nat option list \<Rightarrow> nat list" where
  "middle_gaps ps = filter (\<lambda>i. ps ! i = None) [1..<length ps - 1]"

definition some_groups :: "nat option list \<Rightarrow> nat list" where
  "some_groups ps = List.map_filter id ps"

text \<open>An empty first or last part is only allowed next to the \<open>::\<close>, which stands for at
  least one group.\<close>

definition ipv6_groups :: "nat option list \<Rightarrow> nat list option" where
  "ipv6_groups ps =
     (case middle_gaps ps of
        [] \<Rightarrow> if length ps = 8 \<and> None \<notin> set ps then Some (some_groups ps) else None
      | [k] \<Rightarrow>
          (let hi = take k ps; lo = drop (k + 1) ps;
               n = length (some_groups hi) + length (some_groups lo)
           in if hd ps = None \<and> k \<noteq> 1 \<or> last ps = None \<and> length lo \<noteq> 1 \<or> 7 < n then None
              else Some (some_groups hi @ replicate (8 - n) 0 @ some_groups lo))
      | _ \<Rightarrow> None)"

definition parse_ipv6 :: "string \<Rightarrow> ip option" where
  "parse_ipv6 s =
     (let address = takeWhile (\<lambda>c. c \<noteq> CHR ''%'') s;
          scope = drop (length address + 1) s
      in if address \<noteq> s \<and> (scope = [] \<or> CHR ''%'' \<in> set scope) then None
         else
           (case ipv6_parts address of
              None \<Rightarrow> None
            | Some ps \<Rightarrow>
                if 9 < length ps then None
                else map_option (\<lambda>gs. V6 (groups_val gs) scope) (ipv6_groups ps)))"

definition ip_address :: "string \<Rightarrow> ip option" where
  "ip_address s =
     (case parse_ipv4 s of Some n \<Rightarrow> Some (V4 n) | None \<Rightarrow> parse_ipv6 s)"

section \<open>\<^verbatim>\<open>urlsplit\<close>\<close>

definition after_last :: "char \<Rightarrow> string \<Rightarrow> string" where
  "after_last c s = rev (takeWhile (\<lambda>x. x \<noteq> c) (rev s))"

definition future_address :: regex where
  "future_address =
     seqs [lit ''v'', plus (Chr (\<lambda>c. hex_val c \<noteq> None)), lit ''.'', plus (none_of nl)]"

definition bracketed_ok :: "string \<Rightarrow> bool" where
  "bracketed_ok h =
     (if prefix ''v'' h then re_fullmatch future_address h
      else (case ip_address h of Some (V6 _ _) \<Rightarrow> True | _ \<Rightarrow> False))"

text \<open>
  The host of \<^verbatim>\<open>urlsplit("//" + s)\<close>: after the user information, without the port; \<open>None\<close>
  when there is none and when \<^verbatim>\<open>urlsplit\<close> raises \<^verbatim>\<open>ValueError\<close> on its brackets.
\<close>

definition url_hostname :: "string \<Rightarrow> string option" where
  "url_hostname s =
     (let netloc = takeWhile (\<lambda>c. c \<notin> set ''/?#'') s;
          hostinfo = after_last (CHR ''@'') netloc;
          brackets = (CHR ''['' \<in> set netloc \<or> CHR '']'' \<in> set netloc);
          inner = takeWhile (\<lambda>c. c \<noteq> CHR '']'') (tl hostinfo);
          after = drop (length inner + 2) hostinfo;
          lowered = (\<lambda>h. py_lower (takeWhile (\<lambda>c. c \<noteq> CHR ''%'') h) @ dropWhile (\<lambda>c. c \<noteq> CHR ''%'') h)
      in if brackets then
           (if CHR ''['' \<in> set netloc \<and> CHR '']'' \<in> set netloc \<and> prefix ''['' hostinfo \<and>
               (after = [] \<or> prefix '':'' after) \<and> bracketed_ok inner
            then Some (lowered inner) else None)
         else
           (let h = takeWhile (\<lambda>c. c \<noteq> CHR '':'') hostinfo
            in if h = [] then None else Some (lowered h)))"

end
