(* ===== verification/Command_Policy.thy ===== *)
theory Command_Policy
  imports Redaction Workspace Progress Hosts
begin

text \<open>
  \<^verbatim>\<open>tools/policy.py\<close>: the classification of a shell command (deny, allow, needs approval), the
  patterns that mean network access, and the hosts a command reaches. Every pattern is the
  regular expression of the code, with \<^verbatim>\<open>IGNORECASE\<close> written into its literals.
\<close>

datatype verdict = Allow | NeedsApproval | Deny

fun verdict_value :: "verdict \<Rightarrow> string" where
  "verdict_value Allow = ''allow''"
| "verdict_value NeedsApproval = ''needs_approval''"
| "verdict_value Deny = ''deny''"

section \<open>Commands that never run\<close>

text \<open>\<^verbatim>\<open>[^;|&\n]*\<close>, the rest of one simple command; \<^verbatim>\<open>-[a-z]*x\<close>, a flag cluster with a letter.\<close>

definition same_command :: regex where
  "same_command = Star (none_of ('';|&'' @ nl))"

definition flag_with :: "string \<Rightarrow> regex" where
  "flag_with letters = seqs [lit ''-'', Star (Chr py_isalpha), Chr (\<lambda>c. lower_char c \<in> set letters)]"

definition iword :: "string \<Rightarrow> regex" where
  "iword w = seqs [WordB, ilit w, WordB]"

definition ialts :: "string list \<Rightarrow> regex" where
  "ialts ws = alts (map ilit ws)"

definition rm_recursive :: regex where
  "rm_recursive =
     Cat (iword ''rm'') (Ahead (Cat same_command (Alt (flag_with ''r'') (ilit ''--recursive''))))"

definition deny_patterns :: "(regex \<times> string) list" where
  "deny_patterns =
     [(Cat rm_recursive (Ahead (Cat same_command (Alt (flag_with ''f'') (ilit ''--force'')))),
       ''recursive force-delete''),
      (seqs [rm_recursive, same_command, space, chars ''/~*''],
       ''recursive delete of a broad path''),
      (Alt (iword ''shutil.rmtree'') (iword ''os.removedirs''),
       ''recursive delete via a Python library''),
      (seqs [WordB, ialts [''rm'', ''rmdir''], opt (ilit ''Sync''), Star space, lit ''('',
             Star (none_of ('';'' @ nl)), ilit ''recursive''],
       ''recursive delete via a Node fs call''),
      (Alt (words_of [''sudo'', ''doas'', ''pkexec'']) (seqs [WordB, ilit ''su'', plus space, lit ''-'']),
       ''privilege escalation''),
      (seqs [alts [Bol, Cat (chars (nl @ '';|&('')) (Star space),
                   seqs [WordB, ialts [''sudo'', ''doas'', ''nohup'', ''env'', ''time'', ''exec''], plus space]],
             ilit ''mkfs'', opt (Cat (lit ''.'') (plus wordc)), WordB],
       ''format a filesystem''),
      (Cat (alts [Cat WordB (ilit ''of=/dev/''), seqs [lit ''>'', Star space, ilit ''/dev/''],
                  seqs [iword ''tee'', same_command, ilit ''/dev/''],
                  seqs [iword ''cp'', same_command, space, ilit ''/dev/'']])
           (ialts [''sd'', ''nvme'', ''disk'', ''hd'', ''vd'', ''mmcblk'', ''loop'']),
       ''writing to a raw block device''),
      (Alt (words_of [''shutdown'', ''reboot'', ''halt'', ''poweroff''])
           (seqs [WordB, ialts [''init'', ''telinit''], plus space, chars ''06'', WordB]),
       ''power control''),
      (seqs [Alt (Cat WordB (plus wordc)) (lit '':''), Star space, lit ''('', Star space, lit '')'',
             Star space, lit ''{'', Star (none_of ''}&|''), lit ''|'', Star (none_of ''}&''), lit ''&''],
       ''fork bomb''),
      (seqs [words_of [''curl'', ''wget'', ''fetch'', ''aria2c'', ''axel''], Star (none_of ('';&'' @ nl)),
             lit ''|'', Star space, opt (Cat (ilit ''sudo'') (plus space)),
             alts [ilit ''sh'', ilit ''bash'', ilit ''zsh'', ilit ''dash'', Cat (ilit ''python'') (opt (lit ''3'')),
                   ilit ''perl'', ilit ''ruby'', ilit ''node'', ilit ''php''], WordB],
       ''piping the network into an interpreter''),
      (seqs [iword ''chmod'',
             Ahead (seqs [same_command, WordB, opt (lit ''0''), lit ''777'', WordB]),
             Ahead (seqs [same_command, space, chars ''/~''])],
       ''world-writable on a broad path''),
      (Cat (ilit ''/etc/'') (ialts [''passwd'', ''shadow'', ''gshadow'', ''sudoers'']),
       ''touching system credential files''),
      (alts [seqs [WordB, ilit ''n'', ialts [''c'', ''cat''], WordB, same_command, space, flag_with ''ec'', WordB],
             seqs [iword ''socat'', same_command, ialts [''exec'', ''system''], lit '':''],
             seqs [lit ''>&'', Star space, ilit ''/dev/tcp'']],
       ''reverse shell''),
      (Alt (seqs [iword ''dup2'', Star (none_of ('';'' @ nl)), iword ''fileno'']) (iword ''pty.spawn''),
       ''interpreter reverse shell'')]"

definition allow_prefixes :: "string list" where
  "allow_prefixes =
     [''python'', ''python3'', ''pip'', ''pip3'', ''uv'', ''node'', ''npm'', ''npx'', ''pnpm'', ''yarn'',
      ''ls'', ''cat'', ''echo'', ''pwd'', ''mkdir'', ''touch'', ''head'', ''tail'', ''wc'', ''tree'',
      ''grep'', ''rg'', ''find'', ''sed'', ''awk'', ''sort'', ''uniq'', ''cut'', ''diff'', ''cmp'', ''cp'', ''mv'',
      ''true'', ''false'', ''env'', ''printf'', ''which'', ''type'', ''date'', ''test'', ''pytest'', ''ruff'',
      ''mypy'', ''black'', ''tsc'', ''eslint'', ''prettier'', ''go'', ''cargo'', ''rustc'', ''javac'', ''java'',
      ''make'', ''cmake'', ''git'', ''jq'', ''sqlite3'']"

definition inline_code :: regex where
  "inline_code =
     seqs [lit ''-'', Star (Chr py_islower), chars ''ce'', plus space,
           Group 1 (chars quotes), Group 2 (LazyStar any_char), Backref 1]"

definition quoted_text :: regex where
  "quoted_text = seqs [Group 1 (chars quotes), LazyStar any_char, Backref 1]"

definition deny_scan_text :: "string \<Rightarrow> string" where
  "deny_scan_text command =
     (let inners = map (group_or_empty 2) (re_finditer inline_code command);
          blanked = re_sub quoted_text '' '' command
      in blanked @ (if inners = [] then [] else ''; '' @ py_join ''; '' inners))"

fun first_match :: "(regex \<times> string) list \<Rightarrow> string \<Rightarrow> string option" where
  "first_match [] s = None"
| "first_match ((pattern, reason) # ps) s =
     (if re_search pattern s then Some reason else first_match ps s)"

definition after_last_slash :: "string \<Rightarrow> string" where
  "after_last_slash s = rev (takeWhile (\<lambda>c. c \<noteq> CHR ''/'') (rev s))"

definition evaluate_command :: "string \<Rightarrow> verdict \<times> string" where
  "evaluate_command command =
     (let cmd = py_strip command in
      if cmd = [] then (Deny, ''empty command'')
      else
        (case first_match deny_patterns (deny_scan_text cmd) of
           Some reason \<Rightarrow> (Deny, reason)
         | None \<Rightarrow>
             (let first = after_last_slash (takeWhile (\<lambda>c. \<not> py_isspace c) cmd)
              in if first \<in> set allow_prefixes then (Allow, ''allowlisted command'')
                 else (NeedsApproval, str_repr first @ '' is not on the allowlist''))))"

section \<open>Commands that reach the network\<close>

definition tool_op :: "regex \<Rightarrow> string list \<Rightarrow> regex" where
  "tool_op program ops = seqs [WordB, program, plus space, ialts ops, WordB]"

definition interpreter_network :: regex where
  "interpreter_network =
     seqs
      [WordB,
       alts [Cat (ilit ''python'') (opt (lit ''3'')), ilit ''node'', ilit ''deno'', ilit ''bun'',
             ilit ''ruby'', ilit ''perl'', ilit ''php''], WordB,
       Star (none_of '';&|''),
       alts
        [seqs [ilit ''import'', plus space,
               ialts [''urllib'', ''requests'', ''httpx'', ''socket'', ''http'', ''aiohttp'', ''ftplib'', ''smtplib'']],
         ilit ''urllib.'',
         Cat (ilit ''requests.'')
             (ialts [''get'', ''post'', ''put'', ''delete'', ''patch'', ''head'', ''request'', ''Session'']),
         ilit ''urlopen'', ilit ''socket.socket'', ilit ''http.client'', ilit ''aiohttp.'', ilit ''net/http'',
         ilit ''Net::HTTP'', iword ''LWP'', ilit ''IO::Socket'',
         seqs [ilit ''fetch'', Star space, lit ''(''],
         seqs [ilit ''require('', Star space, chars quotes, opt (ilit ''node:''),
               alts [Cat (ilit ''http'') (opt (ilit ''s'')), ilit ''net'', ilit ''dgram'', ilit ''tls'',
                     ilit ''dns'', ilit ''http2''], WordB],
         seqs [WordB, ilit ''net.'', ialts [''connect'', ''createConnection'']],
         seqs [WordB, ilit ''http'', opt (ilit ''s''), lit ''.'', ialts [''request'', ''get''], WordB],
         ilit ''open-uri'', ilit ''file_get_contents'',
         seqs [chars quotes, ilit ''http'', opt (ilit ''s''), lit ''://'']]]"

definition network_patterns :: "(regex \<times> string) list" where
  "network_patterns =
     [(iword ''curl'', ''curl''), (iword ''wget'', ''wget''),
      (words_of [''nc'', ''ncat'', ''telnet'', ''socat''], ''raw socket''),
      (words_of [''ssh'', ''scp'', ''sftp'', ''rsync''], ''remote shell/copy''),
      (iword ''ftp'', ''ftp''),
      (tool_op (ilit ''git'') [''clone'', ''pull'', ''push'', ''fetch'', ''ls-remote''], ''git network op''),
      (tool_op (Cat (ilit ''pip'') (opt (lit ''3''))) [''install'', ''download''], ''pip download''),
      (seqs [WordB, ilit ''uv'', plus space, opt (Cat (ilit ''pip'') (plus space)),
             ialts [''install'', ''add'', ''sync''], WordB], ''uv install''),
      (tool_op (ialts [''npm'', ''pnpm'', ''yarn'']) [''install'', ''add'', ''ci'', ''i''], ''node package install''),
      (tool_op (ilit ''brew'') [''install'', ''update'', ''upgrade''], ''brew''),
      (tool_op (Cat (ilit ''apt'') (opt (ilit ''-get''))) [''install'', ''update''], ''apt''),
      (Alt (tool_op (ilit ''go'') [''get'']) (tool_op (ilit ''cargo'') [''install'', ''add'', ''fetch'']),
       ''package fetch''),
      (seqs [ilit ''/dev/'', ialts [''tcp'', ''udp''], lit ''/''], ''bash /dev/tcp socket''),
      (words_of [''aria2c'', ''axel'', ''wget2'', ''httpie''], ''downloader''),
      (words_of [''lynx'', ''w3m'', ''links'', ''elinks''], ''text browser''),
      (words_of [''dig'', ''nslookup'', ''ping'', ''traceroute'', ''tracepath''], ''network probe''),
      (interpreter_network, ''interpreter network access'')]"

definition net_in_code :: regex where
  "net_in_code =
     alts
      [ilit ''urllib'', ilit ''requests'', ilit ''httpx'', ilit ''http.client'', ilit ''aiohttp'', ilit ''urlopen'',
       ilit ''socket.'', ilit ''ftplib'', ilit ''smtplib'', ilit ''net/http'', ilit ''open-uri'',
       ilit ''file_get_contents'', seqs [ilit ''fetch'', Star space, lit ''(''],
       seqs [ilit ''http'', opt (ilit ''s''), lit ''://''], ilit ''/dev/tcp/'',
       seqs [ilit ''require('', Star space, chars quotes,
             ialts [''net'', ''http'', ''https'', ''http2'', ''dgram'', ''dns'', ''tls''],
             chars quotes, Star space, lit '')''],
       seqs [WordB, ilit ''net.'', ialts [''connect'', ''createConnection'', ''Socket'']],
       seqs [WordB, ilit ''http'', opt (ilit ''s''), lit ''.'', ialts [''request'', ''get''], WordB]]"

definition script_arg :: regex where
  "script_arg =
     seqs [Alt Bol (lit ''/''), plus (Chr (\<lambda>c. word_char c \<or> c \<in> set ''.-'')), lit ''.'',
           ialts [''py'', ''js'', ''mjs'', ''cjs'', ''ts'', ''rb'', ''pl'', ''php'', ''sh'', ''bash''], Eol]"

definition interpreters :: "string list" where
  "interpreters =
     [''python'', ''python3'', ''node'', ''deno'', ''bun'', ''ruby'', ''perl'', ''php'', ''sh'', ''bash'']"

definition code_network_reason :: "string \<Rightarrow> string option" where
  "code_network_reason code =
     (if re_search net_in_code code then Some ''network code in script'' else None)"

definition script_paths_in :: "string \<Rightarrow> string list" where
  "script_paths_in command =
     (let tokens = (case shlex_split command of None \<Rightarrow> py_words command | Some ts \<Rightarrow> ts);
          paths = filter (re_search script_arg) tokens
      in case tokens of
           [] \<Rightarrow> paths
         | program # rest \<Rightarrow>
             if after_last_slash program \<in> set interpreters
             then (case filter (\<lambda>t. \<not> prefix ''-'' t) rest of
                     [] \<Rightarrow> paths
                   | t # _ \<Rightarrow> if t \<in> set paths then paths else paths @ [t])
             else paths)"

definition network_command_reason :: "string \<Rightarrow> string option" where
  "network_command_reason command = first_match network_patterns command"

section \<open>The hosts a command reaches\<close>

definition url_pattern :: regex where
  "url_pattern =
     seqs [ilit ''http'', opt (ilit ''s''), lit ''://'',
           plus (Chr (\<lambda>c. \<not> py_isspace c \<and> c \<notin> set (quotes @ ''|;&<>`)'')))]"

definition host_first :: "string list" where
  "host_first = [''nc'', ''ncat'', ''telnet'', ''ssh'']"

definition host_colon :: "string list" where
  "host_colon = [''scp'', ''sftp'', ''rsync'']"

definition fetchers :: "string list" where
  "fetchers =
     [''curl'', ''wget'', ''wget2'', ''aria2c'', ''axel'', ''httpie'', ''lftp'', ''ftp'', ''ftps'',
      ''lynx'', ''w3m'', ''links'', ''elinks'']"

definition bin_pattern :: regex where
  "bin_pattern = words_of (host_first @ host_colon @ fetchers)"

definition hostish :: regex where
  "hostish =
     Cat Bol
      (alts
        [seqs [lit ''['', plus (Chr (\<lambda>c. py_isdigit c \<or> lower_char c \<in> set ''abcdef:'')), lit '']''],
         Cat (plus (Cat (plus (alnum_or ''-'')) (lit ''.''))) (at_least 2 (alnum_or ''-'')),
         Cat (Cat digit (at_most 2 digit)) (times 3 (seqs [lit ''.'', digit, at_most 2 digit]))])"

definition host_flags :: "string list" where
  "host_flags = [''--url'', ''--proxy'', ''-x'', ''--connect-to'', ''--resolve'']"

definition before_char :: "char \<Rightarrow> string \<Rightarrow> string" where
  "before_char c s = takeWhile (\<lambda>x. x \<noteq> c) s"

definition after_scheme :: "string \<Rightarrow> string" where
  "after_scheme s = (case partition_at ''://'' s of None \<Rightarrow> s | Some (a, b) \<Rightarrow> b)"

definition host_of :: "string \<Rightarrow> string option" where
  "host_of authority =
     (let a = strip_chars ''/'' (py_strip authority) in
      if a = [] then None
      else (case url_hostname (after_scheme a) of None \<Rightarrow> None | Some h \<Rightarrow> Some (py_lower h)))"

definition comment :: regex where
  "comment = seqs [Alt Bol space, lit ''#'', Star (none_of nl), Eol]"

definition strip_comments :: "string \<Rightarrow> string" where
  "strip_comments s = py_join nl (map (re_sub comment []) (py_splitlines s))"

definition flag_hosts :: "string list \<Rightarrow> string option list" where
  "flag_hosts toks =
     map (\<lambda>(prev, tok).
            if before_char (CHR ''='') prev \<in> set host_flags
            then host_of (if CHR '':'' \<in> set tok \<and> \<not> py_contains ''//'' tok
                          then before_char (CHR '':'') tok else tok)
            else None)
       (zip toks (tl toks))"

fun positional_host :: "string \<Rightarrow> bool \<Rightarrow> string list \<Rightarrow> string option" where
  "positional_host binary prev_flag [] = None"
| "positional_host binary prev_flag (tok # toks) =
     (if prefix ''-'' tok then positional_host binary True toks
      else if prev_flag then positional_host binary False toks
      else if py_contains ''://'' tok then host_of (after_scheme tok)
      else if binary \<in> set host_colon then
        (if CHR '':'' \<in> set tok
         then (case host_of (before_char (CHR '':'') tok) of
                 None \<Rightarrow> positional_host binary False toks
               | Some h \<Rightarrow> Some h)
         else positional_host binary False toks)
      else if binary \<in> set fetchers \<and> re_match hostish (before_char (CHR ''/'') tok) = None
      then positional_host binary False toks
      else host_of (before_char (CHR ''/'') tok))"

definition binary_hosts :: "string \<times> rstate \<Rightarrow> string option list" where
  "binary_hosts m =
     (let toks = py_words (takeWhile (\<lambda>c. c \<notin> set ('';|&'' @ nl)) (ahead (snd m)))
      in flag_hosts toks @ [positional_host (py_lower (matched_text m)) False toks])"

definition destination_hosts :: "string \<Rightarrow> string list" where
  "destination_hosts s =
     (let stripped = strip_comments s
      in List.map_filter id
           (map (\<lambda>m. host_of (after_scheme (matched_text m))) (re_finditer url_pattern stripped) @
            concat (map binary_hosts (re_finditer bin_pattern stripped))))"

section \<open>A hole\<close>

text \<open>The deny patterns do not see quoted text, so quoting the name of a program hides it: the
  same recursive delete is denied when it is written plainly and allowlisted when quoted.\<close>

definition in_quotes :: "string \<Rightarrow> string" where
  "in_quotes w = CHR 0x22 # w @ [CHR 0x22]"

lemma quoted_program_is_hidden:
  "fst (evaluate_command ''env rm -rf /'') = Deny"
  "evaluate_command (''env '' @ in_quotes ''rm'' @ '' -rf /'') = (Allow, ''allowlisted command'')"
  by code_simp+

end
