(* ===== verification/Tool_Registry.thy ===== *)
theory Tool_Registry
  imports Command_Policy Capability_Model Effects
begin

text \<open>
  \<^verbatim>\<open>tools/registry.py\<close> and \<^verbatim>\<open>tools/guards.py\<close>: the egress guard, and the executor that checks the
  envelope, consults the guard and dispatches a tool call. Providers (gateway, browser, mail,
  calendar, vision) and the processes behind \<^verbatim>\<open>run_command\<close> act on an outside world; the hook
  that runs after a tool is an operation on it.
\<close>

section \<open>The egress guard\<close>

definition cd_prefix :: regex where
  "cd_prefix =
     seqs [Star space, lit ''cd'', plus space,
           Group 1 (plus (Chr (\<lambda>c. \<not> py_isspace c \<and> c \<notin> set '';&|''))),
           Star space, Alt (lit ''&&'') (lit '';'')]"

definition script_dir :: "string \<Rightarrow> string" where
  "script_dir command =
     (case re_match cd_prefix command of
        None \<Rightarrow> []
      | Some st \<Rightarrow> strip_chars ''/'' (case group_text 1 st of None \<Rightarrow> [] | Some d \<Rightarrow> d) @ ''/'')"

text \<open>The scripts a command runs, as far as they can be read, with the reason found so far.\<close>

fun scan_scripts ::
  "workspace \<Rightarrow> string \<Rightarrow> string list \<Rightarrow> string option \<times> string list \<Rightarrow> string option \<times> string list" where
  "scan_scripts ws dir [] found = found"
| "scan_scripts ws dir (path # paths) (reason, texts) =
     (case ws_read ws (if prefix ''/'' path then path else dir @ path) 200000 of
        Inl _ \<Rightarrow> scan_scripts ws dir paths (reason, texts)
      | Inr content \<Rightarrow>
          scan_scripts ws dir paths
            (if reason = None \<and>
                (network_command_reason content \<noteq> None \<or> code_network_reason content \<noteq> None)
             then Some (''script '' @ path @ '' reaches the network'') else reason,
             texts @ [content]))"

definition network_reason :: "workspace option \<Rightarrow> string \<Rightarrow> string option \<times> string list" where
  "network_reason ws command =
     (case ws of
        None \<Rightarrow> (network_command_reason command, [command])
      | Some w \<Rightarrow>
          scan_scripts w (script_dir command) (script_paths_in command)
            (network_command_reason command, [command]))"

definition blocked :: "string \<Rightarrow> tool_result" where
  "blocked m = \<lparr>observation = m, result_status = BlockedStatus\<rparr>"

definition disallowed_hosts :: "envelope \<Rightarrow> string list \<Rightarrow> string list" where
  "disallowed_hosts env texts =
     sorted_set (filter (\<lambda>h. \<not> egress_host_allowed env h) (destination_hosts (py_join nl texts)))"

text \<open>The hosts of the envelope as a sorted list; the set is finite.\<close>

definition hosts_text :: "envelope \<Rightarrow> string" where
  "hosts_text env = py_join '', '' (sorted_list_of_set (egress_hosts env))"

definition egress_guard ::
  "envelope \<Rightarrow> workspace option \<Rightarrow> string \<Rightarrow> jdict \<Rightarrow> tool_result option" where
  "egress_guard env ws tool args =
     (if tool \<noteq> ''run_command'' then None
      else
        (let command = py_str (dget_or args ''command'' (JStr []));
             (reason, texts) = network_reason ws command
         in case reason of
              None \<Rightarrow> None
            | Some r \<Rightarrow>
                if \<not> egress_allowed env then
                  Some (blocked (''Network access is not permitted by this task ('' @ r @ ''). '' @
                    ''Egress is default-deny; re-publish the task with network access '' @
                    ''enabled if it genuinely needs to reach the internet.''))
                else if egress_hosts env = {} then
                  Some (blocked (''Network authority has no destination allowlist. Re-publish the task '' @
                    ''with explicit egress_hosts; unrestricted egress is not supported.''))
                else
                  (let disallowed = disallowed_hosts env texts
                   in if disallowed = [] then None
                      else Some (blocked (''Egress to '' @ py_join '', '' disallowed @
                        '' is not on this task's allowlist ('' @ hosts_text env @
                        ''). Only the declared hosts are reachable.'')))))"

section \<open>The executor\<close>

definition loop_tools :: "string list" where
  "loop_tools =
     [''write_file'', ''edit_file'', ''read_file'', ''run_command'', ''ask_user'', ''remember'',
      ''spawn'', ''finish'']"

record 'x provider =
  pv_tools :: "string list"
  pv_capability :: "string \<Rightarrow> capability option"
  pv_call :: "string \<Rightarrow> jdict \<Rightarrow> 'x \<Rightarrow> (string + string) \<times> 'x"

text \<open>Where a command runs: on the host, or in a container or pod with or without network and
  the token of the egress proxy.\<close>

datatype run_target =
    OnHost
  | InDocker string bool "string option"
  | InKubernetes string bool "string option"

record 'x executor =
  ex_envelope :: envelope
  ex_before :: "workspace \<Rightarrow> string \<Rightarrow> jdict \<Rightarrow> tool_result option"
  ex_after :: "string \<Rightarrow> jdict \<Rightarrow> tool_result \<Rightarrow> 'x \<Rightarrow> 'x"
  ex_providers :: "'x provider list"
  ex_sandbox_image :: "string option"
  ex_sandbox_backend :: "string option"
  ex_egress_token :: "svc_exc + string"
  ex_spawn :: "run_target \<Rightarrow> string \<Rightarrow> workspace \<Rightarrow> 'x \<Rightarrow> tool_result \<times> workspace \<times> 'x"

type_synonym 'x sandboxed = "workspace \<times> 'x"

definition provider_for :: "'x executor \<Rightarrow> string \<Rightarrow> 'x provider option" where
  "provider_for ex tool = find (\<lambda>p. tool \<in> set (pv_tools p)) (ex_providers ex)"

definition run_target_of :: "'x executor \<Rightarrow> svc_exc + run_target" where
  "run_target_of ex =
     (case ex_sandbox_image ex of
        None \<Rightarrow> Inr OnHost
      | Some img \<Rightarrow>
          (let network = permits_capability (ex_envelope ex) NetShell;
               token = (if network then map_sum id Some (ex_egress_token ex) else Inr None)
           in case token of
                Inl e \<Rightarrow> Inl e
              | Inr tok \<Rightarrow>
                  Inr (if ex_sandbox_backend ex = Some ''kubernetes'' then InKubernetes img network tok
                       else InDocker img network tok)))"

definition run_shell :: "'x executor \<Rightarrow> string \<Rightarrow> ('x sandboxed, tool_result) act" where
  "run_shell ex command s =
     (case evaluate_command command of
        (Deny, reason) \<Rightarrow>
          (Inr (blocked (''Blocked by safety policy ('' @ reason @ ''). Try a safer approach.'')), s)
      | _ \<Rightarrow>
          (case run_target_of ex of
             Inl e \<Rightarrow> (Inl e, s)
           | Inr target \<Rightarrow>
               (case ex_spawn ex target command (fst s) (snd s) of
                  (r, ws, x) \<Rightarrow> (Inr r, (ws, x)))))"

definition error_result :: "string \<Rightarrow> tool_result" where
  "error_result m = \<lparr>observation = m, result_status = ErrorStatus\<rparr>"

definition missing_argument :: "string \<Rightarrow> string \<Rightarrow> tool_result" where
  "missing_argument key tool =
     error_result (''Missing required argument '' @ str_repr key @ '' for tool '' @ str_repr tool)"

text \<open>A workspace operation: a tool error is an observation, an \<^verbatim>\<open>OSError\<close> is raised.\<close>

definition ws_outcome :: "(ws_exc + string) \<times> workspace \<Rightarrow> ('x sandboxed, tool_result) act" where
  "ws_outcome r s =
     (case r of
        (Inr m, ws) \<Rightarrow> (Inr (tool_ok m), (ws, snd s))
      | (Inl (WsTool e), ws) \<Rightarrow>
          (Inr \<lparr>observation = te_message e,
                result_status = (if te_blocked e then BlockedStatus else ErrorStatus)\<rparr>, (ws, snd s))
      | (Inl WsOs, ws) \<Rightarrow> (Inl (OsFailure []), (ws, snd s)))"

text \<open>\<^verbatim>\<open>str(args[key])\<close> for each key in the order of the code; the first one missing ends the call.\<close>

definition with_args ::
  "string \<Rightarrow> jdict \<Rightarrow> string list \<Rightarrow> (string list \<Rightarrow> ('x, tool_result) act) \<Rightarrow> ('x, tool_result) act" where
  "with_args tool args keys f =
     (case find (\<lambda>k. map_of args k = None) keys of
        Some k \<Rightarrow> ret (missing_argument k tool)
      | None \<Rightarrow> f (map (\<lambda>k. py_str (dget args k)) keys))"

definition unknown_tool :: "string \<Rightarrow> tool_result" where
  "unknown_tool tool =
     error_result (''Unknown tool '' @ str_repr tool @ ''. Valid tools: '' @
       py_repr (json_strs (sort loop_tools)))"

definition dispatch ::
  "'x executor \<Rightarrow> 'x provider option \<Rightarrow> string \<Rightarrow> jdict \<Rightarrow> ('x sandboxed, tool_result) act" where
  "dispatch ex provider tool args =
     (if tool = ''write_file'' then
        with_args tool args [''path'']
          (\<lambda>vs s. ws_outcome (ws_write (fst s) (vs ! 0) (py_str (dget_or args ''content'' (JStr [])))) s)
      else if tool = ''edit_file'' then
        with_args tool args [''path'', ''old'', ''new'']
          (\<lambda>vs s. ws_outcome (ws_edit (fst s) (vs ! 0) (vs ! 1) (vs ! 2)) s)
      else if tool = ''read_file'' then
        with_args tool args [''path''] (\<lambda>vs s. ws_outcome (ws_read (fst s) (vs ! 0) 6000, fst s) s)
      else if tool = ''run_command'' then
        with_args tool args [''command''] (\<lambda>vs. run_shell ex (vs ! 0))
      else
        (case provider of
           Some p \<Rightarrow>
             (\<lambda>s. case pv_call p tool args (snd s) of
                    (Inr m, x) \<Rightarrow> (Inr (tool_ok m), (fst s, x))
                  | (Inl exc, x) \<Rightarrow> (Inr (error_result (tool @ '' failed: '' @ exc)), (fst s, x)))
         | None \<Rightarrow> ret (unknown_tool tool)))"

definition not_permitted :: "string \<Rightarrow> tool_result" where
  "not_permitted tool =
     blocked (''Tool '' @ [apos_ch] @ tool @ [apos_ch] @
       '' is not permitted by this task's capability envelope.'')"

definition offered_capability :: "'x executor \<Rightarrow> string \<Rightarrow> capability option" where
  "offered_capability ex tool =
     (case provider_for ex tool of None \<Rightarrow> None | Some p \<Rightarrow> pv_capability p tool)"

definition execute :: "'x executor \<Rightarrow> string \<Rightarrow> jdict \<Rightarrow> ('x sandboxed, tool_result) act" where
  "execute ex tool args s =
     (if \<not> permits (ex_envelope ex) tool (offered_capability ex tool) then (Inr (not_permitted tool), s)
      else
        (case ex_before ex (fst s) tool args of
           Some veto \<Rightarrow> (Inr veto, s)
         | None \<Rightarrow>
             bindE (dispatch ex (provider_for ex tool) tool args)
               (\<lambda>r. thenE (modify (\<lambda>t. (fst t, ex_after ex tool args r (snd t)))) (ret r)) s))"

section \<open>Facts\<close>

definition run_command_arg :: "jdict \<Rightarrow> string" where
  "run_command_arg args = py_str (dget_or args ''command'' (JStr []))"

lemma egress_guard_passes:
  assumes "egress_guard env ws ''run_command'' args = None"
    and "network_reason ws (run_command_arg args) = (Some r, texts)"
  shows "egress_allowed env \<and> egress_hosts env \<noteq> {} \<and> disallowed_hosts env texts = []"
  using assms by (auto simp: egress_guard_def run_command_arg_def Let_def split: if_splits)

lemma egress_guard_blocks: "egress_guard env ws tool args = Some v \<Longrightarrow> \<exists>m. v = blocked m"
  by (auto simp: egress_guard_def Let_def split: if_splits prod.splits option.splits)

lemma disallowed_hosts_Nil:
  "disallowed_hosts env texts = [] \<longleftrightarrow>
     (\<forall>h \<in> set (destination_hosts (py_join nl texts)). egress_host_allowed env h)"
proof -
  have "disallowed_hosts env texts = [] \<longleftrightarrow> set (disallowed_hosts env texts) = {}" by simp
  then show ?thesis unfolding disallowed_hosts_def sorted_set_def set_sort set_remdups by auto
qed

lemma run_command_denied:
  assumes "map_of args ''command'' = Some v" "evaluate_command (py_str v) = (Deny, reason)"
  shows "\<exists>m. dispatch ex provider ''run_command'' args s = (Inr (blocked m), s)"
  using assms by (auto simp: dispatch_def with_args_def run_shell_def dget_def blocked_def)

section \<open>Properties\<close>


definition sample_executor :: "unit executor" where
  "sample_executor =
     \<lparr>ex_envelope = from_tools None True (Some [''ok.com'']),
      ex_before = (\<lambda>ws. egress_guard (from_tools None True (Some [''ok.com''])) (Some ws)),
      ex_after = (\<lambda>_ _ _ x. x), ex_providers = [], ex_sandbox_image = Some ''sandbox'',
      ex_sandbox_backend = Some ''docker'', ex_egress_token = Inr ''token'',
      ex_spawn = (\<lambda>target command ws x. (tool_ok ''exit code 0'', ws, x))\<rparr>"

definition sample_command :: jdict where
  "sample_command = [(''command'', JStr ''curl ok.com'')]"

lemma sample_command_runs:
  "fst (execute sample_executor ''run_command'' sample_command (sample_ws, ())) = Inr (tool_ok ''exit code 0'')"
  by code_simp


end
