(* ===== verification/Authority.thy ===== *)
theory Authority
  imports Hosts Redaction Capability_Model Py_Json
begin

text \<open>
  \<^verbatim>\<open>domain/authority_token.py\<close>: destination hosts and their policies, and the short-lived
  signed tokens that carry a task's authority to an isolated service. What the packages
  \<^verbatim>\<open>encodings.idna\<close> (on names that are not ASCII), \<^verbatim>\<open>ipaddress\<close> (the IANA tables, the
  canonical text of an address), \<^verbatim>\<open>cryptography\<close> and \<^verbatim>\<open>jwt\<close> do is an argument.
\<close>

section \<open>Hosts\<close>

record host_lib =
  hl_idna :: "string \<Rightarrow> string option"
  hl_global :: "ip \<Rightarrow> bool"
  hl_compressed :: "ip \<Rightarrow> string"

definition ascii :: "string \<Rightarrow> bool" where
  "ascii s = list_all (\<lambda>c. ord_of c < 128) s"

text \<open>\<^verbatim>\<open>raw.encode("idna").decode("ascii")\<close>; an ASCII name is only checked label by label.\<close>

definition encode_idna :: "host_lib \<Rightarrow> string \<Rightarrow> string option" where
  "encode_idna lib raw =
     (if \<not> ascii raw then hl_idna lib raw
      else
        (let labels = split_char (CHR ''.'') raw
         in if list_all (\<lambda>l. l \<noteq> [] \<and> length l < 64) (butlast labels) \<and> length (last labels) < 64
            then Some raw else None))"

definition label_char :: "char \<Rightarrow> bool" where
  "label_char c = (py_islower c \<or> py_isdigit c)"

definition host_label :: regex where
  "host_label =
     seqs [Chr label_char,
           opt (Cat (at_most 61 (Chr (\<lambda>c. label_char c \<or> c = CHR ''-''))) (Chr label_char))]"

definition invalid_host :: "string \<Rightarrow> string" where
  "invalid_host host = ''Invalid egress host '' @ str_repr host"

definition dns_name :: "host_lib \<Rightarrow> string \<Rightarrow> string \<Rightarrow> string + string" where
  "dns_name lib host raw =
     (case encode_idna lib raw of
        None \<Rightarrow> Inl (invalid_host host)
      | Some name \<Rightarrow>
          (let labels = split_char (CHR ''.'') name in
           if 253 < length name \<or> \<not> list_all (re_fullmatch host_label) labels
           then Inl (invalid_host host)
           else if length labels < 2 \<or> name = ''localhost''
           then Inl (''Egress host must be a public DNS name: '' @ str_repr host)
           else Inr name))"

text \<open>The error is the text of the \<^verbatim>\<open>AuthorityTokenError\<close>.\<close>

definition normalize_host :: "host_lib \<Rightarrow> string \<Rightarrow> string + string" where
  "normalize_host lib host =
     (let raw0 = rstrip_chars ''.'' (py_lower (py_strip host));
          raw = (if prefix ''['' raw0 \<and> suffix '']'' raw0 then butlast (tl raw0) else raw0)
      in if raw0 = [] \<or> py_contains ''://'' raw0 \<or> list_ex (\<lambda>c. c \<in> set ''/?#@*'') raw0
         then Inl (invalid_host host)
         else
           (case ip_address raw of
              None \<Rightarrow> dns_name lib host raw
            | Some a \<Rightarrow>
                if hl_global lib a then Inr (hl_compressed lib a)
                else Inl (''Egress IP must be globally routable: '' @ str_repr host)))"

fun normalize_hosts :: "host_lib \<Rightarrow> string list \<Rightarrow> string + string list" where
  "normalize_hosts lib [] = Inr []"
| "normalize_hosts lib (h # hs) =
     (case normalize_host lib h of
        Inl e \<Rightarrow> Inl e
      | Inr n \<Rightarrow> map_sum id ((#) n) (normalize_hosts lib hs))"

text \<open>The meet of two policies: the narrower host of every pair that is nested.\<close>

definition meet_hosts :: "string \<Rightarrow> string \<Rightarrow> string list" where
  "meet_hosts requested ceiling =
     (if host_matches requested ceiling then [requested]
      else if suffix (CHR ''.'' # requested) ceiling then [ceiling] else [])"

definition intersect_host_policies ::
  "host_lib \<Rightarrow> string list \<Rightarrow> string list \<Rightarrow> string + string list" where
  "intersect_host_policies lib requested ceiling =
     (case normalize_hosts lib requested of
        Inl e \<Rightarrow> Inl e
      | Inr rs \<Rightarrow>
          (case normalize_hosts lib ceiling of
             Inl e \<Rightarrow> Inl e
           | Inr cs \<Rightarrow> Inr (concat (map (\<lambda>r. concat (map (meet_hosts r) cs)) rs))))"

lemma suffix_Cons_same: "suffix (x # a) (x # b) \<longleftrightarrow> a = b \<or> suffix (x # a) b"
  by (auto simp: suffix_Cons)

lemma host_matches_trans: "host_matches a b \<Longrightarrow> host_matches b c \<Longrightarrow> host_matches a c"
  unfolding host_matches_def by (metis suffix_ConsD suffix_order.trans)

lemma host_matches_nested:
  assumes "host_matches h r" "host_matches h c"
  shows "host_matches r c \<or> host_matches c r"
proof (cases "h = r \<or> h = c")
  case True
  with assms show ?thesis by auto
next
  case False
  then have "suffix (CHR ''.'' # r) h" "suffix (CHR ''.'' # c) h"
    using assms by (auto simp: host_matches_def)
  then have "suffix (CHR ''.'' # r) (CHR ''.'' # c) \<or> suffix (CHR ''.'' # c) (CHR ''.'' # r)"
    by (rule suffix_same_cases)
  then show ?thesis unfolding suffix_Cons_same host_matches_def by blast
qed

text \<open>A host is reachable under a policy when an entry matches it.\<close>

definition reachable :: "string list \<Rightarrow> string \<Rightarrow> bool" where
  "reachable policy host = (\<exists>a \<in> set policy. host_matches host a)"

lemma meet_hosts_exact:
  "(\<exists>m \<in> set (meet_hosts r c). host_matches h m) \<longleftrightarrow> host_matches h r \<and> host_matches h c"
proof (cases "host_matches r c")
  case True
  then show ?thesis using host_matches_trans by (auto simp: meet_hosts_def)
next
  case False
  have "host_matches c r \<longleftrightarrow> suffix (CHR ''.'' # r) c"
    using False by (auto simp: host_matches_def)
  then show ?thesis
    using False host_matches_trans [of h c r] host_matches_nested [of h r c]
    by (auto simp: meet_hosts_def)
qed

lemma intersect_exact:
  assumes "intersect_host_policies lib requested ceiling = Inr hs"
    "normalize_hosts lib requested = Inr rs" "normalize_hosts lib ceiling = Inr cs"
  shows "reachable hs h \<longleftrightarrow> reachable rs h \<and> reachable cs h"
proof -
  have "set hs = (\<Union>r \<in> set rs. \<Union>c \<in> set cs. set (meet_hosts r c))"
    using assms by (simp add: intersect_host_policies_def) (drule sym, simp)
  then have "reachable hs h \<longleftrightarrow>
      (\<exists>r \<in> set rs. \<exists>c \<in> set cs. \<exists>m \<in> set (meet_hosts r c). host_matches h m)"
    by (auto simp: reachable_def)
  then show ?thesis unfolding meet_hosts_exact reachable_def by blast
qed

end
