(* ===== verification/Agent_Base.thy ===== *)
theory Agent_Base
  imports Loop_Services Receipt Product_Session Task_Store Tool_Registry Authority
begin

text \<open>
  \<^verbatim>\<open>services/agent_react.py\<close>, the state of a run and the helpers every phase uses: transitions,
  the operation journal, recorded steps, working memory, stops and receipts. A run owns one
  task row and its steps; \<open>ag_saved\<close> is what the last commit wrote. Models, tools, checks and
  other sessions are the operations of \<open>agent_env\<close> on an outside world. The message of
  Python's own exceptions and of a refused transition is not modelled (it is empty).
\<close>

section \<open>State and environment\<close>

record 'w agent =
  ag_task :: task
  ag_log :: "step list"
  ag_saved :: "task \<times> step list"
  ag_history :: "history_entry list"
  ag_head :: string
  ag_memory :: string
  ag_notice :: string
  ag_ws :: workspace
  ag_world :: 'w

type_synonym ('w, 'a) agent_act = "('w agent, 'a) act"

record llm_result =
  lr_content :: string
  lr_provider :: string
  lr_model :: string
  lr_tokens :: int

record llm_failure =
  lf_message :: string
  lf_tokens_spent :: int
  lf_budget_exhausted :: bool

text \<open>What the prompts are rendered from; a model sees nothing else.\<close>

record plan_request =
  pr_goal :: string
  pr_rubric :: "string list"
  pr_tree :: string
  pr_history :: string
  pr_steps_left :: int
  pr_budget :: int
  pr_tools :: "string list option"
  pr_egress :: bool
  pr_memory :: string
  pr_conversation :: string
  pr_notices :: string
  pr_allow_spawn :: bool
  pr_progress :: string
  pr_verification_mode :: string
  pr_required_checks :: string

record verify_request =
  vr_goal :: string
  vr_rubric :: "string list"
  vr_summary :: string
  vr_tree :: string
  vr_checks :: string
  vr_contents :: string
  vr_budget :: int

type_synonym 'w model = "'w \<Rightarrow> (llm_failure + llm_result) \<times> 'w"

text \<open>
  \<open>ae_refresh\<close> is the row as the database has it when it is read again; \<open>ae_execute\<close> is the
  executor of the run: it may see what is committed and append to the authority audit of the row; \<open>ae_checks\<close> gives
  the environment of each completion check; \<open>ae_child\<close> runs a delegated task and returns its
  final row and workspace; \<open>ae_copytree\<close> copies it (and says whether that worked).
\<close>

record ('w, 'k, 'p) agent_env =
  ae_settings :: settings
  ae_hosts :: host_lib
  ae_crypto :: "('k, 'p) crypto"
  ae_read_text :: "string \<Rightarrow> string option"
  ae_info :: "'w \<Rightarrow> run_info"
  ae_snapshot :: "'w \<Rightarrow> task \<Rightarrow> workspace \<Rightarrow> svc_exc + snapshot option"
  ae_ws_is_dir :: "'w \<Rightarrow> string \<Rightarrow> bool"
  ae_mtime :: "'w \<Rightarrow> string \<Rightarrow> int"
  ae_uuid :: "'w \<Rightarrow> string \<times> 'w"
  ae_refresh :: "'w \<Rightarrow> task \<Rightarrow> task \<times> 'w"
  ae_envelope :: envelope
  ae_dynamic_tools :: "string set"
  ae_specs :: string
  ae_conversation :: string
  ae_notices :: string
  ae_understand :: "string \<Rightarrow> int \<Rightarrow> 'w model"
  ae_plan :: "plan_request \<Rightarrow> 'w model"
  ae_verify :: "verify_request \<Rightarrow> 'w model"
  ae_execute :: "task \<times> step list \<Rightarrow> task \<Rightarrow> string \<Rightarrow> jdict \<Rightarrow> ((jdict list \<times> 'w) sandboxed, tool_result) act"
  ae_checks :: "envelope \<Rightarrow> workspace \<Rightarrow> 'w \<Rightarrow> (nat \<Rightarrow> check_env) \<times> 'w"
  ae_remember :: "string \<Rightarrow> string option \<Rightarrow> 'w \<Rightarrow> string \<times> 'w"
  ae_child :: "task \<Rightarrow> 'w \<Rightarrow> (task \<times> workspace option) \<times> 'w"
  ae_copytree :: "workspace \<Rightarrow> string \<Rightarrow> workspace \<Rightarrow> bool \<times> workspace"

section \<open>The row\<close>

definition on_task :: "(task \<Rightarrow> task) \<Rightarrow> ('w, unit) agent_act" where
  "on_task f = modify (\<lambda>s. s\<lparr>ag_task := f (ag_task s)\<rparr>)"

definition ag_commit :: "('w, unit) agent_act" where
  "ag_commit = modify (\<lambda>s. s\<lparr>ag_saved := (ag_task s, ag_log s)\<rparr>)"

definition outside :: "('w \<Rightarrow> 'a \<times> 'w) \<Rightarrow> ('w, 'a) agent_act" where
  "outside f s = (case f (ag_world s) of (a, w) \<Rightarrow> (Inr a, s\<lparr>ag_world := w\<rparr>))"

definition refresh_task :: "('w, 'k, 'p) agent_env \<Rightarrow> ('w, unit) agent_act" where
  "refresh_task env s =
     (case ae_refresh env (ag_world s) (ag_task s) of
        (t, w) \<Rightarrow> (Inr (), s\<lparr>ag_task := t, ag_world := w\<rparr>))"

definition transition_to :: "loop_event \<Rightarrow> string \<Rightarrow> stop_reason option \<Rightarrow> ('w, unit) agent_act" where
  "transition_to ev reason sr s =
     (case apply_event (ag_task s) ev reason sr of
        Inl e \<Rightarrow> (Inl LoopError, s)
      | Inr (t, _) \<Rightarrow> (Inr (), s\<lparr>ag_task := t\<rparr>))"

definition fail_task :: "string \<Rightarrow> string \<Rightarrow> ('w, unit) agent_act" where
  "fail_task msg reason =
     thenE (transition_to Fail reason None) (on_task (\<lambda>t. t\<lparr>run_error := Some (take 1000 msg)\<rparr>))"

section \<open>Journal and steps\<close>

definition journal_entry :: "string \<Rightarrow> int \<Rightarrow> string \<Rightarrow> string \<Rightarrow> jdict \<Rightarrow> int \<Rightarrow> jdict" where
  "journal_entry operation_id number thought tool args tokens =
     [(''schema'', JStr ''loop.operation/v1''), (''id'', JStr operation_id),
      (''step'', JInt number), (''thought'', JStr thought), (''tool'', JStr tool),
      (''args'', JObj args), (''tokens'', JInt tokens)]"

definition execution_args :: "string \<Rightarrow> string \<Rightarrow> jdict \<Rightarrow> jdict" where
  "execution_args operation_id tool args =
     (if tool \<in> {''send_email'', ''create_event''}
      then dset ''operation_id'' (JStr operation_id) args else args)"

definition begin_operation ::
  "('w, 'k, 'p) agent_env \<Rightarrow> int \<Rightarrow> string \<Rightarrow> string \<Rightarrow> jdict \<Rightarrow> int \<Rightarrow> ('w, jdict) agent_act" where
  "begin_operation env number thought tool args tokens =
     bindE (outside (ae_uuid env)) (\<lambda>i.
       thenE (on_task (\<lambda>t. t\<lparr>operation_journal :=
                Some (journal_entry i number thought tool (execution_args i tool args) tokens)\<rparr>))
       (thenE ag_commit (ret (execution_args i tool args))))"

definition model_identity :: "llm_result \<Rightarrow> jdict" where
  "model_identity r = [(''provider'', JStr (lr_provider r)), (''model'', JStr (lr_model r))]"

definition record_model_use :: "bool \<Rightarrow> llm_result \<Rightarrow> task \<Rightarrow> task" where
  "record_model_use verifier r t =
     (if verifier then t\<lparr>verifier_model := Some (model_identity r)\<rparr>
      else if model_identity r \<in> set (executor_models t) then t
      else t\<lparr>executor_models := executor_models t @ [model_identity r]\<rparr>)"

definition record_step ::
  "('w, 'k, 'p) agent_env \<Rightarrow> int \<Rightarrow> string \<Rightarrow> string \<Rightarrow> jdict \<Rightarrow> string \<Rightarrow> tool_status \<Rightarrow> int \<Rightarrow>
     ('w, unit) agent_act" where
  "record_step env number thought tool args obs st tokens s =
     (let obs' = (if agent_redact_secrets (ae_settings env) then redact_secrets obs else obs);
          sealed = new_step (ag_head s) number thought tool args obs' (tool_status_value st) tokens;
          t = (ag_task s)\<lparr>operation_journal := None, steps_used := number,
                tokens_used := tokens_used (ag_task s) + tokens\<rparr>;
          log = ag_log s @ [sealed]
      in (Inr (), s\<lparr>ag_task := t, ag_log := log, ag_saved := (t, log), ag_head := st_hash sealed,
            ag_history := ag_history s @
              [\<lparr>he_number = number, he_thought = thought, he_tool = tool, he_args = args,
                he_observation = obs', he_status = st\<rparr>]\<rparr>))"

definition history_entry_of :: "step \<Rightarrow> history_entry option" where
  "history_entry_of x =
     map_option (\<lambda>st. \<lparr>he_number = st_number x, he_thought = st_thought x, he_tool = st_tool x,
         he_args = st_tool_args x, he_observation = st_observation x, he_status = st\<rparr>)
       (tool_status_of (st_status x))"

text \<open>\<^verbatim>\<open>ToolStatus(s.status)\<close> raises \<^verbatim>\<open>ValueError\<close> on an unknown status; the head is then unset.\<close>

definition rebuild_history :: "('w, unit) agent_act" where
  "rebuild_history s =
     (case all_some (map history_entry_of (ag_log s)) of
        None \<Rightarrow> (Inl (PyRaise ValueError), s)
      | Some hs \<Rightarrow>
          (Inr (), s\<lparr>ag_history := hs, ag_head := ledger_head (task_id (ag_task s)) (ag_log s)\<rparr>))"

definition required_checks_view :: "jdict list \<Rightarrow> string" where
  "required_checks_view checks =
     py_join nl
       (map (\<lambda>c.
          ''- '' @ py_str (dget_or c ''id'' (JStr ''check'')) @ '' ['' @
          py_str (dget_or c ''source'' (JStr ''contract'')) @ ''] '' @
          py_str (dget_or c ''kind'' (JStr ''unknown'')) @ '': '' @
          py_str (or_json (dget c ''command'') (or_json (dget c ''path'') (JStr ''(unknown)'')))) checks)"

section \<open>Stops and receipts\<close>

fun stop_summary :: "task \<Rightarrow> stop_reason \<Rightarrow> string" where
  "stop_summary t MaxSteps =
     ''Stopped at the step limit ('' @ show_int (steps_used t) @ ''/'' @ show_int (max_steps t) @
     '') without a verified result. Any partial work is in the output files '' @ em_dash @
     '' retry with a higher step limit if the goal needs more room.''"
| "stop_summary t BudgetExhausted =
     ''Stopped because the remaining token budget could not safely fund another '' @
     ''plan and final verification ('' @ show_int (tokens_used t) @ ''/'' @ show_int (token_budget t) @
     '' used). Retry with a higher token budget if the goal needs more.''"
| "stop_summary t Stuck =
     ''Stopped after repeated actions produced no workspace change or new evidence. '' @
     ''Check the steps for the recurring branch before retrying.''"
| "stop_summary t CancelledByUser = ''Cancelled before reaching a verified result.''"
| "stop_summary t _ = ''Stopped without a verified result.''"

definition with_summary :: "stop_reason \<Rightarrow> task \<Rightarrow> task" where
  "with_summary reason t =
     (if nonempty_opt (run_summary t) then t else t\<lparr>run_summary := Some (stop_summary t reason)\<rparr>)"

definition make_receipt ::
  "('w, 'k, 'p) agent_env \<Rightarrow> check_result list \<Rightarrow> int \<Rightarrow> string \<Rightarrow> ('w, string) agent_act" where
  "make_receipt env results score verified s =
     (case ae_snapshot env (ag_world s) (ag_task s) (ag_ws s) of
        Inl e \<Rightarrow> (Inl e, s)
      | Inr sn \<Rightarrow>
          (case build_receipt (ae_crypto env)
                  (signing_key (ae_crypto env) (ae_read_text env) (ae_settings env))
                  (ae_settings env) (ae_info env (ag_world s)) sn (ag_task s) results score verified
                  (ag_head s) (ag_ws s) of
             (Inl (WsTool e), ws) \<Rightarrow> (Inl (ToolErrorRaised (te_message e)), s\<lparr>ag_ws := ws\<rparr>)
           | (Inl WsOs, ws) \<Rightarrow> (Inl (OsFailure []), s\<lparr>ag_ws := ws\<rparr>)
           | (Inr (h, _), ws) \<Rightarrow> (Inr h, s\<lparr>ag_ws := ws\<rparr>)))"

definition set_receipt :: "string \<Rightarrow> task \<Rightarrow> task" where
  "set_receipt h t = t\<lparr>receipt_hash := Some h, receipt_schema := Some receipt_schema_name\<rparr>"

definition ensure_unverified_receipt :: "('w, 'k, 'p) agent_env \<Rightarrow> ('w, unit) agent_act" where
  "ensure_unverified_receipt env s =
     (if nonempty_opt (receipt_hash (ag_task s)) \<or> \<not> nonempty_opt (workspace_path (ag_task s)) \<or>
         \<not> ae_ws_is_dir env (ag_world s) (the (workspace_path (ag_task s)))
      then (Inr (), s)
      else catchE
             (bindE (make_receipt env [] (verification_score (ag_task s)) ''unverified'')
               (\<lambda>h. on_task (set_receipt h)))
             (\<lambda>_. ret ()) s)"

definition finish_run :: "('w, 'k, 'p) agent_env \<Rightarrow> stop_reason \<Rightarrow> ('w, unit) agent_act" where
  "finish_run env reason =
     (if reason = GoalAchieved
      then thenE (transition_to VerificationAccepted ''verification_accepted'' None) ag_commit
      else seqE
        [transition_to LimitReached (''bounded_stop:'' @ stop_value reason) (Some reason),
         on_task (with_summary reason), ensure_unverified_receipt env, ag_commit])"

text \<open>What the loop does when it finds the task cancelled.\<close>

definition cancelled_exit :: "('w, 'k, 'p) agent_env \<Rightarrow> ('w, unit) agent_act" where
  "cancelled_exit env =
     seqE
       [on_task (\<lambda>t. with_summary CancelledByUser (t\<lparr>stop_reason := Some (stop_value CancelledByUser)\<rparr>)),
        ensure_unverified_receipt env, ag_commit]"

end
