(* ===== verification/Agent_Phases.thy ===== *)
theory Agent_Phases
  imports Agent_Base
begin

text \<open>
  \<^verbatim>\<open>services/agent_react.py\<close>, the phases of a run: reading a rubric out of a reply, pausing for
  the user, delegating to a child task, completion checks and the handling of a finish.
\<close>

definition py_ok :: "'a result \<Rightarrow> ('w, 'a) agent_act" where
  "py_ok r = liftR (map_sum PyRaise id r)"

definition with_task :: "(task \<Rightarrow> ('w, 'a) agent_act) \<Rightarrow> ('w, 'a) agent_act" where
  "with_task f = bindE (gets ag_task) f"

section \<open>The rubric\<close>

definition generic_rubric :: "string list" where
  "generic_rubric = [''Fully and correctly satisfies the task'']"

definition rubric_items :: "json list \<Rightarrow> string list" where
  "rubric_items cs = take 6 (filter (\<lambda>c. c \<noteq> []) (map (\<lambda>c. py_strip (py_str c)) cs))"

definition rubric_lines :: "string \<Rightarrow> string list" where
  "rubric_lines content =
     take 6 (map (\<lambda>l. py_strip (strip_chars ''-* '' l))
       (filter (\<lambda>l. py_strip l \<noteq> []) (py_splitlines content)))"

definition rubric_of :: "string \<Rightarrow> string list" where
  "rubric_of content =
     (let rubric =
        (case extract_json content of
           JObj d \<Rightarrow> (case dget d ''criteria'' of JArr cs \<Rightarrow> rubric_items cs | _ \<Rightarrow> rubric_lines content)
         | JArr cs \<Rightarrow> rubric_items cs
         | _ \<Rightarrow> rubric_lines content)
      in if rubric = [] then generic_rubric else rubric)"

section \<open>Pauses\<close>

definition pause_for_user ::
  "('w, 'k, 'p) agent_env \<Rightarrow> jdict \<Rightarrow> string \<Rightarrow> int \<Rightarrow> int \<Rightarrow> ('w, unit) agent_act" where
  "pause_for_user env args thought number tokens =
     (let asked = py_strip (py_str (dget_or args ''question'' (JStr [])));
          question = (if asked = [] then ''(the agent asked a question)'' else asked)
      in seqE
        [record_step env number thought ''ask_user'' [(''question'', JStr question)]
           ''Waiting for the user's answer.'' OkStatus tokens,
         on_task (\<lambda>t. t\<lparr>pending_question := Some question\<rparr>),
         transition_to InputRequired ''agent_requested_input'' None, ag_commit])"

definition pause_for_action ::
  "('w, 'k, 'p) agent_env \<Rightarrow> string \<Rightarrow> jdict \<Rightarrow> string \<Rightarrow> int \<Rightarrow> int \<Rightarrow> string \<Rightarrow>
     ('w, unit) agent_act" where
  "pause_for_action env tool args thought number tokens what =
     seqE
       [record_step env number thought tool args
          (''Paused '' @ em_dash @ '' needs your approval to '' @ what @ ''.'') BlockedStatus tokens,
        on_task (\<lambda>t. t\<lparr>pending_action := Some [(''tool'', JStr tool), (''args'', JObj args)],
          pending_question := Some (''Approve this action? Answer yes or no.'' @ nl @ ''  '' @ what)\<rparr>),
        transition_to ApprovalRequired (''approval_required:'' @ tool) None, ag_commit]"

definition pause_for_approval ::
  "('w, 'k, 'p) agent_env \<Rightarrow> jdict \<Rightarrow> string \<Rightarrow> int \<Rightarrow> int \<Rightarrow> string \<Rightarrow> ('w, unit) agent_act" where
  "pause_for_approval env args thought number tokens reason =
     pause_for_action env ''run_command'' args thought number tokens
       (''run: '' @ py_strip (py_str (dget_or args ''command'' (JStr []))) @
        '' (reason: '' @ reason @ '')'')"

definition email_request :: "jdict \<Rightarrow> string" where
  "email_request args =
     ''send an email to '' @ py_strip (py_str (dget_or args ''to'' (JStr []))) @ '' (subject: '' @
     str_repr (py_strip (py_str (dget_or args ''subject'' (JStr [])))) @ '')''"

definition event_request :: "jdict \<Rightarrow> string" where
  "event_request args =
     ''add a calendar event '' @ str_repr (py_strip (py_str (dget_or args ''summary'' (JStr [])))) @
     '' at '' @ py_str (dget_or args ''start'' (JStr ''?''))"

section \<open>Delegation\<close>

definition recorded ::
  "('w, 'k, 'p) agent_env \<Rightarrow> string \<Rightarrow> int \<Rightarrow> string \<Rightarrow> string \<Rightarrow> jdict \<Rightarrow> string \<Rightarrow>
     tool_status \<Rightarrow> int \<Rightarrow> ('w, unit) agent_act" where
  "recorded env reason number thought tool args obs st tokens =
     thenE (transition_to ActionRecorded reason None)
       (record_step env number thought tool args obs st tokens)"

definition policy_of :: "settings \<Rightarrow> delegation_policy" where
  "policy_of c = \<lparr>dp_minimum_budget = 1000, dp_default_steps = agent_max_steps_default c,
     dp_max_steps = agent_max_steps_cap c\<rparr>"

definition listed_tools :: "jdict \<Rightarrow> json list option" where
  "listed_tools args = (case dget args ''allowed_tools'' of JArr vs \<Rightarrow> Some vs | _ \<Rightarrow> None)"

text \<open>An unhashable entry makes the lookup of its capabilities raise \<^verbatim>\<open>TypeError\<close>.\<close>

definition unhashable :: "json \<Rightarrow> bool" where
  "unhashable v = (case v of JArr _ \<Rightarrow> True | JObj _ \<Rightarrow> True | _ \<Rightarrow> False)"

definition child_requested :: "jdict \<Rightarrow> capability set result" where
  "child_requested args =
     (let flag = (\<lambda>k. truthy (dget args k)) in
      case dget args ''capabilities'' of
        JArr vs \<Rightarrow> (case parse_capabilities (map py_str vs) of Inl e \<Rightarrow> Inr {} | Inr cs \<Rightarrow> Inr cs)
      | _ \<Rightarrow>
          (if (case listed_tools args of None \<Rightarrow> False | Some vs \<Rightarrow> list_ex unhashable vs)
           then Inl TypeError
           else Inr (legacy_capabilities (map_option (map py_str) (listed_tools args))
                  (flag ''allow_egress'') (flag ''use_browser'') (flag ''use_email'')
                  (flag ''use_calendar'') (flag ''use_vision''))))"

definition or_empty :: "string list option \<Rightarrow> string list" where
  "or_empty xs = (case xs of None \<Rightarrow> [] | Some hs \<Rightarrow> hs)"

definition child_hosts :: "host_lib \<Rightarrow> task \<Rightarrow> jdict \<Rightarrow> string list" where
  "child_hosts lib t args =
     (let asked = (case dget args ''egress_hosts'' of JArr vs \<Rightarrow> map py_str vs | _ \<Rightarrow> []);
          hosts = (case normalize_hosts lib asked of Inl e \<Rightarrow> [] | Inr hs \<Rightarrow> hs)
      in sorted_set (filter (\<lambda>h. list_ex (host_matches h) (or_empty (task_egress_hosts t))) hosts))"

definition child_row ::
  "string \<Rightarrow> task \<Rightarrow> string \<Rightarrow> allocation \<Rightarrow> capability set \<Rightarrow> string list \<Rightarrow> json list option \<Rightarrow> task" where
  "child_row i t child_goal al caps hosts tools =
     (fresh_task i)\<lparr>goal := child_goal, owner_id := owner_id t, project_id := project_id t,
       requested_capabilities := Some (sorted_capabilities caps),
       allowed_tool_names := map_option (map py_str) tools,
       allow_egress := (NetShell \<in> caps),
       task_egress_hosts := (if hosts = [] then None else Some hosts),
       require_approval := require_approval t, use_browser := (NetBrowser \<in> caps),
       parent_id := Some (task_id t), task_depth := task_depth t + 1,
       max_steps := al_max_steps al, token_budget := al_token_budget al\<rparr>"

definition opt_text :: "string option \<Rightarrow> string" where
  "opt_text x = (case x of None \<Rightarrow> ''None'' | Some v \<Rightarrow> v)"

definition child_succeeded :: "task \<Rightarrow> bool" where
  "child_succeeded child =
     (status child = status_value CompletedStatus \<and> stop_reason child = Some (stop_value GoalAchieved))"

definition child_report :: "string \<Rightarrow> task \<Rightarrow> string option \<Rightarrow> string" where
  "child_report child_goal child where_to =
     ''Sub-agent for '' @ [apos_ch] @ take 60 child_goal @ [apos_ch] @ '' finished: status='' @
     status child @ '', stop='' @ opt_text (stop_reason child) @ '', verified_by='' @
     opt_text (verified_by child) @ '', score='' @ show_int (verification_score child) @ ''.'' @ nl @
     ''Summary: '' @ (if nonempty_opt (run_summary child) then the (run_summary child) else ''(none)'') @
     ''.'' @ (case where_to of None \<Rightarrow> [] | Some d \<Rightarrow> nl @ ''Its output files are in '' @ d @ ''/.'')"

definition collect_ignore :: string where
  "collect_ignore = ''collect_ignore_glob = ['' @ [CHR 0x22] @ ''*'' @ [CHR 0x22] @ '']'' @ nl"

text \<open>The child's files are archived below \<^verbatim>\<open>subtasks/\<close>, with a \<^verbatim>\<open>conftest.py\<close> that keeps pytest out.\<close>

definition copy_subtask_outputs ::
  "('w, 'k, 'p) agent_env \<Rightarrow> task \<Rightarrow> workspace option \<Rightarrow> ('w, string option) agent_act" where
  "copy_subtask_outputs env child child_ws s =
     (case child_ws of
        None \<Rightarrow> (Inr None, s)
      | Some src \<Rightarrow>
          if \<not> nonempty_opt (workspace_path (ag_task s)) \<or> \<not> nonempty_opt (workspace_path child)
          then (Inr None, s)
          else
            (let dest = ''subtasks/'' @ take 8 (task_id child);
                 (ok, ws) = ae_copytree env src dest (ag_ws s);
                 conftest = join_path (ws_root ws) ''subtasks/conftest.py''
             in if \<not> ok then (Inr None, s\<lparr>ag_ws := ws\<rparr>)
                else (Inr (Some dest),
                      s\<lparr>ag_ws := (if ws_is_file ws conftest \<or> ws_is_dir ws conftest then ws
                                  else store_file ws conftest collect_ignore)\<rparr>)))"

definition run_child ::
  "('w, 'k, 'p) agent_env \<Rightarrow> string \<Rightarrow> allocation \<Rightarrow> capability set \<Rightarrow> string list \<Rightarrow> jdict \<Rightarrow>
     string \<Rightarrow> int \<Rightarrow> int \<Rightarrow> ('w, unit) agent_act" where
  "run_child env child_goal al caps hosts args thought number tokens =
     bindE (outside (ae_uuid env)) (\<lambda>i.
     with_task (\<lambda>t.
     thenE ag_commit
     (bindE (outside (ae_child env (child_row i t child_goal al caps hosts (listed_tools args)))) (\<lambda>(child, ws).
     thenE (on_task (\<lambda>t. t\<lparr>tokens_used := tokens_used t + tokens_used child\<rparr>))
     (bindE (copy_subtask_outputs env child ws) (\<lambda>where_to.
        recorded env ''action_recorded:spawn'' number thought ''spawn'' args
          (child_report child_goal child where_to)
          (if child_succeeded child then OkStatus else ErrorStatus) tokens))))))"

definition spawn_remaining :: "task \<Rightarrow> int \<Rightarrow> int" where
  "spawn_remaining t plan_tokens = max 0 (token_budget t - tokens_used t - plan_tokens)"

definition egress_missing :: "capability set \<Rightarrow> string list \<Rightarrow> bool" where
  "egress_missing caps hosts = (caps \<inter> {NetShell, NetBrowser} \<noteq> {} \<and> hosts = [])"

definition spawn_allocated ::
  "('w, 'k, 'p) agent_env \<Rightarrow> string \<Rightarrow> allocation \<Rightarrow> jdict \<Rightarrow> string \<Rightarrow> int \<Rightarrow> int \<Rightarrow>
     ('w, unit) agent_act" where
  "spawn_allocated env child_goal al args thought number tokens =
     bindE (py_ok (child_requested args)) (\<lambda>requested.
     with_task (\<lambda>t.
     bindE (py_ok (parse_capabilities (resolved_capabilities t))) (\<lambda>granted.
       let caps = requested \<inter> granted; hosts = child_hosts (ae_hosts env) t args
       in if egress_missing caps hosts then
            recorded env ''action_blocked:spawn_egress'' number thought ''spawn'' args
              (''Blocked: a networked sub-agent requires egress_hosts within the '' @
               ''parent task's destination allowlist.'') BlockedStatus tokens
          else run_child env child_goal al caps hosts args thought number tokens)))"

definition handle_spawn ::
  "('w, 'k, 'p) agent_env \<Rightarrow> jdict \<Rightarrow> string \<Rightarrow> int \<Rightarrow> int \<Rightarrow> ('w, unit) agent_act" where
  "handle_spawn env args thought number plan_tokens =
     with_task (\<lambda>t.
       let child_goal = py_strip (py_str (dget_or args ''goal'' (JStr [])));
           remaining = spawn_remaining t plan_tokens
       in if agent_max_spawn_depth (ae_settings env) \<le> task_depth t then
            recorded env ''action_blocked:spawn_depth'' number thought ''spawn'' args
              (''Blocked: sub-agent depth limit ('' @ show_int (agent_max_spawn_depth (ae_settings env)) @
               '') reached. Do this part yourself.'') BlockedStatus plan_tokens
          else if length child_goal < 4 then
            recorded env ''action_failed:spawn_goal'' number thought ''spawn'' args
              (''spawn needs a '' @ [apos_ch] @ ''goal'' @ [apos_ch] @ '' describing the sub-task.'')
              ErrorStatus plan_tokens
          else
            bindE (py_ok (allocate_child (policy_of (ae_settings env)) args remaining)) (\<lambda>al.
              case al of
                None \<Rightarrow>
                  recorded env ''action_blocked:spawn_budget'' number thought ''spawn'' args
                    (''Blocked: only '' @ show_int remaining @ '' tokens left '' @ em_dash @
                     '' not enough to delegate. Do this part yourself.'') BlockedStatus plan_tokens
              | Some a \<Rightarrow> spawn_allocated env child_goal a args thought number plan_tokens))"

section \<open>Completion checks\<close>

definition criteria_count :: "task \<Rightarrow> nat" where
  "criteria_count t = length (rubric t)"

definition run_completion_checks ::
  "('w, 'k, 'p) agent_env \<Rightarrow> jdict list \<Rightarrow> ('w, check_result list) agent_act" where
  "run_completion_checks env checks =
     with_task (\<lambda>t.
     bindE (py_ok (from_capability_values (resolved_capabilities t) (task_egress_hosts t))) (\<lambda>envl.
     bindE (gets ag_ws) (\<lambda>ws.
     bindE (outside (ae_checks env envl ws)) (\<lambda>ce.
       py_ok (run_checks (verification_mode t \<noteq> ''strict'') (criteria_count t) ce checks)))))"

definition contract_evidence_status ::
  "('w, 'k, 'p) agent_env \<Rightarrow> ('w, bool \<times> string) agent_act" where
  "contract_evidence_status env =
     with_task (\<lambda>t.
       let contract = filter (\<lambda>c. dget c ''source'' = JStr ''contract'') (required_checks t)
       in if contract = [] then ret (False, [])
          else
            bindE (py_ok (merge_completion_checks contract [] (criteria_count t))) (\<lambda>checks.
            bindE (run_completion_checks env checks) (\<lambda>results.
              ret (results \<noteq> [] \<and> completion_gates_pass results \<and>
                   execution_coverage_complete results (criteria_count t), checks_summary results))))"

section \<open>Handling a finish\<close>

definition proposed_checks :: "jdict \<Rightarrow> jdict list" where
  "proposed_checks args =
     (case dget args ''checks'' of
        JArr vs \<Rightarrow> map (dset ''source'' (JStr ''agent'')) (List.map_filter
          (\<lambda>v. case v of JObj d \<Rightarrow> Some d | _ \<Rightarrow> None) vs)
      | _ \<Rightarrow> [])"

definition finish_checks :: "task \<Rightarrow> jdict \<Rightarrow> jdict list result" where
  "finish_checks t args =
     (case merge_completion_checks (required_checks t) [] (criteria_count t) of
        Inl e \<Rightarrow> Inl e
      | Inr required \<Rightarrow>
          (case declared_contract_coverage_complete required (int (criteria_count t)) of
             Inl e \<Rightarrow> Inl e
           | Inr True \<Rightarrow> Inr required
           | Inr False \<Rightarrow> merge_completion_checks required (proposed_checks args) (criteria_count t)))"

definition verdict_text :: "task \<Rightarrow> verification_decision \<Rightarrow> check_result list \<Rightarrow> string" where
  "verdict_text t d results =
     ''verifier: score '' @ show_int (vd_score d) @ '', met='' @ py_repr (JBool (vd_accepted d)) @
     '', verified_by='' @ vd_verified_by d @ '', mode='' @ verification_mode t @
     '', coverage_complete='' @ py_repr (JBool (vd_coverage d)) @
     (if results = [] then [] else nl @ ''checks:'' @ nl @ checks_summary results) @
     (if vd_missing d = [] then [] else nl @ ''missing:'' @ nl @ py_join nl (map bullet (vd_missing d))) @
     (if vd_accepted d then []
      else nl @ ''NEXT: Do not call finish again on an unchanged workspace. Repair the '' @
           ''failing evidence, then run or propose a check that can pass.'')"

definition verify_request_of :: "task \<Rightarrow> string \<Rightarrow> check_result list \<Rightarrow> workspace \<Rightarrow> int \<Rightarrow> verify_request" where
  "verify_request_of t what results ws budget =
     \<lparr>vr_goal = goal t, vr_rubric = rubric t, vr_summary = what, vr_tree = ws_tree 200 ws,
      vr_checks = checks_summary results, vr_contents = contents_digest ws, vr_budget = budget\<rparr>"

definition accept_delivery ::
  "('w, 'k, 'p) agent_env \<Rightarrow> string \<Rightarrow> verification_decision \<Rightarrow> check_result list \<Rightarrow>
     ('w, unit) agent_act" where
  "accept_delivery env what d results =
     thenE (on_task (\<lambda>t. t\<lparr>run_summary := Some what, verification_score := vd_score d,
              verified_by := Some (vd_verified_by d)\<rparr>))
     (bindE (make_receipt env results (vd_score d) (vd_verified_by d)) (\<lambda>h.
        thenE (on_task (set_receipt h)) (finish_run env GoalAchieved)))"

definition verification_failed ::
  "('w, 'k, 'p) agent_env \<Rightarrow> llm_failure \<Rightarrow> jdict \<Rightarrow> string \<Rightarrow> int \<Rightarrow> int \<Rightarrow> ('w, bool \<times> int) agent_act" where
  "verification_failed env f args thought number plan_tokens =
     thenE (record_step env number thought ''finish'' args
              (''Verification could not complete: '' @ take 300 (lf_message f)) ErrorStatus
              (plan_tokens + lf_tokens_spent f))
       (if lf_budget_exhausted f then thenE (finish_run env BudgetExhausted) (ret (True, 0))
        else raise (LLMError (lf_message f)))"

definition judged ::
  "('w, 'k, 'p) agent_env \<Rightarrow> llm_result \<Rightarrow> check_result list \<Rightarrow> bool \<Rightarrow> string \<Rightarrow> jdict \<Rightarrow> string \<Rightarrow>
     int \<Rightarrow> int \<Rightarrow> ('w, bool \<times> int) agent_act" where
  "judged env r results authoritative what args thought number plan_tokens =
     thenE (on_task (record_model_use True r))
     (with_task (\<lambda>t.
      bindE (py_ok (evaluate_verdict (extract_json (lr_content r)) results (criteria_count t)
               (agent_acceptance_score (ae_settings env)) (verification_mode t = ''strict'') authoritative)) (\<lambda>d.
      thenE (record_step env number thought ''finish'' args (verdict_text t d results) OkStatus
               (plan_tokens + lr_tokens r))
        (if vd_accepted d then thenE (accept_delivery env what d results) (ret (True, vd_score d))
         else ret (False, vd_score d)))))"

definition finish_summary :: "jdict \<Rightarrow> string" where
  "finish_summary args =
     (let given = py_strip (py_str (dget_or args ''summary'' (JStr [])))
      in if given = [] then ''(no summary provided)'' else given)"

definition verify_budget :: "settings \<Rightarrow> task \<Rightarrow> int \<Rightarrow> int" where
  "verify_budget c t plan_tokens =
     verification_after (allocate_budget (token_budget t) (tokens_used t) (agent_verification_token_reserve c))
       plan_tokens"

text \<open>Whether the run is over, and the score.\<close>

definition handle_finish ::
  "('w, 'k, 'p) agent_env \<Rightarrow> jdict \<Rightarrow> string \<Rightarrow> int \<Rightarrow> int \<Rightarrow> ('w, bool \<times> int) agent_act" where
  "handle_finish env args thought number plan_tokens =
     with_task (\<lambda>t.
     bindE (py_ok (finish_checks t args)) (\<lambda>checks.
     bindE (run_completion_checks env checks) (\<lambda>raw.
     case mark_supplementary_agent_checks (attach_baseline raw (baseline_checks t)) (criteria_count t) of
       (results, authoritative) \<Rightarrow>
         bindE (gets ag_ws) (\<lambda>ws.
         bindE (outside (ae_verify env (verify_request_of t (finish_summary args) results ws
                  (verify_budget (ae_settings env) t plan_tokens)))) (\<lambda>reply.
           case reply of
             Inl f \<Rightarrow> verification_failed env f args thought number plan_tokens
           | Inr r \<Rightarrow>
               judged env r results authoritative (finish_summary args) args thought number plan_tokens)))))"

end
