(* ===== verification/Skills.thy ===== *)
theory Skills
  imports Receipt Authority
begin

text \<open>
  \<^verbatim>\<open>services/skills.py\<close>: signed skills. A skill is a directory with a manifest and a detached
  Ed25519 signature over the bytes of the manifest; only a skill whose signature verifies under
  the trusted key is loaded. The directories of the store are a list of \<open>skill_dir\<close>, in the
  order the file system lists them; Ed25519 and PEM parsing are the operations of \<open>crypto\<close>.
\<close>

section \<open>Manifests\<close>

record skill_manifest =
  sk_name :: string
  sk_description :: string
  sk_instructions :: string
  sk_tools :: "string list option"
  sk_egress :: bool
  sk_capabilities :: "string list option"
  sk_hosts :: "string list option"

fun json_string :: "json \<Rightarrow> string option" where
  "json_string (JStr s) = Some s"
| "json_string _ = None"

text \<open>\<^verbatim>\<open>None\<close>, a list of strings, or a \<^verbatim>\<open>ValueError\<close>.\<close>

definition listed_strings :: "json \<Rightarrow> string list option result" where
  "listed_strings v =
     (case v of
        JNull \<Rightarrow> Inr None
      | JArr vs \<Rightarrow>
          (case all_some (map json_string vs) of None \<Rightarrow> Inl ValueError | Some xs \<Rightarrow> Inr (Some xs))
      | _ \<Rightarrow> Inl ValueError)"

definition declared_capabilities :: "string list option \<Rightarrow> string list option result" where
  "declared_capabilities raw =
     (case raw of
        None \<Rightarrow> Inr None
      | Some vs \<Rightarrow> map_sum id (\<lambda>cs. Some (sorted_capabilities cs)) (parse_capabilities vs))"

definition declared_hosts :: "host_lib \<Rightarrow> string list option \<Rightarrow> string list option result" where
  "declared_hosts lib raw =
     (case raw of
        None \<Rightarrow> Inr None
      | Some hs \<Rightarrow>
          (case normalize_hosts lib hs of Inl _ \<Rightarrow> Inl ValueError | Inr ns \<Rightarrow> Inr (Some (sorted_set ns))))"

definition manifest_of_dict :: "host_lib \<Rightarrow> jdict \<Rightarrow> skill_manifest result" where
  "manifest_of_dict lib d =
     (case dget d ''name'' of
        JStr name \<Rightarrow>
          if py_strip name = [] then Inl ValueError
          else
            (case listed_strings (dget d ''allowed_tools'') of
               Inl e \<Rightarrow> Inl e
             | Inr tools \<Rightarrow>
            (case listed_strings (dget d ''capabilities'') of
               Inl e \<Rightarrow> Inl e
             | Inr raw \<Rightarrow>
            (case declared_capabilities raw of
               Inl e \<Rightarrow> Inl e
             | Inr caps \<Rightarrow>
            (case dget_or d ''allow_egress'' (JBool False) of
               JBool egress \<Rightarrow>
                 (case listed_strings (dget d ''egress_hosts'') of
                    Inl e \<Rightarrow> Inl e
                  | Inr hosts \<Rightarrow>
                      (case declared_hosts lib hosts of
                         Inl e \<Rightarrow> Inl e
                       | Inr ceiling \<Rightarrow>
                           Inr \<lparr>sk_name = py_strip name,
                                sk_description = py_str (dget_or d ''description'' (JStr [])),
                                sk_instructions = py_str (dget_or d ''instructions'' (JStr [])),
                                sk_tools = tools, sk_egress = egress, sk_capabilities = caps,
                                sk_hosts = ceiling\<rparr>))
             | _ \<Rightarrow> Inl ValueError))))
      | _ \<Rightarrow> Inl ValueError)"

section \<open>The store\<close>

record skill_dir =
  sd_name :: string
  sd_manifest :: "string option"
  sd_signature :: "string option"

record loaded_skill =
  ls_manifest :: skill_manifest
  ls_verified :: bool
  ls_reason :: string

definition trust_key :: "('k, 'p) crypto \<Rightarrow> string option \<Rightarrow> 'p option" where
  "trust_key cr pem = (if nonempty_opt pem then load_public cr (the pem) else None)"

definition verify_skill :: "('k, 'p) crypto \<Rightarrow> 'p option \<Rightarrow> skill_dir \<Rightarrow> string \<Rightarrow> bool \<times> string" where
  "verify_skill cr trust d manifest =
     (case trust of
        None \<Rightarrow> (False, ''no trust key configured'')
      | Some k \<Rightarrow>
          (case sd_signature d of
             None \<Rightarrow> (False, ''missing signature'')
           | Some sig \<Rightarrow>
               if verify_with cr k sig manifest then (True, ''signature verified'')
               else (False, ''signature does not match (tampered or wrong key)'')))"

text \<open>
  A manifest that is not JSON, or does not pass \<^verbatim>\<open>from_dict\<close>, is skipped; JSON that is not an
  object has no \<^verbatim>\<open>get\<close>, and the \<^verbatim>\<open>AttributeError\<close> is not caught.
\<close>

definition load_dir ::
  "('k, 'p) crypto \<Rightarrow> host_lib \<Rightarrow> 'p option \<Rightarrow> skill_dir \<Rightarrow> string \<Rightarrow> loaded_skill option result" where
  "load_dir cr lib trust d manifest =
     (case json_loads manifest of
        None \<Rightarrow> Inr None
      | Some (JObj members) \<Rightarrow>
          (case manifest_of_dict lib members of
             Inl _ \<Rightarrow> Inr None
           | Inr m \<Rightarrow>
               (case verify_skill cr trust d manifest of
                  (verified, reason) \<Rightarrow>
                    Inr (Some \<lparr>ls_manifest = m, ls_verified = verified, ls_reason = reason\<rparr>)))
      | Some _ \<Rightarrow> Inl AttributeError)"

fun load_dirs ::
  "('k, 'p) crypto \<Rightarrow> host_lib \<Rightarrow> 'p option \<Rightarrow> skill_dir list \<Rightarrow> loaded_skill list result" where
  "load_dirs cr lib trust [] = Inr []"
| "load_dirs cr lib trust (d # ds) =
     (case sd_manifest d of
        None \<Rightarrow> load_dirs cr lib trust ds
      | Some manifest \<Rightarrow>
          (case load_dir cr lib trust d manifest of
             Inl e \<Rightarrow> Inl e
           | Inr None \<Rightarrow> load_dirs cr lib trust ds
           | Inr (Some s) \<Rightarrow> map_sum id ((#) s) (load_dirs cr lib trust ds)))"

text \<open>\<open>None\<close> for a root that is not a directory.\<close>

definition list_skills ::
  "('k, 'p) crypto \<Rightarrow> host_lib \<Rightarrow> 'p option \<Rightarrow> skill_dir list option \<Rightarrow> loaded_skill list result" where
  "list_skills cr lib trust root =
     (case root of None \<Rightarrow> Inr [] | Some dirs \<Rightarrow> load_dirs cr lib trust (sort_key sd_name dirs))"

definition load_skill ::
  "('k, 'p) crypto \<Rightarrow> host_lib \<Rightarrow> 'p option \<Rightarrow> skill_dir list option \<Rightarrow> string \<Rightarrow> skill_manifest option result" where
  "load_skill cr lib trust root wanted =
     (case list_skills cr lib trust root of
        Inl e \<Rightarrow> Inl e
      | Inr skills \<Rightarrow>
          (case find (\<lambda>s. sk_name (ls_manifest s) = wanted) skills of
             None \<Rightarrow> Inr None
           | Some s \<Rightarrow> Inr (if ls_verified s then Some (ls_manifest s) else None)))"

text \<open>\<^verbatim>\<open>sign_skill\<close> writes the signature beside the manifest.\<close>

definition sign_skill :: "('k, 'p) crypto \<Rightarrow> 'k \<Rightarrow> skill_dir \<Rightarrow> skill_dir" where
  "sign_skill cr k d =
     d\<lparr>sd_signature := Some (sign_with cr k (case sd_manifest d of None \<Rightarrow> [] | Some m \<Rightarrow> m))\<rparr>"

section \<open>Facts\<close>

lemma load_dirs_Cons:
  assumes "load_dirs cr lib trust (d # ds) = Inr skills"
  shows "\<exists>rest. load_dirs cr lib trust ds = Inr rest \<and>
    (skills = rest \<or>
     (\<exists>manifest s. sd_manifest d = Some manifest \<and> load_dir cr lib trust d manifest = Inr (Some s) \<and>
        skills = s # rest))"
proof (cases "sd_manifest d")
  case (Some manifest)
  then show ?thesis
    using assms
    by (cases "load_dir cr lib trust d manifest"; cases "load_dirs cr lib trust ds")
      (auto split: option.splits)
qed (use assms in simp)

lemma load_dirs_origin:
  assumes "load_dirs cr lib trust ds = Inr skills" "s \<in> set skills"
  shows "\<exists>d \<in> set ds. \<exists>manifest. sd_manifest d = Some manifest \<and>
    load_dir cr lib trust d manifest = Inr (Some s)"
  using assms
proof (induction ds arbitrary: skills)
  case (Cons d ds)
  from load_dirs_Cons [OF Cons.prems(1)] obtain rest where rest: "load_dirs cr lib trust ds = Inr rest"
    and new: "skills = rest \<or> (\<exists>manifest s. sd_manifest d = Some manifest \<and>
        load_dir cr lib trust d manifest = Inr (Some s) \<and> skills = s # rest)" by blast
  show ?case
  proof (cases "s \<in> set rest")
    case True
    then show ?thesis using Cons.IH [OF rest] by auto
  next
    case False
    then show ?thesis using new Cons.prems(2) by auto
  qed
qed simp

lemma load_dir_verified:
  assumes "load_dir cr lib trust d manifest = Inr (Some s)" "ls_verified s"
  shows "\<exists>k sig members. trust = Some k \<and> sd_signature d = Some sig \<and> verify_with cr k sig manifest \<and>
    json_loads manifest = Some (JObj members) \<and> manifest_of_dict lib members = Inr (ls_manifest s)"
  using assms
  by (auto simp: load_dir_def verify_skill_def split: option.splits json.splits sum.splits if_splits)

lemma manifest_capabilities:
  assumes "manifest_of_dict lib d = Inr m" "sk_capabilities m = Some vs"
  shows "\<exists>cs. vs = sorted_capabilities cs \<and> parse_capabilities vs = Inr cs"
proof -
  obtain raw where "declared_capabilities raw = Inr (Some vs)"
    using assms by (auto simp: manifest_of_dict_def split: json.splits sum.splits if_splits)
  moreover obtain names where "raw = Some names" using calculation by (cases raw) (auto simp: declared_capabilities_def)
  ultimately show ?thesis
    by (cases "parse_capabilities names") (auto simp: declared_capabilities_def parse_sorted)
qed

section \<open>Properties\<close>

text \<open>
  C13. Only signed skills run. A skill that loads has the name asked for and comes from a directory
  whose manifest is signed: the signature verifies over the bytes of the manifest under the
  trusted key, and these bytes say exactly what the skill may do. Its capabilities are known ones.
\<close>

theorem skill_loads_only_signed:
  assumes "load_skill cr lib trust root wanted = Inr (Some m)"
  shows "sk_name m = wanted \<and>
    (\<exists>dirs d manifest k sig members. root = Some dirs \<and> d \<in> set dirs \<and> sd_manifest d = Some manifest \<and>
       trust = Some k \<and> sd_signature d = Some sig \<and> verify_with cr k sig manifest \<and>
       json_loads manifest = Some (JObj members) \<and> manifest_of_dict lib members = Inr m) \<and>
    (case sk_capabilities m of None \<Rightarrow> True
     | Some vs \<Rightarrow> (\<exists>cs. vs = sorted_capabilities cs \<and> parse_capabilities vs = Inr cs))"
proof -
  from assms obtain skills s where skills: "list_skills cr lib trust root = Inr skills"
    and s: "find (\<lambda>s. sk_name (ls_manifest s) = wanted) skills = Some s" "ls_verified s" "m = ls_manifest s"
    by (auto simp: load_skill_def split: sum.splits option.splits if_splits)
  have mem: "s \<in> set skills" "sk_name m = wanted" using s by (auto simp: find_Some_iff)
  from mem(1) skills obtain dirs where dirs: "root = Some dirs"
    and loaded: "load_dirs cr lib trust (sort_key sd_name dirs) = Inr skills"
    by (cases root) (auto simp: list_skills_def)
  from load_dirs_origin [OF loaded mem(1)] obtain d manifest where "d \<in> set dirs"
    "sd_manifest d = Some manifest" "load_dir cr lib trust d manifest = Inr (Some s)" by auto
  moreover from load_dir_verified [OF this(3) s(2)] obtain k sig members where
    "trust = Some k" "sd_signature d = Some sig" "verify_with cr k sig manifest"
    "json_loads manifest = Some (JObj members)" and m: "manifest_of_dict lib members = Inr m"
    using s(3) by blast
  moreover have "case sk_capabilities m of None \<Rightarrow> True
     | Some vs \<Rightarrow> (\<exists>cs. vs = sorted_capabilities cs \<and> parse_capabilities vs = Inr cs)"
    using manifest_capabilities [OF m] by (simp split: option.split)
  ultimately show ?thesis using mem(2) dirs by blast
qed

definition sample_manifest :: string where
  "sample_manifest = ''{'' @ [CHR 0x22] @ ''name'' @ [CHR 0x22] @ '':'' @ [CHR 0x22] @ ''greet'' @ [CHR 0x22] @ ''}''"

definition sample_skill :: skill_manifest where
  "sample_skill =
     \<lparr>sk_name = ''greet'', sk_description = [], sk_instructions = [], sk_tools = None, sk_egress = False,
      sk_capabilities = None, sk_hosts = None\<rparr>"

definition sample_dir :: skill_dir where
  "sample_dir = \<lparr>sd_name = ''greet'', sd_manifest = Some sample_manifest, sd_signature = None\<rparr>"

lemma sample_skill_loads:
  "load_skill demo_crypto lib (Some ()) (Some [sign_skill demo_crypto () sample_dir]) ''greet'' = Inr (Some sample_skill)"
proof -
  have name: "py_strip ''greet'' = ''greet''" "py_str (JStr []) = []" by code_simp+
  have "json_loads sample_manifest = Some (JObj [(''name'', JStr ''greet'')])" by code_simp
  moreover have "manifest_of_dict lib [(''name'', JStr ''greet'')] = Inr sample_skill"
    by (simp add: manifest_of_dict_def dget_def dget_or_def listed_strings_def declared_capabilities_def
        declared_hosts_def sample_skill_def name)
  ultimately show ?thesis
    by (simp add: load_skill_def list_skills_def load_dir_def verify_skill_def sample_dir_def sign_skill_def
        demo_crypto_def sample_skill_def)
qed

theorem skill_loads_only_signed_witness:
  "\<exists>d sig. d \<in> set [sign_skill demo_crypto () sample_dir] \<and> sd_signature d = Some sig \<and>
     verify_with demo_crypto () sig sample_manifest"
  using skill_loads_only_signed [OF sample_skill_loads]
  by (auto simp: sign_skill_def sample_dir_def)

text \<open>
  One manifest that is JSON but not an object makes every lookup raise, whatever skill is asked
  for and however well it is signed: the exception is not among those \<^verbatim>\<open>_load_dir\<close> catches.
\<close>

lemma load_dirs_break:
  assumes "d \<in> set ds" "sd_manifest d = Some manifest" "load_dir cr lib trust d manifest = Inl e"
  shows "\<exists>e. load_dirs cr lib trust ds = Inl e"
  using assms(1)
proof (induction ds)
  case (Cons x ds)
  show ?case
  proof (cases "x = d")
    case True
    then show ?thesis using assms(2,3) by simp
  next
    case False
    then have "\<nexists>rest. load_dirs cr lib trust ds = Inr rest" using Cons by auto
    then have "\<nexists>skills. load_dirs cr lib trust (x # ds) = Inr skills" using load_dirs_Cons by blast
    then show ?thesis by (metis obj_sumE)
  qed
qed simp

lemma malformed_manifest_breaks_store:
  assumes "d \<in> set dirs" "sd_manifest d = Some manifest" "json_loads manifest = Some v" "\<not> is_dict v"
  shows "\<exists>e. load_skill cr lib trust (Some dirs) wanted = Inl e"
proof -
  have "load_dir cr lib trust d manifest = Inl AttributeError"
    using assms(3,4) by (cases v) (auto simp: load_dir_def)
  moreover have "d \<in> set (sort_key sd_name dirs)" using assms(1) by simp
  ultimately obtain e where "load_dirs cr lib trust (sort_key sd_name dirs) = Inl e"
    using load_dirs_break assms(2) by blast
  then show ?thesis by (simp add: load_skill_def list_skills_def)
qed

end
