(* ===== verification/Authority_Tokens.thy ===== *)
theory Authority_Tokens
  imports Receipt Authority
begin

text \<open>
  \<^verbatim>\<open>domain/authority_token.py\<close>: the short-lived signed tokens that carry the authority of a run
  to an isolated service. The package \<^verbatim>\<open>jwt\<close> is the record \<open>token_lib\<close>: encoding and signing,
  reading the header without checking it, and decoding, which checks the signature, the audience,
  the issuer, the required claims and, on request, the times. \<open>tl_datetime\<close> is
  \<^verbatim>\<open>datetime.fromtimestamp\<close>. Clocks count microseconds; a token is opaque.
\<close>

section \<open>Tokens\<close>

record ('k, 'p, 'j) token_lib =
  tl_encode :: "'k \<Rightarrow> jdict \<Rightarrow> jdict \<Rightarrow> 'j"
  tl_header :: "'j \<Rightarrow> jdict option"
  tl_decode :: "'p \<Rightarrow> string \<Rightarrow> int option \<Rightarrow> 'j \<Rightarrow> jdict option"
  tl_datetime :: "pyfloat \<Rightarrow> pyfloat result"

datatype token_fault =
    BadPrivateKey
  | BadPublicKey
  | EmptyKeyring
  | KeyMismatch
  | UnknownKey
  | InvalidToken
  | WrongSchema
  | NotCurrent
  | MalformedClaims
  | BadHost string

text \<open>An \<^verbatim>\<open>AuthorityTokenError\<close>, or another exception that is let through.\<close>

datatype token_exc = TokenError token_fault | TokenRaised pyexc

record grant =
  gt_token_id :: string
  gt_task_id :: string
  gt_owner :: string
  gt_project :: string
  gt_run_id :: string
  gt_capabilities :: "capability set"
  gt_hosts :: "string set"
  gt_expires :: pyfloat

definition grant_permits :: "grant \<Rightarrow> capability \<Rightarrow> bool" where
  "grant_permits g c = (c \<in> gt_capabilities g)"

definition grant_permits_host :: "host_lib \<Rightarrow> grant \<Rightarrow> string \<Rightarrow> string + bool" where
  "grant_permits_host lib g host =
     map_sum id (\<lambda>n. \<exists>a \<in> gt_hosts g. host_matches n a) (normalize_host lib host)"

section \<open>Keys\<close>

definition key_id :: "('k, 'p) crypto \<Rightarrow> 'p \<Rightarrow> string" where
  "key_id cr p = ''ed25519:'' @ take 24 (sha256_hex (public_raw cr p))"

text \<open>\<^verbatim>\<open>{authority_key_id(keys): keys}\<close> for a single key.\<close>

definition keyring_of_pem :: "('k, 'p) crypto \<Rightarrow> string \<Rightarrow> token_exc + (string \<times> string) list" where
  "keyring_of_pem cr pem =
     (case load_public cr pem of None \<Rightarrow> Inl (TokenError BadPublicKey) | Some p \<Rightarrow> Inr [(key_id cr p, pem)])"

fun parse_keyring :: "('k, 'p) crypto \<Rightarrow> (string \<times> string) list \<Rightarrow> token_exc + (string \<times> 'p) list" where
  "parse_keyring cr [] = Inr []"
| "parse_keyring cr ((configured, pem) # keys) =
     (case load_public cr pem of
        None \<Rightarrow> Inl (TokenError BadPublicKey)
      | Some p \<Rightarrow>
          if configured \<noteq> key_id cr p then Inl (TokenError KeyMismatch)
          else map_sum id ((#) (key_id cr p, p)) (parse_keyring cr keys))"

definition authority_public_keyring ::
  "('k, 'p) crypto \<Rightarrow> (string \<times> string) list \<Rightarrow> token_exc + (string \<times> 'p) list" where
  "authority_public_keyring cr keys =
     (if keys = [] then Inl (TokenError EmptyKeyring) else parse_keyring cr keys)"

section \<open>Issuing\<close>

definition token_schema :: string where
  "token_schema = ''loop.authority-token/v1''"

record token_request =
  tq_audience :: string
  tq_task :: string
  tq_owner :: string
  tq_project :: string
  tq_run :: string
  tq_capabilities :: "capability set"
  tq_hosts :: "string list"
  tq_ttl :: int

definition seconds :: "int \<Rightarrow> int" where
  "seconds now = now div 1000000"

definition token_claims :: "token_request \<Rightarrow> string list \<Rightarrow> string \<Rightarrow> int \<Rightarrow> jdict" where
  "token_claims q hosts jti now =
     [(''schema'', JStr token_schema), (''iss'', JStr ''loop-agent''), (''aud'', JStr (tq_audience q)),
      (''sub'', JStr (tq_task q)), (''jti'', JStr jti), (''iat'', JInt (seconds now)),
      (''nbf'', JInt (seconds now)), (''exp'', JInt (seconds now + max 1 (tq_ttl q))),
      (''owner_id'', JStr (tq_owner q)), (''project_id'', JStr (tq_project q)),
      (''run_id'', JStr (tq_run q)),
      (''capabilities'', json_strs (sorted_capabilities (tq_capabilities q))),
      (''egress_hosts'', json_strs (sorted_set hosts))]"

definition token_headers :: "string \<Rightarrow> jdict" where
  "token_headers kid = [(''kid'', JStr kid), (''typ'', JStr ''JWT'')]"

text \<open>\<open>jti\<close> is the identifier drawn by \<^verbatim>\<open>uuid4\<close>.\<close>

definition issue_authority_token ::
  "('k, 'p) crypto \<Rightarrow> ('k, 'p, 'j) token_lib \<Rightarrow> host_lib \<Rightarrow> string \<Rightarrow> token_request \<Rightarrow> string \<Rightarrow> int \<Rightarrow>
     token_fault + 'j" where
  "issue_authority_token cr jw lib pem q jti now =
     (case load_private cr pem of
        None \<Rightarrow> Inl BadPrivateKey
      | Some k \<Rightarrow>
          (case normalize_hosts lib (tq_hosts q) of
             Inl m \<Rightarrow> Inl (BadHost m)
           | Inr hosts \<Rightarrow>
               Inr (tl_encode jw k (token_headers (key_id cr (public_of cr k))) (token_claims q hosts jti now))))"

section \<open>Verifying\<close>

text \<open>A clock reading against a float of seconds; every comparison with a NaN is false.\<close>

fun clock_before :: "int \<Rightarrow> pyfloat \<Rightarrow> bool" where
  "clock_before now (FDec m e) =
     (if 0 \<le> e then now < m * 10 ^ nat e * 1000000 else now * 10 ^ nat (- e) < m * 1000000)"
| "clock_before now FInf = True"
| "clock_before now _ = False"

definition clock_reached :: "int \<Rightarrow> pyfloat \<Rightarrow> bool" where
  "clock_reached now x = (x \<noteq> FNan \<and> \<not> clock_before now x)"

definition claimed_capabilities :: "json \<Rightarrow> capability set result" where
  "claimed_capabilities v =
     (case iter_json v of
        Inl e \<Rightarrow> Inl e
      | Inr vs \<Rightarrow>
          (if list_all (\<lambda>x. case x of JStr _ \<Rightarrow> True | _ \<Rightarrow> False) vs then parse_capabilities (map py_str vs)
           else Inl ValueError))"

text \<open>\<^verbatim>\<open>host.strip()\<close> raises \<^verbatim>\<open>AttributeError\<close> on what is not a string.\<close>

fun host_claims :: "host_lib \<Rightarrow> json list \<Rightarrow> string list result" where
  "host_claims lib [] = Inr []"
| "host_claims lib (JStr h # vs) =
     (case normalize_host lib h of
        Inl _ \<Rightarrow> Inl ValueError
      | Inr n \<Rightarrow> map_sum id ((#) n) (host_claims lib vs))"
| "host_claims lib (_ # vs) = Inl AttributeError"

definition claimed_hosts :: "host_lib \<Rightarrow> json \<Rightarrow> string list result" where
  "claimed_hosts lib v = (case iter_json v of Inl e \<Rightarrow> Inl e | Inr vs \<Rightarrow> host_claims lib vs)"

text \<open>\<^verbatim>\<open>except (KeyError, TypeError, ValueError)\<close>.\<close>

definition as_malformed :: "pyexc \<Rightarrow> token_exc" where
  "as_malformed e =
     (if e \<in> {KeyError, TypeError, ValueError} then TokenError MalformedClaims else TokenRaised e)"

definition read_grant ::
  "('k, 'p, 'j) token_lib \<Rightarrow> host_lib \<Rightarrow> jdict \<Rightarrow> pyfloat \<Rightarrow> token_exc + grant" where
  "read_grant jw lib claims expiry =
     (case claimed_capabilities (dget claims ''capabilities'') of
        Inl e \<Rightarrow> Inl (as_malformed e)
      | Inr caps \<Rightarrow>
          (case claimed_hosts lib (dget claims ''egress_hosts'') of
             Inl e \<Rightarrow> Inl (as_malformed e)
           | Inr hosts \<Rightarrow>
               (case tl_datetime jw expiry of
                  Inl e \<Rightarrow> Inl (as_malformed e)
                | Inr at \<Rightarrow>
                    Inr \<lparr>gt_token_id = py_str (dget claims ''jti''), gt_task_id = py_str (dget claims ''sub''),
                         gt_owner = py_str (dget claims ''owner_id''),
                         gt_project = py_str (dget claims ''project_id''),
                         gt_run_id = py_str (dget claims ''run_id''),
                         gt_capabilities = caps, gt_hosts = set hosts, gt_expires = at\<rparr>)))"

text \<open>
  The current time is read after decoding; \<open>frozen\<close> is the caller's \<^verbatim>\<open>now\<close>, with which \<^verbatim>\<open>jwt\<close>
  does not check the times.
\<close>

definition check_claims ::
  "('k, 'p, 'j) token_lib \<Rightarrow> host_lib \<Rightarrow> int \<Rightarrow> jdict \<Rightarrow> token_exc + grant" where
  "check_claims jw lib now claims =
     (if dget claims ''schema'' \<noteq> JStr token_schema then Inl (TokenError WrongSchema)
      else
        (case py_float (dget claims ''nbf'') of
           Inl e \<Rightarrow> Inl (TokenRaised e)
         | Inr nbf \<Rightarrow>
             if clock_before now nbf then Inl (TokenError NotCurrent)
             else
               (case py_float (dget claims ''exp'') of
                  Inl e \<Rightarrow> Inl (TokenRaised e)
                | Inr expiry \<Rightarrow>
                    if clock_reached now expiry then Inl (TokenError NotCurrent)
                    else read_grant jw lib claims expiry)))"

definition verify_authority_token ::
  "('k, 'p) crypto \<Rightarrow> ('k, 'p, 'j) token_lib \<Rightarrow> host_lib \<Rightarrow> (string \<times> string) list \<Rightarrow> string \<Rightarrow>
     int option \<Rightarrow> int \<Rightarrow> 'j \<Rightarrow> token_exc + grant" where
  "verify_authority_token cr jw lib keys audience frozen clock token =
     (case authority_public_keyring cr keys of
        Inl e \<Rightarrow> Inl e
      | Inr keyring \<Rightarrow>
          (case tl_header jw token of
             None \<Rightarrow> Inl (TokenError InvalidToken)
           | Some header \<Rightarrow>
               (case dget header ''kid'' of
                  JStr kid \<Rightarrow>
                    (case map_of keyring kid of
                       None \<Rightarrow> Inl (TokenError UnknownKey)
                     | Some p \<Rightarrow>
                         (case tl_decode jw p audience (if frozen = None then Some clock else None) token of
                            None \<Rightarrow> Inl (TokenError InvalidToken)
                          | Some claims \<Rightarrow>
                              check_claims jw lib (case frozen of None \<Rightarrow> clock | Some now \<Rightarrow> now) claims))
                | _ \<Rightarrow> Inl (TokenError UnknownKey))))"

section \<open>Issued tokens verify\<close>

text \<open>What \<^verbatim>\<open>jwt\<close> does with a token it encoded, for the options the code uses.\<close>

definition required_claims :: "string list" where
  "required_claims =
     [''schema'', ''iss'', ''aud'', ''sub'', ''jti'', ''iat'', ''nbf'', ''exp'', ''owner_id'',
      ''project_id'', ''run_id'', ''capabilities'', ''egress_hosts'']"

definition jwt_current :: "int option \<Rightarrow> jdict \<Rightarrow> bool" where
  "jwt_current clock c =
     (case clock of
        None \<Rightarrow> True
      | Some now \<Rightarrow>
          (case (dget c ''nbf'', dget c ''exp'') of
             (JInt nbf, JInt expiry) \<Rightarrow> nbf * 1000000 \<le> now \<and> now < expiry * 1000000
           | _ \<Rightarrow> False))"

definition decodes_signed :: "('k, 'p) crypto \<Rightarrow> ('k, 'p, 'j) token_lib \<Rightarrow> bool" where
  "decodes_signed cr jw \<longleftrightarrow>
     (\<forall>k h c. tl_header jw (tl_encode jw k h c) = Some h) \<and>
     (\<forall>k h c aud clock. tl_decode jw (public_of cr k) aud clock (tl_encode jw k h c) =
        (if dget c ''aud'' = JStr aud \<and> dget c ''iss'' = JStr ''loop-agent'' \<and>
            list_all (\<lambda>n. dget c n \<noteq> JNull) required_claims \<and> jwt_current clock c
         then Some c else None))"

lemma token_claims_get [simp]:
  "dget (token_claims q hosts jti now) ''schema'' = JStr token_schema"
  "dget (token_claims q hosts jti now) ''iss'' = JStr ''loop-agent''"
  "dget (token_claims q hosts jti now) ''aud'' = JStr (tq_audience q)"
  "dget (token_claims q hosts jti now) ''sub'' = JStr (tq_task q)"
  "dget (token_claims q hosts jti now) ''jti'' = JStr jti"
  "dget (token_claims q hosts jti now) ''iat'' = JInt (seconds now)"
  "dget (token_claims q hosts jti now) ''nbf'' = JInt (seconds now)"
  "dget (token_claims q hosts jti now) ''exp'' = JInt (seconds now + max 1 (tq_ttl q))"
  "dget (token_claims q hosts jti now) ''owner_id'' = JStr (tq_owner q)"
  "dget (token_claims q hosts jti now) ''project_id'' = JStr (tq_project q)"
  "dget (token_claims q hosts jti now) ''run_id'' = JStr (tq_run q)"
  "dget (token_claims q hosts jti now) ''capabilities'' = json_strs (sorted_capabilities (tq_capabilities q))"
  "dget (token_claims q hosts jti now) ''egress_hosts'' = json_strs (sorted_set hosts)"
  by (simp_all add: token_claims_def dget_def)

lemma normalized_hosts: "list_all (\<lambda>h. normalize_host lib h = Inr h) hs \<Longrightarrow> normalize_hosts lib hs = Inr hs"
  by (induction hs) auto

lemma host_claims_strs:
  "list_all (\<lambda>h. normalize_host lib h = Inr h) hs \<Longrightarrow> host_claims lib (map JStr hs) = Inr hs"
  by (induction hs) auto

lemma clock_before_norm:
  "0 \<le> e \<Longrightarrow> clock_before now (norm_dec m e) \<longleftrightarrow> now < m * 10 ^ nat e * 1000000"
proof (induction m e rule: norm_dec.induct)
  case (1 m e)
  show ?case
  proof (cases "m \<noteq> 0 \<and> m mod 10 = 0")
    case True
    then have "m div 10 * 10 ^ nat (e + 1) = m * 10 ^ nat e"
      using "1.prems" by (simp add: nat_add_distrib mult.assoc [symmetric] mod_0_imp_dvd)
    then show ?thesis using True 1 by (subst norm_dec.simps) simp
  qed (use "1.prems" in \<open>subst norm_dec.simps, auto\<close>)
qed

lemma clock_before_seconds: "clock_before now (norm_dec x 0) \<longleftrightarrow> now < x * 1000000"
  using clock_before_norm [of 0 now x] by simp

lemma clock_reached_seconds: "clock_reached now (norm_dec x 0) \<longleftrightarrow> x * 1000000 \<le> now"
proof -
  have "norm_dec x 0 \<noteq> FNan" using norm_dec_finite [of x 0] by auto
  then show ?thesis by (auto simp: clock_reached_def clock_before_seconds)
qed

text \<open>The last second of the year 9999.\<close>

definition last_second :: int where
  "last_second = 253402300799"

lemma py_float_seconds: "0 \<le> x \<Longrightarrow> x \<le> last_second \<Longrightarrow> py_float (JInt x) = Inr (norm_dec x 0)"
  by (simp add: dec_overflows_def last_second_def float_limit_def)

definition dates_seconds :: "('k, 'p, 'j) token_lib \<Rightarrow> bool" where
  "dates_seconds jw \<longleftrightarrow>
     (\<forall>x. 0 \<le> x \<and> x \<le> last_second \<longrightarrow> tl_datetime jw (norm_dec x 0) = Inr (norm_dec x 0))"

definition grant_of :: "token_request \<Rightarrow> string \<Rightarrow> int \<Rightarrow> grant" where
  "grant_of q jti now =
     \<lparr>gt_token_id = jti, gt_task_id = tq_task q, gt_owner = tq_owner q, gt_project = tq_project q,
      gt_run_id = tq_run q, gt_capabilities = tq_capabilities q, gt_hosts = set (tq_hosts q),
      gt_expires = norm_dec (seconds now + max 1 (tq_ttl q)) 0\<rparr>"

lemma check_issued_claims:
  assumes "dates_seconds jw" "list_all (\<lambda>h. normalize_host lib h = Inr h) (tq_hosts q)"
    and "0 \<le> now" "seconds now + max 1 (tq_ttl q) \<le> last_second"
    and "seconds now * 1000000 \<le> clock" "clock < (seconds now + max 1 (tq_ttl q)) * 1000000"
  shows "check_claims jw lib clock (token_claims q (tq_hosts q) jti now) = Inr (grant_of q jti now)"
proof -
  have now: "0 \<le> seconds now" using assms(3) by (simp add: seconds_def)
  have floats: "py_float (JInt (seconds now)) = Inr (norm_dec (seconds now) 0)"
    "py_float (JInt (seconds now + max 1 (tq_ttl q))) = Inr (norm_dec (seconds now + max 1 (tq_ttl q)) 0)"
    by (rule py_float_seconds; use now assms(4) in linarith)+
  have "tl_datetime jw (norm_dec (seconds now + max 1 (tq_ttl q)) 0) = Inr (norm_dec (seconds now + max 1 (tq_ttl q)) 0)"
    using assms(1,4) now unfolding dates_seconds_def by auto
  moreover have "claimed_capabilities (json_strs (sorted_capabilities (tq_capabilities q))) = Inr (tq_capabilities q)"
    by (simp add: claimed_capabilities_def json_strs_def list_all_iff comp_def parse_sorted py_str_def)
  moreover have "list_all (\<lambda>h. normalize_host lib h = Inr h) (sorted_set (tq_hosts q))"
    using assms(2) by (simp add: sorted_set_def list_all_iff)
  then have "claimed_hosts lib (json_strs (sorted_set (tq_hosts q))) = Inr (sorted_set (tq_hosts q))"
    by (simp add: claimed_hosts_def json_strs_def host_claims_strs)
  ultimately have "read_grant jw lib (token_claims q (tq_hosts q) jti now) (norm_dec (seconds now + max 1 (tq_ttl q)) 0)
      = Inr (grant_of q jti now)"
    by (simp add: read_grant_def grant_of_def sorted_set_def py_str_def)
  then show ?thesis
    using floats assms(5,6) by (simp add: check_claims_def clock_before_seconds clock_reached_seconds del: py_float.simps)
qed

section \<open>Properties\<close>


text \<open>A concrete issuer: a token is its header and claims, read back by one key pair.\<close>

definition demo_jwt :: "(unit, unit, jdict \<times> jdict) token_lib" where
  "demo_jwt =
     \<lparr>tl_encode = (\<lambda>_ h c. (h, c)), tl_header = (\<lambda>t. Some (fst t)),
      tl_decode = (\<lambda>_ aud clock t.
        if dget (snd t) ''aud'' = JStr aud \<and> dget (snd t) ''iss'' = JStr ''loop-agent'' \<and>
           list_all (\<lambda>n. dget (snd t) n \<noteq> JNull) required_claims \<and> jwt_current clock (snd t)
        then Some (snd t) else None),
      tl_datetime = Inr\<rparr>"

definition demo_request :: token_request where
  "demo_request =
     \<lparr>tq_audience = ''loop-egress-proxy'', tq_task = ''t'', tq_owner = ''o'', tq_project = ''p'',
      tq_run = ''t:0'', tq_capabilities = {NetShell}, tq_hosts = [], tq_ttl = 300\<rparr>"


end
