(* ===== verification/Contract_Schema.thy ===== *)
theory Contract_Schema
  imports Completion Capability_Model Sha256
begin

text \<open>
  \<^verbatim>\<open>schemas/contract.py\<close> and the content address of \<^verbatim>\<open>services/contract.py\<close>: the acceptance
  contract of a repository task as typed data, its validation from JSON, its serialisation and
  its hash. Pydantic's lax conversions of scalars are a parameter (\<open>coercions\<close>): what a field
  of type \<^verbatim>\<open>int\<close>, \<^verbatim>\<open>bool\<close> or \<^verbatim>\<open>int | Literal["nonzero"]\<close> makes of a JSON value. A
  \<^verbatim>\<open>ValidationError\<close> is a \<^verbatim>\<open>ValueError\<close>. Keys a model does not declare are ignored.
\<close>

section \<open>Reading typed fields\<close>

definition rbind :: "'a result \<Rightarrow> ('a \<Rightarrow> 'b result) \<Rightarrow> 'b result" where
  "rbind r f = (case r of Inl e \<Rightarrow> Inl e | Inr a \<Rightarrow> f a)"

lemma rbind_simps [simp]: "rbind (Inl e) f = Inl e" "rbind (Inr a) f = f a"
  by (simp_all add: rbind_def)

lemma rbind_Inr: "rbind r f = Inr b \<longleftrightarrow> (\<exists>a. r = Inr a \<and> f a = Inr b)"
  by (cases r) auto

fun map_result :: "('a \<Rightarrow> 'b result) \<Rightarrow> 'a list \<Rightarrow> 'b list result" where
  "map_result f [] = Inr []"
| "map_result f (x # xs) = rbind (f x) (\<lambda>y. rbind (map_result f xs) (\<lambda>ys. Inr (y # ys)))"

record coercions =
  co_int :: "json \<Rightarrow> int option"
  co_bool :: "json \<Rightarrow> bool option"
  co_exit :: "json \<Rightarrow> (int option) option"

definition or_invalid :: "'a option \<Rightarrow> 'a result" where
  "or_invalid v = (case v of None \<Rightarrow> Inl ValueError | Some a \<Rightarrow> Inr a)"

definition field :: "jdict \<Rightarrow> string \<Rightarrow> 'a result \<Rightarrow> (json \<Rightarrow> 'a result) \<Rightarrow> 'a result" where
  "field d k missing f = (case map_of d k of None \<Rightarrow> missing | Some v \<Rightarrow> f v)"

fun text_field :: "nat \<Rightarrow> nat \<Rightarrow> json \<Rightarrow> string result" where
  "text_field lo hi (JStr s) = (if lo \<le> length s \<and> length s \<le> hi then Inr s else Inl ValueError)"
| "text_field lo hi _ = Inl ValueError"

fun plain_text :: "json \<Rightarrow> string result" where
  "plain_text (JStr s) = Inr s"
| "plain_text _ = Inl ValueError"

fun optional_field :: "(json \<Rightarrow> 'a result) \<Rightarrow> json \<Rightarrow> 'a option result" where
  "optional_field f JNull = Inr None"
| "optional_field f v = rbind (f v) (\<lambda>a. Inr (Some a))"

fun list_field :: "nat \<Rightarrow> (json \<Rightarrow> 'a result) \<Rightarrow> json \<Rightarrow> 'a list result" where
  "list_field hi f (JArr vs) = (if length vs \<le> hi then map_result f vs else Inl ValueError)"
| "list_field hi f _ = Inl ValueError"

definition text_member :: "string \<times> json \<Rightarrow> (string \<times> string) result" where
  "text_member m = rbind (plain_text (snd m)) (\<lambda>s. Inr (fst m, s))"

text \<open>\<^verbatim>\<open>dict[str, str]\<close>; \<^verbatim>\<open>scripts\<close> has no limit on its length.\<close>

fun dict_field :: "nat option \<Rightarrow> json \<Rightarrow> (string \<times> string) list result" where
  "dict_field hi (JObj d) =
     (if (case hi of None \<Rightarrow> True | Some n \<Rightarrow> length d \<le> n) then map_result text_member d
      else Inl ValueError)"
| "dict_field hi _ = Inl ValueError"

fun object_field :: "(jdict \<Rightarrow> 'a result) \<Rightarrow> json \<Rightarrow> 'a result" where
  "object_field f (JObj d) = f d"
| "object_field f _ = Inl ValueError"

section \<open>Checks\<close>

datatype contract_kind = CommandCheck | FileExistsCheck | FileContainsCheck

fun kind_value :: "contract_kind \<Rightarrow> string" where
  "kind_value CommandCheck = ''command''"
| "kind_value FileExistsCheck = ''file_exists''"
| "kind_value FileContainsCheck = ''file_contains''"

definition kind_field :: "json \<Rightarrow> contract_kind result" where
  "kind_field v = or_invalid (find (\<lambda>k. v = JStr (kind_value k)) [CommandCheck, FileExistsCheck, FileContainsCheck])"

datatype contract_source = FromContract | FromSystem

fun source_value :: "contract_source \<Rightarrow> string" where
  "source_value FromContract = ''contract''"
| "source_value FromSystem = ''system''"

definition source_field :: "json \<Rightarrow> contract_source result" where
  "source_field v = or_invalid (find (\<lambda>k. v = JStr (source_value k)) [FromContract, FromSystem])"

text \<open>\<open>cc_exit\<close> is \<open>None\<close> for \<^verbatim>\<open>"nonzero"\<close>.\<close>

record contract_check =
  cc_id :: string
  cc_kind :: contract_kind
  cc_command :: "string option"
  cc_path :: "string option"
  cc_text :: "string option"
  cc_exit :: "int option"
  cc_stdout :: "string option"
  cc_criteria :: "string list"
  cc_source :: contract_source

text \<open>No backslash, and no part that is empty, \<^verbatim>\<open>.\<close> or \<^verbatim>\<open>..\<close>: a path inside the workspace.\<close>

definition posix_relative :: "string \<Rightarrow> bool" where
  "posix_relative path =
     (bslash_ch \<notin> set path \<and>
      list_all (\<lambda>part. part \<notin> {[], ''.'', ''..''}) (split_char (CHR ''/'') path))"

definition valid_path :: "string option \<Rightarrow> string option result" where
  "valid_path value =
     (case value of
        None \<Rightarrow> Inr None
      | Some v \<Rightarrow>
          (let path = py_strip v in if posix_relative path then Inr (Some path) else Inl ValueError))"

definition text_or_empty :: "string option \<Rightarrow> string" where
  "text_or_empty v = (case v of None \<Rightarrow> [] | Some s \<Rightarrow> s)"

definition target_given :: "contract_check \<Rightarrow> bool" where
  "target_given c =
     (case cc_kind c of
        CommandCheck \<Rightarrow> py_strip (text_or_empty (cc_command c)) \<noteq> []
      | FileExistsCheck \<Rightarrow> text_or_empty (cc_path c) \<noteq> []
      | FileContainsCheck \<Rightarrow> text_or_empty (cc_path c) \<noteq> [] \<and> text_or_empty (cc_text c) \<noteq> [])"

definition check_of_dict :: "coercions \<Rightarrow> jdict \<Rightarrow> contract_check result" where
  "check_of_dict co d =
     rbind (field d ''id'' (Inl ValueError) (text_field 1 80)) (\<lambda>i.
     rbind (field d ''kind'' (Inl ValueError) kind_field) (\<lambda>k.
     rbind (field d ''command'' (Inr None) (optional_field (text_field 0 1000))) (\<lambda>command.
     rbind (field d ''path'' (Inr None) (optional_field (text_field 0 500))) (\<lambda>raw.
     rbind (valid_path raw) (\<lambda>path.
     rbind (field d ''text'' (Inr None) (optional_field (text_field 0 2000))) (\<lambda>t.
     rbind (field d ''expect_exit'' (Inr (Some 0)) (\<lambda>v. or_invalid (co_exit co v))) (\<lambda>code.
     rbind (field d ''expect_stdout'' (Inr None) (optional_field (text_field 0 2000))) (\<lambda>out.
     rbind (field d ''criterion_ids'' (Inr []) (list_field 12 plain_text)) (\<lambda>ids.
     rbind (field d ''source'' (Inr FromContract) source_field) (\<lambda>src.
       (let c = \<lparr>cc_id = i, cc_kind = k, cc_command = command, cc_path = path, cc_text = t,
                 cc_exit = code, cc_stdout = out, cc_criteria = ids, cc_source = src\<rparr>
        in if target_given c then Inr c else Inl ValueError)))))))))))"

definition exit_json :: "int option \<Rightarrow> json" where
  "exit_json code = (case code of None \<Rightarrow> JStr ''nonzero'' | Some n \<Rightarrow> JInt n)"

text \<open>\<^verbatim>\<open>model_dump(mode="json")\<close>.\<close>

definition dump_check :: "contract_check \<Rightarrow> jdict" where
  "dump_check c =
     [(''id'', JStr (cc_id c)), (''kind'', JStr (kind_value (cc_kind c))),
      (''command'', str_or_null (cc_command c)), (''path'', str_or_null (cc_path c)),
      (''text'', str_or_null (cc_text c)), (''expect_exit'', exit_json (cc_exit c)),
      (''expect_stdout'', str_or_null (cc_stdout c)), (''criterion_ids'', json_strs (cc_criteria c)),
      (''source'', JStr (source_value (cc_source c)))]"

definition dump_checks :: "contract_check list \<Rightarrow> json" where
  "dump_checks cs = JArr (map (\<lambda>c. JObj (dump_check c)) cs)"

section \<open>Discovery, critique and identity\<close>

record discovery =
  rd_manifests :: "string list"
  rd_scripts :: "(string \<times> string) list"
  rd_test_files :: "string list"
  rd_build_outputs :: "string list"
  rd_quality :: "contract_check list"
  rd_previews :: "(string \<times> string) list"
  rd_scanned :: int
  rd_truncated :: bool
  rd_previews_truncated :: bool

definition natural :: "int \<Rightarrow> int result" where
  "natural n = (if 0 \<le> n then Inr n else Inl ValueError)"

definition discovery_of_dict :: "coercions \<Rightarrow> jdict \<Rightarrow> discovery result" where
  "discovery_of_dict co d =
     rbind (field d ''manifests'' (Inr []) (list_field 100 plain_text)) (\<lambda>manifests.
     rbind (field d ''scripts'' (Inr []) (dict_field None)) (\<lambda>scripts.
     rbind (field d ''test_files'' (Inr []) (list_field 100 plain_text)) (\<lambda>tests.
     rbind (field d ''build_outputs'' (Inr []) (list_field 50 plain_text)) (\<lambda>outputs.
     rbind (field d ''quality_checks'' (Inr []) (list_field 16 (object_field (check_of_dict co)))) (\<lambda>quality.
     rbind (field d ''file_previews'' (Inr []) (dict_field (Some 24))) (\<lambda>previews.
     rbind (field d ''files_scanned'' (Inr 0) (\<lambda>v. rbind (or_invalid (co_int co v)) natural)) (\<lambda>scanned.
     rbind (field d ''truncated'' (Inr False) (\<lambda>v. or_invalid (co_bool co v))) (\<lambda>cut.
     rbind (field d ''previews_truncated'' (Inr False) (\<lambda>v. or_invalid (co_bool co v))) (\<lambda>pcut.
       Inr \<lparr>rd_manifests = manifests, rd_scripts = scripts, rd_test_files = tests,
            rd_build_outputs = outputs, rd_quality = quality, rd_previews = previews,
            rd_scanned = scanned, rd_truncated = cut, rd_previews_truncated = pcut\<rparr>)))))))))"

definition json_texts :: "(string \<times> string) list \<Rightarrow> json" where
  "json_texts m = JObj (map (\<lambda>(k, v). (k, JStr v)) m)"

definition dump_discovery :: "discovery \<Rightarrow> jdict" where
  "dump_discovery r =
     [(''manifests'', json_strs (rd_manifests r)), (''scripts'', json_texts (rd_scripts r)),
      (''test_files'', json_strs (rd_test_files r)),
      (''build_outputs'', json_strs (rd_build_outputs r)),
      (''quality_checks'', dump_checks (rd_quality r)),
      (''file_previews'', json_texts (rd_previews r)), (''files_scanned'', JInt (rd_scanned r)),
      (''truncated'', JBool (rd_truncated r)),
      (''previews_truncated'', JBool (rd_previews_truncated r))]"

record critique =
  ct_accepted :: bool
  ct_issues :: "string list"
  ct_question :: "string option"
  ct_adjudicated :: bool
  ct_reason :: "string option"
  ct_provider :: string
  ct_model :: string

definition unknown :: string where
  "unknown = ''unknown''"

definition critique_of_dict :: "coercions \<Rightarrow> jdict \<Rightarrow> critique result" where
  "critique_of_dict co d =
     rbind (field d ''accepted'' (Inl ValueError) (\<lambda>v. or_invalid (co_bool co v))) (\<lambda>accepted.
     rbind (field d ''issues'' (Inr []) (list_field 12 plain_text)) (\<lambda>issues.
     rbind (field d ''question'' (Inr None) (optional_field (text_field 0 1000))) (\<lambda>question.
     rbind (field d ''adjudicated'' (Inr False) (\<lambda>v. or_invalid (co_bool co v))) (\<lambda>adjudicated.
     rbind (field d ''adjudication_reason'' (Inr None) (optional_field (text_field 0 1000))) (\<lambda>reason.
     rbind (field d ''provider'' (Inr unknown) (text_field 0 80)) (\<lambda>provider.
     rbind (field d ''model'' (Inr unknown) (text_field 0 160)) (\<lambda>model.
       Inr \<lparr>ct_accepted = accepted, ct_issues = issues, ct_question = question,
            ct_adjudicated = adjudicated, ct_reason = reason, ct_provider = provider,
            ct_model = model\<rparr>)))))))"

definition dump_critique :: "critique \<Rightarrow> jdict" where
  "dump_critique c =
     [(''accepted'', JBool (ct_accepted c)), (''issues'', json_strs (ct_issues c)),
      (''question'', str_or_null (ct_question c)), (''adjudicated'', JBool (ct_adjudicated c)),
      (''adjudication_reason'', str_or_null (ct_reason c)), (''provider'', JStr (ct_provider c)),
      (''model'', JStr (ct_model c))]"

record identity =
  mi_provider :: string
  mi_model :: string

definition identity_of_dict :: "jdict \<Rightarrow> identity result" where
  "identity_of_dict d =
     rbind (field d ''provider'' (Inr unknown) (text_field 0 80)) (\<lambda>provider.
     rbind (field d ''model'' (Inr unknown) (text_field 0 160)) (\<lambda>model.
       Inr \<lparr>mi_provider = provider, mi_model = model\<rparr>))"

definition dump_identity :: "identity \<Rightarrow> jdict" where
  "dump_identity m = [(''provider'', JStr (mi_provider m)), (''model'', JStr (mi_model m))]"

section \<open>Proposals\<close>

datatype risk = LowRisk | MediumRisk | HighRisk

fun risk_value :: "risk \<Rightarrow> string" where
  "risk_value LowRisk = ''low''"
| "risk_value MediumRisk = ''medium''"
| "risk_value HighRisk = ''high''"

definition risk_field :: "json \<Rightarrow> risk result" where
  "risk_field v = or_invalid (find (\<lambda>k. v = JStr (risk_value k)) [LowRisk, MediumRisk, HighRisk])"

fun capability_field :: "json \<Rightarrow> capability result" where
  "capability_field (JStr s) = or_invalid (capability_of s)"
| "capability_field _ = Inl ValueError"

record proposal =
  cp_criteria :: "string list"
  cp_checks :: "contract_check list"
  cp_artifacts :: "string list"
  cp_risk :: risk
  cp_assumptions :: "string list"
  cp_confidence :: int
  cp_authority :: "capability list"

text \<open>\<^verbatim>\<open>list(dict.fromkeys(item.strip() for item in value if item.strip()))\<close>.\<close>

definition clean_texts :: "string list \<Rightarrow> string list" where
  "clean_texts xs = dedup (filter (\<lambda>s. s \<noteq> []) (map py_strip xs))"

text \<open>
  The limits and validators of the model on typed values. A proposal allows 72 checks and 48
  artifacts, a draft 96 and 64; a list is measured before its validator cleans it.
\<close>

definition settle_limits :: "nat \<Rightarrow> nat \<Rightarrow> proposal \<Rightarrow> proposal result" where
  "settle_limits max_checks max_artifacts p =
     (if cp_criteria p = [] \<or> 12 < length (cp_criteria p) \<or> max_checks < length (cp_checks p) \<or>
         max_artifacts < length (cp_artifacts p) \<or> 12 < length (cp_assumptions p) \<or>
         cp_confidence p < 0 \<or> 100 < cp_confidence p \<or> 15 < length (cp_authority p)
      then Inl ValueError
      else
        (let q = p\<lparr>cp_criteria := clean_texts (cp_criteria p),
                   cp_artifacts := clean_texts (cp_artifacts p),
                   cp_assumptions := clean_texts (cp_assumptions p)\<rparr>
         in if list_all posix_relative (cp_artifacts q) \<and> cp_criteria q \<noteq> [] then Inr q
            else Inl ValueError))"

definition proposal_of_dict :: "coercions \<Rightarrow> nat \<Rightarrow> nat \<Rightarrow> jdict \<Rightarrow> proposal result" where
  "proposal_of_dict co max_checks max_artifacts d =
     rbind (field d ''criteria'' (Inl ValueError) (list_field 12 plain_text)) (\<lambda>criteria.
     rbind (field d ''checks'' (Inr []) (list_field max_checks (object_field (check_of_dict co)))) (\<lambda>checks.
     rbind (field d ''artifacts'' (Inr []) (list_field max_artifacts plain_text)) (\<lambda>artifacts.
     rbind (field d ''risk'' (Inl ValueError) risk_field) (\<lambda>r.
     rbind (field d ''assumptions'' (Inr []) (list_field 12 plain_text)) (\<lambda>assumptions.
     rbind (field d ''confidence'' (Inl ValueError) (\<lambda>v. or_invalid (co_int co v))) (\<lambda>confidence.
     rbind (field d ''authority_requests'' (Inr []) (list_field 15 capability_field)) (\<lambda>authority.
       settle_limits max_checks max_artifacts
         \<lparr>cp_criteria = criteria, cp_checks = checks, cp_artifacts = artifacts, cp_risk = r,
          cp_assumptions = assumptions, cp_confidence = confidence, cp_authority = authority\<rparr>)))))))"

definition dump_proposal :: "proposal \<Rightarrow> jdict" where
  "dump_proposal p =
     [(''criteria'', json_strs (cp_criteria p)), (''checks'', dump_checks (cp_checks p)),
      (''artifacts'', json_strs (cp_artifacts p)), (''risk'', JStr (risk_value (cp_risk p))),
      (''assumptions'', json_strs (cp_assumptions p)), (''confidence'', JInt (cp_confidence p)),
      (''authority_requests'', json_strs (map capability_value (cp_authority p)))]"

section \<open>Drafts\<close>

text \<open>\<^verbatim>\<open>ContractDraft\<close> extends the proposal; \<open>dr_recovered\<close> is whether \<^verbatim>\<open>criteria_recovery\<close> is
  \<^verbatim>\<open>"explicit_user_goal"\<close>.\<close>

record draft =
  dr_proposal :: proposal
  dr_recovered :: bool
  dr_compiler :: identity
  dr_discovery :: discovery
  dr_clarifications :: "string list"
  dr_critique :: critique

definition contract_schema :: string where
  "contract_schema = ''loop.contract-draft/v1''"

definition recovery_value :: string where
  "recovery_value = ''explicit_user_goal''"

fun literal_field :: "string \<Rightarrow> json \<Rightarrow> unit result" where
  "literal_field want v = (if v = JStr want then Inr () else Inl ValueError)"

text \<open>\<^verbatim>\<open>ContractDraft(...)\<close> from typed values: nested models are not validated again.\<close>

definition make_draft ::
  "proposal \<Rightarrow> bool \<Rightarrow> identity \<Rightarrow> discovery \<Rightarrow> string list \<Rightarrow> critique \<Rightarrow> draft result" where
  "make_draft p recovered compiler disc clarifications crit =
     rbind (settle_limits 96 64 p) (\<lambda>q.
       if 12 < length clarifications then Inl ValueError
       else Inr \<lparr>dr_proposal = q, dr_recovered = recovered, dr_compiler = compiler,
                 dr_discovery = disc, dr_clarifications = clarifications, dr_critique = crit\<rparr>)"

definition draft_of_dict :: "coercions \<Rightarrow> jdict \<Rightarrow> draft result" where
  "draft_of_dict co d =
     rbind (proposal_of_dict co 96 64 d) (\<lambda>p.
     rbind (field d ''schema_version'' (Inr ()) (literal_field contract_schema)) (\<lambda>_.
     rbind (field d ''criteria_recovery'' (Inr None) (optional_field (literal_field recovery_value))) (\<lambda>rec.
     rbind (field d ''compiler'' (Inl ValueError) (object_field identity_of_dict)) (\<lambda>compiler.
     rbind (field d ''discovery'' (Inl ValueError) (object_field (discovery_of_dict co))) (\<lambda>disc.
     rbind (field d ''clarifications'' (Inr []) (list_field 12 plain_text)) (\<lambda>clarifications.
     rbind (field d ''critique'' (Inl ValueError) (object_field (critique_of_dict co))) (\<lambda>crit.
       Inr \<lparr>dr_proposal = p, dr_recovered = (rec \<noteq> None), dr_compiler = compiler,
            dr_discovery = disc, dr_clarifications = clarifications, dr_critique = crit\<rparr>)))))))"

definition dump_draft :: "draft \<Rightarrow> jdict" where
  "dump_draft d =
     dump_proposal (dr_proposal d) @
     [(''schema_version'', JStr contract_schema),
      (''criteria_recovery'', if dr_recovered d then JStr recovery_value else JNull),
      (''compiler'', JObj (dump_identity (dr_compiler d))),
      (''discovery'', JObj (dump_discovery (dr_discovery d))),
      (''clarifications'', json_strs (dr_clarifications d)),
      (''critique'', JObj (dump_critique (dr_critique d)))]"

section \<open>The content address\<close>

definition hash_payload :: "draft \<Rightarrow> jdict" where
  "hash_payload d =
     (if dget (dump_draft d) ''criteria_recovery'' = JNull
      then dpop ''criteria_recovery'' (dump_draft d) else dump_draft d)"

definition hash_contract :: "draft \<Rightarrow> string" where
  "hash_contract d = sha256_hex (canonical (JObj (hash_payload d)))"

text \<open>A stored draft is any JSON value.\<close>

definition verify_contract_hash :: "coercions \<Rightarrow> json \<Rightarrow> string \<Rightarrow> bool result" where
  "verify_contract_hash co stored expected =
     rbind (object_field (draft_of_dict co) stored) (\<lambda>parsed.
       Inr (expected \<noteq> [] \<and> hash_contract parsed = expected))"

section \<open>Reading back what was written\<close>

text \<open>What pydantic documents of its conversions: a value of the field's own type is kept.\<close>

definition keeps_typed :: "coercions \<Rightarrow> bool" where
  "keeps_typed co \<longleftrightarrow>
     (\<forall>n. co_int co (JInt n) = Some n) \<and> (\<forall>b. co_bool co (JBool b) = Some b) \<and>
     (\<forall>n. co_exit co (JInt n) = Some (Some n)) \<and> co_exit co (JStr ''nonzero'') = Some None"

definition strict_coercions :: coercions where
  "strict_coercions =
     \<lparr>co_int = (\<lambda>v. case v of JInt n \<Rightarrow> Some n | _ \<Rightarrow> None),
      co_bool = (\<lambda>v. case v of JBool b \<Rightarrow> Some b | _ \<Rightarrow> None),
      co_exit = (\<lambda>v. case v of JInt n \<Rightarrow> Some (Some n)
                   | JStr s \<Rightarrow> if s = ''nonzero'' then Some None else None | _ \<Rightarrow> None)\<rparr>"

lemma strict_keeps_typed: "keeps_typed strict_coercions"
  by (simp add: keeps_typed_def strict_coercions_def)

lemma keeps_typed_simps:
  assumes "keeps_typed co"
  shows "co_int co (JInt n) = Some n" "co_bool co (JBool b) = Some b"
    "co_exit co (exit_json code) = Some code"
  using assms by (auto simp: keeps_typed_def exit_json_def split: option.splits)

lemma field_simps [simp]:
  "field [] k missing f = missing"
  "field ((k', v) # d) k missing f = (if k' = k then f v else field d k missing f)"
  by (simp_all add: field_def)

lemma or_invalid_simps [simp]: "or_invalid None = Inl ValueError" "or_invalid (Some a) = Inr a"
  by (simp_all add: or_invalid_def)

lemma map_result_map: "(\<And>x. x \<in> set xs \<Longrightarrow> f (g x) = Inr x) \<Longrightarrow> map_result f (map g xs) = Inr xs"
  by (induction xs) simp_all

lemma list_field_strs [simp]: "length xs \<le> n \<Longrightarrow> list_field n plain_text (json_strs xs) = Inr xs"
  by (simp add: json_strs_def map_result_map)

lemma dict_field_texts [simp]:
  "(case hi of None \<Rightarrow> True | Some n \<Rightarrow> length m \<le> n) \<Longrightarrow> dict_field hi (json_texts m) = Inr m"
  by (cases hi) (auto simp: json_texts_def text_member_def intro!: map_result_map)

text \<open>A text that satisfies its field's limits; an absent one does.\<close>

definition fits :: "nat \<Rightarrow> string option \<Rightarrow> bool" where
  "fits n v \<longleftrightarrow> (case v of None \<Rightarrow> True | Some s \<Rightarrow> length s \<le> n)"

lemma fits_simps [simp]: "fits n None" "fits n (Some s) \<longleftrightarrow> length s \<le> n"
  by (simp_all add: fits_def)

lemma optional_text_written [simp]:
  "fits n v \<Longrightarrow> optional_field (text_field 0 n) (str_or_null v) = Inr v"
  by (cases v) (simp_all add: str_or_null_def)

lemma kind_field_value [simp]: "kind_field (JStr (kind_value k)) = Inr k"
  by (cases k) (simp_all add: kind_field_def)

lemma source_field_value [simp]: "source_field (JStr (source_value s)) = Inr s"
  by (cases s) (simp_all add: source_field_def)

lemma risk_field_value [simp]: "risk_field (JStr (risk_value r)) = Inr r"
  by (cases r) (simp_all add: risk_field_def)

lemma list_field_capabilities [simp]:
  "length cs \<le> n \<Longrightarrow> list_field n capability_field (json_strs (map capability_value cs)) = Inr cs"
  by (simp add: json_strs_def map_result_map comp_def)

text \<open>The values a validated model can hold.\<close>

definition wf_path :: "string option \<Rightarrow> bool" where
  "wf_path v \<longleftrightarrow> (case v of None \<Rightarrow> True | Some p \<Rightarrow> py_strip p = p \<and> posix_relative p)"

definition wf_check :: "contract_check \<Rightarrow> bool" where
  "wf_check c \<longleftrightarrow>
     cc_id c \<noteq> [] \<and> length (cc_id c) \<le> 80 \<and> fits 1000 (cc_command c) \<and> fits 500 (cc_path c) \<and>
     wf_path (cc_path c) \<and> fits 2000 (cc_text c) \<and> fits 2000 (cc_stdout c) \<and>
     length (cc_criteria c) \<le> 12 \<and> target_given c"

definition wf_discovery :: "discovery \<Rightarrow> bool" where
  "wf_discovery r \<longleftrightarrow>
     length (rd_manifests r) \<le> 100 \<and> length (rd_test_files r) \<le> 100 \<and>
     length (rd_build_outputs r) \<le> 50 \<and> length (rd_quality r) \<le> 16 \<and>
     list_all wf_check (rd_quality r) \<and> length (rd_previews r) \<le> 24 \<and> 0 \<le> rd_scanned r"

definition wf_critique :: "critique \<Rightarrow> bool" where
  "wf_critique c \<longleftrightarrow>
     length (ct_issues c) \<le> 12 \<and> fits 1000 (ct_question c) \<and> fits 1000 (ct_reason c) \<and>
     length (ct_provider c) \<le> 80 \<and> length (ct_model c) \<le> 160"

definition wf_identity :: "identity \<Rightarrow> bool" where
  "wf_identity m \<longleftrightarrow> length (mi_provider m) \<le> 80 \<and> length (mi_model m) \<le> 160"

definition wf_draft :: "draft \<Rightarrow> bool" where
  "wf_draft d \<longleftrightarrow>
     settle_limits 96 64 (dr_proposal d) = Inr (dr_proposal d) \<and>
     list_all wf_check (cp_checks (dr_proposal d)) \<and> wf_identity (dr_compiler d) \<and>
     wf_discovery (dr_discovery d) \<and> length (dr_clarifications d) \<le> 12 \<and>
     wf_critique (dr_critique d)"

lemma valid_path_wf [simp]: "wf_path v \<Longrightarrow> valid_path v = Inr v"
  by (cases v) (simp_all add: wf_path_def valid_path_def)

lemma check_written: "keeps_typed co \<Longrightarrow> wf_check c \<Longrightarrow> check_of_dict co (dump_check c) = Inr c"
  by (cases c) (simp add: check_of_dict_def dump_check_def wf_check_def keeps_typed_simps Let_def Suc_le_eq)

lemma checks_written:
  assumes "keeps_typed co" "list_all wf_check cs" "length cs \<le> n"
  shows "list_field n (object_field (check_of_dict co)) (dump_checks cs) = Inr cs"
  using assms by (auto simp: dump_checks_def list_all_iff check_written intro!: map_result_map)

lemma discovery_written:
  assumes "keeps_typed co" "wf_discovery r"
  shows "discovery_of_dict co (dump_discovery r) = Inr r"
  using assms
  by (simp add: discovery_of_dict_def dump_discovery_def wf_discovery_def keeps_typed_simps
      checks_written natural_def)

lemma critique_written:
  "keeps_typed co \<Longrightarrow> wf_critique c \<Longrightarrow> critique_of_dict co (dump_critique c) = Inr c"
  by (simp add: critique_of_dict_def dump_critique_def wf_critique_def keeps_typed_simps)

lemma identity_written: "wf_identity m \<Longrightarrow> identity_of_dict (dump_identity m) = Inr m"
  by (simp add: identity_of_dict_def dump_identity_def wf_identity_def)

lemma settled_limits:
  assumes "settle_limits m n p = Inr q"
  shows "length (cp_criteria p) \<le> 12" "length (cp_checks p) \<le> m" "length (cp_artifacts p) \<le> n"
    "length (cp_assumptions p) \<le> 12" "length (cp_authority p) \<le> 15" "0 \<le> cp_confidence p"
    "cp_confidence p \<le> 100" "cp_criteria q \<noteq> []" "list_all posix_relative (cp_artifacts q)"
    "q = p\<lparr>cp_criteria := clean_texts (cp_criteria p), cp_artifacts := clean_texts (cp_artifacts p),
           cp_assumptions := clean_texts (cp_assumptions p)\<rparr>"
  using assms by (auto simp: settle_limits_def Let_def split: if_splits)

lemma draft_written:
  assumes "keeps_typed co" "wf_draft d"
  shows "draft_of_dict co (dump_draft d) = Inr d"
proof -
  let ?p = "dr_proposal d"
  have p: "settle_limits 96 64 ?p = Inr ?p" using assms by (simp add: wf_draft_def)
  note limits = settled_limits(1-7) [OF p]
  have "proposal_of_dict co 96 64 (dump_draft d) = Inr ?p"
    using assms limits p
    by (cases "dr_proposal d") (simp add: proposal_of_dict_def dump_draft_def dump_proposal_def wf_draft_def
        keeps_typed_simps checks_written)
  then show ?thesis
    using assms
    by (cases "dr_recovered d")
      (simp_all add: draft_of_dict_def dump_draft_def dump_proposal_def wf_draft_def identity_written
        discovery_written critique_written del: optional_field.simps, simp_all)
qed

end
