(* ===== verification/Agent_Grants.thy ===== *)
theory Agent_Grants
  imports Agent_Phases Skills Authority_Tokens Contract_Schema
begin

text \<open>
  \<^verbatim>\<open>AgentReactService._run_claimed\<close>, the authority of a run: the capabilities and hosts a task
  gets under its skill, the conditions a run must meet before anything starts, the sandbox, and
  the narrowed authority each provider gateway is given. All of it is computed from the row, the
  manifest and the settings. A refusal is the error text and the reason of the transition.
\<close>

section \<open>Capabilities and hosts\<close>

definition skill_ceiling :: "skill_manifest \<Rightarrow> capability set result" where
  "skill_ceiling m =
     (case sk_capabilities m of
        Some vs \<Rightarrow> parse_capabilities vs
      | None \<Rightarrow> Inr (legacy_capabilities (sk_tools m) (sk_egress m) False False False False))"

definition requested_by :: "task \<Rightarrow> capability set result" where
  "requested_by t =
     (case requested_capabilities t of
        Some vs \<Rightarrow> parse_capabilities vs
      | None \<Rightarrow> Inr (legacy_capabilities (allowed_tool_names t) (allow_egress t) (use_browser t)
                  (use_email t) (use_calendar t) (use_vision t)))"

definition resolve_capabilities :: "skill_manifest option \<Rightarrow> task \<Rightarrow> capability set result" where
  "resolve_capabilities sk t =
     (case sk of
        None \<Rightarrow> requested_by t
      | Some m \<Rightarrow> rbind (skill_ceiling m) (\<lambda>limit. rbind (requested_by t) (\<lambda>caps. Inr (caps \<inter> limit))))"

text \<open>\<^verbatim>\<open>sorted(resolved_egress_hosts)\<close>; the error is that of \<open>normalize_hosts\<close>.\<close>

definition resolve_hosts :: "host_lib \<Rightarrow> skill_manifest option \<Rightarrow> task \<Rightarrow> string + string list" where
  "resolve_hosts lib sk t =
     (case normalize_hosts lib (or_empty (task_egress_hosts t)) of
        Inl e \<Rightarrow> Inl e
      | Inr hosts \<Rightarrow>
          (case Option.bind sk sk_hosts of
             None \<Rightarrow> Inr (sorted_set hosts)
           | Some limit \<Rightarrow> map_sum id sorted_set (intersect_host_policies lib hosts limit)))"

section \<open>The gates before the sandbox\<close>

type_synonym refusal = "string \<times> string"

definition email_group :: "capability set" where "email_group = {EmailRead, EmailSend}"
definition calendar_group :: "capability set" where "calendar_group = {CalendarRead, CalendarWrite}"
definition destination_group :: "capability set" where "destination_group = {NetShell, NetBrowser}"
definition host_mcp_group :: "capability set" where "host_mcp_group = {ResearchRead, QaBrowser}"

definition protocol_group :: "capability set" where
  "protocol_group = email_group \<union> calendar_group \<union> {Vision}"

definition meets :: "capability set \<Rightarrow> capability set \<Rightarrow> bool" where
  "meets caps grp \<longleftrightarrow> caps \<inter> grp \<noteq> {}"

definition unavailable_host_mcp :: "settings \<Rightarrow> capability set \<Rightarrow> string list" where
  "unavailable_host_mcp c caps =
     (if ResearchRead \<in> caps \<and> \<not> (agent_sibyl_enabled c \<and> agent_allow_host_providers c)
      then [''Sibyl MCP''] else []) @
     (if QaBrowser \<in> caps \<and> \<not> (agent_argus_enabled c \<and> agent_allow_host_providers c)
      then [''Argus MCP''] else [])"

definition gateway_unset :: "settings \<Rightarrow> capability set \<Rightarrow> capability set \<Rightarrow> string option \<Rightarrow> bool" where
  "gateway_unset c caps grp url \<longleftrightarrow>
     meets caps grp \<and> \<not> nonempty_opt url \<and> \<not> nonempty_opt (agent_provider_gateway_url c) \<and>
     \<not> agent_allow_host_providers c"

definition unavailable_gateways :: "settings \<Rightarrow> capability set \<Rightarrow> string list" where
  "unavailable_gateways c caps =
     (if NetBrowser \<in> caps \<and> \<not> nonempty_opt (agent_browser_gateway_url c) \<and> \<not> agent_allow_host_providers c
      then [''Browser Gateway''] else []) @
     (if gateway_unset c caps email_group (agent_email_gateway_url c) then [''Email Gateway''] else []) @
     (if gateway_unset c caps calendar_group (agent_calendar_gateway_url c) then [''Calendar Gateway''] else []) @
     (if gateway_unset c caps {Vision} (agent_vision_gateway_url c) then [''Vision Gateway''] else [])"

text \<open>The first three gates in their order.\<close>

definition availability_refusal :: "settings \<Rightarrow> capability set \<Rightarrow> string list \<Rightarrow> refusal option" where
  "availability_refusal c caps hosts =
     (if unavailable_host_mcp c caps \<noteq> [] then
        Some (''Requested capability is unavailable: '' @ py_join '', '' (unavailable_host_mcp c caps) @ ''.'',
          ''host_mcp_unavailable'')
      else if agent_require_egress_hosts c \<and> meets caps destination_group \<and> clean_hosts (Some hosts) = {} then
        Some (''Shell/browser network authority requires explicit egress_hosts.'', ''egress_hosts_required'')
      else if unavailable_gateways c caps \<noteq> [] then
        Some (''Requested capabilities are disabled because no isolated '' @
          py_join '' and '' (unavailable_gateways c caps) @ '' '' @
          (if length (unavailable_gateways c caps) = 1 then ''is'' else ''are'') @ '' configured.'',
          ''isolated_gateway_unavailable'')
      else None)"

record provider_hosts =
  ph_email :: "string list"
  ph_calendar :: "string list"
  ph_vision :: "string list"

definition configured_provider_hosts :: "host_lib \<Rightarrow> string \<Rightarrow> string + string list" where
  "configured_provider_hosts lib value =
     normalize_hosts lib (filter (\<lambda>h. h \<noteq> []) (map py_strip (split_char (CHR '','') value)))"

definition hosts_if :: "host_lib \<Rightarrow> bool \<Rightarrow> string \<Rightarrow> string + string list" where
  "hosts_if lib wanted value = (if wanted then configured_provider_hosts lib value else Inr [])"

definition provider_egress_hosts ::
  "settings \<Rightarrow> host_lib \<Rightarrow> capability set \<Rightarrow> string + provider_hosts" where
  "provider_egress_hosts c lib caps =
     (case hosts_if lib (meets caps email_group) (agent_email_egress_hosts c) of
        Inl e \<Rightarrow> Inl e
      | Inr email \<Rightarrow>
          (case hosts_if lib (meets caps calendar_group) (agent_calendar_egress_hosts c) of
             Inl e \<Rightarrow> Inl e
           | Inr calendar \<Rightarrow>
               (case hosts_if lib (Vision \<in> caps) (agent_vision_egress_hosts c) of
                  Inl e \<Rightarrow> Inl e
                | Inr vision \<Rightarrow>
                    Inr \<lparr>ph_email = email, ph_calendar = calendar, ph_vision = vision\<rparr>)))"

definition hosts_missing ::
  "settings \<Rightarrow> capability set \<Rightarrow> capability set \<Rightarrow> string option \<Rightarrow> string list \<Rightarrow> bool" where
  "hosts_missing c caps grp url hosts \<longleftrightarrow>
     meets caps grp \<and> (nonempty_opt url \<or> nonempty_opt (agent_provider_gateway_url c)) \<and> hosts = []"

definition missing_provider_hosts :: "settings \<Rightarrow> capability set \<Rightarrow> provider_hosts \<Rightarrow> string list" where
  "missing_provider_hosts c caps ph =
     (if hosts_missing c caps email_group (agent_email_gateway_url c) (ph_email ph)
      then [''Email Gateway''] else []) @
     (if hosts_missing c caps calendar_group (agent_calendar_gateway_url c) (ph_calendar ph)
      then [''Calendar Gateway''] else []) @
     (if hosts_missing c caps {Vision} (agent_vision_gateway_url c) (ph_vision ph)
      then [''Vision Gateway''] else [])"

definition provider_gate :: "settings \<Rightarrow> host_lib \<Rightarrow> capability set \<Rightarrow> refusal + provider_hosts" where
  "provider_gate c lib caps =
     (case provider_egress_hosts c lib caps of
        Inl e \<Rightarrow> Inl (''Invalid provider destination authority: '' @ e, ''invalid_provider_authority'')
      | Inr ph \<Rightarrow>
          if missing_provider_hosts c caps ph \<noteq> [] then
            Inl (''Provider gateways require configured egress hosts: '' @
              py_join '', '' (missing_provider_hosts c caps ph), ''provider_egress_hosts_required'')
          else Inr ph)"

section \<open>The sandbox\<close>

record sandbox_choice =
  sx_image :: "string option"
  sx_label :: string
  sx_backend :: "string option"

definition inline_sandbox :: sandbox_choice where
  "inline_sandbox = \<lparr>sx_image = None, sx_label = ''inline'', sx_backend = None\<rparr>"

definition sandbox_image_name :: "settings \<Rightarrow> string" where
  "sandbox_image_name c =
     (if nonempty_opt (agent_sandbox_image_digest c)
      then takeWhile (\<lambda>x. x \<noteq> CHR ''@'') (agent_sandbox_image c) @ ''@'' @ the (agent_sandbox_image_digest c)
      else agent_sandbox_image c)"

text \<open>
  \<open>in_cluster\<close> is the presence of the service account token, \<open>present\<close> the answer of
  \<^verbatim>\<open>docker_available\<close> and \<^verbatim>\<open>image_present\<close>.
\<close>

definition resolve_sandbox ::
  "settings \<Rightarrow> bool \<Rightarrow> (string \<Rightarrow> bool) \<Rightarrow> string + sandbox_choice" where
  "resolve_sandbox c in_cluster present =
     (let img = sandbox_image_name c in
      if agent_sandbox c \<in> {''off'', ''inline''} then Inr inline_sandbox
      else if agent_sandbox_backend c = ''kubernetes'' \<or> agent_sandbox_backend c = ''auto'' \<and> in_cluster
      then Inr \<lparr>sx_image = Some img, sx_label = ''kubernetes'', sx_backend = Some ''kubernetes''\<rparr>
      else if present img
      then Inr \<lparr>sx_image = Some img, sx_label = ''container'', sx_backend = Some ''docker''\<rparr>
      else if agent_sandbox c \<in> {''required'', ''container''}
      then Inl (''Required sandbox image '' @ str_repr img @ '' is unavailable; refusing host execution.'')
      else Inr inline_sandbox)"

definition shell_isolated :: "settings \<Rightarrow> string \<Rightarrow> bool" where
  "shell_isolated c label \<longleftrightarrow>
     label \<noteq> ''inline'' \<and> nonempty_opt (agent_egress_proxy_url c) \<and> nonempty_opt (agent_egress_proxy_audit_url c)"

section \<open>Gateways and their tokens\<close>

definition gateway_grants :: "settings \<Rightarrow> capability set \<Rightarrow> capability set" where
  "gateway_grants c caps =
     (if nonempty_opt (agent_provider_gateway_url c) then caps \<inter> protocol_group
      else
        (if nonempty_opt (agent_email_gateway_url c) then caps \<inter> email_group else {}) \<union>
        (if nonempty_opt (agent_calendar_gateway_url c) then caps \<inter> calendar_group else {}) \<union>
        (if nonempty_opt (agent_vision_gateway_url c) then caps \<inter> {Vision} else {}))
     \<union> (if nonempty_opt (agent_browser_gateway_url c) then caps \<inter> {NetBrowser} else {})"

definition needs_token :: "settings \<Rightarrow> capability set \<Rightarrow> bool" where
  "needs_token c caps \<longleftrightarrow> gateway_grants c caps \<noteq> {} \<or> NetShell \<in> caps"

definition isolation_refusal ::
  "settings \<Rightarrow> (string \<Rightarrow> string option) \<Rightarrow> capability set \<Rightarrow> string \<Rightarrow> refusal option" where
  "isolation_refusal c read_text caps label =
     (if NetShell \<in> caps \<and> \<not> shell_isolated c label then
        Some (''Shell network authority requires an isolated sandbox and destination-enforcing egress proxy.'',
          ''shell_network_isolation_required'')
      else if needs_token c caps \<and> \<not> nonempty_opt (authority_signing_key_pem read_text c) then
        Some (''Isolated network/provider execution requires an authority signing key.'',
          ''authority_signing_key_missing'')
      else None)"

text \<open>\<open>sc_hosts\<close> is \<open>None\<close> for the hosts of the task at the time a token is drawn.\<close>

record token_scope =
  sc_capabilities :: "capability set"
  sc_hosts :: "string list option"

record gateway_client =
  gc_url :: string
  gc_scope :: token_scope
  gc_audience :: string

definition scope :: "capability set \<Rightarrow> string list option \<Rightarrow> token_scope" where
  "scope caps hosts = \<lparr>sc_capabilities = caps, sc_hosts = hosts\<rparr>"

definition url_text :: "string option \<Rightarrow> string" where
  "url_text url = (case url of None \<Rightarrow> [] | Some u \<Rightarrow> u)"

definition with_vision_read :: "capability set \<Rightarrow> capability set \<Rightarrow> capability set" where
  "with_vision_read caps granted =
     (if Vision \<in> granted \<and> FsRead \<in> caps then insert FsRead granted else granted)"

definition protocol_clients :: "settings \<Rightarrow> capability set \<Rightarrow> provider_hosts \<Rightarrow> gateway_client list" where
  "protocol_clients c caps ph =
     (let granted = caps \<inter> protocol_group in
      if granted = {} then []
      else if nonempty_opt (agent_provider_gateway_url c) then
        [\<lparr>gc_url = url_text (agent_provider_gateway_url c),
          gc_scope = scope (with_vision_read caps granted)
            (Some ((if meets caps email_group then ph_email ph else []) @
                   (if meets caps calendar_group then ph_calendar ph else []) @
                   (if Vision \<in> caps then ph_vision ph else []))),
          gc_audience = ''loop-provider-gateway''\<rparr>]
      else
        (if meets caps email_group \<and> nonempty_opt (agent_email_gateway_url c) then
           [\<lparr>gc_url = url_text (agent_email_gateway_url c),
             gc_scope = scope (caps \<inter> email_group) (Some (ph_email ph)),
             gc_audience = ''loop-email-gateway''\<rparr>] else []) @
        (if meets caps calendar_group \<and> nonempty_opt (agent_calendar_gateway_url c) then
           [\<lparr>gc_url = url_text (agent_calendar_gateway_url c),
             gc_scope = scope (caps \<inter> calendar_group) (Some (ph_calendar ph)),
             gc_audience = ''loop-calendar-gateway''\<rparr>] else []) @
        (if Vision \<in> granted \<and> nonempty_opt (agent_vision_gateway_url c) then
           [\<lparr>gc_url = url_text (agent_vision_gateway_url c),
             gc_scope = scope (with_vision_read caps {Vision}) (Some (ph_vision ph)),
             gc_audience = ''loop-vision-gateway''\<rparr>] else []))"

definition gateway_clients :: "settings \<Rightarrow> capability set \<Rightarrow> provider_hosts \<Rightarrow> gateway_client list" where
  "gateway_clients c caps ph =
     protocol_clients c caps ph @
     (if NetBrowser \<in> gateway_grants c caps then
        [\<lparr>gc_url = url_text (agent_browser_gateway_url c), gc_scope = scope {NetBrowser} None,
          gc_audience = ''loop-browser-gateway''\<rparr>] else [])"

definition gateway_tools :: "(capability \<times> string) list" where
  "gateway_tools =
     [(EmailRead, ''read_inbox''), (EmailSend, ''send_email''), (CalendarRead, ''list_events''),
      (CalendarWrite, ''create_event''), (Vision, ''see_image'')]"

definition missing_gateway_tools :: "capability set \<Rightarrow> string list \<Rightarrow> string \<Rightarrow> string list" where
  "missing_gateway_tools granted offered browser_specs =
     map (\<lambda>(c, _). capability_value c)
       (filter (\<lambda>(c, tool). c \<in> granted \<and> tool \<notin> set offered) gateway_tools) @
     (if NetBrowser \<in> granted \<and> py_strip browser_specs = [] then [capability_value NetBrowser] else [])"

end
