(* ===== verification/Agent_Loop.thy ===== *)
theory Agent_Loop
  imports Agent_Phases
begin

text \<open>
  \<^verbatim>\<open>AgentReactService._run_loop\<close>: the think, act, observe loop. \<open>locals\<close> holds the local
  variables of the loop; the number of actions without progress is the one the guard keeps.
  The loop runs over the step numbers \<^verbatim>\<open>range(start, max_steps + 1)\<close>, so it ends.
\<close>

record locals =
  lo_guard :: guard
  lo_approval :: bool
  lo_reserve :: int
  lo_retries :: int
  lo_rejected :: "string option"
  lo_writes :: nat
  lo_last_path :: "string option"
  lo_skipped :: "int option"

datatype flow = Over | Next locals

definition over :: "('w, unit) agent_act \<Rightarrow> ('w, flow) agent_act" where
  "over m = thenE m (ret Over)"

definition marker :: "('w, 'k, 'p) agent_env \<Rightarrow> ('w, string) agent_act" where
  "marker env = gets (\<lambda>s. state_marker (ae_mtime env (ag_world s)) (ag_ws s))"

definition run_tool :: "('w, 'k, 'p) agent_env \<Rightarrow> string \<Rightarrow> jdict \<Rightarrow> ('w, tool_result) agent_act" where
  "run_tool env tool args s =
     (case ae_execute env (ag_saved s) (ag_task s) tool args (ag_ws s, (authority_audit (ag_task s), ag_world s)) of
        (r, (ws, (audit, w))) \<Rightarrow>
          (r, s\<lparr>ag_ws := ws, ag_task := (ag_task s)\<lparr>authority_audit := audit\<rparr>, ag_world := w\<rparr>))"

section \<open>The limits\<close>

definition stop_checks ::
  "('w, 'k, 'p) agent_env \<Rightarrow> bool \<Rightarrow> int \<Rightarrow> locals \<Rightarrow> ('w, flow) agent_act" where
  "stop_checks env with_budget number lo =
     with_task (\<lambda>t.
       if max_steps t \<le> number then over (finish_run env MaxSteps)
       else if with_budget \<and> token_budget t \<le> tokens_used t then over (finish_run env BudgetExhausted)
       else if agent_stuck_threshold (ae_settings env) \<le> int (g_no_progress (lo_guard lo))
       then over (finish_run env Stuck)
       else ret (Next lo))"

section \<open>Finishing\<close>

definition rejected ::
  "('w, 'k, 'p) agent_env \<Rightarrow> string \<Rightarrow> int \<Rightarrow> locals \<Rightarrow> ('w, flow) agent_act \<Rightarrow> ('w, flow) agent_act" where
  "rejected env what score lo continue =
     (if agent_max_finish_retries (ae_settings env) < lo_retries lo
      then over (thenE (on_task (\<lambda>t. t\<lparr>run_summary := Some what, verification_score := score\<rparr>))
             (finish_run env Stuck))
      else continue)"

definition reject_verification :: "int \<Rightarrow> ('w, unit) agent_act" where
  "reject_verification score =
     thenE (transition_to VerificationRejected (''verification_rejected:score='' @ show_int score) None) ag_commit"

definition finish_step ::
  "('w, 'k, 'p) agent_env \<Rightarrow> int \<Rightarrow> string \<Rightarrow> jdict \<Rightarrow> int \<Rightarrow> locals \<Rightarrow> ('w, flow) agent_act" where
  "finish_step env number thought args tokens lo =
     bindE (marker env) (\<lambda>now.
       if lo_rejected lo = Some now then
         over (thenE (record_step env number thought ''finish'' args
                (''Blocked: the previous finish attempt failed on this unchanged '' @
                 ''workspace. Repeating the verifier cannot create evidence; change '' @
                 ''the workspace or run a new check before finishing again.'') BlockedStatus tokens)
               (finish_run env Stuck))
       else
         thenE (transition_to VerificationRequested ''finish_requested'' None)
         (bindE (handle_finish env args thought number tokens) (\<lambda>(ended, score).
            if ended then ret Over
            else
              thenE (reject_verification score)
                (let lo' = lo\<lparr>lo_rejected := Some now, lo_retries := lo_retries lo + 1\<rparr>
                 in rejected env (finish_summary args) score lo' (ret (Next lo'))))))"

section \<open>Remembering and delegating\<close>

definition observed :: "string \<Rightarrow> jdict \<Rightarrow> string \<Rightarrow> tool_status \<Rightarrow> bool \<Rightarrow> bool \<Rightarrow> locals \<Rightarrow> locals" where
  "observed tool args obs st force changed lo =
     lo\<lparr>lo_guard := fst (observe (lo_guard lo) tool args obs st force changed)\<rparr>"

definition last_entry :: "('w, history_entry) agent_act" where
  "last_entry = gets (\<lambda>s. last (ag_history s))"

definition refused_step ::
  "('w, 'k, 'p) agent_env \<Rightarrow> int \<Rightarrow> string \<Rightarrow> string \<Rightarrow> jdict \<Rightarrow> int \<Rightarrow> locals \<Rightarrow> ('w, flow) agent_act" where
  "refused_step env number thought tool args tokens lo =
     thenE (recorded env (''action_blocked:'' @ tool) number thought tool args
              (observation (not_permitted tool)) BlockedStatus tokens)
     (bindE last_entry (\<lambda>e.
        stop_checks env False number (observed tool args (he_observation e) BlockedStatus False False lo)))"

definition remember_step ::
  "('w, 'k, 'p) agent_env \<Rightarrow> int \<Rightarrow> string \<Rightarrow> jdict \<Rightarrow> int \<Rightarrow> locals \<Rightarrow> ('w, flow) agent_act" where
  "remember_step env number thought args tokens lo =
     (let memo = py_strip (py_str (dget_or args ''note'' (JStr [])));
          topic = dget args ''topic''
      in bindE (begin_operation env number thought ''remember'' args tokens) (\<lambda>args'.
         bindE (outside (ae_remember env memo (if truthy topic then Some (py_str topic) else None))) (\<lambda>obs.
         thenE (if memo = [] then ret ()
                else modify (\<lambda>s. s\<lparr>ag_memory := py_strip (ag_memory s @ nl @ ''- '' @ memo)\<rparr>))
         (thenE (recorded env ''action_recorded:remember'' number thought ''remember'' args' obs OkStatus tokens)
           (stop_checks env False number (observed ''remember'' args' obs OkStatus False False lo))))))"

definition delegate ::
  "('w, 'k, 'p) agent_env \<Rightarrow> int \<Rightarrow> string \<Rightarrow> jdict \<Rightarrow> int \<Rightarrow> locals \<Rightarrow> ('w, jdict) agent_act" where
  "delegate env number thought args tokens lo =
     (case preflight (ae_settings env) (lo_guard lo) ''spawn'' args of
        Some msg \<Rightarrow>
          thenE (recorded env ''action_blocked:spawn'' number thought ''spawn'' args msg BlockedStatus tokens)
            (ret args)
      | None \<Rightarrow>
          bindE (begin_operation env number thought ''spawn'' args tokens) (\<lambda>args'.
            thenE (handle_spawn env args' thought number tokens) (ret args')))"

definition spawn_step ::
  "('w, 'k, 'p) agent_env \<Rightarrow> int \<Rightarrow> string \<Rightarrow> jdict \<Rightarrow> int \<Rightarrow> locals \<Rightarrow> ('w, flow) agent_act" where
  "spawn_step env number thought args tokens lo =
     bindE (delegate env number thought args tokens lo) (\<lambda>args'.
     bindE last_entry (\<lambda>e.
       stop_checks env True number
         (observed ''spawn'' args' (he_observation e) (he_status e) False False lo)))"

section \<open>Tools\<close>

definition count_writes :: "string option \<Rightarrow> jdict \<Rightarrow> locals \<Rightarrow> locals" where
  "count_writes tool args lo =
     (case tool of
        None \<Rightarrow> lo
      | Some t \<Rightarrow>
          if t \<in> set mutation_tools then
            (let path = py_str (dget_or args ''path'' (JStr []))
             in lo\<lparr>lo_writes := (if lo_last_path lo = Some path then lo_writes lo + 1 else 1),
                   lo_last_path := Some path\<rparr>)
          else lo\<lparr>lo_writes := 0, lo_last_path := None\<rparr>)"

definition approval_reason :: "string option \<Rightarrow> jdict \<Rightarrow> locals \<Rightarrow> string option" where
  "approval_reason tool args lo =
     (if tool = Some ''run_command'' \<and> lo_approval lo then
        (case evaluate_command (run_command_arg args) of (NeedsApproval, r) \<Rightarrow> Some r | _ \<Rightarrow> None)
      else None)"

definition route_of :: "('w, 'k, 'p) agent_env \<Rightarrow> string option \<Rightarrow> jdict \<Rightarrow> locals \<Rightarrow> dispatch_route" where
  "route_of env tool args lo =
     route tool loop_tools
       (case tool of None \<Rightarrow> None | Some t \<Rightarrow> preflight (ae_settings env) (lo_guard lo) t args)
       (lo_writes lo) (approval_reason tool args lo) (lo_last_path lo)"

definition rewrite_nudge :: "string \<Rightarrow> locals \<Rightarrow> string" where
  "rewrite_nudge tool lo =
     (if tool \<in> set mutation_tools \<and> lo_writes lo = 2
      then nl @ ''[Run this file (run_command) or call finish with checks; do not rewrite it again.]''
      else [])"

definition evidence_notice :: "string \<Rightarrow> bool \<Rightarrow> string" where
  "evidence_notice evidence ready =
     (if evidence \<noteq> [] \<and> \<not> ready then
        nl @ ''Latest automatic contract check after the previous action:'' @ nl @
        ''[DATA] '' @ take 3000 evidence @ nl @
        ''Use this failure directly. After an explicit failed check, re-read at most '' @
        ''one changed file only if exact context is needed for the corrective edit; '' @
        ''do not re-explore unchanged files.'' @ nl
      else [])"

definition auto_finish_thought :: string where
  "auto_finish_thought = ''[Loop] User-required checks pass; submit the result for verification.''"

definition auto_finish_args :: jdict where
  "auto_finish_args =
     [(''summary'', JStr ''Loop submitted the workspace after every user-required check passed.'')]"

definition auto_finish ::
  "('w, 'k, 'p) agent_env \<Rightarrow> int \<Rightarrow> locals \<Rightarrow> ('w, flow) agent_act" where
  "auto_finish env number lo =
     thenE (transition_to VerificationRequested ''contract_evidence_ready'' None)
     (bindE (handle_finish env auto_finish_args auto_finish_thought (number + 1) 0) (\<lambda>(ended, score).
        if ended then ret Over
        else
          thenE (reject_verification score)
          (bindE (marker env) (\<lambda>now.
             let lo' = lo\<lparr>lo_skipped := Some (number + 1), lo_rejected := Some now,
                          lo_retries := lo_retries lo + 1\<rparr>
             in rejected env (finish_summary auto_finish_args) score lo'
                  (with_task (\<lambda>t. if token_budget t \<le> tokens_used t
                     then over (finish_run env BudgetExhausted)
                     else stop_checks env True number lo'))))))"

text \<open>After a recorded action: evidence that every contract check passes submits the result.\<close>

definition collect_evidence ::
  "('w, 'k, 'p) agent_env \<Rightarrow> int \<Rightarrow> string option \<Rightarrow> locals \<Rightarrow> ('w, bool \<times> locals) agent_act" where
  "collect_evidence env number tool lo =
     with_task (\<lambda>t.
       if \<not> number < max_steps t then ret (False, lo)
       else
         bindE (contract_evidence_status env) (\<lambda>(ready, evidence).
           thenE (modify (\<lambda>s. s\<lparr>ag_notice := evidence_notice evidence ready\<rparr>))
             (ret (ready,
                if evidence \<noteq> [] \<and> \<not> ready \<and> tool \<noteq> Some ''write_file''
                then lo\<lparr>lo_guard := permit_reinspection None (lo_guard lo)\<rparr> else lo))))"

definition settle ::
  "('w, 'k, 'p) agent_env \<Rightarrow> int \<Rightarrow> string option \<Rightarrow> tool_status \<Rightarrow> bool \<Rightarrow> locals \<Rightarrow> ('w, flow) agent_act" where
  "settle env number tool st changed lo =
     (if st = OkStatus \<and> (tool = Some ''run_command'' \<or> changed \<and> (\<exists>t \<in> set mutation_tools. tool = Some t)) then
        bindE (collect_evidence env number tool lo) (\<lambda>(ready, lo').
          if ready then auto_finish env number lo' else stop_checks env True number lo')
      else stop_checks env True number lo)"

definition tool_name :: "string option \<Rightarrow> string" where
  "tool_name tool = (case tool of None \<Rightarrow> ''invalid'' | Some t \<Rightarrow> t)"

definition record_action ::
  "('w, 'k, 'p) agent_env \<Rightarrow> int \<Rightarrow> string \<Rightarrow> string option \<Rightarrow> jdict \<Rightarrow> string \<Rightarrow> tool_status \<Rightarrow> int \<Rightarrow>
     string \<Rightarrow> locals \<Rightarrow> ('w, flow) agent_act" where
  "record_action env number thought tool args obs st tokens before_marker lo =
     thenE (recorded env (''action_recorded:'' @ tool_name tool @ '':'' @ tool_status_value st)
              number thought (tool_name tool) args obs st tokens)
     (bindE (marker env) (\<lambda>now.
        let changed = (now \<noteq> before_marker);
            lo1 = (if st = OkStatus then lo\<lparr>lo_rejected := None\<rparr> else lo)
        in settle env number tool st changed
             (observed (tool_name tool) args obs st (2 \<le> lo_writes lo) changed lo1)))"

definition execute_step ::
  "('w, 'k, 'p) agent_env \<Rightarrow> int \<Rightarrow> string \<Rightarrow> string option \<Rightarrow> jdict \<Rightarrow> int \<Rightarrow> locals \<Rightarrow> ('w, flow) agent_act" where
  "execute_step env number thought tool args tokens lo0 =
     (let lo = count_writes tool args lo0 in
      bindE (marker env) (\<lambda>before_marker.
        case route_of env tool args lo of
          dispatch_route.Invalid obs \<Rightarrow> record_action env number thought tool args obs ErrorStatus tokens before_marker lo
        | dispatch_route.Blocked obs \<Rightarrow> record_action env number thought tool args obs BlockedStatus tokens before_marker lo
        | dispatch_route.Approval reason \<Rightarrow> over (pause_for_approval env args thought number tokens reason)
        | dispatch_route.Execute \<Rightarrow>
            bindE (begin_operation env number thought (tool_name tool) args tokens) (\<lambda>args'.
            bindE (run_tool env (tool_name tool) args') (\<lambda>r.
              record_action env number thought tool args'
                (observation r @ rewrite_nudge (tool_name tool) lo) (result_status r) tokens before_marker lo))))"

section \<open>One iteration\<close>

definition act_on ::
  "('w, 'k, 'p) agent_env \<Rightarrow> int \<Rightarrow> decision \<Rightarrow> int \<Rightarrow> locals \<Rightarrow> ('w, flow) agent_act" where
  "act_on env number d tokens lo =
     (let tool = de_tool d; args = de_args d; thought = de_thought d in
      if tool = Some ''finish'' then finish_step env number thought args tokens lo
      else
        thenE (transition_to ActionSelected (''action_selected:'' @ tool_name tool) None)
          (if tool = Some ''ask_user'' then over (pause_for_user env args thought number tokens)
           else if tool \<in> {Some ''remember'', Some ''spawn''} \<and>
                   \<not> permits (ae_envelope env) (tool_name tool) None
           then refused_step env number thought (tool_name tool) args tokens lo
           else if tool = Some ''remember'' then remember_step env number thought args tokens lo
           else if tool = Some ''spawn'' then spawn_step env number thought args tokens lo
           else if tool = Some ''send_email'' then
             over (pause_for_action env ''send_email'' args thought number tokens (email_request args))
           else if tool = Some ''create_event'' then
             over (pause_for_action env ''create_event'' args thought number tokens (event_request args))
           else execute_step env number thought tool args tokens lo))"

definition plan_budget :: "settings \<Rightarrow> task \<Rightarrow> context_budget" where
  "plan_budget c t = allocate_budget (token_budget t) (tokens_used t) (agent_verification_token_reserve c)"

definition plan_request_of ::
  "('w, 'k, 'p) agent_env \<Rightarrow> int \<Rightarrow> locals \<Rightarrow> 'w agent \<Rightarrow> plan_request" where
  "plan_request_of env number lo s =
     (let t = ag_task s; c = ae_settings env in
      \<lparr>pr_goal = goal t, pr_rubric = rubric t, pr_tree = ws_tree 200 (ag_ws s),
       pr_history = render_window 4 (ag_history s), pr_steps_left = max_steps t - number + 1,
       pr_budget = cb_planning (plan_budget c t),
       pr_tools = restricted_executor_tools (ae_envelope env),
       pr_egress = egress_allowed (ae_envelope env), pr_memory = ag_memory s,
       pr_conversation = ae_conversation env, pr_notices = ae_notices env @ ag_notice s,
       pr_allow_spawn = (task_depth t < agent_max_spawn_depth c),
       pr_progress = guard_state c (lo_guard lo) (lo_reserve lo),
       pr_verification_mode = verification_mode t,
       pr_required_checks = required_checks_view (required_checks t)\<rparr>)"

definition plan_failed :: "('w, 'k, 'p) agent_env \<Rightarrow> llm_failure \<Rightarrow> ('w, flow) agent_act" where
  "plan_failed env f =
     thenE (on_task (\<lambda>t. t\<lparr>tokens_used := tokens_used t + lf_tokens_spent f\<rparr>))
     (thenE ag_commit
       (if lf_budget_exhausted f then over (finish_run env BudgetExhausted)
        else raise (LLMError (lf_message f))))"

definition plan_step :: "('w, 'k, 'p) agent_env \<Rightarrow> int \<Rightarrow> locals \<Rightarrow> ('w, flow) agent_act" where
  "plan_step env number lo =
     bindE (gets (plan_request_of env number lo)) (\<lambda>req.
     bindE (outside (ae_plan env req)) (\<lambda>reply.
       case reply of
         Inl f \<Rightarrow> plan_failed env f
       | Inr r \<Rightarrow>
           thenE (on_task (record_model_use False r))
             (act_on env number (parse_decision (lr_content r) (set loop_tools) (ae_dynamic_tools env))
               (lr_tokens r) lo)))"

definition loop_iteration :: "('w, 'k, 'p) agent_env \<Rightarrow> int \<Rightarrow> locals \<Rightarrow> ('w, flow) agent_act" where
  "loop_iteration env number lo =
     thenE (refresh_task env)
     (with_task (\<lambda>t.
        if status t = status_value CancelledStatus then over (cancelled_exit env)
        else if token_budget t \<le> tokens_used t \<or> cb_planning (plan_budget (ae_settings env) t) \<le> 0
        then over (finish_run env BudgetExhausted)
        else plan_step env number lo))"

fun run_steps :: "('w, 'k, 'p) agent_env \<Rightarrow> int list \<Rightarrow> locals \<Rightarrow> ('w, unit) agent_act" where
  "run_steps env [] lo =
     thenE (refresh_task env)
       (with_task (\<lambda>t. if status t = status_value Running then finish_run env MaxSteps else ret ()))"
| "run_steps env (n # ns) lo =
     (if lo_skipped lo = Some n then run_steps env ns lo
      else
        bindE (loop_iteration env n lo) (\<lambda>fl.
          case fl of Over \<Rightarrow> ret () | Next lo' \<Rightarrow> run_steps env ns lo'))"

section \<open>The loop\<close>

definition make_rubric :: "('w, 'k, 'p) agent_env \<Rightarrow> ('w, unit) agent_act" where
  "make_rubric env =
     with_task (\<lambda>t.
     thenE (transition_to RubricRequired ''rubric_generation_started'' None)
     (thenE ag_commit
     (bindE (outside (ae_understand env (goal t) (cb_planning (plan_budget (ae_settings env) t)))) (\<lambda>reply.
     thenE (on_task (\<lambda>t.
       case reply of
         Inl f \<Rightarrow> t\<lparr>rubric := generic_rubric, tokens_used := tokens_used t + lf_tokens_spent f\<rparr>
       | Inr r \<Rightarrow> (record_model_use False r t)\<lparr>rubric := rubric_of (lr_content r),
                    tokens_used := tokens_used t + lr_tokens r\<rparr>))
     (thenE (transition_to RubricReady ''rubric_ready'' None) ag_commit)))))"

definition prepare_rubric :: "('w, 'k, 'p) agent_env \<Rightarrow> ('w, unit) agent_act" where
  "prepare_rubric env =
     with_task (\<lambda>t.
       if rubric t = [] then make_rubric env
       else if loop_state t = state_value Preparing
       then thenE (transition_to PreparationCompleted ''runtime_prepared'' None) ag_commit
       else ret ())"

definition approved_thought :: string where
  "approved_thought = ''(approved by the user)''"

definition run_approved ::
  "('w, 'k, 'p) agent_env \<Rightarrow> int \<Rightarrow> string \<Rightarrow> jdict \<Rightarrow> ('w, int option) agent_act" where
  "run_approved env start tool args =
     thenE (on_task (\<lambda>t. t\<lparr>pending_action := None\<rparr>))
     (thenE (transition_to ActionSelected (''approved_action_selected:'' @ tool) None)
     (bindE (begin_operation env start approved_thought tool args 0) (\<lambda>args'.
      bindE (run_tool env tool args') (\<lambda>r.
      thenE (recorded env (''action_recorded:'' @ tool) start approved_thought tool args'
               (observation r) (result_status r) 0)
      (with_task (\<lambda>t.
         if max_steps t < start + 1 then thenE (finish_run env MaxSteps) (ret None)
         else ret (Some (start + 1))))))))"

text \<open>A pending action is resumed first; the value is the next step number, if any.\<close>

definition resume_action ::
  "('w, 'k, 'p) agent_env \<Rightarrow> int \<Rightarrow> ('w, int option) agent_act" where
  "resume_action env start =
     with_task (\<lambda>t.
       case pending_action t of
         None \<Rightarrow> ret (Some start)
       | Some a \<Rightarrow>
           (case (map_of a ''tool'', dget_or a ''args'' (JObj [])) of
              (Some tool, JObj args) \<Rightarrow> run_approved env start (py_str tool) args
            | (None, _) \<Rightarrow> thenE (on_task (\<lambda>t. t\<lparr>pending_action := None\<rparr>)) (raise (PyRaise KeyError))
            | _ \<Rightarrow> thenE (on_task (\<lambda>t. t\<lparr>pending_action := None\<rparr>)) (raise (PyRaise TypeError))))"

definition start_locals :: "('w, 'k, 'p) agent_env \<Rightarrow> int \<Rightarrow> 'w agent \<Rightarrow> locals" where
  "start_locals env reserve s =
     \<lparr>lo_guard = guard_of_history (ag_history s),
      lo_approval = (require_approval (ag_task s) \<or> agent_approval_mode (ae_settings env) = ''manual''),
      lo_reserve = reserve, lo_retries = 0, lo_rejected = None, lo_writes = 0,
      lo_last_path = None, lo_skipped = None\<rparr>"

definition run_loop :: "('w, 'k, 'p) agent_env \<Rightarrow> int \<Rightarrow> ('w, unit) agent_act" where
  "run_loop env start =
     with_task (\<lambda>t0.
     thenE (prepare_rubric env)
     (bindE (resume_action env start) (\<lambda>next_start.
        case next_start of
          None \<Rightarrow> ret ()
        | Some n \<Rightarrow>
            bindE (gets (start_locals env (cb_reserve (plan_budget (ae_settings env) t0)))) (\<lambda>lo.
            with_task (\<lambda>t. run_steps env [n..max_steps t] lo)))))"

end
