(* ===== verification/Contract_Discovery.thy ===== *)
theory Contract_Discovery
  imports Contract_Schema Workspace Redaction
begin

text \<open>
  \<^verbatim>\<open>services/contract.py\<close>: the bounded, read-only look at a repository that every contract is
  compiled against (\<^verbatim>\<open>discover_repository\<close>). The repository is a \<open>workspace\<close>; \<open>tree_of\<close> is the
  view \<^verbatim>\<open>discover_project_checks\<close> takes of its root. A listed file can be read.
\<close>

section \<open>Names\<close>

definition manifest_names :: "string list" where
  "manifest_names =
     [''Cargo.toml'', ''Makefile'', ''go.mod'', ''package.json'', ''pnpm-workspace.yaml'',
      ''pyproject.toml'', ''requirements.txt'', ''uv.lock'']"

definition build_dirs :: "string list" where
  "build_dirs = [''.next'', ''build'', ''coverage'', ''dist'', ''out'', ''target'']"

definition preview_suffixes :: "string list" where
  "preview_suffixes =
     [''.c'', ''.css'', ''.go'', ''.h'', ''.html'', ''.java'', ''.js'', ''.json'', ''.md'', ''.mjs'',
      ''.py'', ''.rs'', ''.toml'', ''.ts'', ''.tsx'', ''.yaml'', ''.yml'']"

definition is_test_path :: "string \<Rightarrow> bool" where
  "is_test_path path =
     (let parts = path_parts path; name = py_lower (path_basename path)
      in ''tests'' \<in> set parts \<or> ''test'' \<in> set parts \<or> prefix ''test_'' name \<or>
         py_contains ''.test.'' name \<or> py_contains ''.spec.'' name)"

text \<open>\<^verbatim>\<open>Path(name).suffix\<close>: from the last dot, unless it is the first or the last character.\<close>

definition name_suffix :: "string \<Rightarrow> string" where
  "name_suffix name =
     (let ext = rev (takeWhile (\<lambda>c. c \<noteq> CHR ''.'') (rev name)); stem = length name - length ext
      in if ext \<noteq> [] \<and> 1 < stem then CHR ''.'' # ext else [])"

definition previewable_path :: "string \<Rightarrow> bool" where
  "previewable_path path =
     (let base = path_basename path; name = py_lower base
      in if prefix ''.env'' name \<or> py_contains ''credential'' name \<or> py_contains ''private'' name \<or>
            py_contains ''secret'' name then False
         else py_lower (name_suffix base) \<in> set preview_suffixes \<or> base \<in> set manifest_names)"

section \<open>Previews\<close>

definition preview_files :: nat where
  "preview_files = 24"

definition preview_file_chars :: nat where
  "preview_file_chars = 4000"

definition preview_total_chars :: nat where
  "preview_total_chars = 48000"

definition preview_rank :: "string list \<Rightarrow> string \<Rightarrow> nat" where
  "preview_rank test_files path =
     (let base = path_basename path; name = py_lower base
      in if path \<in> set test_files then 0
         else if prefix ''readme'' name \<or> name \<in> {''policy.md'', ''spec.md'', ''requirements.md''} then 1
         else if base \<in> set manifest_names then 2
         else 3)"

definition cut_marker :: string where
  "cut_marker = nl @ ''... [file preview truncated]''"

definition clip_preview :: "string \<Rightarrow> string" where
  "clip_preview content =
     (if length content > preview_file_chars then take preview_file_chars content @ cut_marker
      else content)"

text \<open>The loop over the selected files; the result says whether anything was cut.\<close>

fun collect_previews ::
  "(string \<Rightarrow> string option) \<Rightarrow> string list \<Rightarrow> (string \<times> string) list \<Rightarrow> nat \<Rightarrow> bool \<Rightarrow>
     (string \<times> string) list \<times> bool" where
  "collect_previews read [] previews used clipped = (previews, clipped)"
| "collect_previews read (relative # rest) previews used clipped =
     (case read relative of
        None \<Rightarrow> collect_previews read rest previews used clipped
      | Some content \<Rightarrow>
          (let shown = clip_preview content; clipped' = (clipped \<or> length content > preview_file_chars)
           in if used + length shown > preview_total_chars then (previews, True)
              else collect_previews read rest (AList.update relative shown previews)
                     (used + length shown) clipped'))"

definition read_preview :: "bool \<Rightarrow> workspace \<Rightarrow> string \<Rightarrow> string option" where
  "read_preview redact ws relative =
     map_option (if redact then redact_secrets else id)
       (map_of (ws_files ws) (join_path (ws_root ws) relative))"

definition repository_previews ::
  "bool \<Rightarrow> workspace \<Rightarrow> (string \<times> nat) list \<Rightarrow> string list \<Rightarrow> (string \<times> string) list \<times> bool" where
  "repository_previews redact ws files test_files =
     (let candidates = map fst (filter (\<lambda>(path, sz). sz \<le> 200000 \<and> previewable_path path) files);
          selected = sort_key (\<lambda>path. (preview_rank test_files path, path)) candidates
      in case collect_previews (read_preview redact ws) (take preview_files selected) [] 0
                (length selected > preview_files) of
           (previews, clipped) \<Rightarrow>
             (previews,
              clipped \<or> list_ex (\<lambda>path. map_of previews path = None) selected \<or>
              list_ex (\<lambda>(path, shown). the (map_of files path) > length shown) previews))"

section \<open>Discovery\<close>

definition child_name :: "workspace \<Rightarrow> string \<Rightarrow> string option" where
  "child_name ws p = (if below (ws_root ws) p \<and> path_parent p = ws_root ws then Some (path_basename p) else None)"

definition test_module :: "workspace \<Rightarrow> string \<Rightarrow> bool" where
  "test_module ws p =
     (case child_name ws p of None \<Rightarrow> False | Some n \<Rightarrow> prefix ''test_'' n \<and> suffix ''.py'' n)"

definition tree_of :: "workspace \<Rightarrow> project_tree" where
  "tree_of ws =
     \<lparr>pt_file = (\<lambda>name. map_of (ws_files ws) (join_path (ws_root ws) name)),
      pt_is_dir = (\<lambda>name. ws_is_dir ws (join_path (ws_root ws) name)),
      pt_has_test_glob = list_ex (test_module ws) (map fst (ws_files ws) @ ws_dirs ws)\<rparr>"

definition script_texts :: "json \<Rightarrow> (string \<times> string) list" where
  "script_texts raw =
     (case raw of
        JObj d \<Rightarrow>
          fold (\<lambda>(name, v) m.
            (case v of
               JStr command \<Rightarrow> AList.update (take 100 name) (take 1000 command) m
             | _ \<Rightarrow> m)) (take 100 (sort_key fst d)) []
      | _ \<Rightarrow> [])"

definition repository_scripts :: "workspace \<Rightarrow> (string \<times> string) list" where
  "repository_scripts ws =
     (case pt_file (tree_of ws) ''package.json'' of
        None \<Rightarrow> []
      | Some t \<Rightarrow> script_texts (package_scripts t))"

definition build_outputs_of :: "workspace \<Rightarrow> string list" where
  "build_outputs_of ws =
     take 50 (sort (filter (\<lambda>n. n \<in> set build_dirs) (List.map_filter (child_name ws) (ws_dirs ws))))"

text \<open>\<^verbatim>\<open>RepositoryDiscovery(...)\<close> from typed values.\<close>

definition make_discovery :: "discovery \<Rightarrow> discovery result" where
  "make_discovery r =
     (if length (rd_manifests r) \<le> 100 \<and> length (rd_test_files r) \<le> 100 \<and>
         length (rd_build_outputs r) \<le> 50 \<and> length (rd_quality r) \<le> 16 \<and>
         length (rd_previews r) \<le> 24 \<and> 0 \<le> rd_scanned r
      then Inr r else Inl ValueError)"

definition discover_repository :: "coercions \<Rightarrow> bool \<Rightarrow> workspace \<Rightarrow> discovery result" where
  "discover_repository co redact ws =
     (let files = list_files 501 ws;
          bounded = take 500 files;
          paths = map fst bounded;
          tests = take 100 (filter is_test_path paths);
          previews = repository_previews redact ws bounded tests
      in rbind (map_result (check_of_dict co) (discover_project_checks (tree_of ws))) (\<lambda>quality.
           make_discovery
             \<lparr>rd_manifests = take 100 (filter (\<lambda>p. path_basename p \<in> set manifest_names) paths),
              rd_scripts = repository_scripts ws, rd_test_files = tests,
              rd_build_outputs = build_outputs_of ws, rd_quality = quality,
              rd_previews = fst previews, rd_scanned = int (min (length files) 500),
              rd_truncated = (length files > 500), rd_previews_truncated = snd previews\<rparr>))"

section \<open>Discovery is total and bounded\<close>

lemma length_update_le: "length (AList.update k v m) \<le> Suc (length m)"
  by (induction m) auto

lemma collect_previews_length:
  "length (fst (collect_previews read xs previews used clipped)) \<le> length previews + length xs"
proof (induction read xs previews used clipped rule: collect_previews.induct)
  case (2 read relative rest previews used clipped)
  show ?case
  proof (cases "read relative")
    case None
    with 2(1) show ?thesis by simp
  next
    case (Some content)
    show ?thesis
    proof (cases "used + length (clip_preview content) > preview_total_chars")
      case True
      with Some show ?thesis by (simp add: Let_def)
    next
      case False
      with 2(2) [OF Some refl refl] Some length_update_le [of relative "clip_preview content" previews]
      show ?thesis by (simp add: Let_def)
    qed
  qed
qed simp

text \<open>What all previews together hold stays within the limit.\<close>

definition shown_chars :: "(string \<times> string) list \<Rightarrow> nat" where
  "shown_chars previews = sum_list (map (length \<circ> snd) previews)"

lemma shown_chars_update: "shown_chars (AList.update k v m) \<le> shown_chars m + length v"
  by (induction m) (auto simp: shown_chars_def)

lemma collect_previews_chars:
  "shown_chars previews \<le> used \<Longrightarrow> used \<le> preview_total_chars \<Longrightarrow>
     shown_chars (fst (collect_previews read xs previews used clipped)) \<le> preview_total_chars"
proof (induction read xs previews used clipped rule: collect_previews.induct)
  case (2 read relative rest previews used clipped)
  show ?case
  proof (cases "read relative")
    case None
    with 2 show ?thesis by simp
  next
    case (Some content)
    show ?thesis
    proof (cases "used + length (clip_preview content) > preview_total_chars")
      case True
      with Some 2 show ?thesis by (simp add: Let_def)
    next
      case False
      with 2(2) [OF Some refl refl] 2(3,4) Some
        shown_chars_update [of relative "clip_preview content" previews]
      show ?thesis by (simp add: Let_def)
    qed
  qed
qed simp

lemma length_repository_previews: "length (fst (repository_previews redact ws files tests)) \<le> 24"
proof -
  have "length (fst (collect_previews read (take preview_files xs) [] used clipped)) \<le> 24"
    for read xs used clipped
    using collect_previews_length [of read "take preview_files xs" "[]" used clipped]
    by (simp add: preview_files_def)
  moreover have "fst (case r of (previews, c) \<Rightarrow> (previews, d previews c)) = fst r"
    for r :: "(string \<times> string) list \<times> bool" and d :: "(string \<times> string) list \<Rightarrow> bool \<Rightarrow> bool"
    by (cases r) simp
  ultimately show ?thesis unfolding repository_previews_def Let_def by (simp only:)
qed

lemma script_checks_cases:
  "d \<in> set (script_checks root scripts) \<Longrightarrow>
     \<exists>name \<in> set script_names.
       d = command_check (''system-js-'' @ name) (javascript_runner root @ '' '' @ name)"
  by (auto simp: script_checks_def split: json.splits)

lemma length_script_checks: "length (script_checks root scripts) \<le> 4"
proof (cases scripts)
  case (JObj d)
  have "length (concat (map (\<lambda>name. (case dget d name of
      JStr _ \<Rightarrow> [command_check (''system-js-'' @ name) (javascript_runner root @ '' '' @ name)]
    | _ \<Rightarrow> [])) names)) \<le> length names" for names
    by (induction names) (auto split: json.splits)
  from this [of script_names] JObj show ?thesis by (simp add: script_checks_def script_names_def)
qed (simp_all add: script_checks_def)

definition system_command :: "string \<Rightarrow> string \<Rightarrow> contract_check" where
  "system_command i command =
     \<lparr>cc_id = i, cc_kind = CommandCheck, cc_command = Some command, cc_path = None, cc_text = None,
      cc_exit = Some 0, cc_stdout = None, cc_criteria = [], cc_source = FromSystem\<rparr>"

text \<open>The commands a project brings satisfy the limits of a check.\<close>

definition plain_command :: "jdict \<Rightarrow> bool" where
  "plain_command d \<longleftrightarrow>
     (\<exists>i command. d = command_check i command \<and> i \<noteq> [] \<and> length i \<le> 80 \<and>
        length command \<le> 1000 \<and> py_strip command \<noteq> [])"

lemma py_strip_visible: "\<exists>c \<in> set s. \<not> py_isspace c \<Longrightarrow> py_strip s \<noteq> []"
  by (auto simp: py_strip_def py_lstrip_def py_rstrip_def dropWhile_eq_Nil_conv
      dest: set_dropWhileD) (metis dropWhile_eq_Nil_conv hd_dropWhile list.set_sel(1))

lemma plain_commandI:
  "i \<noteq> [] \<Longrightarrow> length i \<le> 80 \<Longrightarrow> length command \<le> 1000 \<Longrightarrow> \<exists>c \<in> set command. \<not> py_isspace c \<Longrightarrow>
     plain_command (command_check i command)"
  unfolding plain_command_def using py_strip_visible by blast

lemma plain_command_read:
  assumes "keeps_typed co" "plain_command d"
  shows "\<exists>c. check_of_dict co d = Inr c \<and> wf_check c \<and> cc_source c = FromSystem \<and> cc_criteria c = []"
proof -
  from assms(2) obtain i command where d: "d = command_check i command" "i \<noteq> []" "length i \<le> 80"
    "length command \<le> 1000" "py_strip command \<noteq> []" unfolding plain_command_def by blast
  have kind: "kind_field (JStr ''command'') = Inr CommandCheck"
    using kind_field_value [of CommandCheck] by simp
  have src: "source_field (JStr ''system'') = Inr FromSystem"
    using source_field_value [of FromSystem] by simp
  have code: "co_exit co (JInt 0) = Some (Some 0)" using assms(1) by (simp add: keeps_typed_def)
  have "check_of_dict co d = Inr (system_command i command)"
    using d by (simp add: check_of_dict_def command_check_def kind src code valid_path_def Let_def
        system_command_def target_given_def text_or_empty_def Suc_le_eq)
  moreover have "wf_check (system_command i command)"
    using d by (simp add: wf_check_def system_command_def wf_path_def target_given_def text_or_empty_def)
  ultimately show ?thesis by (simp add: system_command_def)
qed

lemma javascript_runner_cases:
  "javascript_runner root \<in> {''pnpm run'', ''yarn run'', ''bun run'', ''npm run''}"
  by (simp add: javascript_runner_def)

lemma script_command_plain:
  "name \<in> set script_names \<Longrightarrow>
     plain_command (command_check (''system-js-'' @ name) (javascript_runner root @ '' '' @ name))"
  using javascript_runner_cases [of root] unfolding script_names_def
  by (intro plain_commandI) (auto simp: py_isspace_code)

lemma discovered_checks_plain: "d \<in> set (discover_project_checks root) \<Longrightarrow> plain_command d"
proof -
  assume d: "d \<in> set (discover_project_checks root)"
  have fixed: "plain_command (command_check ''system-python-test'' ''python3 -m pytest -q'')"
    "plain_command (command_check ''system-python-lint'' ''ruff check .'')"
    "plain_command (command_check ''system-python-types'' ''mypy .'')"
    by (auto simp: py_isspace_code intro!: plain_commandI)
  from d consider "\<exists>scripts. d \<in> set (script_checks root scripts)"
    | "d \<in> {command_check ''system-python-test'' ''python3 -m pytest -q'',
         command_check ''system-python-lint'' ''ruff check .'', command_check ''system-python-types'' ''mypy .''}"
    unfolding discover_project_checks_def Let_def by (auto split: option.splits if_splits)
  then show ?thesis
  proof cases
    case 1
    then show ?thesis using script_checks_cases script_command_plain by blast
  next
    case 2
    then show ?thesis using fixed by auto
  qed
qed

lemma length_discovered: "length (discover_project_checks root) \<le> 7"
proof -
  have "length (case pt_file root ''package.json'' of None \<Rightarrow> [] | Some t \<Rightarrow> script_checks root (package_scripts t)) \<le> 4"
    using length_script_checks by (auto split: option.splits)
  then show ?thesis unfolding discover_project_checks_def Let_def by auto
qed

lemma map_result_total:
  assumes "\<And>x. x \<in> set xs \<Longrightarrow> \<exists>y. f x = Inr y \<and> P y"
  shows "\<exists>ys. map_result f xs = Inr ys \<and> list_all P ys \<and> length ys = length xs"
  using assms
proof (induction xs)
  case (Cons x xs)
  from Cons.prems [of x] obtain y where "f x = Inr y" "P y" by auto
  moreover from Cons obtain ys where "map_result f xs = Inr ys" "list_all P ys" "length ys = length xs"
    by auto
  ultimately show ?case by simp
qed simp

definition system_check :: "contract_check \<Rightarrow> bool" where
  "system_check c \<longleftrightarrow> wf_check c \<and> cc_source c = FromSystem \<and> cc_criteria c = []"

lemma discover_repository_total:
  assumes "keeps_typed co"
  shows "\<exists>r. discover_repository co redact ws = Inr r \<and> wf_discovery r \<and>
    list_all system_check (rd_quality r)"
proof -
  have "\<exists>c. check_of_dict co d = Inr c \<and> system_check c"
    if "d \<in> set (discover_project_checks (tree_of ws))" for d
    using plain_command_read [OF assms discovered_checks_plain [OF that]]
    by (auto simp: system_check_def)
  with map_result_total [of "discover_project_checks (tree_of ws)" "check_of_dict co" system_check]
  obtain quality where q: "map_result (check_of_dict co) (discover_project_checks (tree_of ws)) = Inr quality"
    "list_all system_check quality" "length quality \<le> 7"
    using length_discovered [of "tree_of ws"] by auto
  then have "list_all wf_check quality" by (auto simp: list_all_iff system_check_def)
  with q show ?thesis
    using length_repository_previews
    by (simp add: discover_repository_def Let_def make_discovery_def wf_discovery_def
        build_outputs_of_def)
qed

end
