(* ===== verification/Contract_Checks.thy ===== *)
theory Contract_Checks
  imports Contract_Discovery Loop_Services
begin

text \<open>
  \<^verbatim>\<open>services/contract.py\<close>: from a model's reply to the checks of a contract. A reply is
  normalised into a proposal, the user's criteria and checks are merged into it, and the checks
  the repository brings with it complete it; source inspections that a complete test gate makes
  redundant are pruned. The lemmas follow the user's checks through all of it.
\<close>

section \<open>Reading a proposal\<close>

text \<open>\<^verbatim>\<open>_extract_json\<close> scans as \<^verbatim>\<open>services/loop/decisions.py\<close> does; \<^verbatim>\<open>None\<close> is \<open>JNull\<close>.\<close>

definition reply_json :: "string \<Rightarrow> json" where
  "reply_json reply = extract_json reply"

definition as_list :: "json \<Rightarrow> json list" where
  "as_list v = (case v of JArr vs \<Rightarrow> vs | JNull \<Rightarrow> [] | _ \<Rightarrow> [v])"

definition criterion_label :: regex where
  "criterion_label =
     seqs [Bol, ilit ''criterion-'', times 3 digit, Star space, lit '':'', Star space]"

definition strip_label :: "string \<Rightarrow> string" where
  "strip_label s = re_sub criterion_label [] (py_strip s)"

fun first_text :: "jdict \<Rightarrow> string list \<Rightarrow> string" where
  "first_text d [] = []"
| "first_text d (k # ks) =
     (case dget d k of
        JStr s \<Rightarrow> if py_strip s \<noteq> [] then strip_label s else first_text d ks
      | _ \<Rightarrow> first_text d ks)"

definition criterion_text :: "json \<Rightarrow> string" where
  "criterion_text v =
     (case v of
        JStr s \<Rightarrow> strip_label s
      | JObj d \<Rightarrow> first_text d [''description'', ''text'', ''criterion'', ''outcome'']
      | _ \<Rightarrow> [])"

definition bounded_fallback_criteria :: "string list \<Rightarrow> string list" where
  "bounded_fallback_criteria values =
     take 12 (dedup (filter (\<lambda>s. s \<noteq> [] \<and> length s \<le> 4000)
       (map (\<lambda>v. py_join '' '' (py_words v)) values)))"

definition read_exit :: "jdict \<Rightarrow> jdict" where
  "read_exit d =
     (if dget d ''expect_exit'' = JNull then dpop ''expect_exit'' d
      else if py_lower (py_str (dget d ''expect_exit''))
           \<in> {''!=0'', ''non-zero'', ''non_zero'', ''nonzero''}
      then dset ''expect_exit'' (JStr ''nonzero'') d
      else d)"

definition stripped_field :: "jdict \<Rightarrow> string \<Rightarrow> string" where
  "stripped_field d k = py_strip (py_str (or_json (dget d k) (JStr [])))"

definition infer_kind :: "jdict \<Rightarrow> jdict" where
  "infer_kind d =
     (if truthy (dget d ''kind'') then d
      else
        (let command = stripped_field d ''command''; path = truthy (dget d ''path'');
             t = stripped_field d ''text''
         in if command \<noteq> [] \<and> \<not> path \<and> t = [] then dset ''kind'' (JStr ''command'') d
            else if path \<and> t \<noteq> [] \<and> command = [] then dset ''kind'' (JStr ''file_contains'') d
            else if path \<and> command = [] \<and> t = [] then dset ''kind'' (JStr ''file_exists'') d
            else d))"

definition normalize_check :: "string list \<Rightarrow> nat \<Rightarrow> jdict \<Rightarrow> jdict" where
  "normalize_check valid_ids index raw =
     (let check = infer_kind (read_exit raw);
          raw_ids = (case dget check ''criterion_ids'' of JArr vs \<Rightarrow> vs | _ \<Rightarrow> [])
      in dset ''criterion_ids''
           (json_strs (sorted_set (filter (\<lambda>i. i \<in> set valid_ids) (map py_str raw_ids))))
           (dset ''source'' (JStr ''contract'')
             (dset ''id'' (JStr (''contract-'' @ pad3 index)) check)))"

definition normalize_checks :: "string list \<Rightarrow> json list \<Rightarrow> jdict list" where
  "normalize_checks valid_ids raws =
     concat (map (\<lambda>(index, raw).
         case raw of JObj d \<Rightarrow> [normalize_check valid_ids index d] | _ \<Rightarrow> [])
       (enumerate 1 (take 16 raws)))"

definition listed_artifacts :: "json list \<Rightarrow> string list" where
  "listed_artifacts raws = take 16 (dedup (filter (\<lambda>s. s \<noteq> []) (map (\<lambda>v. py_strip (py_str v)) raws)))"

definition checked_artifacts :: "jdict list \<Rightarrow> string list" where
  "checked_artifacts checks =
     map (\<lambda>d. py_str (dget d ''path''))
       (filter (\<lambda>d. dget d ''kind'' = JStr ''file_exists'' \<and> truthy (dget d ''path'')) checks)"

definition mentioned_by :: "string list \<Rightarrow> string \<Rightarrow> string list" where
  "mentioned_by criteria artifact =
     map (\<lambda>(index, _). criterion_id index)
       (filter (\<lambda>(_, criterion).
           py_contains (py_lower artifact) (py_lower criterion) \<or>
           py_contains (py_lower (path_basename artifact)) (py_lower criterion))
         (enumerate 1 criteria))"

definition artifact_check :: "string list \<Rightarrow> nat \<Rightarrow> string \<Rightarrow> jdict" where
  "artifact_check criteria index artifact =
     [(''id'', JStr (''contract-artifact-'' @ pad3 index)), (''kind'', JStr ''file_exists''),
      (''path'', JStr artifact), (''criterion_ids'', json_strs (mentioned_by criteria artifact)),
      (''source'', JStr ''contract'')]"

fun add_artifacts :: "string list \<Rightarrow> string list \<Rightarrow> string list \<Rightarrow> jdict list \<Rightarrow> jdict list" where
  "add_artifacts criteria known [] checks = checks"
| "add_artifacts criteria known (artifact # artifacts) checks =
     (if artifact \<in> set known then add_artifacts criteria known artifacts checks
      else add_artifacts criteria known artifacts
             (checks @ [artifact_check criteria (length checks + 1) artifact]))"

definition requested_authority :: "json list \<Rightarrow> capability list" where
  "requested_authority raws = dedup (List.map_filter (\<lambda>v. capability_of (py_str v)) raws)"

text \<open>What makes two checks the same; the first keeps its place and takes all criteria.\<close>

type_synonym identity_key =
  "contract_kind \<times> string \<times> string \<times> string \<times> int option \<times> string option"

definition check_identity :: "contract_check \<Rightarrow> identity_key" where
  "check_identity c =
     (cc_kind c, py_strip (text_or_empty (cc_command c)), text_or_empty (cc_path c), text_or_empty (cc_text c),
      cc_exit c, cc_stdout c)"

definition check_target :: "contract_check \<Rightarrow> contract_kind \<times> string \<times> string" where
  "check_target c =
     (cc_kind c,
      py_strip (if text_or_empty (cc_command c) \<noteq> [] then text_or_empty (cc_command c) else text_or_empty (cc_path c)),
      text_or_empty (cc_text c))"

definition with_criteria :: "string list \<Rightarrow> contract_check \<Rightarrow> contract_check" where
  "with_criteria ids c = c\<lparr>cc_criteria := sorted_set (cc_criteria c @ ids)\<rparr>"

fun gather_checks ::
  "(identity_key \<times> contract_check) list \<Rightarrow> contract_check list \<Rightarrow>
     (identity_key \<times> contract_check) list" where
  "gather_checks found [] = found"
| "gather_checks found (c # cs) =
     (case map_of found (check_identity c) of
        None \<Rightarrow> gather_checks (found @ [(check_identity c, c)]) cs
      | Some existing \<Rightarrow>
          gather_checks (AList.update (check_identity c) (with_criteria (cc_criteria c) existing) found) cs)"

definition deduplicate_contract_checks :: "contract_check list \<Rightarrow> contract_check list" where
  "deduplicate_contract_checks checks = map snd (gather_checks [] checks)"

text \<open>The typed proposal of a parsed reply; the flag says whether the criteria are the fallback.\<close>

definition proposal_dict :: "jdict \<Rightarrow> string list \<Rightarrow> jdict" where
  "proposal_dict parsed criteria =
     (let checks = normalize_checks (criterion_ids_upto (min (length criteria) 12))
            (as_list (dget parsed ''checks''));
          artifacts = listed_artifacts (as_list (dget parsed ''artifacts''));
          assumptions = take 12 (filter (\<lambda>s. s \<noteq> [])
            (map (\<lambda>v. py_strip (py_str v)) (as_list (dget parsed ''assumptions''))));
          authority = requested_authority (as_list (dget parsed ''authority_requests''))
      in dset ''authority_requests'' (json_strs (map capability_value authority))
           (dset ''checks'' (JArr (map JObj (add_artifacts criteria (checked_artifacts checks) artifacts checks)))
             (dset ''assumptions'' (json_strs assumptions)
               (dset ''artifacts'' (json_strs artifacts)
                 (dset ''criteria'' (json_strs criteria) parsed)))))"

definition listed_criteria_of :: "jdict \<Rightarrow> string list" where
  "listed_criteria_of parsed =
     take 12 (dedup (filter (\<lambda>s. s \<noteq> []) (map criterion_text (as_list (dget parsed ''criteria'')))))"

definition proposal_from_result ::
  "coercions \<Rightarrow> string \<Rightarrow> string list \<Rightarrow> (proposal \<times> bool) result" where
  "proposal_from_result co content fallback =
     (case reply_json content of
        JObj parsed \<Rightarrow>
          (let listed = listed_criteria_of parsed;
               criteria = (if listed = [] then bounded_fallback_criteria fallback else listed)
           in rbind (proposal_of_dict co 72 48 (proposal_dict parsed criteria)) (\<lambda>p.
                Inr (p\<lparr>cp_checks := deduplicate_contract_checks (cp_checks p)\<rparr>,
                     listed = [] \<and> criteria \<noteq> [])))
      | _ \<Rightarrow> Inl ValueError)"

section \<open>Test commands\<close>

definition python_name :: regex where
  "python_name = seqs [ilit ''python'', opt (Cat (lit ''3'') (opt (Cat (lit ''.'') (plus digit))))]"

definition test_command :: regex where
  "test_command =
     alts
       [seqs [alts [Bol, space], alts [ilit ''pytest'', ilit ''py.test''], alts [space, Eol]],
        seqs [python_name, plus space, ilit ''-m'', plus space, alts [ilit ''pytest'', ilit ''unittest''],
              alts [space, Eol]],
        seqs [alts [ilit ''npm'', ilit ''pnpm'', ilit ''yarn'', ilit ''bun''], plus space,
              opt (Cat (ilit ''run'') (plus space)), ilit ''test'', alts [space, Eol]],
        seqs [alts [Bol, space], alts [ilit ''go'', ilit ''cargo''], plus space, ilit ''test'']]"

definition is_test_command :: "string option \<Rightarrow> bool" where
  "is_test_command command =
     (case command of None \<Rightarrow> False | Some c \<Rightarrow> c \<noteq> [] \<and> re_search test_command c)"

section \<open>What the previews cover\<close>

definition stopwords :: "string list" where
  "stopwords =
     [''after'', ''before'', ''command'', ''containing'', ''existing'', ''instead'', ''output'',
      ''prints'', ''repository'', ''required'', ''returns'', ''should'', ''tests'', ''their'',
      ''using'', ''when'', ''without'']"

definition marker_pattern :: regex where
  "marker_pattern =
     alts
       [seqs [Chr py_isalpha, at_least 3 (Chr (\<lambda>c. word_char c \<or> c = CHR ''-''))],
        seqs [WordB, times 3 digit, WordB]]"

definition criterion_markers :: "string \<Rightarrow> string list" where
  "criterion_markers criterion =
     remdups (filter (\<lambda>m. py_lower m \<notin> set stopwords)
       (map matched_text (re_finditer marker_pattern criterion)))"

definition preview_of :: "discovery \<Rightarrow> string \<Rightarrow> string" where
  "preview_of disc path = (case map_of (rd_previews disc) path of None \<Rightarrow> [] | Some t \<Rightarrow> t)"

definition all_tests_shown :: "discovery \<Rightarrow> bool" where
  "all_tests_shown disc = list_all (\<lambda>path. map_of (rd_previews disc) path \<noteq> None) (rd_test_files disc)"

definition brings_tests :: "discovery \<Rightarrow> bool" where
  "brings_tests disc = list_ex (\<lambda>c. is_test_command (cc_command c)) (rd_quality disc)"

definition criterion_covered :: "string \<Rightarrow> string \<Rightarrow> bool" where
  "criterion_covered corpus criterion =
     (let lowered = py_lower criterion
      in if py_contains ''test'' lowered \<and>
            list_ex (\<lambda>w. py_contains w lowered) [''pass'', ''green'', ''succeed''] then True
         else
           (let markers = criterion_markers criterion;
                covered = filter (\<lambda>m. py_contains (py_lower m) corpus) markers
            in 2 \<le> length markers \<and> 2 \<le> length covered))"

definition test_previews_cover_contract :: "proposal \<Rightarrow> discovery \<Rightarrow> bool" where
  "test_previews_cover_contract p disc =
     (if rd_test_files disc = [] \<or> \<not> brings_tests disc then False
      else if \<not> all_tests_shown disc then False
      else
        (let corpus = py_lower (py_join nl (map (\<lambda>path. path @ nl @ preview_of disc path) (rd_test_files disc)))
         in list_all (criterion_covered corpus) (cp_criteria p)))"

section \<open>Effective checks\<close>

definition user_check :: "contract_check \<Rightarrow> bool" where
  "user_check c = prefix ''contract-user-'' (cc_id c)"

definition complete_test_gate :: "nat \<Rightarrow> contract_check list \<Rightarrow> bool" where
  "complete_test_gate n checks =
     list_ex (\<lambda>c. cc_source c = FromContract \<and> is_test_command (cc_command c) \<and>
                  set (criterion_ids_upto n) \<subseteq> set (cc_criteria c)) checks"

definition redundant :: "proposal \<Rightarrow> bool \<Rightarrow> contract_check \<Rightarrow> bool" where
  "redundant p covered c \<longleftrightarrow>
     cc_kind c = CommandCheck \<and> cc_source c = FromContract \<and> \<not> is_test_command (cc_command c) \<and>
       \<not> user_check c \<and> covered \<or>
     cc_kind c \<in> {FileContainsCheck, FileExistsCheck} \<and> text_or_empty (cc_path c) \<noteq> [] \<and>
       \<not> is_test_path (text_or_empty (cc_path c)) \<and> \<not> user_check c \<and>
       (cc_kind c = FileContainsCheck \<or> text_or_empty (cc_path c) \<in> set (cp_artifacts p))"

definition prune_redundant_source_checks ::
  "contract_check list \<Rightarrow> proposal \<Rightarrow> discovery \<Rightarrow> contract_check list" where
  "prune_redundant_source_checks checks p disc =
     (if \<not> complete_test_gate (length (cp_criteria p)) checks \<or> rd_test_files disc = [] then checks
      else filter (\<lambda>c. \<not> redundant p (test_previews_cover_contract p disc) c) checks)"

type_synonym placed = "contract_check list \<times> ((contract_kind \<times> string \<times> string) \<times> nat) list"

definition discovered_test :: "nat \<Rightarrow> string list \<Rightarrow> contract_check \<Rightarrow> contract_check" where
  "discovered_test index ids c =
     c\<lparr>cc_id := ''contract-discovered-test-'' @ pad3 index, cc_source := FromContract,
       cc_criteria := ids\<rparr>"

definition add_quality :: "string list \<Rightarrow> bool \<Rightarrow> contract_check \<Rightarrow> placed \<Rightarrow> placed" where
  "add_quality ids covered check st =
     (case st of
        (checks, positions) \<Rightarrow>
          (case map_of positions (check_target check) of
             Some i \<Rightarrow>
               (if is_test_command (cc_command (checks ! i))
                then (checks[i := with_criteria ids (checks ! i)], positions)
                else (checks, positions))
           | None \<Rightarrow>
               (let c = (if covered \<and> is_test_command (cc_command check)
                         then discovered_test (length checks + 1) ids check else check)
                in (checks @ [c], AList.update (check_target check) (length checks) positions))))"

definition target_positions :: "contract_check list \<Rightarrow> ((contract_kind \<times> string \<times> string) \<times> nat) list" where
  "target_positions checks =
     fold (\<lambda>(i, c) m. AList.update (check_target c) i m) (enumerate 0 checks) []"

definition effective_checks :: "proposal \<Rightarrow> discovery \<Rightarrow> contract_check list" where
  "effective_checks p disc =
     (let ids = criterion_ids_upto (length (cp_criteria p));
          covered = test_previews_cover_contract p disc;
          placed = fold (add_quality ids covered) (rd_quality disc)
                     (cp_checks p, target_positions (cp_checks p))
      in prune_redundant_source_checks (fst placed) p disc)"

section \<open>What the user requires\<close>

definition user_check_dict :: "nat \<Rightarrow> jdict \<Rightarrow> jdict" where
  "user_check_dict index raw =
     dset ''source'' (JStr ''contract'') (dset ''id'' (JStr (''contract-user-'' @ pad3 index)) raw)"

fun append_required :: "coercions \<Rightarrow> (nat \<times> jdict) list \<Rightarrow> proposal \<Rightarrow> proposal result" where
  "append_required co [] p = Inr p"
| "append_required co ((index, raw) # raws) p =
     rbind (check_of_dict co (user_check_dict index raw)) (\<lambda>check.
       append_required co raws
         (p\<lparr>cp_checks := cp_checks p @ [check],
            cp_artifacts :=
              (if cc_kind check = FileExistsCheck \<and> text_or_empty (cc_path check) \<noteq> [] \<and>
                  text_or_empty (cc_path check) \<notin> set (cp_artifacts p)
               then cp_artifacts p @ [text_or_empty (cc_path check)] else cp_artifacts p)\<rparr>))"

definition merge_required_checks :: "coercions \<Rightarrow> proposal \<Rightarrow> jdict list \<Rightarrow> proposal result" where
  "merge_required_checks co p required = append_required co (enumerate 1 (take 40 required)) p"

text \<open>\<^verbatim>\<open>identifier.removeprefix("criterion-")\<close> read as a number, for the criterion it names.\<close>

definition prior_criterion :: "string list \<Rightarrow> string \<Rightarrow> string option" where
  "prior_criterion prior identifier =
     (if \<not> prefix ''criterion-'' identifier then None
      else
        (let digits = drop (length ''criterion-'') identifier
         in if digits = [] \<or> \<not> list_all py_isdigit digits then None
            else if digits_val digits = 0 \<or> length prior < digits_val digits then None
            else Some (prior ! (digits_val digits - 1))))"

fun index_of :: "nat \<Rightarrow> string \<Rightarrow> string list \<Rightarrow> nat option" where
  "index_of n x [] = None"
| "index_of n x (y # ys) = (if x = y then Some n else index_of (n + 1) x ys)"

definition remap_criteria :: "string list \<Rightarrow> string list \<Rightarrow> nat \<Rightarrow> contract_check \<Rightarrow> contract_check" where
  "remap_criteria prior criteria required check =
     check\<lparr>cc_criteria := sorted_set
       (map criterion_id (List.map_filter (\<lambda>i.
            case prior_criterion prior i of None \<Rightarrow> None | Some c \<Rightarrow> index_of 1 c criteria)
          (cc_criteria check)) @
        (if cc_criteria check \<noteq> [] then [criterion_id required] else []))\<rparr>"

definition max_auto_criteria :: nat where
  "max_auto_criteria = 8"

definition merge_required_criteria :: "proposal \<Rightarrow> string list \<Rightarrow> proposal" where
  "merge_required_criteria p required_criteria =
     (let required = take 12 (clean_texts required_criteria)
      in if required = [] then p
         else
           (let prior = cp_criteria p;
                extras = filter (\<lambda>c. c \<notin> set required) prior;
                criteria = required @ take (max_auto_criteria - length required) extras
            in p\<lparr>cp_criteria := criteria,
                 cp_checks := map (remap_criteria prior criteria (length required)) (cp_checks p)\<rparr>))"

end
