(* ===== verification/Contract_Review.thy ===== *)
theory Contract_Review
  imports Contract_Checks Command_Policy
begin

text \<open>
  \<^verbatim>\<open>services/contract.py\<close>: the verdict on a contract. The independent critic's reply is read,
  a deterministic validator finds what makes a contract unfit to start automatically, and
  advisory objections that the discovered tests refute may be adjudicated. \<^verbatim>\<open>ast.parse\<close> is a
  parameter: for a Python source, the printed line of its syntax error, if it has one.
\<close>

section \<open>\<^verbatim>\<open>shlex.split\<close>\<close>

text \<open>
  The words are those of \<open>shlex_split\<close>; when it fails, the mode the text ends in says which
  \<^verbatim>\<open>ValueError\<close> was raised.
\<close>

fun mode_after :: "shlex_mode \<Rightarrow> string \<Rightarrow> shlex_mode" where
  "mode_after m [] = m"
| "mode_after (Quoted d) (c # s) =
     mode_after (if c = d then InWord
                 else if c = bslash_ch \<and> d = quote_ch then Escaped (Quoted d) else Quoted d) s"
| "mode_after (Escaped m) (c # s) = mode_after m s"
| "mode_after _ (c # s) =
     mode_after (if shlex_blank c then Blank else if c = bslash_ch then Escaped InWord
                 else if is_quote c then Quoted c else InWord) s"

definition shlex_words :: "string \<Rightarrow> string + string list" where
  "shlex_words s =
     (case shlex_split s of
        Some ws \<Rightarrow> Inr ws
      | None \<Rightarrow>
          Inl (case mode_after Blank s of
                 Escaped _ \<Rightarrow> ''No escaped character'' | _ \<Rightarrow> ''No closing quotation''))"

section \<open>The critic\<close>

definition no_verdict :: jdict where
  "no_verdict =
     [(''accepted'', JBool False),
      (''issues'', JArr [JStr ''The independent critic returned no valid verdict.'']),
      (''question'', JStr ''Please clarify the observable result this task must produce.'')]"

definition critique_from_result :: "string \<Rightarrow> string \<Rightarrow> string \<Rightarrow> critique" where
  "critique_from_result content provider model =
     (let parsed = (case reply_json content of JObj d \<Rightarrow> d | _ \<Rightarrow> no_verdict);
          raw_issues = (case dget parsed ''issues'' of JArr vs \<Rightarrow> vs | _ \<Rightarrow> [])
      in \<lparr>ct_accepted = (dget parsed ''accepted'' = JBool True),
          ct_issues = take 12 (map (\<lambda>v. take 500 (py_str v)) (filter (\<lambda>v. py_strip (py_str v) \<noteq> []) raw_issues)),
          ct_question =
            (if truthy (dget parsed ''question'') then Some (take 1000 (py_str (dget parsed ''question'')))
             else None),
          ct_adjudicated = False, ct_reason = None,
          ct_provider = take 80 provider, ct_model = take 160 model\<rparr>)"

section \<open>The deterministic validator\<close>

definition ends_plainly :: regex where
  "ends_plainly = seqs [opt (Chr (\<lambda>c. c \<in> {CHR ''.'', CHR ''!''})), Eol]"

definition tautologies :: "regex list" where
  "tautologies =
     [seqs [Bol, ilit ''fully'', opt (ilit '' and correctly''), ilit '' satisfie'', opt (ilit ''s''),
            ilit '' the task'', ends_plainly],
      seqs [Bol, opt (ilit ''the ''), opt (ilit ''requested ''),
            alts [ilit ''change'', ilit ''task'', ilit ''work''], ilit '' is '',
            alts [ilit ''complete'', ilit ''correct'', ilit ''done''], ends_plainly],
      seqs [Bol, ilit ''produce'', opt (ilit ''s''), ilit '' a correct result'', ends_plainly],
      seqs [Bol, ilit ''work'', opt (ilit ''s''), ilit '' correctly'', ends_plainly]]"

definition tautological :: "string \<Rightarrow> bool" where
  "tautological criterion = list_ex (\<lambda>r. re_fullmatch r (py_strip criterion)) tautologies"

fun inline_source_issue :: "(string \<Rightarrow> string option) \<Rightarrow> string list \<Rightarrow> string option" where
  "inline_source_issue syntax (part # flag # rest) =
     (if re_fullmatch python_name (path_basename part) \<and> flag = ''-c'' \<and> rest \<noteq> []
      then (case syntax (hd rest) of
              Some line \<Rightarrow> Some (''python -c source has a syntax error at line '' @ line)
            | None \<Rightarrow> inline_source_issue syntax (flag # rest))
      else inline_source_issue syntax (flag # rest))"
| "inline_source_issue syntax _ = None"

definition inline_python_syntax_issue :: "(string \<Rightarrow> string option) \<Rightarrow> string \<Rightarrow> string option" where
  "inline_python_syntax_issue syntax command =
     (case shlex_words command of
        Inl e \<Rightarrow> Some (''shell syntax could not be parsed ('' @ e @ '')'')
      | Inr parts \<Rightarrow> inline_source_issue syntax parts)"

definition stdout_use :: regex where
  "stdout_use = Cat (plus wordc) (ilit ''.stdout'')"

definition option_list :: "'a option \<Rightarrow> 'a list" where
  "option_list v = (case v of None \<Rightarrow> [] | Some a \<Rightarrow> [a])"

definition command_issues ::
  "(string \<Rightarrow> string option) \<Rightarrow> capability set \<Rightarrow> contract_check \<Rightarrow> string \<Rightarrow> string list" where
  "command_issues syntax granted c command =
     (let name = ''Contract check '' @ cc_id c
      in (case inline_python_syntax_issue syntax command of
            None \<Rightarrow> [] | Some issue \<Rightarrow> [name @ '' is invalid: '' @ issue]) @
         (if cc_stdout c \<noteq> None \<and> py_contains ''spawnsync'' (py_lower command) \<and>
             \<not> re_search stdout_use command
          then [name @ '' expects child stdout but never forwards it.''] else []) @
         (case evaluate_command command of
            (verdict, reason) \<Rightarrow>
              if verdict = Deny then [name @ '' is denied by policy: '' @ reason] else []) @
         (if Exec \<notin> granted then [name @ '' requires the exec capability.''] else []) @
         (case network_command_reason command of
            None \<Rightarrow> []
          | Some reason \<Rightarrow>
              if reason \<noteq> [] \<and> NetShell \<notin> granted
              then [name @ '' requires denied shell network access: '' @ reason] else []))"

definition check_issues ::
  "(string \<Rightarrow> string option) \<Rightarrow> capability set \<Rightarrow> contract_check \<Rightarrow> string list" where
  "check_issues syntax granted c =
     (if cc_kind c = CommandCheck \<and> text_or_empty (cc_command c) \<noteq> []
      then command_issues syntax granted c (text_or_empty (cc_command c)) else [])"

definition quote_mark :: regex where
  "quote_mark = Chr (\<lambda>c. c = quote_ch \<or> c = apos_ch)"

definition quoted_literal :: regex where
  "quoted_literal =
     seqs [quote_mark,
           Group 1 (seqs [Chr py_isalpha, Chr (\<lambda>c. word_char c \<or> c = CHR ''-''),
                          at_most 39 (Chr (\<lambda>c. word_char c \<or> c = CHR ''-''))]),
           quote_mark]"

definition quoted_literals :: "string \<Rightarrow> string list" where
  "quoted_literals s =
     remdups (List.map_filter (\<lambda>m. map_option py_lower (group_text 1 (snd m))) (re_finditer quoted_literal s))"

definition stderr_issue :: "contract_check list \<Rightarrow> nat \<times> string \<Rightarrow> string list" where
  "stderr_issue checks entry =
     (case entry of
        (index, criterion) \<Rightarrow>
          (let mapped = filter (\<lambda>c. criterion_id index \<in> set (cc_criteria c)) checks;
               markers = quoted_literals criterion
           in if \<not> py_contains ''stderr'' (py_lower criterion) then []
              else if list_ex (\<lambda>c. is_test_command (cc_command c)) mapped then []
              else if markers \<noteq> [] \<and>
                   \<not> list_ex (\<lambda>c. text_or_empty (cc_stdout c) \<noteq> [] \<and>
                        list_all (\<lambda>m. py_contains m (py_lower (text_or_empty (cc_stdout c)))) markers) mapped
              then [criterion_id index @ '' requires stderr content but no mapped check asserts it.'']
              else []))"

definition min_auto_confidence :: int where
  "min_auto_confidence = 80"

definition contract_covers :: "contract_check list \<Rightarrow> string list" where
  "contract_covers checks = concat (map cc_criteria (filter (\<lambda>c. cc_source c = FromContract) checks))"

definition missing_criteria :: "proposal \<Rightarrow> string list" where
  "missing_criteria p =
     sort (filter (\<lambda>i. i \<notin> set (contract_covers (cp_checks p)))
       (criterion_ids_upto (length (cp_criteria p))))"

definition missing_authority :: "proposal \<Rightarrow> capability set \<Rightarrow> string list" where
  "missing_authority p granted =
     sort (map capability_value (filter (\<lambda>c. c \<notin> granted) (cp_authority p)))"

definition deterministic_issues ::
  "(string \<Rightarrow> string option) \<Rightarrow> proposal \<Rightarrow> discovery \<Rightarrow> capability set \<Rightarrow> string list" where
  "deterministic_issues syntax p disc granted =
     (if cp_risk p \<noteq> LowRisk
      then [''Contract risk is '' @ risk_value (cp_risk p) @
            ''; only low-risk contracts start automatically.''] else []) @
     (if cp_confidence p < min_auto_confidence
      then [''Contract confidence is '' @ show_int (cp_confidence p) @
            ''%; automatic start requires at least '' @ show_int min_auto_confidence @ ''%.''] else []) @
     (if max_auto_criteria < length (cp_criteria p)
      then [''Contract has '' @ show_nat (length (cp_criteria p)) @
            '' criteria; automatic start permits at most '' @ show_nat max_auto_criteria @
            '' to prevent over-decomposition.''] else []) @
     concat (map (\<lambda>(index, criterion).
         if tautological criterion
         then [criterion_id index @ '' is tautological rather than observable''] else [])
       (enumerate 1 (cp_criteria p))) @
     (if missing_criteria p \<noteq> []
      then [''No execution check substantiates: '' @ py_join '', '' (missing_criteria p)] else []) @
     (if cp_checks p = [] then [''The contract has no re-runnable execution check.''] else []) @
     concat (map (check_issues syntax granted) (cp_checks p)) @
     concat (map (stderr_issue (cp_checks p)) (enumerate 1 (cp_criteria p))) @
     (if rd_quality disc \<noteq> [] \<and> Exec \<notin> granted
      then [''The discovered repository quality gates require the exec capability.''] else []) @
     (if missing_authority p granted \<noteq> []
      then [''The draft requests authority the task was not granted: '' @
            py_join '', '' (missing_authority p granted)] else [])"

section \<open>Adjudication\<close>

definition mentions :: "string \<Rightarrow> string list \<Rightarrow> bool" where
  "mentions s markers = list_ex (\<lambda>m. py_contains m s) markers"

definition internal_contract_question :: "string \<Rightarrow> bool" where
  "internal_contract_question question =
     (let s = py_lower question
      in mentions s [''redundan'', ''rely solely'', ''remove the'', ''simplif''] \<and>
         mentions s [''check'', ''contract'', ''test suite''])"

definition advisory_critic_issue :: "string \<Rightarrow> bool" where
  "advisory_critic_issue issue =
     (let s = py_lower issue
      in mentions s [''check'', ''contract'', ''test''] \<and>
         (mentions s [''redundan'', ''duplicat'', ''simplif'', ''rely solely''] \<or>
          mentions s [''current baseline'', ''current broken'', ''current implementation''] \<and>
          mentions s [''fail'', ''does not'', ''not pass'']))"

definition critic_issue_refuted_by_test_previews :: "string \<Rightarrow> discovery \<Rightarrow> bool" where
  "critic_issue_refuted_by_test_previews issue disc =
     (let corpus = py_join nl (map (\<lambda>path. py_lower (preview_of disc path)) (rd_test_files disc));
          s = py_lower issue;
          markers = remdups (quoted_literals issue @
            filter (\<lambda>m. py_contains m s) [''stderr'', ''stdout''])
      in corpus \<noteq> [] \<and> 2 \<le> length markers \<and> list_all (\<lambda>m. py_contains m corpus) markers)"

definition previews_cover_tests :: "discovery \<Rightarrow> bool" where
  "previews_cover_tests disc = (rd_test_files disc \<noteq> [] \<and> all_tests_shown disc)"

definition test_runner_speculation_refuted_by_discovery :: "string \<Rightarrow> discovery \<Rightarrow> bool" where
  "test_runner_speculation_refuted_by_discovery issue disc =
     (mentions (py_lower issue)
        [''does not specify the test file'', ''working directory'',
         ''may not run the intended tests'', ''uses unittest and the check runs pytest''] \<and>
      previews_cover_tests disc \<and> brings_tests disc)"

definition test_coverage_issue_refuted_by_discovery :: "string \<Rightarrow> proposal \<Rightarrow> discovery \<Rightarrow> bool" where
  "test_coverage_issue_refuted_by_discovery issue p disc =
     (mentions (py_lower issue) [''test'', ''check'', ''exit code'', ''stdout'', ''stderr'', ''listener''] \<and>
      \<not> mentions (py_lower issue) [''authority'', ''contradict'', ''conflict'', ''security'', ''not requested''] \<and>
      test_previews_cover_contract p disc)"

definition generic_contract_question :: "string \<Rightarrow> bool" where
  "generic_contract_question question =
     (let s = py_lower question in py_contains ''contract'' s \<and> py_contains ''observable behavior'' s)"

definition advisory :: "proposal \<Rightarrow> discovery \<Rightarrow> string \<Rightarrow> bool" where
  "advisory p disc issue \<longleftrightarrow>
     advisory_critic_issue issue \<or> critic_issue_refuted_by_test_previews issue disc \<or>
     test_runner_speculation_refuted_by_discovery issue disc \<or>
     test_coverage_issue_refuted_by_discovery issue p disc"

definition adjudication_text :: string where
  "adjudication_text =
     ''The critic supplied no user-answerable question and the deterministic contract '' @
     ''validator found no blocking issue. Every criterion maps to a discovered test gate '' @
     ''whose test sources were included in bounded repository discovery; the critic'' @ [apos_ch] @
     ''s issues remain recorded as advisory evidence.''"

definition deterministic_adjudication_reason ::
  "proposal \<Rightarrow> discovery \<Rightarrow> critique \<Rightarrow> string list \<Rightarrow> string option" where
  "deterministic_adjudication_reason p disc crit issues =
     (if ct_accepted crit \<or> issues \<noteq> [] then None
      else if \<not> list_all (advisory p disc) (ct_issues crit) then None
      else if text_or_empty (ct_question crit) \<noteq> [] \<and>
           \<not> (internal_contract_question (text_or_empty (ct_question crit)) \<or>
              ct_issues crit \<noteq> [] \<and> generic_contract_question (text_or_empty (ct_question crit)))
      then None
      else if \<not> complete_test_gate (length (cp_criteria p)) (cp_checks p) \<or> \<not> previews_cover_tests disc
      then None
      else Some adjudication_text)"

section \<open>The question to the user\<close>

definition question_for :: "string list \<Rightarrow> string" where
  "question_for issues =
     (if list_ex (\<lambda>i. py_contains ''authority'' (py_lower i)) issues
      then ''The task appears to need additional authority. Can it be completed offline inside '' @
           ''this repository, or should you cancel and explicitly enable the required capability?''
      else if list_ex (\<lambda>i. mentions (py_lower i) [''risk'', ''confidence'']) issues
      then ''The generated contract is not low-risk and high-confidence enough to begin. '' @
           ''Clarify the intended outcome, or publish an explicit acceptance override in '' @
           ''Advanced controls.''
      else ''The acceptance contract is not yet verifiable. What observable behavior or output '' @
           ''must be true when this task is finished?'')"

end
