(* ===== verification/Contract_Compile.thy ===== *)
theory Contract_Compile
  imports Contract_Review Agent_Base
begin

text \<open>
  \<^verbatim>\<open>services/contract.py\<close>: locking the contract a user wrote, and compiling one from a goal in
  at most three rounds of criticism and repair. The two language models are parameters: they
  see a request (what the prompts of \<^verbatim>\<open>services/prompts.py\<close> render, which also fixes the token
  limit and the temperature of the call), the remaining budget and the world.
  \<open>ce_message\<close> is the text of the validation error a reply raises.
\<close>

section \<open>Calls\<close>

datatype contract_request =
    AskContract string discovery "string list"
  | AskCritique string proposal discovery
  | AskRepair string proposal discovery "string list"

record 'w contract_env =
  ce_coercions :: coercions
  ce_syntax :: "string \<Rightarrow> string option"
  ce_redact :: bool
  ce_message :: "string \<Rightarrow> string"
  ce_compiler :: "contract_request \<Rightarrow> int option \<Rightarrow> 'w model"
  ce_critic :: "contract_request \<Rightarrow> int option \<Rightarrow> 'w model"

record contract_task =
  ck_goal :: string
  ck_granted :: "capability set"
  ck_checks :: "jdict list"
  ck_criteria :: "string list"
  ck_clarifications :: "string list"
  ck_budget :: "int option"

record compiled_contract =
  kc_draft :: draft
  kc_hash :: "string option"
  kc_compiler :: llm_result
  kc_critic :: "llm_result option"
  kc_tokens :: int

datatype contract_exc = CallFailed llm_failure | Raised pyexc

definition remaining_budget :: "int option \<Rightarrow> int \<Rightarrow> int option" where
  "remaining_budget budget spent = map_option (\<lambda>b. max 0 (b - spent)) budget"

section \<open>Drafts\<close>

definition compiler_identity :: "llm_result option \<Rightarrow> identity" where
  "compiler_identity r =
     (case r of
        None \<Rightarrow> \<lparr>mi_provider = unknown, mi_model = unknown\<rparr>
      | Some res \<Rightarrow> \<lparr>mi_provider = take 80 (lr_provider res), mi_model = take 160 (lr_model res)\<rparr>)"

text \<open>\<^verbatim>\<open>ContractCritique(accepted=False, issues=..., question=...)\<close> with the other defaults.\<close>

definition refusal :: "string list \<Rightarrow> string \<Rightarrow> critique" where
  "refusal issues question =
     \<lparr>ct_accepted = False, ct_issues = issues, ct_question = Some question, ct_adjudicated = False,
      ct_reason = None, ct_provider = unknown, ct_model = unknown\<rparr>"

definition draft_from_proposal ::
  "proposal \<Rightarrow> discovery \<Rightarrow> string list \<Rightarrow> critique \<Rightarrow> llm_result \<Rightarrow> bool \<Rightarrow> draft result" where
  "draft_from_proposal p disc clarifications crit compiler recovered =
     make_draft (p\<lparr>cp_checks := effective_checks p disc\<rparr>) recovered
       (compiler_identity (Some compiler)) disc clarifications crit"

definition failed_draft ::
  "string \<Rightarrow> discovery \<Rightarrow> string \<Rightarrow> string list \<Rightarrow> llm_result option \<Rightarrow> draft result" where
  "failed_draft wanted disc issue clarifications compiler =
     make_draft
       \<lparr>cp_criteria = [''The repository implements the requested outcome: '' @ py_strip wanted],
        cp_checks = rd_quality disc, cp_artifacts = [], cp_risk = MediumRisk, cp_assumptions = [],
        cp_confidence = 0, cp_authority = []\<rparr>
       False (compiler_identity compiler) disc clarifications
       (refusal [take 500 issue]
         (''Loop could not compile a verifiable contract. What observable behavior or '' @
          ''output must be true when this task is finished?''))"

definition failed_contract_draft ::
  "'w contract_env \<Rightarrow> workspace \<Rightarrow> string \<Rightarrow> string \<Rightarrow> string list \<Rightarrow> draft result" where
  "failed_contract_draft env ws wanted issue clarifications =
     rbind (discover_repository (ce_coercions env) (ce_redact env) ws) (\<lambda>disc.
       failed_draft wanted disc issue (last_n 12 clarifications) None)"

section \<open>A contract the user wrote\<close>

text \<open>\<^verbatim>\<open>list(check.get("criterion_ids") or criterion_ids)\<close> iterates whatever was given.\<close>

definition user_contract_dict :: "string list \<Rightarrow> nat \<Rightarrow> jdict \<Rightarrow> jdict result" where
  "user_contract_dict ids index raw =
     (let i = (if truthy (dget raw ''id'') then py_str (dget raw ''id'') else ''contract-'' @ pad3 index);
          d = dset ''source'' (JStr ''contract'') (dset ''id'' (JStr i) raw)
      in if truthy (dget d ''criterion_ids'')
         then rbind (iter_json (dget d ''criterion_ids'')) (\<lambda>vs. Inr (dset ''criterion_ids'' (JArr vs) d))
         else Inr (dset ''criterion_ids'' (json_strs ids) d))"

definition user_model :: identity where
  "user_model = \<lparr>mi_provider = ''user'', mi_model = ''user-confirmed''\<rparr>"

definition user_critique :: critique where
  "user_critique =
     \<lparr>ct_accepted = True, ct_issues = [], ct_question = None, ct_adjudicated = False, ct_reason = None,
      ct_provider = ''user'', ct_model = ''user-confirmed''\<rparr>"

definition lock_user_project_contract ::
  "'w contract_env \<Rightarrow> workspace \<Rightarrow> string list \<Rightarrow> jdict list \<Rightarrow> (draft \<times> string) result" where
  "lock_user_project_contract env ws criteria required =
     rbind (discover_repository (ce_coercions env) (ce_redact env) ws) (\<lambda>disc.
     rbind (map_result (\<lambda>(index, raw).
         rbind (user_contract_dict (criterion_ids_upto (length criteria)) index raw)
           (check_of_dict (ce_coercions env)))
         (enumerate 1 required)) (\<lambda>own.
       (let checks = own @ rd_quality disc;
            artifacts = map (text_or_empty \<circ> cc_path)
              (filter (\<lambda>c. cc_source c = FromContract \<and> cc_kind c = FileExistsCheck \<and>
                           text_or_empty (cc_path c) \<noteq> []) checks)
        in rbind (make_draft
             \<lparr>cp_criteria = criteria, cp_checks = checks, cp_artifacts = artifacts,
              cp_risk = LowRisk, cp_assumptions = [], cp_confidence = 100, cp_authority = []\<rparr>
             False user_model disc [] user_critique) (\<lambda>d. Inr (d, hash_contract d)))))"

section \<open>One round\<close>

text \<open>The reply of the compiler with the user's criteria and checks merged in.\<close>

definition read_reply :: "'w contract_env \<Rightarrow> contract_task \<Rightarrow> string \<Rightarrow> (proposal \<times> bool) result" where
  "read_reply env t content =
     rbind (proposal_from_result (ce_coercions env) content [ck_goal t]) (\<lambda>(p, recovered).
     rbind (merge_required_checks (ce_coercions env) (merge_required_criteria p (ck_criteria t)) (ck_checks t))
       (\<lambda>q. Inr (q, recovered)))"

text \<open>
  What the variables hold when a repair is refused: the assignments before the failing call
  have taken effect.
\<close>

definition refused_repair ::
  "'w contract_env \<Rightarrow> contract_task \<Rightarrow> string \<Rightarrow> proposal \<Rightarrow> bool \<Rightarrow> proposal \<times> bool" where
  "refused_repair env t content p recovered =
     (case proposal_from_result (ce_coercions env) content [ck_goal t] of
        Inl _ \<Rightarrow> (p, recovered)
      | Inr (q, again) \<Rightarrow> (merge_required_criteria q (ck_criteria t), recovered \<or> again))"

definition effective_proposal :: "proposal \<Rightarrow> discovery \<Rightarrow> proposal" where
  "effective_proposal p disc = p\<lparr>cp_checks := effective_checks p disc\<rparr>"

definition review ::
  "'w contract_env \<Rightarrow> contract_task \<Rightarrow> discovery \<Rightarrow> proposal \<Rightarrow> llm_result \<Rightarrow> critique" where
  "review env t disc effective reply =
     (let crit = critique_from_result (lr_content reply) (lr_provider reply) (lr_model reply);
          found = deterministic_issues (ce_syntax env) effective disc (ck_granted t);
          issues = take 12 (clean_texts (ct_issues crit @ found));
          reason = deterministic_adjudication_reason effective disc crit found;
          accepted = (ct_accepted crit \<and> issues = [] \<or> reason \<noteq> None);
          question = (if accepted then None
                      else if text_or_empty (ct_question crit) \<noteq> [] then ct_question crit
                      else Some (question_for issues))
      in crit\<lparr>ct_accepted := accepted, ct_issues := issues, ct_question := question,
             ct_adjudicated := (reason \<noteq> None), ct_reason := reason\<rparr>)"

definition repair_state :: "proposal \<Rightarrow> string list \<Rightarrow> string" where
  "repair_state p issues =
     canonical (JObj [(''proposal'', JObj (dump_proposal p)), (''issues'', json_strs issues)])"

definition add_issue :: "string \<Rightarrow> critique \<Rightarrow> critique" where
  "add_issue issue crit = crit\<lparr>ct_issues := take 12 (ct_issues crit @ [issue])\<rparr>"

text \<open>\<^verbatim>\<open>return CompiledContract(...)\<close> on the draft of a proposal.\<close>

definition conclude ::
  "contract_task \<Rightarrow> discovery \<Rightarrow> proposal \<Rightarrow> bool \<Rightarrow> critique \<Rightarrow> llm_result \<Rightarrow> llm_result option \<Rightarrow>
     int \<Rightarrow> bool \<Rightarrow> contract_exc + compiled_contract" where
  "conclude t disc p recovered crit compiler critic tokens locked =
     (case draft_from_proposal p disc (last_n 12 (ck_clarifications t)) crit compiler recovered of
        Inl e \<Rightarrow> Inl (Raised e)
      | Inr d \<Rightarrow>
          Inr \<lparr>kc_draft = d, kc_hash = (if locked then Some (hash_contract d) else None),
               kc_compiler = compiler, kc_critic = critic, kc_tokens = tokens\<rparr>)"

definition critic_failed :: "string \<Rightarrow> critique" where
  "critic_failed m =
     refusal [''The independent contract critic could not complete: '' @ m]
       (''Loop could not independently validate this contract. What observable '' @
        ''behavior or output must be true when the task is finished?'')"

section \<open>The loop\<close>

definition max_contract_attempts :: nat where
  "max_contract_attempts = 3"

fun attempt_contract ::
  "'w contract_env \<Rightarrow> contract_task \<Rightarrow> discovery \<Rightarrow> nat \<Rightarrow> string list \<Rightarrow> proposal \<Rightarrow> bool \<Rightarrow>
     llm_result \<Rightarrow> int \<Rightarrow> 'w \<Rightarrow> (contract_exc + compiled_contract) \<times> 'w" where
  "attempt_contract env t disc 0 seen p recovered compiler tokens w = (Inl (Raised AssertionError), w)"
| "attempt_contract env t disc (Suc n) seen p recovered compiler tokens w =
     (let effective = effective_proposal p disc
      in case ce_critic env (AskCritique (ck_goal t) effective disc) (remaining_budget (ck_budget t) tokens) w of
           (Inl failure, w1) \<Rightarrow>
             (conclude t disc p recovered (critic_failed (lf_message failure)) compiler None
                (tokens + lf_tokens_spent failure) False, w1)
         | (Inr reply, w1) \<Rightarrow>
             (let tokens1 = tokens + lr_tokens reply;
                  crit = review env t disc effective reply;
                  state = repair_state p (ct_issues crit)
              in if ct_accepted crit \<or> n = 0 \<or> state \<in> set seen
                 then (conclude t disc p recovered crit compiler (Some reply) tokens1 (ct_accepted crit), w1)
                 else
                   (case ce_compiler env (AskRepair (ck_goal t) p disc (ct_issues crit))
                           (remaining_budget (ck_budget t) tokens1) w1 of
                      (Inl failure, w2) \<Rightarrow>
                        (conclude t disc p recovered
                           (add_issue (''The bounded contract repair could not complete: '' @ lf_message failure) crit)
                           compiler (Some reply) (tokens1 + lf_tokens_spent failure) False, w2)
                    | (Inr repair, w2) \<Rightarrow>
                        (let tokens2 = tokens1 + lr_tokens repair
                         in case read_reply env t (lr_content repair) of
                              Inl _ \<Rightarrow>
                                (case refused_repair env t (lr_content repair) p recovered of
                                   (q, recovered') \<Rightarrow>
                                     (conclude t disc q recovered'
                                        (add_issue (''The bounded contract repair was invalid: '' @
                                           ce_message env (lr_content repair)) crit)
                                        compiler (Some reply) tokens2 False, w2))
                            | Inr (q, again) \<Rightarrow>
                                attempt_contract env t disc n (state # seen) q (recovered \<or> again) repair tokens2 w2))))"

definition compile_project_contract ::
  "'w contract_env \<Rightarrow> workspace \<Rightarrow> contract_task \<Rightarrow> 'w \<Rightarrow> (contract_exc + compiled_contract) \<times> 'w" where
  "compile_project_contract env ws t w =
     (case discover_repository (ce_coercions env) (ce_redact env) ws of
        Inl e \<Rightarrow> (Inl (Raised e), w)
      | Inr disc \<Rightarrow>
          (case ce_compiler env (AskContract (ck_goal t) disc (last_n 12 (ck_clarifications t))) (ck_budget t) w of
             (Inl failure, w1) \<Rightarrow> (Inl (CallFailed failure), w1)
           | (Inr compiler, w1) \<Rightarrow>
               (case read_reply env t (lr_content compiler) of
                  Inl _ \<Rightarrow>
                    (case failed_draft (ck_goal t) disc
                            (''The contract compiler returned an invalid draft: '' @ ce_message env (lr_content compiler))
                            (last_n 12 (ck_clarifications t)) (Some compiler) of
                       Inl e \<Rightarrow> (Inl (Raised e), w1)
                     | Inr d \<Rightarrow>
                         (Inr \<lparr>kc_draft = d, kc_hash = None, kc_compiler = compiler, kc_critic = None,
                               kc_tokens = lr_tokens compiler\<rparr>, w1))
                | Inr (p, recovered) \<Rightarrow>
                    attempt_contract env t disc max_contract_attempts [] p recovered compiler
                      (lr_tokens compiler) w1)))"

end
