(* ===== verification/Agent_Contract.thy ===== *)
theory Agent_Contract
  imports Agent_Loop Contract_Compile
begin

text \<open>
  \<^verbatim>\<open>AgentReactService._prepare_project_contract\<close>: before the executor can touch the clone of a
  project, one acceptance contract is locked: the one stored with the row if its content still
  has its hash, the one the user wrote, or one compiled from the goal. The value says whether
  the run may go on; a contract that cannot be locked leaves the task waiting for the user.
\<close>

definition stored_check :: "contract_check \<Rightarrow> jdict" where
  "stored_check c = filter (\<lambda>(k, v). v \<noteq> JNull) (dump_check c)"

definition apply_locked_contract :: "draft \<Rightarrow> task \<Rightarrow> task" where
  "apply_locked_contract d t =
     t\<lparr>rubric := cp_criteria (dr_proposal d), verification_mode := ''strict'',
       required_checks := map stored_check (cp_checks (dr_proposal d))\<rparr>"

definition stored_draft :: "coercions \<Rightarrow> task \<Rightarrow> draft option" where
  "stored_draft co t =
     (case contract_draft t of None \<Rightarrow> None | Some d \<Rightarrow> the_ok (draft_of_dict co d))"

definition contract_intact :: "task \<Rightarrow> draft \<Rightarrow> bool" where
  "contract_intact t d \<longleftrightarrow>
     nonempty_opt (contract_hash t) \<and> ct_accepted (dr_critique d) \<and> contract_hash t = Some (hash_contract d)"

definition reuse_contract ::
  "('w, 'k, 'p) agent_env \<Rightarrow> 'w contract_env \<Rightarrow> task \<Rightarrow> ('w, bool) agent_act" where
  "reuse_contract env cenv t =
     (case stored_draft (ce_coercions cenv) t of
        Some d \<Rightarrow>
          if contract_intact t d then thenE (on_task (apply_locked_contract d)) (ret True)
          else
            thenE (seqE
              [fail_task ''The locked acceptance contract failed its content hash check.'' ''contract_hash_invalid'',
               ensure_unverified_receipt env, ag_commit]) (ret False)
      | None \<Rightarrow>
          thenE (seqE
            [fail_task ''The locked acceptance contract failed its content hash check.'' ''contract_hash_invalid'',
             ensure_unverified_receipt env, ag_commit]) (ret False))"

definition store_contract :: "draft \<Rightarrow> string option \<Rightarrow> task \<Rightarrow> task" where
  "store_contract d h t = t\<lparr>contract_draft := Some (dump_draft d), contract_hash := h\<rparr>"

definition lock_user_contract :: "'w contract_env \<Rightarrow> task \<Rightarrow> ('w, bool) agent_act" where
  "lock_user_contract cenv t =
     bindE (gets ag_ws) (\<lambda>ws.
     bindE (py_ok (lock_user_project_contract cenv ws (rubric t) (required_checks t))) (\<lambda>(d, h).
     thenE (on_task (\<lambda>t. apply_locked_contract d ((store_contract d (Some h) t)\<lparr>contract_status := ''locked''\<rparr>)))
     (thenE ag_commit (ret True))))"

definition prior_clarifications :: "task \<Rightarrow> string list result" where
  "prior_clarifications t =
     (case contract_draft t of
        None \<Rightarrow> Inr []
      | Some d \<Rightarrow>
          map_sum id (\<lambda>vs. filter (\<lambda>s. py_strip s \<noteq> []) (map py_str vs))
            (iter_json (dget_or d ''clarifications'' (JArr []))))"

text \<open>\<^verbatim>\<open>task.contract_status = "awaiting_input"\<close> and the question of the critique.\<close>

definition ask_contract :: "draft \<Rightarrow> string \<Rightarrow> ('w, bool) agent_act" where
  "ask_contract d reason =
     thenE (seqE
       [on_task (\<lambda>t. t\<lparr>contract_status := ''awaiting_input'', pending_question := ct_question (dr_critique d)\<rparr>),
        transition_to InputRequired reason None, ag_commit]) (ret False)"

definition contract_uncompiled ::
  "'w contract_env \<Rightarrow> llm_failure \<Rightarrow> string list \<Rightarrow> ('w, bool) agent_act" where
  "contract_uncompiled cenv f clarifications =
     thenE (on_task (\<lambda>t. t\<lparr>tokens_used := tokens_used t + lf_tokens_spent f\<rparr>))
     (with_task (\<lambda>t.
     bindE (gets ag_ws) (\<lambda>ws.
     bindE (py_ok (failed_contract_draft cenv ws
              (''The contract compiler could not complete: '' @ lf_message f) (goal t) clarifications)) (\<lambda>d.
     thenE (on_task (store_contract d None)) (ask_contract d ''contract_compilation_failed'')))))"

definition contract_compiled :: "compiled_contract \<Rightarrow> ('w, bool) agent_act" where
  "contract_compiled c =
     thenE (on_task (\<lambda>t. store_contract (kc_draft c) (kc_hash c) (t\<lparr>tokens_used := tokens_used t + kc_tokens c\<rparr>)))
     (if kc_hash c = None then ask_contract (kc_draft c) ''contract_clarification_required''
      else
        thenE (seqE
          [on_task (\<lambda>t. apply_locked_contract (kc_draft c)
             (t\<lparr>contract_status := ''locked'', criteria_source := ''compiled'', pending_question := None\<rparr>)),
           transition_to ContractReady
             (if dr_recovered (kc_draft c) then ''contract_locked_after_empty_criteria_recovery''
              else ''contract_locked'') None,
           ag_commit]) (ret True))"

definition compile_request :: "capability set \<Rightarrow> task \<Rightarrow> string list \<Rightarrow> string list \<Rightarrow> int \<Rightarrow> contract_task" where
  "compile_request granted t criteria clarifications budget =
     \<lparr>ck_goal = goal t, ck_granted = granted, ck_checks = required_checks t, ck_criteria = criteria,
      ck_clarifications = clarifications, ck_budget = Some budget\<rparr>"

definition compile_contract ::
  "('w, 'k, 'p) agent_env \<Rightarrow> 'w contract_env \<Rightarrow> capability set \<Rightarrow> task \<Rightarrow> ('w, bool) agent_act" where
  "compile_contract env cenv granted t =
     bindE (py_ok (prior_clarifications t)) (\<lambda>clarifications.
     thenE (transition_to ContractRequired ''contract_compilation_started'' None)
     (thenE ag_commit
     (bindE (py_ok (required_revision_criteria t)) (\<lambda>criteria.
      bindE (gets ag_ws) (\<lambda>ws.
      bindE (outside (compile_project_contract cenv ws
               (compile_request granted t criteria clarifications (cb_planning (plan_budget (ae_settings env) t)))))
        (\<lambda>outcome.
           case outcome of
             Inl (CallFailed f) \<Rightarrow> contract_uncompiled cenv f clarifications
           | Inl (Raised e) \<Rightarrow> raise (PyRaise e)
           | Inr c \<Rightarrow> contract_compiled c))))))"

definition prepare_project_contract ::
  "('w, 'k, 'p) agent_env \<Rightarrow> 'w contract_env \<Rightarrow> capability set \<Rightarrow> ('w, bool) agent_act" where
  "prepare_project_contract env cenv granted =
     with_task (\<lambda>t.
       if contract_status t = ''locked'' then reuse_contract env cenv t
       else if criteria_source t = ''user'' \<and> rubric t \<noteq> [] then lock_user_contract cenv t
       else compile_contract env cenv granted t)"

end
