(* ===== verification/Memory.thy ===== *)
theory Memory
  imports Redaction Workspace
begin

text \<open>
  \<^verbatim>\<open>services/memory.py\<close>: the notes an owner's tasks keep in a project, one main file and one
  file per topic. Lengths are bytes; the code counts characters, which agrees on ASCII.
\<close>

record memory_store =
  ms_main :: "string option"
  ms_topics :: "(string \<times> string) list"

definition unsafe_run :: regex where
  "unsafe_run = plus (Chr (\<lambda>c. \<not> alnum c \<and> c \<notin> set ''_-''))"

definition safe_topic :: "string \<Rightarrow> string" where
  "safe_topic topic =
     (let slug = take 60 (strip_chars ''-'' (re_sub unsafe_run ''-'' (py_lower (py_strip topic))))
      in if slug = [] then ''notes'' else slug)"

definition scope_component :: "string \<Rightarrow> string" where
  "scope_component v =
     (let s = take 100 (re_sub (plus (Chr (\<lambda>c. \<not> alnum c \<and> c \<notin> set ''_.-''))) ''_'' v)
      in if s = [] then ''default'' else s)"

definition scoped_memory_root :: "string \<Rightarrow> string \<Rightarrow> string \<Rightarrow> string" where
  "scoped_memory_root root owner project =
     join_path (join_path root (scope_component owner)) (scope_component project)"

definition max_note :: nat where "max_note = 1000"
definition max_memory_bytes :: nat where "max_memory_bytes = 32000"

definition snapshot_parts :: "memory_store \<Rightarrow> string list" where
  "snapshot_parts m =
     (case ms_main m of None \<Rightarrow> [] | Some t \<Rightarrow> [t]) @
     map (\<lambda>(name, t). ''## '' @ name @ nl @ t) (sort_key fst (ms_topics m))"

definition memory_snapshot :: "nat \<Rightarrow> memory_store \<Rightarrow> string" where
  "memory_snapshot limit m =
     (let t = py_strip (py_join nl (map py_strip (filter (\<lambda>p. py_strip p \<noteq> []) (snapshot_parts m))))
      in last_n limit t)"

definition trim :: "string \<Rightarrow> string" where
  "trim data =
     (if length data \<le> max_memory_bytes then data
      else
        (let tail = last_n max_memory_bytes data
         in case partition_at nl tail of None \<Rightarrow> tail | Some (a, b) \<Rightarrow> b))"

definition note_text :: "string \<Rightarrow> string \<times> bool" where
  "note_text note =
     (if length note > max_note then (py_rstrip (take max_note note) @ ellipsis, True) else (note, False))"

definition append_note :: "string option \<Rightarrow> string \<Rightarrow> string" where
  "append_note existing note =
     trim ((case existing of None \<Rightarrow> [] | Some t \<Rightarrow> t) @ ''- '' @ note @ nl)"

definition memory_remember :: "string \<Rightarrow> string option \<Rightarrow> memory_store \<Rightarrow> string \<times> memory_store" where
  "memory_remember raw topic m =
     (let stripped = py_strip raw in
      if stripped = [] then (''Nothing to remember (empty note).'', m)
      else
        (let (note, truncated) = note_text stripped;
             m' = (case topic of
                     Some t \<Rightarrow>
                       if t = [] then m\<lparr>ms_main := Some (append_note (ms_main m) note)\<rparr>
                       else m\<lparr>ms_topics :=
                              AList.update (safe_topic t)
                                (append_note (map_of (ms_topics m) (safe_topic t)) note) (ms_topics m)\<rparr>
                   | None \<Rightarrow> m\<lparr>ms_main := Some (append_note (ms_main m) note)\<rparr>)
         in (''Remembered: '' @ take 120 note @ (if truncated then '' (note was truncated)'' else []), m')))"

section \<open>Facts\<close>

lemma partition_at_shorter: "partition_at p s = Some (a, b) \<Longrightarrow> length b \<le> length s"
  using partition_at_length by fastforce

lemma trim_bounded: "length (trim data) \<le> max_memory_bytes"
  by (auto simp: trim_def Let_def last_n_def dest: partition_at_shorter split: option.splits)

definition memory_bounded :: "memory_store \<Rightarrow> bool" where
  "memory_bounded m =
     ((case ms_main m of None \<Rightarrow> True | Some t \<Rightarrow> length t \<le> max_memory_bytes) \<and>
      (\<forall>(name, t) \<in> set (ms_topics m). length t \<le> max_memory_bytes))"

lemma in_AList_update: "x \<in> set (AList.update k v m) \<Longrightarrow> x = (k, v) \<or> x \<in> set m"
  by (induction m) (auto split: if_splits)

lemma append_note_bounded: "length (append_note t note_body) \<le> max_memory_bytes"
  by (simp add: append_note_def trim_bounded)

lemma memory_remember_bounded:
  "memory_bounded m \<Longrightarrow> memory_bounded (snd (memory_remember raw topic m))"
  by (auto simp: memory_remember_def memory_bounded_def append_note_bounded Let_def
      split: prod.splits option.splits dest: in_AList_update)

end
