(* ===== verification/Agent_Run.thy ===== *)
theory Agent_Run
  imports Agent_Grants Agent_Contract Memory
begin

text \<open>
  \<^verbatim>\<open>AgentReactService.run\<close> and \<^verbatim>\<open>_run_claimed\<close>: a claimed task is admitted through the gates of
  \<open>Agent_Grants\<close>, its providers are started, its loop runs on the executor these make up, and
  its authority is revoked. The state adds to that of the loop what the service object keeps: the
  services holding authority of the run, whether it was revoked, and the processes to stop.
  Cancelling the run from outside (an asyncio cancellation) is not modelled; a task cancelled in
  the database is.
\<close>

section \<open>State and environment\<close>

datatype resource = GatewayPool | BrowserServer | HostServers

record 'w run =
  rn_agent :: "'w agent"
  rn_clients :: "string list"
  rn_revoked :: bool
  rn_resources :: "resource list"

type_synonym ('w, 'a) run_act = "('w run, 'a) act"

definition on_agent :: "('w, 'a) agent_act \<Rightarrow> ('w, 'a) run_act" where
  "on_agent m s = (case m (rn_agent s) of (r, a) \<Rightarrow> (r, s\<lparr>rn_agent := a\<rparr>))"

text \<open>A started provider: its tools, and their descriptions for a prefix of capabilities.\<close>

record 'w tool_source =
  ts_provider :: "(jdict list \<times> 'w) provider"
  ts_specs :: "string \<Rightarrow> string"

text \<open>
  Beside the environments of the loop and of contracts: the files of the skills, the state of the
  host (\<open>re_in_cluster\<close>, \<open>re_image_present\<close>), the credentials configured, the starting and
  stopping of providers (with the text of the exception, or whether the browser came up),
  the audit and revocation endpoints (with the class of the exception), and running a command.
\<close>

record ('w, 'k, 'p) run_env =
  re_agent :: "('w, 'k, 'p) agent_env"
  re_contract :: "'w contract_env"
  re_trust_pem :: "string option"
  re_skills :: "'w \<Rightarrow> skill_dir list option"
  re_in_cluster :: "'w \<Rightarrow> bool"
  re_image_present :: "'w \<Rightarrow> string \<Rightarrow> bool"
  re_email_on :: bool
  re_calendar_on :: bool
  re_vision_on :: bool
  re_start_gateway :: "gateway_client list \<Rightarrow> 'w \<Rightarrow> (string + 'w tool_source) \<times> 'w"
  re_start_browser :: "'w \<Rightarrow> 'w tool_source option \<times> 'w"
  re_start_host_mcp :: "capability list \<Rightarrow> 'w \<Rightarrow> (string + 'w tool_source) \<times> 'w"
  re_email_tools :: "'w tool_source"
  re_calendar_tools :: "'w tool_source"
  re_vision_tools :: "'w tool_source"
  re_stop :: "resource \<Rightarrow> 'w \<Rightarrow> 'w"
  re_revoke :: "string \<Rightarrow> 'w \<Rightarrow> (string + jdict list) \<times> 'w"
  re_drain :: "'w \<Rightarrow> jdict list \<times> 'w"
  re_fetch :: "'w \<Rightarrow> (string + jdict list) \<times> 'w"
  re_memory_root :: string
  re_memory :: "'w \<Rightarrow> string \<Rightarrow> memory_store"
  re_rows :: "'w \<Rightarrow> task list"
  re_jwt :: "('k, 'p, string) token_lib"
  re_clock :: "'w \<Rightarrow> int"
  re_token_id :: "'w \<Rightarrow> string"
  re_spawn :: "run_target \<Rightarrow> string \<Rightarrow> workspace \<Rightarrow> (jdict list \<times> 'w) \<Rightarrow> tool_result \<times> workspace \<times> (jdict list \<times> 'w)"
  re_checks :: "sandbox_choice \<Rightarrow> svc_exc + string \<Rightarrow> envelope \<Rightarrow> workspace \<Rightarrow> 'w \<Rightarrow> (nat \<Rightarrow> check_env) \<times> 'w"

definition re_settings :: "('w, 'k, 'p) run_env \<Rightarrow> settings" where
  "re_settings env = ae_settings (re_agent env)"

definition stop_resources :: "('w, 'k, 'p) run_env \<Rightarrow> resource list \<Rightarrow> ('w, unit) run_act" where
  "stop_resources env rs =
     on_agent (modify (\<lambda>a. a\<lparr>ag_world := fold (re_stop env) rs (ag_world a)\<rparr>))"

section \<open>Refusing to run\<close>

definition set_workspace_path :: "('w, unit) agent_act" where
  "set_workspace_path = (\<lambda>a. on_task (\<lambda>t. t\<lparr>workspace_path := Some (ws_root (ag_ws a))\<rparr>) a)"

definition refuse :: "('w, 'k, 'p) run_env \<Rightarrow> refusal \<Rightarrow> ('w, unit) agent_act" where
  "refuse env r =
     seqE [fail_task (fst r) (snd r), set_workspace_path, ensure_unverified_receipt (re_agent env), ag_commit]"

text \<open>The early returns: providers already started are stopped first.\<close>

definition turn_away :: "('w, 'k, 'p) run_env \<Rightarrow> resource list \<Rightarrow> refusal \<Rightarrow> ('w, 'a option) run_act" where
  "turn_away env rs r = thenE (stop_resources env rs) (thenE (on_agent (refuse env r)) (ret None))"

definition bindO :: "('s, 'a option) act \<Rightarrow> ('a \<Rightarrow> ('s, 'b option) act) \<Rightarrow> ('s, 'b option) act" where
  "bindO m f = bindE m (\<lambda>x. case x of None \<Rightarrow> ret None | Some a \<Rightarrow> f a)"

definition gate :: "('w, 'k, 'p) run_env \<Rightarrow> refusal option \<Rightarrow> ('w, unit option) run_act" where
  "gate env r = (case r of None \<Rightarrow> ret (Some ()) | Some x \<Rightarrow> turn_away env [] x)"

text \<open>An operation was in flight when an earlier run was interrupted: it is never replayed.\<close>

definition outcome_unknown :: "jdict \<Rightarrow> refusal" where
  "outcome_unknown op =
     (''Interrupted with '' @ str_repr (py_str (dget_or op ''tool'' (JStr ''unknown''))) @ '' operation '' @
        py_str (dget_or op ''id'' (JStr ''unknown'')) @ '' in flight. Its outcome '' @
        ''is unknown, so Loop refused to replay it and risk a duplicate mutation.'',
      ''operation_outcome_unknown'')"

definition refuse_replay :: "('w, 'k, 'p) run_env \<Rightarrow> jdict \<Rightarrow> ('w, unit) agent_act" where
  "refuse_replay env op =
     seqE [fail_task (fst (outcome_unknown op)) (snd (outcome_unknown op)), set_workspace_path,
           rebuild_history, ensure_unverified_receipt (re_agent env), ag_commit]"

section \<open>Authority\<close>

definition skill_refused :: "string \<Rightarrow> refusal" where
  "skill_refused name =
     (''Skill '' @ [apos_ch] @ name @ [apos_ch] @
        '' could not be loaded (unsigned, tampered, or not found). Refusing to run.'',
      ''skill_verification_failed'')"

definition admit_skill :: "('w, 'k, 'p) run_env \<Rightarrow> ('w, skill_manifest option option) run_act" where
  "admit_skill env =
     bindE (on_agent (gets (\<lambda>a. (skill (ag_task a), re_skills env (ag_world a))))) (\<lambda>(wanted, dirs).
       if \<not> nonempty_opt wanted then ret (Some None)
       else
         bindE (on_agent (py_ok (load_skill (ae_crypto (re_agent env)) (ae_hosts (re_agent env))
                  (trust_key (ae_crypto (re_agent env)) (re_trust_pem env)) dirs (the wanted))))
           (\<lambda>found. case found of
                None \<Rightarrow> turn_away env [] (skill_refused (the wanted))
              | Some m \<Rightarrow> ret (Some (Some m))))"

text \<open>The capabilities and hosts of the run, which become those of the row.\<close>

definition admit_authority ::
  "('w, 'k, 'p) run_env \<Rightarrow> skill_manifest option \<Rightarrow> ('w, (capability set \<times> string list) option) run_act" where
  "admit_authority env sk =
     bindE (on_agent (gets ag_task)) (\<lambda>t.
     bindE (on_agent (py_ok (resolve_capabilities sk t))) (\<lambda>caps.
       case resolve_hosts (ae_hosts (re_agent env)) sk t of
         Inl m \<Rightarrow> turn_away env [] (''Invalid destination authority: '' @ m, ''invalid_authority'')
       | Inr hosts \<Rightarrow>
           thenE (on_agent (on_task (\<lambda>t. t\<lparr>task_egress_hosts := Some hosts,
                    resolved_capabilities := sorted_capabilities caps\<rparr>)))
             (ret (Some (caps, hosts)))))"

definition admit_contract :: "('w, 'k, 'p) run_env \<Rightarrow> capability set \<Rightarrow> ('w, unit option) run_act" where
  "admit_contract env caps =
     bindE (on_agent (gets ag_task)) (\<lambda>t.
       if \<not> nonempty_opt (project_base_commit t) then ret (Some ())
       else
         thenE (on_agent set_workspace_path)
         (bindE (on_agent (prepare_project_contract (re_agent env) (re_contract env) caps)) (\<lambda>ready.
            ret (if ready then Some () else None))))"

definition admit_sandbox :: "('w, 'k, 'p) run_env \<Rightarrow> ('w, sandbox_choice option) run_act" where
  "admit_sandbox env =
     bindE (on_agent (gets (\<lambda>a. (re_in_cluster env (ag_world a), re_image_present env (ag_world a)))))
       (\<lambda>(in_cluster, present).
          case resolve_sandbox (re_settings env) in_cluster present of
            Inl m \<Rightarrow>
              thenE (on_agent (seqE
                [fail_task m ''sandbox_unavailable'', on_task (\<lambda>t. t\<lparr>sandbox := Some ''unavailable''\<rparr>),
                 set_workspace_path, ensure_unverified_receipt (re_agent env), ag_commit])) (ret None)
          | Inr sx \<Rightarrow>
              thenE (on_agent (on_task (\<lambda>t. t\<lparr>sandbox := Some (sx_label sx)\<rparr>))) (ret (Some sx)))"

text \<open>Everything that is decided before a provider is started.\<close>

record clearance =
  cl_skill :: "skill_manifest option"
  cl_capabilities :: "capability set"
  cl_hosts :: "string list"
  cl_provider_hosts :: provider_hosts
  cl_sandbox :: sandbox_choice
  cl_run_id :: string

definition provider_admission ::
  "('w, 'k, 'p) run_env \<Rightarrow> capability set \<Rightarrow> ('w, provider_hosts option) run_act" where
  "provider_admission env caps =
     (case provider_gate (re_settings env) (ae_hosts (re_agent env)) caps of
        Inl r \<Rightarrow> turn_away env [] r
      | Inr ph \<Rightarrow> ret (Some ph))"

definition clear_run :: "('w, 'k, 'p) run_env \<Rightarrow> ('w, clearance option) run_act" where
  "clear_run env =
     bindO (admit_skill env) (\<lambda>sk.
     bindO (admit_authority env sk) (\<lambda>(caps, hosts).
     bindO (admit_contract env caps) (\<lambda>_.
     bindO (gate env (availability_refusal (re_settings env) caps hosts)) (\<lambda>_.
     bindO (provider_admission env caps) (\<lambda>ph.
     bindO (admit_sandbox env) (\<lambda>sx.
     bindO (gate env (isolation_refusal (re_settings env) (ae_read_text (re_agent env)) caps (sx_label sx))) (\<lambda>_.
     bindE (on_agent (gets ag_task)) (\<lambda>t.
       ret (Some \<lparr>cl_skill = sk, cl_capabilities = caps, cl_hosts = hosts, cl_provider_hosts = ph,
                  cl_sandbox = sx, cl_run_id = task_id t @ '':'' @ show_int (attempt t)\<rparr>)))))))))"

section \<open>Starting the providers\<close>

record 'w launch =
  la_clearance :: clearance
  la_gateway :: "'w tool_source option"
  la_browser :: "'w tool_source option"
  la_email :: "'w tool_source option"
  la_calendar :: "'w tool_source option"
  la_vision :: "'w tool_source option"
  la_host_mcp :: "'w tool_source option"

definition register_client :: "string \<Rightarrow> ('w, unit) run_act" where
  "register_client name = modify (\<lambda>s. s\<lparr>rn_clients := rn_clients s @ [name]\<rparr>)"

definition register_resource :: "resource \<Rightarrow> ('w, unit) run_act" where
  "register_resource r = modify (\<lambda>s. s\<lparr>rn_resources := rn_resources s @ [r]\<rparr>)"

definition audits_egress :: "settings \<Rightarrow> capability set \<Rightarrow> bool" where
  "audits_egress c caps \<longleftrightarrow>
     (gateway_grants c caps \<noteq> {} \<or> meets caps destination_group) \<and> nonempty_opt (agent_egress_proxy_audit_url c)"

definition start_audit :: "('w, 'k, 'p) run_env \<Rightarrow> capability set \<Rightarrow> ('w, unit) run_act" where
  "start_audit env caps = whenM (audits_egress (re_settings env) caps) (register_client ''egress-proxy'')"

definition gateway_lacks :: "string list \<Rightarrow> refusal" where
  "gateway_lacks missing =
     (''Isolated gateways lack requested capabilities: '' @ py_join '', '' missing,
      ''isolated_gateway_capability_missing'')"

definition start_gateway :: "('w, 'k, 'p) run_env \<Rightarrow> clearance \<Rightarrow> ('w, 'w tool_source option option) run_act" where
  "start_gateway env cl =
     (let c = re_settings env; caps = cl_capabilities cl; granted = gateway_grants c caps in
      if granted = {} then ret (Some None)
      else
        thenE (register_client ''provider-gateway'')
        (bindE (on_agent (outside (re_start_gateway env (gateway_clients c caps (cl_provider_hosts cl))))) (\<lambda>r.
           case r of
             Inl m \<Rightarrow>
               turn_away env [] (''Isolated gateway is unavailable: '' @ take 300 m, ''isolated_gateway_start_failed'')
           | Inr g \<Rightarrow>
               (let missing = missing_gateway_tools granted (pv_tools (ts_provider g)) (ts_specs g ''net.browser'') in
                thenE (register_resource GatewayPool)
                  (if missing \<noteq> [] then turn_away env [GatewayPool] (gateway_lacks missing)
                   else ret (Some (Some g)))))))"

definition running :: "'w tool_source option \<Rightarrow> 'w tool_source option \<Rightarrow> resource list" where
  "running browser gateway =
     (if browser \<noteq> None then [BrowserServer] else []) @ (if gateway \<noteq> None then [GatewayPool] else [])"

definition start_browser ::
  "('w, 'k, 'p) run_env \<Rightarrow> capability set \<Rightarrow> 'w tool_source option \<Rightarrow> ('w, 'w tool_source option option) run_act" where
  "start_browser env caps gateway =
     (if NetBrowser \<in> gateway_grants (re_settings env) caps \<or> NetBrowser \<notin> caps then ret (Some None)
      else
        bindE (if agent_browser_enabled (re_settings env) then on_agent (outside (re_start_browser env)) else ret None)
          (\<lambda>b. case b of
             Some src \<Rightarrow> thenE (register_resource BrowserServer) (ret (Some (Some src)))
           | None \<Rightarrow>
               turn_away env (running None gateway)
                 (''The requested browser capability is unavailable.'', ''browser_unavailable'')))"

text \<open>Tools that run in this process when their gateway is not configured.\<close>

definition local_tools ::
  "('w, 'k, 'p) run_env \<Rightarrow> resource list \<Rightarrow> capability set \<Rightarrow> capability set \<Rightarrow> bool \<Rightarrow> 'w tool_source \<Rightarrow>
     refusal \<Rightarrow> ('w, 'w tool_source option option) run_act" where
  "local_tools env rs caps grp configured src r =
     (if meets (gateway_grants (re_settings env) caps) grp \<or> \<not> meets caps grp then ret (Some None)
      else if configured then ret (Some (Some src))
      else turn_away env rs r)"

definition host_mcp_providers :: "capability set \<Rightarrow> capability list" where
  "host_mcp_providers caps = filter (\<lambda>c. c \<in> caps) [ResearchRead, QaBrowser]"

definition start_host_mcp ::
  "('w, 'k, 'p) run_env \<Rightarrow> resource list \<Rightarrow> capability set \<Rightarrow> ('w, 'w tool_source option option) run_act" where
  "start_host_mcp env rs caps =
     (if \<not> meets caps host_mcp_group then ret (Some None)
      else
        bindE (on_agent (outside (re_start_host_mcp env (host_mcp_providers caps)))) (\<lambda>r.
          case r of
            Inl m \<Rightarrow>
              turn_away env rs (''Requested MCP provider is unavailable: '' @ take 300 m, ''host_mcp_start_failed'')
          | Inr src \<Rightarrow> thenE (register_resource HostServers) (ret (Some (Some src)))))"

definition launch_run :: "('w, 'k, 'p) run_env \<Rightarrow> clearance \<Rightarrow> ('w, 'w launch option) run_act" where
  "launch_run env cl =
     (let caps = cl_capabilities cl in
      thenE (start_audit env caps)
      (bindO (start_gateway env cl) (\<lambda>gateway.
       bindO (start_browser env caps gateway) (\<lambda>browser.
       bindO (local_tools env (running browser gateway) caps email_group (re_email_on env) (re_email_tools env)
                (''The requested email capability is not configured.'', ''email_unavailable'')) (\<lambda>email.
       bindO (local_tools env (running browser gateway) caps calendar_group (re_calendar_on env)
                (re_calendar_tools env)
                (''The requested calendar capability is not configured.'', ''calendar_unavailable'')) (\<lambda>calendar.
       bindO (local_tools env (running browser gateway) caps {Vision} (re_vision_on env) (re_vision_tools env)
                (''The requested vision capability is not configured.'', ''vision_unavailable'')) (\<lambda>vision.
       bindO (start_host_mcp env (running browser gateway) caps) (\<lambda>host_mcp.
         ret (Some \<lparr>la_clearance = cl, la_gateway = gateway, la_browser = browser, la_email = email,
                    la_calendar = calendar, la_vision = vision, la_host_mcp = host_mcp\<rparr>)))))))))"

section \<open>The executor and the environment of the loop\<close>

definition launch_providers :: "'w launch \<Rightarrow> 'w tool_source list" where
  "launch_providers la =
     List.map_filter id
       [la_gateway la, la_browser la, la_host_mcp la, la_email la, la_calendar la, la_vision la]"

definition launch_tools :: "'w launch \<Rightarrow> string set" where
  "launch_tools la = \<Union> (set (map (\<lambda>src. set (pv_tools (ts_provider src))) (launch_providers la)))"

definition specs_of :: "'w tool_source option \<Rightarrow> string \<Rightarrow> 'w tool_source option \<Rightarrow> string" where
  "specs_of own prefix_of_gateway gateway =
     (case own of
        Some src \<Rightarrow> ts_specs src []
      | None \<Rightarrow> (case gateway of None \<Rightarrow> [] | Some g \<Rightarrow> ts_specs g prefix_of_gateway))"

definition launch_specs :: "'w launch \<Rightarrow> string" where
  "launch_specs la =
     (case cl_skill (la_clearance la) of None \<Rightarrow> [] | Some m \<Rightarrow> sk_instructions m) @
     specs_of (la_browser la) ''net.browser'' (la_gateway la) @ specs_of (la_host_mcp la) [] None @
     specs_of (la_email la) ''email.'' (la_gateway la) @ specs_of (la_calendar la) ''calendar.'' (la_gateway la) @
     specs_of (la_vision la) ''vision'' (la_gateway la)"

definition out_of_sandbox_note :: "'w launch \<Rightarrow> string" where
  "out_of_sandbox_note la =
     (let names = (if la_email la \<noteq> None then [''email''] else []) @
                  (if la_calendar la \<noteq> None then [''calendar''] else [])
      in if names = [] then []
         else ''Note: your '' @ py_join '' and '' names @ '' tool(s) reach the network on the '' @
           ''host, OUTSIDE the container sandbox. Every send/create pauses for the user'' @ [apos_ch] @ ''s '' @
           ''approval; never email or export secrets or workspace credentials.'' @ nl)"

definition host_mcp_note :: "'w launch \<Rightarrow> string" where
  "host_mcp_note la =
     (let caps = cl_capabilities (la_clearance la);
          names = (if ResearchRead \<in> caps then [''Sibyl''] else []) @ (if QaBrowser \<in> caps then [''Argus''] else [])
      in if la_host_mcp la = None then []
         else ''Note: '' @ py_join '' and '' names @ '' MCP run on the host, OUTSIDE the container '' @
           ''sandbox. Their network destinations are not enforced by Loop'' @ [apos_ch] @ ''s egress proxy; '' @
           ''production must keep host providers disabled.'' @ nl)"

text \<open>
  \<^verbatim>\<open>scoped_token_factory\<close>. The \<^verbatim>\<open>RuntimeError\<close> of a missing key is excluded by the gate of the key
  where a token is needed; it is written as an \<open>AssertionError\<close>.
\<close>

definition draw_token ::
  "('w, 'k, 'p) run_env \<Rightarrow> task \<Rightarrow> string \<Rightarrow> token_scope \<Rightarrow> string \<Rightarrow> 'w \<Rightarrow> svc_exc + string" where
  "draw_token env t run_id sc audience w =
     (let key = authority_signing_key_pem (ae_read_text (re_agent env)) (re_settings env) in
      if \<not> nonempty_opt key then Inl (PyRaise AssertionError)
      else
        map_sum (\<lambda>_. PyRaise ValueError) id
          (issue_authority_token (ae_crypto (re_agent env)) (re_jwt env) (ae_hosts (re_agent env)) (the key)
             \<lparr>tq_audience = audience, tq_task = task_id t, tq_owner = owner_id t, tq_project = project_id t,
              tq_run = run_id, tq_capabilities = sc_capabilities sc,
              tq_hosts = (case sc_hosts sc of Some hs \<Rightarrow> hs | None \<Rightarrow> or_empty (task_egress_hosts t)),
              tq_ttl = agent_authority_token_ttl_seconds (re_settings env)\<rparr>
             (re_token_id env w) (re_clock env w)))"

definition egress_token :: "('w, 'k, 'p) run_env \<Rightarrow> clearance \<Rightarrow> task \<Rightarrow> 'w \<Rightarrow> svc_exc + string" where
  "egress_token env cl t w =
     draw_token env t (cl_run_id cl) (scope (cl_capabilities cl) None) ''loop-egress-proxy'' w"

definition audit_unavailable :: "string \<Rightarrow> string \<Rightarrow> jdict" where
  "audit_unavailable run_id cls =
     [(''kind'', JStr ''audit''), (''decision'', JStr ''unavailable''), (''run_id'', JStr run_id),
      (''error'', JStr cls)]"

definition append_audit :: "jdict list \<Rightarrow> jdict list \<Rightarrow> jdict list" where
  "append_audit audit events = last_n 200 (audit @ events)"

text \<open>\<^verbatim>\<open>collect_authority_audit\<close>, the hook after every tool.\<close>

definition collect_authority_audit ::
  "('w, 'k, 'p) run_env \<Rightarrow> 'w launch \<Rightarrow> string \<Rightarrow> jdict \<Rightarrow> tool_result \<Rightarrow> (jdict list \<times> 'w) \<Rightarrow> (jdict list \<times> 'w)" where
  "collect_authority_audit env la tool args r x =
     (case x of (audit, w) \<Rightarrow>
       (case (if la_gateway la = None then ([], w) else re_drain env w) of (drained, w1) \<Rightarrow>
          (let network = (tool = ''run_command'' \<or>
                 (case la_gateway la of None \<Rightarrow> False | Some g \<Rightarrow> tool \<in> set (pv_tools (ts_provider g))));
               audited = audits_egress (re_settings env) (cl_capabilities (la_clearance la))
           in case (if network \<and> audited then re_fetch env w1 else (Inr [], w1)) of
                (fetched, w2) \<Rightarrow>
                  (let events = drained @ (case fetched of Inr es \<Rightarrow> es
                         | Inl cls \<Rightarrow> [audit_unavailable (cl_run_id (la_clearance la)) cls])
                   in (if events = [] then audit else append_audit audit events, w2)))))"

definition launch_envelope :: "'w launch \<Rightarrow> envelope" where
  "launch_envelope la = from_capabilities (cl_capabilities (la_clearance la)) (Some (cl_hosts (la_clearance la)))"

definition run_executor :: "('w, 'k, 'p) run_env \<Rightarrow> 'w launch \<Rightarrow> task \<Rightarrow> 'w \<Rightarrow> (jdict list \<times> 'w) executor" where
  "run_executor env la t w =
     \<lparr>ex_envelope = launch_envelope la,
      ex_before = (\<lambda>ws. egress_guard (launch_envelope la) (Some ws)),
      ex_after = collect_authority_audit env la,
      ex_providers = map ts_provider (launch_providers la),
      ex_sandbox_image = sx_image (cl_sandbox (la_clearance la)),
      ex_sandbox_backend = sx_backend (cl_sandbox (la_clearance la)),
      ex_egress_token =
        (if NetShell \<in> cl_capabilities (la_clearance la) then egress_token env (la_clearance la) t w else Inr []),
      ex_spawn = re_spawn env\<rparr>"

text \<open>\<^verbatim>\<open>_build_conversation\<close>: the last turns of the chat that have an answer, oldest first.\<close>

definition build_conversation :: "task list \<Rightarrow> task \<Rightarrow> string" where
  "build_conversation rows t =
     (if \<not> nonempty_opt (chat_id t) then []
      else
        py_join nl
          (map (\<lambda>u. ''- You were asked: '' @ [quote_ch] @ take 200 (goal u) @ [quote_ch] @ '' -> you replied: '' @
               [quote_ch] @ take 300 (the (run_summary u)) @ [quote_ch])
            (filter (\<lambda>u. nonempty_opt (run_summary u))
              (rev (recent_for_chat rows (the (chat_id t)) (task_id t) (owner_id t) 5)))))"

text \<open>\<open>t0\<close> is the row when the loop starts; the fields a token quotes do not change later.\<close>

definition check_token :: "('w, 'k, 'p) run_env \<Rightarrow> clearance \<Rightarrow> task \<Rightarrow> 'w \<Rightarrow> svc_exc + string" where
  "check_token env cl t w =
     (if needs_token (re_settings env) (cl_capabilities cl) then egress_token env cl t w else Inr [])"

definition loop_env :: "('w, 'k, 'p) run_env \<Rightarrow> 'w launch \<Rightarrow> task \<Rightarrow> string \<Rightarrow> ('w, 'k, 'p) agent_env" where
  "loop_env env la t0 conversation =
     (re_agent env)\<lparr>
       ae_envelope := launch_envelope la, ae_dynamic_tools := launch_tools la, ae_specs := launch_specs la,
       ae_conversation := conversation, ae_notices := out_of_sandbox_note la @ host_mcp_note la,
       ae_execute := (\<lambda>db t tool args x. execute (run_executor env la t (snd (snd x))) tool args x),
       ae_checks := (\<lambda>envl ws w. re_checks env (cl_sandbox (la_clearance la))
         (check_token env (la_clearance la) t0 w) envl ws w)\<rparr>"

section \<open>The run\<close>

text \<open>The working memory of the loop, the system checks of a project and the baseline.\<close>

definition system_checks :: "('w, unit) agent_act" where
  "system_checks =
     with_task (\<lambda>t.
       if \<not> nonempty_opt (project_base_commit t) \<or>
          list_ex (\<lambda>c. dget c ''source'' = JStr ''system'') (required_checks t)
       then ret ()
       else
         bindE (gets ag_ws) (\<lambda>ws.
         bindE (py_ok (merge_completion_checks (required_checks t) (discover_project_checks (tree_of ws))
                  (criteria_count t))) (\<lambda>checks.
           on_task (\<lambda>t. t\<lparr>required_checks := checks\<rparr>))))"

definition take_baseline :: "('w, 'k, 'p) agent_env \<Rightarrow> ('w, unit) agent_act" where
  "take_baseline env =
     with_task (\<lambda>t.
       if steps_used t = 0 \<and> required_checks t \<noteq> [] \<and> baseline_checks t = [] then
         bindE (run_completion_checks env (required_checks t)) (\<lambda>results.
           on_task (\<lambda>t. t\<lparr>baseline_checks := map as_dict results\<rparr>))
       else ret ())"

definition remembered :: "('w, 'k, 'p) run_env \<Rightarrow> clearance \<Rightarrow> 'w agent \<Rightarrow> string" where
  "remembered env cl a =
     (if MemoryRead \<in> cl_capabilities cl
      then memory_snapshot 4000 (re_memory env (ag_world a)
             (scoped_memory_root (re_memory_root env) (owner_id (ag_task a)) (project_id (ag_task a))))
      else [])"

text \<open>The value is the environment the loop runs in.\<close>

definition prepare_loop :: "('w, 'k, 'p) run_env \<Rightarrow> 'w launch \<Rightarrow> ('w, ('w, 'k, 'p) agent_env) agent_act" where
  "prepare_loop env la =
     thenE set_workspace_path
     (thenE rebuild_history
     (thenE (modify (\<lambda>a. a\<lparr>ag_memory := remembered env (la_clearance la) a\<rparr>))
     (bindE (gets (\<lambda>a. loop_env env la (ag_task a) (build_conversation (re_rows env (ag_world a)) (ag_task a)))) (\<lambda>lenv.
      thenE system_checks
      (thenE (take_baseline lenv)
      (thenE ag_commit (ret lenv)))))))"

text \<open>\<^verbatim>\<open>_revoke_active_authority\<close>: once, for every service that held authority of the run.\<close>

definition revocation_unavailable :: "string \<Rightarrow> string \<Rightarrow> string \<Rightarrow> jdict" where
  "revocation_unavailable run_id service cls =
     [(''kind'', JStr ''authority''), (''decision'', JStr ''revocation_unavailable''),
      (''run_id'', JStr run_id), (''service'', JStr service), (''error'', JStr cls)]"

fun revoke_services ::
  "('w, 'k, 'p) run_env \<Rightarrow> string \<Rightarrow> string list \<Rightarrow> 'w \<Rightarrow> jdict list \<times> 'w" where
  "revoke_services env run_id [] w = ([], w)"
| "revoke_services env run_id (service # rest) w =
     (case re_revoke env service w of (outcome, w1) \<Rightarrow>
        (case revoke_services env run_id rest w1 of (events, w2) \<Rightarrow>
           ((case outcome of Inr es \<Rightarrow> es | Inl cls \<Rightarrow> [revocation_unavailable run_id service cls]) @ events, w2)))"

definition refresh_audit :: "('w, 'k, 'p) run_env \<Rightarrow> ('w, unit) agent_act" where
  "refresh_audit env a =
     (let t = ag_task a; e = re_agent env in
      if nonempty_opt (receipt_hash t) \<and> nonempty_opt (workspace_path t) then
        (case refresh_receipt_authority (ae_crypto e) (signing_key (ae_crypto e) (ae_read_text e) (ae_settings e))
                (authority_audit t) (ag_ws a) of
           (Inr (Inr h), ws) \<Rightarrow> (Inr (), a\<lparr>ag_ws := ws, ag_task := t\<lparr>receipt_hash := Some h\<rparr>\<rparr>)
         | (_, ws) \<Rightarrow> (Inr (), a\<lparr>ag_ws := ws\<rparr>))
      else (Inr (), a))"

definition record_revocation :: "('w, 'k, 'p) run_env \<Rightarrow> jdict list \<Rightarrow> ('w, unit) agent_act" where
  "record_revocation env events =
     (if events = [] then ret ()
      else seqE
        [on_task (\<lambda>t. t\<lparr>authority_audit := append_audit (authority_audit t) events\<rparr>),
         refresh_audit env, ag_commit])"

definition run_id_of :: "task \<Rightarrow> string" where
  "run_id_of t = task_id t @ '':'' @ show_int (attempt t)"

definition revoke_active_authority :: "('w, 'k, 'p) run_env \<Rightarrow> ('w, unit) run_act" where
  "revoke_active_authority env s =
     (if rn_revoked s \<or> rn_clients s = [] then (Inr (), s)
      else
        bindE
          (on_agent (outside (revoke_services env (run_id_of (ag_task (rn_agent s))) (rn_clients s))))
          (\<lambda>events. on_agent (record_revocation env events)) (s\<lparr>rn_revoked := True\<rparr>))"

definition terminal_status :: "task \<Rightarrow> bool" where
  "terminal_status t \<longleftrightarrow>
     status t \<in> set (map status_value [CompletedStatus, StoppedStatus, CancelledStatus, FailedStatus])"

definition revoke_if_terminal :: "('w, 'k, 'p) run_env \<Rightarrow> ('w, unit) run_act" where
  "revoke_if_terminal env =
     bindE (on_agent (gets ag_task)) (\<lambda>t. whenM (terminal_status t) (revoke_active_authority env))"

text \<open>\<^verbatim>\<open>try: m finally: c\<close> where \<open>c\<close> is an operation.\<close>

definition finally_do :: "('s, 'a) act \<Rightarrow> ('s, unit) act \<Rightarrow> ('s, 'a) act" where
  "finally_do m c s =
     (case m s of (r, s1) \<Rightarrow>
        (case c s1 of (Inl e, s2) \<Rightarrow> (Inl e, s2) | (Inr _, s2) \<Rightarrow> (r, s2)))"

text \<open>Any exception of the loop fails the task, with a receipt.\<close>

definition guarded_loop :: "('w, 'k, 'p) agent_env \<Rightarrow> ('w, unit) agent_act" where
  "guarded_loop env =
     catchE (with_task (\<lambda>t. run_loop env (steps_used t + 1)))
       (\<lambda>e. seqE [fail_task (exc_text e) ''unhandled_runtime_error'', ensure_unverified_receipt env, ag_commit])"

definition close_run :: "('w, 'k, 'p) run_env \<Rightarrow> 'w launch \<Rightarrow> ('w, unit) run_act" where
  "close_run env la =
     seqE
       [stop_resources env ((if la_browser la \<noteq> None then [BrowserServer] else []) @
          (if la_host_mcp la \<noteq> None then [HostServers] else [])),
        whenM (needs_token (re_settings env) (cl_capabilities (la_clearance la))) (revoke_if_terminal env),
        stop_resources env (if la_gateway la \<noteq> None then [GatewayPool] else [])]"

definition admitted_run :: "('w, 'k, 'p) run_env \<Rightarrow> ('w, unit) run_act" where
  "admitted_run env =
     bindE (bindO (clear_run env) (launch_run env)) (\<lambda>launched.
       case launched of
         None \<Rightarrow> ret ()
       | Some la \<Rightarrow>
           bindE (on_agent (prepare_loop env la)) (\<lambda>lenv.
             finally_do (on_agent (guarded_loop lenv)) (close_run env la)))"

definition run_claimed :: "('w, 'k, 'p) run_env \<Rightarrow> ('w, unit) run_act" where
  "run_claimed env =
     bindE (on_agent (gets ag_task)) (\<lambda>t.
       case operation_journal t of
         Some op \<Rightarrow> on_agent (refuse_replay env op)
       | None \<Rightarrow> admitted_run env)"

text \<open>\<^verbatim>\<open>_stop_active_resources\<close>: each started process once, the last one first.\<close>

definition stop_active_resources :: "('w, 'k, 'p) run_env \<Rightarrow> ('w, unit) run_act" where
  "stop_active_resources env s =
     thenE (stop_resources env (remdups (rev (rn_resources s)))) (modify (\<lambda>u. u\<lparr>rn_resources := []\<rparr>)) s"

definition run_task :: "('w, 'k, 'p) run_env \<Rightarrow> ('w, unit) run_act" where
  "run_task env =
     finally_do (run_claimed env) (seqE [revoke_if_terminal env, stop_active_resources env])"

text \<open>
  \<^verbatim>\<open>run\<close>: the row is claimed first; a task that is not pending is left alone. \<open>log\<close> are its
  steps and \<open>at\<close> opens the workspace at a path.
\<close>

definition workspace_root :: "settings \<Rightarrow> task \<Rightarrow> string" where
  "workspace_root c t =
     (if nonempty_opt (workspace_path t) then the (workspace_path t)
      else join_path (agent_workspaces_root c) (task_id t))"

definition fresh_run :: "task \<Rightarrow> step list \<Rightarrow> workspace \<Rightarrow> 'w \<Rightarrow> 'w run" where
  "fresh_run t log ws w =
     \<lparr>rn_agent = \<lparr>ag_task = t, ag_log = log, ag_saved = (t, log), ag_history = [], ag_head = [], ag_memory = [],
        ag_notice = [], ag_ws = ws, ag_world = w\<rparr>,
      rn_clients = [], rn_revoked = False, rn_resources = []\<rparr>"

definition run_pending ::
  "('w, 'k, 'p) run_env \<Rightarrow> task list \<Rightarrow> (string \<Rightarrow> step list) \<Rightarrow> (string \<Rightarrow> workspace) \<Rightarrow> string \<Rightarrow> 'w \<Rightarrow>
     ((svc_exc + unit) \<times> 'w run) option" where
  "run_pending env rows steps_of open_at i w =
     (case claim_pending rows i of
        (None, _) \<Rightarrow> None
      | (Some t, _) \<Rightarrow>
          Some (run_task env (fresh_run t (steps_of i) (open_at (workspace_root (re_settings env) t)) w)))"

end
