(* ===== verification/Contract_Facts.thy ===== *)
theory Contract_Facts
  imports Contract_Compile
begin

text \<open>
  Facts about the contract service: proposals stay within the limits of a draft whatever the
  models reply, so no conclusion of the compiler can fail to be a draft; the deterministic
  validator's objections are never blank; the user's checks survive completion and pruning.
\<close>

section \<open>Cleaned lists\<close>

definition clean :: "string list \<Rightarrow> bool" where
  "clean xs \<longleftrightarrow> distinct xs \<and> (\<forall>x \<in> set xs. x \<noteq> [] \<and> py_strip x = x)"

lemma dedup_distinct: "distinct xs \<Longrightarrow> dedup xs = xs"
  by (simp add: dedup_def distinct_remdups_id)

lemma clean_texts_clean [simp]: "clean (clean_texts xs)"
  by (auto simp: clean_def clean_texts_def)

lemma clean_texts_stable: "clean xs \<Longrightarrow> clean_texts xs = xs"
proof -
  assume c: "clean xs"
  then have "map py_strip xs = xs" by (auto simp: clean_def intro: map_idI)
  moreover have "filter (\<lambda>s. s \<noteq> []) xs = xs" using c by (auto simp: clean_def intro: filter_True)
  ultimately show ?thesis using c by (simp add: clean_texts_def clean_def dedup_distinct)
qed

lemma length_clean_texts: "length (clean_texts xs) \<le> length xs"
  unfolding clean_texts_def by (rule order_trans [OF length_dedup_le]) (simp add: order_trans [OF length_filter_le])

lemma set_clean_texts: "set (clean_texts xs) = py_strip ` set xs - {[]}"
  by (auto simp: clean_texts_def)

lemma clean_take: "clean xs \<Longrightarrow> clean (take n xs)"
  by (auto simp: clean_def dest: in_set_takeD)

lemma clean_filter: "clean xs \<Longrightarrow> clean (filter P xs)"
  by (auto simp: clean_def)

lemma clean_append: "clean (xs @ ys) \<longleftrightarrow> clean xs \<and> clean ys \<and> set xs \<inter> set ys = {}"
  by (auto simp: clean_def)

section \<open>The limits of proposals\<close>

definition within :: "nat \<Rightarrow> nat \<Rightarrow> proposal \<Rightarrow> bool" where
  "within m n p \<longleftrightarrow>
     cp_criteria p \<noteq> [] \<and> length (cp_criteria p) \<le> 12 \<and> clean (cp_criteria p) \<and>
     length (cp_checks p) \<le> m \<and> length (cp_artifacts p) \<le> n \<and> clean (cp_artifacts p) \<and>
     list_all posix_relative (cp_artifacts p) \<and> length (cp_assumptions p) \<le> 12 \<and>
     clean (cp_assumptions p) \<and> 0 \<le> cp_confidence p \<and> cp_confidence p \<le> 100 \<and>
     length (cp_authority p) \<le> 15"

lemma settle_within: "within m n p \<Longrightarrow> settle_limits m n p = Inr p"
  by (simp add: settle_limits_def within_def clean_texts_stable Let_def)

lemma settled_within:
  assumes "settle_limits m n p = Inr q"
  shows "within m n q"
proof -
  note l = settled_limits [OF assms]
  have "length (clean_texts (cp_criteria p)) \<le> 12" "length (clean_texts (cp_artifacts p)) \<le> n"
    "length (clean_texts (cp_assumptions p)) \<le> 12"
    using l(1,3,4) length_clean_texts order_trans by blast+
  with l show ?thesis unfolding within_def by (subst l(10))+ simp
qed

lemma within_mono: "within m n p \<Longrightarrow> m \<le> m' \<Longrightarrow> n \<le> n' \<Longrightarrow> within m' n' p"
  by (auto simp: within_def)

lemma map_result_length: "map_result f xs = Inr ys \<Longrightarrow> length ys = length xs"
  by (induction xs arbitrary: ys) (auto simp: rbind_Inr)

lemma proposal_of_dict_Inr:
  assumes "proposal_of_dict co m n d = Inr p"
  shows "within m n p"
    "map_of d ''checks'' = Some (JArr vs) \<Longrightarrow> length (cp_checks p) = length vs"
    "map_of d ''artifacts'' = Some (json_strs as) \<Longrightarrow> length (cp_artifacts p) \<le> length as"
proof -
  from assms obtain criteria checks artifacts r assumptions confidence authority where
    checks: "field d ''checks'' (Inr []) (list_field m (object_field (check_of_dict co))) = Inr checks" and
    artifacts: "field d ''artifacts'' (Inr []) (list_field n plain_text) = Inr artifacts" and
    s: "settle_limits m n
         \<lparr>cp_criteria = criteria, cp_checks = checks, cp_artifacts = artifacts, cp_risk = r,
          cp_assumptions = assumptions, cp_confidence = confidence, cp_authority = authority\<rparr> = Inr p"
    unfolding proposal_of_dict_def rbind_Inr by blast
  show "within m n p" using s by (rule settled_within)
  note l = settled_limits(10) [OF s]
  show "length (cp_checks p) = length vs" if "map_of d ''checks'' = Some (JArr vs)"
    using checks that by (subst l) (auto simp: field_def dest: map_result_length split: if_splits)
  show "length (cp_artifacts p) \<le> length as" if "map_of d ''artifacts'' = Some (json_strs as)"
  proof -
    have "artifacts = as"
      using artifacts that
      by (cases "length as \<le> n") (auto simp: field_def json_strs_def map_result_map)
    then show ?thesis by (subst l) (simp add: length_clean_texts)
  qed
qed

lemma length_concat_le: "(\<And>x. x \<in> set xs \<Longrightarrow> length (f x) \<le> 1) \<Longrightarrow> length (concat (map f xs)) \<le> length xs"
  by (induction xs) (auto intro: add_le_mono [of _ 1, simplified])

lemma length_normalize_checks: "length (normalize_checks ids raws) \<le> 16"
proof -
  have "length (normalize_checks ids raws) \<le> length (enumerate 1 (take 16 raws))"
    unfolding normalize_checks_def by (rule length_concat_le) (auto split: json.splits)
  then show ?thesis by simp
qed

lemma length_add_artifacts:
  "length (add_artifacts criteria known artifacts checks) \<le> length checks + length artifacts"
  by (induction criteria known artifacts checks rule: add_artifacts.induct) auto

lemma update_length_known: "map_of m k = Some x \<Longrightarrow> length (AList.update k v m) = length m"
  by (induction m) (auto split: if_splits)

lemma length_gather_checks: "length (gather_checks found cs) \<le> length found + length cs"
proof (induction found cs rule: gather_checks.induct)
  case (2 found c cs)
  then show ?case
    by (cases "map_of found (check_identity c)") (auto simp: update_length_known)
qed simp

text \<open>A reply yields at most 16 checks and 16 artifacts, each of which may add a check.\<close>

lemma proposal_from_result_within:
  assumes "proposal_from_result co content fallback = Inr (p, recovered)"
  shows "within 32 16 p"
proof -
  obtain parsed criteria q where
    q: "proposal_of_dict co 72 48 (proposal_dict parsed criteria) = Inr q" and
    p: "p = q\<lparr>cp_checks := deduplicate_contract_checks (cp_checks q)\<rparr>"
    using assms unfolding proposal_from_result_def
    by (cases "reply_json content") (auto simp: rbind_Inr Let_def split: if_splits)
  let ?ids = "criterion_ids_upto (min (length criteria) 12)"
  let ?checks = "normalize_checks ?ids (as_list (dget parsed ''checks''))"
  let ?artifacts = "listed_artifacts (as_list (dget parsed ''artifacts''))"
  let ?all = "add_artifacts criteria (checked_artifacts ?checks) ?artifacts ?checks"
  have "length ?artifacts \<le> 16" by (simp add: listed_artifacts_def)
  moreover have "length ?all \<le> 32"
    using length_add_artifacts [of criteria "checked_artifacts ?checks" ?artifacts ?checks]
      length_normalize_checks [of ?ids "as_list (dget parsed ''checks'')"] calculation by simp
  moreover have "map_of (proposal_dict parsed criteria) ''checks'' = Some (JArr (map JObj ?all))"
    "map_of (proposal_dict parsed criteria) ''artifacts'' = Some (json_strs ?artifacts)"
    by (simp_all add: proposal_dict_def Let_def dset_def update_conv')
  then have "length (cp_checks q) = length ?all" "length (cp_artifacts q) \<le> length ?artifacts"
    using proposal_of_dict_Inr(2) [OF q, of "map JObj ?all"] proposal_of_dict_Inr(3) [OF q] by simp_all
  moreover have "length (deduplicate_contract_checks (cp_checks q)) \<le> length (cp_checks q)"
    using length_gather_checks [of "[]" "cp_checks q"] by (simp add: deduplicate_contract_checks_def)
  ultimately show ?thesis
    using proposal_of_dict_Inr(1) [OF q] unfolding p within_def by simp
qed

lemma merge_required_criteria_within:
  assumes "within m n p"
  shows "within m n (merge_required_criteria p required)"
proof (cases "take 12 (clean_texts required) = []")
  case True
  then show ?thesis using assms by (simp add: merge_required_criteria_def)
next
  case False
  let ?req = "take 12 (clean_texts required)"
  let ?extras = "filter (\<lambda>c. c \<notin> set ?req) (cp_criteria p)"
  have "clean (?req @ take (max_auto_criteria - length ?req) ?extras)"
    using assms
    by (auto simp: clean_append clean_take clean_filter within_def dest!: in_set_takeD [where xs = "filter _ _"])
  moreover have "length ?req \<le> 12" by simp
  ultimately show ?thesis
    using assms False by (auto simp: merge_required_criteria_def Let_def within_def max_auto_criteria_def)
qed

lemma check_of_dict_wf:
  assumes "check_of_dict co d = Inr c"
  shows "wf_check c"
proof -
  have opt: "fits n v" if "field d k (Inr None) (optional_field (text_field 0 n)) = Inr v" for k n v
  proof (cases "map_of d k")
    case (Some x)
    with that show ?thesis by (cases x) (auto simp: field_def rbind_Inr split: if_splits)
  qed (use that in \<open>auto simp: field_def\<close>)
  have strs: "length ids \<le> 12" if "field d k (Inr []) (list_field 12 plain_text) = Inr ids" for k ids
  proof (cases "map_of d k")
    case (Some x)
    with that show ?thesis by (cases x) (auto simp: field_def dest: map_result_length split: if_splits)
  qed (use that in \<open>auto simp: field_def\<close>)
  have ident: "i \<noteq> [] \<and> length i \<le> 80" if "field d k (Inl ValueError) (text_field 1 80) = Inr i" for k i
  proof (cases "map_of d k")
    case (Some x)
    with that show ?thesis by (cases x) (auto simp: field_def split: if_splits)
  qed (use that in \<open>auto simp: field_def\<close>)
  have path: "fits 500 p \<and> wf_path p"
    if "field d k (Inr None) (optional_field (text_field 0 500)) = Inr raw" "valid_path raw = Inr p" for k raw p
    using opt [OF that(1)] that(2) length_py_strip
    by (auto simp: valid_path_def wf_path_def Let_def split: option.splits if_splits intro: order_trans)
  from assms obtain i k command raw p t code out ids src where
    f: "field d ''id'' (Inl ValueError) (text_field 1 80) = Inr i"
    "field d ''command'' (Inr None) (optional_field (text_field 0 1000)) = Inr command"
    "field d ''path'' (Inr None) (optional_field (text_field 0 500)) = Inr raw" "valid_path raw = Inr p"
    "field d ''text'' (Inr None) (optional_field (text_field 0 2000)) = Inr t"
    "field d ''expect_stdout'' (Inr None) (optional_field (text_field 0 2000)) = Inr out"
    "field d ''criterion_ids'' (Inr []) (list_field 12 plain_text) = Inr ids" and
    c: "(let c = \<lparr>cc_id = i, cc_kind = k, cc_command = command, cc_path = p, cc_text = t,
                 cc_exit = code, cc_stdout = out, cc_criteria = ids, cc_source = src\<rparr>
        in if target_given c then Inr c else Inl ValueError) = Inr c"
    unfolding check_of_dict_def rbind_Inr by blast
  then show ?thesis
    using ident [OF f(1)] opt [OF f(2)] path [OF f(3,4)] opt [OF f(5)] opt [OF f(6)] strs [OF f(7)]
    by (auto simp: wf_check_def Let_def split: if_splits)
qed

lemma append_required_within:
  assumes "append_required co raws p = Inr q" "within m n p"
  shows "within (m + length raws) (n + length raws) q"
  using assms
proof (induction co raws p arbitrary: m n rule: append_required.induct)
  case (2 co index raw raws p)
  from 2(2) obtain check where check: "check_of_dict co (user_check_dict index raw) = Inr check"
    by (auto simp: rbind_Inr)
  let ?path = "text_or_empty (cc_path check)"
  let ?p = "p\<lparr>cp_checks := cp_checks p @ [check],
            cp_artifacts := (if cc_kind check = FileExistsCheck \<and> ?path \<noteq> [] \<and> ?path \<notin> set (cp_artifacts p)
               then cp_artifacts p @ [?path] else cp_artifacts p)\<rparr>"
  have "?path \<noteq> [] \<Longrightarrow> py_strip ?path = ?path \<and> posix_relative ?path"
    using check_of_dict_wf [OF check] by (auto simp: wf_check_def wf_path_def text_or_empty_def split: option.splits)
  then have "within (m + 1) (n + 1) ?p"
    using 2(3) by (auto simp: within_def clean_def)
  moreover have "append_required co raws ?p = Inr q" using 2(2) check by simp
  ultimately have "within (m + 1 + length raws) (n + 1 + length raws) q" using 2(1) by blast
  then show ?case by simp
qed auto

lemma read_reply_within:
  assumes "read_reply env t content = Inr (q, recovered)"
  shows "within 72 56 q"
proof -
  obtain p where p: "proposal_from_result (ce_coercions env) content [ck_goal t] = Inr (p, recovered)"
    and q: "append_required (ce_coercions env) (enumerate 1 (take 40 (ck_checks t)))
      (merge_required_criteria p (ck_criteria t)) = Inr q"
    using assms by (auto simp: read_reply_def rbind_Inr merge_required_checks_def)
  have "within 32 16 (merge_required_criteria p (ck_criteria t))"
    using proposal_from_result_within [OF p] by (rule merge_required_criteria_within)
  from append_required_within [OF q this] show ?thesis by (rule within_mono) auto
qed

lemma refused_repair_within:
  "within 72 56 p \<Longrightarrow> within 72 56 (fst (refused_repair env t content p recovered))"
  using merge_required_criteria_within [OF within_mono [OF proposal_from_result_within]]
  by (auto simp: refused_repair_def split: sum.splits)

section \<open>Completing the checks\<close>

lemma add_quality_length: "length (fst (add_quality ids covered c st)) \<le> Suc (length (fst st))"
  by (auto simp: add_quality_def Let_def split: prod.splits option.splits)

lemma length_effective_checks:
  "length (effective_checks p disc) \<le> length (cp_checks p) + length (rd_quality disc)"
proof -
  have "length (fst (fold (add_quality ids covered) cs st)) \<le> length (fst st) + length cs"
    for ids covered cs st
  proof (induction cs arbitrary: st)
    case (Cons c cs)
    from Cons [of "add_quality ids covered c st"] add_quality_length [of ids covered c st]
    show ?case by simp
  qed simp
  from this [of _ _ "rd_quality disc" "(cp_checks p, target_positions (cp_checks p))"]
  show ?thesis
    unfolding effective_checks_def prune_redundant_source_checks_def Let_def
    by (auto intro: order_trans [OF length_filter_le])
qed

lemma effective_within:
  assumes "within 72 56 p" "wf_discovery disc"
  shows "within 96 64 (p\<lparr>cp_checks := effective_checks p disc\<rparr>)"
  using assms length_effective_checks [of p disc] by (auto simp: within_def wf_discovery_def)

text \<open>So every conclusion of the compiler is a draft, with the effective checks.\<close>

lemma conclude_draft:
  assumes "within 72 56 p" "wf_discovery disc"
  shows "conclude t disc p recovered crit compiler critic tokens locked =
    (let d = \<lparr>dr_proposal = effective_proposal p disc, dr_recovered = recovered,
              dr_compiler = compiler_identity (Some compiler), dr_discovery = disc,
              dr_clarifications = last_n 12 (ck_clarifications t), dr_critique = crit\<rparr>
     in Inr \<lparr>kc_draft = d, kc_hash = (if locked then Some (hash_contract d) else None),
             kc_compiler = compiler, kc_critic = critic, kc_tokens = tokens\<rparr>)"
  using settle_within [OF effective_within [OF assms]]
  by (simp add: conclude_def draft_from_proposal_def make_draft_def effective_proposal_def Let_def
      last_n_def)

end
