(* ===== verification/Contract_Sample.thy ===== *)
theory Contract_Sample
  imports Contract_Compile
begin

text \<open>
  A concrete compilation for the witnesses: an empty repository, a compiler that proposes one
  criterion with one test command, a critic that accepts it, and a world that counts calls.
\<close>

definition dq :: "string \<Rightarrow> string" where
  "dq s = quote_ch # s @ [quote_ch]"

definition sample_reply :: string where
  "sample_reply =
     ''{'' @ dq ''criteria'' @ '':['' @ dq ''Prints hello'' @ ''],'' @
     dq ''checks'' @ '':[{'' @ dq ''command'' @ '':'' @ dq ''pytest -q'' @ '','' @
     dq ''criterion_ids'' @ '':['' @ dq ''criterion-001'' @ '']}],'' @
     dq ''risk'' @ '':'' @ dq ''low'' @ '','' @ dq ''confidence'' @ '':90}''"

definition sample_verdict :: string where
  "sample_verdict = ''{'' @ dq ''accepted'' @ '':true}''"

definition sample_result :: "string \<Rightarrow> llm_result" where
  "sample_result content = \<lparr>lr_content = content, lr_provider = ''p'', lr_model = ''m'', lr_tokens = 10\<rparr>"

definition sample_contract_env :: "nat contract_env" where
  "sample_contract_env =
     \<lparr>ce_coercions = strict_coercions, ce_syntax = (\<lambda>_. None), ce_redact = True, ce_message = (\<lambda>_. []),
      ce_compiler = (\<lambda>_ _ n. (Inr (sample_result sample_reply), n + 1)),
      ce_critic = (\<lambda>_ _ n. (Inr (sample_result sample_verdict), n + 1))\<rparr>"

definition sample_requirement :: jdict where
  "sample_requirement = [(''kind'', JStr ''command''), (''command'', JStr ''make check'')]"

definition sample_task :: contract_task where
  "sample_task =
     \<lparr>ck_goal = ''Print hello'', ck_granted = {Exec}, ck_checks = [sample_requirement], ck_criteria = [],
      ck_clarifications = [], ck_budget = None\<rparr>"

definition sample_repo :: workspace where
  "sample_repo = \<lparr>ws_root = ''/w'', ws_files = [], ws_dirs = [], ws_real = id\<rparr>"

definition proposed_check :: contract_check where
  "proposed_check =
     \<lparr>cc_id = ''contract-001'', cc_kind = CommandCheck, cc_command = Some ''pytest -q'', cc_path = None,
      cc_text = None, cc_exit = Some 0, cc_stdout = None, cc_criteria = [''criterion-001''],
      cc_source = FromContract\<rparr>"

definition required_check :: contract_check where
  "required_check =
     \<lparr>cc_id = ''contract-user-001'', cc_kind = CommandCheck, cc_command = Some ''make check'', cc_path = None,
      cc_text = None, cc_exit = Some 0, cc_stdout = None, cc_criteria = [], cc_source = FromContract\<rparr>"

definition sample_proposal :: "contract_check list \<Rightarrow> proposal" where
  "sample_proposal checks =
     \<lparr>cp_criteria = [''Prints hello''], cp_checks = checks, cp_artifacts = [], cp_risk = LowRisk,
      cp_assumptions = [], cp_confidence = 90, cp_authority = []\<rparr>"

definition sample_disc :: discovery where
  "sample_disc =
     \<lparr>rd_manifests = [], rd_scripts = [], rd_test_files = [], rd_build_outputs = [], rd_quality = [],
      rd_previews = [], rd_scanned = 0, rd_truncated = False, rd_previews_truncated = False\<rparr>"

lemma sample_reply_json:
  "reply_json sample_reply =
     JObj [(''criteria'', JArr [JStr ''Prints hello'']),
       (''checks'', JArr [JObj [(''command'', JStr ''pytest -q''),
          (''criterion_ids'', JArr [JStr ''criterion-001''])]]),
       (''risk'', JStr ''low''), (''confidence'', JInt 90)]"
  by code_simp

lemma sample_proposed:
  "proposal_from_result strict_coercions sample_reply [''Print hello''] =
     Inr (sample_proposal [proposed_check], False)"
  unfolding proposal_from_result_def sample_reply_json by code_simp

lemma sample_merged:
  "merge_required_checks strict_coercions (merge_required_criteria (sample_proposal [proposed_check]) [])
     [sample_requirement] = Inr (sample_proposal [proposed_check, required_check])"
  by code_simp

lemma sample_read:
  "read_reply sample_contract_env sample_task sample_reply =
     Inr (sample_proposal [proposed_check, required_check], False)"
  using sample_proposed sample_merged by (simp add: read_reply_def sample_contract_env_def sample_task_def)

lemma sample_discovered: "discover_repository strict_coercions True sample_repo = Inr sample_disc"
  by code_simp

lemma sample_effective:
  "effective_checks (sample_proposal [proposed_check, required_check]) sample_disc =
     [proposed_check, required_check]"
  by code_simp

lemma sample_issues:
  "deterministic_issues (\<lambda>_. None) (sample_proposal [proposed_check, required_check]) sample_disc {Exec} = []"
  by code_simp

definition sample_critique :: critique where
  "sample_critique =
     \<lparr>ct_accepted = True, ct_issues = [], ct_question = None, ct_adjudicated = False, ct_reason = None,
      ct_provider = ''p'', ct_model = ''m''\<rparr>"

lemma sample_critic: "critique_from_result sample_verdict ''p'' ''m'' = sample_critique"
  by code_simp

lemma sample_effective_proposal:
  "effective_proposal (sample_proposal [proposed_check, required_check]) sample_disc =
     sample_proposal [proposed_check, required_check]"
  by (simp add: effective_proposal_def sample_effective) (simp add: sample_proposal_def)

lemma sample_review:
  "review sample_contract_env sample_task sample_disc (sample_proposal [proposed_check, required_check])
     (sample_result sample_verdict) = sample_critique"
  using sample_critic sample_issues
  by (simp add: review_def sample_contract_env_def sample_task_def sample_result_def sample_critique_def Let_def
      clean_texts_def deterministic_adjudication_reason_def)

lemma sample_settled:
  "settle_limits 96 64 (sample_proposal [proposed_check, required_check]) =
     Inr (sample_proposal [proposed_check, required_check])"
  by code_simp

lemma sample_locked:
  "\<exists>c. compile_project_contract sample_contract_env sample_repo sample_task 0 = (Inr c, 2) \<and>
     kc_hash c = Some (hash_contract (kc_draft c)) \<and>
     dr_proposal (kc_draft c) = sample_proposal [proposed_check, required_check]"
proof -
  let ?p = "sample_proposal [proposed_check, required_check]"
  have "draft_from_proposal ?p sample_disc [] sample_critique (sample_result sample_reply) False =
      Inr \<lparr>dr_proposal = ?p, dr_recovered = False,
        dr_compiler = compiler_identity (Some (sample_result sample_reply)), dr_discovery = sample_disc,
        dr_clarifications = [], dr_critique = sample_critique\<rparr>"
    using sample_settled sample_effective_proposal
    by (simp add: draft_from_proposal_def make_draft_def effective_proposal_def)
  moreover have "ct_accepted sample_critique" by (simp add: sample_critique_def)
  ultimately show ?thesis
    using sample_read sample_discovered sample_review
    by (simp add: compile_project_contract_def max_contract_attempts_def numeral_3_eq_3 Let_def
        sample_effective_proposal conclude_def
        sample_contract_env_def [THEN arg_cong, of ce_compiler] sample_contract_env_def [THEN arg_cong, of ce_critic]
        sample_contract_env_def [THEN arg_cong, of ce_coercions] sample_contract_env_def [THEN arg_cong, of ce_redact]
        sample_task_def [THEN arg_cong, of ck_clarifications] sample_result_def [THEN arg_cong, of lr_content]
        last_n_def)
qed

end
