(* ===== verification/Contract_Safety.thy ===== *)
theory Contract_Safety
  imports Contract_Facts Contract_Sample
begin

text \<open>
  What a compiled contract guarantees: the compiler always concludes, after a bounded number of
  model calls; what it locks has passed the deterministic validator; the user's criteria and
  checks are part of it.
\<close>

section \<open>Every outcome is a conclusion\<close>

definition read_from :: "'w contract_env \<Rightarrow> contract_task \<Rightarrow> proposal \<Rightarrow> bool" where
  "read_from env t p \<longleftrightarrow> (\<exists>content recovered. read_reply env t content = Inr (p, recovered))"

definition concluded ::
  "'w contract_env \<Rightarrow> contract_task \<Rightarrow> discovery \<Rightarrow> contract_exc + compiled_contract \<Rightarrow> bool" where
  "concluded env t disc r \<longleftrightarrow>
     (\<exists>p recovered crit compiler critic tokens locked.
        r = conclude t disc p recovered crit compiler critic tokens locked \<and> within 72 56 p \<and>
        (locked \<longrightarrow> read_from env t p \<and> ct_accepted crit \<and>
           (\<exists>reply. crit = review env t disc (effective_proposal p disc) reply)))"

lemma concludedI:
  "within 72 56 p \<Longrightarrow>
   (locked \<Longrightarrow> read_from env t p \<and> ct_accepted crit \<and>
      (\<exists>reply. crit = review env t disc (effective_proposal p disc) reply)) \<Longrightarrow>
   concluded env t disc (conclude t disc p recovered crit compiler critic tokens locked)"
  unfolding concluded_def by blast

lemma read_from_within: "read_from env t p \<Longrightarrow> within 72 56 p"
  by (auto simp: read_from_def intro: read_reply_within)

lemma attempt_concluded:
  assumes "read_from env t p"
  shows "concluded env t disc
    (fst (attempt_contract env t disc (Suc n) seen p recovered compiler tokens w))"
  using assms
proof (induction n arbitrary: seen p recovered compiler tokens w)
  case (0 seen p recovered compiler tokens w)
  note p = read_from_within [OF 0]
  obtain r w1 where critic: "ce_critic env (AskCritique (ck_goal t) (effective_proposal p disc) disc)
      (remaining_budget (ck_budget t) tokens) w = (r, w1)" by (rule prod.exhaust)
  show ?case
  proof (cases r)
    case (Inl failure)
    with critic show ?thesis by (auto simp: Let_def intro!: concludedI p)
  next
    case (Inr reply)
    have "concluded env t disc (conclude t disc p recovered (review env t disc (effective_proposal p disc) reply)
        compiler (Some reply) (tokens + lr_tokens reply) (ct_accepted (review env t disc (effective_proposal p disc) reply)))"
      using 0 by (intro concludedI p) blast
    with critic Inr show ?thesis by (simp add: Let_def)
  qed
next
  case (Suc n seen p recovered compiler tokens w)
  note p = read_from_within [OF Suc.prems]
  let ?effective = "effective_proposal p disc"
  obtain r w1 where critic: "ce_critic env (AskCritique (ck_goal t) ?effective disc)
      (remaining_budget (ck_budget t) tokens) w = (r, w1)" by (rule prod.exhaust)
  show ?case
  proof (cases r)
    case (Inl failure)
    with critic show ?thesis by (auto simp: Let_def intro!: concludedI p)
  next
    case (Inr reply)
    let ?crit = "review env t disc ?effective reply"
    let ?tokens = "tokens + lr_tokens reply"
    let ?state = "repair_state p (ct_issues ?crit)"
    show ?thesis
    proof (cases "ct_accepted ?crit \<or> ?state \<in> set seen")
      case True
      have "concluded env t disc (conclude t disc p recovered ?crit compiler (Some reply) ?tokens (ct_accepted ?crit))"
        using Suc.prems by (intro concludedI p) blast
      with critic Inr True show ?thesis by (auto simp: Let_def)
    next
      case False
      obtain r2 w2 where repair: "ce_compiler env (AskRepair (ck_goal t) p disc (ct_issues ?crit))
          (remaining_budget (ck_budget t) ?tokens) w1 = (r2, w2)" by (rule prod.exhaust)
      show ?thesis
      proof (cases r2)
        case (Inl failure)
        with critic \<open>r = Inr reply\<close> False repair show ?thesis
          by (auto simp: Let_def intro!: concludedI p)
      next
        case r2: (Inr rep)
        show ?thesis
        proof (cases "read_reply env t (lr_content rep)")
          case (Inl e)
          obtain q rec where q: "refused_repair env t (lr_content rep) p recovered = (q, rec)"
            by (rule prod.exhaust)
          then have "within 72 56 q"
            using refused_repair_within [OF p, of env t "lr_content rep" recovered] by simp
          with critic \<open>r = Inr reply\<close> False repair r2 Inl q show ?thesis
            by (auto simp: Let_def intro!: concludedI)
        next
          case (Inr a)
          obtain q again where q: "read_reply env t (lr_content rep) = Inr (q, again)"
            using Inr by (cases a) simp
          then have "read_from env t q" by (auto simp: read_from_def)
          from Suc.IH [OF this] critic \<open>r = Inr reply\<close> False repair r2 q show ?thesis
            by (simp add: Let_def)
        qed
      qed
    qed
  qed
qed

text \<open>The whole compilation, by cases.\<close>

lemma compile_cases:
  assumes co: "keeps_typed (ce_coercions env)"
    and run: "compile_project_contract env ws t w = (r, w')"
  obtains (call_failed) disc failure where
      "fst (ce_compiler env (AskContract (ck_goal t) disc (last_n 12 (ck_clarifications t))) (ck_budget t) w) = Inl failure"
      "r = Inl (CallFailed failure)"
  | (unreadable) disc d compiler where
      "discover_repository (ce_coercions env) (ce_redact env) ws = Inr disc"
      "r = Inr \<lparr>kc_draft = d, kc_hash = None, kc_compiler = compiler, kc_critic = None,
               kc_tokens = lr_tokens compiler\<rparr>"
      "\<not> ct_accepted (dr_critique d)"
  | (finished) disc where
      "discover_repository (ce_coercions env) (ce_redact env) ws = Inr disc" "wf_discovery disc"
      "concluded env t disc r"
proof -
  obtain disc where disc: "discover_repository (ce_coercions env) (ce_redact env) ws = Inr disc"
    "wf_discovery disc"
    using discover_repository_total [OF co] by blast
  let ?ask = "ce_compiler env (AskContract (ck_goal t) disc (last_n 12 (ck_clarifications t))) (ck_budget t) w"
  obtain a w1 where ask: "?ask = (a, w1)" by (rule prod.exhaust)
  show thesis
  proof (cases a)
    case (Inl failure)
    with run disc ask show thesis
      by (intro call_failed [of disc failure]) (simp_all add: compile_project_contract_def)
  next
    case (Inr compiler)
    show thesis
    proof (cases "read_reply env t (lr_content compiler)")
      case (Inl e)
      let ?issue = "''The contract compiler returned an invalid draft: '' @ ce_message env (lr_content compiler)"
      let ?clar = "last_n 12 (ck_clarifications t)"
      have "length ?clar \<le> 12" by (simp add: last_n_def)
      moreover have "py_strip (''The repository implements the requested outcome: '' @ py_strip (ck_goal t)) \<noteq> []"
        by (intro py_strip_visible) (auto simp: py_isspace_code)
      ultimately obtain d where d: "failed_draft (ck_goal t) disc ?issue ?clar (Some compiler) = Inr d"
        "\<not> ct_accepted (dr_critique d)"
        using disc(2)
        by (auto simp: failed_draft_def make_draft_def settle_limits_def Let_def wf_discovery_def refusal_def
            clean_texts_def dedup_def)
      from disc(1) show thesis
        by (rule unreadable [OF _ _ d(2)])
          (use run ask Inr Inl d(1) disc(1) in \<open>auto simp: compile_project_contract_def\<close>)
    next
      case (Inr b)
      then obtain p recovered where b: "b = (p, recovered)"
          "read_reply env t (lr_content compiler) = Inr (p, recovered)"
        by (cases b) simp
      then have "read_from env t p" by (auto simp: read_from_def)
      from attempt_concluded [OF this, of disc 2 "[]" recovered compiler "lr_tokens compiler" w1]
      have "concluded env t disc r"
        using run disc(1) ask \<open>a = Inr compiler\<close> b
        by (simp add: compile_project_contract_def max_contract_attempts_def eval_nat_numeral
            del: attempt_contract.simps)
      then show thesis by (rule finished [OF disc])
    qed
  qed
qed

section \<open>The validator's objections\<close>

lemma py_strip_hd: "i \<noteq> [] \<Longrightarrow> \<not> py_isspace (hd i) \<Longrightarrow> py_strip i \<noteq> []"
  by (intro py_strip_visible) (auto simp: neq_Nil_conv)

definition opens_visibly :: "string \<Rightarrow> bool" where
  "opens_visibly i \<longleftrightarrow> i \<noteq> [] \<and> \<not> py_isspace (hd i)"

lemma opens_visibly_Cons: "opens_visibly (c # s) \<longleftrightarrow> \<not> py_isspace c"
  by (simp add: opens_visibly_def)

lemma criterion_id_visible: "opens_visibly (criterion_id i @ s)"
  by (simp add: opens_visibly_def criterion_id_def py_isspace_code)

lemma command_issues_visible: "i \<in> set (command_issues syntax granted c command) \<Longrightarrow> opens_visibly i"
  by (auto simp: command_issues_def Let_def opens_visibly_def py_isspace_code
      split: if_splits option.splits prod.splits)

lemma deterministic_issues_visible:
  assumes "i \<in> set (deterministic_issues syntax p disc granted)"
  shows "py_strip i \<noteq> []"
proof -
  have "\<forall>i \<in> set (stderr_issue checks e). opens_visibly i" for checks e
    by (auto simp: stderr_issue_def Let_def criterion_id_visible split: prod.splits if_splits)
  moreover have "\<forall>i \<in> set (check_issues syntax granted c). opens_visibly i" for c
    using command_issues_visible by (auto simp: check_issues_def split: if_splits)
  moreover have "\<forall>i \<in> set (concat (map (\<lambda>(index, criterion). if tautological criterion
      then [criterion_id index @ '' is tautological rather than observable''] else []) xs)). opens_visibly i" for xs
    by (auto simp: criterion_id_visible split: if_splits)
  ultimately have "\<forall>i \<in> set (deterministic_issues syntax p disc granted). opens_visibly i"
    unfolding deterministic_issues_def set_append ball_Un
    by (intro conjI) (simp_all add: opens_visibly_Cons py_isspace_code)
  with assms have "opens_visibly i" by blast
  then show ?thesis by (simp add: opens_visibly_def py_strip_hd)
qed

lemma accepted_no_issues:
  assumes "ct_accepted (review env t disc effective reply)"
  shows "deterministic_issues (ce_syntax env) effective disc (ck_granted t) = []"
proof -
  let ?crit = "critique_from_result (lr_content reply) (lr_provider reply) (lr_model reply)"
  let ?found = "deterministic_issues (ce_syntax env) effective disc (ck_granted t)"
  consider "take 12 (clean_texts (ct_issues ?crit @ ?found)) = []"
    | "deterministic_adjudication_reason effective disc ?crit ?found \<noteq> None"
    using assms by (auto simp: review_def Let_def)
  then show ?thesis
  proof cases
    case 1
    then have "set (clean_texts (ct_issues ?crit @ ?found)) = {}" by auto
    then have "py_strip i = []" if "i \<in> set ?found" for i using that by (auto simp: set_clean_texts)
    then show ?thesis using deterministic_issues_visible by (metis list.set_intros(1) neq_Nil_conv)
  next
    case 2
    then show ?thesis by (auto simp: deterministic_adjudication_reason_def split: if_splits)
  qed
qed

section \<open>What is fit to start\<close>

text \<open>
  The promise of a locked contract: low risk, confident, at most eight criteria and each proved
  by a contract check; every command allowed by the shell policy, by the capability to execute
  and, where it uses the network, by that one; no authority beyond what was granted.
\<close>

definition command_permitted :: "capability set \<Rightarrow> string \<Rightarrow> bool" where
  "command_permitted granted command \<longleftrightarrow>
     fst (evaluate_command command) \<noteq> Deny \<and> Exec \<in> granted \<and>
     (network_command_reason command \<in> {None, Some []} \<or> NetShell \<in> granted)"

definition fit_to_start :: "capability set \<Rightarrow> proposal \<Rightarrow> bool" where
  "fit_to_start granted p \<longleftrightarrow>
     cp_risk p = LowRisk \<and> 80 \<le> cp_confidence p \<and> length (cp_criteria p) \<le> 8 \<and>
     (\<forall>i \<in> {1..length (cp_criteria p)}.
        \<exists>c \<in> set (cp_checks p). cc_source c = FromContract \<and> criterion_id i \<in> set (cc_criteria c)) \<and>
     (\<forall>c \<in> set (cp_checks p). \<forall>command.
        cc_kind c = CommandCheck \<and> cc_command c = Some command \<and> command \<noteq> [] \<longrightarrow>
        command_permitted granted command) \<and>
     set (cp_authority p) \<subseteq> granted"

lemma no_command_issues: "command_issues syntax granted c command = [] \<Longrightarrow> command_permitted granted command"
  by (auto simp: command_issues_def command_permitted_def Let_def split: if_splits option.splits prod.splits)

lemma no_issues_fit:
  assumes "deterministic_issues syntax p disc granted = []"
  shows "fit_to_start granted p"
proof -
  note none = assms [unfolded deterministic_issues_def append_is_Nil_conv]
  have checks: "check_issues syntax granted c = []" if "c \<in> set (cp_checks p)" for c
    using none that by auto
  have "missing_criteria p = []" using none by (auto split: if_splits)
  then have "set (criterion_ids_upto (length (cp_criteria p))) \<subseteq> set (contract_covers (cp_checks p))"
    unfolding missing_criteria_def by (auto simp: filter_empty_conv dest!: arg_cong [of _ _ set])
  then have "\<exists>c \<in> set (cp_checks p). cc_source c = FromContract \<and> criterion_id i \<in> set (cc_criteria c)"
    if "i \<in> {1..length (cp_criteria p)}" for i
    using that unfolding contract_covers_def set_criterion_ids_upto by fastforce
  moreover have "command_permitted granted command"
    if "c \<in> set (cp_checks p)" "cc_kind c = CommandCheck" "cc_command c = Some command" "command \<noteq> []"
    for c command
    using checks [OF that(1)] that(2-4) no_command_issues by (auto simp: check_issues_def text_or_empty_def)
  moreover have "missing_authority p granted = []" using none by (auto split: if_splits)
  then have "set (cp_authority p) \<subseteq> granted"
    unfolding missing_authority_def by (auto simp: filter_empty_conv dest!: arg_cong [of _ _ set])
  ultimately show ?thesis
    using none by (auto simp: fit_to_start_def min_auto_confidence_def max_auto_criteria_def split: if_splits)
qed

section \<open>The user's checks survive\<close>

text \<open>\<open>keeps_check c m\<close>: \<open>m\<close> is \<open>c\<close>, with perhaps more criteria.\<close>

definition keeps_check :: "contract_check \<Rightarrow> contract_check \<Rightarrow> bool" where
  "keeps_check c m \<longleftrightarrow> m = c\<lparr>cc_criteria := cc_criteria m\<rparr> \<and> set (cc_criteria c) \<subseteq> set (cc_criteria m)"

lemma keeps_check_refl [simp]: "keeps_check c c"
  by (simp add: keeps_check_def)

lemma keeps_with_criteria: "keeps_check c m \<Longrightarrow> keeps_check c (with_criteria ids m)"
proof -
  assume k: "keeps_check c m"
  then have "m = c\<lparr>cc_criteria := cc_criteria m\<rparr>" by (simp add: keeps_check_def)
  then obtain xs where "m = c\<lparr>cc_criteria := xs\<rparr>" by blast
  with k show ?thesis by (auto simp: keeps_check_def with_criteria_def)
qed

lemma keeps_id: "keeps_check c m \<Longrightarrow> cc_id m = cc_id c"
proof -
  assume "keeps_check c m"
  then obtain xs where "m = c\<lparr>cc_criteria := xs\<rparr>" unfolding keeps_check_def by blast
  then show ?thesis by simp
qed

lemma add_quality_keeps:
  assumes "m \<in> set (fst st)" "keeps_check c m"
  shows "\<exists>m' \<in> set (fst (add_quality ids covered check st)). keeps_check c m'"
proof -
  obtain checks positions where st: "st = (checks, positions)" by (rule prod.exhaust)
  have step: "\<exists>m' \<in> set (checks[i := with_criteria ids (checks ! i)]). keeps_check c m'" for i
  proof -
    obtain j where j: "j < length checks" "checks ! j = m" using assms(1) st by (auto simp: in_set_conv_nth)
    show ?thesis
    proof (cases "i = j")
      case True
      with j have "with_criteria ids m \<in> set (checks[i := with_criteria ids (checks ! i)])"
        by (metis set_update_memI)
      then show ?thesis using keeps_with_criteria [OF assms(2)] by blast
    next
      case False
      with j have "m \<in> set (checks[i := with_criteria ids (checks ! i)])"
        by (metis length_list_update nth_list_update_neq nth_mem)
      then show ?thesis using assms(2) by blast
    qed
  qed
  show ?thesis
    using assms step st by (auto simp: add_quality_def Let_def split: option.splits)
qed

lemma fold_add_quality_keeps:
  "m \<in> set (fst st) \<Longrightarrow> keeps_check c m \<Longrightarrow>
     \<exists>m' \<in> set (fst (fold (add_quality ids covered) checks st)). keeps_check c m'"
proof (induction checks arbitrary: m st)
  case (Cons check checks)
  from add_quality_keeps [OF Cons.prems, of ids covered check] obtain m' where
    "m' \<in> set (fst (add_quality ids covered check st))" "keeps_check c m'" by blast
  from Cons.IH [OF this] show ?case by simp
qed auto

lemma effective_keeps_user_check:
  assumes "c \<in> set (cp_checks p)" "user_check c"
  shows "\<exists>m \<in> set (effective_checks p disc). keeps_check c m"
proof -
  let ?placed = "fold (add_quality (criterion_ids_upto (length (cp_criteria p)))
      (test_previews_cover_contract p disc)) (rd_quality disc) (cp_checks p, target_positions (cp_checks p))"
  have "c \<in> set (fst (cp_checks p, target_positions (cp_checks p)))" using assms(1) by simp
  from fold_add_quality_keeps [OF this keeps_check_refl] obtain m where m: "m \<in> set (fst ?placed)" "keeps_check c m"
    by blast
  have "user_check m" using assms(2) keeps_id [OF m(2)] by (simp add: user_check_def)
  then have "m \<in> set (prune_redundant_source_checks (fst ?placed) p disc)"
    using m(1) by (auto simp: prune_redundant_source_checks_def redundant_def)
  then show ?thesis using m(2) by (auto simp: effective_checks_def Let_def)
qed

lemma append_required_checks:
  "append_required co raws p = Inr q \<Longrightarrow>
     \<exists>cs. map_result (\<lambda>(i, raw). check_of_dict co (user_check_dict i raw)) raws = Inr cs \<and>
          cp_checks q = cp_checks p @ cs \<and> cp_criteria q = cp_criteria p"
proof (induction co raws p rule: append_required.induct)
  case (2 co index raw raws p)
  from 2(2) obtain check where check: "check_of_dict co (user_check_dict index raw) = Inr check"
    by (auto simp: rbind_Inr)
  with 2(2) show ?case by (auto dest!: 2(1))
qed simp

lemma map_result_nth: "map_result f xs = Inr ys \<Longrightarrow> i < length xs \<Longrightarrow> f (xs ! i) = Inr (ys ! i)"
proof (induction xs arbitrary: ys i)
  case (Cons x xs)
  then show ?case by (cases i) (auto simp: rbind_Inr)
qed simp

lemma check_id_given: "check_of_dict co (user_check_dict i raw) = Inr c \<Longrightarrow> cc_id c = ''contract-user-'' @ pad3 i"
  by (auto simp: check_of_dict_def user_check_dict_def field_def rbind_Inr Let_def dset_def update_conv'
      split: if_splits)

text \<open>What a fully read reply holds.\<close>

lemma read_from_requirements:
  assumes "read_from env t p"
  shows "i < length (ck_checks t) \<Longrightarrow> i < 40 \<Longrightarrow>
      \<exists>c \<in> set (cp_checks p). user_check c \<and>
        check_of_dict (ce_coercions env) (user_check_dict (i + 1) (ck_checks t ! i)) = Inr c"
    and "prefix (take 12 (clean_texts (ck_criteria t))) (cp_criteria p)"
proof -
  from assms obtain q where q: "append_required (ce_coercions env) (enumerate 1 (take 40 (ck_checks t)))
      (merge_required_criteria q (ck_criteria t)) = Inr p"
    by (auto simp: read_from_def read_reply_def rbind_Inr merge_required_checks_def)
  obtain cs where cs: "map_result (\<lambda>(i, raw). check_of_dict (ce_coercions env) (user_check_dict i raw))
      (enumerate 1 (take 40 (ck_checks t))) = Inr cs" "set cs \<subseteq> set (cp_checks p)"
    "cp_criteria p = cp_criteria (merge_required_criteria q (ck_criteria t))"
    using append_required_checks [OF q] by auto
  show "prefix (take 12 (clean_texts (ck_criteria t))) (cp_criteria p)"
    unfolding cs(3) by (simp add: merge_required_criteria_def Let_def)
  show "\<exists>c \<in> set (cp_checks p). user_check c \<and>
        check_of_dict (ce_coercions env) (user_check_dict (i + 1) (ck_checks t ! i)) = Inr c"
    if i: "i < length (ck_checks t)" "i < 40"
  proof -
    have "check_of_dict (ce_coercions env) (user_check_dict (i + 1) (ck_checks t ! i)) = Inr (cs ! i)"
      using map_result_nth [OF cs(1), of i] i by (simp add: nth_enumerate_eq)
    moreover have "i < length cs" using map_result_length [OF cs(1)] i by simp
    ultimately show ?thesis
      using cs(2) check_id_given by (force simp: user_check_def)
  qed
qed

section \<open>A locked contract\<close>

lemma locked_cases:
  assumes "keeps_typed (ce_coercions env)"
    and "compile_project_contract env ws t w = (Inr c, w')" "kc_hash c = Some h"
  obtains disc p reply where "wf_discovery disc"
    "discover_repository (ce_coercions env) (ce_redact env) ws = Inr disc"
    "read_from env t p" "dr_proposal (kc_draft c) = effective_proposal p disc"
    "dr_discovery (kc_draft c) = disc" "h = hash_contract (kc_draft c)"
    "dr_critique (kc_draft c) = review env t disc (effective_proposal p disc) reply"
    "ct_accepted (review env t disc (effective_proposal p disc) reply)"
    "length (dr_clarifications (kc_draft c)) \<le> 12" "wf_identity (dr_compiler (kc_draft c))"
  using assms(1,2)
proof (cases rule: compile_cases)
  case (unreadable disc d compiler)
  with assms(3) show thesis by simp
next
  case (finished disc)
  then obtain p recovered crit compiler critic tokens locked where
    c: "Inr c = conclude t disc p recovered crit compiler critic tokens locked" "within 72 56 p"
    and l: "locked \<longrightarrow> read_from env t p \<and> ct_accepted crit \<and>
           (\<exists>reply. crit = review env t disc (effective_proposal p disc) reply)"
    unfolding concluded_def by blast
  note c' = c(1) [unfolded conclude_draft [OF c(2) finished(2)] Let_def]
  then have "locked" using assms(3) by (auto split: if_splits)
  with l obtain reply where r: "read_from env t p" "ct_accepted crit"
    "crit = review env t disc (effective_proposal p disc) reply" by blast
  show thesis
    by (rule that [OF finished(2,1) r(1)])
      (use c' r \<open>locked\<close> assms(3) in \<open>auto simp: last_n_def wf_identity_def compiler_identity_def\<close>)
qed simp

lemma sample_keeps_typed: "keeps_typed (ce_coercions sample_contract_env)"
  by (simp add: sample_contract_env_def strict_keeps_typed)

text \<open>C3: a contract the compiler locks is accepted, addressed by its hash, and fit to start: low
  risk, confident, at most eight criteria each proved by a contract check, only permitted
  commands, no authority beyond the grant. The models may reply anything.\<close>

theorem locked_contract_is_fit:
  assumes "keeps_typed (ce_coercions env)"
    and "compile_project_contract env ws t w = (Inr c, w')" "kc_hash c = Some h"
  shows "h = hash_contract (kc_draft c) \<and> ct_accepted (dr_critique (kc_draft c)) \<and>
    fit_to_start (ck_granted t) (dr_proposal (kc_draft c))"
  using assms
  by (rule locked_cases) (simp add: no_issues_fit [OF accepted_no_issues])

theorem locked_contract_is_fit_witness:
  "\<exists>c. fst (compile_project_contract sample_contract_env sample_repo sample_task 0) = Inr c \<and>
     fit_to_start {Exec} (dr_proposal (kc_draft c))"
proof -
  obtain c where "compile_project_contract sample_contract_env sample_repo sample_task 0 = (Inr c, 2)"
    "kc_hash c = Some (hash_contract (kc_draft c))" using sample_locked by blast
  moreover from locked_contract_is_fit [OF sample_keeps_typed this]
  have "fit_to_start (ck_granted sample_task) (dr_proposal (kc_draft c))" by simp
  ultimately show ?thesis by (simp add: sample_task_def)
qed



section \<open>The compiler concludes\<close>

lemma attempt_calls:
  fixes calls :: "'w \<Rightarrow> nat"
  assumes compiler: "\<And>req b w. calls (snd (ce_compiler env req b w)) \<le> calls w + 1"
    and critic: "\<And>req b w. calls (snd (ce_critic env req b w)) \<le> calls w + 1"
  shows "calls (snd (attempt_contract env t disc n seen p recovered res tokens w)) \<le> calls w + (2 * n - 1)"
proof (induction n arbitrary: seen p recovered res tokens w)
  case (Suc n)
  let ?effective = "effective_proposal p disc"
  obtain r w1 where r: "ce_critic env (AskCritique (ck_goal t) ?effective disc)
      (remaining_budget (ck_budget t) tokens) w = (r, w1)" by (rule prod.exhaust)
  have w1: "calls w1 \<le> calls w + 1"
    using critic [of "AskCritique (ck_goal t) ?effective disc" "remaining_budget (ck_budget t) tokens" w] r
    by simp
  show ?case
  proof (cases r)
    case (Inl failure)
    with r w1 show ?thesis by (simp add: Let_def)
  next
    case (Inr reply)
    let ?crit = "review env t disc ?effective reply"
    let ?tokens = "tokens + lr_tokens reply"
    let ?ask = "AskRepair (ck_goal t) p disc (ct_issues ?crit)"
    obtain r2 w2 where r2: "ce_compiler env ?ask (remaining_budget (ck_budget t) ?tokens) w1 = (r2, w2)"
      by (rule prod.exhaust)
    have w2: "calls w2 \<le> calls w + 2"
      using compiler [of ?ask "remaining_budget (ck_budget t) ?tokens" w1] r2 w1 by simp
    show ?thesis
    proof (cases "ct_accepted ?crit \<or> n = 0 \<or> repair_state p (ct_issues ?crit) \<in> set seen")
      case True
      with r Inr w1 show ?thesis by (auto simp: Let_def)
    next
      case False
      have "calls (snd (attempt_contract env t disc n seen' q rec' res' tokens' w2)) \<le> calls w + (2 * Suc n - 1)"
        for seen' q rec' res' tokens'
        using Suc.IH [of seen' q rec' res' tokens' w2] w2 False by (cases n) auto
      with r Inr r2 w2 False show ?thesis
        by (auto simp: Let_def split: sum.splits prod.splits)
    qed
  qed
qed simp



end
