(* ===== verification/Frames.thy ===== *)
theory Frames
  imports Change_Set
begin

text \<open>
  What an operation leaves alone. \<open>keeps p m\<close> says that \<open>m\<close> does not change the part \<open>p\<close> of the
  state, whether it returns or raises. The locale \<open>frame\<close> holds the parts that do not depend on
  the outside world: the git operations keep each of them.
\<close>

definition keeps :: "('s \<Rightarrow> 'x) \<Rightarrow> ('s, 'a) act \<Rightarrow> bool" where
  "keeps p m = (\<forall>s. p (snd (m s)) = p s)"

lemma keeps_basic [intro]:
  "keeps p (ret a)" "keeps p (raise e)" "keeps p (gets f)" "keeps p (whenE c e)" "keeps p (liftR r)"
  by (auto simp: keeps_def effect_defs)

lemma keeps_bind [intro]: "keeps p m \<Longrightarrow> (\<And>a. keeps p (f a)) \<Longrightarrow> keeps p (bindE m f)"
  unfolding keeps_def bindE_def by (auto split: prod.split sum.split) (metis snd_conv)+

lemma keeps_then [intro]: "keeps p m \<Longrightarrow> keeps p n \<Longrightarrow> keeps p (thenE m n)"
  unfolding thenE_def by blast

lemma keeps_catch [intro]: "keeps p m \<Longrightarrow> (\<And>e. keeps p (h e)) \<Longrightarrow> keeps p (catchE m h)"
  unfolding keeps_def catchE_def by (auto split: prod.split sum.split) (metis snd_conv)+

lemma keeps_finally [intro]: "keeps p m \<Longrightarrow> (\<And>s. p (g s) = p s) \<Longrightarrow> keeps p (finallyE m g)"
  unfolding keeps_def finallyE_def by (auto split: prod.split) (metis snd_conv)+

lemma keeps_modify: "(\<And>s. p (f s) = p s) \<Longrightarrow> keeps p (modify f)"
  by (simp add: keeps_def modify_def)

lemmas keeps_intros = keeps_basic keeps_bind keeps_then keeps_catch keeps_finally

lemma keepsD: "keeps p m \<Longrightarrow> m s = (r, s') \<Longrightarrow> p s' = p s"
  unfolding keeps_def by (metis snd_conv)

text \<open>Behind an operation that keeps \<open>p\<close>, a change of \<open>p\<close> is a change by what follows.\<close>

lemma bind_changed:
  assumes "bindE m f s = (r, s')" "keeps p m" "p s' \<noteq> p s"
  obtains a u where "m s = (Inr a, u)" "p u = p s" "f a u = (r, s')"
proof -
  obtain x u where m: "m s = (x, u)" by (rule prod.exhaust)
  show thesis
  proof (cases x)
    case (Inl e)
    then have "s' = u" using assms(1) m by (simp add: bindE_def)
    then show thesis using keepsD [OF assms(2) m] assms(3) by simp
  next
    case (Inr a)
    then show thesis using that [of a u] assms(1) m keepsD [OF assms(2) m] by (simp add: bindE_def)
  qed
qed

lemma then_changed:
  assumes "thenE m n s = (r, s')" "keeps p m" "p s' \<noteq> p s"
  obtains a u where "m s = (Inr a, u)" "p u = p s" "n u = (r, s')"
  using bind_changed [OF assms(1) [unfolded thenE_def] assms(2,3)] by metis

locale frame =
  fixes p :: "('w, 'm) host_scheme \<Rightarrow> 'x"
  assumes outside_free: "p (on_outside f s) = p s"
begin

lemma on_outside [intro]: "keeps p (modify (on_outside f))"
  by (rule keeps_modify) (rule outside_free)

lemma keeps_run_proc [intro]: "keeps p (run_proc ops argv extra input)"
  unfolding keeps_def
proof
  fix s :: "('w, 'm) host_scheme"
  have "s\<lparr>outside := u\<rparr> = on_outside (\<lambda>_. u) s" for u by (simp add: on_outside_def)
  then show "p (snd (run_proc ops argv extra input s)) = p s"
    by (simp add: run_proc_def outside_free split: prod.split)
qed

lemma keeps_git [intro]: "keeps p (git ops repo args input extra)"
  unfolding git_def by (intro keeps_bind) (auto split: proc_outcome.split)

lemma keeps_git_line [intro]: "keeps p (git_line ops repo args)"
  unfolding git_line_def by blast

lemma keeps_allowed_source [intro]: "keeps p (allowed_source ops c source)"
  unfolding projects_root_def allowed_source_def by (auto intro!: keeps_intros split: option.split)

lemma keeps_prepare [intro]: "keeps p (prepare_project ops c path)"
  unfolding prepare_project_def projects_root_def
  by (auto intro!: keeps_intros split: option.split prod.split svc_exc.split)

lemma keeps_clone [intro]: "keeps p (clone_project ops b dest)"
  unfolding clone_project_def git_clone_def by (auto intro!: keeps_intros split: proc_outcome.split prod.split)

lemma keeps_inspect [intro]: "keeps p (inspect_changes ops c repo base)"
  unfolding inspect_changes_def temporary_index_def
  by (auto intro!: keeps_intros split: svc_exc.split prod.split)

lemma keeps_clone_revision [intro]: "keeps p (clone_project_revision ops c b dest patch)"
  unfolding clone_project_revision_def by (auto intro!: keeps_intros split: svc_exc.split)

lemma keeps_apply [intro]: "keeps p (apply_patch ops c source base patch rv dirty)"
  unfolding apply_patch_def verify_source_def
  by (auto intro!: keeps_intros split: svc_exc.split prod.split)

end

interpretation locks: frame held_locks
  by unfold_locales (simp add: on_outside_def)

interpretation records: frame metadata
  by unfold_locales (simp add: on_outside_def)

end
