(* ===== verification/Act_Logic.thy ===== *)
theory Act_Logic
  imports Frames
begin

text \<open>
  A program logic for the operations of \<open>Effects\<close>. \<open>hoare P m Q E\<close> is a triple with one
  postcondition for a value and one for an exception; the rules follow the structure of the
  operation, so a handler is proved by taking it apart. \<open>agrees\<close> says that two operations do
  the same on every state a precondition admits.
\<close>

definition hoare ::
  "('s \<Rightarrow> bool) \<Rightarrow> ('s, 'a) act \<Rightarrow> ('a \<Rightarrow> 's \<Rightarrow> bool) \<Rightarrow> (svc_exc \<Rightarrow> 's \<Rightarrow> bool) \<Rightarrow> bool" where
  "hoare P m Q E =
     (\<forall>s. P s \<longrightarrow> (case m s of (Inr a, s') \<Rightarrow> Q a s' | (Inl e, s') \<Rightarrow> E e s'))"

named_theorems hoare_rules "rules of the program logic, one per construct"

lemma hoareI:
  assumes "\<And>s a s'. P s \<Longrightarrow> m s = (Inr a, s') \<Longrightarrow> Q a s'"
    and "\<And>s e s'. P s \<Longrightarrow> m s = (Inl e, s') \<Longrightarrow> E e s'"
  shows "hoare P m Q E"
  using assms unfolding hoare_def by (auto split: prod.split sum.split)

lemma hoareD:
  assumes "hoare P m Q E" "P s"
  shows "m s = (Inr a, s') \<Longrightarrow> Q a s'" "m s = (Inl e, s') \<Longrightarrow> E e s'"
  using assms unfolding hoare_def by fastforce+

lemma hoare_weaken:
  assumes "hoare P m Q E" "\<And>s. P' s \<Longrightarrow> P s" "\<And>a s. Q a s \<Longrightarrow> Q' a s" "\<And>e s. E e s \<Longrightarrow> E' e s"
  shows "hoare P' m Q' E'"
  using assms unfolding hoare_def by (fastforce split: prod.splits sum.splits)

lemma hoare_pre: "hoare P m Q E \<Longrightarrow> (\<And>s. P' s \<Longrightarrow> P s) \<Longrightarrow> hoare P' m Q E"
  by (rule hoare_weaken)

lemma hoare_post: "hoare P m Q E \<Longrightarrow> (\<And>a s. Q a s \<Longrightarrow> Q' a s) \<Longrightarrow> hoare P m Q' E"
  by (rule hoare_weaken)

lemma hoare_bind:
  assumes "hoare P m R E" "\<And>a. hoare (R a) (f a) Q E"
  shows "hoare P (bindE m f) Q E"
proof (rule hoareI)
  fix s b s' assume P: "P s" and run: "bindE m f s = (Inr b, s')"
  from run obtain a u where m: "m s = (Inr a, u)" and f: "f a u = (Inr b, s')" by auto
  show "Q b s'" by (rule hoareD(1) [OF assms(2) hoareD(1) [OF assms(1) P m] f])
next
  fix s e s' assume P: "P s" and run: "bindE m f s = (Inl e, s')"
  from run consider "m s = (Inl e, s')" | a u where "m s = (Inr a, u)" "f a u = (Inl e, s')"
    by (auto simp: bindE_Inl)
  then show "E e s'"
  proof cases
    case 1
    then show ?thesis by (rule hoareD(2) [OF assms(1) P])
  next
    case 2
    show ?thesis by (rule hoareD(2) [OF assms(2) hoareD(1) [OF assms(1) P 2(1)] 2(2)])
  qed
qed

lemma hoare_then:
  "hoare P m (\<lambda>_. R) E \<Longrightarrow> hoare R n Q E \<Longrightarrow> hoare P (thenE m n) Q E"
  unfolding thenE_def by (rule hoare_bind)

lemma hoare_if:
  "(b \<Longrightarrow> hoare P m Q E) \<Longrightarrow> (\<not> b \<Longrightarrow> hoare P n Q E) \<Longrightarrow> hoare P (if b then m else n) Q E"
  by simp

lemma hoare_option:
  "(x = None \<Longrightarrow> hoare P m Q E) \<Longrightarrow> (\<And>a. x = Some a \<Longrightarrow> hoare P (f a) Q E) \<Longrightarrow>
     hoare P (case x of None \<Rightarrow> m | Some a \<Rightarrow> f a) Q E"
  by (cases x) auto

lemma hoare_sum:
  "(\<And>e. x = Inl e \<Longrightarrow> hoare P (g e) Q E) \<Longrightarrow> (\<And>a. x = Inr a \<Longrightarrow> hoare P (f a) Q E) \<Longrightarrow>
     hoare P (case x of Inl e \<Rightarrow> g e | Inr a \<Rightarrow> f a) Q E"
  by (cases x) auto

lemma hoare_pair:
  "(\<And>a b. x = (a, b) \<Longrightarrow> hoare P (f a b) Q E) \<Longrightarrow> hoare P (case x of (a, b) \<Rightarrow> f a b) Q E"
  by (cases x) auto

lemma hoare_let: "(\<And>x. x = v \<Longrightarrow> hoare P (f x) Q E) \<Longrightarrow> hoare P (let x = v in f x) Q E"
  by (simp add: Let_def)

lemma hoare_conj:
  "hoare P m Q E \<Longrightarrow> hoare P m Q' E' \<Longrightarrow>
     hoare P m (\<lambda>a s. Q a s \<and> Q' a s) (\<lambda>e s. E e s \<and> E' e s)"
  unfolding hoare_def by (auto split: prod.split sum.split)

lemma hoare_ret: "(\<And>s. P s \<Longrightarrow> Q a s) \<Longrightarrow> hoare P (ret a) Q E"
  by (simp add: hoare_def effect_defs)

lemma hoare_raise: "(\<And>s. P s \<Longrightarrow> E e s) \<Longrightarrow> hoare P (raise e) Q E"
  by (simp add: hoare_def effect_defs)

lemma hoare_gets: "(\<And>s. P s \<Longrightarrow> Q (g s) s) \<Longrightarrow> hoare P (gets g) Q E"
  by (simp add: hoare_def effect_defs)

lemma hoare_modify: "(\<And>s. P s \<Longrightarrow> Q () (g s)) \<Longrightarrow> hoare P (modify g) Q E"
  by (simp add: hoare_def effect_defs)

lemma hoare_liftR:
  "(\<And>s a. P s \<Longrightarrow> r = Inr a \<Longrightarrow> Q a s) \<Longrightarrow> (\<And>s e. P s \<Longrightarrow> r = Inl e \<Longrightarrow> E e s) \<Longrightarrow>
     hoare P (liftR r) Q E"
  by (cases r) (auto simp: hoare_def effect_defs)

lemma hoare_catch:
  assumes "hoare P m Q (\<lambda>e. R e)" "\<And>e. hoare (R e) (h e) Q E"
  shows "hoare P (catchE m h) Q E"
proof (rule hoareI)
  fix s b s' assume P: "P s" and run: "catchE m h s = (Inr b, s')"
  then consider "m s = (Inr b, s')" | e u where "m s = (Inl e, u)" "h e u = (Inr b, s')"
    by (auto simp: catchE_def split: prod.splits sum.splits)
  then show "Q b s'"
    by cases (use hoareD [OF assms(1) P] hoareD [OF assms(2)] in blast)+
next
  fix s e s' assume P: "P s" and run: "catchE m h s = (Inl e, s')"
  then obtain x u where "m s = (Inl x, u)" "h x u = (Inl e, s')"
    by (auto simp: catchE_def split: prod.splits sum.splits)
  then show "E e s'" using hoareD [OF assms(1) P] hoareD [OF assms(2)] by blast
qed

text \<open>An operation that keeps a property, however it ends.\<close>

definition stable :: "('s \<Rightarrow> bool) \<Rightarrow> ('s, 'a) act \<Rightarrow> bool" where
  "stable P m = hoare P m (\<lambda>_. P) (\<lambda>_. P)"

lemma stableI: "(\<And>s r s'. P s \<Longrightarrow> m s = (r, s') \<Longrightarrow> P s') \<Longrightarrow> stable P m"
  unfolding stable_def by (rule hoareI)

lemma stableD: "stable P m \<Longrightarrow> P s \<Longrightarrow> m s = (r, s') \<Longrightarrow> P s'"
  unfolding stable_def hoare_def by (cases r) auto

lemma stable_bind: "stable P m \<Longrightarrow> (\<And>a. stable P (f a)) \<Longrightarrow> stable P (bindE m f)"
  unfolding stable_def by (rule hoare_bind)

lemma stable_then: "stable P m \<Longrightarrow> stable P n \<Longrightarrow> stable P (thenE m n)"
  unfolding stable_def by (rule hoare_then)

lemma stable_catch: "stable P m \<Longrightarrow> (\<And>e. stable P (h e)) \<Longrightarrow> stable P (catchE m h)"
  unfolding stable_def by (rule hoare_catch)

lemma stable_basic:
  "stable P (ret a)" "stable P (raise e)" "stable P (gets f)" "stable P (whenE c e)"
  "stable P (liftR r)"
  by (rule stableI; simp add: effect_defs split: if_splits)+

lemma stable_modify: "(\<And>s. P s \<Longrightarrow> P (f s)) \<Longrightarrow> stable P (modify f)"
  by (rule stableI) (auto simp: effect_defs)

lemma stable_seq: "(\<And>m. m \<in> set ms \<Longrightarrow> stable P m) \<Longrightarrow> stable P (seqE ms)"
  by (induction ms) (auto intro: stable_then stable_basic)

lemma stable_if: "(b \<Longrightarrow> stable P m) \<Longrightarrow> (\<not> b \<Longrightarrow> stable P n) \<Longrightarrow> stable P (if b then m else n)"
  by simp

lemma stable_option:
  "(x = None \<Longrightarrow> stable P m) \<Longrightarrow> (\<And>a. x = Some a \<Longrightarrow> stable P (f a)) \<Longrightarrow>
     stable P (case x of None \<Rightarrow> m | Some a \<Rightarrow> f a)"
  by (cases x) auto

lemma stable_sum:
  "(\<And>e. x = Inl e \<Longrightarrow> stable P (g e)) \<Longrightarrow> (\<And>a. x = Inr a \<Longrightarrow> stable P (f a)) \<Longrightarrow>
     stable P (case x of Inl e \<Rightarrow> g e | Inr a \<Rightarrow> f a)"
  by (cases x) auto

lemma stable_pair:
  "(\<And>a b. x = (a, b) \<Longrightarrow> stable P (f a b)) \<Longrightarrow> stable P (case x of (a, b) \<Rightarrow> f a b)"
  by (cases x) auto

lemma stable_let: "(\<And>x. stable P (f x)) \<Longrightarrow> stable P (let x = v in f x)"
  by (simp add: Let_def)

section \<open>Two operations that do the same\<close>

definition agrees :: "('s \<Rightarrow> bool) \<Rightarrow> ('s, 'a) act \<Rightarrow> ('s, 'a) act \<Rightarrow> bool" where
  "agrees P m n = (\<forall>s. P s \<longrightarrow> m s = n s)"

lemma agreesD: "agrees P m n \<Longrightarrow> P s \<Longrightarrow> m s = n s"
  by (simp add: agrees_def)

lemma agrees_refl: "m = n \<Longrightarrow> agrees P m n"
  by (simp add: agrees_def)

lemma agrees_bind:
  assumes "agrees P m n" "hoare P n R (\<lambda>_ _. True)" "\<And>a. agrees (R a) (f a) (g a)"
  shows "agrees P (bindE m f) (bindE n g)"
  unfolding agrees_def
proof (intro allI impI)
  fix s assume P: "P s"
  obtain r u where n: "n s = (r, u)" by (rule prod.exhaust)
  show "bindE m f s = bindE n g s"
  proof (cases r)
    case (Inl e)
    then show ?thesis using n agreesD [OF assms(1) P] by (simp add: bindE_def)
  next
    case (Inr a)
    have "f a u = g a u"
      by (rule agreesD [OF assms(3) hoareD(1) [OF assms(2) P n [unfolded Inr]]])
    then show ?thesis using Inr n agreesD [OF assms(1) P] by (simp add: bindE_def)
  qed
qed

lemma agrees_then:
  "agrees P m n \<Longrightarrow> hoare P n (\<lambda>_. R) (\<lambda>_ _. True) \<Longrightarrow> agrees R m' n' \<Longrightarrow>
     agrees P (thenE m m') (thenE n n')"
  unfolding thenE_def by (rule agrees_bind)

lemma agrees_if:
  "(b \<Longrightarrow> agrees P m n) \<Longrightarrow> (\<not> b \<Longrightarrow> agrees P m' n') \<Longrightarrow>
     agrees P (if b then m else m') (if b then n else n')"
  by simp

lemma hoare_true: "hoare P m (\<lambda>_ _. True) (\<lambda>_ _. True)"
  unfolding hoare_def by (auto split: prod.split sum.split)

end
