(* ===== verification/Agent_Frame.thy ===== *)
theory Agent_Frame
  imports Agent_Loop Act_Logic
begin

text \<open>
  What every operation of a run keeps. A run writes its row, its steps and its working memory
  only through a few primitives; \<open>run_frame\<close> asks an invariant of these and gives it for the
  whole loop, whatever the models, the tools and the children do. \<open>same_policy\<close> lists the fields
  of a row that a run never writes.
\<close>

definition same_policy :: "task \<Rightarrow> task \<Rightarrow> bool" where
  "same_policy t u \<longleftrightarrow>
     task_id t = task_id u \<and> owner_id t = owner_id u \<and> project_id t = project_id u \<and>
     goal t = goal u \<and> parent_id t = parent_id u \<and> task_depth t = task_depth u \<and>
     require_approval t = require_approval u \<and> verification_mode t = verification_mode u \<and>
     required_checks t = required_checks u \<and> baseline_checks t = baseline_checks u \<and>
     resolved_capabilities t = resolved_capabilities u \<and> task_egress_hosts t = task_egress_hosts u \<and>
     max_steps t = max_steps u \<and> token_budget t = token_budget u \<and>
     workspace_path t = workspace_path u"

lemma same_policy_refl [simp]: "same_policy t t"
  by (simp add: same_policy_def)

lemma same_policy_moved [simp]: "same_policy (moved t tgt r fr) u \<longleftrightarrow> same_policy t u"
  by (simp add: same_policy_def moved_def)

lemma same_policy_writes [simp]:
  "same_policy (t\<lparr>run_error := e\<rparr>) u = same_policy t u"
  "same_policy (t\<lparr>operation_journal := j\<rparr>) u = same_policy t u"
  "same_policy (t\<lparr>operation_journal := j, steps_used := n, tokens_used := k\<rparr>) u = same_policy t u"
  "same_policy (t\<lparr>pending_question := q\<rparr>) u = same_policy t u"
  "same_policy (t\<lparr>pending_action := a\<rparr>) u = same_policy t u"
  "same_policy (t\<lparr>pending_question := q, pending_action := a\<rparr>) u = same_policy t u"
  "same_policy (t\<lparr>tokens_used := k\<rparr>) u = same_policy t u"
  "same_policy (t\<lparr>rubric := r\<rparr>) u = same_policy t u"
  "same_policy (t\<lparr>rubric := r, tokens_used := k\<rparr>) u = same_policy t u"
  "same_policy (t\<lparr>authority_audit := l\<rparr>) u = same_policy t u"
  "same_policy (t\<lparr>stop_reason := x\<rparr>) u = same_policy t u"
  "same_policy (t\<lparr>run_summary := y, verification_score := n\<rparr>) u = same_policy t u"
  "same_policy (t\<lparr>run_summary := y, verification_score := n, verified_by := v\<rparr>) u = same_policy t u"
  "same_policy (set_receipt h t) u = same_policy t u"
  "same_policy (record_model_use b r' t) u = same_policy t u"
  "same_policy (with_summary reason t) u = same_policy t u"
  by (simp_all add: same_policy_def set_receipt_def record_model_use_def with_summary_def)

lemma transition_to_moves:
  "transition_to ev reason sr s = (r, s') \<Longrightarrow>
     s' = s \<or> (\<exists>tgt reas fr. s' = s\<lparr>ag_task := moved (ag_task s) tgt reas fr\<rparr>)"
  by (auto simp: transition_to_def apply_event_ok_iff split: sum.splits prod.splits)

lemma hoare_with_task:
  "(\<And>t. hoare (\<lambda>s. P s \<and> ag_task s = t) (f t) Q E) \<Longrightarrow> hoare P (with_task f) Q E"
  by (auto simp: hoare_def with_task_def effect_defs)

lemma hoare_over:
  "hoare P act (\<lambda>_. R) E \<Longrightarrow> (\<And>s. R s \<Longrightarrow> Q Over s) \<Longrightarrow> hoare P (over act) Q E"
  unfolding over_def by (rule hoare_then [OF _ hoare_ret])

section \<open>The primitives\<close>

text \<open>Everything but recording a step.\<close>

locale quiet_frame =
  fixes env :: "('w, 'k, 'p) agent_env" and inv :: "'w agent \<Rightarrow> bool"
  assumes row: "\<And>s t. inv s \<Longrightarrow> same_policy t (ag_task s) \<Longrightarrow> inv (s\<lparr>ag_task := t\<rparr>)"
    and commits: "\<And>s. inv s \<Longrightarrow> inv (s\<lparr>ag_saved := (ag_task s, ag_log s)\<rparr>)"
    and world: "\<And>s w. inv s \<Longrightarrow> inv (s\<lparr>ag_world := w\<rparr>)"
    and workspace: "\<And>s ws. inv s \<Longrightarrow> inv (s\<lparr>ag_ws := ws\<rparr>)"
    and memory: "\<And>s m. inv s \<Longrightarrow> inv (s\<lparr>ag_memory := m\<rparr>)"
    and notice: "\<And>s m. inv s \<Longrightarrow> inv (s\<lparr>ag_notice := m\<rparr>)"
begin

lemma on_task_stable: "(\<And>t u. same_policy t u \<Longrightarrow> same_policy (f t) u) \<Longrightarrow> stable inv (on_task f)"
  unfolding on_task_def by (rule stable_modify) (use row in simp)

lemma commit_stable: "stable inv ag_commit"
  unfolding ag_commit_def by (rule stable_modify) (use commits in simp)

lemma outside_stable: "stable inv (outside f)"
  by (rule stableI) (use world in \<open>auto simp: outside_def split: prod.splits\<close>)

lemma transition_stable: "stable inv (transition_to ev reason sr)"
  by (rule stableI) (use transition_to_moves row in fastforce)

lemma memory_stable: "stable inv (modify (\<lambda>s. s\<lparr>ag_memory := f s\<rparr>))"
  "stable inv (modify (\<lambda>s. s\<lparr>ag_notice := g s\<rparr>))"
  by (rule stable_modify; use memory notice in simp)+

lemma with_task_stable: "(\<And>t. stable inv (f t)) \<Longrightarrow> stable inv (with_task f)"
  unfolding with_task_def by (intro stable_bind stable_basic)

lemma py_ok_stable: "stable inv (py_ok r)"
  unfolding py_ok_def by (rule stable_basic)

lemma make_receipt_stable: "stable inv (make_receipt env results score verified)"
  by (rule stableI) (use workspace in \<open>auto simp: make_receipt_def split: sum.splits prod.splits ws_exc.splits\<close>)

lemma copy_stable: "stable inv (copy_subtask_outputs env child ws)"
  by (rule stableI)
    (use workspace in \<open>auto simp: copy_subtask_outputs_def Let_def split: option.splits prod.splits if_splits\<close>)

lemmas basic_stable =
  on_task_stable commit_stable outside_stable transition_stable memory_stable with_task_stable
  py_ok_stable make_receipt_stable copy_stable stable_basic stable_bind stable_then
  stable_catch stable_if stable_let stable_pair stable_sum stable_option

lemma receipt_stable: "stable inv (ensure_unverified_receipt env)"
proof (rule stableI)
  fix s r s' assume inv: "inv s" and run: "ensure_unverified_receipt env s = (r, s')"
  have "stable inv (catchE
          (bindE (make_receipt env [] (verification_score (ag_task s)) ''unverified'')
            (\<lambda>h. on_task (set_receipt h))) (\<lambda>_. ret ()))"
    by (intro basic_stable) simp
  with inv run show "inv s'"
    unfolding ensure_unverified_receipt_def by (auto split: if_splits dest: stableD)
qed

lemma finish_run_stable: "stable inv (finish_run env reason)"
  unfolding finish_run_def seqE.simps by (intro basic_stable receipt_stable; simp)

lemma cancelled_exit_stable: "stable inv (cancelled_exit env)"
  unfolding cancelled_exit_def seqE.simps by (intro basic_stable receipt_stable; simp)

lemma begin_operation_stable: "stable inv (begin_operation env n th tool args k)"
  unfolding begin_operation_def by (intro basic_stable; simp)

lemma run_tool_stable: "stable inv (run_tool env tool args)"
proof (rule stableI)
  fix s r s' assume inv: "inv s" and run: "run_tool env tool args s = (r, s')"
  then obtain ws audit w where
    "s' = s\<lparr>ag_ws := ws, ag_task := (ag_task s)\<lparr>authority_audit := audit\<rparr>, ag_world := w\<rparr>"
    by (auto simp: run_tool_def split: prod.splits)
  then show "inv s'" by (simp only:) (intro world row workspace inv; simp)
qed

lemma checks_stable:
  "stable inv (run_completion_checks env cs)"
  "stable inv (contract_evidence_status env)"
  unfolding contract_evidence_status_def run_completion_checks_def
  by (intro basic_stable; simp)+

lemma prepare_rubric_stable: "stable inv (prepare_rubric env)"
  unfolding prepare_rubric_def make_rubric_def
  by (intro basic_stable; simp split: sum.split)

lemma stop_stable:
  "stable inv (stop_checks env b n lo)"
  "stable inv m \<Longrightarrow> stable inv (rejected env what score lo m)"
  "stable inv (reject_verification score)"
  "stable inv (marker env)"
  "stable inv last_entry"
  unfolding stop_checks_def rejected_def reject_verification_def over_def marker_def last_entry_def
  by (intro basic_stable finish_run_stable; simp)+

lemmas quiet_stable = basic_stable stop_stable checks_stable finish_run_stable
  cancelled_exit_stable begin_operation_stable run_tool_stable prepare_rubric_stable

end

section \<open>The handlers\<close>

locale phase_frame = quiet_frame env inv
  for env :: "('w, 'k, 'p) agent_env" and inv :: "'w agent \<Rightarrow> bool" +
  assumes steps: "\<And>n th tool args obs st k. stable inv (record_step env n th tool args obs st k)"
begin

lemma recorded_stable: "stable inv (recorded env reason n th tool args obs st k)"
  unfolding recorded_def by (intro basic_stable steps)

lemma pause_stable:
  "stable inv (pause_for_user env args th n k)"
  "stable inv (pause_for_action env tool args th n k what)"
  "stable inv (pause_for_approval env args th n k why)"
  unfolding pause_for_user_def pause_for_approval_def pause_for_action_def seqE.simps
  by (intro basic_stable steps; simp)+

lemma resume_action_stable: "stable inv (resume_action env n)"
  unfolding resume_action_def run_approved_def
  by (intro basic_stable begin_operation_stable run_tool_stable recorded_stable finish_run_stable;
      (simp split: option.split json.split)?;
      (intro conjI allI impI basic_stable begin_operation_stable run_tool_stable recorded_stable
        finish_run_stable; simp)?)

lemma spawn_stable:
  "stable inv (run_child env child_goal al caps hosts args th n k)"
  "stable inv (spawn_allocated env child_goal al args th n k)"
  "stable inv (handle_spawn env args th n k)"
proof -
  show child: "stable inv (run_child env child_goal al caps hosts args th n k)"
    for child_goal al caps hosts args th n k
    unfolding run_child_def by (intro basic_stable recorded_stable; simp)
  show alloc: "stable inv (spawn_allocated env child_goal al args th n k)"
    for child_goal al args th n k
    unfolding spawn_allocated_def by (intro basic_stable recorded_stable child)
  show "stable inv (handle_spawn env args th n k)"
    unfolding handle_spawn_def by (intro basic_stable recorded_stable alloc)
qed

lemma handle_finish_stable: "stable inv (handle_finish env args th n k)"
  unfolding handle_finish_def judged_def accept_delivery_def verification_failed_def
  by (intro basic_stable steps checks_stable finish_run_stable; simp)

lemmas handler_stable = quiet_stable steps recorded_stable pause_stable spawn_stable
  handle_finish_stable

lemma step_stable:
  "stable inv (finish_step env n th args k lo)"
  "stable inv (refused_step env n th tool args k lo)"
  "stable inv (remember_step env n th args k lo)"
  "stable inv (spawn_step env n th args k lo)"
  "stable inv (auto_finish env n lo)"
  unfolding finish_step_def refused_step_def remember_step_def spawn_step_def delegate_def
    auto_finish_def last_entry_def marker_def over_def
  by (intro handler_stable; simp)+

lemma record_action_stable: "stable inv (record_action env n th tool args obs st k m lo)"
  unfolding record_action_def settle_def collect_evidence_def marker_def
  by (intro handler_stable step_stable; simp)

lemma execute_step_stable: "stable inv (execute_step env n th tool args k lo)"
proof -
  have "stable inv
     (case route_of env tool args lo' of
        dispatch_route.Invalid obs \<Rightarrow> record_action env n th tool args obs ErrorStatus k m lo'
      | dispatch_route.Blocked obs \<Rightarrow> record_action env n th tool args obs BlockedStatus k m lo'
      | dispatch_route.Approval reason \<Rightarrow> over (pause_for_approval env args th n k reason)
      | dispatch_route.Execute \<Rightarrow>
          bindE (begin_operation env n th (tool_name tool) args k) (\<lambda>args'.
          bindE (run_tool env (tool_name tool) args') (\<lambda>r.
            record_action env n th tool args' (f r) (result_status r) k m lo')))" for lo' m f
    by (cases "route_of env tool args lo'")
      (simp_all add: over_def record_action_stable handler_stable)
  then show ?thesis
    unfolding execute_step_def marker_def Let_def by (intro handler_stable)
qed

lemma act_on_stable: "stable inv (act_on env n d k lo)"
  unfolding act_on_def over_def by (intro handler_stable step_stable execute_step_stable)

lemma plan_step_stable: "stable inv (plan_step env n lo)"
  unfolding plan_step_def plan_failed_def over_def
  by (intro handler_stable act_on_stable; simp)

end

section \<open>The loop\<close>

text \<open>The row another session may have changed is read again before every step.\<close>

locale run_frame = phase_frame env inv
  for env :: "('w, 'k, 'p) agent_env" and inv :: "'w agent \<Rightarrow> bool" +
  assumes refreshed: "stable inv (refresh_task env)"
begin

lemma iteration_stable: "stable inv (loop_iteration env n lo)"
  unfolding loop_iteration_def over_def by (intro handler_stable plan_step_stable refreshed)

lemma run_steps_stable: "stable inv (run_steps env ns lo)"
proof (induction ns arbitrary: lo)
  case Nil
  show ?case unfolding run_steps.simps by (intro handler_stable refreshed)
next
  case (Cons n ns)
  have "stable inv (case fl of Over \<Rightarrow> ret () | Next lo' \<Rightarrow> run_steps env ns lo')" for fl
    by (cases fl) (simp_all add: Cons.IH stable_basic)
  then show ?case unfolding run_steps.simps by (intro stable_if Cons.IH stable_bind iteration_stable)
qed

lemma run_loop_stable: "stable inv (run_loop env start)"
  unfolding run_loop_def
  by (intro handler_stable prepare_rubric_stable resume_action_stable run_steps_stable)

end

end
