(* ===== verification/Agent_Sample.thy ===== *)
theory Agent_Sample
  imports Agent_Base
begin

text \<open>
  A concrete run for the witnesses: a task with a rubric and three steps, a model that first
  writes a file and then asks the user, an executor that accepts every call, and a world that
  counts the calls of the model.
\<close>

definition quoted :: "string \<Rightarrow> string" where
  "quoted s = [CHR 0x22] @ s @ [CHR 0x22]"

definition demo_reply :: "nat \<Rightarrow> string" where
  "demo_reply n =
     (if n = 0 then
        ''{'' @ quoted ''tool'' @ '':'' @ quoted ''write_file'' @ '','' @ quoted ''args'' @ '':{'' @
        quoted ''path'' @ '':'' @ quoted ''a.txt'' @ '','' @ quoted ''content'' @ '':'' @ quoted ''x'' @ ''}}''
      else
        ''{'' @ quoted ''tool'' @ '':'' @ quoted ''ask_user'' @ '','' @ quoted ''args'' @ '':{'' @
        quoted ''question'' @ '':'' @ quoted ''Which file?'' @ ''}}'')"

definition demo_model :: "'r \<Rightarrow> nat model" where
  "demo_model r n =
     (Inr \<lparr>lr_content = demo_reply n, lr_provider = ''demo'', lr_model = ''m'', lr_tokens = 10\<rparr>, n + 1)"

definition demo_hosts :: host_lib where
  "demo_hosts = \<lparr>hl_idna = (\<lambda>s. None), hl_global = (\<lambda>_. True), hl_compressed = (\<lambda>_. [])\<rparr>"

definition demo_env :: "(nat, unit, unit) agent_env" where
  "demo_env =
     \<lparr>ae_settings = default_settings, ae_hosts = demo_hosts, ae_crypto = demo_crypto,
      ae_read_text = (\<lambda>_. None),
      ae_info = (\<lambda>_. \<lparr>ri_now = [], ri_python = [], ri_implementation = [], ri_platform = []\<rparr>),
      ae_snapshot = (\<lambda>_ _ _. Inr None), ae_ws_is_dir = (\<lambda>_ _. False), ae_mtime = (\<lambda>n _. int n),
      ae_uuid = (\<lambda>n. (''op'', n)), ae_refresh = (\<lambda>n t. (t, n)), ae_envelope = full_envelope,
      ae_dynamic_tools = {}, ae_specs = [], ae_conversation = [], ae_notices = [],
      ae_understand = (\<lambda>_ _. demo_model ()), ae_plan = demo_model, ae_verify = demo_model,
      ae_execute = (\<lambda>_ _ _ _. ret \<lparr>observation = ''done'', result_status = OkStatus\<rparr>),
      ae_checks = (\<lambda>_ _ n. (\<lambda>_. \<lparr>ce_run = (\<lambda>_. \<lparr>observation = [], result_status = OkStatus\<rparr>),
        ce_is_file = (\<lambda>_. Inr False), ce_read = (\<lambda>_. Inr [])\<rparr>, n)),
      ae_remember = (\<lambda>_ _ n. (''Remembered.'', n)), ae_child = (\<lambda>t n. ((t, None), n)),
      ae_copytree = (\<lambda>_ _ ws. (False, ws))\<rparr>"

definition demo_task :: task where
  "demo_task =
     (fresh_task ''t'')\<lparr>loop_state := state_value Preparing, status := status_value Running,
       rubric := [''The file exists''], max_steps := 3, token_budget := 100000\<rparr>"

definition demo_agent :: "nat agent" where
  "demo_agent =
     \<lparr>ag_task = demo_task, ag_log = [], ag_saved = (demo_task, []), ag_history = [],
      ag_head = genesis_hash ''t'', ag_memory = [], ag_notice = [],
      ag_ws = \<lparr>ws_root = ''/w'', ws_files = [], ws_dirs = [''/w''], ws_real = (\<lambda>p. p)\<rparr>,
      ag_world = 0\<rparr>"

end
