(* ===== verification/Agent_States.thy ===== *)
theory Agent_States
  imports Agent_Frame Agent_Sample
begin

text \<open>
  A run and the state machine of its task. Started where a claim leaves it, the loop never asks
  for a transition the policy refuses, and when it returns its task is settled: stopped, waiting
  for the user, cancelled, or completed on an accepted verdict with a receipt. An environment is
  \<open>orderly\<close> when other sessions only cancel the task and nothing else raises the refusal of a
  transition.
\<close>

definition in_phase :: "loop_state \<Rightarrow> 'w agent \<Rightarrow> bool" where
  "in_phase st s \<longleftrightarrow>
     loop_state (ag_task s) = state_value st \<and> status (ag_task s) = status_value (status_of st)"

definition cancelled_meanwhile :: "'w agent \<Rightarrow> bool" where
  "cancelled_meanwhile s \<longleftrightarrow> status (ag_task s) = status_value CancelledStatus"

definition committed :: "'w agent \<Rightarrow> bool" where
  "committed s \<longleftrightarrow> ag_saved s = (ag_task s, ag_log s)"

text \<open>Completed on a verdict that reaches the acceptance score; in strict mode, by execution.\<close>

definition delivered :: "settings \<Rightarrow> 'w agent \<Rightarrow> bool" where
  "delivered c s \<longleftrightarrow>
     (let t = ag_task s in
      agent_acceptance_score c \<le> verification_score t \<and>
      verified_by t \<in> {Some ''execution'', Some ''judgment''} \<and>
      (verification_mode t = ''strict'' \<longrightarrow> verified_by t = Some ''execution'') \<and>
      receipt_hash t \<noteq> None \<and> run_summary t \<noteq> None \<and>
      ag_log s \<noteq> [] \<and> st_tool (last (ag_log s)) = ''finish'' \<and> st_status (last (ag_log s)) = ''ok'')"

definition settled :: "settings \<Rightarrow> 'w agent \<Rightarrow> bool" where
  "settled c s \<longleftrightarrow>
     committed s \<and>
       (in_phase Stopped s \<or> in_phase AwaitingInput s \<or> in_phase AwaitingApproval s \<or>
        in_phase Completed s \<and> delivered c s) \<or>
     cancelled_meanwhile s"

definition orderly :: "('w, 'k, 'p) agent_env \<Rightarrow> bool" where
  "orderly env \<longleftrightarrow>
     (\<forall>w t. let u = fst (ae_refresh env w t) in
        status u = status_value CancelledStatus \<or> loop_state u = loop_state t \<and> status u = status t) \<and>
     (\<forall>db t tool args x. fst (ae_execute env db t tool args x) \<noteq> Inl LoopError) \<and>
     (\<forall>w t ws. ae_snapshot env w t ws \<noteq> Inl LoopError)"

lemma orderlyD:
  assumes "orderly env"
  shows "ae_refresh env w t = (u, w') \<Longrightarrow> status u = status_value CancelledStatus \<or>
      loop_state u = loop_state t \<and> status u = status t"
    and "ae_execute env db t tool args x \<noteq> (Inl LoopError, y)"
    and "ae_snapshot env w t ws \<noteq> Inl LoopError"
  using assms unfolding orderly_def Let_def by (metis fst_conv)+

section \<open>Operations that stay in a phase\<close>

abbreviation no_refusal :: "svc_exc \<Rightarrow> 's \<Rightarrow> bool" where
  "no_refusal e s \<equiv> e \<noteq> LoopError"

definition stays :: "('w, 'a) agent_act \<Rightarrow> bool" where
  "stays m =
     (\<forall>st. hoare (in_phase st) m (\<lambda>_. in_phase st) (\<lambda>e s. e \<noteq> LoopError \<and> in_phase st s))"

lemma staysD: "stays m \<Longrightarrow> hoare (in_phase st) m (\<lambda>_. in_phase st) no_refusal"
  unfolding stays_def hoare_def by (fastforce split: prod.splits sum.splits)

lemma stays_bind: "stays m \<Longrightarrow> (\<And>a. stays (f a)) \<Longrightarrow> stays (bindE m f)"
  unfolding stays_def by (auto intro: hoare_bind)

lemma stays_then: "stays m \<Longrightarrow> stays n \<Longrightarrow> stays (thenE m n)"
  unfolding thenE_def by (rule stays_bind)

lemma stays_basic: "stays (ret a)" "stays (gets f)" "stays (py_ok r)"
  by (auto simp: stays_def hoare_def effect_defs py_ok_def split: sum.split; cases r; simp)+

lemma stays_raise: "e \<noteq> LoopError \<Longrightarrow> stays (raise e)"
  by (simp add: stays_def hoare_def effect_defs)

lemma stays_catch:
  assumes "\<And>st. stable (in_phase st) m"
  shows "stays (catchE m (\<lambda>_. ret a))"
  unfolding stays_def
proof (intro allI hoare_catch)
  fix st
  show "hoare (in_phase st) m (\<lambda>_. in_phase st) (\<lambda>_. in_phase st)"
    using assms [of st] by (simp add: stable_def)
  show "hoare (in_phase st) (ret a) (\<lambda>_. in_phase st) (\<lambda>e s. e \<noteq> LoopError \<and> in_phase st s)"
    by (rule hoare_ret)
qed

lemma stays_on_task:
  "(\<And>t. loop_state (f t) = loop_state t \<and> status (f t) = status t) \<Longrightarrow> stays (on_task f)"
  by (simp add: stays_def hoare_def on_task_def effect_defs in_phase_def)

lemma stays_modify: "(\<And>s. ag_task (f s) = ag_task s) \<Longrightarrow> stays (modify f)"
  by (simp add: stays_def hoare_def effect_defs in_phase_def)

lemma stays_outside: "stays (outside f)"
  by (auto simp: stays_def hoare_def outside_def in_phase_def split: prod.split)

lemma stays_commit: "stays ag_commit"
  unfolding ag_commit_def by (rule stays_modify) simp

lemma stays_record: "stays (record_step env n th tool args obs st k)"
  by (auto simp: stays_def hoare_def record_step_def Let_def in_phase_def)

lemma stays_copy: "stays (copy_subtask_outputs env child ws)"
  by (auto simp: stays_def hoare_def copy_subtask_outputs_def Let_def in_phase_def
      split: option.split prod.split)

lemma stays_if: "(b \<Longrightarrow> stays m) \<Longrightarrow> (\<not> b \<Longrightarrow> stays n) \<Longrightarrow> stays (if b then m else n)"
  by simp

lemma stays_with_task: "(\<And>t. stays (f t)) \<Longrightarrow> stays (with_task f)"
  unfolding with_task_def by (intro stays_bind stays_basic)

lemma stays_let: "(\<And>v. stays (f v)) \<Longrightarrow> stays (let v = x in f v)"
  by (simp add: Let_def)

lemma stays_pair: "(\<And>a b. stays (f a b)) \<Longrightarrow> stays (case p of (a, b) \<Rightarrow> f a b)"
  by (cases p) simp

lemma make_receipt_phase: "stable (in_phase st) (make_receipt env results score verified)"
  by (rule stableI)
    (auto simp: make_receipt_def in_phase_def split: sum.splits prod.splits ws_exc.splits)

lemma stays_receipt: "orderly env \<Longrightarrow> stays (make_receipt env results score verified)"
  by (auto simp: stays_def hoare_def make_receipt_def in_phase_def
      split: sum.splits prod.splits ws_exc.splits dest: orderlyD(3))

lemma stays_unverified: "stays (ensure_unverified_receipt env)"
proof -
  have "stable (in_phase st) (bindE (make_receipt env [] score ''unverified'') (\<lambda>h. on_task (set_receipt h)))"
    for st score
    by (intro stable_bind make_receipt_phase)
      (auto intro!: stable_modify simp: on_task_def in_phase_def set_receipt_def)
  then have "stays (catchE (bindE (make_receipt env [] score ''unverified'') (\<lambda>h. on_task (set_receipt h)))
      (\<lambda>_. ret ()))" for score
    by (rule stays_catch)
  then show ?thesis
    using stays_basic(1) [of "()"]
    unfolding stays_def hoare_def ensure_unverified_receipt_def ret_def by auto
qed

lemma stays_run_tool: "orderly env \<Longrightarrow> stays (run_tool env tool args)"
  by (auto simp: stays_def hoare_def run_tool_def in_phase_def split: sum.split prod.split
      dest: orderlyD(2))

lemma stays_begin: "stays (begin_operation env n th tool args k)"
  unfolding begin_operation_def
  by (intro stays_bind stays_then stays_outside stays_on_task stays_commit stays_basic) simp

lemmas stay_rules = stays_bind stays_then stays_basic stays_on_task stays_modify stays_outside
  stays_commit stays_record stays_copy stays_if stays_with_task stays_let stays_pair
  stays_unverified stays_begin

lemma stays_checks:
  "stays (run_completion_checks env cs)" "stays (contract_evidence_status env)"
  unfolding contract_evidence_status_def run_completion_checks_def by (intro stay_rules; simp)+

section \<open>Moves\<close>

definition run_to ::
  "loop_state \<Rightarrow> ('a \<Rightarrow> 'w agent \<Rightarrow> bool) \<Rightarrow> ('w, 'a) agent_act \<Rightarrow> bool" where
  "run_to st Q m = hoare (in_phase st) m Q no_refusal"

lemma to_stay: "stays m \<Longrightarrow> (\<And>a s. in_phase st s \<Longrightarrow> Q a s) \<Longrightarrow> run_to st Q m"
  unfolding run_to_def by (erule hoare_post [OF staysD])

lemma to_bind: "stays m \<Longrightarrow> (\<And>a. run_to st Q (f a)) \<Longrightarrow> run_to st Q (bindE m f)"
  unfolding run_to_def by (erule hoare_bind [OF staysD])

lemma to_then: "stays m \<Longrightarrow> run_to st Q n \<Longrightarrow> run_to st Q (thenE m n)"
  unfolding thenE_def by (rule to_bind)

lemma to_ret: "(\<And>s. in_phase st s \<Longrightarrow> Q a s) \<Longrightarrow> run_to st Q (ret a)"
  unfolding run_to_def by (rule hoare_ret)

lemma to_raise: "e \<noteq> LoopError \<Longrightarrow> run_to st Q (raise e)"
  unfolding run_to_def by (rule hoare_raise)

lemma to_with_task: "(\<And>t. run_to st Q (f t)) \<Longrightarrow> run_to st Q (with_task f)"
  unfolding with_task_def by (intro to_bind stays_basic)

lemma to_if: "(b \<Longrightarrow> run_to st Q m) \<Longrightarrow> (\<not> b \<Longrightarrow> run_to st Q n) \<Longrightarrow> run_to st Q (if b then m else n)"
  by simp

lemma to_let: "(\<And>v. run_to st Q (f v)) \<Longrightarrow> run_to st Q (let v = x in f v)"
  by (simp add: Let_def)

lemma to_pair: "(\<And>a b. run_to st Q (f a b)) \<Longrightarrow> run_to st Q (case p of (a, b) \<Rightarrow> f a b)"
  by (cases p) simp

lemma to_option: "run_to st Q m \<Longrightarrow> (\<And>a. run_to st Q (f a)) \<Longrightarrow>
    run_to st Q (case p of None \<Rightarrow> m | Some a \<Rightarrow> f a)"
  by (cases p) auto

lemma to_sum: "(\<And>a. run_to st Q (f a)) \<Longrightarrow> (\<And>b. run_to st Q (g b)) \<Longrightarrow>
    run_to st Q (case p of Inl a \<Rightarrow> f a | Inr b \<Rightarrow> g b)"
  by (cases p) auto

lemma to_post: "run_to st Q m \<Longrightarrow> (\<And>a s. Q a s \<Longrightarrow> Q' a s) \<Longrightarrow> run_to st Q' m"
  unfolding run_to_def by (rule hoare_post)

text \<open>After an operation that ends in a phase.\<close>

lemma to_after: "run_to st (\<lambda>_. in_phase st') m \<Longrightarrow> (\<And>a. run_to st' Q (f a)) \<Longrightarrow> run_to st Q (bindE m f)"
  unfolding run_to_def by (rule hoare_bind)

lemma to_after_then: "run_to st (\<lambda>_. in_phase st') m \<Longrightarrow> run_to st' Q n \<Longrightarrow> run_to st Q (thenE m n)"
  unfolding thenE_def by (rule to_after)

lemma transition_moves:
  assumes "rule st ev = Some st'" "ev = LimitReached \<longrightarrow> bounded_reason sr" "in_phase st s"
  shows "transition_to ev reason sr s =
    (Inr (), s\<lparr>ag_task := moved (ag_task s) st' (reason_text reason ev) (reason_of st' sr)\<rparr>)"
proof -
  have "\<exists>tr. apply_event (ag_task s) ev reason sr =
      Inr (moved (ag_task s) st' (reason_text reason ev) (reason_of st' sr), tr)"
    using assms by (auto simp: apply_event_ok_iff in_phase_def)
  then show ?thesis by (auto simp: transition_to_def)
qed

lemma to_move:
  assumes "rule st ev = Some st'" "ev = LimitReached \<longrightarrow> bounded_reason sr"
  shows "run_to st (\<lambda>_. in_phase st') (transition_to ev reason sr)"
  unfolding run_to_def
  by (rule hoareI) (auto simp: transition_moves [OF assms] in_phase_def)

lemma moves [simp]:
  "rule Preparing RubricRequired = Some Understanding"
  "rule Understanding RubricReady = Some Planning"
  "rule Preparing PreparationCompleted = Some Planning"
  "rule Planning ActionSelected = Some Acting"
  "rule Acting ActionRecorded = Some Planning"
  "rule Planning VerificationRequested = Some Verifying"
  "rule Verifying VerificationRejected = Some Planning"
  "rule Verifying VerificationAccepted = Some Completed"
  "rule Acting InputRequired = Some AwaitingInput"
  "rule Acting ApprovalRequired = Some AwaitingApproval"
  "rule Planning LimitReached = Some Stopped"
  "rule Verifying LimitReached = Some Stopped"
  by code_simp+

lemma to_recorded: "run_to Acting (\<lambda>_. in_phase Planning) (recorded env reason n th tool args obs st k)"
  unfolding recorded_def
  by (intro to_after_then [OF to_move] to_stay stays_record) simp_all

lemma to_stop:
  assumes "st \<in> {Planning, Verifying}" "reason \<in> {MaxSteps, BudgetExhausted, Stuck}"
  shows "run_to st (\<lambda>_ s. committed s \<and> in_phase Stopped s) (finish_run env reason)"
proof -
  have stop: "run_to st (\<lambda>_. in_phase Stopped) (transition_to LimitReached r (Some reason))" for r
    using assms by (intro to_move) (auto simp: bounded_reason_def)
  have commit: "run_to Stopped (\<lambda>_ s. committed s \<and> in_phase Stopped s) (thenE ag_commit (ret ()))"
    by (simp add: run_to_def hoare_def ag_commit_def committed_def in_phase_def effect_defs)
  have "reason \<noteq> GoalAchieved" using assms by auto
  then show ?thesis
    unfolding finish_run_def seqE.simps
    by (simp del: seqE.simps)
      (intro to_after_then [OF stop] to_then stays_on_task stays_unverified commit,
       simp add: with_summary_def)
qed

section \<open>The handlers\<close>

lemma to_pause:
  "run_to Acting (\<lambda>_. settled c) (pause_for_user env args th n k)"
  "run_to Acting (\<lambda>_. settled c) (pause_for_action env tool args th n k what)"
  "run_to Acting (\<lambda>_. settled c) (pause_for_approval env args th n k why)"
proof -
  have commit: "run_to st (\<lambda>_. settled c) (thenE ag_commit (ret ()))"
    if "st \<in> {AwaitingInput, AwaitingApproval}" for st
    using that by (auto simp: run_to_def hoare_def ag_commit_def settled_def committed_def
        in_phase_def effect_defs)
  have input: "run_to Acting (\<lambda>_. in_phase AwaitingInput) (transition_to InputRequired r None)" for r
    by (rule to_move) simp_all
  have approval: "run_to Acting (\<lambda>_. in_phase AwaitingApproval) (transition_to ApprovalRequired r None)" for r
    by (rule to_move) simp_all
  show "run_to Acting (\<lambda>_. settled c) (pause_for_user env args th n k)"
    unfolding pause_for_user_def Let_def seqE.simps
    by (intro to_then [OF stays_record] to_then [OF stays_on_task] to_after_then [OF input] commit) simp_all
  show action: "run_to Acting (\<lambda>_. settled c) (pause_for_action env tool args th n k what)" for tool what
    unfolding pause_for_action_def seqE.simps
    by (intro to_then [OF stays_record] to_then [OF stays_on_task] to_after_then [OF approval] commit) simp_all
  show "run_to Acting (\<lambda>_. settled c) (pause_for_approval env args th n k why)"
    unfolding pause_for_approval_def by (rule action)
qed

lemma to_spawn: "run_to Acting (\<lambda>_. in_phase Planning) (handle_spawn env args th n k)"
proof -
  have child: "run_to Acting (\<lambda>_. in_phase Planning)
      (run_child env child_goal al caps hosts args th n k)" for child_goal al caps hosts
    unfolding run_child_def
    by (intro to_bind to_then to_with_task to_pair to_recorded stay_rules) simp
  have alloc: "run_to Acting (\<lambda>_. in_phase Planning) (spawn_allocated env child_goal al args th n k)"
    for child_goal al
    unfolding spawn_allocated_def by (intro to_bind to_with_task to_let to_if to_recorded child stay_rules)
  show ?thesis
    unfolding handle_spawn_def
    by (intro to_bind to_with_task to_let to_if to_option to_recorded alloc stay_rules)
qed

definition finish_recorded :: "string \<Rightarrow> 'w agent \<Rightarrow> bool" where
  "finish_recorded mode s \<longleftrightarrow>
     in_phase Verifying s \<and> verification_mode (ag_task s) = mode \<and> ag_log s \<noteq> [] \<and>
     st_tool (last (ag_log s)) = ''finish'' \<and> st_status (last (ag_log s)) = ''ok''"

lemma verdict_facts:
  assumes "evaluate_verdict payload results n acc strict authoritative = Inr d" "vd_accepted d"
  shows "acc \<le> vd_score d" "vd_verified_by d \<in> {''execution'', ''judgment''}"
    "strict \<Longrightarrow> vd_verified_by d = ''execution''"
  using assms by (auto simp: evaluate_verdict_def Let_def split: sum.splits if_splits)

lemma accept_settles:
  assumes env: "orderly env"
    and d: "evaluate_verdict payload results n (agent_acceptance_score (ae_settings env))
              (mode = ''strict'') authoritative = Inr d" "vd_accepted d"
  shows "hoare (finish_recorded mode) (accept_delivery env what d results)
           (\<lambda>_. settled (ae_settings env)) no_refusal"
proof (rule hoareI)
  fix s a s' assume pre: "finish_recorded mode s" and run: "accept_delivery env what d results s = (Inr a, s')"
  let ?t = "(ag_task s)\<lparr>run_summary := Some what, verification_score := vd_score d,
              verified_by := Some (vd_verified_by d)\<rparr>"
  obtain h ws where "make_receipt env results (vd_score d) (vd_verified_by d) (s\<lparr>ag_task := ?t\<rparr>) =
      (Inr h, s\<lparr>ag_task := ?t, ag_ws := ws\<rparr>)"
    using run by (auto simp: accept_delivery_def on_task_def make_receipt_def
        split: sum.splits prod.splits ws_exc.splits)
  moreover define u where "u = set_receipt h ?t"
  ultimately have "finish_run env GoalAchieved (s\<lparr>ag_ws := ws, ag_task := u\<rparr>) = (Inr a, s')"
    using run by (simp add: accept_delivery_def on_task_def u_def)
  moreover have phase: "in_phase Verifying (s\<lparr>ag_ws := ws, ag_task := u\<rparr>)"
    using pre by (simp add: finish_recorded_def in_phase_def u_def set_receipt_def)
  ultimately obtain r where r: "ag_task s' = moved u Completed r (Some GoalAchieved)" "committed s'"
      "ag_log s' = ag_log s"
    by (auto simp: finish_run_def transition_moves [OF _ _ phase] ag_commit_def committed_def
        reason_of_def)
  have "in_phase Completed s'" by (simp add: in_phase_def r)
  moreover have "delivered (ae_settings env) s'"
    using pre verdict_facts [OF d]
    by (auto simp: delivered_def r finish_recorded_def u_def set_receipt_def moved_def)
  ultimately show "settled (ae_settings env) s'" using r by (simp add: settled_def)
next
  fix s e s' assume pre: "finish_recorded mode s" and run: "accept_delivery env what d results s = (Inl e, s')"
  have achieved: "run_to Verifying (\<lambda>_ _. True) (finish_run env GoalAchieved)"
    by (simp add: finish_run_def) (intro to_after_then [OF to_move] to_stay stays_commit; simp)
  have "run_to Verifying (\<lambda>_ _. True) (accept_delivery env what d results)"
    unfolding accept_delivery_def
    by (intro to_then to_bind stays_on_task stays_receipt env achieved) (simp_all add: set_receipt_def)
  then show "e \<noteq> LoopError"
    using pre run unfolding run_to_def by (auto simp: finish_recorded_def dest: hoareD(2))
qed

definition finished_well :: "settings \<Rightarrow> bool \<times> int \<Rightarrow> 'w agent \<Rightarrow> bool" where
  "finished_well c x s \<longleftrightarrow> (if fst x then settled c s else in_phase Verifying s)"

lemma record_finish:
  "hoare (\<lambda>s. in_phase Verifying s \<and> verification_mode (ag_task s) = mode)
     (record_step env n th ''finish'' args obs OkStatus k) (\<lambda>_. finish_recorded mode) no_refusal"
  by (rule hoareI) (auto simp: record_step_def Let_def finish_recorded_def in_phase_def new_step_def)

lemma to_judged:
  assumes env: "orderly env"
  shows "run_to Verifying (finished_well (ae_settings env))
    (judged env r results authoritative what args th n k)"
proof -
  have decide: "hoare (\<lambda>s. in_phase Verifying s \<and> ag_task s = t)
      (bindE (py_ok (evaluate_verdict (extract_json (lr_content r)) results (criteria_count t)
               (agent_acceptance_score (ae_settings env)) (verification_mode t = ''strict'') authoritative)) (\<lambda>d.
        thenE (record_step env n th ''finish'' args (verdict_text t d results) OkStatus (k + lr_tokens r))
          (if vd_accepted d then thenE (accept_delivery env what d results) (ret (True, vd_score d))
           else ret (False, vd_score d))))
      (finished_well (ae_settings env)) no_refusal" (is "hoare ?P (bindE (py_ok ?v) ?f) _ _") for t
  proof (cases ?v)
    case (Inl e)
    then show ?thesis by (simp add: hoare_def py_ok_def effect_defs)
  next
    case (Inr d)
    have accept: "vd_accepted d \<Longrightarrow> hoare (finish_recorded (verification_mode t))
        (accept_delivery env what d results) (\<lambda>_. settled (ae_settings env)) no_refusal"
      by (rule accept_settles [OF env Inr])
    have "hoare ?P (?f d) (finished_well (ae_settings env)) no_refusal"
      by (rule hoare_then [OF hoare_pre [OF record_finish [where mode = "verification_mode t"]]])
        (auto intro!: hoare_if hoare_then [OF accept] hoare_ret
          simp: finished_well_def finish_recorded_def)
    then show ?thesis using Inr by (simp add: hoare_def py_ok_def effect_defs)
  qed
  show ?thesis
    unfolding judged_def
    by (intro to_then stays_on_task)
      (simp_all add: record_model_use_def run_to_def decide hoare_with_task)
qed

lemma to_finish:
  assumes env: "orderly env"
  shows "run_to Verifying (finished_well (ae_settings env)) (handle_finish env args th n k)"
proof -
  have stop: "run_to Verifying (\<lambda>_. settled c) (finish_run env BudgetExhausted)" for c
    by (rule to_post [OF to_stop]) (simp_all add: settled_def)
  have failed: "run_to Verifying (finished_well (ae_settings env)) (verification_failed env f args th n k)" for f
    unfolding verification_failed_def thenE_def [of "finish_run env BudgetExhausted"]
    by (intro to_then stays_record to_if to_raise) 
      (auto simp: run_to_def finished_well_def
        intro!: hoare_bind [OF stop [unfolded run_to_def]] hoare_ret)
  show ?thesis
    unfolding handle_finish_def
    by (intro to_bind to_with_task to_pair to_sum failed to_judged env stay_rules stays_checks)
qed

section \<open>The loop\<close>

definition flow_state :: "settings \<Rightarrow> flow \<Rightarrow> 'w agent \<Rightarrow> bool" where
  "flow_state c fl s \<longleftrightarrow> (case fl of Over \<Rightarrow> settled c s | Next lo \<Rightarrow> in_phase Planning s)"

lemma to_over: "run_to st (\<lambda>_. settled c) m \<Longrightarrow> run_to st (flow_state c) (over m)"
  unfolding run_to_def by (erule hoare_over) (simp add: flow_state_def)

lemma to_limit:
  "reason \<in> {MaxSteps, BudgetExhausted, Stuck} \<Longrightarrow> run_to Planning (\<lambda>_. settled c) (finish_run env reason)"
  by (rule to_post [OF to_stop]) (auto simp: settled_def)

lemma to_stop_checks: "run_to Planning (flow_state c) (stop_checks env b n lo)"
  unfolding stop_checks_def
  by (intro to_with_task to_if to_over to_limit to_ret) (simp_all add: flow_state_def)

lemma to_rejected:
  "run_to Planning (flow_state c) m \<Longrightarrow> run_to Planning (flow_state c) (rejected env what score lo m)"
  unfolding rejected_def
  by (intro to_if to_over to_then stays_on_task to_limit) simp_all

lemma to_reject: "run_to Verifying (\<lambda>_. in_phase Planning) (reject_verification score)"
  unfolding reject_verification_def
  by (intro to_after_then [OF to_move] to_stay stays_commit) simp_all

lemma stays_marker: "stays (marker env)" "stays last_entry"
  unfolding marker_def last_entry_def by (intro stays_basic)+

text \<open>A verification that was asked for in the planning phase.\<close>

lemma to_verification:
  assumes env: "orderly env" and rest: "\<And>score. run_to Planning (flow_state (ae_settings env)) (f score)"
  shows "run_to Planning (flow_state (ae_settings env))
     (thenE (transition_to VerificationRequested reason None)
     (bindE (handle_finish env args th n k) (\<lambda>(ended, score).
        if ended then ret Over else thenE (reject_verification score) (f score))))"
proof -
  have "hoare (finished_well (ae_settings env) x)
      (case x of (ended, score) \<Rightarrow> if ended then ret Over else thenE (reject_verification score) (f score))
      (flow_state (ae_settings env)) no_refusal" for x
  proof (cases x)
    case (Pair ended score)
    show ?thesis
    proof (cases ended)
      case True
      then show ?thesis
        by (auto simp: Pair finished_well_def flow_state_def intro!: hoare_ret)
    next
      case False
      then show ?thesis
        by (simp add: Pair del: split_paired_All)
          (rule hoare_pre [OF to_after_then [OF to_reject rest, unfolded run_to_def]],
           simp add: finished_well_def)
    qed
  qed
  then have "run_to Verifying (flow_state (ae_settings env))
     (bindE (handle_finish env args th n k) (\<lambda>(ended, score).
        if ended then ret Over else thenE (reject_verification score) (f score)))"
    unfolding run_to_def by (rule hoare_bind [OF to_finish [OF env, unfolded run_to_def]])
  then show ?thesis by (intro to_after_then [OF to_move]) simp_all
qed

lemma to_finish_step:
  assumes env: "orderly env"
  shows "run_to Planning (flow_state (ae_settings env)) (finish_step env n th args k lo)"
  unfolding finish_step_def
  by (intro to_bind stays_marker to_if to_over to_then stays_record to_limit to_verification env)
    (auto simp: Let_def flow_state_def intro!: to_rejected to_ret)

lemma to_auto_finish:
  assumes env: "orderly env"
  shows "run_to Planning (flow_state (ae_settings env)) (auto_finish env n lo)"
  unfolding auto_finish_def
  by (intro to_verification env)
    (auto simp: Let_def intro!: to_bind stays_marker to_rejected to_with_task to_if to_over to_limit
      to_stop_checks)

lemma to_steps:
  "run_to Acting (flow_state c) (refused_step env n th tool args k lo)"
  "run_to Acting (flow_state c) (remember_step env n th args k lo)"
  "run_to Acting (flow_state c) (spawn_step env n th args k lo)"
proof -
  show "run_to Acting (flow_state c) (refused_step env n th tool args k lo)"
    unfolding refused_step_def
    by (intro to_after_then [OF to_recorded] to_bind stays_marker to_stop_checks)
  show "run_to Acting (flow_state c) (remember_step env n th args k lo)"
    unfolding remember_step_def
    by (intro to_let to_bind [OF stays_begin] to_bind [OF stays_outside] to_then
        to_after_then [OF to_recorded] to_stop_checks stay_rules) simp_all
  have "run_to Acting (\<lambda>_. in_phase Planning) (delegate env n th args k lo)"
    unfolding delegate_def
    by (intro to_option to_after_then [OF to_recorded] to_bind [OF stays_begin]
        to_after_then [OF to_spawn] to_ret)
  then show "run_to Acting (flow_state c) (spawn_step env n th args k lo)"
    unfolding spawn_step_def by (rule to_after) (intro to_bind stays_marker to_stop_checks)
qed

lemma to_settle:
  assumes env: "orderly env"
  shows "run_to Planning (flow_state (ae_settings env)) (settle env n tool st changed lo)"
proof -
  have "stays (collect_evidence env n tool lo)"
    unfolding collect_evidence_def by (intro stay_rules stays_checks) simp
  then show ?thesis
    unfolding settle_def
    by (intro to_if to_bind to_pair to_auto_finish env to_stop_checks)
qed

lemma to_record_action:
  assumes env: "orderly env"
  shows "run_to Acting (flow_state (ae_settings env)) (record_action env n th tool args obs st k b lo)"
  unfolding record_action_def
  by (intro to_after_then [OF to_recorded] to_bind stays_marker to_let to_settle env)

lemma to_execute_step:
  assumes env: "orderly env"
  shows "run_to Acting (flow_state (ae_settings env)) (execute_step env n th tool args k lo0)"
proof -
  have "run_to Acting (flow_state (ae_settings env))
     (case route_of env tool args lo of
        dispatch_route.Invalid obs \<Rightarrow> record_action env n th tool args obs ErrorStatus k b lo
      | dispatch_route.Blocked obs \<Rightarrow> record_action env n th tool args obs BlockedStatus k b lo
      | dispatch_route.Approval reason \<Rightarrow> over (pause_for_approval env args th n k reason)
      | dispatch_route.Execute \<Rightarrow>
          bindE (begin_operation env n th (tool_name tool) args k) (\<lambda>args'.
          bindE (run_tool env (tool_name tool) args') (\<lambda>r.
            record_action env n th tool args' (f r) (result_status r) k b lo)))" for lo b f
    by (cases "route_of env tool args lo")
      (auto intro!: to_record_action env to_over to_pause to_bind stays_begin stays_run_tool)
  then show ?thesis
    unfolding execute_step_def Let_def by (intro to_bind stays_marker)
qed

lemma to_act:
  assumes env: "orderly env"
  shows "run_to Planning (flow_state (ae_settings env)) (act_on env n d k lo)"
proof -
  have select: "run_to Planning (\<lambda>_. in_phase Acting) (transition_to ActionSelected r None)" for r
    by (rule to_move) simp_all
  show ?thesis
    unfolding act_on_def Let_def
    by (simp add: to_finish_step env to_after_then [OF select] to_over to_pause to_steps to_execute_step)
qed

lemma refresh_planning:
  assumes env: "orderly env"
  shows "hoare (in_phase Planning) (refresh_task env)
     (\<lambda>_ s. in_phase Planning s \<or> cancelled_meanwhile s) no_refusal"
  by (rule hoareI)
    (auto simp: refresh_task_def in_phase_def cancelled_meanwhile_def split: prod.splits
      dest: orderlyD(1) [OF env])

lemma unverified_receipt_runs:
  "\<exists>u. ensure_unverified_receipt env s = (Inr (), u) \<and> status (ag_task u) = status (ag_task s)"
proof -
  let ?m = "make_receipt env [] (verification_score (ag_task s)) ''unverified''"
  obtain r u where m: "?m s = (r, u)" by (rule prod.exhaust)
  have "ag_task u = ag_task s"
    using m by (auto simp: make_receipt_def split: sum.splits prod.splits ws_exc.splits)
  then show ?thesis
    using m by (cases r)
      (auto simp: ensure_unverified_receipt_def catchE_def bindE_def on_task_def effect_defs set_receipt_def)
qed

lemma cancelled_settles:
  "hoare cancelled_meanwhile (cancelled_exit env) (\<lambda>_. settled c) no_refusal"
proof (unfold hoare_def, intro allI impI)
  fix s :: "'a agent" assume "cancelled_meanwhile s"
  define u where "u = s\<lparr>ag_task := with_summary CancelledByUser
      ((ag_task s)\<lparr>stop_reason := Some (stop_value CancelledByUser)\<rparr>)\<rparr>"
  obtain v where "ensure_unverified_receipt env u = (Inr (), v)" "status (ag_task v) = status (ag_task u)"
    using unverified_receipt_runs by blast
  with \<open>cancelled_meanwhile s\<close>
  show "case cancelled_exit env s of (Inr a, s') \<Rightarrow> settled c s' | (Inl e, s') \<Rightarrow> no_refusal e s'"
    by (simp add: cancelled_exit_def on_task_def ag_commit_def effect_defs u_def settled_def
        cancelled_meanwhile_def with_summary_def)
qed

lemma to_iteration:
  assumes env: "orderly env"
  shows "run_to Planning (flow_state (ae_settings env)) (loop_iteration env n lo)"
proof -
  have failed: "run_to Planning (flow_state (ae_settings env)) (plan_failed env f)" for f
    unfolding plan_failed_def
    by (intro to_then stays_on_task stays_commit to_if to_over to_limit to_raise) simp_all
  have plan: "run_to Planning (flow_state (ae_settings env)) (plan_step env n lo)"
    unfolding plan_step_def
    by (intro to_bind stays_basic stays_outside to_sum failed to_then stays_on_task to_act env)
      (simp add: record_model_use_def)
  have "hoare (\<lambda>s. (in_phase Planning s \<or> cancelled_meanwhile s) \<and> ag_task s = t)
      (if status t = status_value CancelledStatus then over (cancelled_exit env)
       else if token_budget t \<le> tokens_used t \<or> cb_planning (plan_budget (ae_settings env) t) \<le> 0
       then over (finish_run env BudgetExhausted) else plan_step env n lo)
      (flow_state (ae_settings env)) no_refusal" for t
  proof (cases "status t = status_value CancelledStatus")
    case True
    show ?thesis
      unfolding if_P [OF True]
      by (rule hoare_over [OF hoare_pre [OF cancelled_settles]])
        (auto simp: cancelled_meanwhile_def flow_state_def True)
  next
    case False
    have "run_to Planning (flow_state (ae_settings env))
        (if token_budget t \<le> tokens_used t \<or> cb_planning (plan_budget (ae_settings env) t) \<le> 0
         then over (finish_run env BudgetExhausted) else plan_step env n lo)"
      by (intro to_if to_over to_limit plan) simp
    then show ?thesis
      unfolding if_not_P [OF False] run_to_def
      by (rule hoare_pre) (use False in \<open>auto simp: cancelled_meanwhile_def\<close>)
  qed
  then show ?thesis
    unfolding loop_iteration_def run_to_def
    by (intro hoare_then [OF refresh_planning [OF env]] hoare_with_task)
qed

lemma to_run_steps:
  assumes env: "orderly env"
  shows "run_to Planning (\<lambda>_. settled (ae_settings env)) (run_steps env ns lo)"
proof (induction ns arbitrary: lo)
  case Nil
  have "hoare (\<lambda>s. (in_phase Planning s \<or> cancelled_meanwhile s) \<and> ag_task s = t)
      (if status t = status_value Running then finish_run env MaxSteps else ret ())
      (\<lambda>_. settled (ae_settings env)) no_refusal" for t
  proof (cases "status t = status_value Running")
    case True
    show ?thesis
      unfolding if_P [OF True]
      by (rule hoare_pre [OF to_limit [unfolded run_to_def]]) (use True in \<open>auto simp: cancelled_meanwhile_def\<close>)
  next
    case False
    then show ?thesis
      unfolding if_not_P [OF False] by (intro hoare_ret) (auto simp: in_phase_def settled_def)
  qed
  then show ?case
    unfolding run_steps.simps run_to_def
    by (intro hoare_then [OF refresh_planning [OF env]] hoare_with_task)
next
  case (Cons n ns)
  have "hoare (flow_state (ae_settings env) fl)
      (case fl of Over \<Rightarrow> ret () | Next lo' \<Rightarrow> run_steps env ns lo')
      (\<lambda>_. settled (ae_settings env)) no_refusal" for fl
    using Cons.IH by (cases fl) (auto simp: run_to_def flow_state_def [abs_def] intro!: hoare_ret)
  then show ?case
    unfolding run_steps.simps run_to_def
    by (intro hoare_if Cons.IH [unfolded run_to_def] hoare_bind [OF to_iteration [OF env, unfolded run_to_def]])
qed

lemma to_prepare:
  assumes "st = Preparing \<or> st = Planning \<and> rubric t0 \<noteq> []"
  shows "hoare (\<lambda>s. in_phase st s \<and> ag_task s = t0) (prepare_rubric env) (\<lambda>_. in_phase Planning) no_refusal"
proof -
  have understand: "run_to Preparing (\<lambda>_. in_phase Understanding) (transition_to RubricRequired r None)" for r
    by (rule to_move) simp_all
  have ready: "run_to Understanding (\<lambda>_. in_phase Planning) (thenE (transition_to RubricReady r None) ag_commit)" for r
    by (intro to_after_then [OF to_move] to_stay stays_commit) simp_all
  have completed: "run_to Preparing (\<lambda>_. in_phase Planning) (thenE (transition_to PreparationCompleted r None) ag_commit)" for r
    by (intro to_after_then [OF to_move] to_stay stays_commit) simp_all
  have "run_to Preparing (\<lambda>_. in_phase Planning) (make_rubric env)"
    unfolding make_rubric_def
    by (intro to_with_task to_after_then [OF understand] to_then [OF stays_commit]
        to_bind [OF stays_outside] to_then [OF stays_on_task] ready)
      (simp add: record_model_use_def split: sum.split)
  then have make: "hoare (in_phase Preparing) (make_rubric env) (\<lambda>_. in_phase Planning) no_refusal"
    by (simp add: run_to_def)
  have "hoare (\<lambda>s. in_phase st s \<and> ag_task s = t0)
      (if rubric t0 = [] then make_rubric env
       else if loop_state t0 = state_value Preparing
       then thenE (transition_to PreparationCompleted ''runtime_prepared'' None) ag_commit else ret ())
      (\<lambda>_. in_phase Planning) no_refusal"
  proof (cases "st = Preparing")
    case True
    show ?thesis
      by (intro hoare_if hoare_pre [OF make] hoare_pre [OF completed [unfolded run_to_def]] hoare_ret)
        (auto simp: True in_phase_def)
  next
    case False
    then have "st = Planning" "rubric t0 \<noteq> []" using assms by auto
    then show ?thesis
      by (cases "loop_state t0 = state_value Preparing") (auto simp: hoare_def in_phase_def ret_def)
  qed
  then show ?thesis
    unfolding prepare_rubric_def
    by (auto simp: hoare_def with_task_def effect_defs)
qed

definition resumed_phase :: "settings \<Rightarrow> int option \<Rightarrow> 'w agent \<Rightarrow> bool" where
  "resumed_phase c nx s \<longleftrightarrow> (case nx of None \<Rightarrow> settled c s | Some n \<Rightarrow> in_phase Planning s)"

lemma to_resume:
  assumes env: "orderly env"
  shows "run_to Planning (resumed_phase (ae_settings env)) (resume_action env n)"
proof -
  have select: "run_to Planning (\<lambda>_. in_phase Acting) (transition_to ActionSelected r None)" for r
    by (rule to_move) simp_all
  have stop: "run_to Planning (resumed_phase (ae_settings env)) (thenE (finish_run env MaxSteps) (ret None))"
    unfolding run_to_def
    by (rule hoare_then [OF to_limit [unfolded run_to_def] hoare_ret]) (auto simp: resumed_phase_def)
  have run: "run_to Planning (resumed_phase (ae_settings env)) (run_approved env n tool args)" for tool args
    unfolding run_approved_def
    by (intro to_then [OF stays_on_task] to_after_then [OF select] to_bind stays_begin stays_run_tool env
        to_after_then [OF to_recorded] to_with_task to_if stop to_ret)
      (simp_all add: resumed_phase_def)
  have drop: "run_to Planning (resumed_phase (ae_settings env))
      (thenE (on_task (\<lambda>t. t\<lparr>pending_action := None\<rparr>)) (raise (PyRaise e)))" for e
    by (intro to_then stays_on_task to_raise) simp_all
  show ?thesis
    unfolding resume_action_def
    by (intro to_with_task)
      (auto intro!: run drop to_ret simp: resumed_phase_def split: option.split json.split)
qed

lemma to_run_loop:
  assumes env: "orderly env" and st: "st = Preparing \<or> st = Planning \<and> rubric t0 \<noteq> []"
  shows "hoare (\<lambda>s. in_phase st s \<and> ag_task s = t0) (run_loop env start)
     (\<lambda>_. settled (ae_settings env)) no_refusal"
proof -
  have rest: "hoare (resumed_phase (ae_settings env) nx)
      (case nx of None \<Rightarrow> ret () | Some n \<Rightarrow>
         bindE (gets (start_locals env r)) (\<lambda>lo. with_task (\<lambda>t. run_steps env [n..max_steps t] lo)))
      (\<lambda>_. settled (ae_settings env)) no_refusal" for nx r
  proof (cases nx)
    case None
    then show ?thesis by (auto intro!: hoare_ret simp: resumed_phase_def)
  next
    case (Some n)
    have "run_to Planning (\<lambda>_. settled (ae_settings env))
        (bindE (gets (start_locals env r)) (\<lambda>lo. with_task (\<lambda>t. run_steps env [n..max_steps t] lo)))"
      by (intro to_bind to_with_task stays_basic to_run_steps env)
    then show ?thesis
      unfolding Some option.case run_to_def by (rule hoare_pre) (simp add: resumed_phase_def)
  qed
  show ?thesis
    unfolding run_loop_def with_task_def [of "\<lambda>t0. thenE (prepare_rubric env) (g t0)" for g]
    by (intro hoare_bind [OF hoare_gets [where Q = "\<lambda>_ s. in_phase st s \<and> ag_task s = t0"]]
        hoare_then [OF to_prepare [OF st]] hoare_bind [OF to_resume [OF env, unfolded run_to_def]] rest) simp
qed

section \<open>How a run ends\<close>

text \<open>
  C9. A run ends in a settled task. In an orderly environment, from the phase a claim (or an
  answered question) leaves the task in, the policy refuses no transition of the loop, and when
  the loop returns the task is committed and stopped, waiting for the user, or completed on a
  verdict that reaches the acceptance score, with a receipt, a summary and a recorded finish,
  and by execution if the mode is strict; or it was cancelled. It is never left running.
\<close>

theorem run_settles:
  assumes "orderly env" "in_phase st s" "st = Preparing \<or> st = Planning \<and> rubric (ag_task s) \<noteq> []"
    and "run_loop env start s = (r, s')"
  shows "r \<noteq> Inl LoopError \<and>
    (r = Inr () \<longrightarrow>
       (committed s' \<and> (in_phase Stopped s' \<or> in_phase AwaitingInput s' \<or> in_phase AwaitingApproval s' \<or>
          in_phase Completed s' \<and> delivered (ae_settings env) s') \<or> cancelled_meanwhile s') \<and>
       status (ag_task s') \<noteq> status_value Running)"
proof -
  have "in_phase st s \<and> ag_task s = ag_task s" using assms(2) by simp
  note loop = hoareD [OF to_run_loop [OF assms(1,3)] this]
  show ?thesis
  proof (cases r)
    case (Inl e)
    then show ?thesis using loop(2) assms(4) by blast
  next
    case (Inr u)
    then have "settled (ae_settings env) s'" using loop(1) assms(4) by simp
    then show ?thesis
      using Inr by (auto simp: settled_def in_phase_def cancelled_meanwhile_def)
  qed
qed

lemma demo_orderly: "orderly demo_env"
  by (simp add: orderly_def demo_env_def ret_def)

theorem run_settles_witness:
  "fst (run_loop demo_env 1 demo_agent) \<noteq> Inl LoopError \<and> orderly demo_env \<and>
   in_phase Preparing demo_agent"
proof -
  have phase: "in_phase Preparing demo_agent"
    by (simp add: in_phase_def demo_agent_def demo_task_def)
  have st: "Preparing = Preparing \<or> Preparing = Planning \<and> rubric (ag_task demo_agent) \<noteq> []" by simp
  from run_settles [OF demo_orderly phase st prod.collapse [symmetric]] show ?thesis
    using demo_orderly phase by blast
qed

end
