(* ===== verification/Agent_Admission.thy ===== *)
theory Agent_Admission
  imports Agent_Run Contract_Safety Agent_States
begin

text \<open>
  What the admission of a run establishes: which capabilities a loop can start with, under which
  isolation, with which contract, and which authority its gateways are given; and that a run
  interrupted inside an operation is refused without doing anything.
\<close>

section \<open>Rules\<close>

lemma on_agent_Inr [simp]:
  "on_agent m s = (Inr a, v) \<longleftrightarrow> (\<exists>b. m (rn_agent s) = (Inr a, b) \<and> v = s\<lparr>rn_agent := b\<rparr>)"
  by (auto simp: on_agent_def split: prod.split)

lemma bindO_Some [simp]:
  "bindO m f s = (Inr (Some b), v) \<longleftrightarrow> (\<exists>a u. m s = (Inr (Some a), u) \<and> f a u = (Inr (Some b), v))"
  by (force simp: bindO_def split: option.splits)

lemma turn_away_not_Some [simp]: "turn_away env rs r s \<noteq> (Inr (Some x), v)"
  by (auto simp: turn_away_def)

lemma gate_Some [simp]: "gate env r s = (Inr (Some u), v) \<longleftrightarrow> r = None \<and> v = s"
  by (auto simp: gate_def split: option.splits)

lemma py_ok_Inr [simp]: "py_ok r s = (Inr a, v) \<longleftrightarrow> r = Inr a \<and> v = s"
  by (cases r) (auto simp: py_ok_def effect_defs)

lemma on_task_Inr [simp]: "on_task f s = (Inr a, v) \<longleftrightarrow> v = s\<lparr>ag_task := f (ag_task s)\<rparr>"
  by (auto simp: on_task_def effect_defs)

section \<open>Admission step by step\<close>

text \<open>The skill a run works under, if the row names one, is a signed one.\<close>

definition skill_loaded :: "('w, 'k, 'p) run_env \<Rightarrow> 'w agent \<Rightarrow> skill_manifest option \<Rightarrow> bool" where
  "skill_loaded env a sk \<longleftrightarrow>
     (if nonempty_opt (skill (ag_task a))
      then sk \<noteq> None \<and>
        load_skill (ae_crypto (re_agent env)) (ae_hosts (re_agent env))
          (trust_key (ae_crypto (re_agent env)) (re_trust_pem env)) (re_skills env (ag_world a))
          (the (skill (ag_task a))) = Inr sk
      else sk = None)"

lemma admit_skill_Some:
  assumes "admit_skill env s = (Inr (Some sk), s')"
  shows "s' = s \<and> skill_loaded env (rn_agent s) sk"
  using assms
  by (auto simp: admit_skill_def skill_loaded_def split: if_splits option.splits)

lemma admit_authority_Some:
  assumes "admit_authority env sk s = (Inr (Some (caps, hosts)), s')"
  shows "resolve_capabilities sk (ag_task (rn_agent s)) = Inr caps"
    and "resolve_hosts (ae_hosts (re_agent env)) sk (ag_task (rn_agent s)) = Inr hosts"
    and "s' = s\<lparr>rn_agent := (rn_agent s)\<lparr>ag_task := (ag_task (rn_agent s))\<lparr>task_egress_hosts := Some hosts,
           resolved_capabilities := sorted_capabilities caps\<rparr>\<rparr>\<rparr>"
  using assms
  by (cases "resolve_hosts (ae_hosts (re_agent env)) sk (ag_task (rn_agent s))";
      auto simp: admit_authority_def)+

text \<open>The part of a row that admission has fixed, which preparing the contract leaves alone.\<close>

definition same_grant :: "task \<Rightarrow> task \<Rightarrow> bool" where
  "same_grant t u \<longleftrightarrow>
     task_egress_hosts t = task_egress_hosts u \<and> resolved_capabilities t = resolved_capabilities u \<and>
     project_base_commit t = project_base_commit u"

definition contract_bound :: "task \<Rightarrow> bool" where
  "contract_bound t \<longleftrightarrow>
     contract_status t = ''locked'' \<and> verification_mode t = ''strict'' \<and>
     (\<exists>d. contract_hash t = Some (hash_contract d) \<and> rubric t = cp_criteria (dr_proposal d) \<and>
        required_checks t = map stored_check (cp_checks (dr_proposal d)))"

lemma same_grant_simps [simp]:
  "same_grant t t" "same_grant (moved t tgt r fr) u = same_grant t u"
  "same_grant (apply_locked_contract d t) u = same_grant t u"
  "same_grant (store_contract d h t) u = same_grant t u"
  "same_grant (t\<lparr>contract_status := x\<rparr>) u = same_grant t u"
  "same_grant (t\<lparr>tokens_used := k\<rparr>) u = same_grant t u"
  "same_grant (t\<lparr>contract_status := x, criteria_source := y, pending_question := q\<rparr>) u = same_grant t u"
  by (simp_all add: same_grant_def moved_def apply_locked_contract_def store_contract_def)

lemma transition_to_Inr:
  "transition_to ev reason sr a = (Inr x, a') \<Longrightarrow> \<exists>tgt r fr. a' = a\<lparr>ag_task := moved (ag_task a) tgt r fr\<rparr>"
  by (auto simp: transition_to_def apply_event_ok_iff split: sum.splits prod.splits)

lemma reuse_True:
  assumes "reuse_contract env cenv t a = (Inr True, a')" "contract_status t = ''locked''" "ag_task a = t"
  shows "contract_bound (ag_task a') \<and> same_grant (ag_task a') t"
  using assms
  by (auto simp: reuse_contract_def contract_intact_def contract_bound_def apply_locked_contract_def same_grant_def
      split: option.splits if_splits)

lemma bound_by:
  "\<exists>e. hash_contract d = hash_contract e \<and> cp_criteria (dr_proposal d) = cp_criteria (dr_proposal e) \<and>
     map stored_check (cp_checks (dr_proposal d)) = map stored_check (cp_checks (dr_proposal e))"
  by blast

lemma user_True:
  assumes "lock_user_contract cenv t a = (Inr True, a')" "ag_task a = t"
  shows "contract_bound (ag_task a') \<and> same_grant (ag_task a') t"
proof -
  from assms obtain d h where "lock_user_project_contract cenv (ag_ws a) (rubric t) (required_checks t) = Inr (d, h)"
    and a': "ag_task a' = apply_locked_contract d ((store_contract d (Some h) t)\<lparr>contract_status := ''locked''\<rparr>)"
    by (auto simp: lock_user_contract_def ag_commit_def)
  then have "h = hash_contract d"
    by (auto simp: lock_user_project_contract_def rbind_Inr Let_def)
  then show ?thesis
    unfolding a' using bound_by [of d] by (simp add: contract_bound_def apply_locked_contract_def store_contract_def same_grant_def)
qed

lemma compiled_True:
  assumes "contract_compiled c a = (Inr True, a')" "\<And>h. kc_hash c = Some h \<Longrightarrow> h = hash_contract (kc_draft c)"
  shows "contract_bound (ag_task a') \<and> same_grant (ag_task a') (ag_task a)"
proof -
  from assms(1) obtain h where h: "kc_hash c = Some h"
    by (auto simp: contract_compiled_def ask_contract_def split: if_splits)
  let ?t = "apply_locked_contract (kc_draft c) ((store_contract (kc_draft c) (Some h)
      ((ag_task a)\<lparr>tokens_used := tokens_used (ag_task a) + kc_tokens c\<rparr>))
      \<lparr>contract_status := ''locked'', criteria_source := ''compiled'', pending_question := None\<rparr>)"
  from assms(1) obtain reason x b where
    "transition_to ContractReady reason None (a\<lparr>ag_task := ?t\<rparr>) = (Inr x, b)" "ag_task a' = ag_task b"
    by (auto simp: contract_compiled_def h ag_commit_def)
  then obtain tgt r fr where a': "ag_task a' = moved ?t tgt r fr" using transition_to_Inr by fastforce
  show ?thesis
    unfolding a' using assms(2) [OF h] bound_by [of "kc_draft c"]
    by (simp add: contract_bound_def moved_def apply_locked_contract_def store_contract_def same_grant_def)
qed

lemma compile_True:
  assumes "keeps_typed (ce_coercions cenv)" "compile_contract env cenv caps t a = (Inr True, a')" "ag_task a = t"
  shows "contract_bound (ag_task a') \<and> same_grant (ag_task a') t"
proof -
  from assms(2) obtain x b clar criteria outcome u where
    started: "transition_to ContractRequired ''contract_compilation_started'' None a = (Inr x, b)"
    and asked: "outside (compile_project_contract cenv (ag_ws b)
        (compile_request caps t criteria clar (cb_planning (plan_budget (ae_settings env) t))))
        (b\<lparr>ag_saved := (ag_task b, ag_log b)\<rparr>) = (Inr outcome, u)"
    and rest: "(case outcome of Inl (CallFailed f) \<Rightarrow> contract_uncompiled cenv f clar
        | Inl (Raised e) \<Rightarrow> raise (PyRaise e) | Inr c \<Rightarrow> contract_compiled c) u = (Inr True, a')"
    by (auto simp: compile_contract_def ag_commit_def)
  obtain w where run: "compile_project_contract cenv (ag_ws b)
        (compile_request caps t criteria clar (cb_planning (plan_budget (ae_settings env) t))) (ag_world b) = (outcome, w)"
    and u: "u = b\<lparr>ag_saved := (ag_task b, ag_log b), ag_world := w\<rparr>"
    using asked by (auto simp: outside_def split: prod.splits)
  have "same_grant (ag_task b) t" using transition_to_Inr [OF started] assms(3) by auto
  moreover obtain c where c: "outcome = Inr c"
    using rest by (auto simp: contract_uncompiled_def ask_contract_def with_task_def split: sum.splits contract_exc.splits)
  have "h = hash_contract (kc_draft c)" if "kc_hash c = Some h" for h
    using locked_cases [OF assms(1) run [unfolded c] that] by blast
  with rest c have "contract_bound (ag_task a') \<and> same_grant (ag_task a') (ag_task b)"
    using compiled_True [of c u a'] by (simp add: u)
  ultimately show ?thesis by (simp add: same_grant_def)
qed

lemma prepare_contract_True:
  assumes "keeps_typed (ce_coercions cenv)" "prepare_project_contract env cenv caps a = (Inr True, a')"
  shows "contract_bound (ag_task a') \<and> same_grant (ag_task a') (ag_task a)"
  using assms reuse_True [of env cenv "ag_task a" a a'] user_True [of cenv "ag_task a" a a']
    compile_True [of cenv env caps "ag_task a" a a']
  by (auto simp: prepare_project_contract_def with_task_def split: if_splits)

lemma set_workspace_path_Inr [simp]:
  "set_workspace_path a = (Inr u, b) \<longleftrightarrow> b = a\<lparr>ag_task := (ag_task a)\<lparr>workspace_path := Some (ws_root (ag_ws a))\<rparr>\<rparr>"
  by (simp add: set_workspace_path_def)

lemma same_grant_trans: "same_grant t u \<Longrightarrow> same_grant u v \<Longrightarrow> same_grant t v"
  by (simp add: same_grant_def)

lemma grant_of_path [simp]:
  "same_grant t (u\<lparr>workspace_path := p\<rparr>) = same_grant t u" "same_grant t (u\<lparr>sandbox := b\<rparr>) = same_grant t u"
  "same_grant (u\<lparr>sandbox := b\<rparr>) t = same_grant u t" "contract_bound (u\<lparr>sandbox := b\<rparr>) = contract_bound u"
  by (simp_all add: same_grant_def contract_bound_def)

lemma admit_contract_Some:
  assumes "keeps_typed (ce_coercions (re_contract env))" "admit_contract env caps s = (Inr (Some u), s')"
  shows "same_grant (ag_task (rn_agent s')) (ag_task (rn_agent s))"
    and "nonempty_opt (project_base_commit (ag_task (rn_agent s))) \<Longrightarrow> contract_bound (ag_task (rn_agent s'))"
  using assms
  by (auto simp: admit_contract_def split: if_splits dest!: prepare_contract_True [OF assms(1)])

lemma provider_admission_Some:
  "provider_admission env caps s = (Inr (Some ph), s') \<Longrightarrow>
     s' = s \<and> provider_gate (re_settings env) (ae_hosts (re_agent env)) caps = Inr ph"
  by (auto simp: provider_admission_def split: sum.splits)

lemma admit_sandbox_Some:
  assumes "admit_sandbox env s = (Inr (Some sx), s')"
  shows "ag_task (rn_agent s') = (ag_task (rn_agent s))\<lparr>sandbox := Some (sx_label sx)\<rparr>"
    and "resolve_sandbox (re_settings env) (re_in_cluster env (ag_world (rn_agent s)))
           (re_image_present env (ag_world (rn_agent s))) = Inr sx"
  using assms
  by (cases "resolve_sandbox (re_settings env) (re_in_cluster env (ag_world (rn_agent s)))
       (re_image_present env (ag_world (rn_agent s)))"; auto simp: admit_sandbox_def)+

section \<open>The whole admission\<close>

text \<open>The authority a clearance may hold, and the conditions it was given under.\<close>

definition within_request :: "('w, 'k, 'p) run_env \<Rightarrow> 'w agent \<Rightarrow> clearance \<Rightarrow> bool" where
  "within_request env a cl \<longleftrightarrow>
     skill_loaded env a (cl_skill cl) \<and>
     (\<exists>requested. requested_by (ag_task a) = Inr requested \<and> cl_capabilities cl \<subseteq> requested) \<and>
     (\<forall>m. cl_skill cl = Some m \<longrightarrow> (\<exists>limit. skill_ceiling m = Inr limit \<and> cl_capabilities cl \<subseteq> limit)) \<and>
     resolve_hosts (ae_hosts (re_agent env)) (cl_skill cl) (ag_task a) = Inr (cl_hosts cl)"

definition isolated :: "('w, 'k, 'p) run_env \<Rightarrow> clearance \<Rightarrow> bool" where
  "isolated env cl \<longleftrightarrow>
     (NetShell \<in> cl_capabilities cl \<longrightarrow> shell_isolated (re_settings env) (sx_label (cl_sandbox cl))) \<and>
     (needs_token (re_settings env) (cl_capabilities cl) \<longrightarrow>
        nonempty_opt (authority_signing_key_pem (ae_read_text (re_agent env)) (re_settings env))) \<and>
     (agent_require_egress_hosts (re_settings env) \<and> meets (cl_capabilities cl) destination_group \<longrightarrow>
        clean_hosts (Some (cl_hosts cl)) \<noteq> {})"

lemma resolve_within:
  assumes "resolve_capabilities sk t = Inr caps"
  shows "\<exists>requested. requested_by t = Inr requested \<and> caps \<subseteq> requested"
    and "sk = Some m \<Longrightarrow> \<exists>limit. skill_ceiling m = Inr limit \<and> caps \<subseteq> limit"
  using assms by (auto simp: resolve_capabilities_def rbind_Inr split: option.splits)

lemma isolation_passed:
  assumes "isolation_refusal c rd caps label = None"
  shows "NetShell \<in> caps \<Longrightarrow> shell_isolated c label"
    and "needs_token c caps \<Longrightarrow> nonempty_opt (authority_signing_key_pem rd c)"
  using assms by (auto simp: isolation_refusal_def split: if_splits)

lemma availability_passed:
  assumes "availability_refusal c caps hosts = None"
  shows "agent_require_egress_hosts c \<Longrightarrow> meets caps destination_group \<Longrightarrow> clean_hosts (Some hosts) \<noteq> {}"
    and "unavailable_host_mcp c caps = []" "unavailable_gateways c caps = []"
  using assms by (auto simp: availability_refusal_def split: if_splits)

lemma clearance_granted:
  assumes typed: "keeps_typed (ce_coercions (re_contract env))"
    and cleared: "clear_run env s = (Inr (Some cl), s')"
  shows "within_request env (rn_agent s) cl" "isolated env cl"
    and "resolved_capabilities (ag_task (rn_agent s')) = sorted_capabilities (cl_capabilities cl)"
    and "task_egress_hosts (ag_task (rn_agent s')) = Some (cl_hosts cl)"
    and "nonempty_opt (project_base_commit (ag_task (rn_agent s))) \<Longrightarrow> contract_bound (ag_task (rn_agent s'))"
    and "availability_refusal (re_settings env) (cl_capabilities cl) (cl_hosts cl) = None"
proof -
  from cleared obtain sk caps hosts ph sx s1 s2 s3 s4 where
    sk: "admit_skill env s = (Inr (Some sk), s1)" and
    auth: "admit_authority env sk s1 = (Inr (Some (caps, hosts)), s2)" and
    contract: "admit_contract env caps s2 = (Inr (Some ()), s3)" and
    avail: "availability_refusal (re_settings env) caps hosts = None" and
    ph: "provider_admission env caps s3 = (Inr (Some ph), s4)" and
    sx: "admit_sandbox env s4 = (Inr (Some sx), s')" and
    iso: "isolation_refusal (re_settings env) (ae_read_text (re_agent env)) caps (sx_label sx) = None" and
    cl: "cl_skill cl = sk" "cl_capabilities cl = caps" "cl_hosts cl = hosts" "cl_sandbox cl = sx"
    by (auto simp: clear_run_def)
  note s1 = admit_skill_Some [OF sk] and s2 = admit_authority_Some [OF auth]
    and s3 = admit_contract_Some [OF typed contract] and s4 = provider_admission_Some [OF ph]
    and s' = admit_sandbox_Some [OF sx]
  show "within_request env (rn_agent s) cl"
    using s1 s2(1,2) resolve_within [OF s2(1)] by (auto simp: within_request_def cl)
  show "isolated env cl"
    using isolation_passed [OF iso] availability_passed(1) [OF avail] by (auto simp: isolated_def cl)
  show "resolved_capabilities (ag_task (rn_agent s')) = sorted_capabilities (cl_capabilities cl)"
    "task_egress_hosts (ag_task (rn_agent s')) = Some (cl_hosts cl)"
    using s3(1) s4 by (simp_all add: s' s2(3) same_grant_def cl)
  show "contract_bound (ag_task (rn_agent s'))" if "nonempty_opt (project_base_commit (ag_task (rn_agent s)))"
    using s3(2) s4 s1 that by (simp add: s' s2(3))
  show "availability_refusal (re_settings env) (cl_capabilities cl) (cl_hosts cl) = None"
    using avail by (simp add: cl)
qed

section \<open>Starting the providers\<close>

text \<open>Starting providers changes the outside world and the service object, never the row.\<close>

definition same_row :: "'w run \<Rightarrow> 'w run \<Rightarrow> bool" where
  "same_row s s' \<longleftrightarrow> ag_task (rn_agent s') = ag_task (rn_agent s) \<and> ag_log (rn_agent s') = ag_log (rn_agent s)"

lemma outside_Inr [simp]:
  "outside f a = (Inr x, b) \<longleftrightarrow> (\<exists>w. f (ag_world a) = (x, w) \<and> b = a\<lparr>ag_world := w\<rparr>)"
  by (auto simp: outside_def split: prod.split)

lemma start_gateway_Some:
  assumes "start_gateway env cl s = (Inr (Some g), s')"
  shows "same_row s s'" "g = None \<longleftrightarrow> gateway_grants (re_settings env) (cl_capabilities cl) = {}"
  using assms
  by ((clarsimp simp: start_gateway_def Let_def register_client_def split: if_split_asm)?;
      auto simp: register_resource_def same_row_def Let_def split: sum.split_asm if_split_asm)+

lemma start_browser_Some:
  assumes "start_browser env caps gateway s = (Inr (Some b), s')"
  shows "same_row s s'" "b = None \<longleftrightarrow> NetBrowser \<in> gateway_grants (re_settings env) caps \<or> NetBrowser \<notin> caps"
  using assms
  by ((clarsimp simp: start_browser_def split: if_split_asm)?;
      auto simp: same_row_def register_resource_def split: option.split_asm if_split_asm)+

lemma local_tools_Some:
  assumes "local_tools env rs caps grp configured src r s = (Inr (Some b), s')"
  shows "s' = s \<and> (b = None \<longleftrightarrow> meets (gateway_grants (re_settings env) caps) grp \<or> \<not> meets caps grp)"
  using assms by (auto simp: local_tools_def split: if_splits)

lemma start_host_mcp_Some:
  assumes "start_host_mcp env rs caps s = (Inr (Some b), s')"
  shows "same_row s s'" "b = None \<longleftrightarrow> \<not> meets caps host_mcp_group"
  using assms
  by ((clarsimp simp: start_host_mcp_def split: if_split_asm)?;
      auto simp: same_row_def register_resource_def split: sum.split_asm)+

text \<open>The providers that run in this process or on the host, and when they are needed.\<close>

definition placed_on_host :: "'w launch \<Rightarrow> bool" where
  "placed_on_host la \<longleftrightarrow>
     la_browser la \<noteq> None \<or> la_email la \<noteq> None \<or> la_calendar la \<noteq> None \<or> la_vision la \<noteq> None \<or>
     la_host_mcp la \<noteq> None"

lemma launch_run_Some:
  assumes "launch_run env cl s = (Inr (Some la), s')"
  defines "caps \<equiv> cl_capabilities cl" and "granted \<equiv> gateway_grants (re_settings env) (cl_capabilities cl)"
  shows "same_row s s'" "la_clearance la = cl" "la_gateway la = None \<longleftrightarrow> granted = {}"
    and "placed_on_host la \<longleftrightarrow> NetBrowser \<in> caps - granted \<or>
      (\<exists>grp\<in>{email_group, calendar_group, {Vision}}. meets caps grp \<and> \<not> meets granted grp) \<or>
      meets caps host_mcp_group"
proof -
  from assms(1) obtain g b e c v m rs s1 s2 s3 where
    audit: "start_audit env caps s = (Inr (), s1)" and
    g: "start_gateway env cl s1 = (Inr (Some g), s2)" and
    b: "start_browser env caps g s2 = (Inr (Some b), s3)" and
    local: "e = None \<longleftrightarrow> meets granted email_group \<or> \<not> meets caps email_group"
      "c = None \<longleftrightarrow> meets granted calendar_group \<or> \<not> meets caps calendar_group"
      "v = None \<longleftrightarrow> meets granted {Vision} \<or> \<not> meets caps {Vision}" and
    m: "start_host_mcp env rs caps s3 = (Inr (Some m), s')" and
    la: "la = \<lparr>la_clearance = cl, la_gateway = g, la_browser = b, la_email = e, la_calendar = c, la_vision = v,
      la_host_mcp = m\<rparr>"
    unfolding launch_run_def Let_def caps_def granted_def
    by (clarsimp simp del: not_None_eq dest!: local_tools_Some)
  have "same_row s s1"
    using audit by (auto simp: start_audit_def whenM_def register_client_def same_row_def split: if_splits)
  then show "same_row s s'"
    using start_gateway_Some(1) [OF g] start_browser_Some(1) [OF b] start_host_mcp_Some(1) [OF m]
    by (simp add: same_row_def)
  show "la_clearance la = cl" "la_gateway la = None \<longleftrightarrow> granted = {}"
    using start_gateway_Some(2) [OF g] by (simp_all add: la granted_def)
  show "placed_on_host la \<longleftrightarrow> NetBrowser \<in> caps - granted \<or>
      (\<exists>grp\<in>{email_group, calendar_group, {Vision}}. meets caps grp \<and> \<not> meets granted grp) \<or>
      meets caps host_mcp_group"
    using start_browser_Some(2) [OF b] local start_host_mcp_Some(2) [OF m]
    unfolding placed_on_host_def la granted_def caps_def by auto
qed

text \<open>Without host providers every such capability is covered by a gateway.\<close>

lemma meets_gateway:
  assumes "\<not> gateway_unset c caps grp url" "\<not> agent_allow_host_providers c" "meets caps grp"
  shows "nonempty_opt url \<or> nonempty_opt (agent_provider_gateway_url c)"
  using assms by (auto simp: gateway_unset_def)

lemma gateways_cover:
  assumes "availability_refusal c caps hosts = None" "\<not> agent_allow_host_providers c"
  shows "caps \<inter> (protocol_group \<union> {NetBrowser}) \<subseteq> gateway_grants c caps" "\<not> meets caps host_mcp_group"
proof -
  note passed = availability_passed(2,3) [OF assms(1)]
  show "\<not> meets caps host_mcp_group"
    using passed(1) assms(2) by (auto simp: unavailable_host_mcp_def meets_def host_mcp_group_def split: if_splits)
  have unset: "\<not> gateway_unset c caps email_group (agent_email_gateway_url c)"
    "\<not> gateway_unset c caps calendar_group (agent_calendar_gateway_url c)"
    "\<not> gateway_unset c caps {Vision} (agent_vision_gateway_url c)"
    "NetBrowser \<in> caps \<Longrightarrow> nonempty_opt (agent_browser_gateway_url c)"
    using passed(2) assms(2) by (auto simp: unavailable_gateways_def split: if_splits)
  note url = unset(1-3) [THEN meets_gateway, OF assms(2)]
  show "caps \<inter> (protocol_group \<union> {NetBrowser}) \<subseteq> gateway_grants c caps"
  proof
    fix x assume x: "x \<in> caps \<inter> (protocol_group \<union> {NetBrowser})"
    then consider "x \<in> email_group" | "x \<in> calendar_group" | "x = Vision" | "x = NetBrowser"
      by (auto simp: protocol_group_def)
    then show "x \<in> gateway_grants c caps"
      using x url unset(4) by cases (auto simp: gateway_grants_def meets_def protocol_group_def)
  qed
qed

section \<open>What a launched run may do\<close>


text \<open>A task that may use the shell's network, on a host with the sandbox image and a proxy.\<close>

definition proxied_settings :: settings where
  "proxied_settings =
     default_settings\<lparr>agent_allow_host_providers := False, agent_egress_proxy_url := Some ''http://proxy'',
       agent_egress_proxy_audit_url := Some ''http://audit'', agent_authority_signing_key := Some ''pem''\<rparr>"

definition no_tools :: "nat tool_source" where
  "no_tools =
     \<lparr>ts_provider = \<lparr>pv_tools = [], pv_capability = (\<lambda>_. None), pv_call = (\<lambda>_ _ x. (Inl ''none'', x))\<rparr>,
      ts_specs = (\<lambda>_. [])\<rparr>"

definition fixed_jwt :: "(unit, unit, string) token_lib" where
  "fixed_jwt =
     \<lparr>tl_encode = (\<lambda>_ _ _. ''token''), tl_header = (\<lambda>_. None), tl_decode = (\<lambda>_ _ _ _. None), tl_datetime = Inr\<rparr>"

definition demo_run_env :: "(nat, unit, unit) run_env" where
  "demo_run_env =
     \<lparr>re_agent = demo_env\<lparr>ae_settings := proxied_settings\<rparr>, re_contract = sample_contract_env, re_trust_pem = None,
      re_skills = (\<lambda>_. Some []), re_in_cluster = (\<lambda>_. False), re_image_present = (\<lambda>_ _. True),
      re_email_on = False, re_calendar_on = False, re_vision_on = False,
      re_start_gateway = (\<lambda>_ n. (Inl ''down'', n)), re_start_browser = (\<lambda>n. (None, n)),
      re_start_host_mcp = (\<lambda>_ n. (Inl ''down'', n)),
      re_email_tools = no_tools,
      re_calendar_tools = no_tools,
      re_vision_tools = no_tools,
      re_stop = (\<lambda>_ n. n), re_revoke = (\<lambda>_ n. (Inr [], n)), re_drain = (\<lambda>n. ([], n)),
      re_fetch = (\<lambda>n. (Inr [], n)), re_memory_root = [], re_memory = (\<lambda>_ _. \<lparr>ms_main = None, ms_topics = []\<rparr>), re_rows = (\<lambda>_. []),
      re_jwt = fixed_jwt, re_clock = (\<lambda>_. 0), re_token_id = (\<lambda>_. ''j''),
      re_spawn = (\<lambda>_ _ ws x. (\<lparr>observation = ''done'', result_status = OkStatus\<rparr>, ws, x)),
      re_checks = (\<lambda>_ _ _ _ n. (\<lambda>_. \<lparr>ce_run = (\<lambda>_. \<lparr>observation = [], result_status = OkStatus\<rparr>),
        ce_is_file = (\<lambda>_. Inr False), ce_read = (\<lambda>_. Inr [])\<rparr>, n))\<rparr>"

definition shell_task :: task where
  "shell_task =
     (fresh_task ''t'')\<lparr>loop_state := state_value Preparing, status := status_value Running,
       rubric := [''The page is saved''], max_steps := 3, token_budget := 100000,
       requested_capabilities := Some [''fs.read'', ''net.shell''], task_egress_hosts := Some [''example.com'']\<rparr>"

definition demo_run :: "nat run" where
  "demo_run = fresh_run shell_task [] \<lparr>ws_root = ''/w'', ws_files = [], ws_dirs = [''/w''], ws_real = (\<lambda>p. p)\<rparr> 0"

lemma demo_launch:
  "case bindO (clear_run demo_run_env) (launch_run demo_run_env) demo_run of
     (Inr (Some la), _) \<Rightarrow> cl_capabilities (la_clearance la) = {FsRead, NetShell}
   | _ \<Rightarrow> False"
  by code_simp


end
