(* ===== verification/Agent_Closing.thy ===== *)
theory Agent_Closing
  imports Agent_Admission
begin

text \<open>
  How a run is left: whatever admission, the loop or an exception of the loop decide, a run that
  returns does not leave its task running, the authority its services held is revoked when the
  task is finished, and what it started is stopped. An exception before the loop escapes; it is
  the case the theorem excludes by its hypothesis that the run returns.
\<close>

section \<open>Rules\<close>

text \<open>Nothing is said of a run that raises.\<close>

abbreviation returns :: "('s \<Rightarrow> bool) \<Rightarrow> ('s, 'a) act \<Rightarrow> ('a \<Rightarrow> 's \<Rightarrow> bool) \<Rightarrow> bool" where
  "returns P m Q \<equiv> hoare P m Q (\<lambda>_ _. True)"

lemma returnsI: "(\<And>s a s'. P s \<Longrightarrow> m s = (Inr a, s') \<Longrightarrow> Q a s') \<Longrightarrow> returns P m Q"
  by (rule hoareI) auto

lemma returnsD: "returns P m Q \<Longrightarrow> P s \<Longrightarrow> m s = (Inr a, s') \<Longrightarrow> Q a s'"
  by (rule hoareD(1))

lemma returns_hoare: "hoare P m Q E \<Longrightarrow> returns P m Q"
  by (erule hoare_weaken) auto

lemma returns_on_agent:
  "returns P m Q \<Longrightarrow> returns (\<lambda>s. P (rn_agent s)) (on_agent m) (\<lambda>a s. Q a (rn_agent s))"
  by (rule returnsI) (auto dest: returnsD)

lemma stable_returns: "stable P m \<Longrightarrow> returns P m (\<lambda>_. P)"
  by (rule returnsI) (erule stableD)

lemma returns_bindO:
  assumes "returns P m (\<lambda>r s. case r of None \<Rightarrow> N s | Some a \<Rightarrow> R a s)"
    and "\<And>a. returns (R a) (f a) (\<lambda>r s. case r of None \<Rightarrow> N s | Some b \<Rightarrow> Q b s)"
  shows "returns P (bindO m f) (\<lambda>r s. case r of None \<Rightarrow> N s | Some b \<Rightarrow> Q b s)"
  unfolding bindO_def
proof (rule hoare_bind [OF assms(1)])
  fix a
  show "returns (\<lambda>s. case a of None \<Rightarrow> N s | Some a \<Rightarrow> R a s) (case a of None \<Rightarrow> ret None | Some a \<Rightarrow> f a)
      (\<lambda>r s. case r of None \<Rightarrow> N s | Some b \<Rightarrow> Q b s)"
    using assms(2) by (cases a) (auto intro: hoare_ret)
qed

section \<open>Phases\<close>

definition phase_of :: "task \<Rightarrow> string \<times> string \<times> string list" where
  "phase_of t = (loop_state t, status t, rubric t)"

text \<open>Operations that change neither the state of the task nor its rubric.\<close>

definition calm :: "('w, 'a) agent_act \<Rightarrow> bool" where
  "calm m \<longleftrightarrow> (\<forall>v. stable (\<lambda>s. phase_of (ag_task s) = v) m)"

lemma calmI: "(\<And>s r s'. m s = (r, s') \<Longrightarrow> phase_of (ag_task s') = phase_of (ag_task s)) \<Longrightarrow> calm m"
  unfolding calm_def by (intro allI stableI) auto

lemma calmD: "calm m \<Longrightarrow> m s = (r, s') \<Longrightarrow> phase_of (ag_task s') = phase_of (ag_task s)"
  unfolding calm_def by (drule spec, erule stableD) auto

lemma calm_bind: "calm m \<Longrightarrow> (\<And>a. calm (f a)) \<Longrightarrow> calm (bindE m f)"
  unfolding calm_def by (blast intro: stable_bind)

lemma calm_then: "calm m \<Longrightarrow> calm n \<Longrightarrow> calm (thenE m n)"
  unfolding thenE_def by (rule calm_bind)

lemma calm_if: "(b \<Longrightarrow> calm m) \<Longrightarrow> (\<not> b \<Longrightarrow> calm n) \<Longrightarrow> calm (if b then m else n)"
  by simp

lemma calm_basic: "calm (ret a)" "calm (raise e)" "calm (gets f)" "calm (py_ok r)"
  by (auto intro!: calmI simp: effect_defs py_ok_def split: sum.splits)

lemma calm_with_task: "(\<And>t. calm (f t)) \<Longrightarrow> calm (with_task f)"
  unfolding with_task_def by (intro calm_bind calm_basic)

lemma calm_modify: "(\<And>s. phase_of (ag_task (f s)) = phase_of (ag_task s)) \<Longrightarrow> calm (modify f)"
  by (rule calmI) (auto simp: effect_defs)

lemma calm_on_task: "(\<And>t. phase_of (f t) = phase_of t) \<Longrightarrow> calm (on_task f)"
  unfolding on_task_def by (rule calm_modify) simp

lemma calm_commit: "calm ag_commit"
  unfolding ag_commit_def by (rule calm_modify) simp

lemma calm_outside: "calm (outside f)"
  by (rule calmI) (auto simp: outside_def split: prod.splits)

lemma calm_receipt: "calm (ensure_unverified_receipt env)"
  by (rule calmI)
    (auto simp: ensure_unverified_receipt_def make_receipt_def set_receipt_def phase_of_def on_task_def effect_defs
      split: if_splits sum.splits prod.splits ws_exc.splits)

lemma calm_rebuild: "calm rebuild_history"
  by (rule calmI) (auto simp: rebuild_history_def split: option.splits)

lemma calm_workspace: "calm set_workspace_path"
  by (rule calmI) (auto simp: set_workspace_path_def on_task_def effect_defs phase_of_def)

lemma calm_checks: "calm (run_completion_checks env cs)"
  unfolding run_completion_checks_def
  by (intro calm_with_task calm_bind calm_basic calm_outside)

lemmas calm_rules = calm_bind calm_then calm_if calm_basic calm_with_task calm_commit calm_outside
  calm_receipt calm_rebuild calm_workspace calm_checks

definition ready :: "'w agent \<Rightarrow> bool" where
  "ready s \<longleftrightarrow> in_phase Preparing s \<or> in_phase Planning s \<and> rubric (ag_task s) \<noteq> []"

definition at_rest :: "'w agent \<Rightarrow> bool" where
  "at_rest s \<longleftrightarrow> status (ag_task s) \<noteq> status_value Running"

lemma calm_keeps:
  assumes "calm m"
  shows "returns ready m (\<lambda>_. ready)" "returns at_rest m (\<lambda>_. at_rest)" "returns (in_phase st) m (\<lambda>_. in_phase st)"
  by (rule returnsI; drule calmD [OF assms]; auto simp: ready_def at_rest_def in_phase_def phase_of_def)+

lemma rule_fail: "rule st Fail = Some st' \<Longrightarrow> st' = Failed"
  by (cases st) (simp_all add: rule_eq_spec rule_spec_def base_rules_def active_def working_def)

lemma fail_task_rests: "returns (\<lambda>_. True) (fail_task msg reason) (\<lambda>_. at_rest)"
proof (rule returnsI)
  fix s a and s' :: "'a agent" assume "fail_task msg reason s = (Inr a, s')"
  then show "at_rest s'"
    by (auto simp: fail_task_def transition_to_def apply_event_ok_iff at_rest_def moved_def
        dest!: rule_fail split: sum.splits prod.splits)
qed

lemma at_rest_then: "returns P m (\<lambda>_. at_rest) \<Longrightarrow> calm n \<Longrightarrow> returns P (thenE m n) (\<lambda>_. at_rest)"
  by (rule hoare_then) (auto dest: calm_keeps(2))

lemma refuse_rests: "returns (\<lambda>_. True) (refuse env r) (\<lambda>_. at_rest)"
  unfolding refuse_def seqE.simps
  by (intro at_rest_then [OF fail_task_rests] calm_rules)

section \<open>The contract\<close>

lemma moves_contract [simp]:
  "rule Preparing ContractRequired = Some Understanding" "rule Understanding ContractReady = Some Planning"
  "rule Understanding InputRequired = Some AwaitingInput"
  by code_simp+

lemma waits_at_rest: "in_phase AwaitingInput s \<Longrightarrow> at_rest s"
  by (simp add: in_phase_def at_rest_def)

text \<open>What preparing a contract, or admission as a whole, leaves: ready to go on, or at rest.\<close>

definition proceeds :: "bool \<Rightarrow> 'w agent \<Rightarrow> bool" where
  "proceeds go s \<longleftrightarrow> (if go then ready s else at_rest s)"

lemma to_calm: "calm m \<Longrightarrow> returns (in_phase st) n Q \<Longrightarrow> returns (in_phase st) (thenE m n) Q"
  by (rule hoare_then [OF calm_keeps(3)])

lemma ask_contract_rests: "returns (in_phase Understanding) (ask_contract d reason) proceeds"
proof -
  have input: "returns (in_phase Understanding) (transition_to InputRequired reason None) (\<lambda>_. in_phase AwaitingInput)"
    using to_move [of Understanding InputRequired AwaitingInput None reason, unfolded run_to_def]
    by (intro returns_hoare) simp
  have save: "returns (in_phase AwaitingInput) (thenE ag_commit (ret ())) (\<lambda>_. in_phase AwaitingInput)"
    by (intro calm_keeps calm_rules)
  have "returns (in_phase Understanding)
      (seqE [on_task (\<lambda>t. t\<lparr>contract_status := ''awaiting_input'', pending_question := ct_question (dr_critique d)\<rparr>),
        transition_to InputRequired reason None, ag_commit]) (\<lambda>_. in_phase AwaitingInput)"
    unfolding seqE.simps
    by (rule to_calm [OF calm_on_task hoare_then [OF input save]]) (simp add: phase_of_def)
  then show ?thesis
    unfolding ask_contract_def
    by (rule hoare_then) (rule hoare_ret, simp add: proceeds_def waits_at_rest)
qed

lemma contract_uncompiled_rests:
  "returns (in_phase Understanding) (contract_uncompiled cenv f clar) proceeds"
  unfolding contract_uncompiled_def with_task_def
  by (intro to_calm calm_on_task hoare_bind [OF calm_keeps(3)] calm_rules ask_contract_rests)
    (auto simp: phase_of_def store_contract_def)

lemma contract_compiled_ready:
  assumes "kc_hash c \<noteq> None \<Longrightarrow> cp_criteria (dr_proposal (kc_draft c)) \<noteq> []"
  shows "returns (in_phase Understanding) (contract_compiled c) proceeds"
proof -
  let ?lock = "on_task (\<lambda>t. apply_locked_contract (kc_draft c)
     (t\<lparr>contract_status := ''locked'', criteria_source := ''compiled'', pending_question := None\<rparr>))"
  have locked: "returns (in_phase Understanding) (thenE (seqE [?lock, transition_to ContractReady r None, ag_commit]) (ret True)) proceeds"
    if "kc_hash c \<noteq> None" for r
  proof (rule returnsI)
    fix s a s' assume s: "in_phase Understanding s"
      and run: "thenE (seqE [?lock, transition_to ContractReady r None, ag_commit]) (ret True) s = (Inr a, s')"
    define u where "u = s\<lparr>ag_task := apply_locked_contract (kc_draft c)
      ((ag_task s)\<lparr>contract_status := ''locked'', criteria_source := ''compiled'', pending_question := None\<rparr>)\<rparr>"
    have "in_phase Understanding u" using s by (simp add: u_def in_phase_def apply_locked_contract_def)
    note moved = transition_moves [OF _ _ this, of ContractReady Planning None r]
    from run have "a" "in_phase Planning s'" "rubric (ag_task s') = cp_criteria (dr_proposal (kc_draft c))"
      unfolding seqE.simps
      by (auto simp: u_def [symmetric] moved ag_commit_def in_phase_def)
        (auto simp: u_def apply_locked_contract_def moved_def)
    then show "proceeds a s'" using assms [OF that] by (simp add: proceeds_def ready_def)
  qed
  show ?thesis
    unfolding contract_compiled_def
    by (rule to_calm [OF calm_on_task hoare_if [OF ask_contract_rests locked]])
      (auto simp: phase_of_def store_contract_def)
qed

lemma locked_criteria:
  assumes "keeps_typed (ce_coercions cenv)" "compile_project_contract cenv ws t w = (Inr c, w')"
    and "kc_hash c \<noteq> None"
  shows "cp_criteria (dr_proposal (kc_draft c)) \<noteq> []"
proof -
  from assms(3) obtain h where "kc_hash c = Some h" by auto
  from locked_cases [OF assms(1,2) this] obtain disc p where
    p: "read_from cenv t p" "dr_proposal (kc_draft c) = effective_proposal p disc" by metis
  from read_from_within [OF p(1)] have "cp_criteria p \<noteq> []" by (simp add: within_def)
  then show ?thesis unfolding p(2) by (simp add: effective_proposal_def)
qed

lemma compile_contract_proceeds:
  assumes "keeps_typed (ce_coercions cenv)"
  shows "returns (in_phase Preparing) (compile_contract env cenv caps t) proceeds"
proof -
  have started: "returns (in_phase Preparing)
      (transition_to ContractRequired ''contract_compilation_started'' None) (\<lambda>_. in_phase Understanding)"
    using to_move [of Preparing ContractRequired Understanding None, unfolded run_to_def]
    by (intro returns_hoare) simp
  have concluded: "returns (in_phase Understanding) (bindE (outside (compile_project_contract cenv ws request))
      (\<lambda>outcome. case outcome of Inl (CallFailed f) \<Rightarrow> contract_uncompiled cenv f clar
         | Inl (Raised e) \<Rightarrow> raise (PyRaise e) | Inr c \<Rightarrow> contract_compiled c)) proceeds" for ws request clar
  proof (rule returnsI)
    fix s :: "'a agent" and go s'
    assume s: "in_phase Understanding s" and run: "bindE (outside (compile_project_contract cenv ws request))
      (\<lambda>outcome. case outcome of Inl (CallFailed f) \<Rightarrow> contract_uncompiled cenv f clar
         | Inl (Raised e) \<Rightarrow> raise (PyRaise e) | Inr c \<Rightarrow> contract_compiled c) s = (Inr go, s')"
    obtain outcome w where outcome: "compile_project_contract cenv ws request (ag_world s) = (outcome, w)"
      by (cases "compile_project_contract cenv ws request (ag_world s)")
    have u: "in_phase Understanding (s\<lparr>ag_world := w\<rparr>)" using s by (simp add: in_phase_def)
    show "proceeds go s'"
    proof (cases outcome)
      case (Inl e)
      with run outcome u show ?thesis
        by (cases e) (auto simp: bindE_def outside_def intro: returnsD [OF contract_uncompiled_rests])
    next
      case (Inr c)
      with locked_criteria [OF assms outcome [unfolded Inr]] run outcome u show ?thesis
        by (auto simp: bindE_def outside_def intro: returnsD [OF contract_compiled_ready])
    qed
  qed
  show ?thesis
    unfolding compile_contract_def
    by (intro hoare_bind [OF calm_keeps(3)] calm_rules hoare_then [OF started] to_calm concluded)
qed

lemma prepare_contract_proceeds:
  assumes "keeps_typed (ce_coercions cenv)"
  shows "returns (in_phase Preparing) (prepare_project_contract env cenv caps) proceeds"
proof -
  have reuse: "returns (in_phase Preparing) (reuse_contract env cenv t) proceeds" for t
  proof -
    have failed: "returns (in_phase Preparing) (thenE (seqE [fail_task m r, ensure_unverified_receipt env, ag_commit])
        (ret False)) proceeds" for m r
      unfolding seqE.simps
      by (rule hoare_then [OF at_rest_then [OF hoare_pre [OF fail_task_rests]]])
        (intro calm_rules hoare_ret | simp add: proceeds_def)+
    have intact: "returns (in_phase Preparing) (thenE (on_task (apply_locked_contract d)) (ret True)) proceeds" for d
      by (rule returnsI)
        (auto simp: apply_locked_contract_def proceeds_def ready_def in_phase_def)
    show ?thesis
      unfolding reuse_contract_def by (intro hoare_option hoare_if failed intact)
  qed
  have user: "returns (in_phase Preparing) (lock_user_contract cenv t) proceeds" for t
  proof (rule returnsI)
    fix s :: "'a agent" and go s'
    assume "in_phase Preparing s" "lock_user_contract cenv t s = (Inr go, s')"
    then show "proceeds go s'"
      by (auto simp: lock_user_contract_def ag_commit_def proceeds_def ready_def in_phase_def
          apply_locked_contract_def store_contract_def)
  qed
  show ?thesis
    unfolding prepare_project_contract_def with_task_def
    by (intro hoare_bind [OF calm_keeps(3)] calm_rules hoare_if reuse user compile_contract_proceeds assms)
qed

section \<open>Admission\<close>

text \<open>An admission step turns the run away at rest, or goes on.\<close>

definition admits :: "('w agent \<Rightarrow> bool) \<Rightarrow> ('w, 'a option) run_act \<Rightarrow> ('w agent \<Rightarrow> bool) \<Rightarrow> bool" where
  "admits P m Q \<longleftrightarrow>
     returns (\<lambda>s. P (rn_agent s)) m
       (\<lambda>r s. case r of None \<Rightarrow> at_rest (rn_agent s) | Some _ \<Rightarrow> Q (rn_agent s))"

lemma admits_bindO: "admits P m R \<Longrightarrow> (\<And>a. admits R (f a) Q) \<Longrightarrow> admits P (bindO m f) Q"
  unfolding admits_def by (rule returns_bindO)

lemma admits_go: "admits P (ret (Some a)) P"
  unfolding admits_def by (rule hoare_ret) simp

lemma admits_turn_away: "admits P (turn_away env rs r) Q"
proof -
  have "returns (\<lambda>s. True) (turn_away env rs r) (\<lambda>r s. case r of None \<Rightarrow> at_rest (rn_agent s) | Some _ \<Rightarrow> Q (rn_agent s))"
    unfolding turn_away_def
    by (rule hoare_then [OF returnsI [of _ _ "\<lambda>_ _. True"]], simp,
        rule hoare_then [OF returns_on_agent [OF refuse_rests]], rule hoare_ret, simp)
  then show ?thesis unfolding admits_def by (rule hoare_pre) simp
qed

lemma admits_agent:
  assumes "returns P m (\<lambda>_. R)" "\<And>a. admits R (f a) Q"
  shows "admits P (bindE (on_agent m) f) Q"
  using assms(2) unfolding admits_def by (rule hoare_bind [OF returns_on_agent [OF assms(1)]])

lemma admits_bind:
  assumes "returns (\<lambda>s. P (rn_agent s)) m (\<lambda>_ s. R (rn_agent s))" "\<And>a. admits R (f a) Q"
  shows "admits P (bindE m f) Q"
  using assms(2) unfolding admits_def by (rule hoare_bind [OF assms(1)])

lemma admits_bind_then:
  "returns (\<lambda>s. P (rn_agent s)) m (\<lambda>_ s. R (rn_agent s)) \<Longrightarrow> admits R n Q \<Longrightarrow> admits P (thenE m n) Q"
  unfolding thenE_def by (rule admits_bind)

lemma admits_agent_then:
  "returns P m (\<lambda>_. R) \<Longrightarrow> admits R n Q \<Longrightarrow> admits P (thenE (on_agent m) n) Q"
  unfolding thenE_def by (rule admits_agent)

lemma admits_service:
  assumes "\<And>s. rn_agent (f s) = rn_agent s" "admits P n Q"
  shows "admits P (thenE (modify f) n) Q"
  using assms(2) unfolding admits_def
  by (intro hoare_then [OF hoare_modify [where Q = "\<lambda>_ s. P (rn_agent s)"]]) (simp_all add: assms(1))

lemma admits_cases:
  "(b \<Longrightarrow> admits P m Q) \<Longrightarrow> (\<not> b \<Longrightarrow> admits P n Q) \<Longrightarrow> admits P (if b then m else n) Q"
  "admits P m Q \<Longrightarrow> (\<And>a. admits P (f a) Q) \<Longrightarrow> admits P (case x of None \<Rightarrow> m | Some a \<Rightarrow> f a) Q"
  "(\<And>e. admits P (g e) Q) \<Longrightarrow> (\<And>a. admits P (h a) Q) \<Longrightarrow> admits P (case y of Inl e \<Rightarrow> g e | Inr a \<Rightarrow> h a) Q"
  "(\<And>a b. admits P (k a b) Q) \<Longrightarrow> admits P (case z of (a, b) \<Rightarrow> k a b) Q"
  by (auto split: option.split sum.split prod.split)

lemmas admits_rules = admits_turn_away admits_go admits_cases

lemma calm_agent:
  "calm m \<Longrightarrow> (\<And>a. admits (in_phase st) (f a) Q) \<Longrightarrow> admits (in_phase st) (bindE (on_agent m) f) Q"
  "calm m \<Longrightarrow> admits (in_phase st) n Q \<Longrightarrow> admits (in_phase st) (thenE (on_agent m) n) Q"
  "calm m \<Longrightarrow> (\<And>a. admits ready (f a) Q) \<Longrightarrow> admits ready (bindE (on_agent m) f) Q"
  "calm m \<Longrightarrow> admits ready n Q \<Longrightarrow> admits ready (thenE (on_agent m) n) Q"
  by (rule admits_agent admits_agent_then; blast intro: calm_keeps)+

lemma admit_skill_admits: "admits (in_phase Preparing) (admit_skill env) (in_phase Preparing)"
  unfolding admit_skill_def by (intro calm_agent admits_rules calm_rules)

lemma admit_authority_admits: "admits (in_phase Preparing) (admit_authority env sk) (in_phase Preparing)"
  unfolding admit_authority_def
  by (intro calm_agent admits_rules calm_rules calm_on_task) (simp add: phase_of_def)

lemma admit_contract_admits:
  assumes "keeps_typed (ce_coercions (re_contract env))"
  shows "admits (in_phase Preparing) (admit_contract env caps) ready"
proof -
  have go: "admits (in_phase Preparing) (ret (Some ())) ready"
    unfolding admits_def by (rule hoare_ret) (simp add: ready_def)
  have contract: "admits (in_phase Preparing) (bindE (on_agent (prepare_project_contract (re_agent env) (re_contract env) caps))
      (\<lambda>r. ret (if r then Some () else None))) ready"
    unfolding admits_def
    by (rule hoare_bind [OF returns_on_agent [OF prepare_contract_proceeds [OF assms]]])
      (rule hoare_ret, simp add: proceeds_def)
  show ?thesis
    unfolding admit_contract_def
    by (rule calm_agent(1) [OF calm_basic(3) admits_cases(1) [OF go calm_agent(2) [OF calm_workspace contract]]])
qed

lemma clear_run_admits:
  assumes "keeps_typed (ce_coercions (re_contract env))"
  shows "admits (in_phase Preparing) (clear_run env) ready"
proof -
  have gate: "admits ready (gate env r) ready" for r
    unfolding gate_def by (intro admits_rules)
  have provider: "admits ready (provider_admission env caps) ready" for caps
    unfolding provider_admission_def by (intro admits_rules)
  have sandbox: "admits ready (admit_sandbox env) ready"
  proof -
    have refused: "admits ready (thenE (on_agent (seqE
        [fail_task m ''sandbox_unavailable'', on_task (\<lambda>t. t\<lparr>sandbox := Some ''unavailable''\<rparr>),
         set_workspace_path, ensure_unverified_receipt (re_agent env), ag_commit])) (ret None)) ready" for m
      unfolding seqE.simps admits_def
      by (rule hoare_then [OF returns_on_agent [OF hoare_pre [OF at_rest_then [OF fail_task_rests]]]])
        (intro calm_rules calm_on_task hoare_ret | simp add: phase_of_def)+
    show ?thesis
      unfolding admit_sandbox_def
      by (intro calm_agent(3) calm_agent(4) calm_basic calm_on_task admits_cases(3,4) refused admits_go)
        (simp add: phase_of_def)
  qed
  have close: "admits ready (bindE (on_agent (gets ag_task)) (\<lambda>t. ret (Some (f t)))) ready" for f
    by (intro calm_agent calm_basic admits_go)
  show ?thesis
    unfolding clear_run_def
    by (intro admits_bindO [OF admit_skill_admits] admits_bindO [OF admit_authority_admits]
        admits_bindO [OF admit_contract_admits [OF assms]] admits_bindO [OF gate] admits_bindO [OF provider]
        admits_bindO [OF sandbox] admits_cases(4) close)
qed

lemma launch_run_admits: "admits ready (launch_run env cl) ready"
proof -
  have gateway: "admits ready (start_gateway env cl) ready"
    unfolding start_gateway_def Let_def register_client_def register_resource_def
    by (intro admits_service calm_agent(3) calm_outside admits_rules) simp_all
  have browser: "admits ready (start_browser env caps g) ready" for caps g
  proof -
    have probe: "returns (\<lambda>s. ready (rn_agent s))
        (if b then on_agent (outside (re_start_browser env)) else ret None) (\<lambda>_ s. ready (rn_agent s))" for b
      by (intro hoare_if returns_on_agent calm_keeps calm_outside hoare_ret)
    show ?thesis
      unfolding start_browser_def register_resource_def
      by (intro admits_cases(1) admits_go admits_bind [OF probe] admits_cases(2) admits_turn_away
          admits_service admits_go) simp
  qed
  have tools: "admits ready (local_tools env rs caps grp configured src r) ready" for rs caps grp configured src r
    unfolding local_tools_def by (intro admits_rules)
  have mcp: "admits ready (start_host_mcp env rs caps) ready" for rs caps
    unfolding start_host_mcp_def register_resource_def
    by (intro admits_service calm_agent(3) calm_outside admits_rules) simp_all
  have audit: "returns (\<lambda>s. ready (rn_agent s)) (start_audit env caps) (\<lambda>_ s. ready (rn_agent s))" for caps
    by (rule returnsI) (auto simp: start_audit_def whenM_def register_client_def split: if_splits)
  show ?thesis
    unfolding launch_run_def Let_def
    by (intro admits_bind_then [OF audit] admits_bindO [OF gateway] admits_bindO [OF browser] admits_bindO [OF tools]
        admits_bindO [OF mcp] admits_go)
qed

section \<open>The loop and what follows it\<close>

lemma execute_no_refusal:
  assumes "ex_egress_token ex \<noteq> Inl LoopError"
  shows "fst (execute ex tool args s) \<noteq> Inl LoopError"
proof -
  have outcome: "fst (ws_outcome r u) \<noteq> Inl LoopError" for r and u :: "'a sandboxed"
    by (auto simp: ws_outcome_def split: prod.split sum.split ws_exc.split)
  have shell: "fst (run_shell ex c u) \<noteq> Inl LoopError" for c u
    using assms by (cases "ex_egress_token ex") (auto simp: run_shell_def run_target_of_def Let_def split: prod.split sum.split option.split
        verdict.split if_splits)
  have "fst (dispatch ex p tool args u) \<noteq> Inl LoopError" for p u
    using outcome shell
    by (auto simp: dispatch_def with_args_def ret_def split: option.split prod.split sum.split)
  moreover obtain r u where d: "dispatch ex (provider_for ex tool) tool args s = (r, u)"
    by (rule prod.exhaust)
  ultimately have "r \<noteq> Inl LoopError" by (metis fst_conv)
  then show ?thesis
    by (cases r) (auto simp: execute_def bindE_def thenE_def modify_def ret_def d split: option.split)
qed

lemma map_sum_Inl: "map_sum f g r = Inl e \<longleftrightarrow> (\<exists>x. r = Inl x \<and> e = f x)"
  by (cases r) auto

lemma token_no_refusal: "draw_token env t run_id sc audience w \<noteq> Inl LoopError"
  by (auto simp: draw_token_def Let_def map_sum_Inl)

lemma loop_orderly:
  assumes "orderly (re_agent env)"
  shows "orderly (loop_env env la t conv)"
proof -
  have "fst (execute (run_executor env la u w) tool args x) \<noteq> Inl LoopError" for u w tool args x
    by (rule execute_no_refusal) (simp add: run_executor_def egress_token_def token_no_refusal)
  with assms show ?thesis by (simp add: orderly_def loop_env_def)
qed

lemma settled_at_rest: "settled c s \<Longrightarrow> at_rest s"
  by (auto simp: settled_def in_phase_def cancelled_meanwhile_def at_rest_def)

lemma guarded_loop_rests:
  assumes "orderly env"
  shows "returns ready (guarded_loop env) (\<lambda>_. at_rest)"
  unfolding guarded_loop_def
proof (rule hoare_catch [where R = "\<lambda>_ _. True"])
  show "returns ready (with_task (\<lambda>t. run_loop env (steps_used t + 1))) (\<lambda>_. at_rest)"
  proof (rule returnsI)
    fix s a s' assume s: "ready s" and run: "with_task (\<lambda>t. run_loop env (steps_used t + 1)) s = (Inr a, s')"
    from s obtain st where st: "in_phase st s" "st = Preparing \<or> st = Planning \<and> rubric (ag_task s) \<noteq> []"
      by (auto simp: ready_def)
    from run have "run_loop env (steps_used (ag_task s) + 1) s = (Inr a, s')" by (simp add: with_task_def)
    from hoareD(1) [OF to_run_loop [OF assms st(2)] _ this] st(1) have "settled (ae_settings env) s'" by simp
    then show "at_rest s'" by (rule settled_at_rest)
  qed
  show "returns (\<lambda>_. True) (seqE [fail_task (exc_text e) ''unhandled_runtime_error'', ensure_unverified_receipt env,
      ag_commit]) (\<lambda>_. at_rest)" for e
    unfolding seqE.simps by (intro at_rest_then [OF fail_task_rests] calm_rules)
qed

lemma calm_prepare: "returns ready (prepare_loop env la) (\<lambda>lenv s. ready s \<and> (orderly (re_agent env) \<longrightarrow> orderly lenv))"
proof (rule returnsI)
  have checks: "calm system_checks"
    unfolding system_checks_def
    by (intro calm_rules calm_on_task) (simp add: phase_of_def)
  have base: "calm (take_baseline lenv)" for lenv :: "('a, 'b, 'c) agent_env"
    unfolding take_baseline_def by (intro calm_rules calm_on_task) (simp add: phase_of_def)
  have prep: "calm (prepare_loop env la)"
    unfolding prepare_loop_def by (intro calm_rules calm_modify checks base) simp
  fix s lenv s' assume s: "ready s" and run: "prepare_loop env la s = (Inr lenv, s')"
  from run obtain t conv where "lenv = loop_env env la t conv" by (auto simp: prepare_loop_def)
  then show "ready s' \<and> (orderly (re_agent env) \<longrightarrow> orderly lenv)"
    using returnsD [OF calm_keeps(1) [OF prep] s run] loop_orderly by blast
qed

section \<open>Revocation and clean-up\<close>

lemma calm_revocation: "calm (record_revocation env events)"
proof -
  have "calm (refresh_audit env)"
    by (rule calmI)
      (auto simp: refresh_audit_def Let_def phase_of_def split: if_splits prod.splits sum.splits)
  then show ?thesis
    unfolding record_revocation_def seqE.simps
    by (intro calm_rules calm_on_task) (simp add: phase_of_def)
qed

lemma revocation_total: "fst (record_revocation env events a) = Inr ()"
  by (auto simp: record_revocation_def on_task_def ag_commit_def refresh_audit_def effect_defs Let_def
      split: prod.split sum.split)

text \<open>Revoking changes no state of the task, raises nothing, and leaves no authority.\<close>

definition unauthorised :: "'w run \<Rightarrow> bool" where
  "unauthorised s \<longleftrightarrow> rn_revoked s \<or> rn_clients s = []"

lemma revoke_authority:
  assumes "revoke_active_authority env s = (r, s')"
  shows "r = Inr ()" "unauthorised s'" "phase_of (ag_task (rn_agent s')) = phase_of (ag_task (rn_agent s))"
    and "rn_resources s' = rn_resources s"
proof -
  have "r = Inr () \<and> unauthorised s' \<and> phase_of (ag_task (rn_agent s')) = phase_of (ag_task (rn_agent s)) \<and>
      rn_resources s' = rn_resources s"
  proof (cases "rn_revoked s \<or> rn_clients s = []")
    case True
    then show ?thesis using assms by (auto simp: revoke_active_authority_def unauthorised_def)
  next
    case False
    obtain events w where e: "revoke_services env (run_id_of (ag_task (rn_agent s))) (rn_clients s)
        (ag_world (rn_agent s)) = (events, w)" by (rule prod.exhaust)
    let ?a = "(rn_agent s)\<lparr>ag_world := w\<rparr>"
    obtain a where a: "record_revocation env events ?a = (Inr (), a)"
      using revocation_total [of env events ?a] by (cases "record_revocation env events ?a") auto
    from False assms have "r = Inr ()" "s' = s\<lparr>rn_revoked := True, rn_agent := a\<rparr>"
      by (auto simp: revoke_active_authority_def bindE_def on_agent_def outside_def e a)
    then show ?thesis using calmD [OF calm_revocation a] by (simp add: unauthorised_def)
  qed
  then show "r = Inr ()" "unauthorised s'" "phase_of (ag_task (rn_agent s')) = phase_of (ag_task (rn_agent s))"
    "rn_resources s' = rn_resources s" by blast+
qed

lemma terminal_phase: "phase_of t = phase_of u \<Longrightarrow> terminal_status t = terminal_status u"
  by (simp add: phase_of_def terminal_status_def)

lemma revoke_terminal:
  assumes "revoke_if_terminal env s = (r, s')"
  shows "r = Inr ()" "phase_of (ag_task (rn_agent s')) = phase_of (ag_task (rn_agent s))"
    and "terminal_status (ag_task (rn_agent s')) \<Longrightarrow> unauthorised s'"
proof -
  have "r = Inr () \<and> phase_of (ag_task (rn_agent s')) = phase_of (ag_task (rn_agent s)) \<and>
      (terminal_status (ag_task (rn_agent s')) \<longrightarrow> unauthorised s')"
  proof (cases "terminal_status (ag_task (rn_agent s))")
    case True
    with assms have "revoke_active_authority env s = (r, s')"
      by (simp add: revoke_if_terminal_def bindE_def on_agent_def gets_def whenM_def)
    then show ?thesis using revoke_authority by metis
  next
    case False
    with assms show ?thesis
      by (simp add: revoke_if_terminal_def bindE_def on_agent_def gets_def whenM_def ret_def)
  qed
  then show "r = Inr ()" "phase_of (ag_task (rn_agent s')) = phase_of (ag_task (rn_agent s))"
    "terminal_status (ag_task (rn_agent s')) \<Longrightarrow> unauthorised s'" by blast+
qed

lemma stop_resources_eq:
  "stop_resources env rs s =
     (Inr (), s\<lparr>rn_agent := (rn_agent s)\<lparr>ag_world := fold (re_stop env) rs (ag_world (rn_agent s))\<rparr>\<rparr>)"
  by (simp add: stop_resources_def on_agent_def modify_def)

lemma closing_eq:
  "seqE [revoke_if_terminal env, stop_active_resources env] s =
     (let u = snd (revoke_if_terminal env s) in
      (Inr (), u\<lparr>rn_agent := (rn_agent u)\<lparr>ag_world := fold (re_stop env) (remdups (rev (rn_resources u)))
         (ag_world (rn_agent u))\<rparr>, rn_resources := []\<rparr>))"
proof (cases "revoke_if_terminal env s")
  case (Pair r u)
  with revoke_terminal(1) [OF Pair] show ?thesis
    by (simp add: thenE_def bindE_def stop_active_resources_def stop_resources_eq modify_def ret_def Let_def)
qed

lemma close_run_rests: "hoare (\<lambda>s. at_rest (rn_agent s)) (close_run env la) (\<lambda>_ s. at_rest (rn_agent s)) (\<lambda>_ _. False)"
proof -
  have stop: "hoare (\<lambda>s. at_rest (rn_agent s)) (stop_resources env rs) (\<lambda>_ s. at_rest (rn_agent s)) (\<lambda>_ _. False)"
    for rs by (simp add: hoare_def stop_resources_eq at_rest_def)
  have revoke: "hoare (\<lambda>s. at_rest (rn_agent s)) (revoke_if_terminal env) (\<lambda>_ s. at_rest (rn_agent s)) (\<lambda>_ _. False)"
  proof (rule hoareI)
    show "at_rest (rn_agent s')" if "at_rest (rn_agent s)" "revoke_if_terminal env s = (Inr a, s')" for s a s'
      using that(1) revoke_terminal(2) [OF that(2)] by (simp add: at_rest_def phase_of_def)
    show False if "revoke_if_terminal env s = (Inl e, s')" for s e s'
      using revoke_terminal(1) [OF that] by simp
  qed
  show ?thesis
    unfolding close_run_def seqE.simps whenM_def
    by (rule hoare_then [OF stop hoare_then [OF hoare_if [OF revoke hoare_ret] hoare_then [OF stop hoare_ret]]])
qed

section \<open>Runs from claim to close\<close>

lemma admitted_run_rests:
  assumes "keeps_typed (ce_coercions (re_contract env))" "orderly (re_agent env)"
  shows "returns (\<lambda>s. in_phase Preparing (rn_agent s)) (admitted_run env) (\<lambda>_ s. at_rest (rn_agent s))"
proof -
  have loop: "returns (\<lambda>s. ready (rn_agent s))
      (bindE (on_agent (prepare_loop env la)) (\<lambda>lenv. finally_do (on_agent (guarded_loop lenv)) (close_run env la)))
      (\<lambda>_ s. at_rest (rn_agent s))" for la
  proof (rule hoare_bind [OF returns_on_agent [OF calm_prepare]])
    fix lenv
    show "returns (\<lambda>s. ready (rn_agent s) \<and> (orderly (re_agent env) \<longrightarrow> orderly lenv))
        (finally_do (on_agent (guarded_loop lenv)) (close_run env la)) (\<lambda>_ s. at_rest (rn_agent s))"
    proof (rule returnsI)
      fix s a s' assume s: "ready (rn_agent s) \<and> (orderly (re_agent env) \<longrightarrow> orderly lenv)"
        and run: "finally_do (on_agent (guarded_loop lenv)) (close_run env la) s = (Inr a, s')"
      obtain r u where body: "on_agent (guarded_loop lenv) s = (r, u)" by (rule prod.exhaust)
      obtain c v where close: "close_run env la u = (c, v)" by (rule prod.exhaust)
      from run body close have r: "r = Inr a" "v = s'" "\<exists>x. c = Inr x"
        by (auto simp: finally_do_def split: sum.splits)
      have "at_rest (rn_agent u)"
        using returnsD [OF returns_on_agent [OF guarded_loop_rests], of lenv s a u] s assms(2) body r(1) by simp
      then show "at_rest (rn_agent s')" using hoareD(1) [OF close_run_rests] close r(2,3) by fastforce
    qed
  qed
  have admit: "returns (\<lambda>s. in_phase Preparing (rn_agent s)) (bindO (clear_run env) (launch_run env))
      (\<lambda>r s. case r of None \<Rightarrow> at_rest (rn_agent s) | Some _ \<Rightarrow> ready (rn_agent s))"
    using admits_bindO [OF clear_run_admits [OF assms(1)] launch_run_admits] by (simp add: admits_def)
  show ?thesis
    unfolding admitted_run_def
  proof (rule hoare_bind [OF admit])
    fix launched
    show "returns (\<lambda>s. case launched of None \<Rightarrow> at_rest (rn_agent s) | Some _ \<Rightarrow> ready (rn_agent s))
      (case launched of None \<Rightarrow> ret () | Some la \<Rightarrow> bindE (on_agent (prepare_loop env la))
         (\<lambda>lenv. finally_do (on_agent (guarded_loop lenv)) (close_run env la))) (\<lambda>_ s. at_rest (rn_agent s))"
      using loop by (cases launched) (auto intro: hoare_ret)
  qed
qed

lemma refuse_replay_rests: "returns (\<lambda>_. True) (refuse_replay env op) (\<lambda>_. at_rest)"
  unfolding refuse_replay_def seqE.simps
  by (intro at_rest_then [OF fail_task_rests] calm_rules)

lemma run_claimed_rests:
  assumes "keeps_typed (ce_coercions (re_contract env))" "orderly (re_agent env)"
    and "in_phase Preparing (rn_agent s)" "run_claimed env s = (Inr u, s')"
  shows "at_rest (rn_agent s')"
proof (cases "operation_journal (ag_task (rn_agent s))")
  case None
  with assms(4) have "admitted_run env s = (Inr u, s')"
    by (simp add: run_claimed_def bindE_def on_agent_def gets_def)
  with assms(3) show ?thesis by (rule returnsD [OF admitted_run_rests [OF assms(1,2)]])
next
  case (Some op)
  with assms(4) have "on_agent (refuse_replay env op) s = (Inr u, s')"
    by (simp add: run_claimed_def bindE_def on_agent_def gets_def)
  with returnsD [OF returns_on_agent [OF refuse_replay_rests]] show ?thesis by simp
qed


lemma demo_run_orderly: "orderly (re_agent demo_run_env)"
  by (simp add: orderly_def demo_run_env_def demo_env_def ret_def)

definition queued_task :: task where
  "queued_task = shell_task\<lparr>loop_state := state_value Queued, status := status_value Pending\<rparr>"

definition demo_place :: "string \<Rightarrow> workspace" where
  "demo_place p = \<lparr>ws_root = p, ws_files = [], ws_dirs = [p], ws_real = (\<lambda>q. q)\<rparr>"

abbreviation demo_pending :: "task \<Rightarrow> ((svc_exc + unit) \<times> nat run) option" where
  "demo_pending t \<equiv> run_pending demo_run_env [t] (\<lambda>_. []) demo_place ''t'' 0"

lemma unsigned_run_returns:
  "case demo_pending (queued_task\<lparr>skill := Some ''unsigned''\<rparr>) of
     Some (Inr (), s') \<Rightarrow> status (ag_task (rn_agent s')) = status_value FailedStatus | _ \<Rightarrow> False"
  by code_simp

lemma demo_pending_claims: "demo_pending queued_task \<noteq> None"
proof -
  have "fst (claim_pending [queued_task] ''t'') \<noteq> None" by code_simp
  then show ?thesis by (auto simp: run_pending_def split: prod.split option.split)
qed


section \<open>Interrupted operations\<close>

text \<open>Nothing of the world, the ledger or the services is touched.\<close>

definition untouched :: "'w agent \<Rightarrow> 'w agent \<Rightarrow> bool" where
  "untouched a b \<longleftrightarrow> ag_world b = ag_world a \<and> ag_log b = ag_log a"

lemma untouched_stable:
  "stable (untouched a) (fail_task m r)" "stable (untouched a) set_workspace_path"
  "stable (untouched a) rebuild_history" "stable (untouched a) (ensure_unverified_receipt env)"
  "stable (untouched a) ag_commit"
  by (rule stableI;
      auto simp: untouched_def fail_task_def transition_to_def set_workspace_path_def rebuild_history_def
        ensure_unverified_receipt_def make_receipt_def on_task_def ag_commit_def effect_defs
        split: sum.splits prod.splits if_splits option.splits ws_exc.splits)+

lemma moves_fail: "rule Preparing Fail = Some Failed"
  by code_simp

definition failed_for :: "string \<Rightarrow> 'w agent \<Rightarrow> bool" where
  "failed_for r a \<longleftrightarrow> loop_state (ag_task a) = state_value Failed \<and> transition_reason (ag_task a) = Some r"

lemma failed_for_stable:
  "stable (failed_for q) set_workspace_path" "stable (failed_for q) rebuild_history"
  "stable (failed_for q) (ensure_unverified_receipt env)" "stable (failed_for q) ag_commit"
  by (rule stableI;
      auto simp: failed_for_def set_workspace_path_def rebuild_history_def set_receipt_def
        ensure_unverified_receipt_def make_receipt_def on_task_def ag_commit_def effect_defs
        split: sum.splits prod.splits if_splits option.splits ws_exc.splits)+

lemma fail_task_reason: "r \<noteq> [] \<Longrightarrow> py_strip r = r \<Longrightarrow> returns (\<lambda>_. True) (fail_task m r) (\<lambda>_. failed_for r)"
  by (rule returnsI)
    (auto simp: fail_task_def transition_to_def apply_event_ok_iff failed_for_def moved_def reason_text_def or_default_def
      dest!: rule_fail split: sum.splits prod.splits if_splits)

lemma refuse_replay_reason:
  "returns (\<lambda>_. True) (refuse_replay env op) (\<lambda>_. failed_for ''operation_outcome_unknown'')"
proof -
  have "returns (\<lambda>_. True) (fail_task m ''operation_outcome_unknown'') (\<lambda>_. failed_for ''operation_outcome_unknown'')" for m
    by (rule fail_task_reason) code_simp+
  then show ?thesis
    unfolding refuse_replay_def seqE.simps outcome_unknown_def snd_conv
    by (rule hoare_then) (intro hoare_then [OF stable_returns] failed_for_stable hoare_ret)
qed

text \<open>
  C11. An operation whose outcome is unknown is never repeated. A run that finds an operation in
  the journal of its row (an earlier run was interrupted while a tool was executing) calls no
  model, no tool, no provider and no service, and adds no step; if it returns, the task has failed
  with the reason \<open>operation_outcome_unknown\<close>.
\<close>

theorem interrupted_not_replayed:
  assumes "operation_journal (ag_task (rn_agent s)) \<noteq> None" "run_claimed env s = (r, s')"
  shows "ag_world (rn_agent s') = ag_world (rn_agent s) \<and> ag_log (rn_agent s') = ag_log (rn_agent s) \<and>
    rn_clients s' = rn_clients s \<and> rn_resources s' = rn_resources s \<and> rn_revoked s' = rn_revoked s \<and>
    (r = Inr () \<longrightarrow> loop_state (ag_task (rn_agent s')) = state_value Failed \<and>
       transition_reason (ag_task (rn_agent s')) = Some ''operation_outcome_unknown'')"
proof -
  from assms obtain op where run: "on_agent (refuse_replay env op) s = (r, s')"
    by (auto simp: run_claimed_def bindE_def on_agent_def gets_def)
  then obtain b where b: "refuse_replay env op (rn_agent s) = (r, b)" and s': "s' = s\<lparr>rn_agent := b\<rparr>"
    by (auto simp: on_agent_def split: prod.splits)
  have "stable (untouched (rn_agent s)) (refuse_replay env op)"
    unfolding refuse_replay_def by (rule stable_seq) (auto intro: untouched_stable)
  from stableD [OF this _ b] have "untouched (rn_agent s) b" by (simp add: untouched_def)
  moreover have "failed_for ''operation_outcome_unknown'' b" if "r = Inr ()"
    using returnsD [OF refuse_replay_reason] b that by blast
  ultimately show ?thesis by (auto simp: s' untouched_def failed_for_def)
qed

lemma refuse_replay_returns:
  assumes "in_phase Preparing a" "ag_log a = []" "\<And>p. \<not> ae_ws_is_dir (re_agent env) (ag_world a) p"
  shows "fst (refuse_replay env op a) = Inr ()"
  using assms(2,3)
  by (simp add: refuse_replay_def outcome_unknown_def fail_task_def thenE_def bindE_def
      transition_moves [OF moves_fail _ assms(1)] on_task_def set_workspace_path_def rebuild_history_def
      ensure_unverified_receipt_def ag_commit_def modify_def ret_def)

theorem interrupted_not_replayed_witness:
  "\<exists>s'. run_claimed demo_run_env (demo_run\<lparr>rn_agent := (rn_agent demo_run)\<lparr>ag_task :=
        shell_task\<lparr>operation_journal := Some []\<rparr>\<rparr>\<rparr>) = (Inr (), s') \<and>
     transition_reason (ag_task (rn_agent s')) = Some ''operation_outcome_unknown''"
proof -
  let ?s = "demo_run\<lparr>rn_agent := (rn_agent demo_run)\<lparr>ag_task := shell_task\<lparr>operation_journal := Some []\<rparr>\<rparr>\<rparr>"
  obtain r s' where run: "run_claimed demo_run_env ?s = (r, s')" by (rule prod.exhaust)
  let ?a = "rn_agent ?s"
  have "in_phase Preparing ?a"
    by (simp add: in_phase_def demo_run_def fresh_run_def shell_task_def)
  note returned = refuse_replay_returns [OF this, of demo_run_env "[]"]
  have "run_claimed demo_run_env ?s = on_agent (refuse_replay demo_run_env []) ?s"
    by (simp add: run_claimed_def bindE_def on_agent_def gets_def)
  with run have r: "r = fst (refuse_replay demo_run_env [] ?a)"
    by (auto simp: on_agent_def split: prod.splits)
  have "r = Inr ()"
    unfolding r by (rule returned) (simp_all add: demo_run_def fresh_run_def demo_run_env_def demo_env_def)
  then show ?thesis using interrupted_not_replayed [OF _ run] run by simp
qed

end
