(* ===== verification/Agent_Delegation.thy ===== *)
theory Agent_Delegation
  imports Agent_Frame
begin

text \<open>
  What a run delegates. \<open>confined\<close> puts a gate in front of the children that runs only those
  within the authority of their parent; the handler of a spawn with the gate is the handler
  without it.
\<close>

text \<open>What a row may delegate: its own capabilities and destinations, what is left of its budget.\<close>

definition within_authority :: "settings \<Rightarrow> task \<Rightarrow> int \<Rightarrow> task \<Rightarrow> bool" where
  "within_authority c t plan_tokens child =
     (set (or_empty (requested_capabilities child)) \<subseteq> set (resolved_capabilities t) \<and>
      list_all (\<lambda>h. list_ex (host_matches h) (or_empty (task_egress_hosts t)))
        (or_empty (task_egress_hosts child)) \<and>
      ({''net.shell'', ''net.browser''} \<inter> set (or_empty (requested_capabilities child)) \<noteq> {} \<longrightarrow>
         or_empty (task_egress_hosts child) \<noteq> []) \<and>
      (allow_egress child \<longrightarrow> ''net.shell'' \<in> set (resolved_capabilities t)) \<and>
      (use_browser child \<longrightarrow> ''net.browser'' \<in> set (resolved_capabilities t)) \<and>
      owner_id child = owner_id t \<and> project_id child = project_id t \<and>
      parent_id child = Some (task_id t) \<and> require_approval child = require_approval t \<and>
      task_depth child = task_depth t + 1 \<and> task_depth child \<le> agent_max_spawn_depth c \<and>
      1 \<le> token_budget child \<and> tokens_used t + plan_tokens + token_budget child \<le> token_budget t \<and>
      1 \<le> max_steps child \<and> max_steps child \<le> max 1 (agent_max_steps_cap c))"

text \<open>A child outside its parent's authority is not run.\<close>

definition confined :: "task \<Rightarrow> int \<Rightarrow> ('w, 'k, 'p) agent_env \<Rightarrow> ('w, 'k, 'p) agent_env" where
  "confined t plan_tokens env =
     env\<lparr>ae_child := (\<lambda>child w. if within_authority (ae_settings env) t plan_tokens child
            then ae_child env child w else ((child, None), w))\<rparr>"

lemma confined_fields:
  "ae_settings (confined t k env) = ae_settings env" "ae_hosts (confined t k env) = ae_hosts env"
  "ae_uuid (confined t k env) = ae_uuid env"
  "record_step (confined t k env) = record_step env"
  "copy_subtask_outputs (confined t k env) = copy_subtask_outputs env"
  by (simp_all add: confined_def fun_eq_iff record_step_def)
    (simp add: copy_subtask_outputs_def split: option.split)

lemma confined_recorded: "recorded (confined t k env) = recorded env"
  by (intro ext) (simp add: recorded_def confined_fields)

lemma outside_row: "hoare (\<lambda>s. ag_task s = t) (outside f) (\<lambda>_ s. ag_task s = t) (\<lambda>_ _. True)"
  by (auto simp: hoare_def outside_def split: prod.split)

lemma confined_child:
  assumes "\<And>i. within_authority (ae_settings env) t plan
                  (child_row i t child_goal al caps hosts (listed_tools args))"
  shows "agrees (\<lambda>s. ag_task s = t)
     (run_child (confined t plan env) child_goal al caps hosts args th n k)
     (run_child env child_goal al caps hosts args th n k)"
proof -
  have run: "outside (ae_child (confined t plan env) (child_row i t child_goal al caps hosts (listed_tools args))) =
             outside (ae_child env (child_row i t child_goal al caps hosts (listed_tools args)))" for i
    using assms [of i] by (simp add: confined_def fun_eq_iff outside_def)
  have "agrees (\<lambda>s. ag_task s = t)
     (with_task (\<lambda>u. thenE ag_commit (bindE (outside (ae_child (confined t plan env)
         (child_row i u child_goal al caps hosts (listed_tools args)))) f)))
     (with_task (\<lambda>u. thenE ag_commit (bindE (outside (ae_child env
         (child_row i u child_goal al caps hosts (listed_tools args)))) f)))" for i f
    using run [of i] by (simp add: agrees_def with_task_def effect_defs)
  then show ?thesis
    unfolding run_child_def confined_fields confined_recorded
    by (intro agrees_bind [OF agrees_refl [OF refl] outside_row])
qed

lemma child_row_within:
  assumes granted: "parse_capabilities (resolved_capabilities t) = Inr granted"
    and al: "allocate_child (policy_of c) args (spawn_remaining t plan) = Inr (Some al)"
    and caps: "caps \<subseteq> granted" and hosts: "hosts = child_hosts lib t args"
    and net: "\<not> egress_missing caps hosts"
    and depth: "task_depth t < agent_max_spawn_depth c"
  shows "within_authority c t plan (child_row i t child_goal al caps hosts tools)"
proof -
  have g: "x \<in> caps \<Longrightarrow> capability_value x \<in> set (resolved_capabilities t)" for x
    using parse_capabilities_ok [OF granted] caps by blast
  have s: "NetShell \<in> caps \<Longrightarrow> ''net.shell'' \<in> set (resolved_capabilities t)"
    and b: "NetBrowser \<in> caps \<Longrightarrow> ''net.browser'' \<in> set (resolved_capabilities t)"
    using g [of NetShell] g [of NetBrowser] by simp_all
  have budget: "1 \<le> al_token_budget al" "tokens_used t + plan + al_token_budget al \<le> token_budget t"
    "1 \<le> al_max_steps al" "al_max_steps al \<le> max 1 (agent_max_steps_cap c)"
    using al by (auto simp: allocate_child_def policy_of_def spawn_remaining_def split: if_splits sum.splits)
  have h: "list_all (\<lambda>h. list_ex (host_matches h) (or_empty (task_egress_hosts t))) hosts"
    by (auto simp: hosts child_hosts_def Let_def list_all_iff sorted_set_def)
  have n: "''net.shell'' \<in> capability_value ` caps \<longleftrightarrow> NetShell \<in> caps"
    "''net.browser'' \<in> capability_value ` caps \<longleftrightarrow> NetBrowser \<in> caps"
    using inj_image_mem_iff [of capability_value NetShell caps]
      inj_image_mem_iff [of capability_value NetBrowser caps]
    by (simp_all add: inj_def capability_value_inj)
  show ?thesis
    using budget h s b net depth g
    by (auto simp: egress_missing_def within_authority_def child_row_def set_sorted_capabilities or_empty_def n)
qed

lemma spawn_allocated_granted:
  assumes "child_requested args = Inr requested" "ag_task s = t"
    and "parse_capabilities (resolved_capabilities t) = Inr granted"
  shows "spawn_allocated env child_goal al args th n plan s =
     (let caps = requested \<inter> granted; hosts = child_hosts (ae_hosts env) t args
      in (if egress_missing caps hosts
          then recorded env ''action_blocked:spawn_egress'' n th ''spawn'' args
                  (''Blocked: a networked sub-agent requires egress_hosts within the '' @
                   ''parent task's destination allowlist.'') BlockedStatus plan
          else run_child env child_goal al caps hosts args th n plan) s)"
  unfolding spawn_allocated_def
  by (simp add: assms with_task_def py_ok_def effect_defs Let_def)


end
