(* ===== verification/Agent_Gates.thy ===== *)
theory Agent_Gates
  imports Agent_Frame
begin

text \<open>
  What a run does to the outside world. \<open>gated\<close> puts a gate in front of the executor that
  refuses every call without a licence: the committed row must carry the journal entry of
  exactly this call, a mail or a calendar event must be the action the user approved, and so
  must a command the policy wants approved when approval is required. The run loop with the
  gate is the run loop without it, so no call reaches the executor unlicensed.
\<close>

section \<open>The licence of a call\<close>

definition journaled :: "task \<Rightarrow> string \<Rightarrow> jdict \<Rightarrow> bool" where
  "journaled t tool args =
     (case operation_journal t of
        None \<Rightarrow> False
      | Some j \<Rightarrow> dget j ''tool'' = JStr tool \<and> dget j ''args'' = JObj args)"

text \<open>The call is the pending action \<open>p\<close>, under the operation id of the journal.\<close>

definition user_approved :: "jdict option \<Rightarrow> task \<Rightarrow> string \<Rightarrow> jdict \<Rightarrow> bool" where
  "user_approved p t tool args =
     (case p of
        None \<Rightarrow> False
      | Some a \<Rightarrow>
          (case (map_of a ''tool'', dget_or a ''args'' (JObj []), operation_journal t) of
             (Some v, JObj args0, Some j) \<Rightarrow>
               py_str v = tool \<and> args = execution_args (py_str (dget j ''id'')) tool args0
           | _ \<Rightarrow> False))"

definition needs_user :: "bool \<Rightarrow> string \<Rightarrow> jdict \<Rightarrow> bool" where
  "needs_user manual tool args =
     (tool \<in> {''send_email'', ''create_event''} \<or>
      tool = ''run_command'' \<and> manual \<and> fst (evaluate_command (run_command_arg args)) = NeedsApproval)"

definition licensed :: "jdict option \<Rightarrow> bool \<Rightarrow> task \<Rightarrow> string \<Rightarrow> jdict \<Rightarrow> bool" where
  "licensed p manual t tool args =
     (journaled t tool args \<and> (needs_user manual tool args \<longrightarrow> user_approved p t tool args))"

definition gated ::
  "jdict option \<Rightarrow> bool \<Rightarrow> ('w, 'k, 'p) agent_env \<Rightarrow> ('w, 'k, 'p) agent_env" where
  "gated p manual env =
     env\<lparr>ae_execute := (\<lambda>db t tool args.
           if licensed p manual (fst db) tool args then ae_execute env db t tool args
           else raise (PyRaise AssertionError))\<rparr>"

definition manual_approval :: "('w, 'k, 'p) agent_env \<Rightarrow> task \<Rightarrow> bool" where
  "manual_approval env t = (require_approval t \<or> agent_approval_mode (ae_settings env) = ''manual'')"

section \<open>What does not call the executor\<close>

named_theorems other_executor "operations that do not depend on the executor"

lemma env_other_executor [other_executor]:
  fixes env :: "('w, 'k, 'p) agent_env"
  shows "ae_settings (gated p b env) = ae_settings env" "ae_hosts (gated p b env) = ae_hosts env"
    "ae_crypto (gated p b env) = ae_crypto env" "ae_read_text (gated p b env) = ae_read_text env"
    "ae_info (gated p b env) = ae_info env" "ae_snapshot (gated p b env) = ae_snapshot env"
    "ae_ws_is_dir (gated p b env) = ae_ws_is_dir env" "ae_mtime (gated p b env) = ae_mtime env"
    "ae_uuid (gated p b env) = ae_uuid env" "ae_refresh (gated p b env) = ae_refresh env"
    "ae_envelope (gated p b env) = ae_envelope env"
    "ae_dynamic_tools (gated p b env) = ae_dynamic_tools env"
    "ae_specs (gated p b env) = ae_specs env" "ae_conversation (gated p b env) = ae_conversation env"
    "ae_notices (gated p b env) = ae_notices env" "ae_understand (gated p b env) = ae_understand env"
    "ae_plan (gated p b env) = ae_plan env" "ae_verify (gated p b env) = ae_verify env"
    "ae_checks (gated p b env) = ae_checks env" "ae_remember (gated p b env) = ae_remember env"
    "ae_child (gated p b env) = ae_child env" "ae_copytree (gated p b env) = ae_copytree env"
  by (simp_all add: gated_def)

lemma base_other_executor [other_executor]:
  "refresh_task (gated p b env) = refresh_task env"
  "begin_operation (gated p b env) = begin_operation env"
  "record_step (gated p b env) = record_step env"
  "make_receipt (gated p b env) = make_receipt env"
  by (intro ext; unfold refresh_task_def begin_operation_def record_step_def make_receipt_def other_executor; rule refl)+

lemma stop_other_executor [other_executor]:
  "ensure_unverified_receipt (gated p b env) = ensure_unverified_receipt env"
  by (intro ext; unfold ensure_unverified_receipt_def other_executor; rule refl)+

lemma finish_other_executor [other_executor]:
  "finish_run (gated p b env) = finish_run env"
  "cancelled_exit (gated p b env) = cancelled_exit env"
  by (intro ext; unfold finish_run_def cancelled_exit_def other_executor; rule refl)+

lemma recorded_other_executor [other_executor]:
  "recorded (gated p b env) = recorded env"
  "pause_for_user (gated p b env) = pause_for_user env"
  "pause_for_action (gated p b env) = pause_for_action env"
  by (intro ext; unfold recorded_def pause_for_user_def pause_for_action_def other_executor; rule refl)+

lemma pause_other_executor [other_executor]:
  "pause_for_approval (gated p b env) = pause_for_approval env"
  "copy_subtask_outputs (gated p b env) = copy_subtask_outputs env"
  "run_completion_checks (gated p b env) = run_completion_checks env"
  by (intro ext; unfold pause_for_approval_def copy_subtask_outputs_def
      run_completion_checks_def other_executor; rule refl)+

lemma child_other_executor [other_executor]:
  "run_child (gated p b env) = run_child env"
  by (intro ext; unfold run_child_def other_executor; rule refl)+

lemma spawn_other_executor [other_executor]:
  "spawn_allocated (gated p b env) = spawn_allocated env"
  by (intro ext; unfold spawn_allocated_def other_executor; rule refl)+

lemma handle_spawn_other_executor [other_executor]:
  "handle_spawn (gated p b env) = handle_spawn env"
  by (intro ext; unfold handle_spawn_def other_executor; rule refl)+

lemma finish_parts_other_executor [other_executor]:
  "contract_evidence_status (gated p b env) = contract_evidence_status env"
  "accept_delivery (gated p b env) = accept_delivery env"
  "verification_failed (gated p b env) = verification_failed env"
  by (intro ext; unfold contract_evidence_status_def accept_delivery_def
      verification_failed_def other_executor; rule refl)+

lemma judged_other_executor [other_executor]:
  "judged (gated p b env) = judged env"
  by (intro ext; unfold judged_def other_executor; rule refl)+

lemma handle_finish_other_executor [other_executor]:
  "handle_finish (gated p b env) = handle_finish env"
  by (intro ext; unfold handle_finish_def other_executor; rule refl)+

lemma limits_other_executor [other_executor]:
  "marker (gated p b env) = marker env"
  "stop_checks (gated p b env) = stop_checks env"
  "rejected (gated p b env) = rejected env"
  by (intro ext; unfold marker_def stop_checks_def rejected_def other_executor; rule refl)+

lemma steps_other_executor [other_executor]:
  "finish_step (gated p b env) = finish_step env"
  "refused_step (gated p b env) = refused_step env"
  "remember_step (gated p b env) = remember_step env"
  "delegate (gated p b env) = delegate env"
  "route_of (gated p b env) = route_of env"
  "auto_finish (gated p b env) = auto_finish env"
  "collect_evidence (gated p b env) = collect_evidence env"
  by (intro ext; unfold finish_step_def refused_step_def remember_step_def delegate_def
      route_of_def auto_finish_def collect_evidence_def other_executor; rule refl)+

lemma settle_other_executor [other_executor]:
  "settle (gated p b env) = settle env"
  "spawn_step (gated p b env) = spawn_step env"
  by (intro ext; unfold settle_def spawn_step_def other_executor; rule refl)+

lemma action_other_executor [other_executor]:
  "record_action (gated p b env) = record_action env"
  "plan_request_of (gated p b env) = plan_request_of env"
  "plan_failed (gated p b env) = plan_failed env"
  "prepare_rubric (gated p b env) = prepare_rubric env"
  "start_locals (gated p b env) = start_locals env"
  by (intro ext; unfold record_action_def plan_request_of_def plan_failed_def
      prepare_rubric_def make_rubric_def start_locals_def other_executor; rule refl)+

section \<open>The calls of the loop are licensed\<close>

lemma begin_operation_journals:
  "hoare (\<lambda>s. True) (begin_operation env number thought tool args tokens)
     (\<lambda>args' s. (\<exists>i. args' = execution_args i tool args \<and>
        operation_journal (fst (ag_saved s)) =
          Some (journal_entry i number thought tool args' tokens)))
     (\<lambda>_ _. True)"
  by (auto simp: hoare_def begin_operation_def outside_def on_task_def ag_commit_def effect_defs
      split: prod.split)

lemma journaled_entry:
  "operation_journal t = Some (journal_entry i number thought tool args tokens) \<Longrightarrow>
     journaled t tool args"
  by (simp add: journaled_def journal_entry_def dget_def)

lemma run_tool_gated:
  "licensed p manual (fst (ag_saved s)) tool args \<Longrightarrow>
     run_tool (gated p manual env) tool args s = run_tool env tool args s"
  by (simp add: run_tool_def gated_def)

lemma execution_args_plain [simp]:
  "tool \<notin> {''send_email'', ''create_event''} \<Longrightarrow> execution_args i tool args = args"
  by (auto simp: execution_args_def)

lemma route_execute:
  "route_of env tool args lo = dispatch_route.Execute \<Longrightarrow>
     tool \<noteq> None \<and> approval_reason tool args lo = None"
  by (auto simp: route_of_def route_def split: option.splits if_splits)

lemma not_needs_user:
  assumes "approval_reason (Some tool) args lo = None" "lo_approval lo = manual"
    and "tool \<notin> {''send_email'', ''create_event''}"
  shows "\<not> needs_user manual tool args"
  using assms by (auto simp: needs_user_def approval_reason_def split: prod.splits verdict.splits if_splits)

text \<open>An iteration hands on the approval mode it was given.\<close>

definition flows :: "bool \<Rightarrow> ('w, flow) agent_act \<Rightarrow> bool" where
  "flows a m =
     hoare (\<lambda>_. True) m (\<lambda>fl _. case fl of Over \<Rightarrow> True | Next lo \<Rightarrow> lo_approval lo = a) (\<lambda>_ _. True)"

named_theorems flow_rules "rules for flows"

lemma flows_over [flow_rules]: "flows a (over m)"
  unfolding flows_def over_def by (rule hoare_then [OF hoare_true hoare_ret]) simp

lemma flows_next [flow_rules]: "lo_approval lo = a \<Longrightarrow> flows a (ret (Next lo))"
  unfolding flows_def by (rule hoare_ret) simp

lemma flows_done [flow_rules]: "flows a (ret Over)"
  unfolding flows_def by (rule hoare_ret) simp

lemma flows_raise [flow_rules]: "flows a (raise e)"
  unfolding flows_def by (rule hoare_raise) simp

lemma flows_bind_post:
  assumes "hoare (\<lambda>_. True) m (\<lambda>x _. R x) (\<lambda>_ _. True)" "\<And>x. R x \<Longrightarrow> flows a (f x)"
  shows "flows a (bindE m f)"
  unfolding flows_def
proof (rule hoare_bind [OF assms(1)])
  fix x
  show "hoare (\<lambda>_. R x) (f x)
      (\<lambda>fl _. case fl of Over \<Rightarrow> True | Next lo \<Rightarrow> lo_approval lo = a) (\<lambda>_ _. True)"
    using assms(2) by (cases "R x") (auto simp: flows_def hoare_def)
qed

lemma flows_bind [flow_rules]: "(\<And>x. flows a (f x)) \<Longrightarrow> flows a (bindE m f)"
  unfolding flows_def by (rule hoare_bind [OF hoare_true])

lemma flows_then [flow_rules]: "flows a n \<Longrightarrow> flows a (thenE m n)"
  unfolding thenE_def by (rule flows_bind)

lemma flows_with_task [flow_rules]: "(\<And>t. flows a (f t)) \<Longrightarrow> flows a (with_task f)"
  unfolding with_task_def by (rule flows_bind)

lemma flows_if [flow_rules]: "flows a m \<Longrightarrow> flows a n \<Longrightarrow> flows a (if b then m else n)"
  by simp

lemma flows_pair [flow_rules]: "(\<And>x y. flows a (f x y)) \<Longrightarrow> flows a (case p of (x, y) \<Rightarrow> f x y)"
  by (cases p) simp

lemma flows_reply [flow_rules]:
  "(\<And>x. flows a (f x)) \<Longrightarrow> (\<And>y. flows a (g y)) \<Longrightarrow> flows a (case p of Inl x \<Rightarrow> f x | Inr y \<Rightarrow> g y)"
  by (cases p) auto

lemma flows_let [flow_rules]: "flows a (f v) \<Longrightarrow> flows a (let x = v in f x)"
  by (simp add: Let_def)

lemma lo_approval_updates [simp]:
  "lo_approval (observed tool args obs st force changed lo) = lo_approval lo"
  "lo_approval (count_writes tool' args lo) = lo_approval lo"
  by (auto simp: observed_def count_writes_def Let_def split: option.splits)

lemma flows_stop_checks [flow_rules]: "lo_approval lo = a \<Longrightarrow> flows a (stop_checks env b n lo)"
  unfolding stop_checks_def by (intro flow_rules)

lemma flows_rejected [flow_rules]: "flows a m \<Longrightarrow> flows a (rejected env what score lo m)"
  unfolding rejected_def by (intro flow_rules)

lemma flows_small [flow_rules]:
  assumes "lo_approval lo = a"
  shows "flows a (finish_step env number thought args tokens lo)"
    and "flows a (refused_step env number thought tool args tokens lo)"
    and "flows a (remember_step env number thought args tokens lo)"
    and "flows a (spawn_step env number thought args tokens lo)"
    and "flows a (auto_finish env number lo)"
  unfolding finish_step_def refused_step_def remember_step_def spawn_step_def auto_finish_def
  by (intro flow_rules; simp add: assms)+

lemma flows_settle [flow_rules]:
  assumes "lo_approval lo = a"
  shows "flows a (settle env number tool st changed lo)"
proof -
  have "hoare (\<lambda>_. True) (collect_evidence env number tool lo)
          (\<lambda>x _. case x of (ready, lo') \<Rightarrow> lo_approval lo' = a) (\<lambda>_ _. True)"
    unfolding collect_evidence_def with_task_def
    by (intro hoare_bind [OF hoare_true] hoare_if hoare_pair hoare_then [OF hoare_true] hoare_ret)
      (simp_all add: assms)
  then have "flows a (bindE (collect_evidence env number tool lo) (\<lambda>(ready, lo').
          if ready then auto_finish env number lo' else stop_checks env True number lo'))"
    by (intro flows_bind_post [where R = "\<lambda>(ready, lo'). lo_approval lo' = a"])
      (auto simp: case_prod_beta intro!: flows_if flows_small flows_stop_checks)
  then show ?thesis
    unfolding settle_def by (simp add: flows_stop_checks [OF assms])
qed

lemma flows_record_action [flow_rules]:
  "lo_approval lo = a \<Longrightarrow> flows a (record_action env number thought tool args obs st tokens m lo)"
  unfolding record_action_def by (intro flow_rules; simp)

lemma flows_execute_step [flow_rules]:
  "lo_approval lo = a \<Longrightarrow> flows a (execute_step env number thought tool args tokens lo)"
  unfolding execute_step_def Let_def
  by (intro flow_rules; cases "route_of env tool args (count_writes tool args lo)")
    (auto intro!: flow_rules)

lemma flows_loop_iteration:
  "lo_approval lo = a \<Longrightarrow> flows a (loop_iteration env number lo)"
  unfolding loop_iteration_def plan_step_def act_on_def plan_failed_def
  by (intro flow_rules; simp)

lemma agrees_execute_step:
  assumes lo: "lo_approval lo0 = manual"
    and tool: "tool \<notin> {Some ''send_email'', Some ''create_event''}"
  shows "execute_step (gated p manual env) number thought tool args tokens lo0 =
         execute_step env number thought tool args tokens lo0"
proof -
  let ?lo = "count_writes tool args lo0"
  have run: "agrees (\<lambda>_. True)
      (bindE (begin_operation env number thought (tool_name tool) args tokens) (\<lambda>args'.
         bindE (run_tool (gated p manual env) (tool_name tool) args') (f args')))
      (bindE (begin_operation env number thought (tool_name tool) args tokens) (\<lambda>args'.
         bindE (run_tool env (tool_name tool) args') (f args')))"
    if r: "route_of env tool args ?lo = dispatch_route.Execute" for f
  proof -
    obtain t where t: "tool = Some t" "approval_reason tool args ?lo = None"
      using route_execute [OF r] by blast
    then have plain: "t \<notin> {''send_email'', ''create_event''}" using tool by auto
    have free: "\<not> needs_user manual t args"
      by (rule not_needs_user [OF t(2) [unfolded t(1)] _ plain]) (simp add: lo)
    show ?thesis
    proof (rule agrees_bind [OF agrees_refl [OF refl] begin_operation_journals])
      fix args'
      show "agrees (\<lambda>s. \<exists>i. args' = execution_args i (tool_name tool) args \<and>
              operation_journal (fst (ag_saved s)) =
                Some (journal_entry i number thought (tool_name tool) args' tokens))
             (bindE (run_tool (gated p manual env) (tool_name tool) args') (f args'))
             (bindE (run_tool env (tool_name tool) args') (f args'))"
        using plain free t(1)
        by (intro agrees_bind [OF _ hoare_true agrees_refl [OF refl]])
          (auto simp: agrees_def tool_name_def licensed_def intro!: run_tool_gated
            dest: journaled_entry)
    qed
  qed
  show ?thesis
    unfolding execute_step_def Let_def other_executor
    by (rule ext, rule agreesD [OF agrees_bind [OF agrees_refl [OF refl] hoare_true]])
      (cases "route_of env tool args ?lo"; simp add: run agrees_refl)+
qed

lemma agrees_iteration:
  assumes "lo_approval lo = manual"
  shows "loop_iteration (gated p manual env) number lo = loop_iteration env number lo"
proof -
  have act: "act_on (gated p manual env) number d tokens lo = act_on env number d tokens lo"
    for d tokens
    unfolding act_on_def Let_def other_executor
    by (simp add: agrees_execute_step [OF assms] cong: if_cong)
  show ?thesis
    unfolding loop_iteration_def plan_step_def other_executor act ..
qed

lemma agrees_run_steps:
  "lo_approval lo = manual \<Longrightarrow> run_steps (gated p manual env) ns lo = run_steps env ns lo"
proof (induction ns arbitrary: lo)
  case Nil
  show ?case unfolding run_steps.simps other_executor ..
next
  case (Cons n ns)
  have rest: "agrees (\<lambda>_. True)
      (bindE (loop_iteration env n lo)
         (\<lambda>fl. case fl of Over \<Rightarrow> ret () | Next lo' \<Rightarrow> run_steps (gated p manual env) ns lo'))
      (bindE (loop_iteration env n lo)
         (\<lambda>fl. case fl of Over \<Rightarrow> ret () | Next lo' \<Rightarrow> run_steps env ns lo'))"
    by (rule agrees_bind [OF agrees_refl [OF refl] flows_loop_iteration [unfolded flows_def, OF Cons.prems]])
      (auto simp: agrees_def Cons.IH split: flow.split)
  show ?case
    unfolding run_steps.simps agrees_iteration [OF Cons.prems] Cons.IH [OF Cons.prems]
    using rest by (auto simp: agrees_def fun_eq_iff)
qed

section \<open>The whole loop\<close>

text \<open>What is approved, and whether commands need approval, is fixed when the loop starts.\<close>

definition starts_with :: "jdict option \<Rightarrow> bool \<Rightarrow> 'w agent \<Rightarrow> bool" where
  "starts_with p b s = (pending_action (ag_task s) = p \<and> require_approval (ag_task s) = b)"

interpretation approval_mode: phase_frame env "\<lambda>s. require_approval (ag_task s) = b"
  for env :: "('w, 'k, 'p) agent_env" and b
  by unfold_locales (auto simp: same_policy_def record_step_def Let_def intro: stableI)

lemma starts_outside: "stable (starts_with p b) (outside f)"
  by (rule stableI) (auto simp: outside_def starts_with_def split: prod.splits)

lemma prepare_rubric_starts: "stable (starts_with p b) (prepare_rubric env)"
proof -
  have on: "stable (starts_with p b) (on_task f)"
    if "\<And>t. pending_action (f t) = pending_action t \<and> require_approval (f t) = require_approval t"
    for f :: "task \<Rightarrow> task"
    unfolding on_task_def by (rule stable_modify) (simp add: starts_with_def that)
  have tr: "stable (starts_with p b) (transition_to ev r sr)" for ev r sr
    by (rule stableI) (use transition_to_moves in \<open>fastforce simp: starts_with_def moved_def\<close>)
  have com: "stable (starts_with p b) ag_commit"
    unfolding ag_commit_def by (rule stable_modify) (simp add: starts_with_def)
  show ?thesis
    unfolding prepare_rubric_def make_rubric_def with_task_def
    by (intro stable_bind stable_then stable_if stable_basic on tr com starts_outside)
      (simp split: sum.split add: record_model_use_def)
qed

lemma agrees_resume:
  "agrees (starts_with p b) (resume_action (gated p manual env) n) (resume_action env n)"
proof (cases p)
  case None
  then show ?thesis
    by (auto simp: agrees_def resume_action_def with_task_def starts_with_def effect_defs)
next
  case (Some a)
  have ok: "licensed p manual (fst (ag_saved s)) (py_str v) args'"
    if "map_of a ''tool'' = Some v" "dget_or a ''args'' (JObj []) = JObj args"
      "args' = execution_args i (py_str v) args"
      "operation_journal (fst (ag_saved s)) = Some (journal_entry i n approved_thought (py_str v) args' 0)"
    for s :: "'a agent" and v args args' i
    using that journaled_entry [OF that(4)]
    by (simp add: licensed_def user_approved_def Some journal_entry_def dget_def py_str_def)
  have run: "agrees (\<lambda>_. True) (run_approved (gated p manual env) n (py_str v) args)
               (run_approved env n (py_str v) args)"
    if a: "map_of a ''tool'' = Some v" "dget_or a ''args'' (JObj []) = JObj args" for v args
  proof -
    have "agrees (\<lambda>s. \<exists>i. args' = execution_args i (py_str v) args \<and>
              operation_journal (fst (ag_saved s)) =
                Some (journal_entry i n approved_thought (py_str v) args' 0))
            (bindE (run_tool (gated p manual env) (py_str v) args') f)
            (bindE (run_tool env (py_str v) args') f)" for args' f
      by (intro agrees_bind [OF _ hoare_true agrees_refl [OF refl]])
        (auto simp: agrees_def intro!: run_tool_gated ok [OF a])
    then show ?thesis
      unfolding run_approved_def other_executor
      by (intro agrees_then [OF agrees_refl [OF refl] hoare_true]
          agrees_bind [OF agrees_refl [OF refl] begin_operation_journals])
  qed
  show ?thesis
    unfolding agrees_def
  proof (intro allI impI)
    fix s :: "'a agent" assume s: "starts_with p b s"
    show "resume_action (gated p manual env) n s = resume_action env n s"
      using s agreesD [OF run]
      by (auto simp: resume_action_def with_task_def starts_with_def Some effect_defs
          split: option.split json.split)
  qed
qed

text \<open>
  C8. Nothing reaches the executor unlicensed. Whatever the models, the tools and the children
  do, the loop behaves as if a gate in front of the executor refused every call that is not
  recorded, with its arguments, in the journal of the committed row, every mail and calendar
  event that is not the action the user approved, and, when commands need approval, every
  command the policy does not allow by itself. So a call that was interrupted is on record.
\<close>

theorem calls_are_licensed:
  "run_loop (gated (pending_action (ag_task s)) (manual_approval env (ag_task s)) env) start s =
   run_loop env start s"
proof -
  define p where "p = pending_action (ag_task s)"
  define b where "b = require_approval (ag_task s)"
  define manual where "manual = manual_approval env (ag_task s)"
  have manual: "manual = (b \<or> agent_approval_mode (ae_settings env) = ''manual'')"
    by (simp add: manual_def manual_approval_def b_def)
  have rest: "agrees (\<lambda>u. require_approval (ag_task u) = b)
      (bindE (gets (start_locals env reserve)) (\<lambda>lo.
         with_task (\<lambda>t. run_steps (gated p manual env) [n..max_steps t] lo)))
      (bindE (gets (start_locals env reserve)) (\<lambda>lo. with_task (\<lambda>t. run_steps env [n..max_steps t] lo)))"
    for reserve n
    by (auto simp: agrees_def with_task_def effect_defs start_locals_def manual agrees_run_steps)
  have after: "agrees (\<lambda>u. require_approval (ag_task u) = b)
      (case next_n of None \<Rightarrow> ret ()
       | Some n \<Rightarrow> bindE (gets (start_locals env reserve)) (\<lambda>lo.
           with_task (\<lambda>t. run_steps (gated p manual env) [n..max_steps t] lo)))
      (case next_n of None \<Rightarrow> ret ()
       | Some n \<Rightarrow> bindE (gets (start_locals env reserve)) (\<lambda>lo.
           with_task (\<lambda>t. run_steps env [n..max_steps t] lo)))" for next_n reserve
    using rest by (cases next_n) (auto simp: agrees_refl)
  have resumed: "hoare (starts_with p b) (resume_action env start)
      (\<lambda>_ u. require_approval (ag_task u) = b) (\<lambda>_ _. True)"
    by (rule hoare_weaken [OF approval_mode.resume_action_stable [unfolded stable_def]])
      (simp_all add: starts_with_def)
  have prepared: "hoare (starts_with p b) (prepare_rubric env) (\<lambda>_. starts_with p b) (\<lambda>_ _. True)"
    by (rule hoare_weaken [OF prepare_rubric_starts [unfolded stable_def]]) simp_all
  have "agrees (starts_with p b) (run_loop (gated p manual env) start) (run_loop env start)"
    unfolding run_loop_def other_executor with_task_def [of "\<lambda>t0. thenE (prepare_rubric env) (g t0)" for g]
    by (intro agrees_bind [OF agrees_refl [OF refl] hoare_gets [where Q = "\<lambda>_. starts_with p b"]]
        agrees_then [OF agrees_refl [OF refl] prepared] agrees_bind [OF agrees_resume resumed] after)
  then show ?thesis
    by (simp add: agrees_def starts_with_def p_def b_def manual_def)
qed

end
