(* ===== verification/Agent_Ledger.thy ===== *)
theory Agent_Ledger
  imports Agent_Frame Agent_Sample
begin

text \<open>
  The record of a run. \<open>recorded_run\<close> holds at every point of the loop: the steps verify, the head
  and the working memory are those a resumed run rebuilds from the database, nothing recorded
  is ever lost, and every recorded step is committed. \<open>numbered\<close> says that the numbers of the
  steps increase.
\<close>

section \<open>The ledger and the working memory\<close>

definition memory_of :: "step list \<Rightarrow> history_entry list option" where
  "memory_of steps = all_some (map history_entry_of steps)"

definition recorded_run :: "string \<Rightarrow> step list \<Rightarrow> 'w agent \<Rightarrow> bool" where
  "recorded_run i log0 s \<longleftrightarrow>
     task_id (ag_task s) = i \<and> fst (verify_chain i (ag_log s)) \<and>
     ag_head s = ledger_head i (ag_log s) \<and> memory_of (ag_log s) = Some (ag_history s) \<and>
     prefix log0 (ag_log s) \<and> snd (ag_saved s) = ag_log s"

lemma all_some_snoc:
  "all_some xs = Some ys \<Longrightarrow> all_some (xs @ [Some y]) = Some (ys @ [y])"
proof (induction xs arbitrary: ys)
  case (Cons x xs)
  then show ?case by (cases x) auto
qed simp

lemma history_entry_of_new:
  "history_entry_of (new_step h n th tool args obs (tool_status_value st) k) =
     Some \<lparr>he_number = n, he_thought = th, he_tool = tool, he_args = args,
       he_observation = obs, he_status = st\<rparr>"
  by (simp add: history_entry_of_def new_step_def)

lemma recorded_run_step: "stable (recorded_run i log0) (record_step env n th tool args obs st k)"
proof (rule stableI)
  fix s r s' assume inv: "recorded_run i log0 s"
    and run: "record_step env n th tool args obs st k s = (r, s')"
  define obs' where "obs' = (if agent_redact_secrets (ae_settings env) then redact_secrets obs else obs)"
  define x where "x = new_step (ledger_head i (ag_log s)) n th tool args obs' (tool_status_value st) k"
  have s': "ag_log s' = ag_log s @ [x]" "ag_head s' = st_hash x" "snd (ag_saved s') = ag_log s @ [x]"
    "task_id (ag_task s') = i"
    "ag_history s' = ag_history s @ [\<lparr>he_number = n, he_thought = th, he_tool = tool, he_args = args,
       he_observation = obs', he_status = st\<rparr>]"
    using run inv by (auto simp: record_step_def Let_def obs'_def x_def recorded_run_def)
  have "fst (verify_chain i (ag_log s @ [x]))"
    using inv by (simp add: verify_chain_append_step x_def recorded_run_def)
  moreover have "memory_of (ag_log s @ [x]) = Some (ag_history s')"
    using inv by (simp add: memory_of_def recorded_run_def s'(5) all_some_snoc history_entry_of_new x_def)
  ultimately show "recorded_run i log0 s'"
    using inv by (simp add: recorded_run_def s' ledger_head_def)
qed

definition keeps_id :: "('w, 'k, 'p) agent_env \<Rightarrow> bool" where
  "keeps_id env \<longleftrightarrow> (\<forall>w t. task_id (fst (ae_refresh env w t)) = task_id t)"

interpretation run_record: run_frame env "\<lambda>s. keeps_id env \<longrightarrow> recorded_run i log0 s"
  for env :: "('w, 'k, 'p) agent_env" and i log0
proof unfold_locales
  show "stable (\<lambda>s. keeps_id env \<longrightarrow> recorded_run i log0 s) (record_step env n th tool args obs st k)"
    for n th tool args obs st k
    by (rule stableI) (use recorded_run_step in \<open>blast dest: stableD\<close>)
  show "stable (\<lambda>s. keeps_id env \<longrightarrow> recorded_run i log0 s) (refresh_task env)"
  proof (rule stableI)
    fix s r s' assume inv: "keeps_id env \<longrightarrow> recorded_run i log0 s" and run: "refresh_task env s = (r, s')"
    obtain t w where tw: "ae_refresh env (ag_world s) (ag_task s) = (t, w)" by (rule prod.exhaust)
    then have "keeps_id env \<Longrightarrow> task_id t = task_id (ag_task s)"
      using keeps_id_def [of env] by (metis fst_conv)
    then show "keeps_id env \<longrightarrow> recorded_run i log0 s'"
      using inv run tw by (auto simp: refresh_task_def recorded_run_def)
  qed
qed (auto simp: recorded_run_def same_policy_def)

section \<open>The numbers of the steps\<close>

text \<open>\<open>m\<close> is the step limit. A handler of step \<open>n\<close> records at most one step: \<open>records_once\<close>.\<close>

definition numbered :: "int \<Rightarrow> step list \<Rightarrow> bool" where
  "numbered n xs \<longleftrightarrow> sorted_wrt (<) (map st_number xs) \<and> (\<forall>x \<in> set xs. st_number x \<le> n)"

definition below :: "int \<Rightarrow> int \<Rightarrow> 'w agent \<Rightarrow> bool" where
  "below m n s \<longleftrightarrow> numbered n (ag_log s) \<and> max_steps (ag_task s) = m"

lemma below_mono: "below m n s \<Longrightarrow> n \<le> n' \<Longrightarrow> below m n' s"
  by (auto simp: below_def numbered_def)

lemma numbered_snoc: "numbered (n - 1) xs \<Longrightarrow> st_number x = n \<Longrightarrow> numbered n (xs @ [x])"
  by (fastforce simp: numbered_def sorted_wrt_append)

interpretation steps_below: quiet_frame env "below m n"
  for env :: "('w, 'k, 'p) agent_env" and m n
  by unfold_locales (auto simp: below_def same_policy_def)

definition records_once :: "int \<Rightarrow> int \<Rightarrow> ('w, 'a) agent_act \<Rightarrow> bool" where
  "records_once m n act = hoare (below m (n - 1)) act (\<lambda>_. below m n) (\<lambda>_. below m n)"

lemma once_record: "records_once m n (record_step env n th tool args obs st k)"
  unfolding records_once_def
  by (rule hoareI) (auto simp: record_step_def Let_def below_def new_step_def intro!: numbered_snoc)

lemma once_quiet: "stable (below m (n - 1)) act \<Longrightarrow> records_once m n act"
  unfolding records_once_def stable_def by (erule hoare_weaken) (auto intro: below_mono)

lemma once_bind:
  assumes "stable (below m (n - 1)) act" "\<And>a. records_once m n (f a)"
  shows "records_once m n (bindE act f)"
  unfolding records_once_def
proof (rule hoare_bind [where R = "\<lambda>_. below m (n - 1)"])
  show "hoare (below m (n - 1)) act (\<lambda>_. below m (n - 1)) (\<lambda>_. below m n)"
    by (rule hoare_weaken [OF assms(1) [unfolded stable_def]]) (auto intro: below_mono)
  show "hoare (below m (n - 1)) (f a) (\<lambda>_. below m n) (\<lambda>_. below m n)" for a
    by (rule assms(2) [unfolded records_once_def])
qed

lemma once_then: "stable (below m (n - 1)) act \<Longrightarrow> records_once m n b \<Longrightarrow> records_once m n (thenE act b)"
  unfolding thenE_def by (rule once_bind)

lemma once_after: "records_once m n act \<Longrightarrow> (\<And>a. stable (below m n) (f a)) \<Longrightarrow> records_once m n (bindE act f)"
  unfolding records_once_def stable_def by (rule hoare_bind)

lemma once_after_then: "records_once m n act \<Longrightarrow> stable (below m n) b \<Longrightarrow> records_once m n (thenE act b)"
  unfolding thenE_def by (rule once_after)

lemma once_with_task: "(\<And>t. records_once m n (f t)) \<Longrightarrow> records_once m n (with_task f)"
  unfolding with_task_def by (intro once_bind stable_basic)

lemma once_if: "(b \<Longrightarrow> records_once m n x) \<Longrightarrow> (\<not> b \<Longrightarrow> records_once m n y) \<Longrightarrow> records_once m n (if b then x else y)"
  and once_let: "(\<And>v. records_once m n (g v)) \<Longrightarrow> records_once m n (let v = u in g v)"
  and once_pair: "(\<And>a b. records_once m n (h a b)) \<Longrightarrow> records_once m n (case p of (a, b) \<Rightarrow> h a b)"
  and once_option: "records_once m n x \<Longrightarrow> (\<And>a. records_once m n (k a)) \<Longrightarrow>
     records_once m n (case mb of None \<Rightarrow> x | Some a \<Rightarrow> k a)"
  and once_sum: "(\<And>a. records_once m n (i a)) \<Longrightarrow> (\<And>a. records_once m n (j a)) \<Longrightarrow>
     records_once m n (case q of Inl a \<Rightarrow> i a | Inr a \<Rightarrow> j a)"
  by (simp_all split: prod.split option.split sum.split)

lemmas once_rules = once_bind once_then once_with_task once_if once_let once_pair once_option once_sum
lemmas still = steps_below.quiet_stable

lemma once_recorded: "records_once m n (recorded env reason n th tool args obs st k)"
  unfolding recorded_def by (intro once_then once_record still)

lemma once_pause:
  "records_once m n (pause_for_user env args th n k)"
  "records_once m n (pause_for_action env tool args th n k what)"
  "records_once m n (pause_for_approval env args th n k why)"
  unfolding pause_for_user_def pause_for_approval_def pause_for_action_def seqE.simps
  by (intro once_let once_after_then once_record still; simp)+

lemma once_spawn:
  "records_once m n (run_child env child_goal al caps hosts args th n k)"
  "records_once m n (spawn_allocated env child_goal al args th n k)"
  "records_once m n (handle_spawn env args th n k)"
proof -
  show child: "records_once m n (run_child env child_goal al caps hosts args th n k)"
    for child_goal al caps hosts args th n k
    unfolding run_child_def by (intro once_rules once_recorded still; simp)
  show alloc: "records_once m n (spawn_allocated env child_goal al args th n k)"
    for child_goal al args th n k
    unfolding spawn_allocated_def by (intro once_rules once_recorded child still)
  show "records_once m n (handle_spawn env args th n k)"
    unfolding handle_spawn_def by (intro once_rules once_recorded alloc still)
qed

lemma once_finish: "records_once m n (handle_finish env args th n k)"
proof -
  have failed: "records_once m n (verification_failed env f args th n k)" for f
    unfolding verification_failed_def by (intro once_after_then once_record still)
  have judged: "records_once m n (judged env r results authoritative what args th n k)"
    for r results authoritative what
    unfolding judged_def accept_delivery_def
    by (intro once_then [OF still(1)] once_with_task once_bind once_after_then once_record still; simp)
  show ?thesis
    unfolding handle_finish_def by (intro once_rules still failed judged)
qed

section \<open>One iteration\<close>

lemma once_steps:
  "records_once m n (finish_step env n th args k lo)"
  "records_once m n (refused_step env n th tool args k lo)"
  "records_once m n (remember_step env n th args k lo)"
  "records_once m n (spawn_step env n th args k lo)"
proof -
  show "records_once m n (finish_step env n th args k lo)"
    unfolding finish_step_def over_def
    by (intro once_bind once_if once_then [OF still(4)] once_after once_after_then once_record
        once_finish still; simp add: still stable_let stable_then stable_pair)
  show "records_once m n (refused_step env n th tool args k lo)"
    unfolding refused_step_def by (intro once_after_then once_recorded still)
  show "records_once m n (remember_step env n th args k lo)"
    unfolding remember_step_def
    by (intro once_let once_bind once_then once_after_then once_recorded still)
  have "records_once m n (delegate env n th args k lo)"
    unfolding delegate_def
    by (intro once_option once_bind once_after_then once_recorded once_spawn still)
  then show "records_once m n (spawn_step env n th args k lo)"
    unfolding spawn_step_def by (intro once_after still)
qed

text \<open>An accepted contract is submitted under the next number, which the loop then skips.\<close>

definition flow_below :: "int \<Rightarrow> int \<Rightarrow> flow \<Rightarrow> 'w agent \<Rightarrow> bool" where
  "flow_below m n fl s \<longleftrightarrow>
     below m m s \<and>
     (case fl of Over \<Rightarrow> True
      | Next lo \<Rightarrow> below m n s \<or> lo_skipped lo = Some (n + 1) \<and> below m (n + 1) s)"

definition steps_flow :: "int \<Rightarrow> int \<Rightarrow> ('w, flow) agent_act \<Rightarrow> bool" where
  "steps_flow m n act = hoare (below m (n - 1)) act (flow_below m n) (\<lambda>_. below m m)"

lemma once_flow: "records_once m n act \<Longrightarrow> n \<le> m \<Longrightarrow> steps_flow m n act"
  unfolding records_once_def steps_flow_def
  by (erule hoare_weaken) (auto simp: flow_below_def intro: below_mono split: flow.split)

lemma stop_checks_hands_on:
  "hoare (below m n) (stop_checks env b k lo) (\<lambda>fl s. below m n s \<and> (fl = Over \<or> fl = Next lo))
     (\<lambda>_. below m n)"
proof -
  have "hoare (\<lambda>_. True) (stop_checks env b k lo) (\<lambda>fl _. fl = Over \<or> fl = Next lo) (\<lambda>_ _. True)"
    unfolding stop_checks_def with_task_def over_def
    by (intro hoare_bind [OF hoare_true] hoare_if hoare_then [OF hoare_true] hoare_ret) simp_all
  then have "hoare (below m n) (stop_checks env b k lo) (\<lambda>fl _. fl = Over \<or> fl = Next lo) (\<lambda>_ _. True)"
    by (rule hoare_weaken) simp_all
  from hoare_conj [OF steps_below.stop_stable(1) [unfolded stable_def] this] show ?thesis
    by (rule hoare_weaken) simp_all
qed

lemma stop_checks_flow:
  "n \<le> m \<Longrightarrow> hoare (below m n) (stop_checks env b k lo) (flow_below m n) (\<lambda>_. below m m)"
  by (rule hoare_weaken [OF stop_checks_hands_on [of m n]]) (auto simp: flow_below_def intro: below_mono)

lemma below_up: "below m (n + 1) s \<Longrightarrow> n < m \<Longrightarrow> below m m s"
  by (auto intro: below_mono)

lemma quiet_upto:
  "stable (below m i) act \<Longrightarrow> i \<le> b \<Longrightarrow> hoare (below m i) act (\<lambda>_. below m i) (\<lambda>_. below m b)"
  unfolding stable_def by (erule hoare_weaken) (auto intro: below_mono)

lemmas quiet_below = quiet_upto [where b = m and m = m for m]

lemma auto_finish_flow:
  "hoare (\<lambda>s. below m n s \<and> n < m) (auto_finish env n lo) (flow_below m n) (\<lambda>_. below m m)"
proof (cases "n < m")
  case False
  then show ?thesis by (simp add: hoare_def)
next
  case True
  note up = below_up [OF _ True]
  have le: "n \<le> m" "n + 1 \<le> m" using True by simp_all
  let ?lo = "\<lambda>now. lo\<lparr>lo_skipped := Some (n + 1), lo_rejected := Some now, lo_retries := lo_retries lo + 1\<rparr>"
  have rest: "hoare (below m (n + 1))
      (rejected env what score (?lo now) (with_task (\<lambda>t. if token_budget t \<le> tokens_used t
          then over (finish_run env BudgetExhausted) else stop_checks env True n (?lo now))))
      (flow_below m n) (\<lambda>_. below m m)" for what score now
  proof -
    have over: "hoare (below m (n + 1)) (over act) (flow_below m n) (\<lambda>_. below m m)"
      if "stable (below m (n + 1)) act" for act
      by (rule hoare_over [OF hoare_weaken [OF that [unfolded stable_def], where Q' = "\<lambda>_. below m (n + 1)"]])
        (auto simp: flow_below_def up)
    have stop: "hoare (below m (n + 1)) (stop_checks env True n (?lo now)) (flow_below m n) (\<lambda>_. below m m)"
      by (rule hoare_weaken [OF stop_checks_hands_on [of m "n + 1"]]) (auto simp: flow_below_def up)
    show ?thesis
      unfolding rejected_def with_task_def
      by (intro hoare_if over stop hoare_bind [OF hoare_gets [where Q = "\<lambda>_. below m (n + 1)"]] still;
          simp add: still)
  qed
  have fin: "hoare (below m n) (handle_finish env args th (n + 1) k) (\<lambda>_. below m (n + 1)) (\<lambda>_. below m m)"
    for args th k
    by (rule hoare_weaken [OF once_finish [of m "n + 1", unfolded records_once_def]]) (auto intro: up)
  have "hoare (below m n) (auto_finish env n lo) (flow_below m n) (\<lambda>_. below m m)"
    unfolding auto_finish_def Let_def
    by (rule hoare_then [OF quiet_below [OF still(4)]] hoare_bind [OF fin] hoare_pair hoare_if
          hoare_ret hoare_let rest hoare_then [OF quiet_below [OF steps_below.stop_stable(3)]]
          hoare_bind [OF quiet_below [OF steps_below.stop_stable(4)]] |
        simp add: flow_below_def up le)+
  then show ?thesis by (rule hoare_pre) simp
qed

lemma collect_below:
  "hoare (below m n) (collect_evidence env n tool lo)
     (\<lambda>x s. below m n s \<and> (fst x \<longrightarrow> n < m)) (\<lambda>_. below m n)"
proof -
  have t: "hoare (below m n) (gets ag_task) (\<lambda>t s. below m n s \<and> max_steps t = m) (\<lambda>_. below m n)"
    by (rule hoare_gets) (simp add: below_def)
  have c: "hoare (below m n)
      (bindE (contract_evidence_status env) (\<lambda>(ready, evidence).
           thenE (modify (\<lambda>s. s\<lparr>ag_notice := evidence_notice evidence ready\<rparr>))
             (ret (ready,
                if evidence \<noteq> [] \<and> \<not> ready \<and> tool \<noteq> Some ''write_file''
                then lo\<lparr>lo_guard := permit_reinspection None (lo_guard lo)\<rparr> else lo))))
      (\<lambda>_. below m n) (\<lambda>_. below m n)"
    unfolding stable_def [symmetric] by (intro still)
  show ?thesis
    unfolding collect_evidence_def with_task_def
  proof (rule hoare_bind [OF t])
    fix t
    show "hoare (\<lambda>s. below m n s \<and> max_steps t = m)
        (if \<not> n < max_steps t then ret (False, lo)
         else bindE (contract_evidence_status env) (\<lambda>(ready, evidence).
           thenE (modify (\<lambda>s. s\<lparr>ag_notice := evidence_notice evidence ready\<rparr>))
             (ret (ready,
                if evidence \<noteq> [] \<and> \<not> ready \<and> tool \<noteq> Some ''write_file''
                then lo\<lparr>lo_guard := permit_reinspection None (lo_guard lo)\<rparr> else lo))))
        (\<lambda>x s. below m n s \<and> (fst x \<longrightarrow> n < m)) (\<lambda>_. below m n)"
    proof (cases "max_steps t = m")
      case True
      show ?thesis
        by (rule hoare_if; (rule hoare_ret)?; (rule hoare_weaken [OF c])?) (auto simp: True)
    qed (simp add: hoare_def)
  qed
qed

lemma settle_flow:
  assumes "n \<le> m"
  shows "hoare (below m n) (settle env n tool st changed lo) (flow_below m n) (\<lambda>_. below m m)"
proof -
  have collect: "hoare (below m n) (collect_evidence env n tool lo)
     (\<lambda>x s. below m n s \<and> (fst x \<longrightarrow> n < m)) (\<lambda>_. below m m)"
    by (rule hoare_weaken [OF collect_below]) (use assms in \<open>auto intro: below_mono\<close>)
  show ?thesis
    unfolding settle_def
    by (intro hoare_if stop_checks_flow assms hoare_bind [OF collect] hoare_pair)
      (auto intro: hoare_pre [OF auto_finish_flow] hoare_pre [OF stop_checks_flow] assms)
qed

lemma record_action_flow:
  assumes "n \<le> m"
  shows "steps_flow m n (record_action env n th tool args obs st k before_marker lo)"
proof -
  have rec: "hoare (below m (n - 1)) (recorded env reason n th tool args obs st k)
      (\<lambda>_. below m n) (\<lambda>_. below m m)" for reason tool
    by (rule hoare_weaken [OF once_recorded [unfolded records_once_def]])
      (use assms in \<open>auto intro: below_mono\<close>)
  show ?thesis
    unfolding record_action_def steps_flow_def
    by (intro hoare_then [OF rec] hoare_bind [OF quiet_below [OF steps_below.stop_stable(4)]] hoare_let
        settle_flow assms)
qed

lemma flow_over:
  "records_once m n act \<Longrightarrow> n \<le> m \<Longrightarrow> steps_flow m n (over act)"
  unfolding over_def by (intro once_flow once_after_then still)

lemma flow_quiet:
  "stable (below m (n - 1)) act \<Longrightarrow> n \<le> m \<Longrightarrow> (\<And>a. steps_flow m n (f a)) \<Longrightarrow> steps_flow m n (bindE act f)"
  unfolding steps_flow_def by (rule hoare_bind [OF quiet_below]) auto

lemma execute_step_flow:
  assumes "n \<le> m"
  shows "steps_flow m n (execute_step env n th tool args k lo0)"
proof -
  have "steps_flow m n
     (case route_of env tool args lo of
        dispatch_route.Invalid obs \<Rightarrow> record_action env n th tool args obs ErrorStatus k b lo
      | dispatch_route.Blocked obs \<Rightarrow> record_action env n th tool args obs BlockedStatus k b lo
      | dispatch_route.Approval reason \<Rightarrow> over (pause_for_approval env args th n k reason)
      | dispatch_route.Execute \<Rightarrow>
          bindE (begin_operation env n th (tool_name tool) args k) (\<lambda>args'.
          bindE (run_tool env (tool_name tool) args') (\<lambda>r.
            record_action env n th tool args' (f r) (result_status r) k b lo)))" for lo b f
    using assms
    by (cases "route_of env tool args lo")
      (auto intro!: record_action_flow flow_over once_pause flow_quiet still)
  then show ?thesis
    unfolding execute_step_def Let_def by (intro flow_quiet still assms)
qed

lemma act_on_flow:
  assumes "n \<le> m"
  shows "steps_flow m n (act_on env n d k lo)"
proof -
  have rest: "steps_flow m n (thenE (transition_to ActionSelected r None) b)"
    if "steps_flow m n b" for r b
    unfolding thenE_def by (intro flow_quiet still assms that)
  show ?thesis
    unfolding act_on_def Let_def
    by (simp add: once_flow once_steps assms rest flow_over once_pause execute_step_flow)
qed

section \<open>The whole loop\<close>

definition keeps_limit :: "('w, 'k, 'p) agent_env \<Rightarrow> bool" where
  "keeps_limit env \<longleftrightarrow> (\<forall>w t. max_steps (fst (ae_refresh env w t)) = max_steps t)"

lemma refresh_below:
  assumes "keeps_limit env"
  shows "stable (below m n) (refresh_task env)"
proof (rule stableI)
  fix s r s' assume inv: "below m n s" and run: "refresh_task env s = (r, s')"
  obtain t w where tw: "ae_refresh env (ag_world s) (ag_task s) = (t, w)" by (rule prod.exhaust)
  then have "max_steps t = max_steps (ag_task s)"
    using assms keeps_limit_def [of env] by (metis fst_conv)
  then show "below m n s'" using inv run tw by (auto simp: refresh_task_def below_def)
qed

lemma iteration_flow:
  assumes "n \<le> m" "keeps_limit env"
  shows "steps_flow m n (loop_iteration env n lo)"
proof -
  have failed: "steps_flow m n (plan_failed env f)" for f
    unfolding plan_failed_def over_def
    by (intro once_flow once_quiet assms still; simp)
  have plan: "steps_flow m n (plan_step env n lo)"
    unfolding plan_step_def thenE_def
    by (intro flow_quiet still assms) (auto intro!: failed flow_quiet still act_on_flow assms split: sum.split)
  show ?thesis
    unfolding loop_iteration_def thenE_def with_task_def
    by (intro flow_quiet still assms refresh_below) (auto intro!: flow_over once_quiet still assms plan)
qed

definition ready_for :: "int \<Rightarrow> int \<Rightarrow> locals \<Rightarrow> 'w agent \<Rightarrow> bool" where
  "ready_for m n lo s \<longleftrightarrow>
     below m (n - 1) s \<or> lo_skipped lo = Some n \<and> below m n s \<and> below m m s"

lemma run_steps_below:
  assumes "keeps_limit env"
  shows "n \<le> m + 1 \<Longrightarrow>
    hoare (ready_for m n lo) (run_steps env [n..m] lo) (\<lambda>_. below m m) (\<lambda>_. below m m)"
proof (induction "nat (m + 1 - n)" arbitrary: n lo)
  case 0
  then have n: "n = m + 1" "[n..m] = []" by simp_all
  have "stable (below m m) (run_steps env [] lo)"
    unfolding run_steps.simps by (intro still refresh_below assms)
  then show ?case
    unfolding n(2) stable_def by (rule hoare_pre) (auto simp: ready_for_def n(1))
next
  case (Suc k)
  then have n: "n \<le> m" and ns: "[n..m] = n # [n + 1..m]" by (simp_all add: upto_rec1)
  have IH: "hoare (ready_for m (n + 1) lo) (run_steps env [n + 1..m] lo) (\<lambda>_. below m m) (\<lambda>_. below m m)" for lo
    by (rule Suc.hyps(1)) (use Suc.hyps(2) n in simp_all)
  have step: "hoare (ready_for m n lo) (loop_iteration env n lo) (flow_below m n) (\<lambda>_. below m m)"
    if "lo_skipped lo \<noteq> Some n"
    by (rule hoare_pre [OF iteration_flow [OF n assms, unfolded steps_flow_def]])
      (use that in \<open>simp add: ready_for_def\<close>)
  have next_step: "hoare (flow_below m n fl)
      (case fl of Over \<Rightarrow> ret () | Next lo' \<Rightarrow> run_steps env [n + 1..m] lo') (\<lambda>_. below m m) (\<lambda>_. below m m)" for fl
    by (cases fl) (auto intro!: hoare_ret hoare_pre [OF IH] simp: flow_below_def ready_for_def)
  show ?case
    unfolding ns run_steps.simps
    by (intro hoare_if hoare_bind [OF step] next_step hoare_pre [OF IH])
      (auto simp: ready_for_def intro: below_mono)
qed

lemmas quiet_resume = quiet_upto [where i = "n - 1" and b = n for n, simplified]

definition resumed :: "int \<Rightarrow> int \<Rightarrow> int option \<Rightarrow> 'w agent \<Rightarrow> bool" where
  "resumed m start nx s \<longleftrightarrow>
     (case nx of None \<Rightarrow> below m start s
      | Some k \<Rightarrow> below m (k - 1) s \<and> (k = start \<or> k = start + 1 \<and> k \<le> m))"

lemma run_approved_below:
  "hoare (below m (start - 1)) (run_approved env start tool args) (resumed m start) (\<lambda>_. below m start)"
proof -
  have finish: "hoare (below m start) (finish_run env r) (\<lambda>_. below m start) (\<lambda>_. below m start)" for r
    by (rule steps_below.finish_run_stable [unfolded stable_def])
  have last: "hoare (below m start)
      (with_task (\<lambda>t. if max_steps t < start + 1 then thenE (finish_run env MaxSteps) (ret None)
                      else ret (Some (start + 1)))) (resumed m start) (\<lambda>_. below m start)"
    by (intro hoare_with_task hoare_if hoare_then [OF hoare_pre [OF finish]] hoare_ret)
      (auto simp: resumed_def below_def)
  have rec: "hoare (below m (start - 1)) (recorded env reason start th tool args obs st k)
      (\<lambda>_. below m start) (\<lambda>_. below m start)" for reason th tool args obs st k
    using once_recorded by (simp add: records_once_def)
  show ?thesis
    unfolding run_approved_def
    by (rule hoare_then [OF quiet_resume] hoare_bind [OF quiet_resume] hoare_then [OF rec] last still | simp)+
qed

lemma resume_below:
  "hoare (below m (start - 1)) (resume_action env start) (resumed m start) (\<lambda>_. below m start)"
proof -
  have quiet: "hoare (below m (start - 1)) (thenE (on_task (\<lambda>t. t\<lparr>pending_action := None\<rparr>)) (raise e))
      (resumed m start) (\<lambda>_. below m start)" for e
    by (rule hoare_then [OF quiet_resume [OF still(1)] hoare_raise]) (auto intro: below_mono)
  show ?thesis
    unfolding resume_action_def with_task_def
    by (rule hoare_bind [OF quiet_resume], rule still)
      (auto intro!: hoare_ret run_approved_below quiet simp: resumed_def split: option.split json.split)
qed

lemma run_loop_numbers:
  assumes "keeps_limit env"
  shows "hoare (below m (start - 1)) (run_loop env start) (\<lambda>_. below m (max start m)) (\<lambda>_. below m (max start m))"
proof -
  have prepare: "hoare (below m (start - 1)) (prepare_rubric env)
      (\<lambda>_. below m (start - 1)) (\<lambda>_. below m (max start m))"
    by (intro quiet_upto steps_below.prepare_rubric_stable) simp
  have resume: "hoare (below m (start - 1)) (resume_action env start) (resumed m start)
      (\<lambda>_. below m (max start m))"
    by (rule hoare_weaken [OF resume_below]) (auto intro: below_mono)
  have steps: "hoare (\<lambda>s. below m (n - 1) s \<and> (n = start \<or> n = start + 1 \<and> n \<le> m))
      (run_steps env [n..m] lo) (\<lambda>_. below m (max start m)) (\<lambda>_. below m (max start m))" for n lo
  proof (cases "n \<le> m + 1")
    case True
    show ?thesis
      by (rule hoare_weaken [OF run_steps_below [OF assms True]]) (auto simp: ready_for_def intro: below_mono)
  next
    case False
    have "stable (below m (n - 1)) (run_steps env [n..m] lo)"
      using False by (simp add: upto.simps) (intro still refresh_below assms)
    note quiet = hoare_weaken [OF this [unfolded stable_def]]
    show ?thesis
    proof (cases "n = start")
      case True
      then show ?thesis by (intro quiet) (auto intro: below_mono)
    next
      case False
      then show ?thesis using \<open>\<not> n \<le> m + 1\<close> by (simp add: hoare_def)
    qed
  qed
  have rest: "hoare (\<lambda>s. resumed m start nx s)
      (case nx of None \<Rightarrow> ret () | Some n \<Rightarrow>
         bindE (gets (start_locals env r)) (\<lambda>lo. with_task (\<lambda>t. run_steps env [n..max_steps t] lo)))
      (\<lambda>_. below m (max start m)) (\<lambda>_. below m (max start m))" for nx r
  proof (cases nx)
    case None
    then show ?thesis by (auto intro!: hoare_ret simp: resumed_def intro: below_mono)
  next
    case (Some n)
    have "hoare (\<lambda>s. (below m (n - 1) s \<and> (n = start \<or> n = start + 1 \<and> n \<le> m)) \<and> ag_task s = t)
        (run_steps env [n..max_steps t] lo) (\<lambda>_. below m (max start m)) (\<lambda>_. below m (max start m))" for t lo
      using steps [of n lo] by (cases "max_steps t = m") (auto simp: hoare_def below_def)
    then show ?thesis
      unfolding Some option.case
      by (intro hoare_bind [OF hoare_gets [where Q = "\<lambda>_ s. below m (n - 1) s \<and>
            (n = start \<or> n = start + 1 \<and> n \<le> m)"]] hoare_with_task) (auto simp: resumed_def)
  qed
  show ?thesis
    unfolding run_loop_def with_task_def [of "\<lambda>t0. thenE (prepare_rubric env) (g t0)" for g]
    by (intro hoare_bind [OF hoare_gets [where Q = "\<lambda>_. below m (start - 1)"]] hoare_then [OF prepare]
        hoare_bind [OF resume] rest)
qed

section \<open>The record of a run\<close>

text \<open>
  C27. The record survives the run. From a verified ledger with matching head and memory, and as
  long as reading the row again keeps its id, every outcome of the loop leaves a ledger that
  verifies and extends the one it started with, every recorded step is committed, and a new
  process that rebuilds its memory from the steps gets exactly the head and the history this
  run ended with.
\<close>

theorem run_keeps_record:
  assumes "keeps_id env" "recorded_run i (ag_log s) s" "run_loop env start s = (r, s')"
  shows "fst (verify_chain i (ag_log s')) \<and> prefix (ag_log s) (ag_log s') \<and>
    snd (ag_saved s') = ag_log s' \<and>
    rebuild_history (s'\<lparr>ag_history := h, ag_head := x\<rparr>) = (Inr (), s')"
proof -
  have "recorded_run i (ag_log s) s'"
    using stableD [OF run_record.run_loop_stable [of env i "ag_log s" start], OF _ assms(3)] assms by blast
  then show ?thesis
    by (simp add: recorded_run_def rebuild_history_def memory_of_def)
qed

lemma demo_keeps: "keeps_id demo_env" "keeps_limit demo_env"
  by (simp_all add: keeps_id_def keeps_limit_def demo_env_def)

theorem run_keeps_record_witness:
  "\<exists>r s'. run_loop demo_env 1 demo_agent = (r, s') \<and> fst (verify_chain ''t'' (ag_log s')) \<and>
     rebuild_history (s'\<lparr>ag_history := [], ag_head := []\<rparr>) = (Inr (), s')"
proof -
  have start: "recorded_run ''t'' (ag_log demo_agent) demo_agent"
    by (simp add: recorded_run_def demo_agent_def demo_task_def memory_of_def ledger_head_def
        verify_chain_def)
  obtain r s' where run: "run_loop demo_env 1 demo_agent = (r, s')" by (rule prod.exhaust)
  from run_keeps_record [OF demo_keeps(1) start run, of "[]" "[]"] run show ?thesis by blast
qed

text \<open>
  Steps are numbered in order. If the steps so far are numbered in increasing order below the
  start and reading the row again keeps the step limit, then after every outcome of the loop the
  numbers increase strictly and stay within the limit (an approved action may use the start
  itself), so the steps read back by number are the ledger, in whatever order they were stored.
\<close>

theorem steps_numbered:
  assumes "keeps_limit env" "numbered (start - 1) (ag_log s)" "run_loop env start s = (r, s')"
  shows "sorted_wrt (<) (map st_number (ag_log s')) \<and>
    (\<forall>x \<in> set (ag_log s'). st_number x \<le> max start (max_steps (ag_task s))) \<and>
    (\<forall>ys. mset ys = mset (ag_log s') \<longrightarrow> sort_key st_number ys = ag_log s')"
proof -
  have "below (max_steps (ag_task s)) (start - 1) s" using assms(2) by (simp add: below_def)
  note loop = hoareD [OF run_loop_numbers [OF assms(1)] this]
  have n: "numbered (max start (max_steps (ag_task s))) (ag_log s')"
    using loop assms(3) by (cases r) (auto simp: below_def)
  then have s: "sorted_wrt (<) (map st_number (ag_log s'))" by (simp add: numbered_def)
  then have d: "distinct (map st_number (ag_log s'))" "sorted (map st_number (ag_log s'))"
    using strict_sorted_iff by blast+
  have "sort_key st_number ys = ag_log s'" if "mset ys = mset (ag_log s')" for ys
  proof (rule sort_key_inj_key_eq [OF that])
    show "inj_on st_number (set ys)"
      using d(1) mset_eq_setD [OF that] by (simp add: distinct_map)
    show "sorted (map st_number (ag_log s'))" by (rule d(2))
  qed
  then show ?thesis using n s by (auto simp: numbered_def)
qed

theorem steps_numbered_witness:
  "\<exists>r s'. run_loop demo_env 1 demo_agent = (r, s') \<and> sorted_wrt (<) (map st_number (ag_log s')) \<and>
     list_all (\<lambda>x. st_number x \<le> 3) (ag_log s')"
proof -
  have start: "numbered (1 - 1) (ag_log demo_agent)"
    by (simp add: numbered_def demo_agent_def)
  obtain r s' where run: "run_loop demo_env 1 demo_agent = (r, s')" by (rule prod.exhaust)
  have "max 1 (max_steps (ag_task demo_agent)) = 3" by (simp add: demo_agent_def demo_task_def)
  with steps_numbered [OF demo_keeps(2) start run] run show ?thesis by (auto simp: list_all_iff)
qed

end
