(* ===== verification/Task_Service.thy ===== *)
theory Task_Service
  imports Task_Store Receipt Product_Session Frames
begin

text \<open>
  \<^verbatim>\<open>services/task.py\<close>: publishing, retrying, inspecting, cancelling and answering tasks. The
  state \<open>service\<close> is the host of theory \<open>Change_Set\<close> with the three tables; an operation
  runs in one database session, so rows it changes and does not commit are rolled back.
  Identifiers that the database generates are arguments, as are the rows other sessions commit
  while an operation runs and whether the final commit violates a constraint.
\<close>

section \<open>State and environment\<close>

record product_session =
  ps_id :: string
  ps_owner_id :: string
  ps_project_id :: string

record 'w service = "'w host" +
  db_tasks :: "task list"
  db_steps :: "string \<Rightarrow> step list"
  db_sessions :: "product_session list"

record ('w, 'k, 'p) env =
  ev_ops :: "'w host_ops"
  ev_settings :: settings
  ev_crypto :: "('k, 'p) crypto"
  ev_read_text :: "string \<Rightarrow> string option"
  ev_workspace :: "'w \<Rightarrow> string \<Rightarrow> workspace option"

type_synonym ('w, 'a) use_case = "('w service, 'a) act"

definition with_tasks :: "(task list \<Rightarrow> task list) \<Rightarrow> 'w service \<Rightarrow> 'w service" where
  "with_tasks f s = s\<lparr>db_tasks := f (db_tasks s)\<rparr>"

section \<open>Approval answers\<close>

definition approval_words :: "string list" where
  "approval_words =
     [''yes'', ''y'', ''approve'', ''approved'', ''ok'', ''okay'', ''allow'', ''sure'', ''proceed'',
      [CHR 0xE6, CHR 0x98, CHR 0xAF], [CHR 0xE5, CHR 0xA5, CHR 0xBD],
      [CHR 0xE5, CHR 0x8F, CHR 0xAF, CHR 0xE4, CHR 0xBB, CHR 0xA5],
      [CHR 0xE6, CHR 0x89, CHR 0xB9, CHR 0xE5, CHR 0x87, CHR 0x86],
      [CHR 0xE5, CHR 0x90, CHR 0x8C, CHR 0xE6, CHR 0x84, CHR 0x8F],
      [CHR 0xE5, CHR 0x85, CHR 0x81, CHR 0xE8, CHR 0xAE, CHR 0xB8]]"

definition is_approval :: "string \<Rightarrow> bool" where
  "is_approval answer =
     (case py_words (py_lower (py_strip answer)) of [] \<Rightarrow> False | w # _ \<Rightarrow> w \<in> set approval_words)"

section \<open>Limits\<close>

record limits_in =
  li_max_steps :: "int option"
  li_token_budget :: "int option"

definition or_int :: "int option \<Rightarrow> int \<Rightarrow> int" where
  "or_int x d = (case x of None \<Rightarrow> d | Some n \<Rightarrow> if n = 0 then d else n)"

definition resolve_limits :: "settings \<Rightarrow> limits_in \<Rightarrow> int \<times> int" where
  "resolve_limits c li =
     (max 1 (min (or_int (li_max_steps li) (agent_max_steps_default c)) (agent_max_steps_cap c)),
      max 1000 (min (or_int (li_token_budget li) (loop_token_budget_default c)) (loop_token_budget_cap c)))"

section \<open>Inserting rows\<close>

text \<open>The two unique constraints of the table; a null never conflicts. Rows are inserted by the
  flush of \<^verbatim>\<open>create\<close>, so that is where a conflict is raised.\<close>

definition conflicts :: "task \<Rightarrow> task \<Rightarrow> bool" where
  "conflicts t u =
     ((idempotency_key t \<noteq> None \<and> idempotency_key t = idempotency_key u \<and> owner_id t = owner_id u) \<or>
      (product_session_id t \<noteq> None \<and> product_session_id t = product_session_id u \<and>
       product_revision t \<noteq> None \<and> product_revision t = product_revision u))"

definition create_task :: "task \<Rightarrow> ('w, task) use_case" where
  "create_task t s =
     (if list_ex (conflicts t) (db_tasks s) then (Inl IntegrityError, s)
      else (Inr t, with_tasks (\<lambda>rows. rows @ [t]) s))"

definition save_task :: "task \<Rightarrow> 'w service \<Rightarrow> 'w service" where
  "save_task t = with_tasks (put_task t)"

text \<open>\<^verbatim>\<open>session.rollback()\<close>: the tables as they were when the transaction began.\<close>

definition rollback :: "'w service \<Rightarrow> 'w service \<Rightarrow> 'w service" where
  "rollback before s =
     s\<lparr>db_tasks := db_tasks before, db_steps := db_steps before, db_sessions := db_sessions before\<rparr>"

definition commit :: "bool \<Rightarrow> ('w, unit) use_case" where
  "commit ok = whenE (\<not> ok) IntegrityError"

definition get_task :: "string \<Rightarrow> string \<Rightarrow> ('w, task) use_case" where
  "get_task subject i =
     bindE (gets (\<lambda>s. find_task (db_tasks s) i))
       (\<lambda>r. case r of
              None \<Rightarrow> raise (NotFoundError (''Task '' @ i @ '' does not exist''))
            | Some t \<Rightarrow> if owner_id t \<noteq> subject
                then raise (NotFoundError (''Task '' @ i @ '' does not exist'')) else ret t)"

section \<open>Publishing\<close>

record task_create =
  tc_goal :: string
  tc_success_criteria :: "string list option"
  tc_verification_commands :: "string list"
  tc_required_artifacts :: "string list"
  tc_verification_mode :: "string option"
  tc_project_id :: string
  tc_project_path :: "string option"
  tc_limits :: limits_in
  tc_allowed_tools :: "string list option"
  tc_capabilities :: "capability list option"
  tc_allow_egress :: bool
  tc_egress_hosts :: "string list option"
  tc_require_approval :: bool
  tc_use_browser :: bool
  tc_use_email :: bool
  tc_use_calendar :: bool
  tc_use_vision :: bool
  tc_chat_id :: "string option"
  tc_skill :: "string option"
  tc_idempotency_key :: "string option"

definition contract_checks :: "task_create \<Rightarrow> jdict list" where
  "contract_checks p =
     map (\<lambda>(i, command). [(''id'', JStr (''contract-'' @ pad3 i)), (''kind'', JStr ''command''),
           (''command'', JStr command), (''expect_exit'', JInt 0), (''source'', JStr ''contract'')])
       (zip [1..<length (tc_verification_commands p) + 1] (tc_verification_commands p)) @
     map (\<lambda>(i, path). [(''id'', JStr (''contract-artifact-'' @ pad3 i)), (''kind'', JStr ''file_exists''),
           (''path'', JStr path), (''source'', JStr ''contract'')])
       (zip [1..<length (tc_required_artifacts p) + 1] (tc_required_artifacts p))"

definition requested_of :: "task_create \<Rightarrow> bool \<Rightarrow> string list option" where
  "requested_of p bound =
     (case tc_capabilities p of
        Some cs \<Rightarrow> Some (sorted_capabilities (set cs))
      | None \<Rightarrow>
          if bound \<and> tc_allowed_tools p = None
          then Some (sorted_capabilities {FsRead, FsWrite, Exec}) else None)"

definition criteria_of :: "task_create \<Rightarrow> string list" where
  "criteria_of p = (case tc_success_criteria p of None \<Rightarrow> [] | Some cs \<Rightarrow> cs)"

definition bind_project :: "project_binding option \<Rightarrow> task \<Rightarrow> task" where
  "bind_project b t =
     t\<lparr>project_source_path := map_option pb_source b,
       project_relative_path := map_option pb_relative_path b,
       project_base_commit := map_option pb_base_commit b,
       project_base_branch := (case b of None \<Rightarrow> None | Some b \<Rightarrow> pb_branch b),
       change_state := (if b = None then None else Some ''pending''),
       contract_status := (if b = None then ''not_required'' else ''pending'')\<rparr>"

definition published_task ::
  "settings \<Rightarrow> string \<Rightarrow> string \<Rightarrow> task_create \<Rightarrow> project_binding option \<Rightarrow> product_session option \<Rightarrow> task" where
  "published_task c subject i p b ps =
     (let criteria = criteria_of p;
          spec = (if ps = None then None else Some (initial_specification (tc_goal p) criteria));
          lim = resolve_limits c (tc_limits p)
      in bind_project b
        ((fresh_task i)
          \<lparr>goal := py_strip (tc_goal p), owner_id := subject, project_id := tc_project_id p,
           rubric := criteria,
           criteria_source := (if criteria \<noteq> [] then ''user'' else ''generated''),
           verification_mode := (case tc_verification_mode p of
              None \<Rightarrow> (if b \<noteq> None \<or> criteria \<noteq> [] then ''strict'' else ''judgment'')
            | Some m \<Rightarrow> if m \<noteq> [] then m
                else (if b \<noteq> None \<or> criteria \<noteq> [] then ''strict'' else ''judgment'')),
           required_checks := contract_checks p,
           requested_capabilities := requested_of p (b \<noteq> None),
           allowed_tool_names := tc_allowed_tools p, allow_egress := tc_allow_egress p,
           task_egress_hosts := tc_egress_hosts p, require_approval := tc_require_approval p,
           use_browser := tc_use_browser p, use_email := tc_use_email p,
           use_calendar := tc_use_calendar p, use_vision := tc_use_vision p,
           chat_id := tc_chat_id p, skill := tc_skill p,
           idempotency_key := tc_idempotency_key p,
           max_steps := fst lim, token_budget := snd lim,
           product_session_id := map_option ps_id ps,
           product_revision := (if ps = None then None else Some 1),
           product_specification := spec,
           specification_hash_of := map_option specification_hash spec\<rparr>))"

definition task_workspace_path :: "settings \<Rightarrow> string \<Rightarrow> string" where
  "task_workspace_path c i = agent_workspaces_root c @ ''/'' @ i"

definition attach_project ::
  "('w, 'k, 'p) env \<Rightarrow> 'w service \<Rightarrow> bool \<Rightarrow> task \<Rightarrow> project_binding \<Rightarrow> ('w, task) use_case" where
  "attach_project ev before ok t b =
     (let dest = task_workspace_path (ev_settings ev) (task_id t)
      in catchE
        (thenE (clone_project (ev_ops ev) b dest)
          (bindE (gets (\<lambda>s. ho_resolve (ev_ops ev) (outside s) dest))
            (\<lambda>p. let u = t\<lparr>workspace_path := Some p\<rparr>
                 in thenE (modify (save_task u)) (thenE (commit ok) (ret u)))))
        (\<lambda>e. thenE (modify (rollback before))
               (thenE (modify (on_outside (ho_rmtree (ev_ops ev) dest))) (raise e))))"

definition by_key :: "string \<Rightarrow> string option \<Rightarrow> ('w, task option) use_case" where
  "by_key subject key =
     (if nonempty_opt key then gets (\<lambda>s. get_by_idempotency_key (db_tasks s) (the key) subject)
      else ret None)"

text \<open>What both handlers of \<^verbatim>\<open>IntegrityError\<close> do: return the row of the winner, or raise again.\<close>

definition winner_or_raise :: "string \<Rightarrow> string option \<Rightarrow> ('w, task) use_case" where
  "winner_or_raise subject key =
     bindE (by_key subject key) (\<lambda>w. case w of None \<Rightarrow> raise IntegrityError | Some t \<Rightarrow> ret t)"

definition create_session :: "string \<Rightarrow> string \<Rightarrow> string \<Rightarrow> ('w, product_session) use_case" where
  "create_session sid owner project s =
     (let ps = \<lparr>ps_id = sid, ps_owner_id = owner, ps_project_id = project\<rparr>
      in (Inr ps, s\<lparr>db_sessions := db_sessions s @ [ps]\<rparr>))"

definition optionally :: "bool \<Rightarrow> ('w, 'a) act \<Rightarrow> ('w, 'a option) act" where
  "optionally b m = (if b then bindE m (\<lambda>x. ret (Some x)) else ret None)"

text \<open>A session that ends with an exception is closed without a commit.\<close>

definition in_session :: "'w service \<Rightarrow> ('w, 'a) use_case \<Rightarrow> ('w, 'a) use_case" where
  "in_session before m = catchE m (\<lambda>e. thenE (modify (rollback before)) (raise e))"

definition publish_row ::
  "('w, 'k, 'p) env \<Rightarrow> string \<Rightarrow> string \<Rightarrow> string \<Rightarrow> bool \<Rightarrow> task_create \<Rightarrow>
     project_binding option \<Rightarrow> 'w service \<Rightarrow> ('w, task) use_case" where
  "publish_row ev subject i sid ok p b before =
     bindE (optionally (b \<noteq> None) (create_session sid subject (tc_project_id p)))
       (\<lambda>ps. bindE (create_task (published_task (ev_settings ev) subject i p b ps))
         (\<lambda>t. case b of
            Some b' \<Rightarrow>
              catchE (attach_project ev before ok t b')
                (\<lambda>e. if e = IntegrityError
                     then winner_or_raise subject (tc_idempotency_key p) else raise e)
          | None \<Rightarrow>
              catchE (thenE (commit ok) (ret t))
                (\<lambda>e. thenE (modify (rollback before))
                       (winner_or_raise subject (tc_idempotency_key p)))))"

definition publish ::
  "('w, 'k, 'p) env \<Rightarrow> string \<Rightarrow> string \<Rightarrow> string \<Rightarrow> task list \<Rightarrow> bool \<Rightarrow> task_create \<Rightarrow> ('w, task) use_case" where
  "publish ev subject i sid others ok p =
     bindE (by_key subject (tc_idempotency_key p))
       (\<lambda>existing. case existing of
          Some t \<Rightarrow> ret t
        | None \<Rightarrow>
            bindE (optionally (nonempty_opt (tc_project_path p))
                (prepare_project (ev_ops ev) (ev_settings ev) (the (tc_project_path p))))
              (\<lambda>b. thenE (modify (with_tasks (\<lambda>rows. rows @ others)))
                (bindE (gets (\<lambda>s. s))
                  (\<lambda>before. in_session before (publish_row ev subject i sid ok p b before)))))"

section \<open>Retrying\<close>

definition retried_task ::
  "settings \<Rightarrow> string \<Rightarrow> string \<Rightarrow> task \<Rightarrow> project_binding option \<Rightarrow> task" where
  "retried_task c subject i og b =
     (let lim = resolve_limits c \<lparr>li_max_steps = Some (max_steps og), li_token_budget = Some (token_budget og)\<rparr>
      in bind_project b
        ((fresh_task i)
          \<lparr>goal := goal og, owner_id := subject, project_id := project_id og,
           rubric := (if criteria_source og = ''user'' then rubric og else []),
           criteria_source := criteria_source og, verification_mode := verification_mode og,
           required_checks := filter (\<lambda>ck. criteria_source og = ''user'' \<and> dget ck ''source'' = JStr ''contract'')
             (required_checks og),
           requested_capabilities := requested_capabilities og,
           allowed_tool_names := allowed_tool_names og, allow_egress := allow_egress og,
           task_egress_hosts := task_egress_hosts og, require_approval := require_approval og,
           use_browser := use_browser og, use_email := use_email og,
           use_calendar := use_calendar og, use_vision := use_vision og,
           chat_id := chat_id og, skill := skill og, attempt := attempt og + 1,
           max_steps := fst lim, token_budget := snd lim\<rparr>))"

definition retry ::
  "('w, 'k, 'p) env \<Rightarrow> string \<Rightarrow> string \<Rightarrow> bool \<Rightarrow> string \<Rightarrow> ('w, task) use_case" where
  "retry ev subject i ok original_id =
     bindE (get_task subject original_id)
       (\<lambda>og. thenE (whenE (status og \<notin> set finished_statuses)
              (ConflictError (''Task is '' @ status og @ ''; only a finished task can be retried.'')))
         (bindE (optionally (nonempty_opt (project_relative_path og))
             (prepare_project (ev_ops ev) (ev_settings ev) (the (project_relative_path og))))
           (\<lambda>b. bindE (gets (\<lambda>s. s))
             (\<lambda>before. in_session before (bindE (create_task (retried_task (ev_settings ev) subject i og b))
               (\<lambda>t. case b of
                  Some b' \<Rightarrow> attach_project ev before ok t b'
                | None \<Rightarrow> thenE (commit ok) (ret t)))))))"

section \<open>Reading\<close>

definition list_tasks :: "string \<Rightarrow> nat \<Rightarrow> nat \<Rightarrow> bool \<Rightarrow> 'w service \<Rightarrow> task list \<times> nat" where
  "list_tasks subject lim offset root_only s =
     (if root_only
      then (list_roots (db_tasks s) lim offset (Some subject), count_roots (db_tasks s) (Some subject))
      else (list_for_owner (db_tasks s) subject lim offset, count_for_owner (db_tasks s) subject))"

definition children_of :: "string \<Rightarrow> string \<Rightarrow> ('w, task list) use_case" where
  "children_of subject i =
     thenE (get_task subject i) (gets (\<lambda>s. list_children (db_tasks s) i))"

definition revisions_of :: "string \<Rightarrow> string \<Rightarrow> ('w, task list) use_case" where
  "revisions_of subject i =
     bindE (get_task subject i)
       (\<lambda>t. case product_session_id t of
              None \<Rightarrow> raise (NotFoundError ''This task is not part of a Product Session.'')
            | Some sid \<Rightarrow> gets (\<lambda>s. owned subject (list_revisions (db_tasks s) sid)))"

definition list_steps :: "string \<Rightarrow> string \<Rightarrow> ('w, step list) use_case" where
  "list_steps subject i = thenE (get_task subject i) (gets (\<lambda>s. db_steps s i))"

record ledger_status =
  ls_verified :: bool
  ls_head :: string
  ls_length :: nat
  ls_broken_at :: "int option"

definition verify_ledger :: "string \<Rightarrow> string \<Rightarrow> ('w, ledger_status) use_case" where
  "verify_ledger subject i =
     bindE (list_steps subject i)
       (\<lambda>steps. ret \<lparr>ls_verified = fst (verify_chain i steps), ls_head = ledger_head i steps,
          ls_length = length steps, ls_broken_at = snd (verify_chain i steps)\<rparr>)"

definition start_task :: "string \<Rightarrow> string \<Rightarrow> ('w, task) use_case" where
  "start_task subject i =
     bindE (get_task subject i)
       (\<lambda>t. if status t \<noteq> ''pending'' \<or> steps_used t > 0
            then raise (ConflictError (''Task is '' @ status t @ '' and cannot be started'')) else ret t)"

section \<open>Cancelling\<close>

definition cancel_row :: "string \<Rightarrow> task \<Rightarrow> task option" where
  "cancel_row reason t = loop_step t (Cancel, reason, None)"

fun cancel_rows :: "task list \<Rightarrow> task list \<Rightarrow> task list option" where
  "cancel_rows rows [] = Some rows"
| "cancel_rows rows (d # ds) =
     (if status d \<in> set active_statuses
      then (case cancel_row ''cancelled_with_parent'' d of
              None \<Rightarrow> None | Some d' \<Rightarrow> cancel_rows (put_task d' rows) ds)
      else cancel_rows rows ds)"

definition cancel :: "string \<Rightarrow> string \<Rightarrow> ('w, task) use_case" where
  "cancel subject i =
     bindE (get_task subject i)
       (\<lambda>t. if status t \<notin> set active_statuses
            then raise (ConflictError (''Task is '' @ status t @ '' and cannot be cancelled''))
            else
              (case cancel_row ''cancelled_by_user'' t of
                 None \<Rightarrow> raise LoopError
               | Some t' \<Rightarrow>
                   bindE (gets (\<lambda>s. cancel_rows (put_task t' (db_tasks s)) (list_descendants (db_tasks s) (task_id t))))
                     (\<lambda>r. case r of
                            None \<Rightarrow> raise LoopError
                          | Some rows \<Rightarrow> thenE (modify (with_tasks (\<lambda>_. rows))) (ret t'))))"

section \<open>Answering\<close>

definition clarified_draft :: "jdict \<Rightarrow> string \<Rightarrow> jdict result" where
  "clarified_draft draft answer =
     (case iter_json (dget_or draft ''clarifications'' (JArr [])) of
        Inl e \<Rightarrow> Inl e
      | Inr items \<Rightarrow>
          Inr (dset ''clarifications''
            (json_strs (last_n 12 (filter (\<lambda>x. py_strip x \<noteq> []) (map py_str items) @ [py_strip answer]))) draft))"

definition amended_observation :: "task \<Rightarrow> string \<Rightarrow> string \<Rightarrow> string" where
  "amended_observation t answer old =
     (if pending_action t \<noteq> None
      then old @ nl @ ''User '' @ (if is_approval answer then ''approved'' else ''denied'') @ '': '' @ answer
      else ''You asked: '' @ (case pending_question t of None \<Rightarrow> ''None'' | Some q \<Rightarrow> q) @ nl @
           ''User answered: '' @ answer)"

definition answer_edits :: "task \<Rightarrow> bool" where
  "answer_edits t = (\<not> (contract_status t = ''awaiting_input'' \<and> contract_draft t \<noteq> None))"

definition answered_steps :: "task \<Rightarrow> string \<Rightarrow> step list \<Rightarrow> step list" where
  "answered_steps t answer steps =
     (if answer_edits t \<and> steps \<noteq> []
      then amend_last (amended_observation t answer (st_observation (last steps))) steps else steps)"

definition answered_task :: "task \<Rightarrow> string \<Rightarrow> task result" where
  "answered_task t answer =
     (if answer_edits t
      then Inr (if pending_action t \<noteq> None \<and> \<not> is_approval answer then t\<lparr>pending_action := None\<rparr> else t)
      else (case clarified_draft (the (contract_draft t)) answer of
              Inl e \<Rightarrow> Inl e
            | Inr d \<Rightarrow> Inr (t\<lparr>contract_draft := Some d, contract_status := ''pending''\<rparr>)))"

definition respond :: "string \<Rightarrow> string \<Rightarrow> string \<Rightarrow> ('w, task) use_case" where
  "respond subject i answer =
     bindE (get_task subject i)
       (\<lambda>t. if status t \<noteq> ''awaiting_input''
            then raise (ConflictError (''Task is '' @ status t @ '' and is not awaiting input''))
            else bindE (liftR (case answered_task t answer of Inl e \<Rightarrow> Inl (PyRaise e) | Inr u \<Rightarrow> Inr u))
              (\<lambda>u. case loop_step (u\<lparr>pending_question := None\<rparr>)
                     (UserResponded, ''user_response_recorded'', None) of
                     None \<Rightarrow> raise LoopError
                   | Some v \<Rightarrow>
                       thenE (modify (\<lambda>s. s\<lparr>db_steps := (db_steps s)(i := answered_steps t answer (db_steps s i))\<rparr>))
                         (thenE (modify (save_task v)) (ret v))))"

section \<open>Facts\<close>

lemma in_session_Inr [simp]: "in_session before m s = (Inr a, s') \<longleftrightarrow> m s = (Inr a, s')"
  by (auto simp: in_session_def catchE_def thenE_def modify_def raise_def bindE_def split: prod.splits sum.splits)

lemma commit_Inr [simp]: "commit ok s = (Inr x, s') \<longleftrightarrow> ok \<and> s' = s"
  by (simp add: commit_def)

lemma get_task_Inr [simp]:
  "get_task subject i s = (Inr t, s') \<longleftrightarrow> find_task (db_tasks s) i = Some t \<and> owner_id t = subject \<and> s' = s"
  by (auto simp: get_task_def split: option.splits)

lemma create_task_Inr [simp]:
  "create_task t s = (Inr u, s') \<longleftrightarrow>
     \<not> list_ex (conflicts t) (db_tasks s) \<and> u = t \<and> s' = s\<lparr>db_tasks := db_tasks s @ [t]\<rparr>"
  by (auto simp: create_task_def with_tasks_def)

lemma optionally_Inr [simp]:
  "optionally b m s = (Inr r, s') \<longleftrightarrow>
     (if b then (\<exists>x. m s = (Inr x, s') \<and> r = Some x) else r = None \<and> s' = s)"
  by (auto simp: optionally_def)

text \<open>Operations of the host leave the tables alone.\<close>

definition tables :: "'w service \<Rightarrow> task list \<times> (string \<Rightarrow> step list) \<times> product_session list" where
  "tables s = (db_tasks s, db_steps s, db_sessions s)"

abbreviation keeps_db :: "('w, 'a) use_case \<Rightarrow> bool" where
  "keeps_db m \<equiv> keeps tables m"

interpretation tb: frame tables
  by unfold_locales (simp add: on_outside_def tables_def)

lemma keeps_dbD:
  "keeps_db m \<Longrightarrow> m s = (r, s') \<Longrightarrow>
     db_tasks s' = db_tasks s \<and> db_steps s' = db_steps s \<and> db_sessions s' = db_sessions s"
  using keepsD [of tables m s r s'] by (simp add: tables_def)

lemma catch_reraise [simp]:
  "catchE m (\<lambda>e. thenE (modify f) (thenE (modify g) (raise (h e)))) s = (Inr a, s') \<longleftrightarrow> m s = (Inr a, s')"
  by (auto simp: catchE_def thenE_def modify_def raise_def bindE_def split: prod.splits sum.splits)

lemma put_task_fresh: "task_id t \<notin> task_id ` set rows \<Longrightarrow> put_task t rows = rows"
  by (auto simp: put_task_def image_iff intro!: map_idI)

lemma put_task_append [simp]: "put_task t (xs @ ys) = put_task t xs @ put_task t ys"
  by (simp add: put_task_def)

lemma put_task_single [simp]: "put_task t [u] = [if task_id u = task_id t then t else u]"
  by (simp add: put_task_def)

lemma attach_project_Inr:
  assumes "attach_project ev before ok t b s = (Inr u, s')"
  shows "ok \<and> (\<exists>p. u = t\<lparr>workspace_path := Some p\<rparr>) \<and> db_tasks s' = put_task u (db_tasks s) \<and>
    db_steps s' = db_steps s \<and> db_sessions s' = db_sessions s"
  using assms keeps_dbD [OF tb.keeps_clone]
  by (fastforce simp: attach_project_def Let_def save_task_def with_tasks_def)

section \<open>Publishing and retrying\<close>

lemma resolve_limits_bounds:
  "1 \<le> fst (resolve_limits c li) \<and> fst (resolve_limits c li) \<le> max 1 (agent_max_steps_cap c) \<and>
   1000 \<le> snd (resolve_limits c li) \<and> snd (resolve_limits c li) \<le> max 1000 (loop_token_budget_cap c)"
  by (auto simp: resolve_limits_def)

definition within_caps :: "settings \<Rightarrow> task \<Rightarrow> bool" where
  "within_caps c t =
     (1 \<le> max_steps t \<and> max_steps t \<le> max 1 (agent_max_steps_cap c) \<and>
      1000 \<le> token_budget t \<and> token_budget t \<le> max 1000 (loop_token_budget_cap c))"

text \<open>A row ready to be claimed for the first time.\<close>

definition ready :: "settings \<Rightarrow> string \<Rightarrow> string \<Rightarrow> task \<Rightarrow> bool" where
  "ready c subject i t =
     (task_id t = i \<and> owner_id t = subject \<and> coherent t \<and> claimable t \<and> within_caps c t \<and>
      steps_used t = 0 \<and> tokens_used t = 0 \<and> pending_action t = None \<and> operation_journal t = None \<and>
      (change_state t = (if project_source_path t = None then None else Some ''pending'')))"

lemma ready_bind_project: "ready c subject i t \<Longrightarrow> ready c subject i (bind_project b t)"
  by (cases b) (auto simp: ready_def bind_project_def coherent_def claimable_def within_caps_def)

lemma ready_workspace: "ready c subject i t \<Longrightarrow> ready c subject i (t\<lparr>workspace_path := p\<rparr>)"
  by (auto simp: ready_def coherent_def claimable_def within_caps_def)

lemma fresh_ready:
  "steps_used (fresh_task i) = 0" "tokens_used (fresh_task i) = 0"
  "pending_action (fresh_task i) = None" "operation_journal (fresh_task i) = None"
  "change_state (fresh_task i) = None" "project_source_path (fresh_task i) = None"
  by (simp_all add: fresh_task_def)

lemmas ready_defs = ready_def coherent_def stop_ok_def claimable_def claimable_states_def
  within_caps_def status_literals fresh_ready

lemma ready_published: "ready c subject i (published_task c subject i p b ps)"
  unfolding published_task_def Let_def
  by (rule ready_bind_project) (simp add: ready_defs resolve_limits_bounds)

lemma ready_retried: "ready c subject i (retried_task c subject i og b)"
  unfolding retried_task_def Let_def
  by (rule ready_bind_project) (simp add: ready_defs resolve_limits_bounds)

lemma conflicts_workspace [simp]:
  "conflicts (t\<lparr>workspace_path := p\<rparr>) = conflicts t" "conflicts u (t\<lparr>workspace_path := p\<rparr>) = conflicts u t"
  by (simp_all add: conflicts_def fun_eq_iff)

lemma conflicts_sym: "conflicts t u = conflicts u t"
  unfolding conflicts_def by metis

lemma by_key_Inr [simp]:
  "by_key subject key s = (Inr r, s') \<longleftrightarrow>
     s' = s \<and> r = (if nonempty_opt key then get_by_idempotency_key (db_tasks s) (the key) subject else None)"
  by (auto simp: by_key_def)

lemma get_by_key_conflict:
  "get_by_idempotency_key rows k subject = Some w \<Longrightarrow> idempotency_key t = Some k \<Longrightarrow>
     owner_id t = subject \<Longrightarrow> list_ex (conflicts t) rows"
  by (auto simp: get_by_idempotency_key_def find_Some_iff list_ex_iff conflicts_def intro!: bexI [of _ w])

lemma bind_project_key [simp]:
  "idempotency_key (bind_project b t) = idempotency_key t" "owner_id (bind_project b t) = owner_id t"
  by (simp_all add: bind_project_def)

lemma published_key [simp]:
  "idempotency_key (published_task c subject i p b ps) = tc_idempotency_key p"
  "owner_id (published_task c subject i p b ps) = subject"
  by (simp_all add: published_task_def Let_def)

lemma bindE_keeps:
  assumes "bindE (optionally b m) f s = (Inr a, s')" "keeps_db m"
  obtains r u where "f r u = (Inr a, s')" "db_tasks u = db_tasks s" "db_steps u = db_steps s"
    "db_sessions u = db_sessions s" "(r = None) = (\<not> b)"
proof (cases b)
  case True
  with assms(1) obtain x u where "m s = (Inr x, u)" "f (Some x) u = (Inr a, s')" by auto
  then show thesis using that [of "Some x" u] keeps_dbD [OF assms(2)] True by auto
next
  case False
  with assms(1) show thesis using that [of None s] by simp
qed

lemma attach_project_Inl:
  "attach_project ev before ok t b s = (Inl e, s') \<Longrightarrow> db_tasks s' = db_tasks before"
  by (auto simp: attach_project_def Let_def catchE_def thenE_def modify_def raise_def bindE_def
      rollback_def on_outside_def split: prod.splits sum.splits)

lemma no_winner:
  assumes "\<not> list_ex (conflicts t0) (db_tasks s)" "idempotency_key t0 = key" "owner_id t0 = subject"
  shows "winner_or_raise subject key s \<noteq> (Inr t, s')"
proof
  assume w: "winner_or_raise subject key s = (Inr t, s')"
  then have "nonempty_opt key" "get_by_idempotency_key (db_tasks s) (the key) subject = Some t"
    by (auto simp: winner_or_raise_def split: if_splits option.splits)
  then show False using assms get_by_key_conflict by (cases key) (auto simp: nonempty_opt_def)
qed

text \<open>What a successful publication leaves: nothing new, or exactly one new row at the end.\<close>

lemma publish_cases:
  assumes "publish ev subject i sid others ok p s = (Inr t, s')" "i \<notin> task_id ` set (db_tasks s @ others)"
  shows "(nonempty_opt (tc_idempotency_key p) \<and> s' = s \<and>
      get_by_idempotency_key (db_tasks s) (the (tc_idempotency_key p)) subject = Some t) \<or>
    (db_tasks s' = db_tasks s @ others @ [t] \<and> db_steps s' = db_steps s \<and>
     ready (ev_settings ev) subject i t \<and> \<not> list_ex (conflicts t) (db_tasks s @ others))"
proof (cases "nonempty_opt (tc_idempotency_key p) \<and>
    get_by_idempotency_key (db_tasks s) (the (tc_idempotency_key p)) subject \<noteq> None")
  case True
  then show ?thesis using assms(1) by (auto simp: publish_def)
next
  case False
  let ?c = "ev_settings ev"
  have lookup: "by_key subject (tc_idempotency_key p) s = (Inr None, s)" using False by auto
  have "bindE (optionally (nonempty_opt (tc_project_path p))
        (prepare_project (ev_ops ev) ?c (the (tc_project_path p))))
      (\<lambda>b. thenE (modify (with_tasks (\<lambda>rows. rows @ others))) (bindE (gets (\<lambda>s. s))
         (\<lambda>before. in_session before (publish_row ev subject i sid ok p b before)))) s = (Inr t, s')"
    using assms(1) unfolding publish_def bindE_def [of "by_key subject (tc_idempotency_key p)"] lookup
    by (simp only: prod.case sum.case option.case)
  from bindE_keeps [OF this tb.keeps_prepare] obtain b s0 where
    s0: "db_tasks s0 = db_tasks s" "db_steps s0 = db_steps s" and
    raw: "thenE (modify (with_tasks (\<lambda>rows. rows @ others))) (bindE (gets (\<lambda>s. s))
       (\<lambda>before. in_session before (publish_row ev subject i sid ok p b before))) s0 = (Inr t, s')"
    by blast
  have row: "publish_row ev subject i sid ok p b (with_tasks (\<lambda>rows. rows @ others) s0)
      (with_tasks (\<lambda>rows. rows @ others) s0) = (Inr t, s')"
    using raw by simp
  define s1 where "s1 = with_tasks (\<lambda>rows. rows @ others) s0"
  have s1: "db_tasks s1 = db_tasks s @ others" "db_steps s1 = db_steps s"
    by (simp_all add: s1_def with_tasks_def s0)
  note rest = row [folded s1_def, unfolded publish_row_def]
  let ?rows = "db_tasks s @ others"
  let ?last = "\<lambda>t0. case b of
       Some b' \<Rightarrow> catchE (attach_project ev s1 ok t0 b')
         (\<lambda>e. if e = IntegrityError then winner_or_raise subject (tc_idempotency_key p) else raise e)
     | None \<Rightarrow> catchE (thenE (commit ok) (ret t0))
         (\<lambda>e. thenE (modify (rollback s1)) (winner_or_raise subject (tc_idempotency_key p)))"
  from rest obtain ps u where
    u: "optionally (b \<noteq> None) (create_session sid subject (tc_project_id p)) s1 = (Inr ps, u)" and
    raw2: "bindE (create_task (published_task ?c subject i p b ps)) ?last u = (Inr t, s')"
    unfolding bindE_Inr [of "optionally _ _"] by blast
  have u: "db_tasks u = ?rows" "db_steps u = db_steps s"
    using u by (auto simp: create_session_def Let_def s1 split: if_splits)
  define t0 where t0: "t0 = published_task ?c subject i p b ps"
  define s2 where "s2 = u\<lparr>db_tasks := ?rows @ [t0]\<rparr>"
  have s2: "db_tasks s2 = ?rows @ [t0]" "db_steps s2 = db_steps s" by (simp_all add: s2_def u)
  from raw2 have free: "\<not> list_ex (conflicts t0) ?rows" and fin: "?last t0 s2 = (Inr t, s')"
    unfolding t0 [symmetric] bindE_Inr [of "create_task _"] create_task_Inr s2_def by (auto simp: u)
  have key: "idempotency_key t0 = tc_idempotency_key p" "owner_id t0 = subject" by (simp_all add: t0)
  have r0: "ready ?c subject i t0" by (simp add: t0 ready_published)
  show ?thesis
  proof (cases b)
    case None
    show ?thesis
    proof (cases ok)
      case True
      then have "t = t0 \<and> s' = s2" using fin None by (simp add: catchE_def thenE_def commit_def whenE_def bindE_def ret_def)
      then show ?thesis using s2 free r0 by simp
    next
      case False
      then have "winner_or_raise subject (tc_idempotency_key p) (rollback s1 s2) = (Inr t, s')"
        using fin None by (simp add: catchE_def thenE_def commit_def whenE_def bindE_def raise_def modify_def)
      moreover have "db_tasks (rollback s1 s2) = ?rows" by (simp add: rollback_def s1)
      ultimately show ?thesis using no_winner [of t0 "rollback s1 s2"] free key by simp
    qed
  next
    case (Some b')
    obtain r u where a: "attach_project ev s1 ok t0 b' s2 = (r, u)" by fastforce
    show ?thesis
    proof (cases r)
      case (Inr t1)
      then have "t = t1 \<and> s' = u" using fin Some a by (simp add: catchE_def)
      with attach_project_Inr [OF a [unfolded Inr]] obtain q where
        q: "t = t0\<lparr>workspace_path := Some q\<rparr>" "db_tasks s' = put_task t (db_tasks s2)" "db_steps s' = db_steps s2"
        by blast
      have "task_id t0 = i" using r0 by (simp add: ready_def)
      then have "put_task t (db_tasks s2) = ?rows @ [t]"
        using assms(2) put_task_fresh [of t ?rows] by (simp add: s2 q(1))
      then show ?thesis using q s2 free r0 by (simp add: ready_workspace)
    next
      case (Inl e)
      then have "winner_or_raise subject (tc_idempotency_key p) u = (Inr t, s')"
        using fin Some a by (auto simp: catchE_def raise_def split: if_splits)
      moreover have "db_tasks u = ?rows" using attach_project_Inl [OF a [unfolded Inl]] s1 by simp
      ultimately show ?thesis using no_winner [of t0 u] free key by simp
    qed
  qed
qed

lemma retry_cases:
  assumes "retry ev subject i ok og s = (Inr t, s')" "i \<notin> task_id ` set (db_tasks s)"
  shows "db_tasks s' = db_tasks s @ [t] \<and> db_steps s' = db_steps s \<and>
    ready (ev_settings ev) subject i t \<and> \<not> list_ex (conflicts t) (db_tasks s) \<and>
    (\<exists>o'. find_task (db_tasks s) og = Some o' \<and> owner_id o' = subject \<and>
       status o' \<in> set finished_statuses \<and> attempt t = attempt o' + 1)"
proof -
  let ?c = "ev_settings ev"
  from assms(1) obtain o' where o': "find_task (db_tasks s) og = Some o'" "owner_id o' = subject"
    "status o' \<in> set finished_statuses" and
    rest: "bindE (optionally (nonempty_opt (project_relative_path o'))
        (prepare_project (ev_ops ev) ?c (the (project_relative_path o'))))
      (\<lambda>b. bindE (gets (\<lambda>s. s))
        (\<lambda>before. in_session before (bindE (create_task (retried_task ?c subject i o' b))
          (\<lambda>t. case b of Some b' \<Rightarrow> attach_project ev before ok t b' | None \<Rightarrow> thenE (commit ok) (ret t)))))
      s = (Inr t, s')"
    unfolding retry_def bindE_def [of "get_task subject og"] thenE_def
    by (auto simp only: bindE_Inr [of "whenE _ _"] whenE_Inr get_task_Inr split: prod.splits sum.splits)
  from bindE_keeps [OF rest tb.keeps_prepare] obtain b s1 where
    s1: "db_tasks s1 = db_tasks s" "db_steps s1 = db_steps s" and
    raw: "bindE (gets (\<lambda>s. s))
        (\<lambda>before. in_session before (bindE (create_task (retried_task ?c subject i o' b))
          (\<lambda>t. case b of Some b' \<Rightarrow> attach_project ev before ok t b' | None \<Rightarrow> thenE (commit ok) (ret t))))
        s1 = (Inr t, s')"
    by blast
  define t0 where t0: "t0 = retried_task ?c subject i o' b"
  define s2 where "s2 = s1\<lparr>db_tasks := db_tasks s1 @ [t0]\<rparr>"
  have s2: "db_tasks s2 = db_tasks s @ [t0]" "db_steps s2 = db_steps s" by (simp_all add: s2_def s1)
  from raw have free: "\<not> list_ex (conflicts t0) (db_tasks s)" and
    fin: "(case b of Some b' \<Rightarrow> attach_project ev s1 ok t0 b' | None \<Rightarrow> thenE (commit ok) (ret t0)) s2 = (Inr t, s')"
    by (simp_all add: t0 [symmetric] s2_def s1)
  have r0: "ready ?c subject i t0" unfolding t0 by (rule ready_retried)
  have at: "attempt t0 = attempt o' + 1" by (simp add: t0 retried_task_def Let_def bind_project_def)
  have "\<exists>p. t = t0\<lparr>workspace_path := p\<rparr> \<and> db_tasks s' = db_tasks s @ [t] \<and> db_steps s' = db_steps s"
  proof (cases b)
    case None
    then have "t = t0 \<and> s' = s2" using fin by auto
    then show ?thesis using s2 by (intro exI [of _ "workspace_path t0"]) simp
  next
    case (Some b')
    from fin Some have "attach_project ev s1 ok t0 b' s2 = (Inr t, s')" by simp
    from attach_project_Inr [OF this] obtain q where
      q: "t = t0\<lparr>workspace_path := Some q\<rparr>" "db_tasks s' = put_task t (db_tasks s2)" "db_steps s' = db_steps s2"
      by blast
    have "task_id t0 = i" using r0 by (simp add: ready_def)
    then have "put_task t (db_tasks s2) = db_tasks s @ [t]"
      using assms(2) put_task_fresh [of t "db_tasks s"] by (simp add: s2 q(1))
    with q s2 show ?thesis by auto
  qed
  then show ?thesis using o' r0 at free by (auto simp: ready_workspace)
qed

end
