(* ===== verification/Change_Service.thy ===== *)
theory Change_Service
  imports Task_Service
begin

text \<open>
  The use cases of \<^verbatim>\<open>services/task.py\<close> that touch the workspace or the source project of a task:
  files and uploads, receipts and their replay, and the change set of a local project
  (inspect, apply, discard, undo, revise). The directory of a task is read through
  \<open>ev_workspace\<close>; git runs through the operations of theory \<open>Change_Set\<close>. Whether the final
  commit fails is an argument.
\<close>

section \<open>The workspace of a task\<close>

definition task_workspace ::
  "('w, 'k, 'p) env \<Rightarrow> string \<Rightarrow> string \<Rightarrow> ('w, workspace option) use_case" where
  "task_workspace ev subject i =
     bindE (get_task subject i)
       (\<lambda>t. if \<not> nonempty_opt (workspace_path t) then ret None
            else gets (\<lambda>s. ev_workspace ev (outside s) (the (workspace_path t))))"

text \<open>\<^verbatim>\<open>Workspace(path)\<close> creates the directory: the argument \<open>make_dir\<close>.\<close>

definition ensure_workspace ::
  "('w, 'k, 'p) env \<Rightarrow> (string \<Rightarrow> 'w \<Rightarrow> 'w) \<Rightarrow> string \<Rightarrow> string \<Rightarrow> bool \<Rightarrow> ('w, workspace) use_case" where
  "ensure_workspace ev make_dir subject i ok =
     bindE (get_task subject i)
       (\<lambda>t. bindE (task_workspace ev subject i)
         (\<lambda>w. case w of
            Some ws \<Rightarrow> ret ws
          | None \<Rightarrow>
              (let root = task_workspace_path (ev_settings ev) i
               in thenE (modify (on_outside (make_dir root)))
                 (bindE (gets (\<lambda>s. ev_workspace ev (outside s) root))
                   (\<lambda>made. case made of
                      None \<Rightarrow> raise (OsFailure [])
                    | Some ws \<Rightarrow>
                        thenE (modify (save_task (t\<lparr>workspace_path := Some (ws_root ws)\<rparr>)))
                          (thenE (commit ok) (ret ws)))))))"

definition ws_raise :: "ws_exc \<Rightarrow> svc_exc" where
  "ws_raise e = (case e of WsTool te \<Rightarrow> ToolErrorRaised (te_message te) | WsOs \<Rightarrow> OsFailure [])"

definition liftW :: "ws_exc + 'a \<Rightarrow> ('w, 'a) act" where
  "liftW r = (case r of Inl e \<Rightarrow> raise (ws_raise e) | Inr a \<Rightarrow> ret a)"

definition total_size :: "workspace \<Rightarrow> nat" where
  "total_size ws = sum_list (map snd (list_files 500 ws))"

definition save_upload ::
  "('w, 'k, 'p) env \<Rightarrow> (string \<Rightarrow> 'w \<Rightarrow> 'w) \<Rightarrow> (string \<Rightarrow> string \<Rightarrow> 'w \<Rightarrow> 'w) \<Rightarrow>
     string \<Rightarrow> string \<Rightarrow> bool \<Rightarrow> string \<Rightarrow> string \<Rightarrow> ('w, string) use_case" where
  "save_upload ev make_dir write_bytes subject i ok filename contents =
     bindE (get_task subject i)
       (\<lambda>t. thenE (whenE (status t \<noteq> ''pending'' \<or> steps_used t > 0)
              (ConflictError ''Files can only be uploaded before a task starts.''))
         (bindE (ensure_workspace ev make_dir subject i ok)
           (\<lambda>ws.
              (let safe = path_basename (if filename = [] then ''upload.bin'' else filename)
               in bindE (liftW (ws_resolve ws safe))
                 (\<lambda>target.
                    (let existing = (case map_of (ws_files ws) target of None \<Rightarrow> 0 | Some c \<Rightarrow> length c)
                     in thenE (whenE (int (total_size ws) - int existing + int (length contents) >
                                 agent_max_workspace_bytes (ev_settings ev))
                          (ConflictError ''Upload would exceed the task workspace quota.''))
                        (thenE (modify (on_outside (write_bytes target contents))) (ret safe))))))))"

text \<open>\<^verbatim>\<open>list_files\<close>: for a project the changed files and the receipt, each once.\<close>

definition sized_file :: "workspace \<Rightarrow> string \<Rightarrow> (string \<times> nat) option" where
  "sized_file ws path =
     (case ws_resolve ws path of
        Inl e \<Rightarrow> None
      | Inr target \<Rightarrow> map_option (\<lambda>c. (path, length c)) (map_of (ws_files ws) target))"

definition listed_paths :: "workspace \<Rightarrow> snapshot \<Rightarrow> string list" where
  "listed_paths ws sn =
     dedup (map fc_path (sn_files sn) @
       filter (\<lambda>p. ws_is_file ws (ws_real ws (join_path (ws_root ws) p))) [''receipt.json'', ''RECEIPT.md''])"

definition list_task_files ::
  "('w, 'k, 'p) env \<Rightarrow> string \<Rightarrow> string \<Rightarrow> ('w, (string \<times> nat) list) use_case" where
  "list_task_files ev subject i =
     bindE (get_task subject i)
       (\<lambda>t. bindE (task_workspace ev subject i)
         (\<lambda>w. case w of
            None \<Rightarrow> ret []
          | Some ws \<Rightarrow>
              if \<not> nonempty_opt (project_base_commit t) then ret (list_files 500 ws)
              else bindE (inspect_changes (ev_ops ev) (ev_settings ev)
                    (case workspace_path t of None \<Rightarrow> [] | Some p \<Rightarrow> p) (the (project_base_commit t)))
                (\<lambda>sn. ret (List.map_filter (sized_file ws) (listed_paths ws sn)))))"

definition no_such_file :: "string \<Rightarrow> svc_exc" where
  "no_such_file path = NotFoundError (''No such file: '' @ path)"

text \<open>The lookup \<^verbatim>\<open>read_file\<close> and \<^verbatim>\<open>resolve_file\<close> share.\<close>

definition resolve_file ::
  "('w, 'k, 'p) env \<Rightarrow> string \<Rightarrow> string \<Rightarrow> string \<Rightarrow> ('w, workspace \<times> string) use_case" where
  "resolve_file ev subject i path =
     bindE (task_workspace ev subject i)
       (\<lambda>w. case w of
          None \<Rightarrow> raise (NotFoundError ''This task has no workspace yet'')
        | Some ws \<Rightarrow>
            (case ws_resolve ws path of
               Inl (WsTool te) \<Rightarrow> raise (NotFoundError (te_message te))
             | Inl WsOs \<Rightarrow> raise (OsFailure [])
             | Inr target \<Rightarrow> if ws_is_file ws target then ret (ws, target) else raise (no_such_file path)))"

definition read_file ::
  "('w, 'k, 'p) env \<Rightarrow> string \<Rightarrow> string \<Rightarrow> string \<Rightarrow> ('w, string \<times> nat \<times> bool) use_case" where
  "read_file ev subject i path =
     bindE (resolve_file ev subject i path)
       (\<lambda>(ws, target).
          (let c = the (map_of (ws_files ws) target)
           in ret (take 200000 c, length c, length c > 200000)))"

section \<open>Receipts\<close>

definition get_receipt ::
  "('w, 'k, 'p) env \<Rightarrow> string \<Rightarrow> string \<Rightarrow> ('w, json option) use_case" where
  "get_receipt ev subject i =
     bindE (task_workspace ev subject i)
       (\<lambda>w. case w of
          None \<Rightarrow> ret None
        | Some ws \<Rightarrow>
            (case ws_read ws receipt_json 500000 of
               Inl (WsTool te) \<Rightarrow> raise (ToolErrorRaised (te_message te))
             | Inl WsOs \<Rightarrow> ret None
             | Inr content \<Rightarrow>
                 ret (case json_loads content of None \<Rightarrow> None | Some v \<Rightarrow> if v = JNull then None else Some v)))"

text \<open>\<^verbatim>\<open>verify_receipt_full\<close> calls dictionary methods on the value that was read.\<close>

definition full_report ::
  "('w, 'k, 'p) env \<Rightarrow> json \<Rightarrow> workspace option \<Rightarrow> string option \<Rightarrow> ('w, jdict \<times> receipt_report) use_case" where
  "full_report ev v ws anchor =
     (case v of
        JObj receipt \<Rightarrow>
          ret (receipt, verify_receipt_full (ev_crypto ev)
            (verify_key (ev_crypto ev) (ev_read_text ev) (ev_settings ev)) receipt ws anchor None)
      | _ \<Rightarrow> raise (PyRaise AttributeError))"

definition get_receipt_report ::
  "('w, 'k, 'p) env \<Rightarrow> string \<Rightarrow> string \<Rightarrow> ('w, (jdict \<times> receipt_report) option) use_case" where
  "get_receipt_report ev subject i =
     bindE (get_receipt ev subject i)
       (\<lambda>r. case r of
          None \<Rightarrow> ret None
        | Some v \<Rightarrow>
            bindE (get_task subject i)
              (\<lambda>t. bindE (task_workspace ev subject i)
                (\<lambda>ws. bindE (full_report ev v ws (receipt_hash t)) (\<lambda>x. ret (Some x)))))"

text \<open>Replay: the definitions recorded with the checks, or those of the contract.\<close>

definition recorded_definitions :: "jdict \<Rightarrow> jdict list" where
  "recorded_definitions receipt =
     List.map_filter
       (\<lambda>v. case v of JObj check \<Rightarrow> (case dget check ''definition'' of JObj d \<Rightarrow> Some d | _ \<Rightarrow> None) | _ \<Rightarrow> None)
       (list_in (dget receipt ''checks''))"

definition required_definitions :: "jdict \<Rightarrow> jdict list" where
  "required_definitions receipt =
     List.map_filter (\<lambda>v. case v of JObj d \<Rightarrow> Some d | _ \<Rightarrow> None)
       (list_in (dget (dict_in (dget receipt ''contract'')) ''required_checks''))"

definition replay_definitions :: "jdict \<Rightarrow> jdict list" where
  "replay_definitions receipt =
     (if recorded_definitions receipt \<noteq> [] then recorded_definitions receipt
      else required_definitions receipt)"

definition replay_backend :: "task \<Rightarrow> string option" where
  "replay_backend t =
     (if sandbox t = Some ''kubernetes'' then Some ''kubernetes''
      else if sandbox t = Some ''container'' then Some ''docker'' else None)"

fun dict_items :: "json list \<Rightarrow> jdict list result" where
  "dict_items [] = Inr []"
| "dict_items (JObj d # xs) = (case dict_items xs of Inl e \<Rightarrow> Inl e | Inr ds \<Rightarrow> Inr (d # ds))"
| "dict_items (_ # xs) = Inl AttributeError"

definition baseline_of :: "jdict \<Rightarrow> jdict list result" where
  "baseline_of receipt =
     (case iter_json (or_json (dget receipt ''baseline_checks'') (JArr [])) of
        Inl e \<Rightarrow> Inl e | Inr items \<Rightarrow> dict_items items)"

definition replay_results ::
  "(envelope \<Rightarrow> string option \<Rightarrow> nat \<Rightarrow> check_env) \<Rightarrow> task \<Rightarrow> jdict \<Rightarrow> check_result list result" where
  "replay_results cenv t receipt =
     (case from_capability_values (resolved_capabilities t) (task_egress_hosts t) of
        Inl e \<Rightarrow> Inl e
      | Inr envl \<Rightarrow>
          (case run_checks False (length (rubric t)) (cenv envl (replay_backend t)) (replay_definitions receipt) of
             Inl e \<Rightarrow> Inl e
           | Inr results \<Rightarrow>
               (case baseline_of receipt of
                  Inl e \<Rightarrow> Inl e | Inr base \<Rightarrow> Inr (attach_baseline results base))))"

definition replay_receipt ::
  "('w, 'k, 'p) env \<Rightarrow> ('w \<Rightarrow> envelope \<Rightarrow> string option \<Rightarrow> nat \<Rightarrow> check_env) \<Rightarrow> string \<Rightarrow> string \<Rightarrow>
     ('w, bool \<times> jdict list) use_case" where
  "replay_receipt ev cenv subject i =
     bindE (get_task subject i)
       (\<lambda>t. bindE (get_receipt ev subject i)
         (\<lambda>r. bindE (task_workspace ev subject i)
           (\<lambda>ws. case (r, ws) of
              (Some v, Some w) \<Rightarrow>
                bindE (full_report ev v (Some w) (receipt_hash t))
                  (\<lambda>(receipt, report).
                     thenE (whenE (\<not> rr_valid report) (ConflictError
                         ''Receipt integrity verification failed; replay was refused.''))
                      (thenE (whenE (replay_definitions receipt = []) (ConflictError
                           ''This Receipt has no replayable check definitions.''))
                        (thenE (whenE (replay_backend t = None \<and>
                              agent_sandbox (ev_settings ev) \<notin> {''off'', ''inline''}) (ConflictError
                             ''Replay refuses the host because no sandbox is available.''))
                          (bindE (gets (\<lambda>s. cenv (outside s)))
                            (\<lambda>run. liftR
                              (case replay_results run t receipt of
                                 Inl e \<Rightarrow> Inl (PyRaise e)
                               | Inr results \<Rightarrow>
                                   Inr (results \<noteq> [] \<and> completion_gates_pass results, map as_dict results)))))))
            | _ \<Rightarrow> raise (NotFoundError ''This task has no replayable Receipt.''))))"

section \<open>Inspecting a change set\<close>

record change_set_read =
  cs_project_path :: string
  cs_base_commit :: string
  cs_base_branch :: "string option"
  cs_state :: string
  cs_applied_patch_sha256 :: "string option"
  cs_patch_sha256 :: string
  cs_files :: "file_change list"
  cs_diff :: string
  cs_diff_truncated :: bool
  cs_can_apply :: bool
  cs_can_discard :: bool
  cs_can_undo :: bool
  cs_blocked_reason :: "string option"

definition open_states :: "string list" where
  "open_states = [''pending'', ''reverted'']"

definition or_text :: "string option \<Rightarrow> string \<Rightarrow> string" where
  "or_text x d = (if nonempty_opt x then the x else d)"

definition change_state_of :: "task \<Rightarrow> string" where
  "change_state_of t = or_text (change_state t) ''pending''"

text \<open>What blocks an application before the receipt is read.\<close>

definition early_reason :: "settings \<Rightarrow> task \<Rightarrow> snapshot \<Rightarrow> string option" where
  "early_reason c t sn =
     (if superseded_by_id t \<noteq> None
      then Some ''A newer Product Session revision supersedes this change set.''
      else if sn_files sn = [] then Some ''The isolated checkout has no project changes.''
      else if status t \<noteq> ''completed'' \<or> stop_reason t \<noteq> Some ''goal_achieved''
      then Some ''Apply is available only after the task completes successfully.''
      else if verified_by t \<noteq> Some ''execution'' \<or> verification_score t < agent_acceptance_score c
      then Some ''Apply requires execution-backed verification.''
      else None)"

definition expected_criteria :: "task \<Rightarrow> string list" where
  "expected_criteria t = map criterion_id [1..<length (rubric t) + 1]"

definition receipt_covered :: "json \<Rightarrow> string list result" where
  "receipt_covered cov =
     (case cov of
        JObj d \<Rightarrow>
          (case iter_json (dget_or d ''covered_criteria'' (JArr [])) of
             Inl e \<Rightarrow> Inl e
           | Inr vs \<Rightarrow> Inr (List.map_filter (\<lambda>v. case v of JStr x \<Rightarrow> Some x | _ \<Rightarrow> None) vs))
      | _ \<Rightarrow> Inr [])"

definition receipt_reason ::
  "task \<Rightarrow> snapshot \<Rightarrow> (jdict \<times> receipt_report) option \<Rightarrow> string option result" where
  "receipt_reason t sn report =
     (let rc = (case report of None \<Rightarrow> [] | Some (r, _) \<Rightarrow> r);
          cov = dget rc ''coverage'';
          cset = dget rc ''change_set''
      in case receipt_covered cov of
           Inl e \<Rightarrow> Inl e
         | Inr covered \<Rightarrow> Inr
             (if \<not> (case report of None \<Rightarrow> False | Some (_, rr) \<Rightarrow> rr_valid rr)
              then Some ''Receipt integrity verification failed.''
              else if \<not> is_dict cov \<or> dget (dict_in cov) ''execution_backed'' \<noteq> JBool True \<or>
                \<not> set (expected_criteria t) \<subseteq> set covered
              then Some ''Receipt does not prove every acceptance criterion.''
              else if \<not> is_dict cset \<or> dget (dict_in cset) ''patch_sha256'' \<noteq> JStr (sn_patch_sha256 sn)
              then Some ''The current diff no longer matches the verified Receipt.''
              else None))"

definition blocked_reason ::
  "('w, 'k, 'p) env \<Rightarrow> string \<Rightarrow> string \<Rightarrow> task \<Rightarrow> snapshot \<Rightarrow> ('w, string option) use_case" where
  "blocked_reason ev subject i t sn =
     (case early_reason (ev_settings ev) t sn of
        Some r \<Rightarrow> ret (Some r)
      | None \<Rightarrow>
          if change_state_of t \<in> set open_states
          then bindE (get_receipt_report ev subject i)
                 (\<lambda>report. liftR (case receipt_reason t sn report of Inl e \<Rightarrow> Inl (PyRaise e) | Inr r \<Rightarrow> Inr r))
          else ret None)"

definition change_set_view :: "task \<Rightarrow> snapshot \<Rightarrow> string option \<Rightarrow> change_set_read" where
  "change_set_view t sn reason =
     (let st = change_state_of t
      in \<lparr>cs_project_path = or_text (project_relative_path t) ''.'',
          cs_base_commit = the (project_base_commit t), cs_base_branch = project_base_branch t,
          cs_state = st, cs_applied_patch_sha256 = applied_patch_sha256 t,
          cs_patch_sha256 = sn_patch_sha256 sn, cs_files = sn_files sn, cs_diff = sn_diff sn,
          cs_diff_truncated = sn_diff_truncated sn,
          cs_can_apply = (st \<in> set open_states \<and> reason = None),
          cs_can_discard = (st \<in> set open_states \<and> status t \<in> set finished_statuses),
          cs_can_undo = (st = ''applied''), cs_blocked_reason = reason\<rparr>)"

definition not_bound :: svc_exc where
  "not_bound = NotFoundError ''This task is not bound to a local Git project.''"

definition bound :: "task \<Rightarrow> bool" where
  "bound t = (nonempty_opt (project_source_path t) \<and> nonempty_opt (project_base_commit t))"

definition task_changes :: "('w, 'k, 'p) env \<Rightarrow> task \<Rightarrow> ('w, snapshot) use_case" where
  "task_changes ev t =
     inspect_changes (ev_ops ev) (ev_settings ev) (the (workspace_path t)) (the (project_base_commit t))"

definition inspect_change_set ::
  "('w, 'k, 'p) env \<Rightarrow> string \<Rightarrow> string \<Rightarrow> ('w, change_set_read) use_case" where
  "inspect_change_set ev subject i =
     bindE (get_task subject i)
       (\<lambda>t. thenE (whenE (\<not> (bound t \<and> nonempty_opt (workspace_path t))) not_bound)
         (bindE (task_changes ev t)
           (\<lambda>sn. bindE (blocked_reason ev subject i t sn)
             (\<lambda>reason. ret (change_set_view t sn reason)))))"

section \<open>Applying, discarding and undoing\<close>

text \<open>The three handlers run with the lock of the source project and release it however they end.\<close>

definition with_source_lock ::
  "('w, 'k, 'p) env \<Rightarrow> string \<Rightarrow> ('w, 'a) use_case \<Rightarrow> ('w, 'a) use_case" where
  "with_source_lock ev source m =
     bindE (acquire_source_lock (ev_ops ev) source) (\<lambda>lock. finallyE m (release_source_lock lock))"

definition locked_handler ::
  "('w, 'k, 'p) env \<Rightarrow> string \<Rightarrow> string \<Rightarrow> (task \<Rightarrow> ('w, change_set_read) use_case) \<Rightarrow>
     ('w, change_set_read) use_case" where
  "locked_handler ev subject i handler =
     bindE (get_task subject i)
       (\<lambda>t. thenE (whenE (\<not> nonempty_opt (project_source_path t)) not_bound)
         (with_source_lock ev (the (project_source_path t))
           (bindE (get_task subject i) handler)))"

text \<open>Commit a changed row; when the commit fails, run \<open>compensate\<close> and raise.\<close>

definition commit_or ::
  "bool \<Rightarrow> task \<Rightarrow> ('w, unit) use_case \<Rightarrow> ('w, unit) use_case" where
  "commit_or ok u compensate =
     bindE (gets (\<lambda>s. s))
       (\<lambda>before. thenE (modify (save_task u))
         (catchE (commit ok)
           (\<lambda>e. thenE (modify (rollback before)) (thenE compensate (raise e)))))"

definition apply_change_set_locked ::
  "('w, 'k, 'p) env \<Rightarrow> string \<Rightarrow> bool \<Rightarrow> task \<Rightarrow> ('w, change_set_read) use_case" where
  "apply_change_set_locked ev subject ok t =
     (if change_state t \<notin> Some ` set open_states
      then raise (ConflictError (''Change set is '' @ or_text (change_state t) ''unavailable'' @ '' and cannot apply.''))
      else
        bindE (inspect_change_set ev subject (task_id t))
          (\<lambda>preview. thenE (whenE (\<not> cs_can_apply preview)
               (ConflictError (or_text (cs_blocked_reason preview) ''This change set cannot be applied.'')))
            (thenE (whenE (\<not> (bound t \<and> nonempty_opt (workspace_path t))) not_bound)
              (bindE (task_changes ev t)
                (\<lambda>sn.
                   (let source = the (project_source_path t); base = the (project_base_commit t);
                        forget = modify (delete_patch (task_id t));
                        applier = (\<lambda>rv. apply_patch (ev_ops ev) (ev_settings ev) source base (sn_patch sn) rv False)
                    in thenE (modify (save_patch (task_id t) (sn_patch sn)))
                        (thenE (catchE (applier False) (\<lambda>e. thenE forget (raise e)))
                          (thenE (commit_or ok
                              (t\<lparr>change_state := Some ''applied'', applied_patch_sha256 := Some (sn_patch_sha256 sn)\<rparr>)
                              (thenE (applier True) forget))
                            (inspect_change_set ev subject (task_id t))))))))))"

definition apply_change_set ::
  "('w, 'k, 'p) env \<Rightarrow> string \<Rightarrow> bool \<Rightarrow> string \<Rightarrow> ('w, change_set_read) use_case" where
  "apply_change_set ev subject ok i = locked_handler ev subject i (apply_change_set_locked ev subject ok)"

definition discard_change_set_locked ::
  "('w, 'k, 'p) env \<Rightarrow> string \<Rightarrow> bool \<Rightarrow> task \<Rightarrow> ('w, change_set_read) use_case" where
  "discard_change_set_locked ev subject ok t =
     bindE (inspect_change_set ev subject (task_id t))
       (\<lambda>preview. thenE (whenE (\<not> cs_can_discard preview)
            (ConflictError (''Change set is '' @ cs_state preview @ '' and cannot be discarded.'')))
         (thenE (commit_or ok (t\<lparr>change_state := Some ''discarded'', applied_patch_sha256 := None\<rparr>) (ret ()))
           (thenE (modify (delete_patch (task_id t)))
             (inspect_change_set ev subject (task_id t)))))"

definition discard_change_set ::
  "('w, 'k, 'p) env \<Rightarrow> string \<Rightarrow> bool \<Rightarrow> string \<Rightarrow> ('w, change_set_read) use_case" where
  "discard_change_set ev subject ok i = locked_handler ev subject i (discard_change_set_locked ev subject ok)"

definition undo_change_set_locked ::
  "('w, 'k, 'p) env \<Rightarrow> string \<Rightarrow> bool \<Rightarrow> task \<Rightarrow> ('w, change_set_read) use_case" where
  "undo_change_set_locked ev subject ok t =
     (if change_state t \<noteq> Some ''applied'' \<or> \<not> nonempty_opt (applied_patch_sha256 t)
      then raise (ConflictError (''Change set is '' @ or_text (change_state t) ''unavailable'' @ '' and cannot undo.''))
      else thenE (whenE (\<not> bound t) not_bound)
        (bindE (load_patch (task_id t) (the (applied_patch_sha256 t)))
          (\<lambda>patch.
             (let applier = apply_patch (ev_ops ev) (ev_settings ev) (the (project_source_path t))
                    (the (project_base_commit t)) patch
              in thenE (applier True False)
                  (thenE (commit_or ok (t\<lparr>change_state := Some ''reverted''\<rparr>) (applier False True))
                    (inspect_change_set ev subject (task_id t)))))))"

definition undo_change_set ::
  "('w, 'k, 'p) env \<Rightarrow> string \<Rightarrow> bool \<Rightarrow> string \<Rightarrow> ('w, change_set_read) use_case" where
  "undo_change_set ev subject ok i = locked_handler ev subject i (undo_change_set_locked ev subject ok)"

section \<open>Revisions\<close>

record revision_create =
  rv_feedback :: string
  rv_kind :: feedback

definition raise_unless :: "(bool \<times> svc_exc) list \<Rightarrow> ('w, unit) act" where
  "raise_unless gates = (case find (\<lambda>(ok, e). \<not> ok) gates of None \<Rightarrow> ret () | Some (ok, e) \<Rightarrow> raise e)"

text \<open>The conditions on the delivery, in the order the code tests them.\<close>

definition revisable :: "task \<Rightarrow> (bool \<times> svc_exc) list" where
  "revisable t =
     [(nonempty_opt (product_session_id t) \<and> product_revision t \<notin> {None, Some 0},
       ConflictError ''Only local-project Product Session tasks can be revised.''),
      (parent_id t = None, ConflictError ''A sub-agent task cannot become a product revision.''),
      (nonempty_opt (project_source_path t) \<and> nonempty_opt (project_relative_path t),
       ConflictError ''This Product Session has no local project binding.'')]"

definition delivered :: "settings \<Rightarrow> string \<Rightarrow> product_session option \<Rightarrow> task \<Rightarrow> (bool \<times> svc_exc) list" where
  "delivered c subject ps t =
     [((case ps of None \<Rightarrow> False | Some p \<Rightarrow> ps_owner_id p = subject),
       NotFoundError ''This Product Session does not exist.''),
      (superseded_by_id t = None, ConflictError ''Only the latest Product Session revision can be revised.''),
      (status t = ''completed'' \<and> stop_reason t = Some ''goal_achieved'' \<and>
       verified_by t = Some ''execution'' \<and> \<not> verification_score t < agent_acceptance_score c,
       ConflictError ''Feedback can create a revision only after execution-verified delivery.''),
      (contract_status t = ''locked'' \<and> nonempty_opt (contract_hash t),
       ConflictError ''The prior delivery has no locked acceptance contract.''),
      (change_state t \<in> Some ` set open_states,
       ConflictError ''Create the next revision before Apply, or Undo the applied change set first.'')]"

definition revision_checks :: "feedback \<Rightarrow> jdict list \<Rightarrow> jdict list" where
  "revision_checks kind cks =
     map (dset ''criterion_ids'' (json_strs [''criterion-001'']))
       (filter (\<lambda>ck. kind = ImplementationFix \<and> dget ck ''source'' = JStr ''contract'') cks)"

definition revision_task ::
  "settings \<Rightarrow> string \<Rightarrow> string \<Rightarrow> task \<Rightarrow> revision_create \<Rightarrow> product_session \<Rightarrow> jdict \<Rightarrow> string \<Rightarrow>
     project_binding \<Rightarrow> task" where
  "revision_task c subject i og p ps spec goal_text b =
     (let lim = resolve_limits c \<lparr>li_max_steps = Some (max_steps og), li_token_budget = Some (token_budget og)\<rparr>
      in bind_project (Some b)
        ((fresh_task i)
          \<lparr>goal := goal_text, owner_id := subject, project_id := project_id og,
           verification_mode := ''strict'', required_checks := revision_checks (rv_kind p) (required_checks og),
           requested_capabilities := requested_capabilities og,
           allowed_tool_names := allowed_tool_names og, allow_egress := allow_egress og,
           task_egress_hosts := task_egress_hosts og, require_approval := require_approval og,
           use_browser := use_browser og, use_email := use_email og,
           use_calendar := use_calendar og, use_vision := use_vision og,
           chat_id := chat_id og, skill := skill og,
           max_steps := fst lim, token_budget := snd lim,
           product_session_id := Some (ps_id ps),
           product_revision := map_option (\<lambda>n. n + 1) (product_revision og),
           previous_revision_id := Some (task_id og), feedback_kind := Some (feedback_value (rv_kind p)),
           feedback_delta := Some (rv_feedback p), product_specification := Some spec,
           specification_hash_of := Some (specification_hash spec)\<rparr>))"

definition liftPy :: "'a result \<Rightarrow> ('w, 'a) act" where
  "liftPy r = liftR (case r of Inl e \<Rightarrow> Inl (PyRaise e) | Inr a \<Rightarrow> Inr a)"

text \<open>Everything up to the insertion of the row: the prior delivery must be applicable as it
  stands, and the source must still be at its base commit.\<close>

definition revision_prepared ::
  "('w, 'k, 'p) env \<Rightarrow> string \<Rightarrow> string \<Rightarrow> revision_create \<Rightarrow> task \<Rightarrow>
     ('w, product_session \<times> project_binding \<times> snapshot \<times> jdict \<times> string) use_case" where
  "revision_prepared ev subject i p og =
     bindE (gets (\<lambda>s. find (\<lambda>x. Some (ps_id x) = product_session_id og) (db_sessions s)))
       (\<lambda>ps. thenE (raise_unless (delivered (ev_settings ev) subject ps og))
         (bindE (inspect_change_set ev subject i)
           (\<lambda>view. thenE (whenE (\<not> cs_can_apply view) (ConflictError
                (or_text (cs_blocked_reason view) ''The prior delivery cannot seed a safe revision.'')))
             (bindE (get_receipt_report ev subject i)
               (\<lambda>report. thenE (whenE (\<not> (case report of None \<Rightarrow> False | Some (_, rr) \<Rightarrow> rr_valid rr))
                    (ConflictError ''The prior Receipt failed integrity verification.''))
                 (thenE (whenE (\<not> nonempty_opt (project_base_commit og))
                    (ConflictError ''The prior delivery has no immutable base commit.''))
                   (bindE (prepare_project (ev_ops ev) (ev_settings ev) (the (project_relative_path og)))
                     (\<lambda>b. thenE (whenE (Some (pb_base_commit b) \<noteq> project_base_commit og)
                          (ConflictError ''The source project moved to another commit; the revision was refused.''))
                       (bindE (inspect_changes (ev_ops ev) (ev_settings ev) (or_text (workspace_path og) [])
                           (the (project_base_commit og)))
                         (\<lambda>sn. bindE (liftPy (revised_specification og (rv_feedback p) (rv_kind p)))
                           (\<lambda>spec. bindE (liftPy (revision_goal spec (rv_feedback p) (rv_kind p)))
                             (\<lambda>g. ret (the ps, b, sn, spec, g)))))))))))))"

definition race_lost :: "svc_exc \<Rightarrow> svc_exc" where
  "race_lost e = (if e = IntegrityError then ConflictError ''Another Product Session revision won the race.'' else e)"

text \<open>The handlers: roll back, remove the new checkout once it was named, translate the race.\<close>

definition revision_guard ::
  "('w, 'k, 'p) env \<Rightarrow> 'w service \<Rightarrow> string option \<Rightarrow> ('w, 'a) use_case \<Rightarrow> ('w, 'a) use_case" where
  "revision_guard ev before dest m =
     catchE m
       (\<lambda>e. thenE (modify (rollback before))
          (thenE (modify (case dest of None \<Rightarrow> (\<lambda>s. s) | Some d \<Rightarrow> on_outside (ho_rmtree (ev_ops ev) d)))
            (raise (race_lost e))))"

definition seed_revision ::
  "('w, 'k, 'p) env \<Rightarrow> bool \<Rightarrow> task \<Rightarrow> task \<Rightarrow> project_binding \<Rightarrow> snapshot \<Rightarrow> ('w, task) use_case" where
  "seed_revision ev ok og t b sn =
     (let dest = task_workspace_path (ev_settings ev) (task_id t)
      in thenE (clone_project_revision (ev_ops ev) (ev_settings ev) b dest (sn_patch sn))
          (bindE (gets (\<lambda>s. ho_resolve (ev_ops ev) (outside s) dest))
            (\<lambda>path.
               (let u = t\<lparr>workspace_path := Some path\<rparr>
                in thenE (modify (save_task u))
                    (thenE (modify (save_task (og\<lparr>superseded_by_id := Some (task_id t)\<rparr>)))
                      (thenE (commit ok) (ret u)))))))"

definition revision_row ::
  "('w, 'k, 'p) env \<Rightarrow> string \<Rightarrow> string \<Rightarrow> string \<Rightarrow> bool \<Rightarrow> task list \<Rightarrow> revision_create \<Rightarrow> task \<Rightarrow>
     ('w, task) use_case" where
  "revision_row ev subject new_id i ok others p og =
     bindE (gets (\<lambda>s. s))
       (\<lambda>before. bindE (revision_guard ev before None (revision_prepared ev subject i p og))
         (\<lambda>(ps, b, sn, spec, g).
            thenE (modify (with_tasks (\<lambda>rows. rows @ others)))
              (bindE (gets (\<lambda>s. s))
                (\<lambda>fresh. bindE (revision_guard ev fresh None
                      (create_task (revision_task (ev_settings ev) subject new_id og p ps spec g b)))
                  (\<lambda>t. revision_guard ev fresh (Some (task_workspace_path (ev_settings ev) new_id))
                     (seed_revision ev ok og t b sn))))))"

definition create_revision ::
  "('w, 'k, 'p) env \<Rightarrow> string \<Rightarrow> string \<Rightarrow> bool \<Rightarrow> task list \<Rightarrow> revision_create \<Rightarrow> string \<Rightarrow> ('w, task) use_case" where
  "create_revision ev subject new_id ok others p i =
     bindE (get_task subject i)
       (\<lambda>og. thenE (raise_unless (revisable og))
         (with_source_lock ev (the (project_source_path og))
           (bindE (get_task subject i) (revision_row ev subject new_id i ok others p))))"

end
