(* ===== verification/Task_Invariants.thy ===== *)
theory Task_Invariants
  imports Task_Service
begin

text \<open>
  What the use cases of \<^verbatim>\<open>services/task.py\<close>, the repository and recovery keep: publications stay
  within the limits and are unique, a cancellation reaches the whole tree, an answer resumes
  the task and leaves its ledger sealed, and every sequence of operations keeps the invariant
  of the tables.
\<close>

section \<open>Cancelling a tree\<close>

definition cancel_as :: "string \<Rightarrow> task \<Rightarrow> task" where
  "cancel_as reason t = moved t Cancelled (reason_text reason Cancel) (Some CancelledByUser)"

lemma cancel_as_simps [simp]:
  "task_id (cancel_as reason t) = task_id t" "loop_state (cancel_as reason t) = state_value Cancelled"
  "coherent (cancel_as reason t)"
  by (simp_all add: cancel_as_def coherent_def stop_ok_def moved_def)

lemma rule_cancel: "rule st Cancel = (if st \<in> set active then Some Cancelled else None)"
  unfolding rule_eq_spec rule_spec_def by (auto simp: base_rules_def)

lemma cancel_row_eq:
  assumes "coherent t" "\<not> finished t"
  shows "cancel_row reason t = Some (cancel_as reason t)"
proof -
  from assms(1) obtain st where st: "loop_state t = state_value st" by (rule coherent_cases)
  with assms(2) have "st \<in> set active" by (simp add: finished_def terminal_iff)
  then show ?thesis
    unfolding cancel_row_def loop_step_iff using st
    by (auto simp: rule_cancel cancel_as_def reason_of_def)
qed

lemma distinct_ids_eq: "distinct_ids rows \<Longrightarrow> r \<in> set rows \<Longrightarrow> d \<in> set rows \<Longrightarrow> task_id r = task_id d \<longleftrightarrow> r = d"
  by (auto simp: distinct_ids_def distinct_map dest: inj_onD)

lemma put_task_map:
  assumes "distinct_ids rows" "d \<in> set rows" "\<And>r. task_id (g r) = task_id r" "task_id d' = task_id d"
  shows "put_task d' (map g rows) = map (\<lambda>r. if r = d then d' else g r) rows"
  using assms distinct_ids_eq [OF assms(1) _ assms(2)] by (simp add: put_task_def)

lemma cancel_rows_map:
  assumes "distinct_ids rows" "\<forall>t \<in> set rows. coherent t" "set ds \<subseteq> set rows"
    "\<And>r. task_id (g r) = task_id r"
  shows "cancel_rows (map g rows) ds =
    Some (map (\<lambda>r. if r \<in> set ds \<and> \<not> finished r then cancel_as ''cancelled_with_parent'' r else g r) rows)"
  using assms(3,4)
proof (induction ds arbitrary: g)
  case Nil
  then show ?case by simp
next
  case (Cons d ds)
  have d: "d \<in> set rows" "coherent d" using Cons.prems assms(2) by auto
  show ?case
  proof (cases "finished d")
    case True
    have "(r = d \<or> r \<in> set ds) \<and> \<not> finished r \<longleftrightarrow> r \<in> set ds \<and> \<not> finished r" for r
      using True by auto
    then show ?thesis using True Cons by (simp add: status_groups(2) [OF d(2)])
  next
    case False
    let ?d = "cancel_as ''cancelled_with_parent'' d"
    let ?g = "\<lambda>r. if r = d then ?d else g r"
    have "cancel_rows (map g rows) (d # ds) = cancel_rows (map ?g rows) ds"
      using False Cons.prems(2) put_task_map [OF assms(1) d(1) Cons.prems(2)]
      by (simp add: status_groups(2) [OF d(2)] cancel_row_eq [OF d(2)])
    also have "\<dots> = Some (map (\<lambda>r. if r \<in> set ds \<and> \<not> finished r
        then cancel_as ''cancelled_with_parent'' r else ?g r) rows)"
      using Cons.IH [of ?g] Cons.prems by simp
    finally show ?thesis using False by (auto intro!: map_cong)
  qed
qed

text \<open>The table after a successful cancellation.\<close>

definition closed_rows :: "task list \<Rightarrow> task \<Rightarrow> task list" where
  "closed_rows rows t =
     map (\<lambda>r. if r \<in> set (list_descendants rows (task_id t)) \<and> \<not> finished r
              then cancel_as ''cancelled_with_parent'' r
              else if r = t then cancel_as ''cancelled_by_user'' t else r) rows"

lemma cancel_eq:
  assumes "distinct_ids (db_tasks s)" "\<forall>t \<in> set (db_tasks s). coherent t"
    "find_task (db_tasks s) i = Some t" "owner_id t = subject"
  shows "cancel subject i s =
    (if finished t then (Inl (ConflictError (''Task is '' @ status t @ '' and cannot be cancelled'')), s)
     else (Inr (cancel_as ''cancelled_by_user'' t), s\<lparr>db_tasks := closed_rows (db_tasks s) t\<rparr>))"
proof -
  let ?rows = "db_tasks s"
  have t: "t \<in> set ?rows" "task_id t = i" "coherent t" using find_task_SomeD [OF assms(3)] assms(2) by auto
  let ?c = "cancel_as ''cancelled_by_user'' t"
  have "put_task ?c (map (\<lambda>r. r) ?rows) = map (\<lambda>r. if r = t then ?c else r) ?rows"
    using assms(1) t(1) by (intro put_task_map) auto
  then have "cancel_rows (put_task ?c ?rows) (list_descendants ?rows i) = Some (closed_rows ?rows t)"
    using cancel_rows_map [OF assms(1,2) list_descendants_subset, of "\<lambda>r. if r = t then ?c else r" i]
    by (simp add: closed_rows_def t)
  then show ?thesis
    using assms(3,4) t status_groups(2) [OF t(3)]
    by (simp add: cancel_def get_task_def bindE_def gets_def ret_def raise_def cancel_row_eq thenE_def
        modify_def with_tasks_def)
qed

lemma cancel_refused:
  assumes "find_task (db_tasks s) i = None \<or> (\<exists>t. find_task (db_tasks s) i = Some t \<and> owner_id t \<noteq> subject)"
  shows "cancel subject i s = (Inl (NotFoundError (''Task '' @ i @ '' does not exist'')), s)"
  using assms by (auto simp: cancel_def get_task_def bindE_def gets_def raise_def)

lemma closed_rows_all2:
  assumes "distinct_ids rows" "t \<in> set rows" "\<not> finished t"
  shows "list_all2 (\<lambda>r r'. if task_id r \<in> insert (task_id t) ((child_of rows)\<^sup>+ `` {task_id t}) \<and> \<not> finished r
      then loop_state r' = state_value Cancelled \<and> coherent r' \<and> task_id r' = task_id r else r' = r)
    rows (closed_rows rows t)"
proof -
  have "r \<in> set (list_descendants rows (task_id t)) \<longleftrightarrow>
      task_id r \<in> (child_of rows)\<^sup>+ `` {task_id t} - {task_id t}" if "r \<in> set rows" for r
    using that list_descendants_ids [OF assms(1), of "task_id t", symmetric]
      list_descendants_subset [of rows "task_id t"] distinct_ids_eq [OF assms(1) that]
    by (auto simp: image_iff)
  then show ?thesis
    using assms distinct_ids_eq [OF assms(1) _ assms(2)]
    by (auto simp: closed_rows_def list_all2_map2 intro!: list.rel_refl_strong)
qed

text \<open>
  C37. Cancelling a task closes its whole tree: every row below it that is not finished ends
  cancelled, as does the task itself, and no other row changes. The policy never refuses; a
  refused request (unknown task, another owner, finished task) changes nothing.
\<close>

theorem cancel_closes_subtree:
  assumes "distinct_ids (db_tasks s)" "\<forall>t \<in> set (db_tasks s). coherent t"
  shows "case cancel subject i s of
     (Inl e, s') \<Rightarrow> s' = s \<and> e \<noteq> LoopError \<and>
       \<not> (\<exists>t. find_task (db_tasks s) i = Some t \<and> owner_id t = subject \<and> \<not> finished t)
   | (Inr t, s') \<Rightarrow> task_id t = i \<and> loop_state t = state_value Cancelled \<and> db_steps s' = db_steps s \<and>
       list_all2 (\<lambda>r r'. if task_id r \<in> insert i ((child_of (db_tasks s))\<^sup>+ `` {i}) \<and> \<not> finished r
           then loop_state r' = state_value Cancelled \<and> coherent r' \<and> task_id r' = task_id r
           else r' = r) (db_tasks s) (db_tasks s')"
proof (cases "\<exists>t. find_task (db_tasks s) i = Some t \<and> owner_id t = subject")
  case True
  then obtain t where t: "find_task (db_tasks s) i = Some t" "owner_id t = subject" by blast
  note r = find_task_SomeD [OF t(1)]
  show ?thesis
    using cancel_eq [OF assms t] closed_rows_all2 [OF assms(1), of t] r t by simp
next
  case False
  then have "cancel subject i s = (Inl (NotFoundError (''Task '' @ i @ '' does not exist'')), s)"
    by (intro cancel_refused) (metis option.exhaust)
  then show ?thesis using False by auto
qed

definition sample_service :: "unit service" where
  "sample_service = \<lparr>outside = (), metadata = Map.empty, held_locks = [],
     db_tasks = family, db_steps = (\<lambda>_. []), db_sessions = []\<rparr>"

lemma sample_service_simps [simp]:
  "db_tasks sample_service = family" "db_steps sample_service = (\<lambda>_. [])"
  by (simp_all add: sample_service_def)

lemma family_facts: "distinct_ids family" "\<forall>t \<in> set family. coherent t"
  by (simp_all add: distinct_ids_def family_def coherent_def fresh_task_def stop_ok_def)

theorem cancel_closes_subtree_witness:
  "case cancel ''local'' ''a'' sample_service of
     (Inl e, s') \<Rightarrow> False
   | (Inr t, s') \<Rightarrow> loop_state t = state_value Cancelled \<and>
       map loop_state (db_tasks s') = map state_value [Cancelled, Cancelled, Cancelled, Queued]"
proof -
  obtain r s' where c: "cancel ''local'' ''a'' sample_service = (r, s')" by (rule prod.exhaust)
  have "map loop_state (db_tasks (snd (cancel ''local'' ''a'' sample_service))) =
     map state_value [Cancelled, Cancelled, Cancelled, Queued]" by code_simp
  with c have e: "map loop_state (db_tasks s') = map state_value [Cancelled, Cancelled, Cancelled, Queued]"
    by simp
  have "s' \<noteq> sample_service" using e by (auto simp: family_def)
  with e cancel_closes_subtree [where s = sample_service and subject = "''local''" and i = "''a''"]
      family_facts c
  show ?thesis by (cases r) auto
qed

section \<open>Answers\<close>

lemma respond_Inr:
  assumes "respond subject i answer s = (Inr v, s')"
  obtains t u where "find_task (db_tasks s) i = Some t" "owner_id t = subject"
    "status t = status_value AwaitingInputStatus" "answered_task t answer = Inr u"
    "loop_step (u\<lparr>pending_question := None\<rparr>) (UserResponded, ''user_response_recorded'', None) = Some v"
    "db_tasks s' = put_task v (db_tasks s)"
    "db_steps s' = (db_steps s)(i := answered_steps t answer (db_steps s i))"
  using assms
  by (auto simp: respond_def status_literals save_task_def with_tasks_def split: if_splits option.splits sum.splits)

lemma answered_fields:
  "answered_task t answer = Inr u \<Longrightarrow>
     task_id u = task_id t \<and> loop_state u = loop_state t \<and> owner_id u = owner_id t \<and>
     idempotency_key u = idempotency_key t \<and> product_session_id u = product_session_id t \<and>
     product_revision u = product_revision t \<and>
     (answer_edits t \<longrightarrow> pending_action u = (if is_approval answer then pending_action t else None)) \<and>
     (\<not> answer_edits t \<longrightarrow> pending_action u = pending_action t)"
  by (auto simp: answered_task_def split: if_splits sum.splits)

lemma answered_steps_verify:
  "fst (verify_chain i steps) \<Longrightarrow> fst (verify_chain i (answered_steps t answer steps))"
  by (simp add: answered_steps_def verify_chain_amend_last)


definition paused_task :: task where
  "paused_task = (fresh_task ''q'')\<lparr>loop_state := state_value AwaitingApproval, status := status_value AwaitingInputStatus,
     pending_question := Some ''ok?'', pending_action := Some [(''tool'', JStr ''run_command'')]\<rparr>"

definition paused_service :: "unit service" where
  "paused_service = sample_service\<lparr>db_tasks := [paused_task],
     db_steps := (\<lambda>i. if i = ''q'' then sample_chain ''q'' else [])\<rparr>"

lemma paused_task_simps [simp]:
  "task_id paused_task = ''q''" "owner_id paused_task = ''local''"
  "status paused_task = status_value AwaitingInputStatus" "answer_edits paused_task"
  "pending_action paused_task = Some [(''tool'', JStr ''run_command'')]"
  "loop_state paused_task = state_value AwaitingApproval"
  by (simp_all add: paused_task_def fresh_task_def answer_edits_def)

lemma answered_resumes:
  assumes "loop_state u = state_value AwaitingApproval"
  shows "loop_step u (UserResponded, reason, None) = Some (moved u Queued (reason_text reason UserResponded) None)"
proof -
  have "rule AwaitingApproval UserResponded = Some Queued" by (simp add: rule_into_queued)
  moreover have "reason_of Queued None = None" by (simp add: reason_of_def)
  ultimately show ?thesis using assms unfolding loop_step_iff by force
qed


section \<open>Sequences of operations\<close>

text \<open>The columns the unique constraints look at, and the identifier.\<close>

definition same_keys :: "task \<Rightarrow> task \<Rightarrow> bool" where
  "same_keys t u =
     (task_id t = task_id u \<and> idempotency_key t = idempotency_key u \<and> owner_id t = owner_id u \<and>
      product_session_id t = product_session_id u \<and> product_revision t = product_revision u)"

definition unique_rows :: "task list \<Rightarrow> bool" where
  "unique_rows rows = sorted_wrt (\<lambda>t u. \<not> conflicts t u) rows"

definition rows_ok :: "task list \<Rightarrow> bool" where
  "rows_ok rows = (distinct_ids rows \<and> unique_rows rows \<and> (\<forall>t \<in> set rows. coherent t))"

definition service_inv :: "'w service \<Rightarrow> bool" where
  "service_inv s = (rows_ok (db_tasks s) \<and> (\<forall>i. fst (verify_chain i (db_steps s i))))"

lemma conflicts_same_keys: "same_keys t t' \<Longrightarrow> same_keys u u' \<Longrightarrow> conflicts t u = conflicts t' u'"
  by (simp add: same_keys_def conflicts_def)

lemma rows_ok_update:
  assumes "rows_ok rows" "\<And>r. r \<in> set rows \<Longrightarrow> same_keys r (f r) \<and> coherent (f r)"
  shows "rows_ok (map f rows)"
proof -
  have "map task_id (map f rows) = map task_id rows" using assms(2) by (auto simp: same_keys_def)
  then have "distinct_ids (map f rows)" using assms(1) by (simp only: rows_ok_def distinct_ids_def)
  moreover have "unique_rows (map f rows)"
    using assms(1) conflicts_same_keys [OF conjunct1 [OF assms(2)] conjunct1 [OF assms(2)]]
    by (auto simp: rows_ok_def unique_rows_def sorted_wrt_map intro: sorted_wrt_mono_rel [rotated])
  ultimately show ?thesis using assms(2) by (auto simp: rows_ok_def)
qed

lemma rows_ok_snoc:
  assumes "rows_ok rows" "task_id t \<notin> task_id ` set rows" "\<not> list_ex (conflicts t) rows" "coherent t"
  shows "rows_ok (rows @ [t])"
  using assms
  by (auto simp: rows_ok_def distinct_ids_def unique_rows_def sorted_wrt_append list_ex_iff conflicts_sym)

lemma same_keys_moved [simp]: "same_keys t (moved u tgt r fr) = same_keys t u"
  by (simp add: same_keys_def moved_def)

lemma same_keys_refl [simp]: "same_keys t t"
  by (simp add: same_keys_def)

lemma rows_ok_replace:
  assumes "rows_ok rows" "t \<in> set rows" "same_keys t v" "coherent v"
  shows "rows_ok (map (\<lambda>r. if r = t then v else r) rows)"
  using assms by (intro rows_ok_update) (auto simp: rows_ok_def)

datatype service_op =
    Publish string string string bool task_create
  | Retry string string bool string
  | ClaimTask string
  | Reconcile int bool "task \<Rightarrow> bool"
  | CancelTask string string
  | Respond string string string
  | Advance string loop_input
  | RecordStep string int string string jdict string string int

text \<open>One operation, with a fresh identifier where it inserts a row. What an operation that
  raises left behind stays; the last two are what a run of the agent writes.\<close>

fun service_step :: "('w, 'k, 'p) env \<Rightarrow> 'w service \<Rightarrow> service_op \<Rightarrow> 'w service option" where
  "service_step ev s (Publish subject i sid ok p) =
     (if i \<in> task_id ` set (db_tasks s) then None else Some (snd (publish ev subject i sid [] ok p s)))"
| "service_step ev s (Retry subject i ok og) =
     (if i \<in> task_id ` set (db_tasks s) then None else Some (snd (retry ev subject i ok og s)))"
| "service_step ev s (ClaimTask i) = Some (with_tasks (\<lambda>rows. snd (claim_pending rows i)) s)"
| "service_step ev s (Reconcile secs requeue stale) =
     Some (with_tasks (\<lambda>rows. snd (reconcile_interrupted_tasks rows secs requeue stale)) s)"
| "service_step ev s (CancelTask subject i) = Some (snd (cancel subject i s))"
| "service_step ev s (Respond subject i answer) = Some (snd (respond subject i answer s))"
| "service_step ev s (Advance i l) =
     (case find_task (db_tasks s) i of
        None \<Rightarrow> None | Some t \<Rightarrow> map_option (\<lambda>t'. save_task t' s) (loop_step t l))"
| "service_step ev s (RecordStep i n th tool args obs st tk) =
     Some (s\<lparr>db_steps := (db_steps s)(i := db_steps s i @
       [new_step (ledger_head i (db_steps s i)) n th tool args obs st tk])\<rparr>)"

lemma keeps_db_optionally [intro]: "keeps_db m \<Longrightarrow> keeps_db (optionally b m)"
  by (auto simp: optionally_def)

lemma keeps_db_by_key [intro]: "keeps_db (by_key subject key)"
  by (auto simp: by_key_def)

lemma keeps_db_get_task [intro]: "keeps_db (get_task subject i)"
  unfolding get_task_def by (auto intro!: keeps_intros split: option.split)

lemma in_session_Inl:
  "in_session before m s = (Inl e, s') \<Longrightarrow>
     db_tasks s' = db_tasks before \<and> db_steps s' = db_steps before"
  by (auto simp: in_session_def catchE_def thenE_def modify_def raise_def bindE_def rollback_def
      split: prod.splits sum.splits)

text \<open>An operation that first only reads and then works in a session leaves the tables alone
  when it raises.\<close>

definition clean_failure :: "('w, 'a) use_case \<Rightarrow> bool" where
  "clean_failure m =
     (\<forall>s e s'. m s = (Inl e, s') \<longrightarrow> db_tasks s' = db_tasks s \<and> db_steps s' = db_steps s)"

lemma clean_failure_keeps: "keeps_db m \<Longrightarrow> clean_failure m"
  unfolding clean_failure_def by (blast dest: keeps_dbD)

lemma clean_failure_bind:
  assumes "keeps_db m" "\<And>a. clean_failure (f a)"
  shows "clean_failure (bindE m f)"
  unfolding clean_failure_def bindE_Inl
proof (intro allI impI, elim disjE exE conjE)
  fix s e s'
  assume "m s = (Inl e, s')"
  then show "db_tasks s' = db_tasks s \<and> db_steps s' = db_steps s" using keeps_dbD [OF assms(1)] by blast
next
  fix s e s' a u
  assume "m s = (Inr a, u)" "f a u = (Inl e, s')"
  then show "db_tasks s' = db_tasks s \<and> db_steps s' = db_steps s"
    using keeps_dbD [OF assms(1)] assms(2) [of a] unfolding clean_failure_def by metis
qed

lemma clean_failure_session: "clean_failure (bindE (gets (\<lambda>s. s)) (\<lambda>before. in_session before (m before)))"
  unfolding clean_failure_def by (auto simp: bindE_def gets_def dest: in_session_Inl)

lemma keeps_db_no_rows [intro]: "keeps_db (modify (with_tasks (\<lambda>rows. rows)))"
  by (intro keeps_modify) (simp add: with_tasks_def tables_def)

lemma clean_failure_ret [intro]: "clean_failure (ret a)"
  by (simp add: clean_failure_def ret_def)

lemma clean_publish: "clean_failure (publish ev subject i sid [] ok p)"
  unfolding publish_def
  by (auto intro!: clean_failure_bind clean_failure_session keeps_db_optionally keeps_db_by_key
      simp: thenE_def split: option.split)

lemma clean_retry: "clean_failure (retry ev subject i ok og)"
  unfolding retry_def thenE_def
  by (auto intro!: clean_failure_bind clean_failure_session)

lemma inv_step_rows: "service_inv s \<Longrightarrow> rows_ok rows \<Longrightarrow> service_inv (s\<lparr>db_tasks := rows\<rparr>)"
  by (simp add: service_inv_def)

lemma inv_inserted:
  assumes "service_inv s" "db_steps s' = db_steps s" "db_tasks s' = db_tasks s @ [t]"
    "ready c subject i t" "i \<notin> task_id ` set (db_tasks s)" "\<not> list_ex (conflicts t) (db_tasks s)"
  shows "service_inv s'"
  using assms rows_ok_snoc [of "db_tasks s" t] by (auto simp: service_inv_def ready_def)

lemma inv_same_tables: "service_inv s \<Longrightarrow> db_tasks s' = db_tasks s \<Longrightarrow> db_steps s' = db_steps s \<Longrightarrow> service_inv s'"
  by (simp add: service_inv_def)

lemma inv_publish:
  assumes "service_inv s" "i \<notin> task_id ` set (db_tasks s)"
  shows "service_inv (snd (publish ev subject i sid [] ok p s))"
proof (cases "publish ev subject i sid [] ok p s")
  case (Pair r s')
  then show ?thesis
  proof (cases r)
    case (Inl e)
    then show ?thesis using Pair assms(1) clean_publish inv_same_tables unfolding clean_failure_def
      by (metis snd_conv)
  next
    case (Inr t)
    from publish_cases [OF Pair [unfolded Inr]] assms show ?thesis
      by (auto simp: Pair intro: inv_inserted)
  qed
qed

lemma inv_retry:
  assumes "service_inv s" "i \<notin> task_id ` set (db_tasks s)"
  shows "service_inv (snd (retry ev subject i ok og s))"
proof (cases "retry ev subject i ok og s")
  case (Pair r s')
  then show ?thesis
  proof (cases r)
    case (Inl e)
    then show ?thesis using Pair assms(1) clean_retry inv_same_tables unfolding clean_failure_def
      by (metis snd_conv)
  next
    case (Inr t)
    from retry_cases [OF Pair [unfolded Inr] assms(2)] assms show ?thesis
      by (auto simp: Pair intro: inv_inserted)
  qed
qed

lemma same_keys_claimed [simp]: "same_keys t (claimed t)"
  and same_keys_reconciled [simp]: "same_keys t (reconcile_row rows secs requeue stale t)"
  by (simp_all add: same_keys_def claimed_def reconcile_row_def requeued_def failed_over_def)

lemma rows_ok_put:
  assumes "rows_ok rows" "t \<in> set rows" "same_keys t v" "coherent v"
  shows "rows_ok (put_task v rows)"
proof -
  have "put_task v (map (\<lambda>r. r) rows) = map (\<lambda>r. if r = t then v else r) rows"
    using assms by (intro put_task_map) (auto simp: rows_ok_def same_keys_def)
  then show ?thesis using rows_ok_replace [OF assms] by simp
qed

lemma inv_claim: "rows_ok rows \<Longrightarrow> rows_ok (snd (claim_pending rows i))"
  by (auto simp: claim_pending_def split: option.split dest!: find_task_SomeD intro: rows_ok_put)

lemma coherent_reconcile: "coherent t \<Longrightarrow> coherent (reconcile_row rows secs requeue stale t)"
  by (simp add: reconcile_row_def)

lemma inv_reconcile:
  assumes "rows_ok rows"
  shows "rows_ok (snd (reconcile_interrupted_tasks rows secs requeue stale))"
proof -
  have "rows_ok (map (reconcile_row rows secs requeue stale) rows)"
    using assms by (intro rows_ok_update) (auto simp: rows_ok_def coherent_reconcile)
  then show ?thesis by (simp add: reconcile_interrupted_tasks_def)
qed

lemma inv_cancel:
  assumes "service_inv s"
  shows "service_inv (snd (cancel subject i s))"
proof (cases "\<exists>t. find_task (db_tasks s) i = Some t \<and> owner_id t = subject")
  case True
  then obtain t where t: "find_task (db_tasks s) i = Some t" "owner_id t = subject" by blast
  have ok: "rows_ok (db_tasks s)" using assms by (simp add: service_inv_def)
  have d: "distinct_ids (db_tasks s)" "\<forall>t \<in> set (db_tasks s). coherent t"
    using ok by (simp_all add: rows_ok_def)
  have "rows_ok (closed_rows (db_tasks s) t)"
    unfolding closed_rows_def using d(2)
    by (intro rows_ok_update [OF ok]) (auto simp: cancel_as_def coherent_def stop_ok_def)
  then show ?thesis using assms by (simp add: cancel_eq [OF d t] inv_step_rows)
next
  case False
  then have "cancel subject i s = (Inl (NotFoundError (''Task '' @ i @ '' does not exist'')), s)"
    by (intro cancel_refused) (metis option.exhaust)
  then show ?thesis using assms by simp
qed

lemma clean_respond: "clean_failure (respond subject i answer)"
  unfolding respond_def
  by (rule clean_failure_bind)
     (auto simp: clean_failure_def raise_def liftR_def bindE_def thenE_def modify_def ret_def
       split: if_splits sum.splits option.splits)

lemma inv_respond:
  assumes "service_inv s"
  shows "service_inv (snd (respond subject i answer s))"
proof (cases "respond subject i answer s")
  case (Pair r s')
  then show ?thesis
  proof (cases r)
    case (Inl e)
    then show ?thesis using Pair assms clean_respond inv_same_tables unfolding clean_failure_def
      by (metis snd_conv)
  next
    case (Inr v)
    from Pair [unfolded Inr] obtain t u where t: "find_task (db_tasks s) i = Some t"
      and u: "answered_task t answer = Inr u" and
      v: "loop_step (u\<lparr>pending_question := None\<rparr>) (UserResponded, ''user_response_recorded'', None) = Some v" and
      s': "db_tasks s' = put_task v (db_tasks s)"
        "db_steps s' = (db_steps s)(i := answered_steps t answer (db_steps s i))"
      by (rule respond_Inr)
    have ok: "rows_ok (db_tasks s)" using assms by (simp add: service_inv_def)
    have "t \<in> set (db_tasks s)" using find_task_SomeD [OF t] by simp
    moreover have "same_keys t v"
      using v answered_fields [OF u] unfolding loop_step_iff by (auto simp: same_keys_def moved_def)
    moreover have "coherent v"
      using v unfolding loop_step_iff by (auto simp: rule_into_stopped intro: coherent_moved)
    ultimately have "rows_ok (put_task v (db_tasks s))" by (intro rows_ok_put [OF ok])
    then show ?thesis using assms by (simp add: Pair s' service_inv_def answered_steps_verify)
  qed
qed

lemma inv_advance:
  assumes "service_inv s" "find_task (db_tasks s) i = Some t" "loop_step t l = Some t'"
  shows "service_inv (save_task t' s)"
proof -
  obtain ev reason sr where l: "l = (ev, reason, sr)" by (cases l)
  have ok: "rows_ok (db_tasks s)" using assms by (simp add: service_inv_def)
  have t: "t \<in> set (db_tasks s)" using find_task_SomeD [OF assms(2)] by simp
  then have "coherent t" using ok by (simp add: rows_ok_def)
  then have "coherent t'" using lp.step_inv assms(3) by blast
  moreover have "same_keys t t'" using assms(3) unfolding l loop_step_iff by auto
  ultimately have "rows_ok (put_task t' (db_tasks s))" using rows_ok_put [OF ok t] by blast
  then show ?thesis using assms(1) by (simp add: save_task_def with_tasks_def service_inv_def)
qed

interpretation sv: invariant_machine "service_step ev" service_inv for ev :: "('w, 'k, 'p) env"
proof
  fix s t :: "'w service" and l
  assume inv: "service_inv s" and st: "service_step ev s l = Some t"
  show "service_inv t"
  proof (cases l)
    case (ClaimTask i)
    then show ?thesis using inv st inv_claim by (auto simp: with_tasks_def service_inv_def)
  next
    case (Reconcile a b c)
    then show ?thesis using inv st inv_reconcile by (auto simp: with_tasks_def service_inv_def)
  next
    case (RecordStep i n th tool args obs st' tk)
    then show ?thesis using inv st by (auto simp: service_inv_def verify_chain_append_step)
  next
    case (Advance i l)
    then show ?thesis using inv st by (auto split: option.splits intro: inv_advance)
  qed (use inv st in \<open>auto simp: inv_publish inv_retry inv_cancel inv_respond split: if_splits\<close>)
qed


text \<open>A host without git and with an empty directory tree, for the samples.\<close>

definition bare_ops :: "unit host_ops" where
  "bare_ops = \<lparr>ho_run = (\<lambda>u argv env input. (ProcOsError ''git'', u)), ho_environ = [],
     ho_resolve_strict = (\<lambda>u p. None), ho_resolve = (\<lambda>u p. p), ho_is_dir = (\<lambda>u p. False),
     ho_exists = (\<lambda>u p. False), ho_nonempty = (\<lambda>u p. False), ho_rmdir = (\<lambda>p u. u),
     ho_mkdirs = (\<lambda>p u. u), ho_rmtree = (\<lambda>p u. u), ho_temp_index = (\<lambda>u. ''/tmp/index'')\<rparr>"

definition bare_env :: "(unit, unit, unit) env" where
  "bare_env = \<lparr>ev_ops = bare_ops, ev_settings = default_settings, ev_crypto = demo_crypto,
     ev_read_text = (\<lambda>p. None), ev_workspace = (\<lambda>u p. None)\<rparr>"

definition empty_service :: "unit service" where
  "empty_service = \<lparr>outside = (), metadata = Map.empty, held_locks = [],
     db_tasks = [], db_steps = (\<lambda>_. []), db_sessions = []\<rparr>"

definition plain_create :: "string option \<Rightarrow> task_create" where
  "plain_create key =
     \<lparr>tc_goal = ''write a poem'', tc_success_criteria = None, tc_verification_commands = [],
      tc_required_artifacts = [], tc_verification_mode = None, tc_project_id = ''default'',
      tc_project_path = None, tc_limits = \<lparr>li_max_steps = Some 9000, li_token_budget = None\<rparr>,
      tc_allowed_tools = None, tc_capabilities = None, tc_allow_egress = False, tc_egress_hosts = None,
      tc_require_approval = False, tc_use_browser = False, tc_use_email = False,
      tc_use_calendar = False, tc_use_vision = False, tc_chat_id = None, tc_skill = None,
      tc_idempotency_key = key\<rparr>"

definition sample_run :: "service_op list" where
  "sample_run = [Publish ''me'' ''t1'' ''s1'' True (plain_create None), ClaimTask ''t1'',
     CancelTask ''me'' ''t1'']"

lemma sample_run_exec:
  "map_option (\<lambda>s. map status (db_tasks s)) (exec (service_step bare_env) empty_service sample_run) =
     Some [''cancelled'']"
  by code_simp


section \<open>Publications\<close>

text \<open>
  C39. A successful publication under a fresh identifier either returns the row already stored
  under the idempotency key and changes nothing, or adds exactly one row behind those that
  others committed meanwhile: coherent, claimable, unused, within the hard caps whatever limits
  were asked for, and in conflict with no other row.
\<close>

theorem publish_within_limits:
  assumes "publish ev subject i sid others ok p s = (Inr t, s')"
    "i \<notin> task_id ` set (db_tasks s @ others)"
  shows "(s' = s \<and> tc_idempotency_key p = idempotency_key t \<and> t \<in> set (db_tasks s) \<and> owner_id t = subject) \<or>
    (db_tasks s' = db_tasks s @ others @ [t] \<and> db_steps s' = db_steps s \<and> task_id t = i \<and>
     owner_id t = subject \<and> coherent t \<and> claimable t \<and> steps_used t = 0 \<and> tokens_used t = 0 \<and>
     1 \<le> max_steps t \<and> max_steps t \<le> max 1 (agent_max_steps_cap (ev_settings ev)) \<and>
     1000 \<le> token_budget t \<and> token_budget t \<le> max 1000 (loop_token_budget_cap (ev_settings ev)) \<and>
     \<not> list_ex (conflicts t) (db_tasks s @ others))"
  using publish_cases [OF assms]
  by (auto simp: ready_def within_caps_def get_by_idempotency_key_def find_Some_iff nonempty_opt_def
      split: option.splits)

lemma publish_sample:
  "\<exists>t s'. publish bare_env ''me'' ''t1'' ''s1'' [] True (plain_create (Some ''k'')) empty_service = (Inr t, s') \<and>
     db_tasks s' = [t]"
  by (simp add: publish_def by_key_def plain_create_def empty_service_def optionally_def nonempty_opt_def
      get_by_idempotency_key_def effect_defs with_tasks_def in_session_def publish_row_def create_task_def
      commit_def)

theorem publish_within_limits_witness:
  "\<exists>t s'. publish bare_env ''me'' ''t1'' ''s1'' [] True (plain_create (Some ''k'')) empty_service = (Inr t, s') \<and>
     claimable t \<and> max_steps t \<le> max 1 (agent_max_steps_cap default_settings)"
proof -
  obtain t s' where p: "publish bare_env ''me'' ''t1'' ''s1'' [] True (plain_create (Some ''k'')) empty_service = (Inr t, s')"
    using publish_sample by blast
  have "\<not> t \<in> set (db_tasks empty_service)" by (simp add: empty_service_def)
  with publish_within_limits [OF p] p show ?thesis
    by (auto simp: empty_service_def bare_env_def)
qed

text \<open>
  A lost race raises: when another session commits a task with the same idempotency key
  after the lookup, the insert of \<^verbatim>\<open>create\<close> fails before the handler that would return the
  winner is entered, and the caller sees the database error.
\<close>

theorem publish_race_raises:
  assumes "tc_idempotency_key p = Some k" "k \<noteq> []" "tc_project_path p = None"
    "get_by_idempotency_key (db_tasks s) k subject = None"
    "w \<in> set others" "idempotency_key w = Some k" "owner_id w = subject"
  shows "fst (publish ev subject i sid others ok p s) = Inl IntegrityError"
proof -
  let ?t = "published_task (ev_settings ev) subject i p None None"
  have "conflicts ?t w" using assms by (simp add: conflicts_def)
  then have "list_ex (conflicts ?t) (db_tasks s @ others)" using assms(5) by (auto simp: list_ex_iff)
  then show ?thesis
    using assms
    by (simp add: publish_def by_key_def optionally_def nonempty_opt_def effect_defs with_tasks_def
        in_session_def publish_row_def create_task_def)
qed

definition winner :: task where
  "winner = (fresh_task ''t0'')\<lparr>owner_id := ''me'', idempotency_key := Some ''k''\<rparr>"

theorem publish_race_raises_witness:
  "fst (publish bare_env ''me'' ''t1'' ''s1'' [winner] True (plain_create (Some ''k'')) empty_service) =
     Inl IntegrityError"
proof -
  have "idempotency_key winner = Some ''k''" "owner_id winner = ''me''" by (simp_all add: winner_def)
  then show ?thesis
    by (intro publish_race_raises [where k = "''k''" and w = winner])
       (simp_all add: plain_create_def empty_service_def get_by_idempotency_key_def)
qed

end
