(* ===== verification/Change_Invariants.thy ===== *)
theory Change_Invariants
  imports Change_Service Task_Invariants
begin

text \<open>
  What the change-set use cases guarantee: a patch reaches the source project only behind the
  gates of a verified delivery, the source lock is always given back, and the patch of every
  applied change set is on record with the hash that undoing it demands.
\<close>

section \<open>Frames\<close>

definition rows_and_records ::
  "'w service \<Rightarrow> (task list \<times> (string \<Rightarrow> step list) \<times> product_session list) \<times> (string \<Rightarrow> string option)" where
  "rows_and_records s = (tables s, metadata s)"

interpretation rr: frame rows_and_records
  by unfold_locales (simp add: on_outside_def tables_def rows_and_records_def)

lemma frames: "frame (tables :: 'w service \<Rightarrow> _)" "frame (held_locks :: 'w service \<Rightarrow> _)"
  "frame (rows_and_records :: 'w service \<Rightarrow> _)"
  by (fact tb.frame_axioms locks.frame_axioms rr.frame_axioms)+

lemma keeps_get [intro]: "keeps p (get_task subject i)"
  unfolding get_task_def by (auto intro!: keeps_intros split: option.split)

lemma keeps_workspace [intro]: "keeps p (task_workspace ev subject i)"
  unfolding task_workspace_def by (auto intro!: keeps_intros keeps_get)

lemma keeps_receipt [intro]: "keeps p (get_receipt ev subject i)"
  unfolding get_receipt_def
  by (auto intro!: keeps_intros keeps_workspace split: option.split sum.split ws_exc.split)

lemma keeps_full_report [intro]: "keeps p (full_report ev v ws anchor)"
  unfolding full_report_def by (auto intro!: keeps_intros split: json.split)

lemma keeps_report [intro]: "keeps p (get_receipt_report ev subject i)"
  unfolding get_receipt_report_def
  by (auto intro!: keeps_intros keeps_receipt keeps_get keeps_workspace keeps_full_report split: option.split)

lemma keeps_blocked [intro]: "keeps p (blocked_reason ev subject i t sn)"
  unfolding blocked_reason_def by (auto intro!: keeps_intros keeps_report split: option.split)

lemma keeps_changes: "frame p \<Longrightarrow> keeps p (task_changes ev t)"
  unfolding task_changes_def by (rule frame.keeps_inspect)

lemma keeps_view: "frame p \<Longrightarrow> keeps p (inspect_change_set ev subject i)"
  unfolding inspect_change_set_def by (auto intro!: keeps_intros keeps_get keeps_blocked keeps_changes)

lemma task_changes_sha:
  "task_changes ev t s = (Inr sn, s') \<Longrightarrow> sn_patch_sha256 sn = sha256_hex (sn_patch sn)"
  by (auto simp: task_changes_def inspect_changes_def make_snapshot_def Let_def split: sum.splits)

section \<open>The gates\<close>

text \<open>What a view that allows an application has established.\<close>

definition deliverable ::
  "('w, 'k, 'p) env \<Rightarrow> task \<Rightarrow> snapshot \<Rightarrow> jdict \<Rightarrow> workspace option \<Rightarrow> bool" where
  "deliverable ev t sn receipt ws =
     (superseded_by_id t = None \<and> change_state_of t \<in> set open_states \<and>
      status t = ''completed'' \<and> stop_reason t = Some ''goal_achieved'' \<and>
      verified_by t = Some ''execution'' \<and> agent_acceptance_score (ev_settings ev) \<le> verification_score t \<and>
      sn_files sn \<noteq> [] \<and>
      rr_valid (verify_receipt_full (ev_crypto ev)
        (verify_key (ev_crypto ev) (ev_read_text ev) (ev_settings ev)) receipt ws (receipt_hash t) None) \<and>
      dget (dict_in (dget receipt ''coverage'')) ''execution_backed'' = JBool True \<and>
      (case receipt_covered (dget receipt ''coverage'') of
         Inl e \<Rightarrow> False | Inr covered \<Rightarrow> set (expected_criteria t) \<subseteq> set covered) \<and>
      dget (dict_in (dget receipt ''change_set'')) ''patch_sha256'' = JStr (sn_patch_sha256 sn))"

lemma receipt_reason_None:
  assumes "receipt_reason t sn report = Inr None"
  obtains receipt rr covered where "report = Some (receipt, rr)" "rr_valid rr"
    "dget (dict_in (dget receipt ''coverage'')) ''execution_backed'' = JBool True"
    "receipt_covered (dget receipt ''coverage'') = Inr covered" "set (expected_criteria t) \<subseteq> set covered"
    "dget (dict_in (dget receipt ''change_set'')) ''patch_sha256'' = JStr (sn_patch_sha256 sn)"
  using assms
  by (cases report) (auto simp: receipt_reason_def Let_def split: sum.splits if_splits)

lemma report_Inr:
  assumes "get_receipt_report ev subject i s = (Inr (Some (receipt, rr)), s')" "find_task (db_tasks s) i = Some t"
  shows "\<exists>ws. rr = verify_receipt_full (ev_crypto ev)
    (verify_key (ev_crypto ev) (ev_read_text ev) (ev_settings ev)) receipt ws (receipt_hash t) None"
proof -
  have k: "keeps_db (get_receipt ev subject i)" by (rule keeps_receipt)
  from assms(1) obtain v u u1 t1 ws where v: "get_receipt ev subject i s = (Inr (Some v), u)" and
    t1: "find_task (db_tasks u) i = Some t1" and
    f: "full_report ev v ws (receipt_hash t1) u1 = (Inr (receipt, rr), s')"
    by (auto simp: get_receipt_report_def split: option.splits)
  have "t1 = t" using keeps_dbD [OF k v] t1 assms(2) by simp
  then show ?thesis using f by (auto simp: full_report_def split: json.splits)
qed

lemma view_applies:
  assumes "inspect_change_set ev subject i s = (Inr view, s')" "cs_can_apply view"
    "find_task (db_tasks s) i = Some t"
  obtains sn receipt ws where "deliverable ev t sn receipt ws" "cs_patch_sha256 view = sn_patch_sha256 sn"
proof -
  from assms(1,3) obtain sn u reason where sn: "task_changes ev t s = (Inr sn, u)"
    and b: "blocked_reason ev subject i t sn u = (Inr reason, s')" and v: "view = change_set_view t sn reason"
    by (auto simp: inspect_change_set_def)
  from assms(2) have o: "change_state_of t \<in> set open_states" "reason = None"
    by (auto simp: v change_set_view_def Let_def)
  with b have e: "early_reason (ev_settings ev) t sn = None"
    by (auto simp: blocked_reason_def split: option.splits)
  with b o obtain report u1 where r: "get_receipt_report ev subject i u = (Inr report, u1)"
    and l: "liftR (case receipt_reason t sn report of Inl e \<Rightarrow> Inl (PyRaise e) | Inr r \<Rightarrow> Inr r) u1 = (Inr None, s')"
    by (auto simp: blocked_reason_def simp del: liftR_Inr)
  from l have rs: "receipt_reason t sn report = Inr None" by (auto split: sum.splits)
  from rs obtain receipt rr covered where x: "report = Some (receipt, rr)" "rr_valid rr"
    "dget (dict_in (dget receipt ''coverage'')) ''execution_backed'' = JBool True"
    "receipt_covered (dget receipt ''coverage'') = Inr covered" "set (expected_criteria t) \<subseteq> set covered"
    "dget (dict_in (dget receipt ''change_set'')) ''patch_sha256'' = JStr (sn_patch_sha256 sn)"
    by (rule receipt_reason_None)
  have "find_task (db_tasks u) i = Some t"
    using keeps_dbD [OF keeps_changes [OF tb.frame_axioms] sn] assms(3) by simp
  from report_Inr [OF r [unfolded x(1)] this] obtain ws where
    ws: "rr = verify_receipt_full (ev_crypto ev)
      (verify_key (ev_crypto ev) (ev_read_text ev) (ev_settings ev)) receipt ws (receipt_hash t) None" by blast
  have "deliverable ev t sn receipt ws"
    using e x ws o(1) by (auto simp: deliverable_def early_reason_def split: if_splits)
  then show thesis by (intro that) (simp_all add: v change_set_view_def Let_def)
qed

lemma finallyE_eq: "finallyE m g s = (r, s') \<longleftrightarrow> (\<exists>u. m s = (r, u) \<and> s' = g u)"
  by (auto simp: finallyE_def split: prod.splits)

text \<open>The lock is taken, the handler runs on the row as stored, the lock is given back.\<close>

lemma locked_changed:
  assumes "locked_handler ev subject i h s = (r, s')" "p s' \<noteq> p s" "frame p"
    and free: "\<And>l u. p (release_source_lock l u) = p u" "\<And>l u. p (u\<lparr>held_locks := l\<rparr>) = p u"
  obtains t u u' where "find_task (db_tasks s) i = Some t" "owner_id t = subject"
    "nonempty_opt (project_source_path t)" "p u = p s" "tables u = tables s" "metadata u = metadata s"
    "h t u = (r, u')" "p u' = p s'"
proof -
  let ?rest = "\<lambda>t. with_source_lock ev (the (project_source_path t)) (bindE (get_task subject i) h)"
  from bind_changed [OF assms(1) [unfolded locked_handler_def] keeps_get assms(2)]
  obtain t v where v: "get_task subject i s = (Inr t, v)" and
    w: "thenE (whenE (\<not> nonempty_opt (project_source_path t)) not_bound) (?rest t) v = (r, s')" by blast
  have t: "find_task (db_tasks s) i = Some t" "owner_id t = subject" "v = s" using v by simp_all
  from then_changed [OF w [unfolded t(3)] keeps_basic(4) assms(2)] obtain x v' where
    "whenE (\<not> nonempty_opt (project_source_path t)) not_bound s = (Inr x, v')" and
    "?rest t v' = (r, s')" by blast
  then have src: "nonempty_opt (project_source_path t)" and lk: "?rest t s = (r, s')" by simp_all
  let ?acq = "acquire_source_lock (ev_ops ev) (the (project_source_path t))"
  have "keeps p ?acq" by (auto simp: keeps_def acquire_source_lock_def Let_def free)
  from bind_changed [OF lk [unfolded with_source_lock_def] this assms(2)]
  obtain l u where u: "?acq s = (Inr l, u)" "p u = p s" and
    f: "finallyE (bindE (get_task subject i) h) (release_source_lock l) u = (r, s')" by blast
  from f obtain u' where u': "bindE (get_task subject i) h u = (r, u')" "s' = release_source_lock l u'"
    unfolding finallyE_eq by blast
  have "tables u = tables s" "metadata u = metadata s"
    using u(1) by (auto simp: acquire_source_lock_def Let_def tables_def split: if_splits)
  moreover from this have "find_task (db_tasks u) i = Some t" using t(1) by (simp add: tables_def)
  then have "h t u = (r, u')" using u'(1) t(2)
    by (simp add: bindE_def get_task_def gets_def ret_def)
  ultimately show thesis using that [of t u u'] t src u u'(2) free by metis
qed

section \<open>Applying\<close>

lemma commit_or_eq:
  assumes "commit_or ok u compensate s = (r, s')"
  shows "if ok then r = Inr () \<and> s' = save_task u s
    else \<exists>c. snd (compensate (rollback s (save_task u s))) = c \<and> s' = c \<and> (\<exists>e. r = Inl e)"
proof (cases ok)
  case True
  then show ?thesis using assms
    by (simp add: commit_or_def bindE_def gets_def thenE_def modify_def catchE_def commit_def whenE_def ret_def)
next
  case False
  obtain x c where "compensate (rollback s (save_task u s)) = (x, c)" by (rule prod.exhaust)
  then show ?thesis using assms False
    by (auto simp: commit_or_def bindE_def gets_def thenE_def modify_def catchE_def commit_def whenE_def
        raise_def split: sum.splits)
qed

lemma rollback_save [simp]: "rollback s (save_task u s) = s"
  by (simp add: rollback_def save_task_def with_tasks_def)

lemma rows_of_parts: "rows_and_records s = rows_and_records s' \<longleftrightarrow> tables s = tables s' \<and> metadata s = metadata s'"
  by (simp add: rows_and_records_def)

lemma records_simps [simp]:
  "tables (save_patch i x s) = tables s" "metadata (save_patch i x s) = (metadata s)(patch_path i := Some x)"
  "tables (delete_patch i s) = tables s" "metadata (delete_patch i s) = (metadata s)(patch_path i := None)"
  "tables (save_task u s) = (put_task u (db_tasks s), db_steps s, db_sessions s)"
  "metadata (save_task u s) = metadata s"
  by (simp_all add: save_patch_def delete_patch_def save_task_def with_tasks_def tables_def)

definition applied :: "snapshot \<Rightarrow> task \<Rightarrow> task" where
  "applied sn t = t\<lparr>change_state := Some ''applied'', applied_patch_sha256 := Some (sn_patch_sha256 sn)\<rparr>"

lemma when_changed:
  "thenE (whenE c e) m s = (r, s') \<Longrightarrow> p s' \<noteq> p s \<Longrightarrow> \<not> c \<and> m s = (r, s')"
  by (cases c) (auto simp: thenE_def bindE_def whenE_def raise_def ret_def)

text \<open>How the handler can end: nothing changed, only the patch record of an open change set
  touched, or the patch recorded and the row applied, behind the gates.\<close>

lemma apply_locked_cases:
  assumes "apply_change_set_locked ev subject ok t s = (r, s')" "find_task (db_tasks s) (task_id t) = Some t"
  obtains (same) "rows_and_records s' = rows_and_records s"
  | (record_only) m where "tables s' = tables s" "metadata s' = (metadata s)(patch_path (task_id t) := m)"
      "change_state t \<in> Some ` set open_states"
  | (applied) sn receipt ws sn' where "deliverable ev t sn receipt ws" "change_state t \<in> Some ` set open_states"
      "sn_patch_sha256 sn' = sha256_hex (sn_patch sn')"
      "tables s' = (put_task (applied sn' t) (db_tasks s), db_steps s, db_sessions s)"
      "metadata s' = (metadata s)(patch_path (task_id t) := Some (sn_patch sn'))"
proof (cases "rows_and_records s' = rows_and_records s")
  case True
  then show thesis by (rule same)
next
  case changed: False
  have "change_state t \<in> Some ` set open_states"
    using assms(1) changed by (auto simp: apply_change_set_locked_def raise_def split: if_splits)
  note opn = this
  let ?i = "task_id t"
  let ?ap = "\<lambda>sn rv. apply_patch (ev_ops ev) (ev_settings ev) (the (project_source_path t))
    (the (project_base_commit t)) (sn_patch sn) rv False"
  let ?forget = "modify (delete_patch ?i)"
  let ?tail = "\<lambda>sn. thenE (modify (save_patch ?i (sn_patch sn)))
    (thenE (catchE (?ap sn False) (\<lambda>e. thenE ?forget (raise e)))
      (thenE (commit_or ok (applied sn t) (thenE (?ap sn True) ?forget)) (inspect_change_set ev subject ?i)))"
  let ?mid = "\<lambda>view. thenE (whenE (\<not> cs_can_apply view)
       (ConflictError (or_text (cs_blocked_reason view) ''This change set cannot be applied.'')))
     (thenE (whenE (\<not> (bound t \<and> nonempty_opt (workspace_path t))) not_bound)
       (bindE (task_changes ev t) ?tail))"
  have "bindE (inspect_change_set ev subject ?i) ?mid s = (r, s')"
    using assms(1) opn by (simp add: apply_change_set_locked_def applied_def Let_def)
  from bind_changed [OF this keeps_view [OF frames(3)] changed] obtain view u where
    view: "inspect_change_set ev subject ?i s = (Inr view, u)" and
    ru: "rows_and_records u = rows_and_records s" and mid: "?mid view u = (r, s')" by blast
  have cu: "rows_and_records s' \<noteq> rows_and_records u" using changed ru by simp
  from when_changed [OF mid cu] have can: "cs_can_apply view"
    and m2: "thenE (whenE (\<not> (bound t \<and> nonempty_opt (workspace_path t))) not_bound)
       (bindE (task_changes ev t) ?tail) u = (r, s')" by simp_all
  from when_changed [OF m2 cu] have "bindE (task_changes ev t) ?tail u = (r, s')" by simp
  from bind_changed [OF this keeps_changes [OF frames(3)] cu] obtain sn' v where
    sn': "task_changes ev t u = (Inr sn', v)" and rv: "rows_and_records v = rows_and_records u" and
    tl: "?tail sn' v = (r, s')" by blast
  obtain sn receipt ws where d: "deliverable ev t sn receipt ws"
    by (rule view_applies [OF view can assms(2)])
  note sha = task_changes_sha [OF sn']
  define w where "w = save_patch ?i (sn_patch sn') v"
  have w: "tables w = tables s" "metadata w = (metadata s)(patch_path ?i := Some (sn_patch sn'))"
    using ru rv by (simp_all add: w_def rows_of_parts)
  from tl have tw: "thenE (catchE (?ap sn' False) (\<lambda>e. thenE ?forget (raise e)))
      (thenE (commit_or ok (applied sn' t) (thenE (?ap sn' True) ?forget)) (inspect_change_set ev subject ?i)) w = (r, s')"
    by (simp add: thenE_def [of "modify _"] bindE_def modify_def w_def)
  obtain x w1 where ap: "?ap sn' False w = (x, w1)" by (rule prod.exhaust)
  have w1: "tables w1 = tables s" "metadata w1 = (metadata s)(patch_path ?i := Some (sn_patch sn'))"
    using keepsD [OF frame.keeps_apply [OF frames(3)] ap] w by (simp_all add: rows_of_parts)
  show thesis
  proof (cases x)
    case (Inl e)
    then have "s' = delete_patch ?i w1"
      using tw ap by (simp add: thenE_def bindE_def catchE_def modify_def raise_def)
    then show thesis using w1 by (intro record_only [of None]) (simp_all add: opn)
  next
    case (Inr z)
    then have "thenE (commit_or ok (applied sn' t) (thenE (?ap sn' True) ?forget)) (inspect_change_set ev subject ?i) w1 = (r, s')"
      using tw ap by (simp add: thenE_def bindE_def catchE_def)
    then obtain y w2 where c: "commit_or ok (applied sn' t) (thenE (?ap sn' True) ?forget) w1 = (y, w2)" and
      fin: "case y of Inl e \<Rightarrow> s' = w2 | Inr b \<Rightarrow> inspect_change_set ev subject ?i w2 = (r, s')"
      by (cases "commit_or ok (applied sn' t) (thenE (?ap sn' True) ?forget) w1")
         (auto simp: thenE_def bindE_def split: sum.splits)
    have k: "rows_and_records s' = rows_and_records w2"
      using fin keepsD [OF keeps_view [OF frames(3)]] by (cases y) auto
    show thesis
    proof (cases ok)
      case True
      then have "w2 = save_task (applied sn' t) w1" using commit_or_eq [OF c] by simp
      then show thesis using k w1 d sha opn
        by (intro applied) (auto simp: rows_of_parts tables_def save_task_def with_tasks_def)
    next
      case False
      then have "w2 = snd (thenE (?ap sn' True) ?forget w1)" using commit_or_eq [OF c] by auto
      moreover obtain q w3 where q: "?ap sn' True w1 = (q, w3)" by (rule prod.exhaust)
      ultimately have "w2 = w3 \<or> w2 = delete_patch ?i w3"
        by (cases q) (simp_all add: thenE_def bindE_def modify_def)
      moreover have "tables w3 = tables s" "metadata w3 = (metadata s)(patch_path ?i := Some (sn_patch sn'))"
        using keepsD [OF frame.keeps_apply [OF frames(3)] q] w1 by (simp_all add: rows_of_parts)
      ultimately have "tables s' = tables s \<and> (\<exists>m. metadata s' = (metadata s)(patch_path ?i := m))"
        using k by (auto simp: rows_of_parts)
      then show thesis using record_only opn by blast
    qed
  qed
qed

section \<open>The source lock\<close>

lemma keeps_row_locks [intro]:
  "keeps held_locks (modify (save_task u))" "keeps held_locks (modify (rollback b))"
  "keeps held_locks (modify (save_patch i x))" "keeps held_locks (modify (delete_patch i))"
  "keeps held_locks (commit ok)" "keeps held_locks (load_patch i h)"
  by (auto simp: keeps_def modify_def save_task_def with_tasks_def rollback_def save_patch_def
      delete_patch_def commit_def whenE_def raise_def ret_def load_patch_def split: option.split)

lemma keeps_commit_or: "keeps held_locks c \<Longrightarrow> keeps held_locks (commit_or ok u c)"
  unfolding commit_or_def by (auto intro!: keeps_intros keeps_row_locks)

lemmas lock_intros = keeps_intros keeps_row_locks keeps_commit_or keeps_view [OF frames(2)]
  keeps_changes [OF frames(2)] locks.keeps_apply

lemma handlers_keep_locks:
  "keeps held_locks (apply_change_set_locked ev subject ok t)"
  "keeps held_locks (discard_change_set_locked ev subject ok t)"
  "keeps held_locks (undo_change_set_locked ev subject ok t)"
  unfolding apply_change_set_locked_def discard_change_set_locked_def undo_change_set_locked_def Let_def
  by (auto intro!: lock_intros)

lemma with_lock_keeps:
  fixes m :: "('a, 'b) use_case"
  assumes "keeps held_locks m"
  shows "keeps held_locks (with_source_lock ev source m)"
  unfolding keeps_def
proof
  fix s :: "'a service"
  obtain x u where a: "acquire_source_lock (ev_ops ev) source s = (x, u)" by (rule prod.exhaust)
  show "held_locks (snd (with_source_lock ev source m s)) = held_locks s"
  proof (cases x)
    case (Inl e)
    then have "u = s" using a by (auto simp: acquire_source_lock_def Let_def split: if_splits)
    then show ?thesis using a Inl by (simp add: with_source_lock_def bindE_def)
  next
    case (Inr l)
    then have u: "held_locks u = l # held_locks s"
      using a by (auto simp: acquire_source_lock_def Let_def split: if_splits)
    obtain r v where m: "m u = (r, v)" by (rule prod.exhaust)
    have "held_locks v = l # held_locks s" using keepsD [OF assms m] u by simp
    then show ?thesis using a Inr m
      by (simp add: with_source_lock_def bindE_def finallyE_def release_source_lock_def)
  qed
qed

lemma locked_keeps_locks:
  "(\<And>t. keeps held_locks (h t)) \<Longrightarrow> keeps held_locks (locked_handler ev subject i h)"
  unfolding locked_handler_def by (auto intro!: keeps_intros keeps_get with_lock_keeps)

lemma change_sets_keep_locks:
  "keeps held_locks (apply_change_set ev subject ok i)"
  "keeps held_locks (discard_change_set ev subject ok i)"
  "keeps held_locks (undo_change_set ev subject ok i)"
  unfolding apply_change_set_def discard_change_set_def undo_change_set_def
  by (intro locked_keeps_locks handlers_keep_locks)+

lemma free_of_locks:
  "rows_and_records (release_source_lock l u) = rows_and_records u"
  "rows_and_records (u\<lparr>held_locks := k\<rparr>) = rows_and_records u"
  by (simp_all add: rows_and_records_def tables_def release_source_lock_def)


section \<open>Discarding and undoing\<close>

text \<open>A committed change of the row, followed by a step that keeps the rows.\<close>

lemma committed_row:
  assumes "thenE (commit_or ok u c) n s = (r, s')" "rows_and_records s' \<noteq> rows_and_records s"
    "keeps rows_and_records c"
  shows "ok \<and> n (save_task u s) = (r, s')"
proof -
  obtain y w where c: "commit_or ok u c s = (y, w)" by (rule prod.exhaust)
  show ?thesis
  proof (cases ok)
    case True
    then show ?thesis using commit_or_eq [OF c] assms(1) c by (simp add: thenE_def bindE_def)
  next
    case False
    then obtain e where y: "y = Inl e" and w: "w = snd (c s)" using commit_or_eq [OF c] by auto
    obtain q v where q: "c s = (q, v)" by (rule prod.exhaust)
    have "s' = v" using assms(1) c y w q by (simp add: thenE_def bindE_def)
    then show ?thesis using keepsD [OF assms(3) q] assms(2) by simp
  qed
qed

lemma discard_locked_cases:
  assumes "discard_change_set_locked ev subject ok t s = (r, s')" "rows_and_records s' \<noteq> rows_and_records s"
  shows "tables s' = (put_task (t\<lparr>change_state := Some ''discarded'', applied_patch_sha256 := None\<rparr>) (db_tasks s),
      db_steps s, db_sessions s) \<and> metadata s' = (metadata s)(patch_path (task_id t) := None)"
proof -
  let ?u = "t\<lparr>change_state := Some ''discarded'', applied_patch_sha256 := None\<rparr>"
  let ?fin = "thenE (modify (delete_patch (task_id t))) (inspect_change_set ev subject (task_id t))"
  let ?mid = "\<lambda>view. thenE (whenE (\<not> cs_can_discard view)
      (ConflictError (''Change set is '' @ cs_state view @ '' and cannot be discarded.'')))
    (thenE (commit_or ok ?u (ret ())) ?fin)"
  have b: "bindE (inspect_change_set ev subject (task_id t)) ?mid s = (r, s')"
    using assms(1) by (simp add: discard_change_set_locked_def)
  obtain view v where "inspect_change_set ev subject (task_id t) s = (Inr view, v)" and
    rv: "rows_and_records v = rows_and_records s" and m: "?mid view v = (r, s')"
    by (rule bind_changed [OF b keeps_view [OF frames(3)] assms(2)]) (rule that)
  have cv: "rows_and_records s' \<noteq> rows_and_records v" using assms(2) rv by simp
  from when_changed [OF m cv] have "thenE (commit_or ok ?u (ret ())) ?fin v = (r, s')" by simp
  from committed_row [OF this cv] have "?fin (save_task ?u v) = (r, s')" by auto
  then have "inspect_change_set ev subject (task_id t) (delete_patch (task_id t) (save_task ?u v)) = (r, s')"
    by (simp add: thenE_def [of "modify _"] bindE_def modify_def)
  from keepsD [OF keeps_view [OF frames(3)] this] show ?thesis
    using rv by (simp add: rows_of_parts tables_def delete_patch_def save_task_def with_tasks_def)
qed

lemma undo_locked_cases:
  assumes "undo_change_set_locked ev subject ok t s = (r, s')" "rows_and_records s' \<noteq> rows_and_records s"
  shows "change_state t = Some ''applied'' \<and>
    (\<exists>patch. metadata s (patch_path (task_id t)) = Some patch \<and>
       applied_patch_sha256 t = Some (sha256_hex patch)) \<and> metadata s' = metadata s \<and>
    tables s' = (put_task (t\<lparr>change_state := Some ''reverted''\<rparr>) (db_tasks s), db_steps s, db_sessions s)"
proof -
  let ?u = "t\<lparr>change_state := Some ''reverted''\<rparr>"
  let ?ap = "apply_patch (ev_ops ev) (ev_settings ev) (the (project_source_path t)) (the (project_base_commit t))"
  let ?fin = "inspect_change_set ev subject (task_id t)"
  let ?tail = "\<lambda>patch. thenE (?ap patch True False) (thenE (commit_or ok ?u (?ap patch False True)) ?fin)"
  have st: "change_state t = Some ''applied''" "nonempty_opt (applied_patch_sha256 t)" and
    b: "thenE (whenE (\<not> bound t) not_bound)
         (bindE (load_patch (task_id t) (the (applied_patch_sha256 t))) ?tail) s = (r, s')"
    using assms by (auto simp: undo_change_set_locked_def Let_def raise_def split: if_splits)
  from when_changed [OF b assms(2)]
  have l: "bindE (load_patch (task_id t) (the (applied_patch_sha256 t))) ?tail s = (r, s')" by simp
  have "keeps rows_and_records (load_patch (task_id t) (the (applied_patch_sha256 t)))"
    by (auto simp: keeps_def load_patch_def split: option.split)
  from bind_changed [OF l this assms(2)] obtain patch v where
    p: "load_patch (task_id t) (the (applied_patch_sha256 t)) s = (Inr patch, v)" and tl: "?tail patch v = (r, s')"
    by blast
  from p have v: "v = s" and rec: "metadata s (patch_path (task_id t)) = Some patch"
    "sha256_hex patch = the (applied_patch_sha256 t)"
    by (auto simp: load_patch_def split: option.splits if_splits)
  from then_changed [OF tl [unfolded v] frame.keeps_apply [OF frames(3)] assms(2)] obtain w where
    rw: "rows_and_records w = rows_and_records s" and
    cm: "thenE (commit_or ok ?u (?ap patch False True)) ?fin w = (r, s')" by blast
  have cw: "rows_and_records s' \<noteq> rows_and_records w" using assms(2) rw by simp
  from committed_row [OF cm cw frame.keeps_apply [OF frames(3)]] have "?fin (save_task ?u w) = (r, s')" by simp
  from keepsD [OF keeps_view [OF frames(3)] this] have
    "tables s' = tables (save_task ?u w)" "metadata s' = metadata w" by (simp_all add: rows_of_parts)
  then show ?thesis using rw st rec
    by (cases "applied_patch_sha256 t") (auto simp: rows_of_parts tables_def nonempty_opt_def save_task_def with_tasks_def)
qed

section \<open>Every applied patch is on record\<close>

definition on_record :: "(string \<Rightarrow> string option) \<Rightarrow> task \<Rightarrow> bool" where
  "on_record md t =
     (change_state t = Some ''applied'' \<longrightarrow>
      (\<exists>patch. md (patch_path (task_id t)) = Some patch \<and> applied_patch_sha256 t = Some (sha256_hex patch)))"

definition records_ok :: "'w service \<Rightarrow> bool" where
  "records_ok s = (distinct_ids (db_tasks s) \<and> (\<forall>t \<in> set (db_tasks s). on_record (metadata s) t))"

lemma records_ok_parts: "rows_and_records s' = rows_and_records s \<Longrightarrow> records_ok s' = records_ok s"
  by (simp add: rows_of_parts tables_def records_ok_def)

lemma patch_path_inj [simp]: "patch_path i = patch_path j \<longleftrightarrow> i = j"
  by (simp add: patch_path_def)

lemma records_ok_row:
  assumes "records_ok s" "t \<in> set (db_tasks s)" "task_id v = task_id t"
    "db_tasks s' = put_task v (db_tasks s)" "metadata s' = (metadata s)(patch_path (task_id t) := m)"
    "on_record (metadata s') v"
  shows "records_ok s'"
proof -
  have "db_tasks s' = map (\<lambda>r. if r = t then v else r) (db_tasks s)"
    using put_task_map [of "db_tasks s" t "\<lambda>r. r" v] assms by (simp add: records_ok_def)
  moreover have "on_record (metadata s') r" if "r \<in> set (db_tasks s)" "r \<noteq> t" for r
    using that assms distinct_ids_eq [of "db_tasks s" r t]
    by (auto simp: records_ok_def on_record_def)
  moreover have "distinct_ids (db_tasks s')" using assms by (simp add: records_ok_def)
  ultimately show ?thesis using assms by (auto simp: records_ok_def)
qed

lemma records_ok_record_only:
  assumes "records_ok s" "t \<in> set (db_tasks s)" "change_state t \<noteq> Some ''applied''"
    "db_tasks s' = db_tasks s" "metadata s' = (metadata s)(patch_path (task_id t) := m)"
  shows "records_ok s'"
proof -
  have "on_record (metadata s') r" if "r \<in> set (db_tasks s)" for r
    using that assms distinct_ids_eq [of "db_tasks s" r t]
    by (cases "r = t") (auto simp: records_ok_def on_record_def)
  then show ?thesis using assms by (simp add: records_ok_def)
qed

datatype change_op = Apply string bool string | Discard string bool string | Undo string bool string

fun change_step :: "('w, 'k, 'p) env \<Rightarrow> 'w service \<Rightarrow> change_op \<Rightarrow> 'w service option" where
  "change_step ev s (Apply subject ok i) = Some (snd (apply_change_set ev subject ok i s))"
| "change_step ev s (Discard subject ok i) = Some (snd (discard_change_set ev subject ok i s))"
| "change_step ev s (Undo subject ok i) = Some (snd (undo_change_set ev subject ok i s))"

text \<open>The three handlers, on the row as stored.\<close>

lemma locked_records_ok:
  assumes "records_ok s"
    and h: "\<And>t u r u'. h t u = (r, u') \<Longrightarrow> find_task (db_tasks u) (task_id t) = Some t \<Longrightarrow> records_ok u \<Longrightarrow> records_ok u'"
  shows "records_ok (snd (locked_handler ev subject i h s))"
proof -
  obtain r s' where a: "locked_handler ev subject i h s = (r, s')" by (rule prod.exhaust)
  have "records_ok s'"
  proof (cases "rows_and_records s' = rows_and_records s")
    case True
    then show ?thesis using records_ok_parts assms(1) by blast
  next
    case False
    obtain t u u' where t: "find_task (db_tasks s) i = Some t" "owner_id t = subject"
      "nonempty_opt (project_source_path t)"
      and u: "rows_and_records u = rows_and_records s" "tables u = tables s" "metadata u = metadata s"
      and hh: "h t u = (r, u')" and u': "rows_and_records u' = rows_and_records s'"
      by (rule locked_changed [OF a False frames(3) free_of_locks]) (rule that)
    have "find_task (db_tasks u) (task_id t) = Some t"
      using t(1) u(2) find_task_SomeD [OF t(1)] by (simp add: tables_def)
    with h [OF hh] records_ok_parts [OF u(1)] assms(1) have "records_ok u'" by blast
    then show ?thesis using records_ok_parts [OF u'] by blast
  qed
  then show ?thesis by (simp add: a)
qed

lemma apply_records_ok:
  assumes "apply_change_set_locked ev subject ok t u = (r, u')" "find_task (db_tasks u) (task_id t) = Some t"
    "records_ok u"
  shows "records_ok u'"
proof (rule apply_locked_cases [OF assms(1,2)])
  have t: "t \<in> set (db_tasks u)" using find_task_SomeD [OF assms(2)] by simp
  show "records_ok u'" if "rows_and_records u' = rows_and_records u"
    using records_ok_parts [OF that] assms(3) by blast
  show "records_ok u'" if "tables u' = tables u" "metadata u' = (metadata u)(patch_path (task_id t) := m)"
    "change_state t \<in> Some ` set open_states" for m
    using that t by (intro records_ok_record_only [OF assms(3)]) (auto simp: tables_def open_states_def)
  show "records_ok u'" if "sn_patch_sha256 sn' = sha256_hex (sn_patch sn')"
    "tables u' = (put_task (applied sn' t) (db_tasks u), db_steps u, db_sessions u)"
    "metadata u' = (metadata u)(patch_path (task_id t) \<mapsto> sn_patch sn')" for sn'
    using that t
    by (intro records_ok_row [OF assms(3), of t "applied sn' t"]) (auto simp: tables_def applied_def on_record_def)
qed

lemma discard_records_ok:
  assumes "discard_change_set_locked ev subject ok t u = (r, u')" "find_task (db_tasks u) (task_id t) = Some t"
    "records_ok u"
  shows "records_ok u'"
proof (cases "rows_and_records u' = rows_and_records u")
  case True
  then show ?thesis using records_ok_parts assms(3) by blast
next
  case False
  have t: "t \<in> set (db_tasks u)" using find_task_SomeD [OF assms(2)] by simp
  from discard_locked_cases [OF assms(1) False] t show ?thesis
    by (intro records_ok_row [OF assms(3)]) (auto simp: tables_def on_record_def)
qed

lemma undo_records_ok:
  assumes "undo_change_set_locked ev subject ok t u = (r, u')" "find_task (db_tasks u) (task_id t) = Some t"
    "records_ok u"
  shows "records_ok u'"
proof (cases "rows_and_records u' = rows_and_records u")
  case True
  then show ?thesis using records_ok_parts assms(3) by blast
next
  case False
  have t: "t \<in> set (db_tasks u)" using find_task_SomeD [OF assms(2)] by simp
  have "(metadata u)(k := metadata u k) = metadata u" for k by simp
  with undo_locked_cases [OF assms(1) False] t show ?thesis
    by (intro records_ok_row [OF assms(3), where m = "metadata u (patch_path (task_id t))"])
       (auto simp: tables_def on_record_def)
qed

interpretation ch: invariant_machine "change_step ev" records_ok for ev :: "('w, 'k, 'p) env"
proof
  fix s t :: "'w service" and l
  assume ok: "records_ok s" and st: "change_step ev s l = Some t"
  show "records_ok t"
  proof (cases l)
    case (Apply subject k i)
    then show ?thesis using st locked_records_ok [OF ok apply_records_ok]
      by (auto simp: apply_change_set_def)
  next
    case (Discard subject k i)
    then show ?thesis using st locked_records_ok [OF ok discard_records_ok]
      by (auto simp: discard_change_set_def)
  next
    case (Undo subject k i)
    then show ?thesis using st locked_records_ok [OF ok undo_records_ok]
      by (auto simp: undo_change_set_def)
  qed
qed

text \<open>
  C40. Through every sequence of applications, discards and undos, failed commits and refused
  requests included, each applied change set has its patch on record with the recorded hash, so
  that undoing it never fails for a missing or damaged record.
\<close>

theorem applied_patches_on_record:
  assumes "exec (change_step ev) s ops = Some s'" "records_ok s"
    "t \<in> set (db_tasks s')" "change_state t = Some ''applied''"
  shows "\<exists>patch. load_patch (task_id t) (the (applied_patch_sha256 t)) s' = (Inr patch, s')"
  using ch.run_inv [OF assms(2,1)] assms(3,4)
  by (auto simp: records_ok_def on_record_def load_patch_def)

definition delivered_task :: task where
  "delivered_task = (fresh_task ''d'')\<lparr>project_source_path := Some ''/p'', project_base_commit := Some ''c0'',
     workspace_path := Some ''/w'', change_state := Some ''applied'',
     applied_patch_sha256 := Some (sha256_hex ''diff'')\<rparr>"

definition delivered_service :: "unit service" where
  "delivered_service = empty_service\<lparr>db_tasks := [delivered_task],
     metadata := [patch_path ''d'' \<mapsto> ''diff'']\<rparr>"

lemma delivered_simps [simp]:
  "task_id delivered_task = ''d''" "owner_id delivered_task = ''local''"
  "change_state delivered_task = Some ''applied''"
  "applied_patch_sha256 delivered_task = Some (sha256_hex ''diff'')"
  "project_source_path delivered_task = Some ''/p''"
  "db_tasks delivered_service = [delivered_task]" "held_locks delivered_service = []"
  "metadata delivered_service = [patch_path ''d'' \<mapsto> ''diff'']"
  by (simp_all add: delivered_task_def fresh_task_def delivered_service_def empty_service_def)

text \<open>Undoing is refused here: local projects are disabled in the default settings.\<close>

lemma undo_refused:
  "db_tasks (snd (undo_change_set bare_env ''local'' True ''d'' delivered_service)) = [delivered_task]"
  by (simp add: undo_change_set_def locked_handler_def get_task_def find_task_def with_source_lock_def
      acquire_source_lock_def Let_def undo_change_set_locked_def load_patch_def apply_patch_def
      verify_source_def allowed_source_def projects_root_def effect_defs nonempty_opt_def
      release_source_lock_def bare_env_def default_settings_def split: if_splits)

theorem applied_patches_on_record_witness:
  "\<exists>s'. exec (change_step bare_env) delivered_service [Undo ''local'' True ''d''] = Some s' \<and>
     (\<exists>patch. load_patch ''d'' (sha256_hex ''diff'') s' = (Inr patch, s'))"
proof -
  define s' where "s' = snd (undo_change_set bare_env ''local'' True ''d'' delivered_service)"
  have e: "exec (change_step bare_env) delivered_service [Undo ''local'' True ''d''] = Some s'"
    by (simp add: s'_def)
  have "records_ok delivered_service"
    by (simp add: records_ok_def distinct_ids_def on_record_def)
  from applied_patches_on_record [OF e this, of delivered_task] e undo_refused show ?thesis
    by (simp add: s'_def)
qed

section \<open>Missing receipts\<close>

text \<open>
  \<^verbatim>\<open>get_receipt\<close> is meant to give nothing for a task without a receipt, but reading an
  absent file raises \<^verbatim>\<open>ToolError\<close>, which it does not catch: with a workspace and no
  \<^verbatim>\<open>receipt.json\<close> both the receipt and its report raise.
\<close>

theorem missing_receipt_raises:
  assumes "find_task (db_tasks s) i = Some t" "owner_id t = subject" "workspace_path t = Some path" "path \<noteq> []"
    "ev_workspace ev (outside s) path = Some ws" "ws_resolve ws receipt_json = Inr target"
    "map_of (ws_files ws) target = None"
  shows "get_receipt_report ev subject i s = (Inl (ToolErrorRaised ''No such file: receipt.json''), s)"
proof -
  have "get_task subject i s = (Inr t, s)" using assms by simp
  then show ?thesis
    using assms(3-)
    by (simp del: get_task_Inr add: get_receipt_report_def get_receipt_def task_workspace_def bindE_def
        gets_def raise_def ret_def nonempty_opt_def ws_read_def ws_error_def receipt_json_def)
qed

definition running_task :: task where
  "running_task = (fresh_task ''r'')\<lparr>workspace_path := Some ''/w''\<rparr>"

definition files_env :: "(unit, unit, unit) env" where
  "files_env = bare_env\<lparr>ev_workspace := (\<lambda>u p. Some empty_ws)\<rparr>"

theorem missing_receipt_raises_witness:
  "fst (get_receipt_report files_env ''local'' ''r'' (empty_service\<lparr>db_tasks := [running_task]\<rparr>)) =
     Inl (ToolErrorRaised ''No such file: receipt.json'')"
proof -
  let ?s = "empty_service\<lparr>db_tasks := [running_task]\<rparr>"
  have "find_task (db_tasks ?s) ''r'' = Some running_task" "owner_id running_task = ''local''"
    "workspace_path running_task = Some ''/w''"
    by (simp_all add: find_task_def running_task_def fresh_task_def)
  moreover have "ev_workspace files_env (outside ?s) ''/w'' = Some empty_ws" by (simp add: files_env_def)
  moreover have "case ws_resolve empty_ws receipt_json of
      Inl e \<Rightarrow> False | Inr target \<Rightarrow> map_of (ws_files empty_ws) target = None" by code_simp
  then obtain target where "ws_resolve empty_ws receipt_json = Inr target" "map_of (ws_files empty_ws) target = None"
    by (cases "ws_resolve empty_ws receipt_json") auto
  ultimately show ?thesis
    using missing_receipt_raises [of ?s "''r''" running_task "''local''" "''/w''" files_env empty_ws] by auto
qed

end
