(* ===== verification/Web_Text.thy ===== *)
theory Web_Text
  imports Hosts Py_Json
begin

text \<open>
  What the services on the network use of Python's standard library: ISO-8859-1, base64,
  UTF-8 and percent decoding, and \<^verbatim>\<open>urlsplit\<close> with its \<^verbatim>\<open>hostname\<close> and \<^verbatim>\<open>port\<close>. The check of
  \<^verbatim>\<open>urlsplit\<close> on host names that are not ASCII (their NFKC form) is an argument.
\<close>

section \<open>Encodings\<close>

text \<open>\<^verbatim>\<open>bytes.decode("iso-8859-1")\<close>: every byte is a character.\<close>

definition latin1 :: "string \<Rightarrow> string" where
  "latin1 bytes = concat (map (\<lambda>c. if ord_of c < 128 then [c] else utf8 (ord_of c)) bytes)"

definition base64_alphabet :: string where
  "base64_alphabet = ''ABCDEFGHIJKLMNOPQRSTUVWXYZabcdefghijklmnopqrstuvwxyz0123456789+/''"

fun index_in :: "'a \<Rightarrow> 'a list \<Rightarrow> nat option" where
  "index_in x [] = None"
| "index_in x (y # ys) = (if x = y then Some 0 else map_option Suc (index_in x ys))"

fun base64_bytes :: "nat list \<Rightarrow> string" where
  "base64_bytes (a # b # c # d # vs) =
     char_of (4 * a + b div 16) # char_of (b mod 16 * 16 + c div 4) # char_of (c mod 4 * 64 + d) # base64_bytes vs"
| "base64_bytes [a, b, c] = [char_of (4 * a + b div 16), char_of (b mod 16 * 16 + c div 4)]"
| "base64_bytes [a, b] = [char_of (4 * a + b div 16)]"
| "base64_bytes _ = []"

text \<open>\<^verbatim>\<open>base64.b64decode(s, validate=True)\<close>; \<open>None\<close> is its \<^verbatim>\<open>ValueError\<close>.\<close>

definition b64decode :: "string \<Rightarrow> string option" where
  "b64decode s =
     (let digits = takeWhile (\<lambda>c. c \<noteq> CHR ''='') s;
          padding = drop (length digits) s;
          fits = (padding = [] \<and> length digits mod 4 = 0 \<or> padding = ''=='' \<and> length digits mod 4 = 2 \<or>
                  padding = ''='' \<and> length digits mod 4 = 3)
      in if fits then map_option base64_bytes (all_some (map (\<lambda>c. index_in c base64_alphabet) digits))
         else None)"

text \<open>
  The continuation bytes a lead byte calls for, as ranges; \<open>None\<close> for a byte that cannot lead.
\<close>

definition continuation :: "nat \<Rightarrow> (nat \<times> nat) list option" where
  "continuation b =
     (let c = (128, 191) in
      if b < 128 then Some []
      else if 194 \<le> b \<and> b \<le> 223 then Some [c]
      else if b = 224 then Some [(160, 191), c]
      else if b = 237 then Some [(128, 159), c]
      else if 225 \<le> b \<and> b \<le> 239 then Some [c, c]
      else if b = 240 then Some [(144, 191), c, c]
      else if b = 244 then Some [(128, 143), c, c]
      else if 241 \<le> b \<and> b \<le> 243 then Some [c, c, c]
      else None)"

text \<open>How many of the expected bytes follow.\<close>

fun follows :: "(nat \<times> nat) list \<Rightarrow> string \<Rightarrow> nat" where
  "follows ((lo, hi) # rs) (c # s) = (if lo \<le> ord_of c \<and> ord_of c \<le> hi then Suc (follows rs s) else 0)"
| "follows _ _ = 0"

text \<open>\<^verbatim>\<open>decode("utf-8", "replace")\<close>; strict decoding fails where this replaces.\<close>

definition replacement :: string where
  "replacement = utf8 65533"

function utf8_text :: "string \<Rightarrow> bool \<times> string" where
  "utf8_text [] = (True, [])"
| "utf8_text (c # s) =
     (case continuation (ord_of c) of
        None \<Rightarrow> (case utf8_text s of (_, t) \<Rightarrow> (False, replacement @ t))
      | Some rs \<Rightarrow>
          (let n = follows rs s in
           case utf8_text (drop n s) of
             (ok, t) \<Rightarrow>
               if n = length rs then (ok, c # take n s @ t) else (False, replacement @ t)))"
  by pat_completeness auto

termination
  by (relation "measure length") auto

definition utf8_strict :: "string \<Rightarrow> string option" where
  "utf8_strict bytes = (case utf8_text bytes of (ok, t) \<Rightarrow> if ok then Some t else None)"

text \<open>\<^verbatim>\<open>urllib.parse.unquote\<close>: the ASCII runs of a text are decoded, each by itself.\<close>

fun percent_bytes :: "string \<Rightarrow> string" where
  "percent_bytes (p # a # b # s) =
     (case (if p = CHR 0x25 then hex_val a else None, hex_val b) of
        (Some x, Some y) \<Rightarrow> char_of (16 * x + y) # percent_bytes s
      | _ \<Rightarrow> p # percent_bytes (a # b # s))"
| "percent_bytes s = s"

function unquote :: "string \<Rightarrow> string" where
  "unquote [] = []"
| "unquote (c # s) =
     (if ord_of c < 128
      then snd (utf8_text (percent_bytes (takeWhile (\<lambda>x. ord_of x < 128) (c # s)))) @
           unquote (dropWhile (\<lambda>x. ord_of x < 128) s)
      else c # unquote s)"
  by pat_completeness auto

termination
  by (relation "measure length") (auto simp: le_imp_less_Suc length_dropWhile_le)

section \<open>\<^verbatim>\<open>urlsplit\<close>\<close>

record url =
  url_scheme :: string
  url_netloc :: string
  url_path :: string
  url_query :: string

definition scheme_char :: "char \<Rightarrow> bool" where
  "scheme_char c = (py_isalpha c \<or> py_isdigit c \<or> c \<in> set ''+-.'')"

definition split_scheme :: "string \<Rightarrow> string \<times> string" where
  "split_scheme s =
     (let head = takeWhile (\<lambda>c. c \<noteq> CHR '':'') s in
      if head \<noteq> [] \<and> length head < length s \<and> py_isalpha (hd s) \<and> list_all scheme_char head
      then (py_lower head, drop (length head + 1) s)
      else ([], s))"

definition cut_at :: "char \<Rightarrow> string \<Rightarrow> string \<times> string" where
  "cut_at c s = (takeWhile (\<lambda>x. x \<noteq> c) s, drop 1 (dropWhile (\<lambda>x. x \<noteq> c) s))"

text \<open>\<^verbatim>\<open>_hostinfo\<close>: the host, without lowering, and the text of the port.\<close>

definition host_info :: "string \<Rightarrow> string \<times> string" where
  "host_info netloc =
     (let info = after_last (CHR ''@'') netloc in
      if CHR ''['' \<in> set info then
        (let rest = snd (cut_at (CHR ''['') info)
         in (fst (cut_at (CHR '']'') rest), snd (cut_at (CHR '':'') (snd (cut_at (CHR '']'') rest)))))
      else cut_at (CHR '':'') info)"

text \<open>\<^verbatim>\<open>_check_bracketed_netloc\<close>.\<close>

definition brackets_ok :: "string \<Rightarrow> bool" where
  "brackets_ok netloc =
     (let info = after_last (CHR ''@'') netloc in
      if CHR ''['' \<in> set info then
        (let port = snd (cut_at (CHR '']'') (snd (cut_at (CHR ''['') info)))
         in prefix ''['' info \<and> (port = [] \<or> prefix '':'' port) \<and> bracketed_ok (fst (host_info netloc)))
      else bracketed_ok (fst (host_info netloc)))"

text \<open>\<open>None\<close> is a \<^verbatim>\<open>ValueError\<close>; \<open>netloc_ok\<close> is the check of names that are not ASCII.\<close>

definition urlsplit :: "(string \<Rightarrow> bool) \<Rightarrow> string \<Rightarrow> url option" where
  "urlsplit netloc_ok raw =
     (let s = filter (\<lambda>c. ord_of c \<notin> {9, 10, 13}) (dropWhile (\<lambda>c. ord_of c \<le> 32) raw);
          (scheme, rest) = split_scheme s;
          netloc = (if prefix ''//'' rest then takeWhile (\<lambda>c. c \<notin> set ''/?#'') (drop 2 rest) else []);
          tail = (if prefix ''//'' rest then drop (2 + length netloc) rest else rest);
          opens = (CHR ''['' \<in> set netloc); closes = (CHR '']'' \<in> set netloc);
          (path, query) = cut_at (CHR ''?'') (fst (cut_at (CHR ''#'') tail))
      in if opens \<noteq> closes \<or> opens \<and> closes \<and> \<not> brackets_ok netloc \<or> \<not> list_all (\<lambda>c. ord_of c < 128) netloc \<and> \<not> netloc_ok netloc
         then None
         else Some \<lparr>url_scheme = scheme, url_netloc = netloc, url_path = path, url_query = query\<rparr>)"

definition url_host :: "url \<Rightarrow> string option" where
  "url_host u =
     (let h = fst (host_info (url_netloc u)) in
      if h = [] then None
      else Some (py_lower (takeWhile (\<lambda>c. c \<noteq> CHR 0x25) h) @ dropWhile (\<lambda>c. c \<noteq> CHR 0x25) h))"

text \<open>\<^verbatim>\<open>port\<close>: \<open>None\<close> is a \<^verbatim>\<open>ValueError\<close>, \<open>Some None\<close> that there is none.\<close>

definition url_port :: "url \<Rightarrow> nat option option" where
  "url_port u =
     (let p = snd (host_info (url_netloc u)) in
      if p = [] then Some None
      else if list_all py_isdigit p \<and> digits_val p \<le> 65535 then Some (Some (digits_val p))
      else None)"

end
