(* ===== verification/Revocation.thy ===== *)
theory Revocation
  imports Authority_Tokens
begin

text \<open>
  \<^verbatim>\<open>domain/authority_revocation.py\<close>: the runs whose authority was withdrawn, until the tokens of
  the run expire. The store keeps them in memory, in an SQLite table or in a Redis sorted set; each
  is modelled with what the code asks of it, and shown to answer the same questions the same way.
  Times are microseconds: a \<^verbatim>\<open>timestamp()\<close> is a float of seconds with that resolution. Losing Redis
  and the notification of subscribers are not modelled.
\<close>

section \<open>The three stores\<close>

text \<open>A row of \<open>authority_revocations\<close> or a member of the sorted set with its score.\<close>

datatype revocations =
    InMemory "string \<rightharpoonup> int"
  | Sqlite "(string \<times> int) list"
  | Redis "(string \<times> int) list"

text \<open>\<^verbatim>\<open>durable\<close>, \<^verbatim>\<open>shared\<close>, \<^verbatim>\<open>backend\<close>.\<close>

fun durable :: "revocations \<Rightarrow> bool" where
  "durable (InMemory m) = False"
| "durable _ = True"

fun shared :: "revocations \<Rightarrow> bool" where
  "shared (Redis z) = True"
| "shared _ = False"

fun backend :: "revocations \<Rightarrow> string" where
  "backend (InMemory m) = ''memory''"
| "backend (Sqlite t) = ''sqlite''"
| "backend (Redis z) = ''redis''"

definition empty_store :: "bool \<Rightarrow> bool \<Rightarrow> revocations" where
  "empty_store database redis =
     (if redis then Redis [] else if database then Sqlite [] else InMemory (\<lambda>_. None))"

text \<open>\<^verbatim>\<open>_purge_memory\<close> keeps \<^verbatim>\<open>expires_at > now\<close>.\<close>

definition purge_memory :: "int \<Rightarrow> (string \<rightharpoonup> int) \<Rightarrow> (string \<rightharpoonup> int)" where
  "purge_memory now m = (\<lambda>r. case m r of None \<Rightarrow> None | Some e \<Rightarrow> if now < e then Some e else None)"

text \<open>\<^verbatim>\<open>DELETE ... WHERE expires_at <= ?\<close> and \<^verbatim>\<open>ZREMRANGEBYSCORE -inf now\<close>.\<close>

definition delete_expired :: "int \<Rightarrow> (string \<times> int) list \<Rightarrow> (string \<times> int) list" where
  "delete_expired now rows = filter (\<lambda>(_, e). \<not> e \<le> now) rows"

text \<open>\<^verbatim>\<open>INSERT ... ON CONFLICT(run_id) DO UPDATE SET expires_at = MAX(...)\<close>.\<close>

fun upsert_max :: "string \<Rightarrow> int \<Rightarrow> (string \<times> int) list \<Rightarrow> (string \<times> int) list" where
  "upsert_max r e [] = [(r, e)]"
| "upsert_max r e ((r', e') # rows) =
     (if r' = r then (r, max e' e) # rows else (r', e') # upsert_max r e rows)"

text \<open>
  \<^verbatim>\<open>ZADD ... GT\<close>: a new member is added, a known one only moved to a greater score. The set is kept
  in the order of the scores.
\<close>

fun zinsert :: "string \<Rightarrow> int \<Rightarrow> (string \<times> int) list \<Rightarrow> (string \<times> int) list" where
  "zinsert r e [] = [(r, e)]"
| "zinsert r e ((r', e') # z) = (if e \<le> e' then (r, e) # (r', e') # z else (r', e') # zinsert r e z)"

definition zadd_gt :: "string \<Rightarrow> int \<Rightarrow> (string \<times> int) list \<Rightarrow> (string \<times> int) list" where
  "zadd_gt r e z =
     (case map_of z r of
        None \<Rightarrow> zinsert r e z
      | Some e' \<Rightarrow> if e' < e then zinsert r e (filter (\<lambda>(r', _). r' \<noteq> r) z) else z)"

section \<open>Operations\<close>

fun revoke :: "int \<Rightarrow> string \<Rightarrow> int \<Rightarrow> revocations \<Rightarrow> revocations" where
  "revoke now r e (InMemory m) =
     (let m' = purge_memory now m in
      InMemory (m'(r \<mapsto> max e (case m' r of None \<Rightarrow> 0 | Some x \<Rightarrow> x))))"
| "revoke now r e (Sqlite rows) = Sqlite (upsert_max r e (delete_expired now rows))"
| "revoke now r e (Redis z) =
     (let z' = delete_expired now z in Redis (if now < e then zadd_gt r e z' else z'))"

fun is_revoked :: "int \<Rightarrow> string \<Rightarrow> revocations \<Rightarrow> bool \<times> revocations" where
  "is_revoked now r (InMemory m) =
     (let m' = purge_memory now m in (m' r \<noteq> None, InMemory m'))"
| "is_revoked now r (Sqlite rows) =
     (let rows' = delete_expired now rows in
      (list_ex (\<lambda>(r', e). r' = r \<and> now < e) rows', Sqlite rows'))"
| "is_revoked now r (Redis z) =
     (let z' = delete_expired now z in
      (case map_of z' r of None \<Rightarrow> False | Some e \<Rightarrow> now < e, Redis z'))"

text \<open>
  \<^verbatim>\<open>_notify\<close> and one round of \<^verbatim>\<open>_listen\<close>: the runs of a message and the revoked runs a subscriber
  was not told of are reported; \<open>tell\<close> says whether its callback returned. The value is what the
  subscriber has been told of, and the calls made.
\<close>

definition notify :: "(string \<Rightarrow> bool) \<Rightarrow> string \<Rightarrow> string set \<times> string list \<Rightarrow> string set \<times> string list" where
  "notify tell r st =
     (case st of (observed, calls) \<Rightarrow>
        if r \<in> observed then (observed, calls)
        else (if tell r then insert r observed else observed, calls @ [r]))"

definition active_runs :: "int \<Rightarrow> (string \<times> int) list \<Rightarrow> string list" where
  "active_runs now z = map fst (filter (\<lambda>(_, e). now \<le> e) z)"

definition listen_round ::
  "(string \<Rightarrow> bool) \<Rightarrow> string option \<Rightarrow> int \<Rightarrow> (string \<times> int) list \<Rightarrow> string set \<Rightarrow> string set \<times> string list" where
  "listen_round tell message now z observed =
     (case (case message of None \<Rightarrow> (observed, []) | Some r \<Rightarrow> notify tell r (observed, [])) of
        (told, calls) \<Rightarrow>
          (let known = told \<inter> set (active_runs now z) in
           fold (notify tell) (filter (\<lambda>r. r \<notin> known) (active_runs now z)) (known, calls)))"

section \<open>What the stores keep\<close>

text \<open>The expiry a store has for a run, if it is still in the future.\<close>

fun stored :: "revocations \<Rightarrow> string \<rightharpoonup> int" where
  "stored (InMemory m) r = m r"
| "stored (Sqlite rows) r = map_of rows r"
| "stored (Redis z) r = map_of z r"

definition live :: "int \<Rightarrow> revocations \<Rightarrow> string \<Rightarrow> int option" where
  "live now st r = (case stored st r of None \<Rightarrow> None | Some e \<Rightarrow> if now < e then Some e else None)"

text \<open>A run has one row, and one member of the set.\<close>

fun keyed :: "revocations \<Rightarrow> bool" where
  "keyed (InMemory m) = True"
| "keyed (Sqlite rows) = distinct (map fst rows)"
| "keyed (Redis z) = distinct (map fst z)"

lemma map_of_delete_expired:
  "distinct (map fst rows) \<Longrightarrow> map_of (delete_expired now rows) r =
     (case map_of rows r of None \<Rightarrow> None | Some e \<Rightarrow> if now < e then Some e else None)"
proof (induction rows)
  case (Cons row rows)
  obtain r' e where row: "row = (r', e)" by (cases row)
  have "map_of rows r = None" if "r' = r"
    using Cons.prems that by (simp add: row map_of_eq_None_iff)
  with Cons show ?case by (auto simp: row delete_expired_def)
qed (simp add: delete_expired_def)

lemma keyed_delete_expired: "distinct (map fst rows) \<Longrightarrow> distinct (map fst (delete_expired now rows))"
  unfolding delete_expired_def by (rule distinct_map_filter)

lemma fst_upsert_max: "fst ` set (upsert_max r e rows) = insert r (fst ` set rows)"
  by (induction r e rows rule: upsert_max.induct) auto

lemma keyed_upsert_max: "distinct (map fst rows) \<Longrightarrow> distinct (map fst (upsert_max r e rows))"
proof (induction r e rows rule: upsert_max.induct)
  case (2 r e r' e' rows)
  then show ?case using fst_upsert_max [of r e rows] by auto
qed simp

lemma map_of_upsert_max:
  "map_of (upsert_max r e rows) =
     (map_of rows)(r \<mapsto> (case map_of rows r of None \<Rightarrow> e | Some e' \<Rightarrow> max e' e))"
  by (induction r e rows rule: upsert_max.induct) (auto simp: fun_eq_iff)

lemma fst_zinsert: "fst ` set (zinsert r e z) = insert r (fst ` set z)"
  by (induction r e z rule: zinsert.induct) auto

lemma keyed_zinsert: "distinct (map fst z) \<Longrightarrow> r \<notin> fst ` set z \<Longrightarrow> distinct (map fst (zinsert r e z))"
proof (induction r e z rule: zinsert.induct)
  case (2 r e r' e' z)
  then show ?case using fst_zinsert [of r e z] by auto
qed simp

lemma map_of_zinsert: "r \<notin> fst ` set z \<Longrightarrow> map_of (zinsert r e z) = (map_of z)(r \<mapsto> e)"
  by (induction r e z rule: zinsert.induct) (auto simp: fun_eq_iff)

lemma map_of_others: "map_of (filter (\<lambda>(r', _). r' \<noteq> r) z) = (map_of z)(r := None)"
  by (induction z) (auto simp: fun_eq_iff)

lemma zadd_gt_keyed:
  assumes "distinct (map fst z)"
  shows "distinct (map fst (zadd_gt r e z))"
    and "map_of (zadd_gt r e z) = (map_of z)(r \<mapsto> (case map_of z r of None \<Rightarrow> e | Some e' \<Rightarrow> max e' e))"
proof -
  have out: "r \<notin> fst ` set (filter (\<lambda>(r', _). r' \<noteq> r) z)" by auto
  have new: "r \<notin> fst ` set z" if "map_of z r = None" using that by (simp add: map_of_eq_None_iff)
  show "distinct (map fst (zadd_gt r e z))"
    using assms new keyed_zinsert [of z r e] keyed_zinsert [OF distinct_map_filter [OF assms] out]
    by (auto simp: zadd_gt_def split: option.split)
  show "map_of (zadd_gt r e z) = (map_of z)(r \<mapsto> (case map_of z r of None \<Rightarrow> e | Some e' \<Rightarrow> max e' e))"
    using new map_of_zinsert [of r z e] map_of_zinsert [OF out, of e]
    by (auto simp: zadd_gt_def map_of_others fun_eq_iff split: option.split)
qed

text \<open>All three stores do the same to what is live, at every later moment.\<close>

lemma live_purged:
  assumes "keyed st" "now \<le> later"
  shows "keyed (snd (is_revoked now r st))" "live later (snd (is_revoked now r st)) = live later st"
  using assms
  by (cases st; auto simp: Let_def keyed_delete_expired live_def map_of_delete_expired purge_memory_def fun_eq_iff
      split: option.split)+

lemma is_revoked_live:
  assumes "keyed st"
  shows "fst (is_revoked now r st) \<longleftrightarrow> live now st r \<noteq> None"
proof (cases st)
  case (Sqlite rows)
  have keyed: "distinct (map fst rows)" using assms Sqlite by simp
  have "list_ex (\<lambda>(r', e). r' = r \<and> now < e) (delete_expired now rows) \<longleftrightarrow>
      (\<exists>e. map_of (delete_expired now rows) r = Some e \<and> now < e)"
    using keyed_delete_expired [OF keyed] by (force simp: list_ex_iff)
  then show ?thesis
    unfolding map_of_delete_expired [OF keyed] by (simp add: Sqlite Let_def live_def split: option.split)
qed (use assms in \<open>auto simp: Let_def live_def map_of_delete_expired purge_memory_def split: option.splits if_splits\<close>)

lemma revoke_live:
  assumes "keyed st" "0 \<le> now" "now \<le> later"
  shows "keyed (revoke now r e st)"
    and "live later (revoke now r e st) =
      (live later st)(r := (case live later st r of
         None \<Rightarrow> if later < e then Some e else None | Some e' \<Rightarrow> Some (max e' e)))"
proof -
  show "keyed (revoke now r e st)"
    using assms(1) by (cases st) (auto simp: Let_def keyed_delete_expired keyed_upsert_max zadd_gt_keyed)
  show "live later (revoke now r e st) =
      (live later st)(r := (case live later st r of
         None \<Rightarrow> if later < e then Some e else None | Some e' \<Rightarrow> Some (max e' e)))"
    using assms
    by (cases st)
      (auto simp: Let_def live_def purge_memory_def map_of_upsert_max map_of_delete_expired keyed_delete_expired
        zadd_gt_keyed fun_eq_iff max_def split: option.split)
qed

section \<open>A store over time\<close>

datatype request = Withdraw string int | Query string

fun serve :: "(int \<times> request) list \<Rightarrow> revocations \<Rightarrow> revocations" where
  "serve [] st = st"
| "serve ((t, Withdraw r e) # ops) st = serve ops (revoke t r e st)"
| "serve ((t, Query r) # ops) st = serve ops (snd (is_revoked t r st))"

lemma keyed_empty: "keyed (empty_store database redis)" "live now (empty_store database redis) r = None"
  by (auto simp: empty_store_def live_def)

lemma serve_live:
  assumes "keyed st" "list_all (\<lambda>(t, _). 0 \<le> t \<and> t \<le> now) ops"
  shows "keyed (serve ops st) \<and>
    (live now (serve ops st) r \<noteq> None \<longleftrightarrow>
       live now st r \<noteq> None \<or> (\<exists>t e. (t, Withdraw r e) \<in> set ops \<and> now < e))"
  using assms
proof (induction ops st rule: serve.induct)
  case (2 t r' e ops st)
  then have t: "0 \<le> t" "t \<le> now" by auto
  note step = revoke_live [OF 2(2) t, of r' e]
  have "live now (revoke t r' e st) r \<noteq> None \<longleftrightarrow> live now st r \<noteq> None \<or> r = r' \<and> now < e"
    by (auto simp: step(2) split: option.split)
  with 2 step(1) show ?case by auto
next
  case (3 t r' ops st)
  then have "t \<le> now" by auto
  note step = live_purged [OF 3(2) this, of r']
  with 3 show ?case by auto
qed simp

text \<open>
  C17. The three stores are interchangeable and exact. Whatever revocations and questions a store
  has served up to now, and whichever backend keeps it, it says that a run is revoked exactly when
  some revocation of that run has not expired: purging loses nothing that matters, a later
  revocation never shortens an earlier one, and no run is confused with another.
\<close>

theorem revocations_exact:
  assumes "list_all (\<lambda>(t, _). 0 \<le> t \<and> t \<le> now) ops"
  shows "fst (is_revoked now r (serve ops (empty_store database redis))) \<longleftrightarrow>
    (\<exists>t e. (t, Withdraw r e) \<in> set ops \<and> now < e)"
  using serve_live [OF keyed_empty(1) assms, of database redis r] keyed_empty(2)
    is_revoked_live [of "serve ops (empty_store database redis)" now r] by simp

theorem revocations_exact_witness:
  "fst (is_revoked 9 ''a'' (serve [(1, Withdraw ''a'' 10), (2, Query ''b''), (3, Withdraw ''a'' 5)] (empty_store True False))) \<and>
   \<not> fst (is_revoked 10 ''a'' (serve [(1, Withdraw ''a'' 10), (2, Query ''b'')] (empty_store True True)))"
proof -
  have "\<exists>t e. (t, Withdraw ''a'' e) \<in> set [(1::int, Withdraw ''a'' 10), (2, Query ''b''), (3, Withdraw ''a'' 5)] \<and> 9 < e"
    by (intro exI [of _ "1::int"] exI [of _ "10::int"]) simp
  moreover have "\<not> (\<exists>t e. (t, Withdraw ''a'' e) \<in> set [(1::int, Withdraw ''a'' 10), (2, Query ''b'')] \<and> 10 < e)"
    by auto
  ultimately show ?thesis
    using revocations_exact [of 9 "[(1, Withdraw ''a'' 10), (2, Query ''b''), (3, Withdraw ''a'' 5)]" "''a''" True False]
      revocations_exact [of 10 "[(1, Withdraw ''a'' 10), (2, Query ''b'')]" "''a''" True True]
    by (simp del: serve.simps)
qed

section \<open>Subscribers\<close>

lemma notify_always:
  "notify (\<lambda>_. True) r (observed, calls) = (insert r observed, if r \<in> observed then calls else calls @ [r])"
  by (auto simp: notify_def)

lemma fold_notify_always:
  "fst (fold (notify (\<lambda>_. True)) rs (observed, calls)) = observed \<union> set rs"
  by (induction rs arbitrary: observed calls) (auto simp: notify_always)

text \<open>
  A subscriber whose callback succeeds knows, after each round, exactly the runs that are revoked:
  a message that was lost is made up for.
\<close>

lemma listener_catches_up:
  "fst (listen_round (\<lambda>_. True) message now z observed) = set (active_runs now z)"
  by (auto simp: listen_round_def fold_notify_always notify_always Let_def split: option.split prod.split)

end
