(* ===== verification/Egress_Proxy.thy ===== *)
theory Egress_Proxy
  imports Web_Text Revocation
begin

text \<open>
  \<^verbatim>\<open>app/egress_proxy\<close>: the destination-enforcing proxy through which a sandbox and the gateways
  reach the network. One request is a request line and headers; it is admitted if its token
  verifies, the run is not revoked, the token carries network authority, and the port and the
  host are allowed. \<open>handle\<close> is one connection from the bytes of the request to the start of
  the relay; the interleaving of connections with revocations is in \<open>Egress_Race\<close>. The copying of
  bytes after that, the texts of error replies and the HTTP server of the admin interface are not
  modelled.
\<close>

section \<open>Settings\<close>

record proxy_settings =
  px_allowed_ports :: string
  px_public_key :: "string option"
  px_public_key_file :: "string option"
  px_public_keys :: "(string \<times> string) list"
  px_public_keys_file :: "string option"
  px_redis_url :: "string option"
  px_redis_host :: "string option"
  px_redis_port :: int

definition given :: "string option \<Rightarrow> bool" where
  "given x = (x \<noteq> None \<and> x \<noteq> Some [])"

definition public_key_pem :: "(string \<Rightarrow> string option) \<Rightarrow> proxy_settings \<Rightarrow> string option" where
  "public_key_pem read_text c =
     (if given (px_public_key c) then px_public_key c
      else if given (px_public_key_file c) then read_text (the (px_public_key_file c))
      else None)"

text \<open>The map of a key file: \<open>None\<close> when it is not a JSON object of strings.\<close>

definition string_map :: "json \<Rightarrow> (string \<times> string) list option" where
  "string_map v =
     (case v of
        JObj kvs \<Rightarrow>
          all_some (map (\<lambda>(k, x). case x of JStr s \<Rightarrow> Some (k, s) | _ \<Rightarrow> None) kvs)
      | _ \<Rightarrow> None)"

definition update_all :: "(string \<times> string) list \<Rightarrow> (string \<times> string) list \<Rightarrow> (string \<times> string) list" where
  "update_all d new = fold (\<lambda>(k, v). AList.update k v) new d"

text \<open>
  \<^verbatim>\<open>public_keyring\<close>. A file that cannot be read, or is not such a map, raises \<^verbatim>\<open>ValueError\<close>; the
  key given alone is filed under its identifier; the ring is validated when it is not empty.
\<close>

definition public_keyring ::
  "('k, 'p) crypto \<Rightarrow> (string \<Rightarrow> string option) \<Rightarrow> proxy_settings \<Rightarrow> token_exc + (string \<times> string) list" where
  "public_keyring cr read_text c =
     (let filed = (if \<not> given (px_public_keys_file c) then Some []
            else (case read_text (the (px_public_keys_file c)) of
                    None \<Rightarrow> None
                  | Some text \<Rightarrow> Option.bind (json_loads text) string_map))
      in case filed of
           None \<Rightarrow> Inl (TokenRaised ValueError)
         | Some new \<Rightarrow>
             (let keys = update_all (px_public_keys c) new;
                  single = (case public_key_pem read_text c of
                      Some pem \<Rightarrow>
                        if pem = [] then Inr keys
                        else map_sum id (\<lambda>ring. update_all keys ring) (keyring_of_pem cr pem)
                    | None \<Rightarrow> Inr keys)
              in case single of
                   Inl e \<Rightarrow> Inl e
                 | Inr ring \<Rightarrow>
                     if ring = [] then Inr []
                     else map_sum id (\<lambda>_. ring) (authority_public_keyring cr ring)))"

definition port_number :: "string \<Rightarrow> nat option" where
  "port_number v =
     (case int_of_string (py_strip v) of
        Inl _ \<Rightarrow> None
      | Inr i \<Rightarrow> if 1 \<le> i \<and> i \<le> 65535 then Some (nat i) else None)"

definition allowed_port_set :: "proxy_settings \<Rightarrow> nat set" where
  "allowed_port_set c = set (List.map_filter port_number (split_char (CHR '','') (px_allowed_ports c)))"

definition resolved_state_redis_url :: "proxy_settings \<Rightarrow> string option" where
  "resolved_state_redis_url c =
     (if given (px_redis_url c) then px_redis_url c
      else if given (px_redis_host c) then
        Some (''redis://'' @ the (px_redis_host c) @ '':'' @ show_int (px_redis_port c) @ ''/1'')
      else None)"

text \<open>
  \<^verbatim>\<open>expires_at.timestamp()\<close> in microseconds, the resolution of a \<^verbatim>\<open>datetime\<close>.
\<close>

fun expiry_micros :: "pyfloat \<Rightarrow> int" where
  "expiry_micros (FDec m e) = (if 0 \<le> e then m * 10 ^ nat e * 1000000 else m * 1000000 div 10 ^ nat (- e))"
| "expiry_micros _ = 0"

section \<open>Requests\<close>

type_synonym headers = "(string \<times> string) list"

definition crlf :: string where
  "crlf = [CHR 0x0D, CHR 0x0A]"

function split_crlf :: "string \<Rightarrow> string list" where
  "split_crlf s =
     (case partition_at crlf s of
        None \<Rightarrow> [s]
      | Some (line, rest) \<Rightarrow> if length rest < length s then line # split_crlf rest else [line, rest])"
  by pat_completeness auto

termination
  by (relation "measure length") auto

fun parse_headers :: "string list \<Rightarrow> headers \<Rightarrow> headers option" where
  "parse_headers [] hs = Some hs"
| "parse_headers (line # ls) hs =
     (if line = [] then parse_headers ls hs
      else (case partition_at '':'' line of
              None \<Rightarrow> None
            | Some (name, v) \<Rightarrow> parse_headers ls (AList.update (py_lower (py_strip name)) (py_strip v) hs)))"

text \<open>\<^verbatim>\<open>_parse_request\<close>: the three words of the request line and the headers; \<open>None\<close> is \<^verbatim>\<open>ValueError\<close>.\<close>

definition parse_request :: "string \<Rightarrow> ((string \<times> string \<times> string) \<times> headers) option" where
  "parse_request raw =
     (case split_crlf (latin1 raw) of
        [] \<Rightarrow> None
      | line # ls \<Rightarrow>
          (case split_char (CHR '' '') line of
             [verb, target, protocol] \<Rightarrow> map_option (\<lambda>hs. ((verb, target, protocol), hs)) (parse_headers ls [])
           | _ \<Rightarrow> None))"

definition header :: "headers \<Rightarrow> string \<Rightarrow> string" where
  "header hs name = (case map_of hs name of None \<Rightarrow> [] | Some v \<Rightarrow> v)"

text \<open>\<^verbatim>\<open>s.partition(sep)\<close>, with the separator or not.\<close>

definition parted :: "string \<Rightarrow> string \<Rightarrow> string \<times> bool \<times> string" where
  "parted sep s = (case partition_at sep s of None \<Rightarrow> (s, False, []) | Some (a, b) \<Rightarrow> (a, True, b))"

definition proxy_token :: "headers \<Rightarrow> string option" where
  "proxy_token hs =
     (case parted '' '' (header hs ''proxy-authorization'') of
        (scheme, _, v) \<Rightarrow>
          if py_lower scheme = ''bearer'' then (if py_strip v = [] then None else Some (py_strip v))
          else if py_lower scheme \<noteq> ''basic'' then None
          else
            (case Option.bind (b64decode v) utf8_strict of
               None \<Rightarrow> None
             | Some decoded \<Rightarrow>
                 (case parted '':'' decoded of
                    (username, colon, password) \<Rightarrow>
                      if colon \<and> username = ''loop'' then Some (unquote password) else None)))"

definition is_connect :: "string \<Rightarrow> bool" where
  "is_connect verb = (py_lower verb = ''connect'')"

definition port_or :: "nat \<Rightarrow> nat option \<Rightarrow> nat" where
  "port_or usual p = (case p of None \<Rightarrow> usual | Some n \<Rightarrow> if n = 0 then usual else n)"

text \<open>\<^verbatim>\<open>_destination\<close>: host, port and path; \<open>None\<close> is \<^verbatim>\<open>ValueError\<close>.\<close>

definition destination ::
  "(string \<Rightarrow> bool) \<Rightarrow> string \<Rightarrow> string \<Rightarrow> headers \<Rightarrow> (string \<times> nat \<times> string) option" where
  "destination netloc_ok verb target hs =
     (if is_connect verb then
        Option.bind (urlsplit netloc_ok (''//'' @ target)) (\<lambda>u.
        Option.bind (url_host u) (\<lambda>h.
        Option.bind (url_port u) (\<lambda>p. Some (h, port_or 443 p, []))))
      else
        Option.bind (urlsplit netloc_ok target) (\<lambda>u.
          if url_scheme u \<notin> {''http'', []} then None
          else
            (case url_host u of
               Some h \<Rightarrow>
                 Option.bind (url_port u) (\<lambda>p.
                   Some (h, port_or 80 p, (if url_path u = [] then ''/'' else url_path u) @
                     (if url_query u = [] then [] else ''?'' @ url_query u)))
             | None \<Rightarrow>
                 Option.bind (urlsplit netloc_ok (''//'' @ header hs ''host'')) (\<lambda>v.
                 Option.bind (url_host v) (\<lambda>h.
                 Option.bind (url_port v) (\<lambda>p.
                   Some (h, port_or 80 p, if target = [] then ''/'' else target)))))))"

definition forward_headers :: "string \<Rightarrow> string \<Rightarrow> string \<Rightarrow> headers \<Rightarrow> string \<Rightarrow> nat \<Rightarrow> string" where
  "forward_headers verb path protocol hs host port =
     (let kept = filter (\<lambda>(k, _). k \<noteq> ''proxy-authorization'') hs;
          sent = AList.update ''connection'' ''close''
            (AList.update ''host'' (if port = 80 then host else host @ '':'' @ show_nat port) kept)
      in py_join crlf ((verb @ '' '' @ path @ '' '' @ protocol) # map (\<lambda>(k, v). k @ '': '' @ v) sent) @ crlf @ crlf)"

section \<open>A connection\<close>

text \<open>
  How an exception is answered: \<open>Denied\<close> is an \<^verbatim>\<open>AuthorityTokenError\<close>, \<^verbatim>\<open>TimeoutError\<close> or
  \<^verbatim>\<open>ValueError\<close>, \<open>Malformed\<close> an incomplete or oversized request, \<open>Broken\<close> any other exception, by
  the name of its class.
\<close>

datatype px_exc = Denied | Malformed | Broken string

record egress_event =
  ev_grant :: grant
  ev_decision :: string
  ev_reason :: "string option"
  ev_host :: "string option"
  ev_port :: "nat option"
  ev_method :: "string option"
  ev_ip :: "string option"

text \<open>What a connection does, in order.\<close>

datatype px_action =
    Audit egress_event
  | Dial string nat
  | Established string
  | Forward string
  | Relay int
  | Reply nat

text \<open>How the copying of bytes ends: by itself, at the deadline, or with an exception.\<close>

datatype relay_end = RelayDone | RelayExpired | RelayBroken px_exc

text \<open>
  \<open>pe_clock\<close> are the readings of the clock: by the verification of the token, by the two checks
  of the revocations, and for the time that remains. \<open>pe_store\<close> are the revocations at the two checks.
\<close>

record ('k, 'p) proxy_env =
  pe_settings :: proxy_settings
  pe_crypto :: "('k, 'p) crypto"
  pe_jwt :: "('k, 'p, string) token_lib"
  pe_hosts :: host_lib
  pe_read_text :: "string \<Rightarrow> string option"
  pe_netloc_ok :: "string \<Rightarrow> bool"
  pe_clock :: "nat \<Rightarrow> int"
  pe_store :: "nat \<Rightarrow> revocations"
  pe_getaddrinfo :: "string \<Rightarrow> nat \<Rightarrow> px_exc + string list"
  pe_open :: "string \<Rightarrow> nat \<Rightarrow> px_exc option"
  pe_relay :: relay_end

text \<open>An \<^verbatim>\<open>AuthorityTokenError\<close> is a denial; of the exceptions let through only \<^verbatim>\<open>ValueError\<close> is one.\<close>

fun of_token :: "token_exc \<Rightarrow> px_exc" where
  "of_token (TokenError f) = Denied"
| "of_token (TokenRaised e) = (if e = ValueError then Denied else Broken [])"

definition egress_audience :: string where
  "egress_audience = ''loop-egress-proxy''"

definition network_group :: "capability set" where
  "network_group = {NetShell, NetBrowser, EmailRead, EmailSend, CalendarRead, CalendarWrite, Vision}"

definition authenticate :: "('k, 'p) proxy_env \<Rightarrow> headers \<Rightarrow> px_exc + grant" where
  "authenticate env hs =
     (case public_keyring (pe_crypto env) (pe_read_text env) (pe_settings env) of
        Inl e \<Rightarrow> Inl (of_token e)
      | Inr keys \<Rightarrow>
          (case proxy_token hs of
             None \<Rightarrow> Inl Denied
           | Some token \<Rightarrow>
               if token = [] \<or> keys = [] then Inl Denied
               else map_sum of_token id
                 (verify_authority_token (pe_crypto env) (pe_jwt env) (pe_hosts env) keys egress_audience None
                    (pe_clock env 0) token)))"

definition revoked_at :: "('k, 'p) proxy_env \<Rightarrow> nat \<Rightarrow> grant \<Rightarrow> bool" where
  "revoked_at env n g = fst (is_revoked (pe_clock env n) (gt_run_id g) (pe_store env (n - 1)))"

definition host_allowed :: "('k, 'p) proxy_env \<Rightarrow> grant \<Rightarrow> string \<Rightarrow> bool" where
  "host_allowed env g host =
     (gt_hosts g \<noteq> {} \<and> grant_permits_host (pe_hosts env) g host = Inr True)"

definition record_event ::
  "grant \<Rightarrow> string option \<Rightarrow> nat option \<Rightarrow> string option \<Rightarrow> string \<Rightarrow> string option \<Rightarrow> string option \<Rightarrow> px_action" where
  "record_event g host port verb decision reason ip =
     Audit \<lparr>ev_grant = g, ev_decision = decision, ev_reason = reason, ev_host = host, ev_port = port,
       ev_method = verb, ev_ip = ip\<rparr>"

definition blocked_event :: "grant \<Rightarrow> string \<Rightarrow> nat \<Rightarrow> string \<Rightarrow> string \<Rightarrow> px_action" where
  "blocked_event g host port verb reason =
     record_event g (Some host) (Some port) (Some verb) ''blocked'' (Some reason) None"

text \<open>The checks before the destination is resolved; a refusal comes with what was recorded.\<close>

definition authorise ::
  "('k, 'p) proxy_env \<Rightarrow> grant \<Rightarrow> string \<Rightarrow> string \<Rightarrow> headers \<Rightarrow> px_action list + (string \<times> nat \<times> string)" where
  "authorise env g verb target hs =
     (if revoked_at env 1 g then Inl []
      else if gt_capabilities g \<inter> network_group = {} then Inl []
      else
        (case destination (pe_netloc_ok env) verb target hs of
           None \<Rightarrow> Inl []
         | Some (host, port, path) \<Rightarrow>
             if port \<notin> allowed_port_set (pe_settings env)
             then Inl [blocked_event g host port verb ''port_not_allowed'']
             else if \<not> host_allowed env g host
             then Inl [blocked_event g host port verb ''host_not_allowlisted'']
             else Inr (host, port, path)))"

text \<open>\<^verbatim>\<open>resolve_public_destination\<close>: the first address that is globally routable.\<close>

fun first_global :: "host_lib \<Rightarrow> string list \<Rightarrow> px_exc + string" where
  "first_global lib [] = Inl Denied"
| "first_global lib (a # as) =
     (case ip_address a of
        None \<Rightarrow> Inl Denied
      | Some ip \<Rightarrow> if hl_global lib ip then Inr a else first_global lib as)"

definition resolve_destination :: "('k, 'p) proxy_env \<Rightarrow> string \<Rightarrow> nat \<Rightarrow> px_exc + string" where
  "resolve_destination env host port =
     (case pe_getaddrinfo env host port of Inl e \<Rightarrow> Inl e | Inr as \<Rightarrow> first_global (pe_hosts env) as)"

fun answer :: "grant option \<Rightarrow> px_exc \<Rightarrow> px_action list" where
  "answer g Denied = [Reply 403]"
| "answer g Malformed = [Reply 400]"
| "answer g (Broken cls) =
     (case g of None \<Rightarrow> [] | Some g \<Rightarrow> [record_event g None None None ''blocked'' (Some cls) None]) @ [Reply 502]"

definition remaining_time :: "('k, 'p) proxy_env \<Rightarrow> grant \<Rightarrow> int" where
  "remaining_time env g = max 0 (expiry_micros (gt_expires g) - pe_clock env 3)"

definition connect_upstream ::
  "('k, 'p) proxy_env \<Rightarrow> grant \<Rightarrow> string \<Rightarrow> string \<Rightarrow> headers \<Rightarrow> string \<times> nat \<times> string \<Rightarrow> px_action list" where
  "connect_upstream env g verb protocol hs dest =
     (case dest of (host, port, path) \<Rightarrow>
        (case resolve_destination env host port of
           Inl e \<Rightarrow> answer (Some g) e
         | Inr address \<Rightarrow>
             Dial address port #
             (case pe_open env address port of
                Some e \<Rightarrow> answer (Some g) e
              | None \<Rightarrow>
                  if revoked_at env 2 g then answer (Some g) Denied
                  else
                    [record_event g (Some host) (Some port) (Some verb) ''allowed'' None (Some address),
                     if is_connect verb then Established protocol
                     else Forward (forward_headers verb path protocol hs host port),
                     Relay (remaining_time env g)] @
                    (case pe_relay env of
                       RelayDone \<Rightarrow> []
                     | RelayExpired \<Rightarrow> [blocked_event g host port verb ''authority_expired'']
                     | RelayBroken e \<Rightarrow> answer (Some g) e))))"

text \<open>\<open>raw\<close> is what was read until the end of the headers, or the exception of reading it.\<close>

definition handle :: "('k, 'p) proxy_env \<Rightarrow> px_exc + string \<Rightarrow> px_action list" where
  "handle env raw =
     (case raw of
        Inl e \<Rightarrow> answer None e
      | Inr bytes \<Rightarrow>
          (case parse_request bytes of
             None \<Rightarrow> answer None Denied
           | Some ((verb, target, protocol), hs) \<Rightarrow>
               (case authenticate env hs of
                  Inl e \<Rightarrow> answer None e
                | Inr g \<Rightarrow>
                    (case authorise env g verb target hs of
                       Inl recorded \<Rightarrow> recorded @ answer (Some g) Denied
                     | Inr dest \<Rightarrow> connect_upstream env g verb protocol hs dest))))"

section \<open>The admin interface\<close>

datatype http_error = Unauthorized | Forbidden

definition control_audience :: string where
  "control_audience = ''loop-authority-control''"

text \<open>The bearer of the \<^verbatim>\<open>Authorization\<close> header, verified for an audience.\<close>

definition bearer_grant ::
  "('k, 'p) proxy_env \<Rightarrow> (string \<times> string) list \<Rightarrow> string \<Rightarrow> string \<Rightarrow> int \<Rightarrow> http_error + grant" where
  "bearer_grant env keys audience authorization clock =
     (case parted '' '' authorization of
        (scheme, _, token) \<Rightarrow>
          if py_lower scheme \<noteq> ''bearer'' \<or> token = [] \<or> keys = [] then Inl Unauthorized
          else
            (case verify_authority_token (pe_crypto env) (pe_jwt env) (pe_hosts env) keys audience None clock token of
               Inl _ \<Rightarrow> Inl Forbidden
             | Inr g \<Rightarrow> Inr g))"

definition audit_grant ::
  "('k, 'p) proxy_env \<Rightarrow> (string \<times> string) list \<Rightarrow> string \<Rightarrow> int \<Rightarrow> revocations \<Rightarrow> http_error + grant" where
  "audit_grant env keys authorization clock st =
     (case bearer_grant env keys egress_audience authorization clock of
        Inl e \<Rightarrow> Inl e
      | Inr g \<Rightarrow> if fst (is_revoked clock (gt_run_id g) st) then Inl Forbidden else Inr g)"

definition control_grant ::
  "('k, 'p) proxy_env \<Rightarrow> (string \<times> string) list \<Rightarrow> string \<Rightarrow> int \<Rightarrow> http_error + grant" where
  "control_grant env keys authorization clock = bearer_grant env keys control_audience authorization clock"

text \<open>\<^verbatim>\<open>POST /v1/revocations\<close>: the run of the control token is revoked until that token expires.\<close>

definition post_revocation ::
  "('k, 'p) proxy_env \<Rightarrow> (string \<times> string) list \<Rightarrow> string \<Rightarrow> int \<Rightarrow> revocations \<Rightarrow> (http_error + string) \<times> revocations" where
  "post_revocation env keys authorization clock st =
     (case control_grant env keys authorization clock of
        Inl e \<Rightarrow> (Inl e, st)
      | Inr g \<Rightarrow> (Inr (gt_run_id g), revoke clock (gt_run_id g) (expiry_micros (gt_expires g)) st))"

section \<open>What a connection is licensed to do\<close>

definition request_licensed :: "('k, 'p) proxy_env \<Rightarrow> string \<Rightarrow> grant \<Rightarrow> string \<Rightarrow> nat \<Rightarrow> bool" where
  "request_licensed env raw g host port \<longleftrightarrow>
     (\<exists>verb target protocol hs path token keys.
        parse_request raw = Some ((verb, target, protocol), hs) \<and>
        proxy_token hs = Some token \<and>
        public_keyring (pe_crypto env) (pe_read_text env) (pe_settings env) = Inr keys \<and> keys \<noteq> [] \<and>
        verify_authority_token (pe_crypto env) (pe_jwt env) (pe_hosts env) keys egress_audience None
          (pe_clock env 0) token = Inr g \<and>
        destination (pe_netloc_ok env) verb target hs = Some (host, port, path)) \<and>
     \<not> revoked_at env 1 g \<and> gt_capabilities g \<inter> network_group \<noteq> {} \<and>
     port \<in> allowed_port_set (pe_settings env) \<and>
     (\<exists>name \<in> gt_hosts g. \<exists>n. normalize_host (pe_hosts env) host = Inr n \<and> host_matches n name)"

lemma answer_only_replies:
  "Dial a p \<notin> set (answer g e)" "Relay d \<notin> set (answer g e)" "Forward h \<notin> set (answer g e)"
  "Established v \<notin> set (answer g e)"
  by (cases e; simp add: record_event_def split: option.split)+

lemma authenticate_Inr:
  assumes "authenticate env hs = Inr g"
  obtains token keys where "proxy_token hs = Some token" "keys \<noteq> []"
    "public_keyring (pe_crypto env) (pe_read_text env) (pe_settings env) = Inr keys"
    "verify_authority_token (pe_crypto env) (pe_jwt env) (pe_hosts env) keys egress_audience None
       (pe_clock env 0) token = Inr g"
proof -
  from assms obtain keys token where
    "public_keyring (pe_crypto env) (pe_read_text env) (pe_settings env) = Inr keys" "proxy_token hs = Some token"
    "keys \<noteq> []" and v: "map_sum of_token id (verify_authority_token (pe_crypto env) (pe_jwt env) (pe_hosts env) keys
       egress_audience None (pe_clock env 0) token) = Inr g"
    by (auto simp: authenticate_def split: sum.splits option.splits if_splits)
  moreover from v have "verify_authority_token (pe_crypto env) (pe_jwt env) (pe_hosts env) keys
       egress_audience None (pe_clock env 0) token = Inr g"
    by (cases "verify_authority_token (pe_crypto env) (pe_jwt env) (pe_hosts env) keys
       egress_audience None (pe_clock env 0) token") auto
  ultimately show thesis using that by blast
qed

lemma host_allowed_matches:
  "host_allowed env g host \<Longrightarrow>
     \<exists>name \<in> gt_hosts g. \<exists>n. normalize_host (pe_hosts env) host = Inr n \<and> host_matches n name"
  by (cases "normalize_host (pe_hosts env) host") (auto simp: host_allowed_def grant_permits_host_def)

lemma authorise_Inr:
  assumes "authorise env g verb target hs = Inr (host, port, path)"
  shows "\<not> revoked_at env 1 g" "gt_capabilities g \<inter> network_group \<noteq> {}"
    "destination (pe_netloc_ok env) verb target hs = Some (host, port, path)"
    "port \<in> allowed_port_set (pe_settings env)" "host_allowed env g host"
  using assms by (auto simp: authorise_def split: if_splits option.splits)

text \<open>A connection that reaches out has passed every check; what it recorded before is a refusal.\<close>

lemma handle_reaches:
  assumes "x \<in> set (handle env (Inr raw))" "x \<in> range (\<lambda>(a, p). Dial a p) \<union> range Relay \<union> range Forward \<union> range Established"
  obtains verb target protocol hs g host port path where
    "parse_request raw = Some ((verb, target, protocol), hs)" "authenticate env hs = Inr g"
    "authorise env g verb target hs = Inr (host, port, path)"
    "x \<in> set (connect_upstream env g verb protocol hs (host, port, path))"
proof -
  have no: "x \<notin> set (answer g e)" for g e using assms(2) answer_only_replies by auto
  have quiet: "x \<notin> set recorded" if "authorise env g verb target hs = Inl recorded" for g verb target hs recorded
    using that assms(2) by (auto simp: authorise_def blocked_event_def record_event_def split: if_splits option.splits)
  obtain verb target protocol hs where parsed: "parse_request raw = Some ((verb, target, protocol), hs)"
    using assms(1) no [of None Denied] by (cases "parse_request raw") (auto simp: handle_def)
  obtain g where g: "authenticate env hs = Inr g"
    using assms(1) no [of None] by (cases "authenticate env hs") (auto simp: handle_def parsed)
  obtain host port path where dest: "authorise env g verb target hs = Inr (host, port, path)"
    using assms(1) no [of "Some g" Denied] quiet
    by (cases "authorise env g verb target hs") (auto simp: handle_def parsed g)
  from assms(1) have "x \<in> set (connect_upstream env g verb protocol hs (host, port, path))"
    by (simp add: handle_def parsed g dest)
  with parsed g dest show thesis by (rule that)
qed

lemma reaches_licensed:
  assumes "parse_request raw = Some ((verb, target, protocol), hs)" "authenticate env hs = Inr g"
    "authorise env g verb target hs = Inr (host, port, path)"
  shows "request_licensed env raw g host port"
proof -
  note ok = authorise_Inr [OF assms(3)]
  from assms(2) show ?thesis
    by (rule authenticate_Inr) (use assms(1) ok host_allowed_matches [OF ok(5)] in \<open>unfold request_licensed_def, blast\<close>)
qed

lemma resolve_global:
  "resolve_destination env host port = Inr a \<Longrightarrow> \<exists>ip. ip_address a = Some ip \<and> hl_global (pe_hosts env) ip"
proof -
  have "first_global lib as = Inr a \<Longrightarrow> \<exists>ip. ip_address a = Some ip \<and> hl_global lib ip" for lib as
    by (induction as) (auto split: option.splits if_splits)
  then show "resolve_destination env host port = Inr a \<Longrightarrow> ?thesis"
    by (auto simp: resolve_destination_def split: sum.splits)
qed

section \<open>Properties\<close>

text \<open>
  C5. The proxy reaches out only as licensed. If a connection dials an address, its request
  carried a token that verifies under the configured keys for the proxy, of a run that was not
  revoked, with network authority, for a host its policy names (itself or a parent at a label
  boundary) at an allowed port, and the address is a globally routable one. If bytes flow beyond
  that, the run was not revoked after the connection was made either, the permission is on record,
  and the relay ends with the lifetime of the token.
\<close>

theorem proxy_enforces_grant:
  assumes "Dial address port \<in> set (handle env (Inr raw))"
  shows "\<exists>g host. request_licensed env raw g host port \<and>
    resolve_destination env host port = Inr address \<and>
    (\<exists>ip. ip_address address = Some ip \<and> hl_global (pe_hosts env) ip) \<and>
    (\<forall>d. Relay d \<in> set (handle env (Inr raw)) \<longrightarrow>
       \<not> revoked_at env 2 g \<and> d = remaining_time env g \<and>
       (\<exists>verb. record_event g (Some host) (Some port) (Some verb) ''allowed'' None (Some address)
          \<in> set (handle env (Inr raw))))"
proof -
  have reach: "Dial address port \<in> range (\<lambda>(a, p). Dial a p) \<union> range Relay \<union> range Forward \<union> range Established"
    by auto
  from assms reach obtain verb target protocol hs g host port' path where
    parsed: "parse_request raw = Some ((verb, target, protocol), hs)" and g: "authenticate env hs = Inr g" and
    dest: "authorise env g verb target hs = Inr (host, port', path)" and
    dial: "Dial address port \<in> set (connect_upstream env g verb protocol hs (host, port', path))"
    by (rule handle_reaches)
  have run: "handle env (Inr raw) = connect_upstream env g verb protocol hs (host, port', path)"
    by (simp add: handle_def parsed g dest)
  from dial have resolved: "resolve_destination env host port = Inr address" "port' = port"
    using answer_only_replies(1) [of address port]
    by (auto simp: connect_upstream_def record_event_def blocked_event_def
        split: sum.splits option.splits if_splits relay_end.splits)
  have "\<not> revoked_at env 2 g \<and> d = remaining_time env g \<and>
      record_event g (Some host) (Some port) (Some verb) ''allowed'' None (Some address) \<in> set (handle env (Inr raw))"
    if "Relay d \<in> set (handle env (Inr raw))" for d
    using that answer_only_replies(2) [of d] unfolding run
    by (auto simp: connect_upstream_def resolved record_event_def blocked_event_def
        split: option.splits if_splits relay_end.splits)
  with reaches_licensed [OF parsed g dest] resolve_global [OF resolved(1)] resolved show ?thesis by blast
qed

definition demo_claims :: token_request where
  "demo_claims = demo_request\<lparr>tq_hosts := [''example.com'']\<rparr>"

text \<open>A library that knows one token, issued at 5 s for 300 s.\<close>

definition one_token_jwt :: "(unit, unit, string) token_lib" where
  "one_token_jwt =
     \<lparr>tl_encode = (\<lambda>_ _ _. ''x''), tl_header = (\<lambda>_. Some (token_headers (key_id demo_crypto ()))),
      tl_decode = (\<lambda>_ _ _ _. Some (token_claims demo_claims (tq_hosts demo_claims) ''j'' 5000000)),
      tl_datetime = Inr\<rparr>"

definition demo_lib :: host_lib where
  "demo_lib = \<lparr>hl_idna = (\<lambda>_. None), hl_global = (\<lambda>_. True), hl_compressed = (\<lambda>_. [])\<rparr>"

definition demo_proxy :: "revocations \<Rightarrow> (unit, unit) proxy_env" where
  "demo_proxy st =
     \<lparr>pe_settings = \<lparr>px_allowed_ports = ''80,443'', px_public_key = None, px_public_key_file = None,
        px_public_keys = [(key_id demo_crypto (), ''pem'')], px_public_keys_file = None, px_redis_url = None,
        px_redis_host = None, px_redis_port = 6379\<rparr>,
      pe_crypto = demo_crypto, pe_jwt = one_token_jwt, pe_hosts = demo_lib, pe_read_text = (\<lambda>_. None),
      pe_netloc_ok = (\<lambda>_. True), pe_clock = (\<lambda>_. 6000000), pe_store = (\<lambda>_. st),
      pe_getaddrinfo = (\<lambda>_ _. Inr [''0.0.0.1'']), pe_open = (\<lambda>_ _. None), pe_relay = RelayDone\<rparr>"

definition demo_raw :: string where
  "demo_raw =
     ''GET http://www.example.com/a?b HTTP/1.1'' @ crlf @ ''Proxy-Authorization: Bearer x'' @ crlf @ crlf"

definition demo_headers :: headers where
  "demo_headers = [(''proxy-authorization'', ''Bearer x'')]"

lemma demo_parsed:
  "parse_request demo_raw = Some ((''GET'', ''http://www.example.com/a?b'', ''HTTP/1.1''), demo_headers)"
  by code_simp

lemma demo_authenticated: "authenticate (demo_proxy st) demo_headers = Inr (grant_of demo_claims ''j'' 5000000)"
proof -
  have host: "list_all (\<lambda>h. normalize_host demo_lib h = Inr h) (tq_hosts demo_claims)" by code_simp
  have dates: "dates_seconds one_token_jwt" by (simp add: dates_seconds_def one_token_jwt_def)
  have ttl: "tq_ttl demo_claims = 300" by (simp add: demo_claims_def demo_request_def)
  have claims: "check_claims one_token_jwt demo_lib 6000000
      (token_claims demo_claims (tq_hosts demo_claims) ''j'' 5000000) = Inr (grant_of demo_claims ''j'' 5000000)"
    by (rule check_issued_claims [OF dates host]) (simp_all add: ttl seconds_def last_second_def)
  have token: "proxy_token demo_headers = Some ''x''" by code_simp
  have ring: "public_keyring demo_crypto (\<lambda>_. None) (pe_settings (demo_proxy st)) =
      Inr [(key_id demo_crypto (), ''pem'')]"
    by (simp add: public_keyring_def demo_proxy_def given_def public_key_pem_def update_all_def
        authority_public_keyring_def demo_crypto_def [THEN arg_cong, of load_public])
  have "verify_authority_token demo_crypto one_token_jwt demo_lib [(key_id demo_crypto (), ''pem'')] egress_audience
      None 6000000 ''x'' = Inr (grant_of demo_claims ''j'' 5000000)"
    using claims
    by (simp add: verify_authority_token_def authority_public_keyring_def one_token_jwt_def token_headers_def
        demo_crypto_def [THEN arg_cong, of load_public] dget_def)
  then show ?thesis
    using ring token by (simp add: authenticate_def demo_proxy_def)
qed

lemma demo_dials: "Dial ''0.0.0.1'' 80 \<in> set (handle (demo_proxy (InMemory (\<lambda>_. None))) (Inr demo_raw))"
proof -
  let ?env = "demo_proxy (InMemory (\<lambda>_. None))" and ?g = "grant_of demo_claims ''j'' 5000000"
  have dest: "destination (\<lambda>_. True) ''GET'' ''http://www.example.com/a?b'' demo_headers =
      Some (''www.example.com'', 80, ''/a?b'')" by code_simp
  have ports: "80 \<in> allowed_port_set (pe_settings ?env)"
  proof -
    have "px_allowed_ports (pe_settings ?env) = ''80,443''" by (simp add: demo_proxy_def)
    moreover have "80 \<in> set (List.map_filter port_number (split_char (CHR '','') ''80,443''))" by code_simp
    ultimately show ?thesis by (simp only: allowed_port_set_def)
  qed
  have netloc: "pe_netloc_ok ?env = (\<lambda>_. True)" by (simp add: demo_proxy_def)
  have host: "normalize_host demo_lib ''www.example.com'' = Inr ''www.example.com''"
    "host_matches ''www.example.com'' ''example.com''" by code_simp+
  have "host_allowed ?env ?g ''www.example.com''"
    using host by (simp add: host_allowed_def grant_permits_host_def grant_of_def demo_proxy_def demo_claims_def)
  moreover have "gt_capabilities ?g \<inter> network_group \<noteq> {}"
    by (simp add: grant_of_def demo_claims_def demo_request_def network_group_def)
  moreover have "\<not> revoked_at ?env 1 ?g" by (simp add: revoked_at_def demo_proxy_def purge_memory_def)
  ultimately have "authorise ?env ?g ''GET'' ''http://www.example.com/a?b'' demo_headers =
      Inr (''www.example.com'', 80, ''/a?b'')"
    unfolding authorise_def netloc dest using ports by (simp only: if_False option.case prod.case not_True_eq_False if_True simp_thms)
  moreover have "resolve_destination ?env ''www.example.com'' 80 = Inr ''0.0.0.1''"
  proof -
    have "first_global demo_lib [''0.0.0.1''] = Inr ''0.0.0.1''" by code_simp
    then show ?thesis by (simp add: resolve_destination_def demo_proxy_def del: first_global.simps)
  qed
  ultimately show ?thesis
    by (simp add: handle_def demo_parsed demo_authenticated connect_upstream_def)
qed

theorem proxy_enforces_grant_witness:
  "\<exists>g host. request_licensed (demo_proxy (InMemory (\<lambda>_. None))) demo_raw g host 80"
  using proxy_enforces_grant [OF demo_dials] by blast

section \<open>Revoked runs\<close>

lemma expiry_norm_dec: "0 \<le> e \<Longrightarrow> expiry_micros (norm_dec m e) = m * 10 ^ nat e * 1000000"
proof (induction m e rule: norm_dec.induct)
  case (1 m e)
  show ?case
  proof (cases "m \<noteq> 0 \<and> m mod 10 = 0")
    case True
    then obtain k where "m = 10 * k" by auto
    with True 1 show ?thesis
      by (subst norm_dec.simps) (simp add: nat_add_distrib algebra_simps)
  next
    case False
    then show ?thesis using 1(2) by (subst norm_dec.simps) auto
  qed
qed

lemma issued_expiry:
  "expiry_micros (gt_expires (grant_of q jti now)) = (seconds now + max 1 (tq_ttl q)) * 1000000"
  by (simp add: grant_of_def expiry_norm_dec del: norm_dec.simps)

text \<open>A revocation by a control token, as one of the operations its store serves.\<close>

lemma post_revocation_serves:
  assumes "control_grant env keys authorization clock = Inr g"
  shows "snd (post_revocation env keys authorization clock st) =
    serve [(clock, Withdraw (gt_run_id g) (expiry_micros (gt_expires g)))] st"
  using assms by (simp add: post_revocation_def)

text \<open>
  C7. A revoked run stays out. Once a control token of a run has been posted, whatever else the
  store of the revocations served since and whichever backend keeps it, no token of the run that
  was issued no later with the same lifetime opens a connection again: such a request is refused
  as long as its token has not expired.
\<close>

theorem revoked_run_stays_out:
  assumes served: "list_all (\<lambda>(t, _). 0 \<le> t \<and> t \<le> pe_clock env 1) ops"
      "pe_store env 0 = serve ops (empty_store database redis)"
    and control: "(t, Withdraw (tq_run qc) (expiry_micros (gt_expires (grant_of qc jc revoked)))) \<in> set ops"
    and issued: "0 \<le> now" "now \<le> revoked" "tq_run q = tq_run qc" "tq_ttl q = tq_ttl qc"
    and request: "parse_request raw = Some (line, hs)" "authenticate env hs = Inr (grant_of q jti now)"
    and unexpired: "pe_clock env 1 < (seconds now + max 1 (tq_ttl q)) * 1000000"
  shows "handle env (Inr raw) = [Reply 403]"
proof -
  let ?e = "expiry_micros (gt_expires (grant_of qc jc revoked))"
  have "seconds now \<le> seconds revoked" using issued(2) by (simp add: seconds_def zdiv_mono1)
  then have "(seconds now + max 1 (tq_ttl q)) * 1000000 \<le> ?e"
    unfolding issued_expiry issued(4) by (intro mult_right_mono) auto
  with unexpired have "pe_clock env 1 < ?e" by linarith
  then have "live (pe_clock env 1) (pe_store env 0) (tq_run qc) \<noteq> None"
    using serve_live [OF keyed_empty(1) served(1), of database redis "tq_run qc"] control
    unfolding served(2) by blast
  moreover have "keyed (pe_store env 0)"
    unfolding served(2) using serve_live [OF keyed_empty(1) served(1)] by blast
  ultimately have "revoked_at env 1 (grant_of q jti now)"
    using issued(3) by (simp add: revoked_at_def is_revoked_live grant_of_def)
  then show ?thesis
    using request by (cases line) (simp add: handle_def authorise_def)
qed

definition demo_control :: token_request where
  "demo_control = demo_claims\<lparr>tq_audience := control_audience\<rparr>"

definition demo_revocations :: "(int \<times> request) list" where
  "demo_revocations =
     [(5500000, Withdraw ''t:0'' (expiry_micros (gt_expires (grant_of demo_control ''k'' 5500000)))),
      (5600000, Query ''other'')]"

theorem revoked_run_stays_out_witness:
  "handle (demo_proxy (serve demo_revocations (empty_store True False))) (Inr demo_raw) = [Reply 403] \<and>
   Dial ''0.0.0.1'' 80 \<in> set (handle (demo_proxy (InMemory (\<lambda>_. None))) (Inr demo_raw))"
proof -
  let ?env = "demo_proxy (serve demo_revocations (empty_store True False))"
  have clock: "pe_clock (demo_proxy s) n = 6000000" for s n by (simp add: demo_proxy_def)
  have st: "pe_store ?env 0 = serve demo_revocations (empty_store True False)" by (simp add: demo_proxy_def)
  have run: "tq_run demo_control = ''t:0''" "tq_run demo_claims = tq_run demo_control" "tq_ttl demo_claims = tq_ttl demo_control"
      "tq_ttl demo_control = 300"
    by (simp_all add: demo_control_def demo_claims_def demo_request_def)
  have "handle ?env (Inr demo_raw) = [Reply 403]"
  proof (rule revoked_run_stays_out [OF _ st _ _ _ run(2,3) demo_parsed demo_authenticated])
    show "list_all (\<lambda>(t, _). 0 \<le> t \<and> t \<le> pe_clock ?env 1) demo_revocations"
      by (simp add: clock demo_revocations_def)
    show "(5500000, Withdraw (tq_run demo_control) (expiry_micros (gt_expires (grant_of demo_control ''k'' 5500000))))
        \<in> set demo_revocations"
      by (simp add: demo_revocations_def run)
  qed (simp_all add: clock run seconds_def)
  with demo_dials show ?thesis by blast
qed

end
