(* ===== verification/Egress_Race.thy ===== *)
theory Egress_Race
  imports Egress_Proxy Transition
begin

text \<open>
  Connections of the proxy and revocations side by side. A handler gives up control at every
  \<^verbatim>\<open>await\<close>, so between its two questions to the revocation store, and between its last question and
  the relay, revocations of other sessions may run. The steps below are the pieces between the
  awaits: of \<open>handle\<close> (the handler registers its writers before it asks), of \<^verbatim>\<open>EgressProxy.revoke\<close>
  (which closes the writers registered at that moment) and of the route that posts a revocation
  (which stores it first). What holds of every interleaving is proved from what the store promises.
\<close>

section \<open>What a handler relies on\<close>

text \<open>\<open>until now s r\<close> is the expiry of the revocation of \<open>r\<close> if it lies in the future.\<close>

locale withdrawal_store =
  fixes withdraw :: "int \<Rightarrow> string \<Rightarrow> int \<Rightarrow> 's \<Rightarrow> 's"
    and ask :: "int \<Rightarrow> string \<Rightarrow> 's \<Rightarrow> bool \<times> 's"
    and sound :: "'s \<Rightarrow> bool"
    and until :: "int \<Rightarrow> 's \<Rightarrow> string \<Rightarrow> int option"
  assumes withdraw_sound: "sound s \<Longrightarrow> 0 \<le> now \<Longrightarrow> sound (withdraw now r e s)"
    and withdraw_until: "sound s \<Longrightarrow> 0 \<le> now \<Longrightarrow> now \<le> later \<Longrightarrow> later < e \<Longrightarrow>
        \<exists>e'. until later (withdraw now r e s) r = Some e' \<and> e \<le> e'"
    and withdraw_keeps: "sound s \<Longrightarrow> 0 \<le> now \<Longrightarrow> now \<le> later \<Longrightarrow> until later s r = Some x \<Longrightarrow>
        \<exists>e'. until later (withdraw now r' e s) r = Some e' \<and> x \<le> e'"
    and ask_sound: "sound s \<Longrightarrow> sound (snd (ask now r s))"
    and ask_keeps: "sound s \<Longrightarrow> now \<le> later \<Longrightarrow> until later (snd (ask now r s)) = until later s"
    and ask_answers: "sound s \<Longrightarrow> fst (ask now r s) \<longleftrightarrow> until now s r \<noteq> None"
begin

definition holds :: "int \<Rightarrow> 's \<Rightarrow> string \<times> int \<Rightarrow> bool" where
  "holds now s w \<longleftrightarrow>
     (\<forall>later \<ge> now. later < snd w \<longrightarrow> (\<exists>e. until later s (fst w) = Some e \<and> snd w \<le> e))"

lemma holds_later: "holds now s w \<Longrightarrow> now \<le> now' \<Longrightarrow> holds now' s w"
  by (auto simp: holds_def)

lemma holds_asked: "sound s \<Longrightarrow> holds now s w \<Longrightarrow> holds now (snd (ask now r s)) w"
  by (simp add: holds_def ask_keeps)

lemma holds_withdrawn: "sound s \<Longrightarrow> 0 \<le> now \<Longrightarrow> holds now (withdraw now r e s) (r, e)"
  unfolding holds_def using withdraw_until by fastforce

lemma holds_withdraw:
  assumes "sound s" "0 \<le> now" "holds now s w"
  shows "holds now (withdraw now r e s) w"
  unfolding holds_def
proof (intro allI impI)
  fix later assume later: "now \<le> later" "later < snd w"
  then obtain x where "until later s (fst w) = Some x" "snd w \<le> x"
    using assms(3) unfolding holds_def by blast
  with withdraw_keeps [OF assms(1,2) later(1), of "fst w" x r e]
  show "\<exists>e'. until later (withdraw now r e s) (fst w) = Some e' \<and> snd w \<le> e'" by fastforce
qed

lemma holds_answers: "sound s \<Longrightarrow> holds now s (r, e) \<Longrightarrow> now < e \<Longrightarrow> fst (ask now r s)"
  unfolding holds_def ask_answers by fastforce

end

interpretation rv: withdrawal_store revoke is_revoked keyed live
proof unfold_locales
  fix s now later r r' e x
  show "keyed s \<Longrightarrow> 0 \<le> now \<Longrightarrow> keyed (revoke now r e s)"
    by (rule revoke_live(1) [OF _ _ order_refl])
  show "\<exists>e'. live later (revoke now r e s) r = Some e' \<and> e \<le> e'"
    if "keyed s" "0 \<le> now" "now \<le> later" "later < e"
    using that(4) by (simp add: revoke_live(2) [OF that(1-3)] split: option.split)
  show "\<exists>e'. live later (revoke now r' e s) r = Some e' \<and> x \<le> e'"
    if "keyed s" "0 \<le> now" "now \<le> later" "live later s r = Some x"
    using that(4) by (auto simp: revoke_live(2) [OF that(1-3)])
  show "keyed s \<Longrightarrow> keyed (snd (is_revoked now r s))"
    by (rule live_purged(1) [OF _ order_refl])
  show "keyed s \<Longrightarrow> now \<le> later \<Longrightarrow> live later (snd (is_revoked now r s)) = live later s"
    by (rule live_purged(2))
  show "keyed s \<Longrightarrow> fst (is_revoked now r s) \<longleftrightarrow> live now s r \<noteq> None"
    by (rule is_revoked_live)
qed

section \<open>The steps\<close>

datatype stage = Registered | Resolving | Connected | Relaying

record conn =
  cn_run :: string
  cn_stage :: stage
  cn_open :: bool

record proxy_state =
  ps_clock :: int
  ps_store :: revocations
  ps_conns :: "(nat \<times> conn) list"
  ps_stored :: "(string \<times> int) list"
  ps_revoked :: "(string \<times> int) list"

text \<open>
  \<open>Accept\<close>: a token of the run verifies and its writer is registered. \<open>Ask\<close>: a question to the store
  is answered; a revoked run's connection leaves. \<open>Opened\<close>: the connection upstream is made and its
  writer registered. \<open>Leave\<close>: the handler ends, for any reason. \<open>Store\<close>, \<open>Close\<close>: the two halves of a
  revocation.
\<close>

datatype proxy_step =
    Tick int
  | Accept nat string
  | Ask nat
  | Opened nat
  | Leave nat
  | Store string int
  | Close string int

definition advance :: "stage \<Rightarrow> stage option" where
  "advance st = (case st of Registered \<Rightarrow> Some Resolving | Connected \<Rightarrow> Some Relaying | _ \<Rightarrow> None)"

definition close_run_conns :: "string \<Rightarrow> (nat \<times> conn) list \<Rightarrow> (nat \<times> conn) list" where
  "close_run_conns r cs = map (\<lambda>(i, c). (i, if cn_run c = r then c\<lparr>cn_open := False\<rparr> else c)) cs"

fun proxy_move :: "proxy_state \<Rightarrow> proxy_step \<Rightarrow> proxy_state option" where
  "proxy_move s (Tick t) = (if ps_clock s \<le> t then Some (s\<lparr>ps_clock := t\<rparr>) else None)"
| "proxy_move s (Accept i r) =
     (if i \<in> fst ` set (ps_conns s) then None
      else Some (s\<lparr>ps_conns := (i, \<lparr>cn_run = r, cn_stage = Registered, cn_open = True\<rparr>) # ps_conns s\<rparr>))"
| "proxy_move s (Ask i) =
     (case map_of (ps_conns s) i of
        None \<Rightarrow> None
      | Some c \<Rightarrow>
          (case advance (cn_stage c) of
             None \<Rightarrow> None
           | Some st \<Rightarrow>
               (case is_revoked (ps_clock s) (cn_run c) (ps_store s) of
                  (revoked, store) \<Rightarrow>
                    Some (s\<lparr>ps_store := store,
                      ps_conns := (if revoked then AList.delete i (ps_conns s)
                        else AList.update i (c\<lparr>cn_stage := st\<rparr>) (ps_conns s))\<rparr>))))"
| "proxy_move s (Opened i) =
     (case map_of (ps_conns s) i of
        None \<Rightarrow> None
      | Some c \<Rightarrow>
          if cn_stage c = Resolving
          then Some (s\<lparr>ps_conns := AList.update i (c\<lparr>cn_stage := Connected\<rparr>) (ps_conns s)\<rparr>) else None)"
| "proxy_move s (Leave i) = Some (s\<lparr>ps_conns := AList.delete i (ps_conns s)\<rparr>)"
| "proxy_move s (Store r e) =
     Some (s\<lparr>ps_store := revoke (ps_clock s) r e (ps_store s), ps_stored := (r, e) # ps_stored s\<rparr>)"
| "proxy_move s (Close r e) =
     (if (r, e) \<in> set (ps_stored s)
      then Some (s\<lparr>ps_conns := close_run_conns r (ps_conns s), ps_revoked := (r, e) # ps_revoked s\<rparr>) else None)"

definition quiet_proxy :: "bool \<Rightarrow> bool \<Rightarrow> proxy_state" where
  "quiet_proxy database redis =
     \<lparr>ps_clock = 0, ps_store = empty_store database redis, ps_conns = [], ps_stored = [], ps_revoked = []\<rparr>"

section \<open>The invariant\<close>

definition proxy_inv :: "proxy_state \<Rightarrow> bool" where
  "proxy_inv s \<longleftrightarrow>
     keyed (ps_store s) \<and> 0 \<le> ps_clock s \<and> set (ps_revoked s) \<subseteq> set (ps_stored s) \<and>
     (\<forall>w \<in> set (ps_stored s). rv.holds (ps_clock s) (ps_store s) w) \<and>
     (\<forall>(r, e) \<in> set (ps_revoked s). ps_clock s < e \<longrightarrow>
        (\<forall>(i, c) \<in> set (ps_conns s). cn_run c = r \<and> cn_stage c = Relaying \<longrightarrow> \<not> cn_open c))"

lemma set_update_subset: "set (AList.update i c cs) \<subseteq> insert (i, c) (set cs)"
  by (induction cs) auto

lemma set_delete_subset: "set (AList.delete i cs) \<subseteq> set cs"
  by (auto simp: AList.delete_eq)

text \<open>Connections may only leave, or be replaced by one that does not relay an open stream.\<close>

lemma inv_conns:
  assumes "proxy_inv s" "set cs \<subseteq> set (ps_conns s) \<union> new"
    and "\<And>i c r e. (i, c) \<in> new \<Longrightarrow> (cn_run c, e) \<in> set (ps_revoked s) \<Longrightarrow> ps_clock s < e \<Longrightarrow>
      cn_stage c = Relaying \<Longrightarrow> \<not> cn_open c"
  shows "proxy_inv (s\<lparr>ps_conns := cs\<rparr>)"
  using assms unfolding proxy_inv_def by (fastforce split: prod.splits)

lemma inv_parts:
  assumes "proxy_inv s"
  shows "keyed (ps_store s)" "0 \<le> ps_clock s"
    and "w \<in> set (ps_stored s) \<Longrightarrow> rv.holds (ps_clock s) (ps_store s) w"
    and "w \<in> set (ps_revoked s) \<Longrightarrow> rv.holds (ps_clock s) (ps_store s) w"
  using assms unfolding proxy_inv_def by auto

lemma inv_tick: "proxy_inv s \<Longrightarrow> ps_clock s \<le> t \<Longrightarrow> proxy_inv (s\<lparr>ps_clock := t\<rparr>)"
  unfolding proxy_inv_def by (fastforce dest: rv.holds_later split: prod.splits)

text \<open>A question that is answered with no was asked before any revocation still in force.\<close>

lemma inv_ask:
  assumes "proxy_inv s" "map_of (ps_conns s) i = Some c" "is_revoked (ps_clock s) (cn_run c) (ps_store s) = (b, store)"
  shows "proxy_inv (s\<lparr>ps_store := store,
    ps_conns := (if b then AList.delete i (ps_conns s) else AList.update i (c\<lparr>cn_stage := st\<rparr>) (ps_conns s))\<rparr>)"
proof -
  note inv = inv_parts [OF assms(1)]
  have store: "store = snd (is_revoked (ps_clock s) (cn_run c) (ps_store s))"
    and b: "b = fst (is_revoked (ps_clock s) (cn_run c) (ps_store s))" by (simp_all add: assms(3))
  have kept: "proxy_inv (s\<lparr>ps_store := store\<rparr>)"
    using assms(1) rv.ask_sound [OF inv(1)] rv.holds_asked [OF inv(1)]
    by (simp add: proxy_inv_def store)
  show ?thesis
  proof (cases b)
    case True
    show ?thesis
      using inv_conns [OF kept, of "AList.delete i (ps_conns s)" "{}"] set_delete_subset True by fastforce
  next
    case False
    have "\<not> ps_clock s < e" if "(cn_run c, e) \<in> set (ps_revoked s)" for e
      using False rv.holds_answers [OF inv(1) inv(4) [OF that]] b by blast
    then show ?thesis
      using inv_conns [OF kept, of "AList.update i (c\<lparr>cn_stage := st\<rparr>) (ps_conns s)" "{(i, c\<lparr>cn_stage := st\<rparr>)}"]
        set_update_subset [of i "c\<lparr>cn_stage := st\<rparr>" "ps_conns s"] False
      by fastforce
  qed
qed

lemma inv_store:
  assumes "proxy_inv s"
  shows "proxy_inv (s\<lparr>ps_store := revoke (ps_clock s) r e (ps_store s), ps_stored := (r, e) # ps_stored s\<rparr>)"
proof -
  note inv = inv_parts [OF assms]
  show ?thesis
    using assms rv.withdraw_sound [OF inv(1,2)] rv.holds_withdrawn [OF inv(1,2)] rv.holds_withdraw [OF inv(1,2)]
    unfolding proxy_inv_def by auto
qed

lemma inv_close:
  assumes "proxy_inv s" "(r, e) \<in> set (ps_stored s)"
  shows "proxy_inv (s\<lparr>ps_conns := close_run_conns r (ps_conns s), ps_revoked := (r, e) # ps_revoked s\<rparr>)"
  using assms unfolding proxy_inv_def close_run_conns_def by (fastforce split: prod.splits if_splits)

lemma proxy_move_inv: "proxy_inv s \<Longrightarrow> proxy_move s m = Some t \<Longrightarrow> proxy_inv t"
proof (induction s m rule: proxy_move.induct)
  case (1 s t')
  then show ?case by (auto intro: inv_tick split: if_splits)
next
  case (2 s i r)
  then show ?case
    using inv_conns [OF 2(1), of "(i, \<lparr>cn_run = r, cn_stage = Registered, cn_open = True\<rparr>) # ps_conns s"
        "{(i, \<lparr>cn_run = r, cn_stage = Registered, cn_open = True\<rparr>)}"]
    by (auto split: if_splits)
next
  case (3 s i)
  then show ?case by (auto intro: inv_ask split: option.splits prod.splits)
next
  case (4 s i)
  then obtain c where "map_of (ps_conns s) i = Some c" "cn_stage c = Resolving"
    "t = s\<lparr>ps_conns := AList.update i (c\<lparr>cn_stage := Connected\<rparr>) (ps_conns s)\<rparr>"
    by (auto split: option.splits if_splits)
  then show ?case
    using inv_conns [OF 4(1), of "AList.update i (c\<lparr>cn_stage := Connected\<rparr>) (ps_conns s)"
        "{(i, c\<lparr>cn_stage := Connected\<rparr>)}"] set_update_subset [of i "c\<lparr>cn_stage := Connected\<rparr>" "ps_conns s"] by auto
next
  case (5 s i)
  then show ?case using inv_conns [OF 5(1), of "AList.delete i (ps_conns s)" "{}"] set_delete_subset by fastforce
next
  case (6 s r e)
  then show ?case by (auto intro: inv_store)
next
  case (7 s r e)
  then show ?case by (auto intro: inv_close split: if_splits)
qed

interpretation px: invariant_machine proxy_move proxy_inv
  by unfold_locales (rule proxy_move_inv)

lemma quiet_inv: "proxy_inv (quiet_proxy database redis)"
  by (simp add: proxy_inv_def quiet_proxy_def keyed_empty)

text \<open>
  C6. No connection survives the revocation of its run. In every interleaving of connections and
  revocations, with any backend: once a revocation has returned, and until the expiry it was posted
  with, no connection of the run relays over an open stream, whether it was already relaying, was
  between its questions to the store, or came later; and until then every further question about the
  run is answered with yes.
\<close>

theorem revoked_connections_closed:
  assumes "exec proxy_move (quiet_proxy database redis) steps = Some s"
    and "(r, e) \<in> set (ps_revoked s)" "ps_clock s < e"
  shows "(\<forall>i c. (i, c) \<in> set (ps_conns s) \<and> cn_run c = r \<and> cn_stage c = Relaying \<longrightarrow> \<not> cn_open c) \<and>
    fst (is_revoked (ps_clock s) r (ps_store s))"
proof -
  have inv: "proxy_inv s" using px.run_inv [OF quiet_inv assms(1)] .
  then have "\<forall>(i, c) \<in> set (ps_conns s). cn_run c = r \<and> cn_stage c = Relaying \<longrightarrow> \<not> cn_open c"
    using assms(2,3) unfolding proxy_inv_def by blast
  moreover have "fst (is_revoked (ps_clock s) r (ps_store s))"
    using rv.holds_answers [OF inv_parts(1) [OF inv] inv_parts(4) [OF inv assms(2)] assms(3)] .
  ultimately show ?thesis by blast
qed

text \<open>One connection relays when the revocation comes, another is between its two questions.\<close>

definition race :: "proxy_step list" where
  "race =
     [Accept 1 ''r'', Ask 1, Opened 1, Ask 1, Accept 2 ''r'', Ask 2, Opened 2, Store ''r'' 100, Ask 2,
      Close ''r'' 100, Tick 50]"

lemma race_runs:
  "case exec proxy_move (quiet_proxy True False) race of
     None \<Rightarrow> False
   | Some s \<Rightarrow> ps_clock s = 50 \<and> ps_revoked s = [(''r'', 100)] \<and> map fst (ps_conns s) = [1] \<and>
       list_all (\<lambda>(i, c). cn_run c = ''r'' \<and> cn_stage c = Relaying) (ps_conns s)"
  by code_simp

theorem revoked_connections_closed_witness:
  "\<exists>s. exec proxy_move (quiet_proxy True False) race = Some s \<and> map fst (ps_conns s) = [1] \<and>
     list_all (\<lambda>(i, c). cn_stage c = Relaying \<and> \<not> cn_open c) (ps_conns s)"
proof -
  obtain s where s: "exec proxy_move (quiet_proxy True False) race = Some s" "ps_clock s = 50"
      "ps_revoked s = [(''r'', 100)]" "map fst (ps_conns s) = [1]"
      "list_all (\<lambda>(i, c). cn_run c = ''r'' \<and> cn_stage c = Relaying) (ps_conns s)"
    using race_runs by (auto split: option.splits)
  with revoked_connections_closed [OF s(1), of "''r''" 100] show ?thesis
    by (auto simp: list_all_iff)
qed

end
