(* ===== verification/Contract_Address.thy ===== *)
theory Contract_Address
  imports Contract_Safety
begin

text \<open>
  The content address of a contract. What the service stores reads back as the draft it hashed,
  so a locked contract verifies against its own hash; and a stored contract that verifies holds
  the criteria and checks that were locked, unless SHA-256 collides on the two texts.
\<close>

section \<open>Checks that fit their model\<close>

text \<open>A check within its model's limits whose criteria are among the first twelve.\<close>

definition placed_check :: "contract_check \<Rightarrow> bool" where
  "placed_check c \<longleftrightarrow> wf_check c \<and> set (cc_criteria c) \<subseteq> set (criterion_ids_upto 12)"

lemma criterion_ids_upto_mono: "m \<le> n \<Longrightarrow> set (criterion_ids_upto m) \<subseteq> set (criterion_ids_upto n)"
  by (auto simp: set_criterion_ids_upto)

lemma length_sorted_ids: "set xs \<subseteq> set (criterion_ids_upto 12) \<Longrightarrow> length (sorted_set xs) \<le> 12"
proof -
  assume "set xs \<subseteq> set (criterion_ids_upto 12)"
  then have "card (set (sorted_set xs)) \<le> card (set (criterion_ids_upto 12))"
    by (intro card_mono) auto
  moreover have "card (set (sorted_set xs)) = length (sorted_set xs)"
    by (rule distinct_card) (simp add: sorted_set_def)
  moreover have "card (set (criterion_ids_upto 12)) = 12"
    using distinct_card [OF distinct_criterion_ids_upto, of 12] by simp
  ultimately show ?thesis by simp
qed

lemma wf_check_criteria: "wf_check c \<Longrightarrow> length ids \<le> 12 \<Longrightarrow> wf_check (c\<lparr>cc_criteria := ids\<rparr>)"
  by (simp add: wf_check_def target_given_def split: contract_kind.splits)

lemma placed_criteria:
  "placed_check c \<Longrightarrow> set ids \<subseteq> set (criterion_ids_upto 12) \<Longrightarrow> placed_check (c\<lparr>cc_criteria := sorted_set ids\<rparr>)"
  by (simp add: placed_check_def wf_check_criteria length_sorted_ids)

lemma placed_with_criteria:
  "placed_check c \<Longrightarrow> set ids \<subseteq> set (criterion_ids_upto 12) \<Longrightarrow> placed_check (with_criteria ids c)"
  unfolding with_criteria_def by (rule placed_criteria) (auto simp: placed_check_def)

lemma gather_placed:
  "list_all placed_check (map snd found) \<Longrightarrow> list_all placed_check cs \<Longrightarrow>
     list_all placed_check (map snd (gather_checks found cs))"
proof (induction found cs rule: gather_checks.induct)
  case (2 found c cs)
  show ?case
  proof (cases "map_of found (check_identity c)")
    case None
    with 2 show ?thesis by simp
  next
    case (Some existing)
    then have "existing \<in> snd ` set found" by (force dest: map_of_SomeD)
    then have "placed_check existing" using 2(3) by (auto simp: list_all_iff)
    then have "placed_check (with_criteria (cc_criteria c) existing)"
      using 2(4) by (intro placed_with_criteria) (auto simp: placed_check_def)
    then have "list_all placed_check (map snd (AList.update (check_identity c) (with_criteria (cc_criteria c) existing) found))"
      using 2(3) by (induction found) (auto simp: list_all_iff)
    with 2 Some show ?thesis by simp
  qed
qed simp

text \<open>The criteria a check dictionary names, when they are among the first twelve.\<close>

definition names_known :: "jdict \<Rightarrow> bool" where
  "names_known d \<longleftrightarrow>
     map_of d ''criterion_ids'' = None \<or>
     (\<exists>xs. map_of d ''criterion_ids'' = Some (json_strs xs) \<and> set xs \<subseteq> set (criterion_ids_upto 12))"

lemma names_known_placed:
  assumes "check_of_dict co d = Inr c" "names_known d"
  shows "placed_check c"
proof -
  have "field d ''criterion_ids'' (Inr []) (list_field 12 plain_text) = Inr (cc_criteria c)"
    using assms(1) by (auto simp: check_of_dict_def rbind_Inr Let_def split: if_splits)
  then have "set (cc_criteria c) \<subseteq> set (criterion_ids_upto 12)"
    using assms(2)
    by (auto simp: names_known_def field_def json_strs_def map_result_map split: if_splits)
  then show ?thesis using check_of_dict_wf [OF assms(1)] by (simp add: placed_check_def)
qed

lemma names_known_dset [simp]:
  "k \<noteq> ''criterion_ids'' \<Longrightarrow> names_known (dset k v d) = names_known d"
  by (simp add: names_known_def dset_def update_conv')

lemma normalized_names: "d \<in> set (normalize_checks (criterion_ids_upto (min n 12)) raws) \<Longrightarrow> names_known d"
proof -
  assume "d \<in> set (normalize_checks (criterion_ids_upto (min n 12)) raws)"
  then obtain i raw where d: "d = normalize_check (criterion_ids_upto (min n 12)) i raw"
    by (auto simp: normalize_checks_def split: json.splits)
  have "set (criterion_ids_upto (min n 12)) \<subseteq> set (criterion_ids_upto 12)"
    by (rule criterion_ids_upto_mono) simp
  then show ?thesis
    unfolding d names_known_def normalize_check_def Let_def
    by (simp add: dset_def update_conv') (auto intro!: exI)
qed

lemma mentioned_by_known: "length criteria \<le> 12 \<Longrightarrow> set (mentioned_by criteria artifact) \<subseteq> set (criterion_ids_upto 12)"
  by (auto simp: mentioned_by_def set_criterion_ids_upto in_set_enumerate_eq)

lemma artifacts_names:
  "length criteria \<le> 12 \<Longrightarrow> list_all names_known checks \<Longrightarrow>
     list_all names_known (add_artifacts criteria known artifacts checks)"
proof (induction criteria known artifacts checks rule: add_artifacts.induct)
  case (2 criteria known artifact artifacts checks)
  have "names_known (artifact_check criteria (length checks + 1) artifact)"
    using mentioned_by_known [OF 2(3), of artifact] unfolding names_known_def artifact_check_def by auto
  with 2 show ?case by simp
qed simp

lemma map_result_all:
  "map_result f xs = Inr ys \<Longrightarrow> (\<And>x y. x \<in> set xs \<Longrightarrow> f x = Inr y \<Longrightarrow> P y) \<Longrightarrow> list_all P ys"
proof (induction xs arbitrary: ys)
  case (Cons x xs)
  from Cons.prems(1) obtain y zs where y: "f x = Inr y" "map_result f xs = Inr zs" "ys = y # zs"
    by (auto simp: rbind_Inr)
  have "list_all P zs" by (rule Cons.IH [OF y(2)]) (use Cons.prems(2) in auto)
  moreover have "P y" by (rule Cons.prems(2) [OF _ y(1)]) simp
  ultimately show ?case using y(3) by simp
qed simp

lemma proposal_from_result_placed:
  assumes "proposal_from_result co content fallback = Inr (p, recovered)"
  shows "list_all placed_check (cp_checks p)"
proof -
  obtain parsed criteria q where
    q: "proposal_of_dict co 72 48 (proposal_dict parsed criteria) = Inr q" and
    p: "p = q\<lparr>cp_checks := deduplicate_contract_checks (cp_checks q)\<rparr>" and
    n: "length criteria \<le> 12"
  proof (cases "reply_json content")
    case (JObj parsed)
    let ?listed = "listed_criteria_of parsed"
    let ?criteria = "if ?listed = [] then bounded_fallback_criteria fallback else ?listed"
    have "proposal_from_result co content fallback =
      rbind (proposal_of_dict co 72 48 (proposal_dict parsed ?criteria)) (\<lambda>q.
        Inr (q\<lparr>cp_checks := deduplicate_contract_checks (cp_checks q)\<rparr>, ?listed = [] \<and> ?criteria \<noteq> []))"
      using JObj by (simp only: proposal_from_result_def json.case Let_def)
    with assms obtain q where "proposal_of_dict co 72 48 (proposal_dict parsed ?criteria) = Inr q"
      "p = q\<lparr>cp_checks := deduplicate_contract_checks (cp_checks q)\<rparr>"
      by (simp only: rbind_Inr sum.inject prod.inject) blast
    moreover have "length ?criteria \<le> 12"
      by (simp add: listed_criteria_of_def bounded_fallback_criteria_def)
    ultimately show thesis by (rule that)
  qed (use assms in \<open>simp_all add: proposal_from_result_def\<close>)
  let ?checks = "normalize_checks (criterion_ids_upto (min (length criteria) 12)) (as_list (dget parsed ''checks''))"
  let ?artifacts = "listed_artifacts (as_list (dget parsed ''artifacts''))"
  let ?all = "add_artifacts criteria (checked_artifacts ?checks) ?artifacts ?checks"
  have "list_all names_known ?checks" using normalized_names by (auto simp: list_all_iff)
  then have known: "list_all names_known ?all" by (rule artifacts_names [OF n])
  have "map_of (proposal_dict parsed criteria) ''checks'' = Some (JArr (map JObj ?all))"
    by (simp add: proposal_dict_def Let_def dset_def update_conv')
  with q obtain cs where cs: "map_result (object_field (check_of_dict co)) (map JObj ?all) = Inr cs"
    "cp_checks q = cs"
    by (auto simp: proposal_of_dict_def rbind_Inr field_def dest!: settled_limits(10) split: if_splits)
  have "list_all placed_check cs"
    using cs(1) by (rule map_result_all) (use known names_known_placed in \<open>auto simp: list_all_iff\<close>)
  then show ?thesis
    using gather_placed [of "[]" cs] cs(2) p by (simp add: deduplicate_contract_checks_def)
qed

lemma index_of_bounds: "index_of n x ys = Some k \<Longrightarrow> n \<le> k \<and> k < n + length ys"
  by (induction n x ys rule: index_of.induct) (auto split: if_splits)

lemma merge_required_criteria_placed:
  assumes "within m n p" "list_all placed_check (cp_checks p)"
  shows "list_all placed_check (cp_checks (merge_required_criteria p required))"
proof (cases "take 12 (clean_texts required) = []")
  case True
  then show ?thesis using assms by (simp add: merge_required_criteria_def)
next
  case False
  let ?req = "take 12 (clean_texts required)"
  let ?criteria = "?req @ take (max_auto_criteria - length ?req) (filter (\<lambda>c. c \<notin> set ?req) (cp_criteria p))"
  have len: "length ?criteria \<le> 12" by (simp add: max_auto_criteria_def)
  have "1 \<le> length ?req" "length ?req \<le> 12" using False by (simp_all add: Suc_le_eq)
  then have req: "criterion_id (length ?req) \<in> set (criterion_ids_upto 12)"
    unfolding set_criterion_ids_upto by (intro imageI) simp
  have idx: "criterion_id k \<in> set (criterion_ids_upto 12)" if "index_of 1 c ?criteria = Some k" for c k
    using index_of_bounds [OF that] len unfolding set_criterion_ids_upto by (intro imageI) simp
  have "placed_check (remap_criteria (cp_criteria p) ?criteria (length ?req) c)" if "placed_check c" for c
    unfolding remap_criteria_def
    by (rule placed_criteria [OF that])
      (use req idx in \<open>auto simp: List.map_filter_def split: option.splits if_splits\<close>)
  then show ?thesis
    using assms(2) False by (auto simp: merge_required_criteria_def Let_def list_all_iff)
qed

text \<open>The user's checks name no criteria, or some of the first twelve.\<close>

definition known_requirements :: "contract_task \<Rightarrow> bool" where
  "known_requirements t \<longleftrightarrow> list_all names_known (ck_checks t)"

lemma read_from_placed:
  assumes "read_from env t p" "known_requirements t"
  shows "list_all placed_check (cp_checks p)"
proof -
  obtain content q recovered where
    q: "proposal_from_result (ce_coercions env) content [ck_goal t] = Inr (q, recovered)" and
    p: "append_required (ce_coercions env) (enumerate 1 (take 40 (ck_checks t)))
      (merge_required_criteria q (ck_criteria t)) = Inr p"
    using assms(1) by (auto simp: read_from_def read_reply_def rbind_Inr merge_required_checks_def)
  obtain cs where cs: "map_result (\<lambda>(i, raw). check_of_dict (ce_coercions env) (user_check_dict i raw))
      (enumerate 1 (take 40 (ck_checks t))) = Inr cs"
    "cp_checks p = cp_checks (merge_required_criteria q (ck_criteria t)) @ cs"
    using append_required_checks [OF p] by blast
  have known: "names_known (user_check_dict i raw)" if "(i, raw) \<in> set (enumerate 1 (take 40 (ck_checks t)))" for i raw
  proof -
    have "raw \<in> set (take 40 (ck_checks t))"
      using that unfolding in_set_enumerate_eq by (metis add.commute fst_conv less_diff_conv2 nth_mem snd_conv)
    then have "raw \<in> set (ck_checks t)" by (rule in_set_takeD)
    then show ?thesis using assms(2) by (auto simp: known_requirements_def user_check_dict_def list_all_iff)
  qed
  have "list_all placed_check cs"
    using cs(1) by (rule map_result_all) (use known names_known_placed in auto)
  then show ?thesis
    using merge_required_criteria_placed [OF proposal_from_result_within [OF q] proposal_from_result_placed [OF q]]
      cs(2) by simp
qed

lemma length_pad3: "n < 1000 \<Longrightarrow> length (pad3 n) = 3"
proof -
  assume n: "n < 1000"
  have "length (show_nat n) \<le> 3"
    using n by (simp add: show_nat.simps [of n] show_nat.simps [of "n div 10"] show_nat.simps [of "n div 10 div 10"])
  then show ?thesis by (simp add: pad3_def Let_def)
qed

lemma target_given_discovered: "target_given (discovered_test n ids c) = target_given c"
  by (cases "cc_kind c") (simp_all add: target_given_def discovered_test_def)

lemma discovered_placed:
  assumes "placed_check c" "set ids \<subseteq> set (criterion_ids_upto 12)" "length ids \<le> 12" "n < 1000"
  shows "placed_check (discovered_test n ids c)"
  using assms target_given_discovered [of n ids c] length_pad3 [of n]
  by (simp add: placed_check_def wf_check_def) (simp add: discovered_test_def)

lemma add_quality_placed:
  assumes "list_all placed_check (fst st)" "system_check c" "set ids \<subseteq> set (criterion_ids_upto 12)"
    "length ids \<le> 12" "length (fst st) < 900"
  shows "list_all placed_check (fst (add_quality ids covered c st))"
proof -
  obtain checks positions where st: "st = (checks, positions)" by (rule prod.exhaust)
  have upd: "list_all placed_check (checks[i := with_criteria ids (checks ! i)])" for i
  proof (cases "i < length checks")
    case True
    then have "placed_check (checks ! i)" using assms(1) st by (simp add: list_all_iff)
    then have "placed_check (with_criteria ids (checks ! i))" using assms(3) by (rule placed_with_criteria)
    then show ?thesis
      using assms(1) st set_update_subset_insert [of checks i] by (auto simp: list_all_iff dest!: subsetD)
  qed (use assms(1) st in \<open>simp add: list_update_beyond\<close>)
  have "placed_check c" using assms(2) by (auto simp: system_check_def placed_check_def)
  moreover have "placed_check (discovered_test (length checks + 1) ids c)"
    using calculation assms(3-5) st by (intro discovered_placed) auto
  ultimately show ?thesis
    using assms(1) st upd by (auto simp: add_quality_def Let_def split: option.splits)
qed

lemma effective_checks_placed:
  assumes "within 72 56 p" "list_all placed_check (cp_checks p)" "wf_discovery disc"
    "list_all system_check (rd_quality disc)"
  shows "list_all placed_check (effective_checks p disc)"
proof -
  let ?ids = "criterion_ids_upto (length (cp_criteria p))"
  have ids: "set ?ids \<subseteq> set (criterion_ids_upto 12)" "length ?ids \<le> 12"
    using assms(1) by (auto simp: within_def intro!: criterion_ids_upto_mono)
  have "list_all placed_check (fst (fold (add_quality ?ids covered) cs st))"
    if "list_all placed_check (fst st)" "list_all system_check cs" "length (fst st) + length cs < 900"
    for covered cs st
    using that
  proof (induction cs arbitrary: st)
    case (Cons c cs)
    then have "list_all placed_check (fst (add_quality ?ids covered c st))"
      by (intro add_quality_placed ids) auto
    moreover have "length (fst (add_quality ?ids covered c st)) + length cs < 900"
      using add_quality_length [of ?ids covered c st] Cons.prems(3) by simp
    ultimately show ?case using Cons by simp
  qed simp
  from this [of "(cp_checks p, target_positions (cp_checks p))" "rd_quality disc"
      "test_previews_cover_contract p disc"] assms
  show ?thesis
    unfolding effective_checks_def prune_redundant_source_checks_def Let_def
    by (auto simp: within_def wf_discovery_def list_all_iff)
qed

section \<open>A locked contract verifies\<close>

lemma length_adjudication: "length adjudication_text \<le> 1000"
  by (simp add: adjudication_text_def)

lemma wf_accepted_review:
  "ct_accepted (review env t disc p reply) \<Longrightarrow> wf_critique (review env t disc p reply)"
  using length_adjudication
  by (auto simp: review_def wf_critique_def critique_from_result_def Let_def
      deterministic_adjudication_reason_def split: if_splits)

lemma discovered_system:
  assumes "keeps_typed co" "discover_repository co redact ws = Inr disc"
  shows "list_all system_check (rd_quality disc)"
  using discover_repository_total [OF assms(1), of redact ws] assms(2) by auto

lemma locked_wf:
  assumes "keeps_typed (ce_coercions env)" "known_requirements t"
    and "compile_project_contract env ws t w = (Inr c, w')" "kc_hash c = Some h"
  shows "wf_draft (kc_draft c)"
  using assms(1,3,4)
proof (rule locked_cases)
  fix disc p reply
  assume a: "wf_discovery disc" "discover_repository (ce_coercions env) (ce_redact env) ws = Inr disc"
    "read_from env t p" "dr_proposal (kc_draft c) = effective_proposal p disc"
    "dr_discovery (kc_draft c) = disc"
    "dr_critique (kc_draft c) = review env t disc (effective_proposal p disc) reply"
    "ct_accepted (review env t disc (effective_proposal p disc) reply)"
    "length (dr_clarifications (kc_draft c)) \<le> 12" "wf_identity (dr_compiler (kc_draft c))"
  note p = read_from_within [OF a(3)]
  have "list_all placed_check (effective_checks p disc)"
    using effective_checks_placed [OF p read_from_placed [OF a(3) assms(2)] a(1) discovered_system [OF assms(1) a(2)]] .
  then have "list_all wf_check (effective_checks p disc)" by (auto simp: list_all_iff placed_check_def)
  then show ?thesis
    using settle_within [OF effective_within [OF p a(1)]] wf_accepted_review [OF a(7)] a
    by (simp add: wf_draft_def effective_proposal_def)
qed

text \<open>C26: a locked contract verifies against its hash after a round trip through the JSON the
  task stores, when the user's checks name only criteria a contract can have.\<close>

theorem locked_contract_verifies:
  assumes "keeps_typed (ce_coercions env)" "known_requirements t"
    and "compile_project_contract env ws t w = (Inr c, w')" "kc_hash c = Some h"
  shows "verify_contract_hash (ce_coercions env) (JObj (dump_draft (kc_draft c))) h = Inr True"
proof -
  have "draft_of_dict (ce_coercions env) (dump_draft (kc_draft c)) = Inr (kc_draft c)"
    using assms(1) locked_wf [OF assms] by (rule draft_written)
  moreover have "h = hash_contract (kc_draft c)"
    using assms(1,3,4) by (rule locked_cases) simp
  ultimately show ?thesis by (simp add: verify_contract_hash_def hash_contract_def)
qed

theorem locked_contract_verifies_witness:
  "\<exists>c h. fst (compile_project_contract sample_contract_env sample_repo sample_task 0) = Inr c \<and> kc_hash c = Some h \<and>
     verify_contract_hash strict_coercions (JObj (dump_draft (kc_draft c))) h = Inr True"
proof -
  obtain c where c: "compile_project_contract sample_contract_env sample_repo sample_task 0 = (Inr c, 2)"
    "kc_hash c = Some (hash_contract (kc_draft c))" using sample_locked by blast
  have "known_requirements sample_task"
    by (simp add: known_requirements_def sample_task_def sample_requirement_def names_known_def)
  from locked_contract_verifies [OF sample_keeps_typed this c] c show ?thesis by (simp add: sample_contract_env_def)
qed

section \<open>Tamper evidence\<close>

text \<open>A Python dictionary has no key twice.\<close>

definition proper_dicts :: "discovery \<Rightarrow> bool" where
  "proper_dicts r \<longleftrightarrow> distinct (map fst (rd_scripts r)) \<and> distinct (map fst (rd_previews r))"

lemma wf_json_strs [simp]: "wf_json (json_strs xs)"
  by (auto simp: json_strs_def list_all_iff)

lemma wf_str_or_null [simp]: "wf_json (str_or_null v)"
  by (cases v) (simp_all add: str_or_null_def)

lemma wf_dump_check [simp]: "wf_json (JObj (dump_check c))"
  by (auto simp: dump_check_def exit_json_def split: option.splits)

lemma wf_dump_checks [simp]: "wf_json (dump_checks cs)"
  by (auto simp: dump_checks_def list_all_iff simp del: wf_json.simps(3))

lemma wf_json_texts [simp]: "wf_json (json_texts m) \<longleftrightarrow> distinct (map fst m)"
proof -
  have "map (fst \<circ> (\<lambda>(k, v). (k, JStr v))) m = map fst m" by auto
  then show ?thesis by (auto simp: json_texts_def list_all_iff simp del: map_eq_conv)
qed

lemma wf_dump_draft: "proper_dicts (dr_discovery d) \<Longrightarrow> wf_json (JObj (dump_draft d))"
  by (auto simp: dump_draft_def dump_proposal_def dump_identity_def dump_discovery_def dump_critique_def
      proper_dicts_def)

lemma wf_hash_payload: "proper_dicts (dr_discovery d) \<Longrightarrow> wf_json (JObj (hash_payload d))"
  using wf_dump_draft [of d]
  by (auto simp: hash_payload_def dpop_def AList.delete_eq list_all_iff distinct_map_filter)

lemma payload_member:
  "k \<noteq> ''criteria_recovery'' \<Longrightarrow> map_of (hash_payload d) k = map_of (dump_draft d) k"
  by (simp add: hash_payload_def dpop_def delete_conv')

text \<open>Serialised values determine what they serialise, whatever the order of the keys.\<close>

lemma sort_keys_strs [simp]: "sort_keys (json_strs xs) = json_strs xs"
  by (simp add: json_strs_def comp_def)

lemma json_strs_inj [simp]: "json_strs xs = json_strs ys \<longleftrightarrow> xs = ys"
  by (auto simp: json_strs_def dest: map_injective [of JStr] intro: injI)

lemma str_or_null_inj [simp]: "str_or_null v = str_or_null w \<longleftrightarrow> v = w"
  by (cases v; cases w) (simp_all add: str_or_null_def)

lemma sort_keys_str_or_null [simp]: "sort_keys (str_or_null v) = str_or_null v"
  by (cases v) (simp_all add: str_or_null_def)

lemma exit_json_inj [simp]: "exit_json v = exit_json w \<longleftrightarrow> v = w"
  by (cases v; cases w) (simp_all add: exit_json_def)

lemma sort_keys_exit_json [simp]: "sort_keys (exit_json v) = exit_json v"
  by (cases v) (simp_all add: exit_json_def)

lemma kind_value_inj [simp]: "kind_value k = kind_value l \<longleftrightarrow> k = l"
  by (cases k; cases l) simp_all

lemma source_value_inj [simp]: "source_value k = source_value l \<longleftrightarrow> k = l"
  by (cases k; cases l) simp_all

lemma risk_value_inj [simp]: "risk_value k = risk_value l \<longleftrightarrow> k = l"
  by (cases k; cases l) simp_all

lemma capability_values_inj: "map capability_value cs = map capability_value ds \<Longrightarrow> cs = ds"
  by (rule map_injective) (auto intro!: injI dest: arg_cong [of _ _ capability_of])

lemma distinct_dump_check: "distinct (map fst (dump_check c))"
  by (simp add: dump_check_def)

lemma dump_check_inj:
  assumes "sort_keys (JObj (dump_check c)) = sort_keys (JObj (dump_check d))"
  shows "c = d"
proof -
  note same = sort_keys_members [OF assms distinct_dump_check distinct_dump_check]
  show ?thesis
    using same [of "''id''"] same [of "''kind''"] same [of "''command''"] same [of "''path''"]
      same [of "''text''"] same [of "''expect_exit''"] same [of "''expect_stdout''"]
      same [of "''criterion_ids''"] same [of "''source''"]
    by (cases c; cases d) (simp add: dump_check_def)
qed

lemma dump_checks_inj: "sort_keys (dump_checks cs) = sort_keys (dump_checks ds) \<Longrightarrow> cs = ds"
proof -
  assume "sort_keys (dump_checks cs) = sort_keys (dump_checks ds)"
  then have "map (\<lambda>c. sort_keys (JObj (dump_check c))) cs = map (\<lambda>c. sort_keys (JObj (dump_check c))) ds"
    by (simp add: dump_checks_def comp_def del: sort_keys.simps(2))
  then show ?thesis by (rule map_injective) (rule injI, rule dump_check_inj)
qed

lemma payload_proposal:
  assumes "proper_dicts (dr_discovery d)" "proper_dicts (dr_discovery e)"
    and "canonical (JObj (hash_payload d)) = canonical (JObj (hash_payload e))"
  shows "dr_proposal d = dr_proposal e"
proof -
  note wf = wf_hash_payload [OF assms(1)] wf_hash_payload [OF assms(2)]
  have "map_option sort_keys (map_of (hash_payload d) k) = map_option sort_keys (map_of (hash_payload e) k)" for k
    using wf by (intro sort_keys_members canonical_inj [OF wf assms(3)]) simp_all
  from this [of "''criteria''"] this [of "''checks''"] this [of "''artifacts''"] this [of "''risk''"]
    this [of "''assumptions''"] this [of "''confidence''"] this [of "''authority_requests''"]
  show ?thesis
    by (cases "dr_proposal d"; cases "dr_proposal e")
      (auto simp: payload_member dump_draft_def dump_proposal_def dest: dump_checks_inj capability_values_inj)
qed

lemma dict_field_keys:
  assumes "dict_field hi v = Inr m" "wf_json v"
  shows "distinct (map fst m)"
proof -
  have "map fst m = map fst d" if "map_result text_member d = Inr m" for d m
    using that by (induction d arbitrary: m) (auto simp: rbind_Inr text_member_def)
  then show ?thesis using assms by (cases v) (auto split: if_splits)
qed

lemma wf_json_member: "wf_json (JObj d) \<Longrightarrow> map_of d k = Some v \<Longrightarrow> wf_json v"
  by (auto simp: list_all_iff dest!: map_of_SomeD)

lemma parsed_proper:
  assumes "draft_of_dict co s = Inr d" "wf_json (JObj s)"
  shows "proper_dicts (dr_discovery d)"
proof -
  from assms(1) have "field s ''discovery'' (Inl ValueError) (object_field (discovery_of_dict co)) = Inr (dr_discovery d)"
    unfolding draft_of_dict_def rbind_Inr by auto
  then have "\<exists>r. object_field (discovery_of_dict co) r = Inr (dr_discovery d) \<and> wf_json r"
    using wf_json_member [OF assms(2)] by (cases "map_of s ''discovery''") (auto simp: field_def)
  then obtain r where r: "discovery_of_dict co r = Inr (dr_discovery d)" "wf_json (JObj r)"
    by (auto elim: object_field.elims)
  have dict: "distinct (map fst m)" if "field r k (Inr []) (dict_field hi) = Inr m" for k hi m
    using that r(2) dict_field_keys wf_json_member by (cases "map_of r k") (auto simp: field_def)
  have "field r ''scripts'' (Inr []) (dict_field None) = Inr (rd_scripts disc) \<and>
      field r ''file_previews'' (Inr []) (dict_field (Some 24)) = Inr (rd_previews disc)"
    if "discovery_of_dict co r = Inr disc" for disc
    using that unfolding discovery_of_dict_def rbind_Inr by auto
  from this [OF r(1)] show ?thesis using dict by (auto simp: proper_dicts_def)
qed

text \<open>C40: a stored contract that verifies against the hash of a draft has that draft's criteria,
  checks, artifacts, risk and authority, or two different texts have the same SHA-256.\<close>

theorem contract_tamper_evident:
  assumes "wf_json stored" "proper_dicts (dr_discovery d)"
    and "verify_contract_hash co stored (hash_contract d) = Inr True"
  shows "\<exists>e. object_field (draft_of_dict co) stored = Inr e \<and>
    (dr_proposal e = dr_proposal d \<or>
     canonical (JObj (hash_payload e)) \<noteq> canonical (JObj (hash_payload d)) \<and>
     sha256_hex (canonical (JObj (hash_payload e))) = sha256_hex (canonical (JObj (hash_payload d))))"
proof -
  from assms(3) obtain e where e: "object_field (draft_of_dict co) stored = Inr e"
    "hash_contract e = hash_contract d"
    by (auto simp: verify_contract_hash_def rbind_Inr)
  then obtain s where s: "stored = JObj s" "draft_of_dict co s = Inr e"
    by (auto elim: object_field.elims)
  have "proper_dicts (dr_discovery e)" using parsed_proper [OF s(2)] assms(1) s(1) by blast
  then show ?thesis
    using e payload_proposal [of e d] assms(2) unfolding hash_contract_def by blast
qed

theorem contract_tamper_evident_witness:
  "\<exists>c e. fst (compile_project_contract sample_contract_env sample_repo sample_task 0) = Inr c \<and>
     draft_of_dict strict_coercions (dump_draft (kc_draft c)) = Inr e \<and>
     (dr_proposal e = dr_proposal (kc_draft c) \<or>
      canonical (JObj (hash_payload e)) \<noteq> canonical (JObj (hash_payload (kc_draft c))))"
proof -
  obtain c where c: "compile_project_contract sample_contract_env sample_repo sample_task 0 = (Inr c, 2)"
    "kc_hash c = Some (hash_contract (kc_draft c))" using sample_locked by blast
  have known: "known_requirements sample_task"
    by (simp add: known_requirements_def sample_task_def sample_requirement_def names_known_def)
  have p: "proper_dicts (dr_discovery (kc_draft c))"
    using sample_keeps_typed c
    by (rule locked_cases) (use sample_discovered in \<open>auto simp: sample_contract_env_def sample_disc_def proper_dicts_def\<close>)
  have "draft_of_dict (ce_coercions sample_contract_env) (dump_draft (kc_draft c)) = Inr (kc_draft c)"
    using sample_keeps_typed locked_wf [OF sample_keeps_typed known c] by (rule draft_written)
  then have "verify_contract_hash (ce_coercions sample_contract_env) (JObj (dump_draft (kc_draft c)))
      (hash_contract (kc_draft c)) = Inr True"
    by (simp add: verify_contract_hash_def hash_contract_def)
  from contract_tamper_evident [OF wf_dump_draft [OF p] p this] c(1) show ?thesis
    by (auto simp: sample_contract_env_def)
qed

section \<open>The contract a user wrote\<close>

lemma enumerated: "i < length xs \<Longrightarrow> (i + 1, xs ! i) \<in> set (enumerate 1 xs)"
  by (simp add: in_set_enumerate_eq)

text \<open>C40: a contract locked from the user's own criteria is accepted, holds every check the user
  required, has exactly the user's criteria and verifies against its hash.\<close>

theorem user_contract_verifies:
  assumes "keeps_typed (ce_coercions env)"
    and "lock_user_project_contract env ws criteria required = Inr (d, h)"
  shows "verify_contract_hash (ce_coercions env) (JObj (dump_draft d)) h = Inr True \<and>
    ct_accepted (dr_critique d) \<and> cp_criteria (dr_proposal d) = clean_texts criteria \<and>
    (\<forall>i. i < length required \<longrightarrow> (\<exists>c \<in> set (cp_checks (dr_proposal d)).
       rbind (user_contract_dict (criterion_ids_upto (length criteria)) (i + 1) (required ! i))
         (check_of_dict (ce_coercions env)) = Inr c))"
proof -
  let ?read = "\<lambda>(index, raw). rbind (user_contract_dict (criterion_ids_upto (length criteria)) index raw)
      (check_of_dict (ce_coercions env))"
  from assms(2) obtain disc own artifacts where
    disc: "discover_repository (ce_coercions env) (ce_redact env) ws = Inr disc" and
    own: "map_result ?read (enumerate 1 required) = Inr own" and
    d: "make_draft
             \<lparr>cp_criteria = criteria, cp_checks = own @ rd_quality disc, cp_artifacts = artifacts,
              cp_risk = LowRisk, cp_assumptions = [], cp_confidence = 100, cp_authority = []\<rparr>
             False user_model disc [] user_critique = Inr d" and h: "h = hash_contract d"
    unfolding lock_user_project_contract_def rbind_Inr Let_def by auto
  have wf_disc: "wf_discovery disc" "list_all wf_check (rd_quality disc)"
    using discover_repository_total [OF assms(1), of "ce_redact env" ws] disc by (auto simp: wf_discovery_def)
  have wf_own: "list_all wf_check own"
    using own by (rule map_result_all) (auto simp: rbind_Inr intro: check_of_dict_wf)
  from d obtain q where q: "settle_limits 96 64
             \<lparr>cp_criteria = criteria, cp_checks = own @ rd_quality disc, cp_artifacts = artifacts,
              cp_risk = LowRisk, cp_assumptions = [], cp_confidence = 100, cp_authority = []\<rparr> = Inr q"
    "d = \<lparr>dr_proposal = q, dr_recovered = False, dr_compiler = user_model, dr_discovery = disc,
          dr_clarifications = [], dr_critique = user_critique\<rparr>"
    by (auto simp: make_draft_def rbind_Inr)
  note q_eq = settled_limits(10) [OF q(1)]
  have "wf_draft d"
    using wf_disc wf_own q_eq settle_within [OF settled_within [OF q(1)]]
    by (simp add: q(2) wf_draft_def wf_identity_def wf_critique_def user_model_def user_critique_def)
  then have "verify_contract_hash (ce_coercions env) (JObj (dump_draft d)) h = Inr True"
    using draft_written [OF assms(1)] h by (simp add: verify_contract_hash_def hash_contract_def)
  moreover have "\<exists>c \<in> set (cp_checks (dr_proposal d)). ?read (i + 1, required ! i) = Inr c"
    if "i < length required" for i
    using map_result_nth [OF own, of i] map_result_length [OF own] that
    by (auto simp: q(2) q_eq nth_enumerate_eq)
  ultimately show ?thesis by (simp add: q(2) q_eq user_critique_def)
qed

theorem user_contract_verifies_witness:
  "\<exists>d h. lock_user_project_contract sample_contract_env sample_repo [''Prints hello''] [sample_requirement] = Inr (d, h) \<and>
     verify_contract_hash strict_coercions (JObj (dump_draft d)) h = Inr True"
proof -
  have own: "map_result (\<lambda>(index, raw). rbind (user_contract_dict (criterion_ids_upto (length [''Prints hello''])) index raw)
      (check_of_dict strict_coercions)) (enumerate 1 [sample_requirement]) =
      Inr [required_check\<lparr>cc_id := ''contract-001'', cc_criteria := [''criterion-001'']\<rparr>]"
    by code_simp
  have "\<exists>d h. lock_user_project_contract sample_contract_env sample_repo [''Prints hello''] [sample_requirement] = Inr (d, h)"
    using own sample_discovered
    by (simp add: lock_user_project_contract_def sample_contract_env_def sample_disc_def make_draft_def settle_limits_def
        required_check_def Let_def clean_texts_def dedup_def py_strip_visible py_isspace_code)
  then obtain d h where l: "lock_user_project_contract sample_contract_env sample_repo [''Prints hello''] [sample_requirement] = Inr (d, h)"
    by blast
  from user_contract_verifies [OF sample_keeps_typed l] l show ?thesis by (auto simp: sample_contract_env_def)
qed

end
