(* ===== verification/Task_Schema.thy ===== *)
theory Task_Schema
  imports Change_Service Contract_Checks Authority Contract_Address
begin

text \<open>
  \<^verbatim>\<open>schemas/task.py\<close>: what the interface accepts (\<open>task_create_of_dict\<close>, \<open>respond_of_dict\<close>,
  \<open>revision_of_dict\<close>) and what it answers (\<open>from_model\<close>). A body is a JSON object; pydantic's lax
  conversions of scalars and its reading of a UUID are parameters, and a \<^verbatim>\<open>ValidationError\<close> is a
  \<^verbatim>\<open>ValueError\<close>. The lemmas show what a value that passed the validators satisfies, and which rows
  can be answered.
\<close>

section \<open>Typed fields\<close>

definition int_from :: "int \<Rightarrow> int \<Rightarrow> int result" where
  "int_from lo n = (if lo \<le> n then Inr n else Inl ValueError)"

definition int_field :: "coercions \<Rightarrow> int \<Rightarrow> json \<Rightarrow> int result" where
  "int_field co lo v = rbind (or_invalid (co_int co v)) (int_from lo)"

definition bool_field :: "coercions \<Rightarrow> json \<Rightarrow> bool result" where
  "bool_field co v = or_invalid (co_bool co v)"

text \<open>A list without a limit of its own.\<close>

fun any_list :: "(json \<Rightarrow> 'a result) \<Rightarrow> json \<Rightarrow> 'a list result" where
  "any_list f (JArr vs) = map_result f vs"
| "any_list f _ = Inl ValueError"

definition checked :: "('a \<Rightarrow> bool) \<Rightarrow> 'a \<Rightarrow> 'a result" where
  "checked ok v = (if ok v then Inr v else Inl ValueError)"

definition limits_of_dict :: "coercions \<Rightarrow> jdict \<Rightarrow> limits_in result" where
  "limits_of_dict co d =
     rbind (field d ''max_steps'' (Inr None) (optional_field (int_field co 1))) (\<lambda>steps.
     rbind (field d ''token_budget'' (Inr None) (optional_field (int_field co 1000))) (\<lambda>tokens.
       Inr \<lparr>li_max_steps = steps, li_token_budget = tokens\<rparr>))"

section \<open>Publishing a task\<close>

definition stripped :: "string list \<Rightarrow> string list" where
  "stripped xs = filter (\<lambda>s. s \<noteq> []) (map py_strip xs)"

fun validate_success_criteria :: "string list option \<Rightarrow> string list option result" where
  "validate_success_criteria None = Inr None"
| "validate_success_criteria (Some xs) =
     (let criteria = stripped xs
      in if \<not> (1 \<le> length criteria \<and> length criteria \<le> 12) then Inl ValueError
         else if list_ex (\<lambda>s. 500 < length s) criteria then Inl ValueError
         else Inr (Some criteria))"

definition validate_verification_commands :: "string list \<Rightarrow> string list result" where
  "validate_verification_commands xs =
     (let commands = stripped xs
      in if 8 < length commands then Inl ValueError
         else if list_ex (\<lambda>s. 1000 < length s) commands then Inl ValueError
         else Inr commands)"

definition validate_required_artifacts :: "string list \<Rightarrow> string list result" where
  "validate_required_artifacts xs =
     (let artifacts = clean_texts xs
      in if 32 < length artifacts then Inl ValueError
         else if list_ex (\<lambda>a. 500 < length a \<or> \<not> posix_relative a) artifacts then Inl ValueError
         else Inr artifacts)"

definition verification_modes :: "string list" where
  "verification_modes = [''strict'', ''judgment'']"

text \<open>\<^verbatim>\<open>^[\w.-]+$\<close>; the pattern is matched by pydantic's engine, where \<^verbatim>\<open>$\<close> is the end of the text.\<close>

definition project_name :: "string \<Rightarrow> bool" where
  "project_name s = (s \<noteq> [] \<and> list_all (\<lambda>c. word_char c \<or> c = CHR ''.'' \<or> c = CHR ''-'') s)"

text \<open>\<^verbatim>\<open>bool\<close> of an optional list.\<close>

definition given_list :: "'a list option \<Rightarrow> bool" where
  "given_list xs = (xs \<noteq> None \<and> xs \<noteq> Some [])"

definition wants_network :: "task_create \<Rightarrow> bool" where
  "wants_network p =
     (let requested = set (case tc_capabilities p of None \<Rightarrow> [] | Some cs \<Rightarrow> cs)
      in tc_allow_egress p \<or> NetShell \<in> requested \<or> tc_use_browser p \<or> NetBrowser \<in> requested)"

definition settle_hosts :: "host_lib \<Rightarrow> string list option \<Rightarrow> string list option result" where
  "settle_hosts lib hosts =
     (if \<not> given_list hosts then Inr hosts
      else (case normalize_hosts lib (the hosts) of
              Inl _ \<Rightarrow> Inl ValueError
            | Inr hs \<Rightarrow> Inr (Some (sorted_set hs))))"

definition validate_network_authority :: "host_lib \<Rightarrow> settings \<Rightarrow> task_create \<Rightarrow> task_create result" where
  "validate_network_authority lib c p =
     (if agent_require_egress_hosts c \<and> wants_network p \<and> \<not> given_list (tc_egress_hosts p)
      then Inl ValueError
      else rbind (settle_hosts lib (tc_egress_hosts p)) (\<lambda>hosts. Inr (p\<lparr>tc_egress_hosts := hosts\<rparr>)))"

definition optional_text :: "nat \<Rightarrow> nat \<Rightarrow> json \<Rightarrow> string option result" where
  "optional_text lo hi = optional_field (text_field lo hi)"

text \<open>The fields in the order of the class; a default is not validated.\<close>

definition task_create_of_dict :: "host_lib \<Rightarrow> coercions \<Rightarrow> settings \<Rightarrow> jdict \<Rightarrow> (task_create \<times> bool) result" where
  "task_create_of_dict lib co c d =
     rbind (field d ''goal'' (Inl ValueError) (text_field 4 4000)) (\<lambda>g.
     rbind (field d ''success_criteria'' (Inr None)
       (\<lambda>v. rbind (optional_field (any_list plain_text) v) validate_success_criteria)) (\<lambda>criteria.
     rbind (field d ''verification_commands'' (Inr [])
       (\<lambda>v. rbind (any_list plain_text v) validate_verification_commands)) (\<lambda>commands.
     rbind (field d ''required_artifacts'' (Inr [])
       (\<lambda>v. rbind (any_list plain_text v) validate_required_artifacts)) (\<lambda>artifacts.
     rbind (field d ''verification_mode'' (Inr None)
       (optional_field (\<lambda>v. rbind (plain_text v) (checked (\<lambda>m. m \<in> set verification_modes))))) (\<lambda>mode.
     rbind (field d ''project_id'' (Inr ''default'')
       (\<lambda>v. rbind (text_field 1 100 v) (checked project_name))) (\<lambda>project.
     rbind (field d ''project_path'' (Inr None) (optional_text 1 500)) (\<lambda>path.
     rbind (field d ''limits'' (Inr \<lparr>li_max_steps = None, li_token_budget = None\<rparr>)
       (object_field (limits_of_dict co))) (\<lambda>limits.
     rbind (field d ''autostart'' (Inr True) (bool_field co)) (\<lambda>auto.
     rbind (field d ''allowed_tools'' (Inr None) (optional_field (any_list plain_text))) (\<lambda>tools.
     rbind (field d ''capabilities'' (Inr None) (optional_field (any_list capability_field))) (\<lambda>caps.
     rbind (field d ''allow_egress'' (Inr False) (bool_field co)) (\<lambda>egress.
     rbind (field d ''egress_hosts'' (Inr None) (optional_field (any_list plain_text))) (\<lambda>hosts.
     rbind (field d ''require_approval'' (Inr False) (bool_field co)) (\<lambda>approval.
     rbind (field d ''use_browser'' (Inr False) (bool_field co)) (\<lambda>browser.
     rbind (field d ''use_email'' (Inr False) (bool_field co)) (\<lambda>email.
     rbind (field d ''use_calendar'' (Inr False) (bool_field co)) (\<lambda>calendar.
     rbind (field d ''use_vision'' (Inr False) (bool_field co)) (\<lambda>vision.
     rbind (field d ''chat_id'' (Inr None) (optional_field plain_text)) (\<lambda>chat.
     rbind (field d ''skill'' (Inr None) (optional_field plain_text)) (\<lambda>sk.
     rbind (field d ''idempotency_key'' (Inr None) (optional_text 8 128)) (\<lambda>key.
     rbind (validate_network_authority lib c
         \<lparr>tc_goal = g, tc_success_criteria = criteria, tc_verification_commands = commands,
          tc_required_artifacts = artifacts, tc_verification_mode = mode, tc_project_id = project,
          tc_project_path = path, tc_limits = limits, tc_allowed_tools = tools,
          tc_capabilities = caps, tc_allow_egress = egress, tc_egress_hosts = hosts,
          tc_require_approval = approval, tc_use_browser = browser, tc_use_email = email,
          tc_use_calendar = calendar, tc_use_vision = vision, tc_chat_id = chat, tc_skill = sk,
          tc_idempotency_key = key\<rparr>)
       (\<lambda>p. Inr (p, auto)))))))))))))))))))))))"

section \<open>Answers and feedback\<close>

definition respond_of_dict :: "jdict \<Rightarrow> string result" where
  "respond_of_dict d = field d ''answer'' (Inl ValueError) (text_field 1 4000)"

definition feedback_kind_field :: "json \<Rightarrow> feedback result" where
  "feedback_kind_field v =
     or_invalid (find (\<lambda>k. v = JStr (feedback_value k)) [ImplementationFix, ProductDecision])"

definition normalize_feedback :: "string \<Rightarrow> string result" where
  "normalize_feedback v =
     (let normalized = py_strip v in if length normalized < 4 then Inl ValueError else Inr normalized)"

definition revision_of_dict :: "coercions \<Rightarrow> jdict \<Rightarrow> (revision_create \<times> bool) result" where
  "revision_of_dict co d =
     rbind (field d ''feedback'' (Inl ValueError) (\<lambda>v. rbind (text_field 4 4000 v) normalize_feedback)) (\<lambda>fb.
     rbind (field d ''kind'' (Inr ImplementationFix) feedback_kind_field) (\<lambda>kind.
     rbind (field d ''autostart'' (Inr True) (bool_field co)) (\<lambda>auto.
       Inr (\<lparr>rv_feedback = fb, rv_kind = kind\<rparr>, auto))))"

section \<open>What an accepted body satisfies\<close>

definition bounded_opt :: "nat \<Rightarrow> nat \<Rightarrow> string option \<Rightarrow> bool" where
  "bounded_opt lo hi v = (case v of None \<Rightarrow> True | Some s \<Rightarrow> lo \<le> length s \<and> length s \<le> hi)"

definition clean_text :: "nat \<Rightarrow> string \<Rightarrow> bool" where
  "clean_text hi s = (s \<noteq> [] \<and> py_strip s = s \<and> length s \<le> hi)"

definition wf_limits :: "limits_in \<Rightarrow> bool" where
  "wf_limits li =
     ((case li_max_steps li of None \<Rightarrow> True | Some n \<Rightarrow> 1 \<le> n) \<and>
      (case li_token_budget li of None \<Rightarrow> True | Some n \<Rightarrow> 1000 \<le> n))"

text \<open>A canonical policy: sorted, without repetition, every host the normal form of some host.\<close>

definition canonical_hosts :: "host_lib \<Rightarrow> string list option \<Rightarrow> bool" where
  "canonical_hosts lib hosts =
     (case hosts of
        None \<Rightarrow> True
      | Some hs \<Rightarrow> sorted hs \<and> distinct hs \<and> (\<forall>h \<in> set hs. \<exists>raw. normalize_host lib raw = Inr h))"

definition wf_create :: "host_lib \<Rightarrow> settings \<Rightarrow> task_create \<Rightarrow> bool" where
  "wf_create lib c p =
     (4 \<le> length (tc_goal p) \<and> length (tc_goal p) \<le> 4000 \<and>
      (case tc_success_criteria p of
         None \<Rightarrow> True
       | Some cs \<Rightarrow> cs \<noteq> [] \<and> length cs \<le> 12 \<and> list_all (clean_text 500) cs) \<and>
      length (tc_verification_commands p) \<le> 8 \<and> list_all (clean_text 1000) (tc_verification_commands p) \<and>
      length (tc_required_artifacts p) \<le> 32 \<and> distinct (tc_required_artifacts p) \<and>
      list_all (\<lambda>a. clean_text 500 a \<and> posix_relative a) (tc_required_artifacts p) \<and>
      (case tc_verification_mode p of None \<Rightarrow> True | Some m \<Rightarrow> m \<in> set verification_modes) \<and>
      project_name (tc_project_id p) \<and> length (tc_project_id p) \<le> 100 \<and>
      bounded_opt 1 500 (tc_project_path p) \<and> wf_limits (tc_limits p) \<and>
      canonical_hosts lib (tc_egress_hosts p) \<and>
      (agent_require_egress_hosts c \<and> wants_network p \<longrightarrow> given_list (tc_egress_hosts p)) \<and>
      bounded_opt 8 128 (tc_idempotency_key p))"

lemma checked_Inr: "checked ok v = Inr w \<longleftrightarrow> w = v \<and> ok v"
  by (auto simp: checked_def)

lemma int_from_Inr: "int_from lo n = Inr m \<longleftrightarrow> m = n \<and> lo \<le> n"
  by (auto simp: int_from_def)

lemma text_field_Inr: "text_field lo hi v = Inr s \<longleftrightarrow> v = JStr s \<and> lo \<le> length s \<and> length s \<le> hi"
  by (cases v) auto

lemma optional_Inr: "optional_field f v = Inr r \<longleftrightarrow>
    (v = JNull \<and> r = None) \<or> (v \<noteq> JNull \<and> (\<exists>a. f v = Inr a \<and> r = Some a))"
  by (cases v) (auto simp: rbind_Inr)

lemma field_Inr: "field d k missing f = Inr r \<longleftrightarrow>
    (map_of d k = None \<and> missing = Inr r) \<or> (\<exists>v. map_of d k = Some v \<and> f v = Inr r)"
  by (auto simp: field_def split: option.splits)

lemma stripped_clean: "list_all (\<lambda>s. s \<noteq> [] \<and> py_strip s = s) (stripped xs)"
  by (auto simp: stripped_def list_all_iff)

lemma limits_typed:
  assumes "limits_of_dict co d = Inr li"
  shows "wf_limits li"
  using assms
  by (auto simp: limits_of_dict_def rbind_Inr field_Inr optional_Inr int_field_def int_from_Inr wf_limits_def)

lemma criteria_typed:
  assumes "validate_success_criteria v = Inr (Some cs)"
  shows "cs \<noteq> [] \<and> length cs \<le> 12 \<and> list_all (clean_text 500) cs"
  using assms stripped_clean
  by (cases v) (auto simp: Let_def clean_text_def list_all_iff list_ex_iff not_less split: if_splits)

lemma commands_typed:
  assumes "validate_verification_commands xs = Inr cs"
  shows "length cs \<le> 8 \<and> list_all (clean_text 1000) cs"
  using assms stripped_clean [of xs]
  by (auto simp: validate_verification_commands_def Let_def clean_text_def list_all_iff list_ex_iff not_less
      split: if_splits)

lemma clean_texts_stripped: "list_all (\<lambda>s. s \<noteq> [] \<and> py_strip s = s) (clean_texts xs) \<and> distinct (clean_texts xs)"
  by (auto simp: clean_texts_def list_all_iff dedup_def)

lemma artifacts_typed:
  assumes "validate_required_artifacts xs = Inr cs"
  shows "length cs \<le> 32 \<and> distinct cs \<and> list_all (\<lambda>a. clean_text 500 a \<and> posix_relative a) cs"
  using assms clean_texts_stripped [of xs]
  by (auto simp: validate_required_artifacts_def Let_def clean_text_def list_all_iff list_ex_iff not_less
      split: if_splits)

lemma normalize_hosts_from:
  "normalize_hosts lib hosts = Inr hs \<Longrightarrow> h \<in> set hs \<Longrightarrow> \<exists>raw. normalize_host lib raw = Inr h"
proof (induction hosts arbitrary: hs)
  case (Cons x xs)
  then show ?case by (cases "normalize_hosts lib xs") (auto split: sum.splits)
qed simp

lemma normalize_hosts_length: "normalize_hosts lib hosts = Inr hs \<Longrightarrow> length hs = length hosts"
proof (induction hosts arbitrary: hs)
  case (Cons x xs)
  then show ?case by (cases "normalize_hosts lib xs") (auto split: sum.splits)
qed simp

lemma hosts_typed:
  assumes "settle_hosts lib hosts = Inr r"
  shows "canonical_hosts lib r" "given_list r = given_list hosts"
proof -
  have "canonical_hosts lib r \<and> given_list r = given_list hosts"
  proof (cases "given_list hosts")
    case False
    then show ?thesis using assms by (auto simp: settle_hosts_def canonical_hosts_def given_list_def)
  next
    case True
    then obtain hs where hs: "normalize_hosts lib (the hosts) = Inr hs" "r = Some (sorted_set hs)"
      using assms by (auto simp: settle_hosts_def split: sum.splits)
    have "hs \<noteq> []" using normalize_hosts_length [OF hs(1)] True by (auto simp: given_list_def)
    moreover have "set (sorted_set hs) = set hs" by (simp add: sorted_set_def)
    ultimately have "sorted_set hs \<noteq> []" by (metis set_empty)
    then show ?thesis
      using True hs(2) normalize_hosts_from [OF hs(1)]
      by (auto simp: canonical_hosts_def given_list_def sorted_set_def)
  qed
  then show "canonical_hosts lib r" "given_list r = given_list hosts" by auto
qed

lemma network_typed:
  assumes "validate_network_authority lib c p = Inr q"
  shows "canonical_hosts lib (tc_egress_hosts q)" "q = p\<lparr>tc_egress_hosts := tc_egress_hosts q\<rparr>"
    "agent_require_egress_hosts c \<and> wants_network p \<longrightarrow> given_list (tc_egress_hosts q)"
  using assms hosts_typed
  by (auto simp: validate_network_authority_def rbind_Inr split: if_splits)

lemma wants_network_hosts [simp]: "wants_network (p\<lparr>tc_egress_hosts := hs\<rparr>) = wants_network p"
  by (simp add: wants_network_def)

lemma default_name: "project_name ''default''"
  by code_simp

lemma object_field_Inr: "object_field f v = Inr r \<longleftrightarrow> (\<exists>d. v = JObj d \<and> f d = Inr r)"
  by (cases v) auto

lemma field_holds:
  assumes "field d k (Inr m) f = Inr r" "P m" "\<And>v. f v = Inr r \<Longrightarrow> P r"
  shows "P r"
  using assms by (auto simp: field_Inr)

lemma required_field_holds:
  assumes "field d k (Inl e) f = Inr r" "\<And>v. f v = Inr r \<Longrightarrow> P r"
  shows "P r"
  using assms by (auto simp: field_Inr)

lemma accepted_typed:
  assumes "task_create_of_dict lib co c d = Inr (p, auto)"
  shows "wf_create lib c p"
proof -
  from assms obtain q where
    q: "validate_network_authority lib c q = Inr p" and
    g: "field d ''goal'' (Inl ValueError) (text_field 4 4000) = Inr (tc_goal q)" and
    criteria: "field d ''success_criteria'' (Inr None)
       (\<lambda>v. rbind (optional_field (any_list plain_text) v) validate_success_criteria) = Inr (tc_success_criteria q)" and
    commands: "field d ''verification_commands'' (Inr [])
       (\<lambda>v. rbind (any_list plain_text v) validate_verification_commands) = Inr (tc_verification_commands q)" and
    artifacts: "field d ''required_artifacts'' (Inr [])
       (\<lambda>v. rbind (any_list plain_text v) validate_required_artifacts) = Inr (tc_required_artifacts q)" and
    mode: "field d ''verification_mode'' (Inr None)
       (optional_field (\<lambda>v. rbind (plain_text v) (checked (\<lambda>m. m \<in> set verification_modes)))) = Inr (tc_verification_mode q)" and
    project: "field d ''project_id'' (Inr ''default'')
       (\<lambda>v. rbind (text_field 1 100 v) (checked project_name)) = Inr (tc_project_id q)" and
    path: "field d ''project_path'' (Inr None) (optional_text 1 500) = Inr (tc_project_path q)" and
    limits: "field d ''limits'' (Inr \<lparr>li_max_steps = None, li_token_budget = None\<rparr>)
       (object_field (limits_of_dict co)) = Inr (tc_limits q)" and
    key: "field d ''idempotency_key'' (Inr None) (optional_text 8 128) = Inr (tc_idempotency_key q)"
    unfolding task_create_of_dict_def rbind_Inr sum.inject prod.inject
    by - (elim exE conjE, rule that, erule trans, simp_all)
  have "4 \<le> length (tc_goal q) \<and> length (tc_goal q) \<le> 4000"
    using g by (rule required_field_holds) (simp add: text_field_Inr)
  moreover have "case (tc_success_criteria q) of None \<Rightarrow> True | Some cs \<Rightarrow> cs \<noteq> [] \<and> length cs \<le> 12 \<and> list_all (clean_text 500) cs"
    using criteria by (rule field_holds) (auto simp: rbind_Inr dest: criteria_typed split: option.splits)
  moreover have "length (tc_verification_commands q) \<le> 8 \<and> list_all (clean_text 1000) (tc_verification_commands q)"
    using commands by (rule field_holds) (auto simp: rbind_Inr dest: commands_typed)
  moreover have "length (tc_required_artifacts q) \<le> 32 \<and> distinct (tc_required_artifacts q) \<and>
      list_all (\<lambda>a. clean_text 500 a \<and> posix_relative a) (tc_required_artifacts q)"
    using artifacts by (rule field_holds) (auto simp: rbind_Inr dest: artifacts_typed)
  moreover have "case (tc_verification_mode q) of None \<Rightarrow> True | Some m \<Rightarrow> m \<in> set verification_modes"
    using mode by (rule field_holds) (auto simp: optional_Inr rbind_Inr checked_Inr)
  moreover have "project_name (tc_project_id q) \<and> length (tc_project_id q) \<le> 100"
    using project
    by (rule field_holds) (auto simp: rbind_Inr text_field_Inr checked_Inr default_name)
  moreover have "bounded_opt 1 500 (tc_project_path q)"
    using path by (rule field_holds) (auto simp: bounded_opt_def optional_text_def optional_Inr text_field_Inr)
  moreover have "wf_limits (tc_limits q)"
    using limits by (rule field_holds) (auto simp: wf_limits_def object_field_Inr dest: limits_typed)
  moreover have "bounded_opt 8 128 (tc_idempotency_key q)"
    using key by (rule field_holds) (auto simp: bounded_opt_def optional_text_def optional_Inr text_field_Inr)
  moreover obtain hs where "p = q\<lparr>tc_egress_hosts := hs\<rparr>" "canonical_hosts lib hs"
      "agent_require_egress_hosts c \<and> wants_network q \<longrightarrow> given_list hs"
    using network_typed [OF q] by blast
  ultimately show ?thesis by (simp add: wf_create_def)
qed

section \<open>The requirements of an accepted body\<close>

definition command_requirement :: "nat \<Rightarrow> string \<Rightarrow> contract_check" where
  "command_requirement n s =
     \<lparr>cc_id = ''contract-user-'' @ pad3 n, cc_kind = CommandCheck, cc_command = Some s, cc_path = None,
      cc_text = None, cc_exit = Some 0, cc_stdout = None, cc_criteria = [], cc_source = FromContract\<rparr>"

definition artifact_requirement :: "nat \<Rightarrow> string \<Rightarrow> contract_check" where
  "artifact_requirement n a =
     \<lparr>cc_id = ''contract-user-'' @ pad3 n, cc_kind = FileExistsCheck, cc_command = None, cc_path = Some a,
      cc_text = None, cc_exit = Some 0, cc_stdout = None, cc_criteria = [], cc_source = FromContract\<rparr>"

lemma command_requirement_read:
  assumes "keeps_typed co" "clean_text 1000 s" "n < 1000"
  shows "check_of_dict co (user_check_dict n [(''id'', JStr j), (''kind'', JStr ''command''),
      (''command'', JStr s), (''expect_exit'', JInt 0), (''source'', JStr ''contract'')]) =
    Inr (command_requirement n s)"
proof -
  have "kind_field (JStr ''command'') = Inr CommandCheck" "source_field (JStr ''contract'') = Inr FromContract"
    using kind_field_value [of CommandCheck] source_field_value [of FromContract] by simp_all
  moreover have "co_exit co (JInt 0) = Some (Some 0)" using assms(1) by (simp add: keeps_typed_def)
  ultimately show ?thesis
    using assms(2,3) length_pad3 [of n]
    by (simp add: check_of_dict_def user_check_dict_def dset_def command_requirement_def clean_text_def
        valid_path_def target_given_def text_or_empty_def Let_def)
qed

lemma artifact_requirement_read:
  assumes "clean_text 500 a" "posix_relative a" "n < 1000"
  shows "check_of_dict co (user_check_dict n [(''id'', JStr j), (''kind'', JStr ''file_exists''),
      (''path'', JStr a), (''source'', JStr ''contract'')]) = Inr (artifact_requirement n a)"
proof -
  have "kind_field (JStr ''file_exists'') = Inr FileExistsCheck" "source_field (JStr ''contract'') = Inr FromContract"
    using kind_field_value [of FileExistsCheck] source_field_value [of FromContract] by simp_all
  then show ?thesis
    using assms length_pad3 [of n]
    by (simp add: check_of_dict_def user_check_dict_def dset_def artifact_requirement_def clean_text_def
        valid_path_def target_given_def text_or_empty_def Let_def)
qed

lemma append_required_ok:
  assumes "list_all2 (\<lambda>(n, raw) k. check_of_dict co (user_check_dict n raw) = Inr k) raws ks"
  shows "\<exists>q. append_required co raws p = Inr q \<and> cp_checks q = cp_checks p @ ks \<and>
    set (cp_artifacts p) \<subseteq> set (cp_artifacts q) \<and>
    (\<forall>k \<in> set ks. cc_kind k = FileExistsCheck \<and> text_or_empty (cc_path k) \<noteq> [] \<longrightarrow>
       text_or_empty (cc_path k) \<in> set (cp_artifacts q))"
  using assms
proof (induction raws ks arbitrary: p rule: list_all2_induct)
  case Nil
  then show ?case by simp
next
  case (Cons r raws k ks)
  obtain n raw where r: "r = (n, raw)" by (rule prod.exhaust)
  let ?p = "p\<lparr>cp_checks := cp_checks p @ [k],
      cp_artifacts := (if cc_kind k = FileExistsCheck \<and> text_or_empty (cc_path k) \<noteq> [] \<and>
          text_or_empty (cc_path k) \<notin> set (cp_artifacts p)
        then cp_artifacts p @ [text_or_empty (cc_path k)] else cp_artifacts p)\<rparr>"
  from Cons.IH [of ?p] obtain q where q: "append_required co raws ?p = Inr q" "cp_checks q = cp_checks ?p @ ks"
    "set (cp_artifacts ?p) \<subseteq> set (cp_artifacts q)"
    "\<forall>k \<in> set ks. cc_kind k = FileExistsCheck \<and> text_or_empty (cc_path k) \<noteq> [] \<longrightarrow>
       text_or_empty (cc_path k) \<in> set (cp_artifacts q)"
    by blast
  then show ?case using Cons.hyps(1) r by (intro exI [of _ q]) (auto split: if_splits)
qed

definition requirements :: "task_create \<Rightarrow> contract_check list" where
  "requirements p =
     map (\<lambda>(n, s). command_requirement n s) (enumerate 1 (tc_verification_commands p)) @
     map (\<lambda>(n, a). artifact_requirement n a)
       (enumerate (1 + length (tc_verification_commands p)) (tc_required_artifacts p))"

lemma requirements_read:
  assumes "wf_create lib c p" "keeps_typed co"
  shows "list_all2 (\<lambda>(n, raw) k. check_of_dict co (user_check_dict n raw) = Inr k)
    (enumerate 1 (take 40 (contract_checks p))) (requirements p)"
proof -
  let ?cs = "tc_verification_commands p" and ?as = "tc_required_artifacts p"
  have wf: "length ?cs \<le> 8" "list_all (clean_text 1000) ?cs" "length ?as \<le> 32"
    "list_all (\<lambda>a. clean_text 500 a \<and> posix_relative a) ?as"
    using assms(1) by (simp_all add: wf_create_def)
  then have n: "length (contract_checks p) = length ?cs + length ?as" "length (contract_checks p) \<le> 40"
    by (simp_all add: contract_checks_def del: upt_Suc)
  show ?thesis
    unfolding list_all2_conv_all_nth
  proof (intro conjI allI impI)
    show "length (enumerate 1 (take 40 (contract_checks p))) = length (requirements p)"
      using n by (simp add: requirements_def)
  next
    fix j
    assume "j < length (enumerate 1 (take 40 (contract_checks p)))"
    then have j: "j < length ?cs + length ?as" using n by simp
    show "(\<lambda>(n, raw) k. check_of_dict co (user_check_dict n raw) = Inr k)
        (enumerate 1 (take 40 (contract_checks p)) ! j) (requirements p ! j)"
    proof (cases "j < length ?cs")
      case True
      then show ?thesis
        using j n wf command_requirement_read [OF assms(2), of "?cs ! j" "Suc j"]
        by (simp add: nth_enumerate_eq contract_checks_def requirements_def nth_append list_all_length
            del: upt_Suc)
    next
      case False
      then show ?thesis
        using j n wf artifact_requirement_read [of "?as ! (j - length ?cs)" "Suc j" co]
        by (simp add: nth_enumerate_eq contract_checks_def requirements_def nth_append list_all_length
            del: upt_Suc)
    qed
  qed
qed

lemma requirements_wf:
  assumes "wf_create lib c p"
  shows "list_all wf_check (requirements p)"
  using assms length_pad3
  by (auto simp: requirements_def wf_create_def list_all_iff wf_check_def command_requirement_def
      artifact_requirement_def clean_text_def target_given_def text_or_empty_def wf_path_def
      in_set_enumerate_eq)

text \<open>
  C18. A body the interface accepts has typed, bounded and cleaned values: text lengths, limits,
  a canonical host policy, artifacts inside the workspace. Every command and artifact it requires
  becomes one valid check of the contract that is compiled later: none is lost or refused.
\<close>

theorem accepted_body_typed:
  assumes "task_create_of_dict lib co c d = Inr (p, auto)" "keeps_typed co"
  shows "wf_create lib c p \<and> list_all wf_check (requirements p) \<and>
    (\<exists>q. merge_required_checks co prior (required_checks (published_task c subject i p b ps)) = Inr q \<and>
       cp_checks q = cp_checks prior @ requirements p \<and>
       set (tc_required_artifacts p) \<subseteq> set (cp_artifacts q))"
proof -
  have wf: "wf_create lib c p" using assms(1) by (rule accepted_typed)
  have checks: "required_checks (published_task c subject i p b ps) = contract_checks p"
    by (simp add: published_task_def bind_project_def Let_def)
  obtain q where q: "merge_required_checks co prior (contract_checks p) = Inr q"
    "cp_checks q = cp_checks prior @ requirements p"
    "\<forall>k \<in> set (requirements p). cc_kind k = FileExistsCheck \<and> text_or_empty (cc_path k) \<noteq> [] \<longrightarrow>
       text_or_empty (cc_path k) \<in> set (cp_artifacts q)"
    using append_required_ok [OF requirements_read [OF wf assms(2)], of prior]
    by (auto simp: merge_required_checks_def)
  have "set (tc_required_artifacts p) \<subseteq> set (cp_artifacts q)"
  proof
    fix a
    assume a: "a \<in> set (tc_required_artifacts p)"
    then obtain j where j: "j < length (tc_required_artifacts p)" "tc_required_artifacts p ! j = a"
      by (auto simp: in_set_conv_nth)
    let ?n = "1 + length (tc_verification_commands p) + j"
    have "(?n, a) \<in> set (enumerate (1 + length (tc_verification_commands p)) (tc_required_artifacts p))"
      using j by (simp add: in_set_enumerate_eq)
    then have "artifact_requirement ?n a \<in> set (requirements p)" unfolding requirements_def by force
    moreover have "a \<noteq> []" using a wf by (auto simp: wf_create_def list_all_iff clean_text_def)
    ultimately show "a \<in> set (cp_artifacts q)"
      using q(3) by (force simp: artifact_requirement_def text_or_empty_def)
  qed
  then show ?thesis using wf requirements_wf [OF wf] q checks by auto
qed

definition sample_body :: jdict where
  "sample_body =
     [(''goal'', JStr ''make it''), (''verification_commands'', JArr [JStr '' make '', JStr '' '']),
      (''required_artifacts'', JArr [JStr ''a/b'', JStr '' a/b''])]"

definition sample_create :: task_create where
  "sample_create =
     \<lparr>tc_goal = ''make it'', tc_success_criteria = None, tc_verification_commands = [''make''],
      tc_required_artifacts = [''a/b''], tc_verification_mode = None, tc_project_id = ''default'',
      tc_project_path = None, tc_limits = \<lparr>li_max_steps = None, li_token_budget = None\<rparr>,
      tc_allowed_tools = None, tc_capabilities = None, tc_allow_egress = False, tc_egress_hosts = None,
      tc_require_approval = False, tc_use_browser = False, tc_use_email = False,
      tc_use_calendar = False, tc_use_vision = False, tc_chat_id = None, tc_skill = None,
      tc_idempotency_key = None\<rparr>"

lemma sample_body_read:
  "task_create_of_dict lib strict_coercions default_settings sample_body = Inr (sample_create, True)"
proof -
  have "validate_verification_commands ['' make '', '' ''] = Inr [''make'']"
    "validate_required_artifacts [''a/b'', '' a/b''] = Inr [''a/b'']" by code_simp+
  then show ?thesis
    by (simp add: task_create_of_dict_def sample_body_def sample_create_def validate_network_authority_def
        settle_hosts_def given_list_def wants_network_def default_settings_def)
qed

definition sample_prior :: proposal where
  "sample_prior =
     \<lparr>cp_criteria = [''works''], cp_checks = [], cp_artifacts = [], cp_risk = LowRisk,
      cp_assumptions = [], cp_confidence = 90, cp_authority = []\<rparr>"

theorem accepted_body_typed_witness:
  "\<forall>lib. wf_create lib default_settings sample_create \<and>
     (\<exists>q. merge_required_checks strict_coercions sample_prior (contract_checks sample_create) = Inr q \<and>
        map cc_path (cp_checks q) = [None, Some ''a/b''] \<and> ''a/b'' \<in> set (cp_artifacts q))"
proof
  fix lib
  have "required_checks (published_task default_settings ''local'' ''t1'' sample_create None None) =
      contract_checks sample_create"
    by (simp add: published_task_def bind_project_def Let_def)
  moreover have "cp_checks sample_prior = []" by (simp add: sample_prior_def)
  moreover have "map cc_path (requirements sample_create) = [None, Some ''a/b'']"
    by (simp add: requirements_def sample_create_def command_requirement_def artifact_requirement_def)
  ultimately show "wf_create lib default_settings sample_create \<and>
     (\<exists>q. merge_required_checks strict_coercions sample_prior (contract_checks sample_create) = Inr q \<and>
        map cc_path (cp_checks q) = [None, Some ''a/b''] \<and> ''a/b'' \<in> set (cp_artifacts q))"
    using accepted_body_typed [OF sample_body_read [of lib] strict_keeps_typed, of sample_prior "''local''" "''t1''" None None]
    by (auto simp: sample_create_def)
qed

text \<open>The length of a goal is checked before it is stripped.\<close>

lemma blank_goal_accepted:
  "\<exists>p. task_create_of_dict lib strict_coercions default_settings [(''goal'', JStr ''    '')] = Inr (p, True) \<and>
     goal (published_task default_settings ''local'' ''t1'' p None None) = []"
proof -
  have "py_strip ''    '' = []" by code_simp
  then show ?thesis
    by (simp add: task_create_of_dict_def validate_network_authority_def settle_hosts_def given_list_def
        wants_network_def default_settings_def published_task_def bind_project_def Let_def)
qed

end
