(* ===== verification/Task_View.thy ===== *)
theory Task_View
  imports Task_Schema
begin

text \<open>
  \<^verbatim>\<open>TaskRead.from_model\<close> of \<^verbatim>\<open>schemas/task.py\<close>: the answer the interface gives for a row, and the
  rows for which there is one. \<open>uuid_text\<close> is what pydantic makes of the text of a UUID (\<open>None\<close>
  when it is not one); the two timestamps of the row are not modelled.
\<close>

section \<open>The answer\<close>

record loop_read =
  lr_state :: loop_state
  lr_reason :: "string option"
  lr_sequence :: int

record enforcement_read =
  er_provider_gateway :: bool
  er_browser_gateway :: bool
  er_email_gateway :: bool
  er_calendar_gateway :: bool
  er_vision_gateway :: bool
  er_egress_proxy :: bool

record authority_read =
  ar_schema :: string
  ar_requested :: "string list option"
  ar_resolved :: "string list"
  ar_hosts :: "string list"
  ar_sandbox :: "string option"
  ar_audit :: "jdict list"
  ar_enforcement :: enforcement_read

record feedback_read =
  fr_revision :: int
  fr_kind :: feedback
  fr_feedback :: string
  fr_previous :: string

record specification_read =
  sr_goal :: string
  sr_criteria :: "string list"
  sr_history :: "feedback_read list"
  sr_contract_hash :: "string option"
  sr_receipt_hash :: "string option"

record revision_read =
  rr_session :: string
  rr_revision :: int
  rr_previous :: "string option"
  rr_superseded :: "string option"
  rr_kind :: "feedback option"
  rr_delta :: "string option"
  rr_specification :: specification_read
  rr_hash :: string
  rr_latest :: bool

record binding_read =
  br_path :: string
  br_commit :: string
  br_branch :: "string option"
  br_state :: string
  br_patch :: "string option"

record task_read =
  tr_id :: string
  tr_goal :: string
  tr_owner :: string
  tr_project :: string
  tr_status :: string
  tr_loop :: loop_read
  tr_rubric :: "string list"
  tr_criteria_source :: string
  tr_mode :: string
  tr_required :: "jdict list"
  tr_baseline :: "jdict list"
  tr_contract :: "draft option"
  tr_contract_hash :: "string option"
  tr_contract_status :: string
  tr_question :: "string option"
  tr_tools :: "string list option"
  tr_authority :: authority_read
  tr_allow_egress :: bool
  tr_hosts :: "string list option"
  tr_approval :: bool
  tr_browser :: bool
  tr_email :: bool
  tr_calendar :: bool
  tr_vision :: bool
  tr_skill :: "string option"
  tr_parent :: "string option"
  tr_depth :: int
  tr_revision :: "revision_read option"
  tr_key :: "string option"
  tr_attempt :: int
  tr_limits :: "int \<times> int"
  tr_summary :: "string option"
  tr_score :: int
  tr_verified_by :: "string option"
  tr_receipt :: "string option"
  tr_sandbox :: "string option"
  tr_steps :: int
  tr_tokens :: int
  tr_change_set :: "binding_read option"
  tr_stop :: "string option"
  tr_error :: "string option"

section \<open>Reading a row\<close>

fun uuid_field :: "(string \<Rightarrow> string option) \<Rightarrow> json \<Rightarrow> string result" where
  "uuid_field uuid_text (JStr s) = or_invalid (uuid_text s)"
| "uuid_field uuid_text _ = Inl ValueError"

definition feedback_of_dict :: "coercions \<Rightarrow> (string \<Rightarrow> string option) \<Rightarrow> jdict \<Rightarrow> feedback_read result" where
  "feedback_of_dict co uuid_text d =
     rbind (field d ''revision'' (Inl ValueError) (int_field co 2)) (\<lambda>n.
     rbind (field d ''kind'' (Inl ValueError) feedback_kind_field) (\<lambda>k.
     rbind (field d ''feedback'' (Inl ValueError) plain_text) (\<lambda>fb.
     rbind (field d ''previous_task_id'' (Inl ValueError) (uuid_field uuid_text)) (\<lambda>i.
       Inr \<lparr>fr_revision = n, fr_kind = k, fr_feedback = fb, fr_previous = i\<rparr>))))"

definition specification_of_dict ::
  "coercions \<Rightarrow> (string \<Rightarrow> string option) \<Rightarrow> jdict \<Rightarrow> specification_read result" where
  "specification_of_dict co uuid_text d =
     rbind (field d ''schema'' (field d ''schema_version'' (Inl ValueError) (literal_field specification_schema))
       (literal_field specification_schema)) (\<lambda>_.
     rbind (field d ''original_goal'' (Inl ValueError) plain_text) (\<lambda>g.
     rbind (field d ''required_acceptance_criteria'' (Inl ValueError) (any_list plain_text)) (\<lambda>criteria.
     rbind (field d ''feedback_history'' (Inl ValueError)
       (any_list (object_field (feedback_of_dict co uuid_text)))) (\<lambda>history.
     rbind (field d ''previous_contract_hash'' (Inl ValueError) (optional_field plain_text)) (\<lambda>ch.
     rbind (field d ''previous_receipt_hash'' (Inl ValueError) (optional_field plain_text)) (\<lambda>rh.
       Inr \<lparr>sr_goal = g, sr_criteria = criteria, sr_history = history, sr_contract_hash = ch,
            sr_receipt_hash = rh\<rparr>))))))"

definition shown_status :: "task \<Rightarrow> string" where
  "shown_status t =
     (if status t = status_value CompletedStatus \<and> stop_reason t \<noteq> Some (stop_value GoalAchieved)
      then status_value StoppedStatus else status t)"

definition loop_of_row :: "task \<Rightarrow> loop_read result" where
  "loop_of_row t =
     rbind (or_invalid (loop_state_of (loop_state t))) (\<lambda>st.
       Inr \<lparr>lr_state = st, lr_reason = transition_reason t, lr_sequence = transition_sequence t\<rparr>)"

definition contract_of_row :: "coercions \<Rightarrow> task \<Rightarrow> draft option result" where
  "contract_of_row co t =
     (case contract_draft t of
        None \<Rightarrow> Inr None
      | Some d \<Rightarrow> if d = [] then Inr None else rbind (draft_of_dict co d) (\<lambda>r. Inr (Some r)))"

definition enforcement_of :: "settings \<Rightarrow> enforcement_read" where
  "enforcement_of c =
     \<lparr>er_provider_gateway = (nonempty_opt (agent_provider_gateway_url c) \<or>
        nonempty_opt (agent_email_gateway_url c) \<or> nonempty_opt (agent_calendar_gateway_url c) \<or>
        nonempty_opt (agent_vision_gateway_url c)),
      er_browser_gateway = nonempty_opt (agent_browser_gateway_url c),
      er_email_gateway = nonempty_opt (agent_email_gateway_url c),
      er_calendar_gateway = nonempty_opt (agent_calendar_gateway_url c),
      er_vision_gateway = nonempty_opt (agent_vision_gateway_url c),
      er_egress_proxy = nonempty_opt (agent_egress_proxy_url c)\<rparr>"

definition authority_of_row :: "settings \<Rightarrow> task \<Rightarrow> authority_read" where
  "authority_of_row c t =
     \<lparr>ar_schema = authority_schema t, ar_requested = requested_capabilities t,
      ar_resolved = resolved_capabilities t,
      ar_hosts = (case task_egress_hosts t of None \<Rightarrow> [] | Some hs \<Rightarrow> hs),
      ar_sandbox = sandbox t, ar_audit = authority_audit t, ar_enforcement = enforcement_of c\<rparr>"

definition kind_of_row :: "string option \<Rightarrow> feedback option result" where
  "kind_of_row k = (case k of None \<Rightarrow> Inr None | Some s \<Rightarrow> rbind (feedback_kind_field (JStr s)) (\<lambda>f. Inr (Some f)))"

definition revision_of_row :: "coercions \<Rightarrow> (string \<Rightarrow> string option) \<Rightarrow> task \<Rightarrow> revision_read option result" where
  "revision_of_row co uuid_text t =
     (case (product_session_id t, product_revision t, product_specification t, specification_hash_of t) of
        (Some sid, Some n, Some spec, Some h) \<Rightarrow>
          if n = 0 \<or> spec = [] \<or> h = [] then Inr None
          else
            rbind (kind_of_row (feedback_kind t)) (\<lambda>k.
            rbind (specification_of_dict co uuid_text spec) (\<lambda>sp.
              Inr (Some \<lparr>rr_session = sid, rr_revision = n, rr_previous = previous_revision_id t,
                 rr_superseded = superseded_by_id t, rr_kind = k, rr_delta = feedback_delta t,
                 rr_specification = sp, rr_hash = h, rr_latest = (superseded_by_id t = None)\<rparr>)))
      | _ \<Rightarrow> Inr None)"

definition binding_of_row :: "task \<Rightarrow> binding_read option result" where
  "binding_of_row t =
     (if \<not> nonempty_opt (project_source_path t) then Inr None
      else
        (case (project_relative_path t, project_base_commit t, change_state t) of
           (Some path, Some base, Some st) \<Rightarrow>
             Inr (Some \<lparr>br_path = path, br_commit = base, br_branch = project_base_branch t,
                br_state = st, br_patch = applied_patch_sha256 t\<rparr>)
         | _ \<Rightarrow> Inl ValueError))"

definition from_model :: "coercions \<Rightarrow> (string \<Rightarrow> string option) \<Rightarrow> settings \<Rightarrow> task \<Rightarrow> task_read result" where
  "from_model co uuid_text c t =
     rbind (loop_of_row t) (\<lambda>loop.
     rbind (contract_of_row co t) (\<lambda>contract.
     rbind (revision_of_row co uuid_text t) (\<lambda>revision.
     rbind (binding_of_row t) (\<lambda>binding.
       Inr \<lparr>tr_id = task_id t, tr_goal = goal t, tr_owner = owner_id t, tr_project = project_id t,
            tr_status = shown_status t, tr_loop = loop, tr_rubric = rubric t,
            tr_criteria_source = criteria_source t, tr_mode = verification_mode t,
            tr_required = required_checks t, tr_baseline = baseline_checks t,
            tr_contract = contract, tr_contract_hash = contract_hash t,
            tr_contract_status = contract_status t, tr_question = pending_question t,
            tr_tools = allowed_tool_names t, tr_authority = authority_of_row c t,
            tr_allow_egress = allow_egress t, tr_hosts = task_egress_hosts t,
            tr_approval = require_approval t, tr_browser = use_browser t, tr_email = use_email t,
            tr_calendar = use_calendar t, tr_vision = use_vision t, tr_skill = skill t,
            tr_parent = parent_id t, tr_depth = task_depth t, tr_revision = revision,
            tr_key = idempotency_key t, tr_attempt = attempt t,
            tr_limits = (max_steps t, token_budget t), tr_summary = run_summary t,
            tr_score = verification_score t, tr_verified_by = verified_by t,
            tr_receipt = receipt_hash t, tr_sandbox = sandbox t, tr_steps = steps_used t,
            tr_tokens = tokens_used t, tr_change_set = binding, tr_stop = stop_reason t,
            tr_error = run_error t\<rparr>))))"

section \<open>The rows the services store\<close>

text \<open>The columns an answer takes apart; every other column is copied.\<close>

definition shape :: "task \<Rightarrow> (string \<times> string \<times> jdict option) \<times>
    (string option \<times> int option \<times> jdict option \<times> string option \<times> string option) \<times>
    (string option \<times> string option \<times> string option)" where
  "shape t =
     ((task_id t, loop_state t, contract_draft t),
      (product_session_id t, product_revision t, product_specification t, specification_hash_of t, feedback_kind t),
      (project_source_path t, project_relative_path t, project_base_commit t))"

text \<open>
  How rows come about: published from an accepted body, retried, revised, moved by the loop
  policy, given a compiled contract, and edited in columns that are only copied.
\<close>

inductive stored_row :: "host_lib \<Rightarrow> coercions \<Rightarrow> (string \<Rightarrow> string option) \<Rightarrow> task \<Rightarrow> bool"
  for lib co uuid_text where
  stored_published: "task_create_of_dict lib co c d = Inr (p, auto) \<Longrightarrow> uuid_text i \<noteq> None \<Longrightarrow>
    (b = None \<longleftrightarrow> ps = None) \<Longrightarrow> stored_row lib co uuid_text (published_task c subject i p b ps)"
| stored_retried: "stored_row lib co uuid_text og \<Longrightarrow> uuid_text i \<noteq> None \<Longrightarrow>
    stored_row lib co uuid_text (retried_task c subject i og b)"
| stored_revised: "stored_row lib co uuid_text og \<Longrightarrow> uuid_text i \<noteq> None \<Longrightarrow>
    product_revision og \<notin> {None, Some 0} \<Longrightarrow>
    revised_specification og (rv_feedback r) (rv_kind r) = Inr spec \<Longrightarrow>
    stored_row lib co uuid_text (revision_task c subject i og r ps spec g b)"
| stored_moved: "stored_row lib co uuid_text t \<Longrightarrow> loop_step t l = Some t' \<Longrightarrow> stored_row lib co uuid_text t'"
| stored_contract: "stored_row lib co uuid_text t \<Longrightarrow> wf_draft dr \<Longrightarrow>
    stored_row lib co uuid_text (t\<lparr>contract_draft := Some (dump_draft dr)\<rparr>)"
| stored_edited: "stored_row lib co uuid_text t \<Longrightarrow> shape t' = shape t \<Longrightarrow> status t' = status t \<Longrightarrow>
    stop_reason t' = stop_reason t \<Longrightarrow> (change_state t' = None \<longrightarrow> change_state t = None) \<Longrightarrow>
    stored_row lib co uuid_text t'"

definition readable_specification :: "coercions \<Rightarrow> (string \<Rightarrow> string option) \<Rightarrow> jdict \<Rightarrow> bool" where
  "readable_specification co uuid_text spec =
     ((\<exists>sp. specification_of_dict co uuid_text spec = Inr sp) \<and>
      (\<exists>g. dget spec ''original_goal'' = JStr g) \<and>
      (\<exists>xs fs. dget spec ''feedback_history'' = JArr xs \<and>
         map_result (object_field (feedback_of_dict co uuid_text)) xs = Inr fs))"

definition row_ok :: "coercions \<Rightarrow> (string \<Rightarrow> string option) \<Rightarrow> task \<Rightarrow> bool" where
  "row_ok co uuid_text t =
     (coherent t \<and> uuid_text (task_id t) \<noteq> None \<and>
      (case contract_draft t of None \<Rightarrow> True | Some d \<Rightarrow> \<exists>dr. draft_of_dict co d = Inr dr) \<and>
      (case product_revision t of None \<Rightarrow> True | Some n \<Rightarrow> 1 \<le> n) \<and>
      (case product_specification t of None \<Rightarrow> True | Some spec \<Rightarrow> readable_specification co uuid_text spec) \<and>
      (case feedback_kind t of None \<Rightarrow> True | Some k \<Rightarrow> \<exists>f. k = feedback_value f) \<and>
      (project_source_path t = None \<or>
       (project_relative_path t \<noteq> None \<and> project_base_commit t \<noteq> None \<and> change_state t \<noteq> None)))"

lemma feedback_kind_value [simp]: "feedback_kind_field (JStr (feedback_value f)) = Inr f"
  by (cases f) (simp_all add: feedback_kind_field_def)

lemma row_ok_answered:
  assumes "row_ok co uuid_text t"
  shows "\<exists>r. from_model co uuid_text c t = Inr r"
proof -
  have "\<exists>l. loop_of_row t = Inr l"
    using assms by (auto simp: row_ok_def coherent_def loop_of_row_def split: option.splits)
  moreover have "\<exists>k. contract_of_row co t = Inr k"
    using assms by (auto simp: row_ok_def contract_of_row_def split: option.splits)
  moreover have "\<exists>k. kind_of_row (feedback_kind t) = Inr k"
    using assms by (auto simp: row_ok_def kind_of_row_def split: option.splits)
  then have "\<exists>v. revision_of_row co uuid_text t = Inr v"
    using assms
    by (auto simp: row_ok_def revision_of_row_def readable_specification_def split: option.splits)
  moreover have "\<exists>b. binding_of_row t = Inr b"
    using assms by (auto simp: row_ok_def binding_of_row_def nonempty_opt_def split: option.splits)
  ultimately show ?thesis by (auto simp: from_model_def)
qed

lemma initial_readable:
  "readable_specification co uuid_text (initial_specification g criteria)"
  by (simp add: readable_specification_def specification_of_dict_def initial_specification_def dget_def
      json_strs_def map_result_map)

lemma published_row_ok:
  assumes "uuid_text i \<noteq> None"
  shows "row_ok co uuid_text (published_task c subject i p b ps)"
  using assms initial_readable
  by (simp add: row_ok_def published_task_def bind_project_def Let_def coherent_def stop_ok_def fresh_task_def)

lemma retried_row_ok:
  assumes "uuid_text i \<noteq> None"
  shows "row_ok co uuid_text (retried_task c subject i og b)"
  using assms
  by (simp add: row_ok_def retried_task_def bind_project_def Let_def coherent_def stop_ok_def fresh_task_def)

lemma map_result_append:
  "map_result f xs = Inr ys \<Longrightarrow> f x = Inr y \<Longrightarrow> map_result f (xs @ [x]) = Inr (ys @ [y])"
  by (induction xs arbitrary: ys) (auto simp: rbind_Inr)

lemma objects_are_dicts:
  "map_result (object_field f) xs = Inr ys \<Longrightarrow> filter is_dict xs = xs"
  by (induction xs arbitrary: ys) (auto simp: rbind_Inr object_field_Inr)

lemma feedback_read_written:
  assumes "keeps_typed co" "uuid_text (task_id og) = Some i" "1 \<le> revision_number og"
  shows "object_field (feedback_of_dict co uuid_text) (feedback_delta_of og fb kind) =
    Inr \<lparr>fr_revision = revision_number og + 1, fr_kind = kind, fr_feedback = py_strip fb, fr_previous = i\<rparr>"
  using assms
  by (simp add: feedback_delta_of_def feedback_of_dict_def int_field_def keeps_typed_simps int_from_def)

lemma revised_readable:
  assumes "keeps_typed co" "uuid_text (task_id og) = Some i" "1 \<le> revision_number og"
    "case product_specification og of None \<Rightarrow> True | Some spec \<Rightarrow> readable_specification co uuid_text spec"
    "revised_specification og fb kind = Inr spec"
  shows "readable_specification co uuid_text spec"
proof -
  obtain items fs where items: "iter_json (dget_or (prior_specification og) ''feedback_history'' (JArr [])) = Inr items"
    "map_result (object_field (feedback_of_dict co uuid_text)) items = Inr fs"
  proof (cases "product_specification og")
    case None
    then show ?thesis using that [of "[]" "[]"] by (simp add: prior_specification_def dget_or_def)
  next
    case (Some prior)
    with assms(4) obtain xs fs where "dget prior ''feedback_history'' = JArr xs"
      "map_result (object_field (feedback_of_dict co uuid_text)) xs = Inr fs"
      by (auto simp: readable_specification_def)
    with Some show ?thesis using that [of xs fs] iter_history by (simp add: prior_specification_def)
  qed
  note history = map_result_append [OF items(2) feedback_read_written [where uuid_text = uuid_text and og = og, OF assms(1-3), of fb kind]]
  have spec: "spec = [(''schema'', JStr specification_schema), (''original_goal'', JStr (prior_goal og)),
      (''required_acceptance_criteria'', json_strs (required_for og fb kind)),
      (''feedback_history'', JArr (items @ [feedback_delta_of og fb kind])),
      (''previous_contract_hash'', str_or_null (contract_hash og)),
      (''previous_receipt_hash'', str_or_null (receipt_hash og))]"
    using assms(5) items objects_are_dicts [OF items(2)] by (simp add: revised_specification_def)
  have plain: "\<exists>v. optional_field plain_text (str_or_null x) = Inr v" for x :: "string option"
    by (cases x) (simp_all add: str_or_null_def)
  have "\<exists>v. specification_of_dict co uuid_text spec = Inr v"
    using history plain [of "contract_hash og"] plain [of "receipt_hash og"]
    by (auto simp: spec specification_of_dict_def json_strs_def map_result_map)
  then show ?thesis
    using history by (auto simp: readable_specification_def spec dget_def)
qed

lemma revision_row_ok:
  assumes "row_ok co uuid_text og" "keeps_typed co" "uuid_text i \<noteq> None"
    "product_revision og \<notin> {None, Some 0}" "revised_specification og (rv_feedback r) (rv_kind r) = Inr spec"
  shows "row_ok co uuid_text (revision_task c subject i og r ps spec g b)"
proof -
  obtain j where "uuid_text (task_id og) = Some j" using assms(1) by (auto simp: row_ok_def)
  moreover have "1 \<le> revision_number og"
    using assms(1,4) by (auto simp: row_ok_def revision_number_def split: option.splits)
  ultimately have "readable_specification co uuid_text spec"
    using assms by (intro revised_readable [OF assms(2) _ _ _ assms(5)]) (auto simp: row_ok_def)
  then show ?thesis
    using assms
    by (auto simp: row_ok_def revision_task_def bind_project_def Let_def coherent_def stop_ok_def fresh_task_def
        split: option.splits)
qed

lemma moved_row_ok:
  assumes "row_ok co uuid_text t" "loop_step t l = Some t'"
  shows "row_ok co uuid_text t'"
proof -
  obtain ev reason sr where l: "l = (ev, reason, sr)" by (cases l)
  have "coherent t" using assms(1) by (simp add: row_ok_def)
  then have "coherent t'" using assms(2) by (rule lp.step_inv)
  then show ?thesis using assms unfolding l loop_step_iff by (auto simp: row_ok_def moved_def)
qed

lemma shape_row_ok:
  assumes "row_ok co uuid_text t" "shape t' = shape t" "status t' = status t" "stop_reason t' = stop_reason t"
    "change_state t' = None \<longrightarrow> change_state t = None"
  shows "row_ok co uuid_text t'"
proof -
  have "coherent t" using assms(1) by (simp add: row_ok_def)
  then have "coherent t'" using assms(2-4) by (auto simp: shape_def coherent_def split: option.splits)
  then show ?thesis using assms by (auto simp: row_ok_def shape_def)
qed

lemma coherent_contract [simp]: "coherent (t\<lparr>contract_draft := x\<rparr>) = coherent t" for t :: task
  by (simp add: coherent_def split: option.split)

lemma contract_row_ok:
  assumes "row_ok co uuid_text t" "draft_of_dict co d = Inr dr"
  shows "row_ok co uuid_text (t\<lparr>contract_draft := Some d\<rparr>)"
  using assms by (simp add: row_ok_def)

lemma stored_row_ok:
  assumes "stored_row lib co uuid_text t" "keeps_typed co"
  shows "row_ok co uuid_text t"
  using assms(1)
proof induction
  case (stored_published d c p auto i b ps subject)
  then show ?case by (intro published_row_ok)
next
  case (stored_retried og i c subject b)
  then show ?case by (intro retried_row_ok)
next
  case (stored_revised og i r spec c subject ps g b)
  show ?case
    by (rule revision_row_ok [OF stored_revised.IH assms(2) stored_revised.hyps(2-4)])
next
  case (stored_moved t l t')
  show ?case by (rule moved_row_ok [OF stored_moved.IH stored_moved.hyps(2)])
next
  case (stored_contract t dr)
  then show ?case using contract_row_ok [OF stored_contract.IH draft_written [OF assms(2)]] by blast
next
  case (stored_edited t t')
  show ?case by (rule shape_row_ok [OF stored_edited.IH stored_edited.hyps(2-5)])
qed

lemma bound_iff: "binding_of_row t = Inr v \<Longrightarrow> v \<noteq> None \<longleftrightarrow> nonempty_opt (project_source_path t)"
  by (auto simp: binding_of_row_def split: if_splits option.splits)

lemma completed_stop:
  assumes "stop_ok st r"
  shows "status_value (status_of st) = ''completed'' \<longleftrightarrow> r = Some ''goal_achieved''"
proof (cases "st = Completed")
  case False
  then have "r \<noteq> Some ''goal_achieved''" using assms by (auto simp: stop_ok_def stop_value.simps split: if_splits)
  then show ?thesis using False by (cases st) (simp_all add: status_value.simps)
qed (use assms in \<open>simp add: stop_ok_def stop_value.simps status_value.simps\<close>)



end
