(* ===== verification/Triggers.thy ===== *)
theory Triggers
  imports Task_Schema Task_Invariants
begin

text \<open>
  \<^verbatim>\<open>schemas/trigger.py\<close>, \<^verbatim>\<open>repositories/trigger.py\<close>, \<^verbatim>\<open>services/trigger.py\<close> and the tick of
  \<^verbatim>\<open>services/scheduler.py\<close>: saved task templates that a webhook or the clock turns into tasks.
  Times are microseconds; the table of triggers stands beside the state of the task service.
  A caller reads a trigger first and claims it later with a conditional update, so claims of
  several schedulers and requests interleave.
\<close>

section \<open>Templates\<close>

record trigger =
  tg_id :: string
  tg_name :: string
  tg_goal :: string
  tg_owner :: string
  tg_project :: string
  tg_enabled :: bool
  tg_fires :: int
  tg_max_steps :: int
  tg_budget :: int
  tg_secret :: string
  tg_tools :: "string list option"
  tg_capabilities :: "string list option"
  tg_egress :: bool
  tg_hosts :: "string list option"
  tg_approval :: bool
  tg_skill :: "string option"
  tg_interval :: "int option"
  tg_last :: "int option"

record trigger_create =
  gc_name :: string
  gc_goal :: string
  gc_project :: string
  gc_limits :: limits_in
  gc_tools :: "string list option"
  gc_capabilities :: "capability list option"
  gc_egress :: bool
  gc_hosts :: "string list option"
  gc_approval :: bool
  gc_skill :: "string option"
  gc_interval :: "int option"

definition trigger_network :: "trigger_create \<Rightarrow> bool" where
  "trigger_network p =
     (let requested = set (case gc_capabilities p of None \<Rightarrow> [] | Some cs \<Rightarrow> cs)
      in gc_egress p \<or> NetShell \<in> requested \<or> NetBrowser \<in> requested)"

definition trigger_authority :: "host_lib \<Rightarrow> settings \<Rightarrow> trigger_create \<Rightarrow> trigger_create result" where
  "trigger_authority lib c p =
     (if agent_require_egress_hosts c \<and> trigger_network p \<and> \<not> given_list (gc_hosts p) then Inl ValueError
      else rbind (settle_hosts lib (gc_hosts p)) (\<lambda>hosts. Inr (p\<lparr>gc_hosts := hosts\<rparr>)))"

definition trigger_create_of_dict ::
  "host_lib \<Rightarrow> coercions \<Rightarrow> settings \<Rightarrow> jdict \<Rightarrow> trigger_create result" where
  "trigger_create_of_dict lib co c d =
     rbind (field d ''name'' (Inl ValueError) (text_field 1 120)) (\<lambda>n.
     rbind (field d ''goal'' (Inl ValueError) (text_field 4 4000)) (\<lambda>g.
     rbind (field d ''project_id'' (Inr ''default'')
       (\<lambda>v. rbind (text_field 1 100 v) (checked project_name))) (\<lambda>project.
     rbind (field d ''limits'' (Inr \<lparr>li_max_steps = None, li_token_budget = None\<rparr>)
       (object_field (limits_of_dict co))) (\<lambda>limits.
     rbind (field d ''allowed_tools'' (Inr None) (optional_field (any_list plain_text))) (\<lambda>tools.
     rbind (field d ''capabilities'' (Inr None) (optional_field (any_list capability_field))) (\<lambda>caps.
     rbind (field d ''allow_egress'' (Inr False) (bool_field co)) (\<lambda>egress.
     rbind (field d ''egress_hosts'' (Inr None) (optional_field (any_list plain_text))) (\<lambda>hosts.
     rbind (field d ''require_approval'' (Inr False) (bool_field co)) (\<lambda>approval.
     rbind (field d ''skill'' (Inr None) (optional_field plain_text)) (\<lambda>sk.
     rbind (field d ''interval_minutes'' (Inr None) (optional_field (int_field co 1))) (\<lambda>interval.
       trigger_authority lib c
         \<lparr>gc_name = n, gc_goal = g, gc_project = project, gc_limits = limits, gc_tools = tools,
          gc_capabilities = caps, gc_egress = egress, gc_hosts = hosts, gc_approval = approval,
          gc_skill = sk, gc_interval = interval\<rparr>)))))))))))"

text \<open>\<^verbatim>\<open>TriggerService.create\<close>; identifier and secret are drawn outside.\<close>

definition create_trigger :: "settings \<Rightarrow> string \<Rightarrow> string \<Rightarrow> string \<Rightarrow> trigger_create \<Rightarrow> trigger" where
  "create_trigger c owner i secret p =
     (let lim = resolve_limits c (gc_limits p)
      in \<lparr>tg_id = i, tg_name = py_strip (gc_name p), tg_goal = py_strip (gc_goal p), tg_owner = owner,
          tg_project = gc_project p, tg_enabled = True, tg_fires = 0, tg_max_steps = fst lim,
          tg_budget = snd lim, tg_secret = secret, tg_tools = gc_tools p,
          tg_capabilities = map_option (\<lambda>cs. sorted_capabilities (set cs)) (gc_capabilities p),
          tg_egress = gc_egress p, tg_hosts = gc_hosts p, tg_approval = gc_approval p,
          tg_skill = gc_skill p, tg_interval = gc_interval p, tg_last = None\<rparr>)"

section \<open>The table\<close>

definition find_trigger :: "trigger list \<Rightarrow> string \<Rightarrow> trigger option" where
  "find_trigger rows i = find (\<lambda>t. tg_id t = i) rows"

text \<open>\<^verbatim>\<open>claim_fire\<close>: one conditional update on the time the caller read.\<close>

definition claims :: "string \<Rightarrow> int option \<Rightarrow> trigger \<Rightarrow> bool" where
  "claims i expected t = (tg_id t = i \<and> tg_enabled t \<and> tg_last t = expected)"

definition fired_row :: "int \<Rightarrow> trigger \<Rightarrow> trigger" where
  "fired_row now t = t\<lparr>tg_last := Some now, tg_fires := tg_fires t + 1\<rparr>"

definition claim_fire :: "string \<Rightarrow> int option \<Rightarrow> int \<Rightarrow> trigger list \<Rightarrow> trigger option \<times> trigger list" where
  "claim_fire i expected now rows =
     (map_option (fired_row now) (find (claims i expected) rows),
      map (\<lambda>t. if claims i expected t then fired_row now t else t) rows)"

text \<open>\<^verbatim>\<open>list\<close>: newest first; rows are kept in the order of their creation. Without a subject at most
  a hundred are read.\<close>

definition list_triggers :: "string option \<Rightarrow> trigger list \<Rightarrow> trigger list" where
  "list_triggers subject rows =
     (case subject of
        None \<Rightarrow> take 100 (rev rows)
      | Some s \<Rightarrow> filter (\<lambda>t. tg_owner t = s) (rev rows))"

datatype trigger_exc = Forbidden string | Failed svc_exc

definition get_trigger :: "string option \<Rightarrow> string \<Rightarrow> trigger list \<Rightarrow> trigger_exc + trigger" where
  "get_trigger subject i rows =
     (case find_trigger rows i of
        None \<Rightarrow> Inl (Failed (NotFoundError (''Trigger '' @ i @ '' does not exist'')))
      | Some t \<Rightarrow>
          if subject \<noteq> None \<and> Some (tg_owner t) \<noteq> subject
          then Inl (Failed (NotFoundError (''Trigger '' @ i @ '' does not exist''))) else Inr t)"

definition delete_trigger :: "string option \<Rightarrow> string \<Rightarrow> trigger list \<Rightarrow> (trigger_exc + unit) \<times> trigger list" where
  "delete_trigger subject i rows =
     (case get_trigger subject i rows of
        Inl e \<Rightarrow> (Inl e, rows)
      | Inr _ \<Rightarrow> (Inr (), filter (\<lambda>t. tg_id t \<noteq> i) rows))"

text \<open>\<^verbatim>\<open>total_seconds() >= interval * 60\<close>.\<close>

definition is_due :: "trigger \<Rightarrow> int \<Rightarrow> bool" where
  "is_due t now =
     (tg_enabled t \<and>
      (case tg_interval t of
         None \<Rightarrow> False
       | Some minutes \<Rightarrow> (case tg_last t of None \<Rightarrow> True | Some l \<Rightarrow> now - l \<ge> minutes * 60 * 1000000)))"

section \<open>Firing\<close>

definition fire_key :: "trigger \<Rightarrow> string" where
  "fire_key t = ''trigger:'' @ tg_id t @ '':'' @ show_int (tg_fires t)"

text \<open>\<^verbatim>\<open>TaskCreate(...)\<close> from typed values: the constraints of its fields and its validator.\<close>

definition construct_create :: "host_lib \<Rightarrow> settings \<Rightarrow> task_create \<Rightarrow> task_create result" where
  "construct_create lib c p =
     (if 4 \<le> length (tc_goal p) \<and> length (tc_goal p) \<le> 4000 \<and> tc_project_id p \<noteq> [] \<and>
         length (tc_project_id p) \<le> 100 \<and> project_name (tc_project_id p) \<and> wf_limits (tc_limits p) \<and>
         bounded_opt 8 128 (tc_idempotency_key p)
      then validate_network_authority lib c p else Inl ValueError)"

definition template_capabilities :: "trigger \<Rightarrow> capability list option result" where
  "template_capabilities t =
     (case tg_capabilities t of
        None \<Rightarrow> Inr None
      | Some vs \<Rightarrow> rbind (parse_capabilities vs) (\<lambda>cs. Inr (Some (filter (\<lambda>c. c \<in> cs) all_capabilities))))"

definition template_body :: "host_lib \<Rightarrow> settings \<Rightarrow> trigger \<Rightarrow> task_create result" where
  "template_body lib c t =
     rbind (template_capabilities t) (\<lambda>caps.
       construct_create lib c
         \<lparr>tc_goal = tg_goal t, tc_success_criteria = None, tc_verification_commands = [],
          tc_required_artifacts = [], tc_verification_mode = None, tc_project_id = tg_project t,
          tc_project_path = None,
          tc_limits = \<lparr>li_max_steps = Some (tg_max_steps t), li_token_budget = Some (tg_budget t)\<rparr>,
          tc_allowed_tools = tg_tools t, tc_capabilities = caps, tc_allow_egress = tg_egress t,
          tc_egress_hosts = tg_hosts t, tc_require_approval = tg_approval t, tc_use_browser = False,
          tc_use_email = False, tc_use_calendar = False, tc_use_vision = False, tc_chat_id = None,
          tc_skill = tg_skill t, tc_idempotency_key = Some (fire_key t)\<rparr>)"

type_synonym 'w trigger_state = "trigger list \<times> 'w service"

text \<open>
  What a publication meets: the identifiers drawn for the row and a session, the rows that other
  sessions commit meanwhile, and the outcome of its own commit.
\<close>

record draw =
  dw_task :: string
  dw_session :: string
  dw_others :: "task list"
  dw_commit :: bool

text \<open>\<^verbatim>\<open>fire\<close> on the trigger the caller has read; the rows may have changed since.\<close>

definition fire_seen ::
  "host_lib \<Rightarrow> ('w, 'k, 'p) env \<Rightarrow> trigger \<Rightarrow> int \<Rightarrow> draw \<Rightarrow> 'w trigger_state \<Rightarrow>
     (trigger_exc + task) \<times> 'w trigger_state" where
  "fire_seen lib ev seen now dw st =
     (if \<not> tg_enabled seen then (Inl (Failed (ConflictError ''Trigger is disabled'')), st)
      else
        (case claim_fire (tg_id seen) (tg_last seen) now (fst st) of
           (None, rows) \<Rightarrow>
             (Inl (Failed (ConflictError ''Trigger was already fired by another scheduler or request'')), (rows, snd st))
         | (Some t, rows) \<Rightarrow>
             (case template_body lib (ev_settings ev) t of
                Inl e \<Rightarrow> (Inl (Failed (PyRaise e)), (rows, snd st))
              | Inr p \<Rightarrow>
                  (case publish ev (tg_owner t) (dw_task dw) (dw_session dw) (dw_others dw) (dw_commit dw) p (snd st) of
                     (Inl e, s) \<Rightarrow> (Inl (Failed e), (rows, s))
                   | (Inr u, s) \<Rightarrow> (Inr u, (rows, s))))))"

definition fire ::
  "host_lib \<Rightarrow> ('w, 'k, 'p) env \<Rightarrow> string option \<Rightarrow> string \<Rightarrow> int \<Rightarrow> draw \<Rightarrow> 'w trigger_state \<Rightarrow>
     (trigger_exc + task) \<times> 'w trigger_state" where
  "fire lib ev subject i now dw st =
     (case get_trigger subject i (fst st) of
        Inl e \<Rightarrow> (Inl e, st)
      | Inr t \<Rightarrow> fire_seen lib ev t now dw st)"

text \<open>The secret is compared with \<^verbatim>\<open>hmac.compare_digest\<close>, which raises on text that is not ASCII.\<close>

definition fire_via_webhook ::
  "host_lib \<Rightarrow> ('w, 'k, 'p) env \<Rightarrow> string option \<Rightarrow> string \<Rightarrow> string option \<Rightarrow> int \<Rightarrow> draw \<Rightarrow> 'w trigger_state \<Rightarrow>
     (trigger_exc + task) \<times> 'w trigger_state" where
  "fire_via_webhook lib ev subject i provided now dw st =
     (case get_trigger subject i (fst st) of
        Inl e \<Rightarrow> (Inl e, st)
      | Inr t \<Rightarrow>
          if \<not> nonempty_opt provided then (Inl (Forbidden ''Invalid or missing trigger secret.''), st)
          else if \<not> ascii (the provided) \<or> \<not> ascii (tg_secret t) then (Inl (Failed (PyRaise TypeError)), st)
          else if the provided \<noteq> tg_secret t then (Inl (Forbidden ''Invalid or missing trigger secret.''), st)
          else fire lib ev subject i now dw st)"

text \<open>The route: the session of a request that raises is rolled back, with its claim.\<close>

definition webhook_request ::
  "host_lib \<Rightarrow> ('w, 'k, 'p) env \<Rightarrow> string \<Rightarrow> string option \<Rightarrow> int \<Rightarrow> draw \<Rightarrow> 'w trigger_state \<Rightarrow>
     (trigger_exc + task) \<times> 'w trigger_state" where
  "webhook_request lib ev i provided now dw st =
     (case fire_via_webhook lib ev None i provided now dw st of
        (Inl e, st') \<Rightarrow> (Inl e, (fst st, snd st'))
      | (Inr t, st') \<Rightarrow> (Inr t, st'))"

section \<open>The scheduler\<close>

text \<open>
  One tick, in one session. \<open>race t\<close> is what other sessions did to the table before \<open>t\<close> is claimed,
  \<open>start\<close> runs or enqueues the task. A conflict passes to the next trigger, any other exception
  ends the tick. Only a publication of a new task commits: \<open>saved\<close> is the table without the
  claims that are not committed, which is what the session leaves when it closes.
\<close>

fun tick_over ::
  "host_lib \<Rightarrow> ('w, 'k, 'p) env \<Rightarrow> (task \<Rightarrow> 'w service \<Rightarrow> svc_exc option \<times> 'w service) \<Rightarrow> (trigger \<Rightarrow> int \<times> draw) \<Rightarrow>
     (trigger \<Rightarrow> trigger list \<Rightarrow> trigger list) \<Rightarrow> nat \<Rightarrow> trigger list \<Rightarrow> trigger list \<Rightarrow> 'w trigger_state \<Rightarrow>
     (trigger_exc + nat) \<times> 'w trigger_state" where
  "tick_over lib ev start draws race fired saved [] st = (Inr fired, (saved, snd st))"
| "tick_over lib ev start draws race fired saved (t # ts) st =
     (case fire_seen lib ev t (fst (draws t)) (snd (draws t)) (race t (fst st), snd st) of
        (Inr u, st') \<Rightarrow>
          (let saved' = (if list_ex (\<lambda>v. task_id v = task_id u) (db_tasks (snd st)) then race t saved else fst st')
           in case start u (snd st') of
                (Some e, s) \<Rightarrow> (Inl (Failed e), (saved', s))
              | (None, s) \<Rightarrow> tick_over lib ev start draws race (fired + 1) saved' ts (fst st', s))
      | (Inl (Failed (ConflictError m)), st') \<Rightarrow> tick_over lib ev start draws race fired (race t saved) ts st'
      | (Inl e, st') \<Rightarrow> (Inl e, (race t saved, snd st')))"

definition tick ::
  "host_lib \<Rightarrow> ('w, 'k, 'p) env \<Rightarrow> (task \<Rightarrow> 'w service \<Rightarrow> svc_exc option \<times> 'w service) \<Rightarrow> (trigger \<Rightarrow> int \<times> draw) \<Rightarrow>
     (trigger \<Rightarrow> trigger list \<Rightarrow> trigger list) \<Rightarrow> string option \<Rightarrow> int \<Rightarrow> 'w trigger_state \<Rightarrow>
     (trigger_exc + nat) \<times> 'w trigger_state" where
  "tick lib ev start draws race subject now st =
     tick_over lib ev start draws race 0 (fst st) (filter (\<lambda>t. is_due t now) (list_triggers subject (fst st))) st"

section \<open>Claims in any order\<close>

fun claim_run :: "trigger list \<Rightarrow> (string \<times> int option \<times> int) list \<Rightarrow> (int option \<times> trigger) list" where
  "claim_run rows [] = []"
| "claim_run rows ((i, expected, now) # cs) =
     (case claim_fire i expected now rows of
        (None, rows') \<Rightarrow> claim_run rows' cs
      | (Some t, rows') \<Rightarrow> (expected, t) # claim_run rows' cs)"

definition one_row :: "trigger list \<Rightarrow> bool" where
  "one_row rows = distinct (map tg_id rows)"

lemma fired_row_simps [simp]:
  "tg_id (fired_row now t) = tg_id t" "tg_last (fired_row now t) = Some now" "tg_fires (fired_row now t) = tg_fires t + 1"
  by (simp_all add: fired_row_def)

lemma claim_fire_rows:
  assumes "one_row rows" "claim_fire i expected now rows = (r, rows')"
  shows "one_row rows'" "map tg_id rows' = map tg_id rows"
    "r = None \<Longrightarrow> rows' = rows"
    "r = Some t \<Longrightarrow> \<exists>u \<in> set rows. tg_id u = i \<and> tg_last u = expected \<and> tg_enabled u \<and> t = fired_row now u \<and>
       rows' = map (\<lambda>v. if tg_id v = i then t else v) rows"
proof -
  have r: "rows' = map (\<lambda>t. if claims i expected t then fired_row now t else t) rows"
    "r = map_option (fired_row now) (find (claims i expected) rows)"
    using assms(2) by (simp_all add: claim_fire_def)
  have "map tg_id rows' = map tg_id rows" unfolding r by (simp add: comp_def if_distrib cong: if_cong)
  then show "map tg_id rows' = map tg_id rows" "one_row rows'" using assms(1) by (simp_all add: one_row_def)
  show "rows' = rows" if "r = None"
    using that unfolding r by (auto simp: find_None_iff intro: map_idI)
  show "\<exists>u \<in> set rows. tg_id u = i \<and> tg_last u = expected \<and> tg_enabled u \<and> t = fired_row now u \<and>
       rows' = map (\<lambda>v. if tg_id v = i then t else v) rows" if "r = Some t"
  proof -
    have "map_option (fired_row now) (find (claims i expected) rows) = Some t" using that r(2) by simp
    then obtain u where u: "find (claims i expected) rows = Some u" "t = fired_row now u" by auto
    then have m: "u \<in> set rows" "claims i expected u" by (auto simp: find_Some_iff in_set_conv_nth)
    have "claims i expected v \<longleftrightarrow> tg_id v = i" "tg_id v = i \<Longrightarrow> v = u" if "v \<in> set rows" for v
    proof -
      show e: "v = u" if "tg_id v = i"
        using that \<open>v \<in> set rows\<close> m assms(1) by (auto simp: one_row_def claims_def distinct_map dest: inj_onD)
      show "claims i expected v \<longleftrightarrow> tg_id v = i" using e m(2) by (auto simp: claims_def)
    qed
    then have "rows' = map (\<lambda>v. if tg_id v = i then t else v) rows" unfolding r using u(2) by (auto intro!: map_cong)
    then show ?thesis using m u(2) by (auto simp: claims_def)
  qed
qed

text \<open>Counts only grow: a claim succeeds with a count above that of every earlier one.\<close>

lemma claim_run_counts:
  assumes "one_row rows" "(e, t) \<in> set (claim_run rows cs)" "u \<in> set rows" "tg_id u = tg_id t"
  shows "tg_fires u < tg_fires t"
  using assms
proof (induction cs arbitrary: rows u)
  case (Cons c cs)
  obtain i expected now where c: "c = (i, expected, now)" by (rule prod_cases3)
  obtain r rows' where r: "claim_fire i expected now rows = (r, rows')" by (rule prod.exhaust)
  note f = claim_fire_rows [OF Cons.prems(1) r]
  show ?case
  proof (cases r)
    case None
    then show ?thesis using Cons r c f by simp
  next
    case (Some t')
    then obtain v where v: "v \<in> set rows" "tg_id v = i" "t' = fired_row now v"
      "rows' = map (\<lambda>v. if tg_id v = i then t' else v) rows" using f(4) by blast
    have same: "w = v" if "w \<in> set rows" "tg_id w = i" for w
      using that v Cons.prems(1) by (auto simp: one_row_def distinct_map dest: inj_onD)
    have member: "(e, t) = (expected, t') \<or> (e, t) \<in> set (claim_run rows' cs)"
      using Cons.prems(2) r Some c by simp
    show ?thesis
    proof (cases "(e, t) = (expected, t')")
      case True
      then show ?thesis using same [OF Cons.prems(3)] Cons.prems(4) v by simp
    next
      case False
      let ?u = "if tg_id u = i then t' else u"
      have "?u \<in> set rows'" "tg_id ?u = tg_id t" using Cons.prems(3,4) v by auto
      then have "tg_fires ?u < tg_fires t" using Cons.IH [OF f(1)] member False by blast
      then show ?thesis using same [OF Cons.prems(3)] v(3) by (auto split: if_splits)
    qed
  qed
qed simp

lemma no_colon_show_int: "CHR '':'' \<notin> set (show_int n)"
proof -
  have "\<not> py_isdigit (CHR '':'')" by code_simp
  then show ?thesis using show_nat_digits by (auto simp: show_int_def)
qed

lemma split_at_last:
  assumes "a @ x # b = c @ x # d" "x \<notin> set b" "x \<notin> set d"
  shows "a = c \<and> b = d"
proof -
  have last_part: "takeWhile (\<lambda>y. y \<noteq> x) (rev (p @ x # q)) = rev q" if "x \<notin> set q" for p q
  proof -
    have "\<forall>y \<in> set (rev q). y \<noteq> x" using that by auto
    then show ?thesis by (simp add: takeWhile_append)
  qed
  have "rev b = rev d" using last_part [OF assms(2), of a] last_part [OF assms(3), of c] assms(1) by simp
  then show ?thesis using assms(1) by simp
qed

lemma show_int_inj: "show_int m = show_int n \<Longrightarrow> m = n"
  using parse_number_show_int [of "[]" m] parse_number_show_int [of "[]" n] by (simp add: delim_first_def)

lemma fire_key_inj:
  assumes "fire_key t = fire_key u"
  shows "tg_id t = tg_id u \<and> tg_fires t = tg_fires u"
proof -
  have "tg_id t @ CHR '':'' # show_int (tg_fires t) = tg_id u @ CHR '':'' # show_int (tg_fires u)"
    using assms by (simp add: fire_key_def)
  then show ?thesis using split_at_last no_colon_show_int show_int_inj by metis
qed

text \<open>A time that the row no longer shows, and that no clock shows again, is never claimed.\<close>

lemma claim_run_none:
  assumes "one_row rows" "\<forall>u \<in> set rows. tg_id u = i \<longrightarrow> tg_last u \<noteq> e" "\<forall>c \<in> set cs. Some (snd (snd c)) \<noteq> e"
  shows "filter (\<lambda>(e', t). e' = e \<and> tg_id t = i) (claim_run rows cs) = []"
  using assms
proof (induction cs arbitrary: rows)
  case (Cons c cs)
  obtain j expected now where c: "c = (j, expected, now)" by (rule prod_cases3)
  obtain r rows' where r: "claim_fire j expected now rows = (r, rows')" by (rule prod.exhaust)
  note f = claim_fire_rows [OF Cons.prems(1) r]
  show ?case
  proof (cases r)
    case None
    then show ?thesis using Cons r c f by simp
  next
    case (Some t')
    then obtain v where v: "v \<in> set rows" "tg_id v = j" "tg_last v = expected" "t' = fired_row now v"
      "rows' = map (\<lambda>v. if tg_id v = j then t' else v) rows" using f(4) by blast
    have "\<forall>u \<in> set rows'. tg_id u = i \<longrightarrow> tg_last u \<noteq> e" using Cons.prems(2,3) v c by auto
    then have "filter (\<lambda>(e', t). e' = e \<and> tg_id t = i) (claim_run rows' cs) = []"
      using Cons.prems(3) by (intro Cons.IH [OF f(1)]) auto
    moreover have "\<not> (expected = e \<and> tg_id t' = i)" using Cons.prems(2) v by auto
    ultimately show ?thesis using r Some c by simp
  qed
qed simp

lemma claim_run_once:
  assumes "one_row rows" "\<forall>c \<in> set cs. Some (snd (snd c)) \<noteq> e"
  shows "length (filter (\<lambda>(e', t). e' = e \<and> tg_id t = i) (claim_run rows cs)) \<le> 1"
  using assms
proof (induction cs arbitrary: rows)
  case (Cons c cs)
  obtain j expected now where c: "c = (j, expected, now)" by (rule prod_cases3)
  obtain r rows' where r: "claim_fire j expected now rows = (r, rows')" by (rule prod.exhaust)
  note f = claim_fire_rows [OF Cons.prems(1) r]
  have rest: "length (filter (\<lambda>(e', t). e' = e \<and> tg_id t = i) (claim_run rows' cs)) \<le> 1"
    using Cons.prems(2) by (intro Cons.IH [OF f(1)]) simp
  show ?case
  proof (cases "\<exists>t'. r = Some t' \<and> expected = e \<and> tg_id t' = i")
    case True
    then obtain t' v where v: "r = Some t'" "expected = e" "tg_id t' = i" "tg_id v = j" "t' = fired_row now v"
      "rows' = map (\<lambda>v. if tg_id v = j then t' else v) rows" using f(4) by blast
    then have "\<forall>u \<in> set rows'. tg_id u = i \<longrightarrow> tg_last u \<noteq> e" using Cons.prems(2) c by auto
    then have "filter (\<lambda>(e', t). e' = e \<and> tg_id t = i) (claim_run rows' cs) = []"
      using Cons.prems(2) by (intro claim_run_none [OF f(1)]) auto
    then show ?thesis using v(1) r c by simp
  next
    case False
    then show ?thesis using rest r c by (cases r) auto
  qed
qed simp

lemma claim_run_keys:
  assumes "one_row rows"
  shows "distinct (map (\<lambda>c. fire_key (snd c)) (claim_run rows cs))"
  using assms
proof (induction cs arbitrary: rows)
  case (Cons c cs)
  obtain j expected now where c: "c = (j, expected, now)" by (rule prod_cases3)
  obtain r rows' where r: "claim_fire j expected now rows = (r, rows')" by (rule prod.exhaust)
  note f = claim_fire_rows [OF Cons.prems r]
  show ?case
  proof (cases r)
    case None
    then show ?thesis using Cons.IH [OF f(1)] r c by simp
  next
    case (Some t')
    then obtain v where v: "v \<in> set rows" "tg_id v = j" "t' = fired_row now v"
      "rows' = map (\<lambda>v. if tg_id v = j then t' else v) rows" using f(4) by blast
    have row: "t' \<in> set rows'" using v by force
    have "fire_key t' \<noteq> fire_key u" if "(e, u) \<in> set (claim_run rows' cs)" for e u
      using claim_run_counts [OF f(1) that row] fire_key_inj [of t' u] by auto
    then show ?thesis using Cons.IH [OF f(1)] r c Some by force
  qed
qed simp

text \<open>
  C22. Schedulers and requests may claim triggers in any order on whatever they read: of all
  claims of a trigger on the same reading of its last firing at most one succeeds, and no two
  firings share an idempotency key, so none is swallowed as a repetition.
\<close>

theorem firings_exclusive:
  assumes "one_row rows"
  shows "distinct (map (\<lambda>c. fire_key (snd c)) (claim_run rows cs)) \<and>
    (\<forall>i e. (\<forall>c \<in> set cs. Some (snd (snd c)) \<noteq> e) \<longrightarrow>
       length (filter (\<lambda>(e', t). e' = e \<and> tg_id t = i) (claim_run rows cs)) \<le> 1)"
  using claim_run_keys [OF assms] claim_run_once [OF assms] by blast

definition sample_trigger :: trigger where
  "sample_trigger =
     \<lparr>tg_id = ''t'', tg_name = ''nightly'', tg_goal = ''tidy the notes'', tg_owner = ''me'',
      tg_project = ''default'', tg_enabled = True, tg_fires = 0, tg_max_steps = 9000, tg_budget = 5000,
      tg_secret = ''key'', tg_tools = None, tg_capabilities = Some [''exec''], tg_egress = False,
      tg_hosts = None, tg_approval = True, tg_skill = None, tg_interval = Some 60, tg_last = None\<rparr>"

theorem firings_exclusive_witness:
  "length (claim_run [sample_trigger] [(''t'', None, 5), (''t'', None, 7), (''t'', Some 5, 7)]) = 2 \<and>
   distinct (map (\<lambda>c. fire_key (snd c))
     (claim_run [sample_trigger] [(''t'', None, 5), (''t'', None, 7), (''t'', Some 5, 7)]))"
proof -
  have "one_row [sample_trigger]" by (simp add: one_row_def)
  from firings_exclusive [OF this, of "[(''t'', None, 5), (''t'', None, 7), (''t'', Some 5, 7)]"]
  show ?thesis by (simp add: claim_fire_def claims_def fired_row_def sample_trigger_def)
qed

section \<open>What a firing publishes\<close>

lemma publish_plain:
  assumes "publish ev subject i sid others ok p s = (Inr t, s')" "tc_project_path p = None"
    "tc_idempotency_key p = Some k" "k \<noteq> []"
  shows "(s' = s \<and> t \<in> set (db_tasks s) \<and> idempotency_key t = Some k \<and> owner_id t = subject) \<or>
    (db_tasks s' = db_tasks s @ others @ [t] \<and> t = published_task (ev_settings ev) subject i p None None)"
proof (cases "get_by_idempotency_key (db_tasks s) k subject")
  case None
  let ?t = "published_task (ev_settings ev) subject i p None None" and ?w = "winner_or_raise subject (Some k)"
  define b where "b = with_tasks (\<lambda>rows. rows @ others) s"
  have bt: "db_tasks b = db_tasks s @ others" by (simp add: b_def with_tasks_def)
  have lookup: "by_key subject (Some k) s = (Inr None, s)"
    using None assms(4) by (simp add: by_key_def nonempty_opt_def gets_def)
  have "publish_row ev subject i sid ok p None b b = (Inr t, s')"
    using assms(1) unfolding publish_def bindE_def [of "by_key subject _"] assms(2,3) lookup
    by (simp add: optionally_def nonempty_opt_def b_def)
  then have c: "\<not> list_ex (conflicts ?t) (db_tasks b)"
    "catchE (thenE (commit ok) (ret ?t)) (\<lambda>e. thenE (modify (rollback b)) ?w)
      (b\<lparr>db_tasks := db_tasks b @ [?t]\<rparr>) = (Inr t, s')"
    by (auto simp: publish_row_def optionally_def assms(3))
  show ?thesis
  proof (cases ok)
    case True
    then have "t = ?t \<and> s' = b\<lparr>db_tasks := db_tasks b @ [?t]\<rparr>"
      using c(2) by (auto simp: catchE_def thenE_def commit_def whenE_def bindE_def ret_def)
    then show ?thesis by (simp add: bt)
  next
    case False
    then have "?w (rollback b (b\<lparr>db_tasks := db_tasks b @ [?t]\<rparr>)) = (Inr t, s')"
      using c(2) by (simp add: catchE_def thenE_def commit_def whenE_def bindE_def raise_def modify_def)
    then show ?thesis
      using no_winner [of ?t "rollback b (b\<lparr>db_tasks := db_tasks b @ [?t]\<rparr>)"] c(1) assms(3)
      by (simp add: rollback_def)
  qed
next
  case (Some w)
  then have w: "w \<in> set (db_tasks s)" "idempotency_key w = Some k" "owner_id w = subject"
    by (auto simp: get_by_idempotency_key_def find_Some_iff in_set_conv_nth)
  have lookup: "by_key subject (Some k) s = (Inr (Some w), s)"
    using Some assms(4) by (simp add: by_key_def nonempty_opt_def gets_def)
  have "t = w \<and> s' = s"
    using assms(1) unfolding publish_def bindE_def [of "by_key subject _"] assms(3) lookup
    by (simp add: ret_def)
  then show ?thesis using w by blast
qed

text \<open>A publication that raises leaves the tables as the other sessions left them.\<close>

lemma publish_raises:
  assumes "publish ev subject i sid others ok p s = (Inl e, s')" "tc_project_path p = None"
  shows "db_steps s' = db_steps s \<and> db_tasks s' \<in> {db_tasks s, db_tasks s @ others}"
proof -
  obtain r s1 where k: "by_key subject (tc_idempotency_key p) s = (r, s1)" by (rule prod.exhaust)
  then have s1: "s1 = s" "\<exists>w. r = Inr w" by (auto simp: by_key_def gets_def ret_def split: if_splits)
  then obtain w where w: "r = Inr w" by blast
  show ?thesis
  proof (cases w)
    case None
    let ?b = "with_tasks (\<lambda>rows. rows @ others) s"
    have "in_session ?b (publish_row ev subject i sid ok p None ?b) ?b = (Inl e, s')"
      using assms(1) k w s1 None unfolding publish_def bindE_def [of "by_key subject _"] assms(2)
      by (simp add: optionally_def nonempty_opt_def bindE_def thenE_def modify_def gets_def ret_def)
    then have "\<exists>s2. s' = rollback ?b s2"
      by (auto simp: in_session_def catchE_def thenE_def bindE_def raise_def modify_def split: prod.splits sum.splits)
    then show ?thesis by (auto simp: rollback_def with_tasks_def)
  next
    case (Some t)
    then show ?thesis
      using assms(1) k w s1 unfolding publish_def bindE_def [of "by_key subject _"] by (simp add: ret_def)
  qed
qed

lemma template_body_fields:
  assumes "template_body lib c t = Inr p"
  shows "tc_project_path p = None" "tc_idempotency_key p = Some (fire_key t)" "tc_project_id p = tg_project t"
    "tc_goal p = tg_goal t" "4 \<le> length (tg_goal t)" "tc_allowed_tools p = tg_tools t"
    "tc_allow_egress p = tg_egress t" "tc_require_approval p = tg_approval t" "tc_skill p = tg_skill t"
    "settle_hosts lib (tg_hosts t) = Inr (tc_egress_hosts p)" "template_capabilities t = Inr (tc_capabilities p)"
    "tc_use_browser p = False \<and> tc_use_email p = False \<and> tc_use_calendar p = False \<and> tc_use_vision p = False"
    "tc_success_criteria p = None"
  using assms
  by (auto simp: template_body_def construct_create_def validate_network_authority_def rbind_Inr split: if_splits)

text \<open>What a task owes its template: identity, authority and limits, nothing more.\<close>

definition from_template :: "host_lib \<Rightarrow> settings \<Rightarrow> trigger \<Rightarrow> task \<Rightarrow> bool" where
  "from_template lib c t u =
     (goal u = py_strip (tg_goal t) \<and> project_id u = tg_project t \<and> project_source_path u = None \<and>
      requested_capabilities u = (case tg_capabilities t of
        None \<Rightarrow> None
      | Some vs \<Rightarrow> Some (sorted_capabilities {k. capability_value k \<in> set vs})) \<and>
      allowed_tool_names u = tg_tools t \<and> allow_egress u = tg_egress t \<and>
      settle_hosts lib (tg_hosts t) = Inr (task_egress_hosts u) \<and> require_approval u = tg_approval t \<and>
      skill u = tg_skill t \<and> \<not> use_browser u \<and> \<not> use_email u \<and> \<not> use_calendar u \<and> \<not> use_vision u \<and>
      max_steps u \<le> max 1 (agent_max_steps_cap c) \<and> token_budget u \<le> max 1000 (loop_token_budget_cap c))"

lemma all_capabilities_set: "set all_capabilities = UNIV"
proof -
  have "k \<in> set all_capabilities" for k by (cases k) (simp_all add: all_capabilities_def)
  then show ?thesis by auto
qed

lemma template_published:
  assumes "template_body lib c t = Inr p"
  shows "from_template lib c t (published_task c owner i p None None)"
proof -
  note f = template_body_fields [OF assms]
  have "requested_of p False = (case tg_capabilities t of
      None \<Rightarrow> None | Some vs \<Rightarrow> Some (sorted_capabilities {k. capability_value k \<in> set vs}))"
  proof (cases "tg_capabilities t")
    case None
    then show ?thesis using f(11) by (simp add: template_capabilities_def requested_of_def)
  next
    case (Some vs)
    then obtain cs where cs: "parse_capabilities vs = Inr cs" "tc_capabilities p = Some (filter (\<lambda>c. c \<in> cs) all_capabilities)"
      using f(11) by (auto simp: template_capabilities_def rbind_Inr)
    have "set (filter (\<lambda>c. c \<in> cs) all_capabilities) = cs" using all_capabilities_set by auto
    then show ?thesis using Some cs parse_capabilities_ok [OF cs(1)] by (simp add: requested_of_def)
  qed
  then show ?thesis
    using f by (simp add: from_template_def published_task_def bind_project_def Let_def resolve_limits_def
        min.coboundedI2 max.coboundedI2)
qed

lemma fire_key_nonempty [simp]: "fire_key t \<noteq> []"
  by (simp add: fire_key_def)

lemma fire_seen_Inr:
  assumes "fire_seen lib ev seen now dw (rows, s) = (Inr u, (rows', s'))" "one_row rows"
  shows "\<exists>t \<in> set rows. tg_id t = tg_id seen \<and> tg_enabled t \<and> tg_last t = tg_last seen \<and>
    rows' = map (\<lambda>v. if tg_id v = tg_id seen then fired_row now t else v) rows \<and>
    owner_id u = tg_owner t \<and> idempotency_key u = Some (fire_key (fired_row now t)) \<and>
    (s' = s \<and> u \<in> set (db_tasks s) \<or>
     db_tasks s' = db_tasks s @ dw_others dw @ [u] \<and> task_id u = dw_task dw \<and> from_template lib (ev_settings ev) t u)"
proof -
  obtain r rs where r: "claim_fire (tg_id seen) (tg_last seen) now rows = (r, rs)" by (rule prod.exhaust)
  have on: "tg_enabled seen" using assms(1) by (auto simp: fire_seen_def split: if_splits)
  obtain t' where t': "r = Some t'" using assms(1) on r by (cases r) (auto simp: fire_seen_def)
  obtain p where body: "template_body lib (ev_settings ev) t' = Inr p"
    using assms(1) on r t' by (cases "template_body lib (ev_settings ev) t'") (auto simp: fire_seen_def)
  obtain o' v where pub: "publish ev (tg_owner t') (dw_task dw) (dw_session dw) (dw_others dw) (dw_commit dw) p s = (o', v)"
    by (rule prod.exhaust)
  have "o' = Inr u \<and> v = s' \<and> rows' = rs"
    using assms(1) on r t' body pub by (cases o') (simp_all add: fire_seen_def)
  then have p: "r = Some t'" "template_body lib (ev_settings ev) t' = Inr p" "rows' = rs"
    "publish ev (tg_owner t') (dw_task dw) (dw_session dw) (dw_others dw) (dw_commit dw) p s = (Inr u, s')"
    using t' body pub by simp_all
  obtain t where t: "t \<in> set rows" "tg_id t = tg_id seen" "tg_last t = tg_last seen" "tg_enabled t"
    "t' = fired_row now t" "rs = map (\<lambda>v. if tg_id v = tg_id seen then t' else v) rows"
    using claim_fire_rows(4) [OF assms(2) r p(1)] by blast
  have same: "from_template lib c t' v = from_template lib c t v" "tg_owner t' = tg_owner t" for c v
    by (simp_all add: t(5) fired_row_def from_template_def)
  note pub = publish_plain [OF p(4) template_body_fields(1,2) [OF p(2)] fire_key_nonempty]
  have new: "from_template lib (ev_settings ev) t u" "idempotency_key u = Some (fire_key t')" "owner_id u = tg_owner t"
      "task_id u = dw_task dw"
    if "u = published_task (ev_settings ev) (tg_owner t') (dw_task dw) p None None"
    using template_published [OF p(2)] template_body_fields(2) [OF p(2)] same that
    by (simp_all add: published_task_def bind_project_def Let_def)
  have rows: "rows' = map (\<lambda>v. if tg_id v = tg_id seen then fired_row now t else v) rows"
    using t(5,6) p(3) by simp
  show ?thesis
  proof (intro bexI [of _ t] conjI)
    show "owner_id u = tg_owner t" by (rule disjE [OF pub]) (use new(3) same(2) in simp_all)
    show "idempotency_key u = Some (fire_key (fired_row now t))"
      unfolding t(5) [symmetric] by (rule disjE [OF pub]) (use new(2) in simp_all)
    show "s' = s \<and> u \<in> set (db_tasks s) \<or>
        db_tasks s' = db_tasks s @ dw_others dw @ [u] \<and> task_id u = dw_task dw \<and> from_template lib (ev_settings ev) t u"
      using pub new(1,4) by blast
  qed (use t rows in simp_all)
qed

lemma find_trigger_SomeD: "find_trigger rows i = Some t \<Longrightarrow> t \<in> set rows \<and> tg_id t = i"
  by (auto simp: find_trigger_def find_Some_iff in_set_conv_nth)

lemma fire_seen_Inl:
  assumes "fire_seen lib ev seen now dw (rows, s) = (Inl e, (rows', s'))"
  shows "db_steps s' = db_steps s \<and> db_tasks s' \<in> {db_tasks s, db_tasks s @ dw_others dw}"
proof (cases "s' = s")
  case False
  then have on: "tg_enabled seen" using assms by (auto simp: fire_seen_def split: if_splits)
  obtain r rs where r: "claim_fire (tg_id seen) (tg_last seen) now rows = (r, rs)" by (rule prod.exhaust)
  obtain t where t: "r = Some t" using assms on r False by (cases r) (auto simp: fire_seen_def)
  obtain p where p: "template_body lib (ev_settings ev) t = Inr p"
    using assms on r t False by (cases "template_body lib (ev_settings ev) t") (auto simp: fire_seen_def)
  obtain o' v where pub: "publish ev (tg_owner t) (dw_task dw) (dw_session dw) (dw_others dw) (dw_commit dw) p s = (o', v)"
    by (rule prod.exhaust)
  have "v = s'" "\<exists>e'. o' = Inl e'"
    using assms on r t p pub by (cases o'; simp add: fire_seen_def)+
  then show ?thesis using publish_raises [of ev _ _ _ _ _ p s] pub template_body_fields(1) [OF p] by blast
qed simp

lemma webhook_Inl:
  assumes "webhook_request lib ev i provided now dw (rows, s) = (Inl e, (rows', s'))"
  shows "rows' = rows \<and> db_steps s' = db_steps s \<and> db_tasks s' \<in> {db_tasks s, db_tasks s @ dw_others dw}"
proof -
  obtain rs where f: "fire_via_webhook lib ev None i provided now dw (rows, s) = (Inl e, (rs, s'))" "rows' = rows"
    using assms by (auto simp: webhook_request_def split: prod.splits sum.splits)
  have "s' = s \<or> (\<exists>t. fire_seen lib ev t now dw (rows, s) = (Inl e, (rs, s')))"
    using f(1) by (auto simp: fire_via_webhook_def fire_def split: sum.splits if_splits)
  then show ?thesis using fire_seen_Inl f(2) by blast
qed

lemma webhook_Inr:
  assumes "webhook_request lib ev i provided now dw (rows, s) = (Inr u, st)"
  shows "\<exists>t. find_trigger rows i = Some t \<and> provided = Some (tg_secret t) \<and> tg_secret t \<noteq> [] \<and> tg_enabled t \<and>
    fire_seen lib ev t now dw (rows, s) = (Inr u, st)"
proof -
  have f: "fire_via_webhook lib ev None i provided now dw (rows, s) = (Inr u, st)"
    using assms by (auto simp: webhook_request_def split: prod.splits sum.splits)
  obtain t where t: "find_trigger rows i = Some t"
    using f by (cases "find_trigger rows i") (auto simp: fire_via_webhook_def get_trigger_def)
  have "fire lib ev None i now dw (rows, s) = (Inr u, st)" "provided = Some (tg_secret t)" "tg_secret t \<noteq> []"
    using f t by (cases provided; auto simp: fire_via_webhook_def get_trigger_def nonempty_opt_def split: if_splits)+
  moreover have "fire_seen lib ev t now dw (rows, s) = (Inr u, st)"
    using calculation(1) t by (simp add: fire_def get_trigger_def)
  moreover have "tg_enabled t" using calculation(4) by (auto simp: fire_seen_def split: if_splits)
  ultimately show ?thesis using t by blast
qed


definition sample_draw :: draw where
  "sample_draw = \<lparr>dw_task = ''u1'', dw_session = ''s1'', dw_others = [], dw_commit = True\<rparr>"

lemma sample_key: "fire_key (fired_row now sample_trigger) = ''trigger:t:1''"
proof -
  have "show_int 1 = ''1''" by code_simp
  then show ?thesis by (simp add: fire_key_def fired_row_def sample_trigger_def)
qed

lemma sample_template_body:
  "\<exists>p. template_body lib default_settings (fired_row now sample_trigger) = Inr p"
proof -
  have p: "project_name ''default''" by code_simp
  have c: "parse_capabilities [''exec''] = Inr {Exec}"
    by (simp add: capability_of_def all_capabilities_def)
  have w: "wf_limits \<lparr>li_max_steps = Some 9000, li_token_budget = Some 5000\<rparr>"
    "bounded_opt 8 128 (Some ''trigger:t:1'')" by code_simp+
  show ?thesis
    using p c w sample_key [of now]
    by (auto simp: template_body_def template_capabilities_def construct_create_def sample_trigger_def fired_row_def
        validate_network_authority_def settle_hosts_def given_list_def wants_network_def default_settings_def
        all_capabilities_def)
qed

lemma sample_fires:
  "\<exists>u st. webhook_request lib bare_env ''t'' (Some ''key'') 5 sample_draw ([sample_trigger], empty_service) = (Inr u, st)"
proof -
  let ?t = "fired_row 5 sample_trigger"
  obtain p where p: "template_body lib default_settings ?t = Inr p" using sample_template_body by blast
  note f = template_body_fields(1,2) [OF p]
  have lookup: "by_key ''me'' (tc_idempotency_key p) empty_service = (Inr None, empty_service)"
    by (simp add: f by_key_def empty_service_def get_by_idempotency_key_def effect_defs nonempty_opt_def)
  have "\<exists>u s'. publish bare_env ''me'' ''u1'' ''s1'' [] True p empty_service = (Inr u, s')"
    unfolding publish_def bindE_def [of "by_key _ _"] lookup
    by (simp add: f optionally_def nonempty_opt_def effect_defs with_tasks_def in_session_def publish_row_def
        create_task_def commit_def empty_service_def)
  then obtain u s' where u: "publish bare_env ''me'' ''u1'' ''s1'' [] True p empty_service = (Inr u, s')" by blast
  have row: "tg_id sample_trigger = ''t''" "tg_owner ?t = ''me''" "tg_secret sample_trigger = ''key''"
    "tg_enabled sample_trigger" by (simp_all add: sample_trigger_def fired_row_def)
  have asc: "ascii ''key''" by code_simp
  have env: "ev_settings bare_env = default_settings" by (simp add: bare_env_def)
  have claim: "claim_fire ''t'' (tg_last sample_trigger) 5 [sample_trigger] = (Some ?t, [?t])"
    by (simp add: claim_fire_def claims_def row)
  have "fire_seen lib bare_env sample_trigger 5 sample_draw ([sample_trigger], empty_service) = (Inr u, ([?t], s'))"
    using u by (simp add: fire_seen_def row claim env p sample_draw_def)
  then show ?thesis
    by (simp add: webhook_request_def fire_via_webhook_def fire_def get_trigger_def find_trigger_def row asc
        nonempty_opt_def)
qed


text \<open>
  A template is stripped after its goal was measured, and measured again when it fires: one whose
  goal gets too short is due for ever, and every tick that reaches it ends there.
\<close>

lemma poisoned_template:
  assumes "length (tg_goal t) < 4"
  shows "\<exists>e. template_body lib c t = Inl e"
  using assms by (cases "template_capabilities t") (simp_all add: template_body_def construct_create_def)

lemma poisoned_trigger_blocks:
  assumes "length (tg_goal t) < 4" "tg_enabled t" "t \<in> set (race t rows)" "one_row (race t rows)"
  shows "\<exists>e. tick_over lib ev start draws race fired saved (t # ts) (rows, s) =
    (Inl (Failed (PyRaise e)), (race t saved, s))"
proof -
  obtain now dw where d: "draws t = (now, dw)" by (rule prod.exhaust)
  obtain r rs where r: "claim_fire (tg_id t) (tg_last t) now (race t rows) = (r, rs)" by (rule prod.exhaust)
  have "claims (tg_id t) (tg_last t) t" using assms(2) by (simp add: claims_def)
  then have "find (claims (tg_id t) (tg_last t)) (race t rows) \<noteq> None" using assms(3) by (auto simp: find_None_iff)
  then obtain u where u: "r = Some u" using r by (auto simp: claim_fire_def)
  obtain v where v: "v \<in> set (race t rows)" "tg_id v = tg_id t" "u = fired_row now v"
    using claim_fire_rows(4) [OF assms(4) r u] by blast
  have "v = t" using v(1,2) assms(3,4) by (auto simp: one_row_def distinct_map dest: inj_onD)
  then have "length (tg_goal u) < 4" using v(3) assms(1) by (simp add: fired_row_def)
  then obtain e where e: "template_body lib (ev_settings ev) u = Inl e" using poisoned_template by blast
  have "fire_seen lib ev t now dw (race t rows, s) = (Inl (Failed (PyRaise e)), (rs, s))"
    using assms(2) r u e by (simp add: fire_seen_def)
  then show ?thesis using d by simp
qed

end
