(* ===== verification/Work_Queue.thy ===== *)
theory Work_Queue
  imports Task_Store Transition
begin

text \<open>
  \<^verbatim>\<open>workers/queue.py\<close> and \<^verbatim>\<open>workers/worker.py\<close>: the durable queue on a Redis stream with a
  consumer group, and the workers that read it, claim stale messages, retry and dead-letter jobs.
  The stream commands are written out as Redis documents them, on the part of the stream the
  program uses: the entries, the last delivered id, the pending entries of the group with their
  consumer, delivery time and delivery count. Workers take turns at the awaits: every command
  (or transaction) is one step, and a worker may die between any two. What the job itself does
  is the outcome of the step that ends it. A message id is its rank in the stream. Trimming of the
  dead stream is left out.
\<close>

section \<open>The stream\<close>

type_synonym fields = "(string \<times> string) list"

record pending =
  pe_consumer :: string
  pe_time :: int
  pe_count :: nat

record job_queue =
  jq_entries :: "(nat \<times> fields) list"
  jq_next :: nat
  jq_last :: nat
  jq_pending :: "(nat \<times> pending) list"
  jq_dead :: "fields list"
  jq_completed :: "fields list"

definition empty_queue :: job_queue where
  "empty_queue =
     \<lparr>jq_entries = [], jq_next = 1, jq_last = 0, jq_pending = [], jq_dead = [], jq_completed = []\<rparr>"

text \<open>\<^verbatim>\<open>XADD\<close>: the stream gives the entry the next id.\<close>

definition xadd :: "fields \<Rightarrow> job_queue \<Rightarrow> job_queue" where
  "xadd fs q = q\<lparr>jq_entries := jq_entries q @ [(jq_next q, fs)], jq_next := jq_next q + 1\<rparr>"

text \<open>\<^verbatim>\<open>XACK\<close> and \<^verbatim>\<open>XDEL\<close> of one message.\<close>

definition xack_xdel :: "nat \<Rightarrow> job_queue \<Rightarrow> job_queue" where
  "xack_xdel i q =
     q\<lparr>jq_pending := filter (\<lambda>e. fst e \<noteq> i) (jq_pending q),
       jq_entries := filter (\<lambda>e. fst e \<noteq> i) (jq_entries q)\<rparr>"

text \<open>\<^verbatim>\<open>XREADGROUP\<close> with \<^verbatim>\<open>>\<close> and \<^verbatim>\<open>COUNT 1\<close>: the first entry that was never delivered.\<close>

definition undelivered :: "job_queue \<Rightarrow> (nat \<times> fields) list" where
  "undelivered q = filter (\<lambda>e. jq_last q < fst e) (jq_entries q)"

definition xreadgroup :: "string \<Rightarrow> int \<Rightarrow> job_queue \<Rightarrow> (nat \<times> fields) list \<times> job_queue" where
  "xreadgroup w now q =
     (case undelivered q of
        [] \<Rightarrow> ([], q)
      | (i, fs) # _ \<Rightarrow>
          ([(i, fs)],
           q\<lparr>jq_last := i,
             jq_pending := jq_pending q @ [(i, \<lparr>pe_consumer = w, pe_time = now, pe_count = 1\<rparr>)]\<rparr>))"

text \<open>\<^verbatim>\<open>XAUTOCLAIM\<close> from the start: up to \<open>n\<close> pending messages that were idle long enough are given
  to the consumer and counted as delivered once more; pending ids whose entry is gone are dropped.\<close>

definition idle_ids :: "int \<Rightarrow> int \<Rightarrow> nat \<Rightarrow> job_queue \<Rightarrow> nat list" where
  "idle_ids min_idle now n q = take n (map fst (filter (\<lambda>(i, p). min_idle \<le> now - pe_time p) (jq_pending q)))"

definition xautoclaim :: "string \<Rightarrow> int \<Rightarrow> int \<Rightarrow> nat \<Rightarrow> job_queue \<Rightarrow> (nat \<times> fields) list \<times> job_queue" where
  "xautoclaim w min_idle now n q =
     (let ids = idle_ids min_idle now n q;
          kept = filter (\<lambda>(i, p). i \<in> set ids \<longrightarrow> map_of (jq_entries q) i \<noteq> None) (jq_pending q)
      in (List.map_filter (\<lambda>i. map_option (Pair i) (map_of (jq_entries q) i)) ids,
          q\<lparr>jq_pending := map (\<lambda>(i, p).
              (i, if i \<in> set ids then \<lparr>pe_consumer = w, pe_time = now, pe_count = pe_count p + 1\<rparr> else p)) kept\<rparr>))"

text \<open>\<^verbatim>\<open>XCLAIM\<close> with \<^verbatim>\<open>JUSTID\<close>: takes a pending message and restarts its clock, not its count.\<close>

definition xclaim_justid :: "string \<Rightarrow> int \<Rightarrow> nat \<Rightarrow> job_queue \<Rightarrow> job_queue" where
  "xclaim_justid w now i q =
     q\<lparr>jq_pending := map (\<lambda>(j, p). (j, if j = i then p\<lparr>pe_consumer := w, pe_time := now\<rparr> else p)) (jq_pending q)\<rparr>"

section \<open>Producers\<close>

text \<open>\<^verbatim>\<open>enqueue\<close>; the identifier of the job and the time are drawn outside.\<close>

definition job_fields :: "string \<Rightarrow> string \<Rightarrow> json \<Rightarrow> string \<Rightarrow> fields" where
  "job_fields jid ty payload at =
     [(''job_id'', jid), (''type'', ty), (''payload'', ascii_text (dumps payload)), (''attempt'', ''1''),
      (''enqueued_at'', at)]"

definition run_task_job :: string where
  "run_task_job = ''run_task''"

text \<open>\<^verbatim>\<open>trigger_task\<close> in worker mode.\<close>

definition task_job :: "string \<Rightarrow> string \<Rightarrow> string \<Rightarrow> fields" where
  "task_job jid tid at = job_fields jid run_task_job (JObj [(''task_id'', JStr tid)]) at"

section \<open>What a worker does with a message\<close>

definition fget :: "fields \<Rightarrow> string \<Rightarrow> string \<Rightarrow> string" where
  "fget fs k d = (case map_of fs k of None \<Rightarrow> d | Some v \<Rightarrow> v)"

definition fset :: "string \<Rightarrow> string \<Rightarrow> fields \<Rightarrow> fields" where
  "fset k v fs = AList.update k v fs"

datatype job_error = BadJson | NotObject | UnknownType | NoTaskId | BadTaskId

definition read_payload :: "fields \<Rightarrow> job_error + jdict" where
  "read_payload fs =
     (case json_loads (fget fs ''payload'' ''{}'') of
        None \<Rightarrow> Inl BadJson
      | Some (JObj d) \<Rightarrow> Inr d
      | Some _ \<Rightarrow> Inl NotObject)"

text \<open>The identifier the registered handler runs; \<open>uuid_text\<close> is \<^verbatim>\<open>uuid.UUID\<close> on a text.\<close>

definition job_task :: "(string \<Rightarrow> string option) \<Rightarrow> fields \<Rightarrow> job_error + string" where
  "job_task uuid_text fs =
     (case read_payload fs of
        Inl e \<Rightarrow> Inl e
      | Inr d \<Rightarrow>
          if fget fs ''type'' [] \<noteq> run_task_job then Inl UnknownType
          else
            (case map_of d ''task_id'' of
               None \<Rightarrow> Inl NoTaskId
             | Some (JStr s) \<Rightarrow> (case uuid_text s of None \<Rightarrow> Inl BadTaskId | Some i \<Rightarrow> Inr i)
             | Some _ \<Rightarrow> Inl BadTaskId))"

text \<open>The text of an error; that of a library's exception is an argument.\<close>

fun error_text :: "(job_error \<Rightarrow> string) \<Rightarrow> fields \<Rightarrow> job_error \<Rightarrow> string" where
  "error_text library fs NotObject = ''job payload must be an object''"
| "error_text library fs UnknownType =
     ''unknown job type '' @ (case map_of fs ''type'' of None \<Rightarrow> ''None'' | Some t \<Rightarrow> str_repr t)"
| "error_text library fs e = library e"

definition attempt_of :: "fields \<Rightarrow> int result" where
  "attempt_of fs = int_of_string (fget fs ''attempt'' ''1'')"

definition dead_fields :: "nat \<Rightarrow> fields \<Rightarrow> string \<Rightarrow> fields" where
  "dead_fields i fs error = fset ''error'' (take 1000 error) (fset ''source_id'' (show_nat i) fs)"

definition dead_letter :: "nat \<Rightarrow> fields \<Rightarrow> string \<Rightarrow> job_queue \<Rightarrow> job_queue" where
  "dead_letter i fs error q =
     xack_xdel i (q\<lparr>jq_dead := jq_dead q @ [dead_fields i fs error]\<rparr>)"

definition retried_fields :: "int \<Rightarrow> fields \<Rightarrow> string \<Rightarrow> fields" where
  "retried_fields n fs error =
     fset ''last_error'' (take 1000 error) (fset ''attempt'' (show_int (n + 1)) fs)"

definition retry_job :: "nat \<Rightarrow> int \<Rightarrow> fields \<Rightarrow> string \<Rightarrow> job_queue \<Rightarrow> job_queue" where
  "retry_job i n fs error q = xack_xdel i (xadd (retried_fields n fs error) q)"

definition complete_job :: "nat \<Rightarrow> fields \<Rightarrow> job_queue \<Rightarrow> job_queue" where
  "complete_job i fs q = xack_xdel i (q\<lparr>jq_completed := jq_completed q @ [fs]\<rparr>)"

text \<open>\<^verbatim>\<open>_pending_deliveries\<close>: a message that is not pending counts as delivered once.\<close>

definition pending_deliveries :: "nat \<Rightarrow> job_queue \<Rightarrow> nat" where
  "pending_deliveries i q = (case map_of (jq_pending q) i of None \<Rightarrow> 1 | Some p \<Rightarrow> pe_count p)"

text \<open>
  The end of a message: acknowledged, retried with a higher attempt, or dead-lettered.
  \<open>Inl\<close> when the attempt of a failed job is not a number, which kills the worker.
\<close>

definition settle_job ::
  "settings \<Rightarrow> nat \<Rightarrow> fields \<Rightarrow> string option \<Rightarrow> job_queue \<Rightarrow> job_queue result" where
  "settle_job c i fs failure q =
     (case failure of
        None \<Rightarrow> Inr (complete_job i fs q)
      | Some error \<Rightarrow>
          (case attempt_of fs of
             Inl e \<Rightarrow> Inl e
           | Inr n \<Rightarrow>
               if worker_max_attempts c \<le> n then Inr (dead_letter i fs error q)
               else Inr (retry_job i n fs error q)))"

definition job_failure ::
  "(string \<Rightarrow> string option) \<Rightarrow> (job_error \<Rightarrow> string) \<Rightarrow> fields \<Rightarrow> (string \<Rightarrow> string option) \<Rightarrow> string option" where
  "job_failure uuid_text library fs run =
     (case job_task uuid_text fs of
        Inl e \<Rightarrow> Some (error_text library fs e)
      | Inr tid \<Rightarrow> run tid)"

section \<open>Workers side by side\<close>

text \<open>What a worker holds: the rest of the batch it claimed, and the message in its hands.\<close>

datatype hands = Free | Burying nat fields | Working nat fields

record worker =
  wk_batch :: "(nat \<times> fields) list"
  wk_hands :: hands

definition fresh_worker :: worker where
  "fresh_worker = \<lparr>wk_batch = [], wk_hands = Free\<rparr>"

type_synonym job_system = "job_queue \<times> (string \<Rightarrow> worker)"

datatype queue_event =
    Enqueue string string json string
  | Fetch string int
  | ClaimStale string int
  | Take string
  | Bury string
  | Beat string int
  | Settle string "string \<Rightarrow> string option"
  | Die string

definition expired_text :: string where
  "expired_text = ''visibility lease expired repeatedly''"

text \<open>A worker reads new messages only when its batch is empty.\<close>

fun queue_step ::
  "settings \<Rightarrow> (string \<Rightarrow> string option) \<Rightarrow> (job_error \<Rightarrow> string) \<Rightarrow> job_system \<Rightarrow> queue_event \<Rightarrow> job_system option" where
  "queue_step c uuid_text library (q, ws) (Enqueue jid ty payload at) =
     Some (xadd (job_fields jid ty payload at) q, ws)"
| "queue_step c uuid_text library (q, ws) (Fetch w now) =
     (if ws w = fresh_worker
      then (let (batch, q') = xreadgroup w now q in Some (q', ws(w := (ws w)\<lparr>wk_batch := batch\<rparr>)))
      else None)"
| "queue_step c uuid_text library (q, ws) (ClaimStale w now) =
     (if ws w = fresh_worker
      then (let (batch, q') = xautoclaim w (worker_visibility_timeout_seconds c * 1000) now 10 q
            in Some (q', ws(w := (ws w)\<lparr>wk_batch := batch\<rparr>)))
      else None)"
| "queue_step c uuid_text library (q, ws) (Take w) =
     (case (wk_hands (ws w), wk_batch (ws w)) of
        (Free, (i, fs) # rest) \<Rightarrow>
          Some (q, ws(w := \<lparr>wk_batch = rest, wk_hands =
            (if int (pending_deliveries i q) > worker_max_attempts c then Burying i fs else Working i fs)\<rparr>))
      | _ \<Rightarrow> None)"
| "queue_step c uuid_text library (q, ws) (Bury w) =
     (case wk_hands (ws w) of
        Burying i fs \<Rightarrow> Some (dead_letter i fs expired_text q, ws(w := (ws w)\<lparr>wk_hands := Free\<rparr>))
      | _ \<Rightarrow> None)"
| "queue_step c uuid_text library (q, ws) (Beat w now) =
     (case wk_hands (ws w) of
        Working i fs \<Rightarrow> Some (xclaim_justid w now i q, ws)
      | _ \<Rightarrow> None)"
| "queue_step c uuid_text library (q, ws) (Settle w run) =
     (case wk_hands (ws w) of
        Working i fs \<Rightarrow>
          (case settle_job c i fs (job_failure uuid_text library fs run) q of
             Inl e \<Rightarrow> Some (q, ws(w := fresh_worker))
           | Inr q' \<Rightarrow> Some (q', ws(w := (ws w)\<lparr>wk_hands := Free\<rparr>)))
      | _ \<Rightarrow> None)"
| "queue_step c uuid_text library (q, ws) (Die w) = Some (q, ws(w := fresh_worker))"

definition idle_system :: job_system where
  "idle_system = (empty_queue, \<lambda>_. fresh_worker)"

section \<open>The loop of one worker\<close>

definition after :: "('s \<Rightarrow> 'l \<Rightarrow> 's option) \<Rightarrow> 's \<Rightarrow> 'l \<Rightarrow> 's" where
  "after step s l = (case step s l of None \<Rightarrow> s | Some t \<Rightarrow> t)"

text \<open>\<^verbatim>\<open>_process\<close>; \<open>run\<close> executes a task on the rest of the world.\<close>

definition process_one ::
  "settings \<Rightarrow> (string \<Rightarrow> string option) \<Rightarrow> (job_error \<Rightarrow> string) \<Rightarrow> (string \<Rightarrow> 'x \<Rightarrow> string option \<times> 'x) \<Rightarrow>
     string \<Rightarrow> job_system \<times> 'x \<Rightarrow> job_system \<times> 'x" where
  "process_one c uuid_text library run w st =
     (let s = after (queue_step c uuid_text library) (fst st) (Take w)
      in case wk_hands (snd s w) of
           Free \<Rightarrow> (s, snd st)
         | Burying i fs \<Rightarrow> (after (queue_step c uuid_text library) s (Bury w), snd st)
         | Working i fs \<Rightarrow>
             (case job_task uuid_text fs of
                Inl e \<Rightarrow> (after (queue_step c uuid_text library) s (Settle w (\<lambda>_. None)), snd st)
              | Inr tid \<Rightarrow>
                  (let (failure, x) = run tid (snd st)
                   in (after (queue_step c uuid_text library) s (Settle w (\<lambda>_. failure)), x))))"

definition process_batch ::
  "settings \<Rightarrow> (string \<Rightarrow> string option) \<Rightarrow> (job_error \<Rightarrow> string) \<Rightarrow> (string \<Rightarrow> 'x \<Rightarrow> string option \<times> 'x) \<Rightarrow>
     string \<Rightarrow> job_system \<times> 'x \<Rightarrow> job_system \<times> 'x" where
  "process_batch c uuid_text library run w st =
     (process_one c uuid_text library run w ^^ length (wk_batch (snd (fst st) w))) st"

text \<open>One turn of the \<^verbatim>\<open>while\<close> loop of \<^verbatim>\<open>_run\<close>: stale messages first, then a new one.\<close>

definition worker_round ::
  "settings \<Rightarrow> (string \<Rightarrow> string option) \<Rightarrow> (job_error \<Rightarrow> string) \<Rightarrow> (string \<Rightarrow> 'x \<Rightarrow> string option \<times> 'x) \<Rightarrow>
     string \<Rightarrow> job_system \<times> 'x \<Rightarrow> int \<Rightarrow> job_system \<times> 'x" where
  "worker_round c uuid_text library run w st now =
     (let claim = (\<lambda>ev (s, x). (after (queue_step c uuid_text library) s ev, x));
          st' = process_batch c uuid_text library run w (claim (ClaimStale w now) st)
      in process_batch c uuid_text library run w (claim (Fetch w now) st'))"

section \<open>No job is lost\<close>

definition job_id_of :: "fields \<Rightarrow> string option" where
  "job_id_of fs = map_of fs ''job_id''"

text \<open>A job is in the stream, or completed, or in the dead stream.\<close>

definition accounted :: "job_queue \<Rightarrow> string \<Rightarrow> bool" where
  "accounted q j =
     ((\<exists>e \<in> set (jq_entries q). job_id_of (snd e) = Some j) \<or>
      (\<exists>fs \<in> set (jq_completed q). job_id_of fs = Some j) \<or>
      (\<exists>fs \<in> set (jq_dead q). job_id_of fs = Some j))"

definition attempt_ok :: "settings \<Rightarrow> fields \<Rightarrow> bool" where
  "attempt_ok c fs = (\<exists>n. attempt_of fs = Inr n \<and> 1 \<le> n \<and> n \<le> worker_max_attempts c)"

definition held :: "worker \<Rightarrow> (nat \<times> fields) list" where
  "held w = wk_batch w @ (case wk_hands w of Free \<Rightarrow> [] | Burying i fs \<Rightarrow> [(i, fs)] | Working i fs \<Rightarrow> [(i, fs)])"

definition stream_ok :: "job_queue \<Rightarrow> bool" where
  "stream_ok q =
     (sorted_wrt (<) (map fst (jq_entries q)) \<and> (\<forall>e \<in> set (jq_entries q). fst e < jq_next q) \<and>
      jq_last q < jq_next q \<and> distinct (map fst (jq_pending q)) \<and>
      fst ` set (jq_pending q) = {i \<in> fst ` set (jq_entries q). i \<le> jq_last q})"

text \<open>What a worker holds was delivered, and is the entry of the stream unless that is gone.\<close>

definition holds_ok :: "settings \<Rightarrow> job_queue \<Rightarrow> worker \<Rightarrow> bool" where
  "holds_ok c q w =
     (\<forall>e \<in> set (held w). fst e \<le> jq_last q \<and> attempt_ok c (snd e) \<and>
        (\<forall>fs. (fst e, fs) \<in> set (jq_entries q) \<longrightarrow> fs = snd e))"

fun queue_ok :: "settings \<Rightarrow> job_system \<Rightarrow> bool" where
  "queue_ok c (q, ws) =
     (1 \<le> worker_max_attempts c \<and> stream_ok q \<and> (\<forall>e \<in> set (jq_entries q). attempt_ok c (snd e)) \<and>
      (\<forall>w. holds_ok c q (ws w)))"

lemma held_simps [simp]: "held fresh_worker = []" "held (w\<lparr>wk_batch := b, wk_hands := Free\<rparr>) = b"
  by (simp_all add: held_def fresh_worker_def)

lemma job_id_fset [simp]: "k \<noteq> ''job_id'' \<Longrightarrow> job_id_of (fset k v fs) = job_id_of fs"
  by (simp add: job_id_of_def fset_def update_conv')

lemma job_id_changes [simp]:
  "job_id_of (dead_fields i fs e) = job_id_of fs" "job_id_of (retried_fields n fs e) = job_id_of fs"
  by (simp_all add: dead_fields_def retried_fields_def)

lemma attempt_ok_new [simp]: "1 \<le> worker_max_attempts c \<Longrightarrow> attempt_ok c (job_fields j ty p at)"
proof -
  have "int_of_string ''1'' = Inr 1" by code_simp
  then show "1 \<le> worker_max_attempts c \<Longrightarrow> ?thesis"
    by (simp add: attempt_ok_def attempt_of_def job_fields_def fget_def)
qed

lemma digits_us_digits: "list_all py_isdigit s \<Longrightarrow> s \<noteq> [] \<Longrightarrow> digits_us s \<and> drop_us s = s"
proof (induction s rule: digits_us.induct)
  case (3 c d s)
  have "\<not> py_isdigit (CHR ''_'')" by code_simp
  with 3 show ?case by (auto simp: drop_us_def)
next
  case (2 c)
  have "\<not> py_isdigit (CHR ''_'')" by code_simp
  with 2 show ?case by (auto simp: drop_us_def)
qed simp

lemma digit_not_space: "py_isdigit c \<Longrightarrow> \<not> py_isspace c \<and> c \<noteq> CHR ''-'' \<and> c \<noteq> CHR ''+''"
  by (auto simp: py_isdigit_def py_isspace_def Let_def)

lemma strip_digits: "list_all py_isdigit s \<Longrightarrow> py_strip s = s"
proof -
  assume "list_all py_isdigit s"
  then have "\<forall>c \<in> set s. \<not> py_isspace c" using digit_not_space by (auto simp: list_all_iff)
  then have "dropWhile py_isspace s = s" "dropWhile py_isspace (rev s) = rev s"
    by (auto simp: dropWhile_eq_self_iff hd_rev)
  then show ?thesis by (simp add: py_strip_def py_lstrip_def py_rstrip_def)
qed

lemma int_of_show: "int_of_string (show_nat n) = Inr (int n)"
proof -
  have digits: "list_all py_isdigit (show_nat n)" using show_nat_digits by (auto simp: list_all_iff)
  then obtain c t where c: "show_nat n = c # t" "py_isdigit c" by (cases "show_nat n") auto
  have show_nat_nonempty: "show_nat n \<noteq> []" using c by simp
  from c have "split_sign (show_nat n) = (False, show_nat n)" using digit_not_space [of c] by simp
  then show ?thesis
    using strip_digits [OF digits] digits_us_digits [OF digits] show_nat_nonempty
    by (simp add: int_of_string_def Py_Json.signed_def del: split_sign.simps)
qed

lemma attempt_of_retried: "0 \<le> n \<Longrightarrow> attempt_of (retried_fields n fs e) = Inr (n + 1)"
  using int_of_show [of "nat (n + 1)"]
  by (simp add: attempt_of_def retried_fields_def fget_def fset_def update_conv' show_int_def)

lemma stream_ok_xadd: "stream_ok q \<Longrightarrow> stream_ok (xadd fs q)"
  by (auto simp: stream_ok_def xadd_def sorted_wrt_append less_Suc_eq)

lemma sorted_wrt_filter_fst: "sorted_wrt (<) (map fst xs) \<Longrightarrow> sorted_wrt (<) (map fst (filter P xs))"
  by (induction xs) auto

lemma fst_filter: "fst ` set (filter (\<lambda>e. fst e \<noteq> i) xs) = fst ` set xs - {i}"
  by auto

lemma stream_ok_xack:
  assumes "stream_ok q"
  shows "stream_ok (xack_xdel i q)"
proof -
  have "fst ` set (filter (\<lambda>e. fst e \<noteq> i) (jq_pending q)) =
      {j \<in> fst ` set (filter (\<lambda>e. fst e \<noteq> i) (jq_entries q)). j \<le> jq_last q}"
    using assms unfolding fst_filter stream_ok_def by blast
  then show ?thesis
    using assms by (simp add: stream_ok_def xack_xdel_def sorted_wrt_filter_fst distinct_map_filter)
qed

lemma sorted_head:
  assumes "sorted_wrt (<) (map fst xs)" "filter (\<lambda>e. (l::nat) < fst e) xs = (i, fs) # rest"
  shows "{j \<in> fst ` set xs. j \<le> i} = insert i {j \<in> fst ` set xs. j \<le> l}" "(i, fs) \<in> set xs" "l < i"
proof -
  have "(i, fs) \<in> set (filter (\<lambda>e. l < fst e) xs)" unfolding assms(2) by simp
  then show m: "(i, fs) \<in> set xs" "l < i" by auto
  have "sorted_wrt (<) (map fst ((i, fs) # rest))"
    using assms sorted_wrt_filter_fst [of xs "\<lambda>e. l < fst e"] by simp
  then have "\<forall>e \<in> set rest. i < fst e" by simp
  moreover have "set (filter (\<lambda>e. l < fst e) xs) = insert (i, fs) (set rest)"
    unfolding assms(2) by simp
  then have "e \<in> insert (i, fs) (set rest)" if "e \<in> set xs" "l < fst e" for e
    using that by auto
  ultimately have later: "fst e = i \<or> i < fst e" if "e \<in> set xs" "l < fst e" for e
    using that by (metis fst_conv insertE)
  show "{j \<in> fst ` set xs. j \<le> i} = insert i {j \<in> fst ` set xs. j \<le> l}"
  proof (intro set_eqI iffI)
    fix j
    assume "j \<in> {j \<in> fst ` set xs. j \<le> i}"
    then obtain e where "e \<in> set xs" "j = fst e" "j \<le> i" by auto
    then show "j \<in> insert i {j \<in> fst ` set xs. j \<le> l}"
      using later [of e] by (cases "l < fst e") auto
  next
    fix j
    assume "j \<in> insert i {j \<in> fst ` set xs. j \<le> l}"
    then show "j \<in> {j \<in> fst ` set xs. j \<le> i}" using m by force
  qed
qed

lemma fetch_stream:
  assumes "stream_ok q" "xreadgroup w now q = (batch, q')"
  shows "stream_ok q' \<and> set batch \<subseteq> set (jq_entries q) \<and> (\<forall>e \<in> set batch. fst e \<le> jq_last q') \<and>
    jq_last q \<le> jq_last q' \<and> jq_entries q' = jq_entries q \<and> jq_dead q' = jq_dead q \<and>
    jq_completed q' = jq_completed q"
proof (cases "undelivered q")
  case Nil
  then show ?thesis using assms by (simp add: xreadgroup_def)
next
  case (Cons e rest)
  obtain i fs where e: "e = (i, fs)" by (rule prod.exhaust)
  have s: "sorted_wrt (<) (map fst (jq_entries q))" using assms(1) by (simp add: stream_ok_def)
  note h = sorted_head [OF s, of "jq_last q" i fs rest] Cons [unfolded e undelivered_def]
  have q': "batch = [(i, fs)]" "q' = q\<lparr>jq_last := i,
      jq_pending := jq_pending q @ [(i, \<lparr>pe_consumer = w, pe_time = now, pe_count = 1\<rparr>)]\<rparr>"
    using assms(2) Cons e by (simp_all add: xreadgroup_def)
  have "i \<notin> fst ` set (jq_pending q)" using assms(1) h by (auto simp: stream_ok_def)
  then show ?thesis using assms(1) h unfolding q' by (auto simp: stream_ok_def)
qed

lemma claim_stream:
  assumes "stream_ok q" "xautoclaim w idle now n q = (batch, q')"
  shows "stream_ok q' \<and> set batch \<subseteq> set (jq_entries q) \<and> (\<forall>e \<in> set batch. fst e \<le> jq_last q') \<and>
    jq_last q' = jq_last q \<and> jq_entries q' = jq_entries q \<and> jq_dead q' = jq_dead q \<and>
    jq_completed q' = jq_completed q"
proof -
  let ?ids = "idle_ids idle now n q"
  have known: "\<exists>fs. map_of (jq_entries q) i = Some fs" if "(i, p) \<in> set (jq_pending q)" for i p
  proof -
    have "i \<in> fst ` set (jq_entries q)" using assms(1) that by (force simp: stream_ok_def)
    then show ?thesis by (cases "map_of (jq_entries q) i") (simp_all add: map_of_eq_None_iff)
  qed
  have kept: "filter (\<lambda>(i, p). i \<in> set ?ids \<longrightarrow> map_of (jq_entries q) i \<noteq> None) (jq_pending q) = jq_pending q"
    using known by (intro filter_True) fastforce
  have q': "q' = q\<lparr>jq_pending := map (\<lambda>(i, p).
      (i, if i \<in> set ?ids then \<lparr>pe_consumer = w, pe_time = now, pe_count = pe_count p + 1\<rparr> else p)) (jq_pending q)\<rparr>"
    and batch: "batch = List.map_filter (\<lambda>i. map_option (Pair i) (map_of (jq_entries q) i)) ?ids"
    using assms(2) kept by (simp_all add: xautoclaim_def Let_def)
  have ids: "set ?ids \<subseteq> fst ` set (jq_pending q)"
    by (auto simp: idle_ids_def dest!: in_set_takeD)
  have same: "map fst (jq_pending q') = map fst (jq_pending q)" by (simp add: q' comp_def case_prod_unfold)
  then have "fst ` set (jq_pending q') = fst ` set (jq_pending q)" by (metis set_map)
  then have "stream_ok q'" using assms(1) same by (simp add: stream_ok_def) (simp add: q')
  moreover have "set batch \<subseteq> set (jq_entries q)"
    by (auto simp: batch List.map_filter_def dest: map_of_SomeD)
  moreover have "fst e \<le> jq_last q" if "e \<in> set batch" for e
    using that ids assms(1) by (auto simp: batch List.map_filter_def stream_ok_def)
  ultimately show ?thesis by (simp add: q')
qed

lemma beat_stream: "stream_ok q \<Longrightarrow> stream_ok (xclaim_justid w now i q)"
  by (simp add: stream_ok_def xclaim_justid_def comp_def case_prod_unfold image_image)

lemma holds_ok_mono:
  assumes "holds_ok c q v" "jq_last q \<le> jq_last q'"
    "\<forall>e \<in> set (jq_entries q'). e \<in> set (jq_entries q) \<or> jq_last q < fst e"
  shows "holds_ok c q' v"
  unfolding holds_ok_def
proof (intro ballI conjI allI impI)
  fix e
  assume e: "e \<in> set (held v)"
  with assms(1) have h: "fst e \<le> jq_last q" "attempt_ok c (snd e)"
    "\<And>fs. (fst e, fs) \<in> set (jq_entries q) \<Longrightarrow> fs = snd e" by (auto simp: holds_ok_def)
  show "fst e \<le> jq_last q'" using h(1) assms(2) by simp
  show "attempt_ok c (snd e)" by (rule h)
  show "fs = snd e" if "(fst e, fs) \<in> set (jq_entries q')" for fs
    using assms(3) that h by force
qed

lemma queue_ok_change:
  assumes "queue_ok c (q, ws)" "stream_ok q'" "jq_last q \<le> jq_last q'"
    "\<forall>e \<in> set (jq_entries q'). e \<in> set (jq_entries q) \<or> jq_last q < fst e \<and> attempt_ok c (snd e)"
    "holds_ok c q' v"
  shows "queue_ok c (q', ws(w := v))"
proof -
  have new: "\<forall>e \<in> set (jq_entries q'). e \<in> set (jq_entries q) \<or> jq_last q < fst e"
    using assms(4) by blast
  have "holds_ok c q (ws u)" for u using assms(1) by simp
  then have "holds_ok c q' (ws u)" for u using assms(3) new by (rule holds_ok_mono)
  moreover have "\<forall>e \<in> set (jq_entries q'). attempt_ok c (snd e)"
    using assms(1,4) unfolding queue_ok.simps by blast
  ultimately show ?thesis using assms(1,2,5) by simp
qed

lemma holds_ok_subset:
  "holds_ok c q v \<Longrightarrow> set (held u) \<subseteq> set (held v) \<Longrightarrow> holds_ok c q u"
  by (auto simp: holds_ok_def)

lemma holds_ok_batch:
  assumes "stream_ok q" "\<forall>e \<in> set (jq_entries q). attempt_ok c (snd e)" "set (held v) \<subseteq> set (jq_entries q)"
    "\<forall>e \<in> set (held v). fst e \<le> jq_last q"
  shows "holds_ok c q v"
proof -
  have "distinct (map fst (jq_entries q))"
    using assms(1) by (simp add: stream_ok_def strict_sorted_iff)
  then have "fs = snd e" if "e \<in> set (jq_entries q)" "(fst e, fs) \<in> set (jq_entries q)" for e fs
    using that by (metis Some_eq_map_of_iff option.inject prod.collapse)
  then show ?thesis using assms by (auto simp: holds_ok_def)
qed

text \<open>What a change of the stream keeps: delivered ids, the entries it does not add, the jobs.\<close>

definition keeps_jobs :: "settings \<Rightarrow> job_queue \<Rightarrow> job_queue \<Rightarrow> bool" where
  "keeps_jobs c q q' =
     (stream_ok q' \<and> jq_last q \<le> jq_last q' \<and>
      (\<forall>e \<in> set (jq_entries q'). e \<in> set (jq_entries q) \<or> jq_last q < fst e \<and> attempt_ok c (snd e)) \<and>
      (\<forall>j. accounted q j \<longrightarrow> accounted q' j))"

lemma keeps_jobs_same:
  "stream_ok q' \<Longrightarrow> jq_last q \<le> jq_last q' \<Longrightarrow> jq_entries q' = jq_entries q \<Longrightarrow> jq_dead q' = jq_dead q \<Longrightarrow>
     jq_completed q' = jq_completed q \<Longrightarrow> keeps_jobs c q q'"
  by (simp add: keeps_jobs_def accounted_def)

lemma keeps_jobs_xadd:
  assumes "stream_ok q" "attempt_ok c fs"
  shows "keeps_jobs c q (xadd fs q)"
  using assms stream_ok_xadd [OF assms(1), of fs]
  by (auto simp: keeps_jobs_def xadd_def accounted_def stream_ok_def)

text \<open>Removing a message is safe when its job is accounted for elsewhere.\<close>

lemma keeps_jobs_removed:
  assumes "stream_ok q" "keeps_jobs c q r" "\<forall>fs'. (i, fs') \<in> set (jq_entries r) \<longrightarrow> fs' = fs"
    "\<And>j. job_id_of fs = Some j \<Longrightarrow> accounted (xack_xdel i r) j"
  shows "keeps_jobs c q (xack_xdel i r)"
proof -
  have acc: "accounted (xack_xdel i r) j" if "accounted r j" for j
  proof (cases "job_id_of fs = Some j")
    case False
    then have "e \<in> set (jq_entries (xack_xdel i r))" if "e \<in> set (jq_entries r)" "job_id_of (snd e) = Some j" for e
      using that assms(3) by (cases e) (auto simp: xack_xdel_def)
    moreover have "jq_dead (xack_xdel i r) = jq_dead r" "jq_completed (xack_xdel i r) = jq_completed r"
      by (simp_all add: xack_xdel_def)
    ultimately show ?thesis using \<open>accounted r j\<close> unfolding accounted_def by metis
  qed (use assms(4) in blast)
  then show ?thesis
    using assms(2) stream_ok_xack [of r i] by (auto simp: keeps_jobs_def) (auto simp: xack_xdel_def)
qed

lemma bury_keeps:
  assumes "stream_ok q" "\<forall>fs'. (i, fs') \<in> set (jq_entries q) \<longrightarrow> fs' = fs"
  shows "keeps_jobs c q (dead_letter i fs error q)"
proof -
  let ?r = "q\<lparr>jq_dead := jq_dead q @ [dead_fields i fs error]\<rparr>"
  have "stream_ok ?r" using assms(1) by (simp add: stream_ok_def)
  then have "keeps_jobs c q ?r" by (auto simp: keeps_jobs_def accounted_def)
  then show ?thesis
    unfolding dead_letter_def using assms
    by (intro keeps_jobs_removed [where fs = fs]) (auto simp: accounted_def xack_xdel_def)
qed

lemma complete_keeps:
  assumes "stream_ok q" "\<forall>fs'. (i, fs') \<in> set (jq_entries q) \<longrightarrow> fs' = fs"
  shows "keeps_jobs c q (complete_job i fs q)"
proof -
  let ?r = "q\<lparr>jq_completed := jq_completed q @ [fs]\<rparr>"
  have "stream_ok ?r" using assms(1) by (simp add: stream_ok_def)
  then have "keeps_jobs c q ?r" by (auto simp: keeps_jobs_def accounted_def)
  then show ?thesis
    unfolding complete_job_def using assms
    by (intro keeps_jobs_removed [where fs = fs]) (auto simp: accounted_def xack_xdel_def)
qed

lemma retry_keeps:
  assumes "stream_ok q" "\<forall>fs'. (i, fs') \<in> set (jq_entries q) \<longrightarrow> fs' = fs" "i \<le> jq_last q"
    "1 \<le> n" "n < worker_max_attempts c"
  shows "keeps_jobs c q (retry_job i n fs error q)"
proof -
  let ?r = "xadd (retried_fields n fs error) q"
  have "attempt_ok c (retried_fields n fs error)"
    using assms(4,5) by (simp add: attempt_ok_def attempt_of_retried)
  with assms(1) have k: "keeps_jobs c q ?r" by (rule keeps_jobs_xadd)
  have fresh: "jq_next q \<noteq> i" using assms(1,3) by (auto simp: stream_ok_def)
  show ?thesis
    unfolding retry_job_def
  proof (rule keeps_jobs_removed [OF assms(1) k, where fs = fs])
    show "\<forall>fs'. (i, fs') \<in> set (jq_entries ?r) \<longrightarrow> fs' = fs" using assms(2) fresh by (simp add: xadd_def)
    show "accounted (xack_xdel i ?r) j" if "job_id_of fs = Some j" for j
      using that fresh by (auto simp: accounted_def xack_xdel_def xadd_def)
  qed
qed

lemma settle_keeps:
  assumes "settle_job c i fs failure q = Inr q'" "stream_ok q" "i \<le> jq_last q" "attempt_ok c fs"
    "\<forall>fs'. (i, fs') \<in> set (jq_entries q) \<longrightarrow> fs' = fs"
  shows "keeps_jobs c q q'"
proof (cases failure)
  case None
  then show ?thesis using assms(1) complete_keeps [OF assms(2,5)] by (simp add: settle_job_def)
next
  case (Some error)
  obtain n where n: "attempt_of fs = Inr n" "1 \<le> n" using assms(4) by (auto simp: attempt_ok_def)
  then show ?thesis
    using assms(1) Some bury_keeps [OF assms(2,5)] retry_keeps [OF assms(2,5,3) n(2)]
    by (auto simp: settle_job_def not_le split: if_splits)
qed

lemma settle_runs: "attempt_ok c fs \<Longrightarrow> \<exists>q'. settle_job c i fs failure q = Inr q'"
  by (auto simp: settle_job_def attempt_ok_def split: option.split)

lemma queue_ok_keeps:
  assumes "queue_ok c (q, ws)" "keeps_jobs c q q'" "holds_ok c q' v"
  shows "queue_ok c (q', ws(w := v))"
  using assms by (intro queue_ok_change [OF assms(1)]) (auto simp: keeps_jobs_def)

lemma holds_keeps:
  assumes "queue_ok c (q, ws)" "keeps_jobs c q q'" "set (held v) \<subseteq> set (held (ws w))"
  shows "holds_ok c q' v"
proof -
  have "holds_ok c q (ws w)" using assms(1) by simp
  then have "holds_ok c q v" using assms(3) by (rule holds_ok_subset)
  then show ?thesis by (rule holds_ok_mono) (use assms(2) in \<open>auto simp: keeps_jobs_def\<close>)
qed

lemma step_keeps:
  assumes "queue_ok c (q, ws)" "queue_step c uuid_text library (q, ws) ev = Some (q', ws')"
  shows "keeps_jobs c q q' \<and> queue_ok c (q', ws')"
proof -
  have ok: "stream_ok q" "\<forall>e \<in> set (jq_entries q). attempt_ok c (snd e)" "1 \<le> worker_max_attempts c"
    using assms(1) by auto
  have same: "keeps_jobs c q q" using ok(1) by (simp add: keeps_jobs_def)
  have fresh: "holds_ok c r fresh_worker" for r by (simp add: holds_ok_def)
  have handed: "i \<le> jq_last q \<and> attempt_ok c fs \<and> (\<forall>fs'. (i, fs') \<in> set (jq_entries q) \<longrightarrow> fs' = fs)"
    if "(i, fs) \<in> set (held (ws w))" for i fs w
    using that assms(1) by (force simp: holds_ok_def)
  show ?thesis
  proof (cases ev)
    case (Enqueue jid ty payload at)
    then have "q' = xadd (job_fields jid ty payload at) q" "ws' = ws" using assms(2) by auto
    moreover have "keeps_jobs c q (xadd (job_fields jid ty payload at) q)"
      using ok by (intro keeps_jobs_xadd) simp_all
    moreover have "queue_ok c (xadd (job_fields jid ty payload at) q, ws(undefined := ws undefined))"
      by (rule queue_ok_keeps [OF assms(1) calculation(3) holds_keeps [OF assms(1) calculation(3) order_refl]])
    ultimately show ?thesis by simp
  next
    case (Fetch w now)
    then obtain batch where b: "xreadgroup w now q = (batch, q')" "ws' = ws(w := (ws w)\<lparr>wk_batch := batch\<rparr>)"
      "ws w = fresh_worker"
      using assms(2) by (auto split: if_splits prod.splits)
    note f = fetch_stream [OF ok(1) b(1)]
    then have k: "keeps_jobs c q q'" by (intro keeps_jobs_same) auto
    have "held ((ws w)\<lparr>wk_batch := batch\<rparr>) = batch" using b(3) by (simp add: held_def fresh_worker_def)
    then have "holds_ok c q' ((ws w)\<lparr>wk_batch := batch\<rparr>)" using f ok by (intro holds_ok_batch) auto
    then show ?thesis using queue_ok_keeps [OF assms(1) k] k b(2) by simp
  next
    case (ClaimStale w now)
    then obtain batch where b: "xautoclaim w (worker_visibility_timeout_seconds c * 1000) now 10 q = (batch, q')"
      "ws' = ws(w := (ws w)\<lparr>wk_batch := batch\<rparr>)" "ws w = fresh_worker"
      using assms(2) by (auto split: if_splits prod.splits)
    note f = claim_stream [OF ok(1) b(1)]
    then have k: "keeps_jobs c q q'" by (intro keeps_jobs_same) auto
    have "held ((ws w)\<lparr>wk_batch := batch\<rparr>) = batch" using b(3) by (simp add: held_def fresh_worker_def)
    then have "holds_ok c q' ((ws w)\<lparr>wk_batch := batch\<rparr>)" using f ok by (intro holds_ok_batch) auto
    then show ?thesis using queue_ok_keeps [OF assms(1) k] k b(2) by simp
  next
    case (Take w)
    then obtain i fs rest where b: "wk_hands (ws w) = Free" "wk_batch (ws w) = (i, fs) # rest"
      using assms(2) by (auto split: hands.splits list.splits)
    let ?v = "\<lparr>wk_batch = rest, wk_hands =
      (if int (pending_deliveries i q) > worker_max_attempts c then Burying i fs else Working i fs)\<rparr>"
    have t: "ws' = ws(w := ?v)" "q' = q" using assms(2) Take b by auto
    have "set (held ?v) \<subseteq> set (held (ws w))" using b by (auto simp: held_def)
    with t show ?thesis using queue_ok_keeps [OF assms(1) same holds_keeps [OF assms(1) same]] same by simp
  next
    case (Bury w)
    then obtain i fs where t: "wk_hands (ws w) = Burying i fs" "q' = dead_letter i fs expired_text q"
      "ws' = ws(w := (ws w)\<lparr>wk_hands := Free\<rparr>)"
      using assms(2) by (auto split: hands.splits)
    have "(i, fs) \<in> set (held (ws w))" using t(1) by (simp add: held_def)
    then have k: "keeps_jobs c q q'" using handed bury_keeps [OF ok(1)] t(2) by blast
    have "set (held ((ws w)\<lparr>wk_hands := Free\<rparr>)) \<subseteq> set (held (ws w))" by (auto simp: held_def)
    then show ?thesis using queue_ok_keeps [OF assms(1) k holds_keeps [OF assms(1) k]] k t(3) by blast
  next
    case (Beat w now)
    then obtain i where t: "q' = xclaim_justid w now i q" "ws' = ws(w := ws w)"
      using assms(2) by (auto split: hands.splits)
    have "stream_ok q'" unfolding t(1) using ok(1) by (rule beat_stream)
    then have k: "keeps_jobs c q q'" by (rule keeps_jobs_same) (simp_all add: t(1) xclaim_justid_def)
    then show ?thesis using queue_ok_keeps [OF assms(1) k holds_keeps [OF assms(1) k]] t(2) by blast
  next
    case (Settle w run)
    then obtain i fs where t: "wk_hands (ws w) = Working i fs"
      using assms(2) by (auto split: hands.splits)
    then have "(i, fs) \<in> set (held (ws w))" by (simp add: held_def)
    note h = handed [OF this]
    then obtain r where r: "settle_job c i fs (job_failure uuid_text library fs run) q = Inr r"
      using settle_runs by blast
    then have q': "q' = r" "ws' = ws(w := (ws w)\<lparr>wk_hands := Free\<rparr>)" using assms(2) Settle t by auto
    have k: "keeps_jobs c q q'" unfolding q' using settle_keeps [OF r ok(1)] h by blast
    have "set (held ((ws w)\<lparr>wk_hands := Free\<rparr>)) \<subseteq> set (held (ws w))" by (auto simp: held_def)
    then show ?thesis using queue_ok_keeps [OF assms(1) k holds_keeps [OF assms(1) k]] k q'(2) by blast
  next
    case (Die w)
    then show ?thesis using assms(2) queue_ok_keeps [OF assms(1) same fresh] same by auto
  qed
qed

interpretation jobq: invariant_machine "queue_step c uuid_text library" "queue_ok c" for c uuid_text library
proof
  fix s ev t
  assume "queue_ok c s" "queue_step c uuid_text library s ev = Some t"
  then show "queue_ok c t" using step_keeps by (cases s; cases t) blast
qed

lemma idle_ok: "1 \<le> worker_max_attempts c \<Longrightarrow> queue_ok c idle_system"
  by (simp add: idle_system_def empty_queue_def stream_ok_def holds_ok_def)

lemma run_accounts:
  assumes "exec (queue_step c uuid_text library) s evs = Some t" "queue_ok c s"
    "accounted (fst s) j \<or> (\<exists>ty payload at. Enqueue j ty payload at \<in> set evs)"
  shows "accounted (fst t) j"
  using assms
proof (induction evs arbitrary: s)
  case (Cons ev evs)
  obtain q ws where s: "s = (q, ws)" by (rule prod.exhaust)
  obtain q' ws' where u: "queue_step c uuid_text library (q, ws) ev = Some (q', ws')"
    "exec (queue_step c uuid_text library) (q', ws') evs = Some t"
    using Cons.prems(1) s by (auto split: option.splits)
  have k: "keeps_jobs c q q'" "queue_ok c (q', ws')" using step_keeps [OF _ u(1)] Cons.prems(2) s by auto
  have "accounted q' j" if "ev = Enqueue j ty payload at" for ty payload at
    using u(1) that by (auto simp: accounted_def xadd_def job_fields_def job_id_of_def)
  then have "accounted q' j \<or> (\<exists>ty payload at. Enqueue j ty payload at \<in> set evs)"
    using Cons.prems(3) k(1) s by (auto simp: keeps_jobs_def)
  then show ?case using Cons.IH [OF u(2) k(2)] by simp
qed simp

text \<open>
  C20. Whatever the workers do and wherever they die, no job is lost: every job that was enqueued
  is in the stream, completed, or in the dead stream. A message of the stream waits to be
  delivered or is pending, so it can be claimed when its lease expires, and its attempt never
  exceeds the limit.
\<close>

theorem no_job_lost:
  assumes "1 \<le> worker_max_attempts c"
    "exec (queue_step c uuid_text library) idle_system evs = Some (q, ws)"
  shows "(\<forall>j ty payload at. Enqueue j ty payload at \<in> set evs \<longrightarrow> accounted q j) \<and>
    (\<forall>(i, fs) \<in> set (jq_entries q). attempt_ok c fs \<and>
       ((i, fs) \<in> set (undelivered q) \<or> (\<exists>p. map_of (jq_pending q) i = Some p)))"
proof (intro conjI ballI allI impI)
  have ok: "queue_ok c (q, ws)" using jobq.run_inv [OF idle_ok [OF assms(1)] assms(2)] .
  show "accounted q j" if "Enqueue j ty payload at \<in> set evs" for j ty payload at
  proof -
    have "accounted (fst (q, ws)) j"
      using assms(2) idle_ok [OF assms(1)] by (rule run_accounts) (use that in blast)
    then show ?thesis by simp
  qed
  fix e
  assume e: "e \<in> set (jq_entries q)"
  obtain i fs where ifs: "e = (i, fs)" by (rule prod.exhaust)
  have "(i, fs) \<in> set (undelivered q) \<or> (\<exists>p. map_of (jq_pending q) i = Some p)"
  proof (cases "i \<le> jq_last q")
    case True
    have "stream_ok q" using ok by simp
    then have "i \<in> fst ` set (jq_pending q)" using e True unfolding ifs stream_ok_def by force
    then show ?thesis by (cases "map_of (jq_pending q) i") (simp_all add: map_of_eq_None_iff)
  qed (use e ifs in \<open>simp add: undelivered_def\<close>)
  moreover have "attempt_ok c fs" using ok e ifs by auto
  ultimately show "case e of (i, fs) \<Rightarrow> attempt_ok c fs \<and>
      ((i, fs) \<in> set (undelivered q) \<or> (\<exists>p. map_of (jq_pending q) i = Some p))"
    unfolding ifs by simp
qed

definition sample_events :: "queue_event list" where
  "sample_events =
     [Enqueue ''j'' run_task_job (JObj [(''task_id'', JStr ''t'')]) ''now'', Fetch ''a'' 0, Take ''a'', Die ''a'',
      ClaimStale ''b'' 900000, Take ''b'', Settle ''b'' (\<lambda>_. Some ''boom'')]"

theorem no_job_lost_witness:
  "\<exists>q ws. exec (queue_step default_settings Some (\<lambda>_. [])) idle_system sample_events = Some (q, ws) \<and>
     accounted q ''j'' \<and> map fst (jq_entries q) = [2] \<and> jq_pending q = []"
proof -
  have e: "map_option (\<lambda>s. (map fst (jq_entries (fst s)), map fst (jq_pending (fst s))))
      (exec (queue_step default_settings Some (\<lambda>_. [])) idle_system sample_events) = Some ([2], [])"
    by code_simp
  then obtain q ws where r: "exec (queue_step default_settings Some (\<lambda>_. [])) idle_system sample_events = Some (q, ws)"
    "map fst (jq_entries q) = [2]" "jq_pending q = []"
    by (cases "exec (queue_step default_settings Some (\<lambda>_. [])) idle_system sample_events") auto
  have "1 \<le> worker_max_attempts default_settings" by (simp add: default_settings_def)
  from no_job_lost [OF this r(1)] r show ?thesis by (auto simp: sample_events_def)
qed

section \<open>A worker alone\<close>

definition attempts_left :: "settings \<Rightarrow> job_queue \<Rightarrow> nat" where
  "attempts_left c q =
     sum_list (map (\<lambda>e. nat (worker_max_attempts c + 1 - (case attempt_of (snd e) of Inl _ \<Rightarrow> 0 | Inr n \<Rightarrow> n)))
       (jq_entries q))"

definition keeps_system :: "settings \<Rightarrow> job_system \<Rightarrow> job_system \<Rightarrow> bool" where
  "keeps_system c s t =
     (queue_ok c s \<longrightarrow> queue_ok c t \<and> (\<forall>j. accounted (fst s) j \<longrightarrow> accounted (fst t) j))"

lemma keeps_system_refl [simp]: "keeps_system c s s"
  by (simp add: keeps_system_def)

lemma keeps_system_trans: "keeps_system c s t \<Longrightarrow> keeps_system c t u \<Longrightarrow> keeps_system c s u"
  by (auto simp: keeps_system_def)

lemma after_keeps: "keeps_system c s (after (queue_step c uuid_text library) s ev)"
proof (cases "queue_step c uuid_text library s ev")
  case (Some t)
  obtain q ws q' ws' where st: "s = (q, ws)" "t = (q', ws')" by (meson prod.exhaust)
  show ?thesis
    using step_keeps [of c q ws uuid_text library ev q' ws'] Some
    unfolding st by (simp add: keeps_system_def after_def keeps_jobs_def)
qed (simp add: after_def)

lemma process_one_keeps: "keeps_system c (fst st) (fst (process_one c uuid_text library run w st))"
  unfolding process_one_def
  by (auto simp: Let_def split: hands.split sum.split prod.split
      intro: after_keeps keeps_system_trans [OF after_keeps after_keeps])

lemma process_batch_keeps: "keeps_system c (fst st) (fst (process_batch c uuid_text library run w st))"
proof -
  have "keeps_system c (fst st) (fst ((process_one c uuid_text library run w ^^ n) st))" for n
    by (induction n) (auto intro: keeps_system_trans process_one_keeps)
  then show ?thesis by (simp add: process_batch_def)
qed

lemma batch_after_keeps:
  "keeps_system c s (fst (process_batch c uuid_text library run w
     (after (queue_step c uuid_text library) s ev, x)))"
  using keeps_system_trans [OF after_keeps [of c s uuid_text library ev]]
    process_batch_keeps [of c "(after (queue_step c uuid_text library) s ev, x)" uuid_text library run w]
  by simp

lemma worker_round_keeps: "keeps_system c (fst st) (fst (worker_round c uuid_text library run w st now))"
proof -
  obtain s x where st: "st = (s, x)" by (rule prod.exhaust)
  obtain t y where t: "process_batch c uuid_text library run w
      (after (queue_step c uuid_text library) s (ClaimStale w now), x) = (t, y)" by (rule prod.exhaust)
  have "keeps_system c s t"
    using batch_after_keeps [of c s uuid_text library run w "ClaimStale w now" x] t by simp
  then have "keeps_system c s (fst (process_batch c uuid_text library run w
      (after (queue_step c uuid_text library) t (Fetch w now), y)))"
    using batch_after_keeps by (rule keeps_system_trans)
  then show ?thesis using t by (simp add: worker_round_def st Let_def)
qed

lemma fresh_batch [simp]: "fresh_worker\<lparr>wk_batch := []\<rparr> = fresh_worker" "wk_batch fresh_worker = []"
  "wk_hands fresh_worker = Free"
  by (simp_all add: fresh_worker_def)

text \<open>With nothing pending, the stale claim finds nothing and the round serves the first message.\<close>

lemma claim_nothing:
  assumes "ws w = fresh_worker" "jq_pending q = []"
  shows "after (queue_step c uuid_text library) (q, ws) (ClaimStale w now) = (q, ws)"
proof -
  have "xautoclaim w (worker_visibility_timeout_seconds c * 1000) now 10 q = ([], q\<lparr>jq_pending := []\<rparr>)"
    using assms(2) by (simp add: xautoclaim_def idle_ids_def List.map_filter_simps)
  moreover have "q\<lparr>jq_pending := []\<rparr> = q" using assms(2) by (cases q) simp
  ultimately show ?thesis using assms(1) by (simp add: after_def fun_upd_idem)
qed

lemma all_undelivered:
  assumes "stream_ok q" "jq_pending q = []"
  shows "undelivered q = jq_entries q"
  using assms by (force simp: undelivered_def stream_ok_def filter_id_conv)

lemma round_idle:
  assumes "stream_ok q" "ws w = fresh_worker" "jq_pending q = []" "jq_entries q = []"
  shows "worker_round c uuid_text library run w ((q, ws), x) now = ((q, ws), x)"
proof -
  have "undelivered q = []" using all_undelivered [OF assms(1,3)] assms(4) by simp
  then have "after (queue_step c uuid_text library) (q, ws) (Fetch w now) = (q, ws)"
    using assms(2) by (simp add: after_def xreadgroup_def fun_upd_idem)
  then show ?thesis
    using claim_nothing [where ws = ws and w = w, OF assms(2,3)] assms(2)
    by (simp add: worker_round_def process_batch_def Let_def)
qed

lemma settle_shape:
  assumes "settle_job c i fs failure q = Inr q'" "attempt_ok c fs" "jq_pending q = [(i, p)]"
    "jq_entries q = (i, fs) # es" "i \<notin> fst ` set es" "i < jq_next q"
  shows "jq_pending q' = [] \<and> attempts_left c q' < attempts_left c q"
proof -
  obtain n where n: "attempt_of fs = Inr n" "1 \<le> n" "n \<le> worker_max_attempts c"
    using assms(2) by (auto simp: attempt_ok_def)
  have es: "filter (\<lambda>e. fst e \<noteq> i) es = es" using assms(5) by (auto simp: filter_id_conv)
  have "jq_pending q' = []" "jq_entries q' = es \<or> (n < worker_max_attempts c \<and>
      (\<exists>error. jq_entries q' = es @ [(jq_next q, retried_fields n fs error)]))"
    using assms(1,3-6) n es
    by (auto simp: settle_job_def complete_job_def dead_letter_def retry_job_def xack_xdel_def xadd_def
        split: option.splits if_splits)
  then show ?thesis
    using n assms(4) by (auto simp: attempts_left_def attempt_of_retried)
qed

lemma round_serves:
  assumes "queue_ok c (q, ws)" "ws w = fresh_worker" "jq_pending q = []" "jq_entries q = (i, fs) # es"
  obtains q' x' where "worker_round c uuid_text library run w ((q, ws), x) now = ((q', ws), x')"
    "jq_pending q' = []" "attempts_left c q' < attempts_left c q"
proof -
  have ok: "stream_ok q" "attempt_ok c fs" "1 \<le> worker_max_attempts c" using assms(1,4) by auto
  define p where "p = \<lparr>pe_consumer = w, pe_time = now, pe_count = 1\<rparr>"
  define q1 where "q1 = q\<lparr>jq_last := i, jq_pending := [(i, p)]\<rparr>"
  have shape: "jq_pending q1 = [(i, p)]" "jq_entries q1 = (i, fs) # es" "i \<notin> fst ` set es" "i < jq_next q1"
    using ok(1) assms(4) by (auto simp: q1_def stream_ok_def)
  have left: "attempts_left c q1 = attempts_left c q" by (simp add: attempts_left_def q1_def)
  have fetched: "after (queue_step c uuid_text library) (q, ws) (Fetch w now) =
      (q1, ws(w := fresh_worker\<lparr>wk_batch := [(i, fs)]\<rparr>))"
    using all_undelivered [OF ok(1) assms(3)] assms(2-4)
    by (simp add: after_def xreadgroup_def q1_def p_def)
  have taken: "after (queue_step c uuid_text library) (q1, ws(w := fresh_worker\<lparr>wk_batch := [(i, fs)]\<rparr>)) (Take w) =
      (q1, ws(w := \<lparr>wk_batch = [], wk_hands = Working i fs\<rparr>))"
    using ok(3) shape(1) by (simp add: after_def fresh_worker_def pending_deliveries_def p_def)
  have settled: "\<exists>q'. after (queue_step c uuid_text library)
        (q1, ws(w := \<lparr>wk_batch = [], wk_hands = Working i fs\<rparr>)) (Settle w f) = (q', ws) \<and>
      jq_pending q' = [] \<and> attempts_left c q' < attempts_left c q" for f
  proof -
    obtain q' where q': "settle_job c i fs (job_failure uuid_text library fs f) q1 = Inr q'"
      using settle_runs [OF ok(2)] by blast
    have "ws(w := \<lparr>wk_batch = [], wk_hands = Free\<rparr>) = ws"
      using assms(2) by (simp add: fresh_worker_def fun_upd_idem)
    then show ?thesis using q' settle_shape [OF q' ok(2) shape] left by (simp add: after_def)
  qed
  have "\<exists>q' x'. process_one c uuid_text library run w
      ((q1, ws(w := fresh_worker\<lparr>wk_batch := [(i, fs)]\<rparr>)), x) = ((q', ws), x') \<and>
      jq_pending q' = [] \<and> attempts_left c q' < attempts_left c q"
    using settled by (fastforce simp: process_one_def Let_def taken split: sum.split prod.split)
  then show ?thesis
    using that claim_nothing [where ws = ws and w = w, OF assms(2,3)] assms(2)
    by (auto simp: worker_round_def process_batch_def fetched Let_def)
qed

lemma rounds_drain:
  assumes "queue_ok c (q, ws)" "ws w = fresh_worker" "jq_pending q = []" "attempts_left c q \<le> length nows"
    "foldl (worker_round c uuid_text library run w) ((q, ws), x) nows = ((q', ws'), x')"
  shows "jq_entries q' = [] \<and> jq_pending q' = [] \<and> (\<forall>j. accounted q j \<longrightarrow> accounted q' j)"
  using assms
proof (induction nows arbitrary: q x)
  case Nil
  have "attempt_ok c (snd e)" if "e \<in> set (jq_entries q)" for e using Nil.prems(1) that by auto
  then have "jq_entries q = []"
    using Nil.prems(4) by (cases "jq_entries q") (fastforce simp: attempts_left_def attempt_ok_def)+
  then show ?case using Nil.prems by simp
next
  case (Cons now nows)
  show ?case
  proof (cases "jq_entries q")
    case Nil
    have "stream_ok q" using Cons.prems(1) by simp
    then have "worker_round c uuid_text library run w ((q, ws), x) now = ((q, ws), x)"
      using Cons.prems(2,3) Nil by (rule round_idle)
    then have "foldl (worker_round c uuid_text library run w) ((q, ws), x) nows = ((q', ws'), x')"
      using Cons.prems(5) by simp
    moreover have "attempts_left c q = 0" using Nil by (simp add: attempts_left_def)
    ultimately show ?thesis using Cons.IH [OF Cons.prems(1-3)] by simp
  next
    case (Cons e es)
    obtain i fs where e: "e = (i, fs)" by (rule prod.exhaust)
    obtain r y where r: "worker_round c uuid_text library run w ((q, ws), x) now = ((r, ws), y)"
      "jq_pending r = []" "attempts_left c r < attempts_left c q"
      using round_serves [where ws = ws and w = w, OF Cons.prems(1-3) Cons [unfolded e]] by metis
    have "keeps_system c (q, ws) (r, ws)"
      using worker_round_keeps [of c "((q, ws), x)" uuid_text library run w now] r(1) by simp
    then have k: "queue_ok c (r, ws)" "\<forall>j. accounted q j \<longrightarrow> accounted r j"
      using Cons.prems(1) by (simp_all add: keeps_system_def)
    have "jq_entries q' = [] \<and> jq_pending q' = [] \<and> (\<forall>j. accounted r j \<longrightarrow> accounted q' j)"
      using Cons.prems(2,4,5) r by (intro Cons.IH [OF k(1)]) simp_all
    then show ?thesis using k(2) by blast
  qed
qed

lemma attempts_left_bound:
  assumes "\<forall>e \<in> set (jq_entries q). attempt_ok c (snd e)"
  shows "attempts_left c q \<le> length (jq_entries q) * nat (worker_max_attempts c)"
proof -
  have bound: "sum_list (map f xs) \<le> length xs * m" if "\<And>x. x \<in> set xs \<Longrightarrow> f x \<le> m"
    for f :: "nat \<times> fields \<Rightarrow> nat" and xs m
    using that by (induction xs) (auto intro: add_mono)
  show ?thesis
    unfolding attempts_left_def
  proof (rule bound)
    fix e
    assume "e \<in> set (jq_entries q)"
    then obtain n where "attempt_of (snd e) = Inr n" "1 \<le> n" using assms by (auto simp: attempt_ok_def)
    then show "nat (worker_max_attempts c + 1 - (case attempt_of (snd e) of Inl _ \<Rightarrow> 0 | Inr n \<Rightarrow> n)) \<le>
        nat (worker_max_attempts c)" by simp
  qed
qed


definition sample_queue :: job_queue where
  "sample_queue = xadd (task_job ''j'' ''t'' ''now'') empty_queue"


section \<open>A crash during a delegation\<close>

text \<open>
  A running parent whose child is running or pending: recovery requeues at most the child, for
  which the queue has no message, and the message of the parent finds a row that cannot be
  claimed. So no recovery, however often it runs, lets the parent go on.
\<close>

definition delegating :: "task list \<Rightarrow> string \<Rightarrow> string \<Rightarrow> bool" where
  "delegating rows i k =
     ((\<forall>t \<in> set rows. task_id t = i \<longrightarrow> status t = ''running'') \<and>
      (\<exists>u \<in> set rows. task_id u = k \<and> parent_id u = Some i \<and> status u \<in> {''running'', ''pending''}))"

lemma delegating_recovered:
  assumes "delegating rows i k" "0 < secs"
  shows "delegating (snd (reconcile_interrupted_tasks rows secs True stale)) i k"
proof -
  let ?f = "reconcile_row rows secs True stale"
  obtain u where u: "u \<in> set rows" "task_id u = k" "parent_id u = Some i" "status u \<in> {''running'', ''pending''}"
    using assms(1) by (auto simp: delegating_def)
  have parent: "?f t = t" if "t \<in> set rows" "task_id t = i" for t
  proof -
    have "active_child rows t" using u that unfolding active_child_def list_ex_iff by blast
    then show ?thesis using assms(2) by (simp add: reconcile_row_def interrupted_def)
  qed
  have same: "task_id (?f t) = task_id t" for t
    by (simp add: reconcile_row_def requeued_def failed_over_def)
  have "task_id (?f u) = k" "parent_id (?f u) = Some i" "status (?f u) \<in> {''running'', ''pending''}"
    using u by (auto simp: reconcile_row_def requeued_def)
  then show ?thesis
    using assms(1) parent same u(1)
    by (auto simp: delegating_def reconcile_interrupted_tasks_def)
qed

lemma delegation_crash_strands:
  assumes "delegating rows i k" "0 < secs"
  shows "claim_pending (fold (\<lambda>stale rows. snd (reconcile_interrupted_tasks rows secs True stale)) stales rows) i =
    (None, fold (\<lambda>stale rows. snd (reconcile_interrupted_tasks rows secs True stale)) stales rows)"
proof -
  have "delegating (fold (\<lambda>stale rows. snd (reconcile_interrupted_tasks rows secs True stale)) stales rows) i k"
    using assms by (induction stales arbitrary: rows) (auto intro: delegating_recovered)
  then show ?thesis
    by (auto simp: claim_pending_def claimable_def delegating_def split: option.split dest: find_task_SomeD)
qed

end
