(* ===== verification/Spec2Isabelle.thy ===== *)
theory Spec2Isabelle
  imports Agent_Closing Agent_Delegation Agent_Gates Agent_Ledger Change_Invariants Egress_Race Task_View Triggers Work_Queue
begin

text \<open>
  Loop is an autonomous agent runtime (\<^verbatim>\<open>src/apps/api/app\<close>, Python). A user publishes a task; a
  worker claims it and lets a language model act through tools, step after step, until the task
  is verified, bounded, paused, failed or cancelled. Every step is sealed into a hash chain,
  every delivery gets a signed receipt, and a task bound to a local Git project delivers a
  change set that the user inspects, applies, undoes or revises. This development models the
  code that decides what may happen: the bodies that are accepted, the life cycle, the queue,
  authority, the acceptance contract, the run of the agent, completion, the ledger, receipts,
  change sets and the egress proxy. Paths below are relative to \<^verbatim>\<open>src/apps/api/app\<close>.

  \<^bold>\<open>Foundations.\<close>
  \<open>Prelude\<close> fixes Python strings (bytes of the UTF-8 encoding), dictionaries (association lists
  in insertion order) and numerals. \<open>Py_Json\<close> holds JSON values with \<^verbatim>\<open>json.dumps\<close>,
  \<^verbatim>\<open>json.loads\<close> and Python's conversions with the exceptions they raise; \<open>Json_Marker\<close> shows
  that a text cut and marked by a reader does not parse. \<open>Sha256\<close> is SHA-256 on 32-bit words,
  \<open>Regex\<close> the backtracking matcher behind \<^verbatim>\<open>re\<close>, \<open>Paths\<close> what the code uses of \<^verbatim>\<open>pathlib\<close>,
  \<open>Hosts\<close> of \<^verbatim>\<open>ipaddress\<close> and \<open>Web_Text\<close> of \<^verbatim>\<open>base64\<close>, \<^verbatim>\<open>urllib.parse\<close> and the codecs.
  \<open>Transition\<close> states guarded state machines as locales; \<open>Effects\<close> is the monad of operations
  on an outside world, in which a raised exception keeps the state reached; \<open>Frames\<close> says what
  an operation leaves alone.

  \<^bold>\<open>Components and their theories.\<close>
  \<^item> \<open>Loop_Policy\<close>: \<^verbatim>\<open>domain/task.py\<close>, \<^verbatim>\<open>domain/loop.py\<close>: states, events, the table of
    transitions and \<^verbatim>\<open>LoopTransitionPolicy.apply\<close>.
  \<^item> \<open>Ledger\<close>: \<^verbatim>\<open>services/ledger.py\<close>: the step hashes, \<^verbatim>\<open>verify_chain\<close>, and the two writers of
    steps (\<^verbatim>\<open>_record_step\<close>, \<^verbatim>\<open>TaskService.respond\<close>).
  \<^item> \<open>Capability_Model\<close>: \<^verbatim>\<open>domain/capability.py\<close>, \<^verbatim>\<open>tools/envelope.py\<close>: typed authority.
    \<open>Authority\<close>, \<open>Authority_Tokens\<close>, \<open>Revocation\<close>: \<^verbatim>\<open>domain/authority_token.py\<close>,
    \<^verbatim>\<open>domain/authority_revocation.py\<close>: host policies, signed tokens, and the store of revocations
    with its three backends.
  \<^item> \<open>Config\<close>: \<^verbatim>\<open>core/config.py\<close>: the settings the others read and the production gate.
    \<open>Redaction\<close>: \<^verbatim>\<open>core/redaction.py\<close>. \<open>Skills\<close>: \<^verbatim>\<open>services/skills.py\<close>. \<open>Memory\<close>:
    \<^verbatim>\<open>services/memory.py\<close>.
  \<^item> \<open>Tool_Base\<close>, \<open>Checks\<close>, \<open>Completion\<close>: \<^verbatim>\<open>tools/base.py\<close>, \<^verbatim>\<open>tools/shell.py\<close> (results),
    \<^verbatim>\<open>services/verification.py\<close>, \<^verbatim>\<open>services/completion.py\<close>: machine checks on fresh copies and
    the gates of a completion.
  \<^item> \<open>Command_Policy\<close>, \<open>Tool_Registry\<close>: \<^verbatim>\<open>tools/policy.py\<close>, \<^verbatim>\<open>tools/registry.py\<close>,
    \<^verbatim>\<open>tools/guards.py\<close>: the verdict on a command line and the guarded dispatch of tool calls.
  \<^item> \<open>Progress\<close>, \<open>Loop_Services\<close>: \<^verbatim>\<open>services/progress.py\<close>, \<^verbatim>\<open>services/loop/*.py\<close>: history,
    stall detection, token allocation, decision parsing, delegation, dispatch, acceptance.
  \<^item> \<open>Contract_Schema\<close>, \<open>Contract_Discovery\<close>, \<open>Contract_Checks\<close>, \<open>Contract_Review\<close>,
    \<open>Contract_Compile\<close>: \<^verbatim>\<open>schemas/contract.py\<close>, \<^verbatim>\<open>services/contract.py\<close>: discovery of a
    repository, the proposal read from a model's reply, the deterministic review, the critic and
    the locked contract. \<open>Contract_Facts\<close>, \<open>Contract_Safety\<close>, \<open>Contract_Address\<close> prove what a
    locked contract is; \<open>Contract_Sample\<close> is the input of the witnesses.
  \<^item> \<open>Task_Model\<close>, \<open>Task_Store\<close>: \<^verbatim>\<open>db/models/task.py\<close>, \<^verbatim>\<open>repositories/task.py\<close> and the recovery
    query of \<^verbatim>\<open>services/runner.py\<close>: the task row, the table, claiming, descendants.
    \<open>Task_Schema\<close>, \<open>Task_View\<close>: \<^verbatim>\<open>schemas/task.py\<close>: the bodies the interface accepts and the
    answer for a row.
  \<^item> \<open>Workspace\<close>, \<open>Change_Set\<close>: \<^verbatim>\<open>tools/workspace.py\<close>, \<^verbatim>\<open>services/changeset.py\<close>: confined
    file access; the Git operations behind local projects.
  \<^item> \<open>Receipt\<close>, \<open>Product_Session\<close>: \<^verbatim>\<open>services/receipt.py\<close>, \<^verbatim>\<open>services/product_session.py\<close>.
  \<^item> \<open>Task_Service\<close>, \<open>Change_Service\<close>: \<^verbatim>\<open>services/task.py\<close>, each use case of \<^verbatim>\<open>TaskService\<close> as an
    operation on the state \<open>service\<close> (the tables, the metadata files, the source locks and the
    outside world), with explicit sessions: uncommitted rows are rolled back when it raises.
    \<open>Task_Invariants\<close> and \<open>Change_Invariants\<close> prove what they guarantee together.
  \<^item> \<open>Agent_Base\<close>, \<open>Agent_Phases\<close>, \<open>Agent_Loop\<close>, \<open>Agent_Contract\<close>, \<open>Agent_Grants\<close>, \<open>Agent_Run\<close>:
    \<^verbatim>\<open>services/agent_react.py\<close>: a run of a claimed task from its gates (authority, contract,
    sandbox, gateways) through the loop with every handler to revocation and clean-up, as
    operations on the row, its steps and the workspace. \<open>Act_Logic\<close> and \<open>Agent_Frame\<close> are the
    rules for reasoning about them; \<open>Agent_Gates\<close>, \<open>Agent_Delegation\<close>, \<open>Agent_Ledger\<close>,
    \<open>Agent_States\<close>, \<open>Agent_Admission\<close> and \<open>Agent_Closing\<close> prove what a run guarantees;
    \<open>Agent_Sample\<close> is the input of the witnesses.
  \<^item> \<open>Work_Queue\<close>: \<^verbatim>\<open>workers/queue.py\<close>, \<^verbatim>\<open>workers/worker.py\<close>: the durable queue on a Redis stream
    and the workers, which may die between any two commands.
  \<^item> \<open>Triggers\<close>: \<^verbatim>\<open>services/trigger.py\<close>, \<^verbatim>\<open>repositories/trigger.py\<close>, \<^verbatim>\<open>schemas/trigger.py\<close>:
    templates that a webhook or the scheduler turns into tasks.
  \<^item> \<open>Egress_Proxy\<close>, \<open>Egress_Race\<close>: \<^verbatim>\<open>egress_proxy/*.py\<close>: the decisions of the forward proxy, and
    its handlers interleaved with revocations.

  \<^bold>\<open>Parameters.\<close> What is not under \<^verbatim>\<open>src/\<close> is an argument: \<^verbatim>\<open>subprocess.run\<close> and the file
  system (\<open>host_ops\<close>), Ed25519 and PEM parsing (\<open>crypto\<close>), the \<^verbatim>\<open>jwt\<close> package (\<open>token_lib\<close>),
  the IANA tables and IDNA (\<open>host_lib\<close>), the lax conversions of pydantic (\<open>coercions\<close>), the
  Python parser that checks an inline script, the language models, the tools a run executes and
  the providers it starts, name resolution and connections, the clock and platform (\<open>run_info\<close>),
  the identifiers a database generates and the rows other sessions commit meanwhile. The
  theorems assume nothing of them beyond what their statements show; git in particular is
  arbitrary in the safety theorems. Redis and SQLite commands are written out as documented, on
  the rows the program uses. SHA-256 is concrete, and collision resistance is never assumed:
  tamper evidence is stated as ``or the two texts collide''.

  \<^bold>\<open>Bounds and fuel.\<close> The JSON parser runs on fuel twice the length of the text, enough for
  every serialised value (round trip); the regular expression matcher terminates because a
  repetition must consume; \<^verbatim>\<open>list_descendants\<close> ends because each round marks unseen rows. The
  loop of a run recurses on the step limit it enforces; a contract is compiled in at most three
  attempts of two model calls. Integers are Python's unbounded integers, floats are decimals with
  infinities and NaN, without the rounding of binary64. Case and whitespace predicates are those
  of ASCII.

  \<^bold>\<open>Not modelled.\<close> Cancellation of a running coroutine and other scheduling inside one run, beyond
  the interleavings stated; the HTTP routes and the chat channels, which only pass values to the
  services; the model clients, the mail, calendar, vision and browser tools, the sandboxes and
  the provider gateway, which are input and output to other systems; the texts of prompts; the
  audit store of the proxy; the trimming of the dead-letter
  stream; telemetry; migrations; evaluation and acceptance scripts.
\<close>

end
